(* ===== verification/Prelude.thy ===== *)
theory Prelude
  imports Complex_Main "HOL-Library.AList" "HOL-Library.Char_ord" "HOL-Library.List_Lexorder"
    "HOL-Library.Product_Lexorder"
begin

text \<open>
  Shared notions of the development: the JavaScript values every component uses (numbers,
  strings and their truthiness, insertion-ordered \<open>Map\<close>s), the prefix and digit tests that
  stand for the regular expressions of the source, and the locale of metered resources that
  both kinds of rate limiter implement.

  JavaScript numbers that the program computes with are modelled as rationals. The program
  only adds, subtracts, scales and compares finite numbers, so the model is exact where a
  double is exact and differs by rounding otherwise. The values \<open>NaN\<close> and the infinities
  occur only at the trust boundary, where \<open>Protocol\<close> represents them.
\<close>

named_theorems guard_simps \<open>definitions of the message guards\<close>
named_theorems store_simps \<open>definitions of the store operations\<close>
named_theorems frame_simps \<open>what an operation leaves unchanged\<close>

type_synonym num_ms = rat

text \<open>\<open>Math.round\<close>.\<close>

definition js_round :: "rat \<Rightarrow> rat" where
  "js_round r = of_int \<lfloor>r + 1 / 2\<rfloor>"

lemma js_round_error: "\<bar>js_round r - r\<bar> \<le> 1 / 2"
  unfolding js_round_def by linarith

subsection \<open>Strings\<close>

definition truthy :: "string option \<Rightarrow> bool" where
  "truthy s = (case s of None \<Rightarrow> False | Some t \<Rightarrow> t \<noteq> [])"

lemma truthy_None [simp]: "\<not> truthy None"
  and truthy_Some [simp]: "truthy (Some t) \<longleftrightarrow> t \<noteq> []"
  by (simp_all add: truthy_def)

lemma truthyE [elim]:
  assumes "truthy s"
  obtains t where "s = Some t" "t \<noteq> []"
  using assms by (auto simp: truthy_def split: option.splits)

fun strip_prefix :: "string \<Rightarrow> string \<Rightarrow> string option" where
  "strip_prefix [] s = Some s"
| "strip_prefix (p # ps) [] = None"
| "strip_prefix (p # ps) (c # cs) = (if p = c then strip_prefix ps cs else None)"

lemma strip_prefix_eq: "strip_prefix p s = Some r \<longleftrightarrow> s = p @ r"
  by (induction p s rule: strip_prefix.induct) auto

lemma strip_prefix_append [simp]: "strip_prefix p (p @ r) = Some r"
  by (simp add: strip_prefix_eq)

definition is_digit :: "char \<Rightarrow> bool" where
  "is_digit c = (CHR ''0'' \<le> c \<and> c \<le> CHR ''9'')"

definition is_upper :: "char \<Rightarrow> bool" where
  "is_upper c = (CHR ''A'' \<le> c \<and> c \<le> CHR ''Z'')"

definition is_lower :: "char \<Rightarrow> bool" where
  "is_lower c = (CHR ''a'' \<le> c \<and> c \<le> CHR ''z'')"

definition to_lower :: "char \<Rightarrow> char" where
  "to_lower c = (if is_upper c then char_of (of_char c + 32 :: nat) else c)"

definition is_alnum :: "char \<Rightarrow> bool" where
  "is_alnum c = (is_digit c \<or> is_upper c \<or> is_lower c)"

definition all_digits :: "string \<Rightarrow> bool" where
  "all_digits s = (s \<noteq> [] \<and> list_all is_digit s)"

definition positive_digits :: "string \<Rightarrow> bool" where
  "positive_digits s =
     (case s of [] \<Rightarrow> False | c # cs \<Rightarrow> is_digit c \<and> c \<noteq> CHR ''0'' \<and> list_all is_digit cs)"

text \<open>\<open>String.prototype.trim\<close> on code units up to 255, and \<open>split\<close> with a one-character separator.\<close>

definition js_space :: "char \<Rightarrow> bool" where
  "js_space c = (let n = of_char c :: nat in n \<in> {9, 10, 11, 12, 13, 32, 160})"

definition js_trim :: "string \<Rightarrow> string" where
  "js_trim s = rev (dropWhile js_space (rev (dropWhile js_space s)))"

fun split_on :: "char \<Rightarrow> string \<Rightarrow> string list" where
  "split_on d [] = [[]]"
| "split_on d (c # cs) =
     (if c = d then [] # split_on d cs
      else case split_on d cs of [] \<Rightarrow> [[c]] | p # ps \<Rightarrow> (c # p) # ps)"

lemma split_on_append: "split_on d (a @ d # b) = split_on d a @ split_on d b"
proof (induction a)
  case (Cons x a)
  have "split_on d a \<noteq> []" by (cases a) (auto split: list.split)
  then show ?case using Cons by (auto split: list.splits)
qed simp

definition strip_trailing_slashes :: "string \<Rightarrow> string" where
  "strip_trailing_slashes s = rev (dropWhile (\<lambda>c. c = CHR ''/'') (rev s))"

lemma strip_trailing_slashes_idem [simp]:
  "strip_trailing_slashes (strip_trailing_slashes s) = strip_trailing_slashes s"
proof -
  have "dropWhile P (dropWhile P xs) = dropWhile P xs" for P :: "char \<Rightarrow> bool" and xs
    by (induction xs) auto
  then show ?thesis by (simp add: strip_trailing_slashes_def)
qed

lemma strip_trailing_slashes_id:
  "s \<noteq> [] \<Longrightarrow> last s \<noteq> CHR ''/'' \<Longrightarrow> strip_trailing_slashes s = s"
  by (cases s rule: rev_cases) (simp_all add: strip_trailing_slashes_def)

subsection \<open>Insertion-ordered maps\<close>

text \<open>
  A JavaScript \<open>Map\<close> iterates in insertion order, and setting a present key keeps its place.
  \<open>AList.update\<close> and \<open>AList.delete\<close> do exactly that on an association list.
\<close>

type_synonym ('k, 'v) js_map = "('k \<times> 'v) list"

abbreviation js_get :: "('k, 'v) js_map \<Rightarrow> 'k \<Rightarrow> 'v option" where
  "js_get \<equiv> map_of"

abbreviation js_set :: "'k \<Rightarrow> 'v \<Rightarrow> ('k, 'v) js_map \<Rightarrow> ('k, 'v) js_map" where
  "js_set \<equiv> AList.update"

abbreviation js_delete :: "'k \<Rightarrow> ('k, 'v) js_map \<Rightarrow> ('k, 'v) js_map" where
  "js_delete \<equiv> AList.delete"

abbreviation js_has :: "('k, 'v) js_map \<Rightarrow> 'k \<Rightarrow> bool" where
  "js_has m k \<equiv> map_of m k \<noteq> None"

definition js_wf :: "('k, 'v) js_map \<Rightarrow> bool" where
  "js_wf m = distinct (map fst m)"

lemma js_wf_Nil [simp]: "js_wf []"
  by (simp add: js_wf_def)

lemma js_wf_set [simp]: "js_wf m \<Longrightarrow> js_wf (js_set k v m)"
  by (simp add: js_wf_def distinct_update)

lemma js_wf_delete [simp]: "js_wf m \<Longrightarrow> js_wf (js_delete k m)"
  by (simp add: js_wf_def distinct_delete)

lemma js_wf_filter [simp]: "js_wf m \<Longrightarrow> js_wf (filter P m)"
  by (auto simp: js_wf_def intro: distinct_map_filter)

lemma js_get_set [simp]: "js_get (js_set k v m) k' = (if k' = k then Some v else js_get m k')"
  by (simp add: update_conv')

lemma js_get_delete [simp]: "js_get (js_delete k m) k' = (if k' = k then None else js_get m k')"
  by (simp add: delete_conv')

lemma js_get_filter:
  "js_wf m \<Longrightarrow> js_get (filter P m) k =
     (case js_get m k of None \<Rightarrow> None | Some v \<Rightarrow> if P (k, v) then Some v else None)"
proof (induction m)
  case (Cons x m)
  then show ?case
    by (cases x) (auto simp: js_wf_def split: option.splits dest: map_of_SomeD
        simp: map_of_eq_None_iff image_iff)
qed simp

lemma js_get_filter_key [simp]:
  "js_get (filter (\<lambda>(k, _). P k) m) k' = (if P k' then js_get m k' else None)"
  by (induction m) auto

lemma js_get_in_set: "js_wf m \<Longrightarrow> (k, v) \<in> set m \<longleftrightarrow> js_get m k = Some v"
  by (auto simp: js_wf_def map_of_is_SomeI dest: map_of_SomeD)

lemma js_get_Nil_iff: "m = [] \<longleftrightarrow> (\<forall>k. js_get m k = None)"
  by (cases m) auto

lemma js_delete_eq_filter: "js_delete k m = filter (\<lambda>p. fst p \<noteq> k) m"
  by (induction m) auto

lemma js_length_set:
  "length (js_set k v m) = (if js_has m k then length m else Suc (length m))"
  by (induction m) (auto split: if_splits)

lemma js_set_fst: "fst ` set (js_set k v m) = insert k (fst ` set m)"
  by (simp add: dom_update)

subsection \<open>Metered resources\<close>

text \<open>
  A limiter decides, attempt by attempt, whether an event may pass. Its contract is a
  potential: what the limiter may still grant at a moment. It is never negative, a granted
  attempt pays one unit, and between two moments it grows by at most \<open>rate\<close> per
  millisecond. Whatever the limiter is, the number of attempts it grants is then bounded.
\<close>

fun granted_count :: "('s \<Rightarrow> rat \<Rightarrow> bool \<times> 's) \<Rightarrow> 's \<Rightarrow> rat list \<Rightarrow> nat" where
  "granted_count take_one s [] = 0"
| "granted_count take_one s (t # ts) =
     (case take_one s t of (g, s') \<Rightarrow> (if g then 1 else 0) + granted_count take_one s' ts)"

locale metered =
  fixes take_one :: "'s \<Rightarrow> rat \<Rightarrow> bool \<times> 's"
    and potential :: "'s \<Rightarrow> rat \<Rightarrow> rat"
    and rate :: rat
    and ok :: "'s \<Rightarrow> rat \<Rightarrow> bool"
  assumes rate_nonneg: "0 \<le> rate"
    and potential_nonneg: "ok s t \<Longrightarrow> 0 \<le> potential s t"
    and potential_grows: "ok s t \<Longrightarrow> t \<le> t' \<Longrightarrow> potential s t' \<le> potential s t + rate * (t' - t)"
    and take_pays: "ok s t \<Longrightarrow> take_one s t = (granted, s') \<Longrightarrow>
           potential s' t + (if granted then 1 else 0) \<le> potential s t"
    and take_ok: "ok s t \<Longrightarrow> take_one s t = (granted, s') \<Longrightarrow> ok s' t"
    and ok_later: "ok s t \<Longrightarrow> t \<le> t' \<Longrightarrow> ok s t'"
begin

lemma granted_bound:
  assumes "ok s t0" and "sorted (t0 # ts)" and "\<forall>t \<in> set ts. t \<le> t1" and "t0 \<le> t1"
  shows "of_nat (granted_count take_one s ts) \<le> potential s t0 + rate * (t1 - t0)"
  using assms
proof (induction ts arbitrary: s t0)
  case Nil
  then show ?case
    using rate_nonneg by (simp add: potential_nonneg add_nonneg_nonneg)
next
  case (Cons t ts)
  obtain g s' where step: "take_one s t = (g, s')" by fastforce
  have le: "t0 \<le> t" "t \<le> t1" using Cons.prems by auto
  have okt: "ok s t" by (rule ok_later [OF Cons.prems(1) le(1)])
  have ok': "ok s' t" by (rule take_ok [OF okt step])
  have "of_nat (granted_count take_one s' ts) \<le> potential s' t + rate * (t1 - t)"
    by (rule Cons.IH [OF ok']) (use Cons.prems in auto)
  moreover have "potential s' t + (if g then 1 else 0) \<le> potential s t"
    by (rule take_pays [OF okt step])
  moreover have "potential s t \<le> potential s t0 + rate * (t - t0)"
    by (rule potential_grows [OF Cons.prems(1) le(1)])
  ultimately show ?case
    using step by (cases g) (auto simp: algebra_simps)
qed

end

end
