(* ===== verification/Video_Ref.thy ===== *)
theory Video_Ref
  imports Prelude
begin

text \<open>
  \<open>packages/protocol/src/video-ref.ts\<close>: which page addresses name a Bilibili video, and the
  normalized address that identifies it. Both the server (which refuses playback of another
  video than the shared one) and the extension (which decides whether a tab shows the shared
  video) compare normalized addresses only.

  \<open>new URL(...)\<close> belongs to the platform, not to the repository: the parser is the
  parameter \<open>parse_url\<close> of every definition here, and \<open>None\<close> stands for the \<open>TypeError\<close> it
  throws. What it returns is the record of the properties the source reads.
\<close>

record js_url =
  hostname :: string
  origin :: string
  pathname :: string
  search_params :: "(string \<times> string) list"

type_synonym url_parser = "string \<Rightarrow> js_url option"

definition search_param :: "js_url \<Rightarrow> string \<Rightarrow> string option" where
  "search_param u k = js_get (search_params u) k"

subsection \<open>Supported paths\<close>

datatype path_kind = Video | Bangumi | Festival | Medialist

definition is_supported_bilibili_host :: "string \<Rightarrow> bool" where
  "is_supported_bilibili_host h = (h = ''www.bilibili.com'')"

text \<open>\<open>[^/?]+\<close> and \<open>[^/]+\<close>: what a path segment may hold.\<close>

definition plain_segment :: "string \<Rightarrow> bool" where
  "plain_segment s = (s \<noteq> [] \<and> list_all (\<lambda>c. c \<noteq> CHR ''/'' \<and> c \<noteq> CHR ''?'') s)"

definition list_segment :: "string \<Rightarrow> bool" where
  "list_segment s = (s \<noteq> [] \<and> list_all (\<lambda>c. c \<noteq> CHR ''/'') s)"

definition segment_after :: "(string \<Rightarrow> bool) \<Rightarrow> string \<Rightarrow> string \<Rightarrow> string option" where
  "segment_after seg prefix path =
     (case strip_prefix prefix path of None \<Rightarrow> None | Some s \<Rightarrow> if seg s then Some s else None)"

definition media_list_segment :: "string \<Rightarrow> bool" where
  "media_list_segment s =
     (s = ''watchlater''
      \<or> (case strip_prefix ''ml'' s of None \<Rightarrow> False | Some ds \<Rightarrow> all_digits ds)
      \<or> all_digits s)"

text \<open>
  The alternatives \<open>list\<close> and \<open>medialist/play\<close> of the last pattern start differently, so at
  most one of the two prefixes fits.
\<close>

definition media_list_match :: "string \<Rightarrow> string option" where
  "media_list_match path =
     (case segment_after list_segment ''/list/'' path of
        Some s \<Rightarrow> Some s
      | None \<Rightarrow> segment_after list_segment ''/medialist/play/'' path)"

definition parse_supported_bilibili_path :: "string \<Rightarrow> (path_kind \<times> string) option" where
  "parse_supported_bilibili_path pathname_raw =
     (let path = strip_trailing_slashes pathname_raw in
      case segment_after plain_segment ''/video/'' path of
        Some s \<Rightarrow> Some (Video, s)
      | None \<Rightarrow>
     (case segment_after plain_segment ''/bangumi/play/'' path of
        Some s \<Rightarrow> Some (Bangumi, s)
      | None \<Rightarrow>
        if segment_after plain_segment ''/festival/'' path \<noteq> None then Some (Festival, path)
        else (case media_list_match path of
                Some s \<Rightarrow> if media_list_segment s then Some (Medialist, path) else None
              | None \<Rightarrow> None)))"

subsection \<open>References\<close>

record video_ref =
  ref_video_id :: string
  ref_normalized_url :: string

definition parse_bilibili_video_ref :: "url_parser \<Rightarrow> string option \<Rightarrow> video_ref option" where
  "parse_bilibili_video_ref parse_url url =
     (case url of None \<Rightarrow> None | Some s \<Rightarrow>
      if s = [] then None else
      (case parse_url s of None \<Rightarrow> None | Some parsed \<Rightarrow>
       if \<not> is_supported_bilibili_host (hostname parsed) then None else
       (case parse_supported_bilibili_path (pathname parsed) of None \<Rightarrow> None
        | Some (kind, pid) \<Rightarrow>
          let bvid = search_param parsed ''bvid'';
              p = search_param parsed ''p'' in
          if kind \<in> {Festival, Medialist} \<and> truthy bvid then
            (let b = the bvid; cid = search_param parsed ''cid'' in
             Some \<lparr> ref_video_id =
                      (if truthy cid then b @ '':'' @ the cid
                       else if truthy p then b @ '':p'' @ the p else b),
                    ref_normalized_url =
                      ''https://www.bilibili.com/video/'' @ b @
                      (if truthy cid then ''?cid='' @ the cid
                       else if truthy p then ''?p='' @ the p else []) \<rparr>)
          else if kind = Medialist then None
          else
            (let cid = (if kind = Video then search_param parsed ''cid'' else None);
                 base_path = origin parsed @ strip_trailing_slashes (pathname parsed) in
             Some \<lparr> ref_video_id =
                      (if truthy cid then pid @ '':'' @ the cid
                       else if truthy p then pid @ '':p'' @ the p else pid),
                    ref_normalized_url =
                      base_path @
                      (if truthy cid then ''?cid='' @ the cid
                       else if truthy p then ''?p='' @ the p else []) \<rparr>))))"

definition normalize_bilibili_url :: "url_parser \<Rightarrow> string option \<Rightarrow> string option" where
  "normalize_bilibili_url parse_url url =
     map_option ref_normalized_url (parse_bilibili_video_ref parse_url url)"

subsection \<open>What a path match says\<close>

lemma segment_after_eq:
  "segment_after seg prefix path = Some s \<longleftrightarrow> path = prefix @ s \<and> seg s"
  by (auto simp: segment_after_def strip_prefix_eq split: option.splits)

lemma strip_prefix_prefix_None:
  "length p = length q \<Longrightarrow> p \<noteq> q \<Longrightarrow> strip_prefix p (q @ s) = None"
proof (induction p arbitrary: q)
  case (Cons c p)
  then show ?case by (cases q) auto
qed simp

lemma segment_no_trailing_slash:
  "list_segment s \<Longrightarrow> strip_trailing_slashes (prefix @ s) = prefix @ s"
  by (rule strip_trailing_slashes_id)
     (auto simp: list_segment_def list_all_iff)

lemma plain_is_list_segment: "plain_segment s \<Longrightarrow> list_segment s"
  by (auto simp: plain_segment_def list_segment_def list_all_iff)

lemma parse_path_video:
  "plain_segment s \<Longrightarrow> parse_supported_bilibili_path (''/video/'' @ s) = Some (Video, s)"
  using segment_no_trailing_slash [OF plain_is_list_segment, of s "''/video/''"]
  by (simp add: parse_supported_bilibili_path_def segment_after_def)

lemma parse_path_bangumi:
  "plain_segment s \<Longrightarrow> parse_supported_bilibili_path (''/bangumi/play/'' @ s) = Some (Bangumi, s)"
  using segment_no_trailing_slash [OF plain_is_list_segment, of s "''/bangumi/play/''"]
  by (simp add: parse_supported_bilibili_path_def segment_after_def)

lemma parse_path_cases:
  assumes "parse_supported_bilibili_path path = Some (kind, pid)"
  shows "kind = Video \<and> strip_trailing_slashes path = ''/video/'' @ pid \<and> plain_segment pid
       \<or> kind = Bangumi \<and> strip_trailing_slashes path = ''/bangumi/play/'' @ pid \<and> plain_segment pid
       \<or> kind = Festival \<or> kind = Medialist"
  using assms
  by (auto simp: parse_supported_bilibili_path_def Let_def segment_after_eq
      split: option.splits if_splits)

subsection \<open>Normalization is a normal form\<close>

text \<open>
  What the development relies on of the platform's parser, stated for the addresses the
  source itself builds: parsing \<open>https://www.bilibili.com\<close> followed by a clean path and one
  query item gives those parts back. A value is clean when the parser neither splits nor
  decodes it; letters and digits always are.
\<close>

definition clean_value :: "string \<Rightarrow> bool" where
  "clean_value s = (s \<noteq> [] \<and> list_all is_alnum s)"

definition canonical_address :: "string \<Rightarrow> string \<Rightarrow> (string \<times> string) list \<Rightarrow> string" where
  "canonical_address dir seg q =
     ''https://www.bilibili.com'' @ dir @ seg @
     (case q of [] \<Rightarrow> [] | (k, v) # _ \<Rightarrow> ''?'' @ k @ ''='' @ v)"

definition clean_query :: "(string \<times> string) list \<Rightarrow> bool" where
  "clean_query q \<longleftrightarrow> (case q of [] \<Rightarrow> True
      | (k, v) # rest \<Rightarrow> rest = [] \<and> k \<in> {''cid'', ''p''} \<and> clean_value v)"

definition reads_canonical_urls :: "url_parser \<Rightarrow> bool" where
  "reads_canonical_urls parse_url \<longleftrightarrow>
     (\<forall>dir seg q. dir \<in> {''/video/'', ''/bangumi/play/''} \<longrightarrow> clean_value seg \<longrightarrow> clean_query q \<longrightarrow>
        parse_url (canonical_address dir seg q)
        = Some \<lparr> hostname = ''www.bilibili.com'', origin = ''https://www.bilibili.com'',
                 pathname = dir @ seg, search_params = q \<rparr>)"

text \<open>The parameters of an address that identify a video hold nothing the parser rewrites.\<close>

definition clean_params :: "js_url \<Rightarrow> bool" where
  "clean_params u \<longleftrightarrow>
     (\<forall>k \<in> {''bvid'', ''cid'', ''p''}.
        case search_param u k of None \<Rightarrow> True | Some v \<Rightarrow> v = [] \<or> clean_value v)"

lemma clean_value_plain: "clean_value s \<Longrightarrow> plain_segment s"
  by (auto simp: clean_value_def plain_segment_def list_all_iff is_alnum_def is_digit_def
      is_upper_def is_lower_def)

lemma clean_params_value:
  "clean_params u \<Longrightarrow> k \<in> {''bvid'', ''cid'', ''p''} \<Longrightarrow> truthy (search_param u k)
     \<Longrightarrow> clean_value (the (search_param u k))"
  by (auto simp: clean_params_def truthy_def split: option.splits)

definition kind_dir :: "path_kind \<Rightarrow> string" where
  "kind_dir kind = (if kind = Video then ''/video/'' else ''/bangumi/play/'')"

definition query_suffix :: "(string \<times> string) list \<Rightarrow> string" where
  "query_suffix q = (case q of [] \<Rightarrow> []
     | (k, v) # _ \<Rightarrow> (if k = ''cid'' then '':'' else '':p'') @ v)"

definition canonical_ref :: "path_kind \<Rightarrow> string \<Rightarrow> (string \<times> string) list \<Rightarrow> video_ref" where
  "canonical_ref kind seg q =
     \<lparr> ref_video_id = seg @ query_suffix q,
       ref_normalized_url = canonical_address (kind_dir kind) seg q \<rparr>"

definition canonical_query :: "path_kind \<Rightarrow> (string \<times> string) list \<Rightarrow> bool" where
  "canonical_query kind q \<longleftrightarrow>
     clean_query q \<and> (kind \<noteq> Video \<longrightarrow> js_get q ''cid'' = None)"

lemma canonical_queryE:
  assumes "canonical_query kind q"
  obtains "q = []" | v where "q = [(''cid'', v)]" "clean_value v" "kind = Video"
    | v where "q = [(''p'', v)]" "clean_value v"
  using assms
  by (auto simp: canonical_query_def clean_query_def split: list.splits if_splits)

lemma canonical_address_not_empty [simp]: "canonical_address dir seg q \<noteq> []"
  by (simp add: canonical_address_def)

lemma parse_canonical:
  assumes P: "reads_canonical_urls parse_url" and kind: "kind \<in> {Video, Bangumi}"
    and seg: "clean_value seg" and q: "canonical_query kind q"
  shows "parse_bilibili_video_ref parse_url (Some (ref_normalized_url (canonical_ref kind seg q)))
       = Some (canonical_ref kind seg q)"
proof -
  let ?u = "\<lparr> hostname = ''www.bilibili.com'', origin = ''https://www.bilibili.com'',
             pathname = kind_dir kind @ seg, search_params = q \<rparr>"
  have url: "parse_url (canonical_address (kind_dir kind) seg q) = Some ?u"
    using P kind seg q unfolding reads_canonical_urls_def canonical_query_def
    by (auto simp: kind_dir_def)
  have path: "parse_supported_bilibili_path (kind_dir kind @ seg) = Some (kind, seg)"
    using kind parse_path_video [OF clean_value_plain [OF seg]]
      parse_path_bangumi [OF clean_value_plain [OF seg]]
    by (auto simp: kind_dir_def)
  have strip: "strip_trailing_slashes (kind_dir kind @ seg) = kind_dir kind @ seg"
    by (rule segment_no_trailing_slash) (simp add: plain_is_list_segment clean_value_plain seg)
  have eval: "parse_bilibili_video_ref parse_url
      (Some (ref_normalized_url (canonical_ref kind seg q))) = Some (canonical_ref kind seg q)"
    if "q = [] \<or> (\<exists>v. v \<noteq> [] \<and> (q = [(''p'', v)] \<or> kind = Video \<and> q = [(''cid'', v)]))"
    using that kind url path strip
    by (auto simp: parse_bilibili_video_ref_def is_supported_bilibili_host_def Let_def
        canonical_ref_def search_param_def query_suffix_def canonical_address_def)
  show ?thesis
    by (rule eval) (use q in \<open>auto elim!: canonical_queryE simp: clean_value_def\<close>)
qed

text \<open>
  Every reference the source builds from an address with clean parameters on the secure site is
  canonical: a player page keeps its own segment, a list or festival page takes the \<open>bvid\<close>.
\<close>

lemma parsed_ref_is_canonical:
  assumes ref: "parse_bilibili_video_ref parse_url (Some s) = Some ref"
    and u: "parse_url s = Some u" "origin u = ''https://www.bilibili.com''" "clean_params u"
    and path: "parse_supported_bilibili_path (pathname u) = Some (kind, pid)"
    and named: "kind \<in> {Video, Bangumi} \<and> clean_value pid
      \<or> kind \<in> {Festival, Medialist} \<and> truthy (search_param u ''bvid'')"
  shows "\<exists>kind' seg q. ref = canonical_ref kind' seg q \<and> kind' \<in> {Video, Bangumi}
           \<and> clean_value seg \<and> canonical_query kind' q"
proof -
  let ?p = "search_param u ''p''" and ?cid = "search_param u ''cid''"
  define kind' where "kind' = (if kind = Bangumi then Bangumi else Video)"
  define seg where "seg = (if kind \<in> {Video, Bangumi} then pid else the (search_param u ''bvid''))"
  define q where "q = (if kind' = Video \<and> truthy ?cid then [(''cid'', the ?cid)]
      else if truthy ?p then [(''p'', the ?p)] else [])"
  have seg_clean: "clean_value seg"
    using named clean_params_value [OF u(3), of "''bvid''"] by (auto simp: seg_def)
  have q_ok: "canonical_query kind' q"
    using clean_params_value [OF u(3), of "''cid''"] clean_params_value [OF u(3), of "''p''"]
    by (auto simp: q_def canonical_query_def clean_query_def)
  have dir: "kind = Video \<Longrightarrow> strip_trailing_slashes (pathname u) = ''/video/'' @ pid"
    "kind = Bangumi \<Longrightarrow> strip_trailing_slashes (pathname u) = ''/bangumi/play/'' @ pid"
    using parse_path_cases [OF path] by auto
  have "ref = canonical_ref kind' seg q"
    using ref u path named dir
    by (auto simp: parse_bilibili_video_ref_def Let_def canonical_ref_def canonical_address_def
        query_suffix_def kind_dir_def q_def seg_def kind'_def split: if_splits)
  moreover have "kind' \<in> {Video, Bangumi}" by (simp add: kind'_def)
  ultimately show ?thesis using seg_clean q_ok by blast
qed

text \<open>A parser for the witnesses: it splits an address of the site at \<open>?\<close> and \<open>=\<close>.\<close>

definition splitting_parser :: url_parser where
  "splitting_parser s =
     (case strip_prefix ''https://www.bilibili.com'' s of None \<Rightarrow> None
      | Some rest \<Rightarrow>
        let path = takeWhile (\<lambda>c. c \<noteq> CHR ''?'') rest;
            qs = drop (length path + 1) rest;
            k = takeWhile (\<lambda>c. c \<noteq> CHR ''='') qs
        in Some \<lparr> hostname = ''www.bilibili.com'', origin = ''https://www.bilibili.com'',
                  pathname = path,
                  search_params = (if qs = [] then [] else [(k, drop (length k + 1) qs)]) \<rparr>)"

lemma splitting_parser_eval:
  assumes "CHR ''?'' \<notin> set path" and "CHR ''='' \<notin> set k"
  shows "splitting_parser (''https://www.bilibili.com'' @ path) =
      Some \<lparr> hostname = ''www.bilibili.com'', origin = ''https://www.bilibili.com'',
             pathname = path, search_params = [] \<rparr>"
    and "splitting_parser (''https://www.bilibili.com'' @ path @ ''?'' @ k @ ''='' @ v) =
      Some \<lparr> hostname = ''www.bilibili.com'', origin = ''https://www.bilibili.com'',
             pathname = path, search_params = [(k, v)] \<rparr>"
proof -
  have path: "takeWhile (\<lambda>c. c \<noteq> CHR ''?'') path = path"
    "takeWhile (\<lambda>c. c \<noteq> CHR ''?'') (path @ CHR ''?'' # rest) = path" for rest
    using assms(1) by (auto simp: takeWhile_append takeWhile_eq_all_conv)
  have key: "takeWhile (\<lambda>c. c \<noteq> CHR ''='') (k @ CHR ''='' # v) = k"
    using assms(2) by (auto simp: takeWhile_append takeWhile_eq_all_conv)
  show "splitting_parser (''https://www.bilibili.com'' @ path) =
      Some \<lparr> hostname = ''www.bilibili.com'', origin = ''https://www.bilibili.com'',
             pathname = path, search_params = [] \<rparr>"
    unfolding splitting_parser_def strip_prefix_append by (simp add: path)
  show "splitting_parser (''https://www.bilibili.com'' @ path @ ''?'' @ k @ ''='' @ v) =
      Some \<lparr> hostname = ''www.bilibili.com'', origin = ''https://www.bilibili.com'',
             pathname = path, search_params = [(k, v)] \<rparr>"
    unfolding splitting_parser_def strip_prefix_append by (simp add: path key)
qed

lemma splitting_parser_reads: "reads_canonical_urls splitting_parser"
proof (unfold reads_canonical_urls_def, intro allI impI)
  fix dir seg :: string and q :: "(string \<times> string) list"
  assume dir: "dir \<in> {''/video/'', ''/bangumi/play/''}" and seg: "clean_value seg"
    and q: "clean_query q"
  have path: "CHR ''?'' \<notin> set (dir @ seg)"
  proof -
    have "\<forall>c \<in> set seg. c \<noteq> CHR ''?''"
      using clean_value_plain [OF seg] unfolding plain_segment_def list_all_iff by blast
    then have "CHR ''?'' \<notin> set seg" by blast
    moreover have "CHR ''?'' \<notin> set dir" using dir by (elim insertE) simp_all
    ultimately show ?thesis by simp
  qed
  show "splitting_parser (canonical_address dir seg q) =
      Some \<lparr> hostname = ''www.bilibili.com'', origin = ''https://www.bilibili.com'',
             pathname = dir @ seg, search_params = q \<rparr>"
  proof (cases q)
    case Nil
    moreover have "canonical_address dir seg [] = ''https://www.bilibili.com'' @ (dir @ seg)"
      by (simp add: canonical_address_def)
    ultimately show ?thesis
      using splitting_parser_eval(1) [OF path, of "[]"] by (simp only: list.set empty_iff not_False_eq_True True_implies_equals)
  next
    case (Cons kv rest)
    obtain k v where kv: "kv = (k, v)" by fastforce
    have "CHR ''='' \<notin> set k" and "rest = []"
      using q by (auto simp: Cons kv clean_query_def)
    moreover have "canonical_address dir seg [(k, v)]
        = ''https://www.bilibili.com'' @ (dir @ seg) @ ''?'' @ k @ ''='' @ v"
      by (simp add: canonical_address_def)
    ultimately show ?thesis
      using splitting_parser_eval(2) [OF path, of k v] by (simp only: Cons kv not_False_eq_True True_implies_equals)
  qed
qed

subsection \<open>Properties\<close>

text \<open>
  Normalizing a supported address gives a normal form: whatever page named the video
  (its player page, a season page, or a list or festival page through \<open>bvid\<close>), parsing the
  normalized address gives back the same video id and the same normalized address, provided
  the platform's parser reads the addresses the source builds back into their parts.
\<close>

theorem normalized_reference_is_stable:
  assumes "reads_canonical_urls parse_url"
    and "parse_bilibili_video_ref parse_url (Some s) = Some ref"
    and "parse_url s = Some u" and "origin u = ''https://www.bilibili.com''" and "clean_params u"
    and "parse_supported_bilibili_path (pathname u) = Some (kind, pid)"
    and "kind \<in> {Video, Bangumi} \<and> clean_value pid
      \<or> kind \<in> {Festival, Medialist} \<and> truthy (search_param u ''bvid'')"
  shows "parse_bilibili_video_ref parse_url (Some (ref_normalized_url ref)) = Some ref"
  using parsed_ref_is_canonical [OF assms(2-7)] parse_canonical [OF assms(1)] by auto

theorem normalized_reference_is_stable_witness:
  "parse_bilibili_video_ref splitting_parser
     (Some (''https://www.bilibili.com/video/BV1?cid=7''))
   = Some \<lparr> ref_video_id = ''BV1:7'',
            ref_normalized_url = ''https://www.bilibili.com/video/BV1?cid=7'' \<rparr>
   \<and> parse_bilibili_video_ref splitting_parser (Some ''https://www.bilibili.com/list/ml12?bvid=BV1'')
   = Some \<lparr> ref_video_id = ''BV1'',
            ref_normalized_url = ''https://www.bilibili.com/video/BV1'' \<rparr>
   \<and> parse_bilibili_video_ref splitting_parser (Some ''https://www.bilibili.com/video/BV1'')
   = Some \<lparr> ref_video_id = ''BV1'',
            ref_normalized_url = ''https://www.bilibili.com/video/BV1'' \<rparr>"
proof (intro conjI)
  let ?ref = "\<lparr> ref_video_id = ''BV1'',
            ref_normalized_url = ''https://www.bilibili.com/video/BV1'' \<rparr>"
  show "parse_bilibili_video_ref splitting_parser
     (Some (''https://www.bilibili.com/video/BV1?cid=7''))
   = Some \<lparr> ref_video_id = ''BV1:7'',
            ref_normalized_url = ''https://www.bilibili.com/video/BV1?cid=7'' \<rparr>"
    by code_simp
  show list: "parse_bilibili_video_ref splitting_parser
      (Some ''https://www.bilibili.com/list/ml12?bvid=BV1'') = Some ?ref"
    by code_simp
  have "parse_bilibili_video_ref splitting_parser (Some (ref_normalized_url ?ref)) = Some ?ref"
    by (rule normalized_reference_is_stable [OF splitting_parser_reads list,
          where kind = Medialist and pid = "''/list/ml12''"
            and u = "\<lparr> hostname = ''www.bilibili.com'', origin = ''https://www.bilibili.com'',
                      pathname = ''/list/ml12'', search_params = [(''bvid'', ''BV1'')] \<rparr>"])
       code_simp+
  then show "parse_bilibili_video_ref splitting_parser
      (Some ''https://www.bilibili.com/video/BV1'') = Some ?ref"
    by simp
qed

end
