(* ===== verification/Protocol.thy ===== *)
theory Protocol
  imports Video_Ref "HOL-Library.Monad_Syntax"
begin

text \<open>
  \<open>packages/protocol/src\<close>: the types both sides of the WebSocket share
  (\<open>types/common.ts\<close>, \<open>types/domain.ts\<close>, \<open>types/client-message.ts\<close>) and the guards that
  decide whether a parsed JSON value is one of them (\<open>guards/primitives.ts\<close>,
  \<open>guards/client-message.ts\<close>).

  The source's guards are type predicates: after \<open>isClientMessage(value)\<close> the program reads
  the value's fields as the typed message. \<open>read_client_message\<close> is that reading. The
  properties say that an accepted value can always be read, that what is read satisfies the
  bounds the server relies on, and that every well-formed message is accepted and read back.
\<close>

subsection \<open>Shared types\<close>

definition protocol_version :: nat where
  "protocol_version = 5"

datatype play_state = Playing | Paused | Buffering

datatype sync_intent = Explicit_Seek | Explicit_Ratechange

datatype error_code =
    Origin_Not_Allowed | Room_Not_Found | Join_Token_Invalid | Member_Token_Invalid
  | Not_In_Room | Rate_Limited | Invalid_Message | Payload_Too_Large | Room_Full
  | Unsupported_Protocol_Version | Internal_Error

record shared_video =
  sv_video_id :: string
  sv_url :: string
  sv_title :: string
  sv_shared_by_member_id :: "string option"
  sv_shared_by_display_name :: "string option"

record playback_state =
  pb_url :: string
  pb_current_time :: rat
  pb_play_state :: play_state
  pb_sync_intent :: "sync_intent option"
  pb_user_initiated :: "bool option"
  pb_natural_end :: "bool option"
  pb_playback_rate :: rat
  pb_updated_at :: rat
  pb_server_time :: rat
  pb_actor_id :: string
  pb_seq :: rat

record room_member =
  rm_id :: string
  rm_name :: string

record room_state =
  rs_room_code :: string
  rs_shared_video :: "shared_video option"
  rs_playback :: "playback_state option"
  rs_members :: "room_member list"

definition is_explicit_control_sync_intent :: "sync_intent option \<Rightarrow> bool" where
  "is_explicit_control_sync_intent i = (i = Some Explicit_Seek \<or> i = Some Explicit_Ratechange)"

record client_hello =
  ch_display_name :: "string option"
  ch_protocol_version :: "rat option"

record join_payload =
  jp_room_code :: string
  jp_join_token :: string
  jp_member_token :: "string option"
  jp_display_name :: "string option"
  jp_protocol_version :: "rat option"

datatype client_message =
    Room_Create "client_hello option"
  | Room_Join join_payload
  | Profile_Update string string
  | Room_Leave "string option"
  | Video_Share string shared_video "playback_state option"
  | Playback_Update string playback_state
  | Sync_Request string
  | Sync_Ping rat

subsection \<open>JavaScript values\<close>

text \<open>
  \<open>unknown\<close> as \<open>JSON.parse\<close> produces it, with \<open>undefined\<close> for an absent property. JSON text
  can denote a number beyond the double range, which parses to an infinity.
\<close>

datatype js_number = Finite rat | Pos_Infinity | Neg_Infinity | Not_A_Number

datatype js_value =
    Undefined
  | Null
  | Bool_Val bool
  | Num js_number
  | Str string
  | Arr "js_value list"
  | Obj "(string \<times> js_value) list"

fun field :: "js_value \<Rightarrow> string \<Rightarrow> js_value" where
  "field (Obj fs) k = (case js_get fs k of None \<Rightarrow> Undefined | Some v \<Rightarrow> v)"
| "field _ k = Undefined"

subsection \<open>Primitive guards\<close>

fun is_record :: "js_value \<Rightarrow> bool" where
  "is_record (Obj _) = True"
| "is_record (Arr _) = True"
| "is_record _ = False"

fun is_string :: "js_value \<Rightarrow> bool" where
  "is_string (Str _) = True"
| "is_string _ = False"

fun is_boolean :: "js_value \<Rightarrow> bool" where
  "is_boolean (Bool_Val _) = True"
| "is_boolean _ = False"

fun is_finite_number :: "js_value \<Rightarrow> bool" where
  "is_finite_number (Num (Finite _)) = True"
| "is_finite_number _ = False"

definition number_is_integer :: "rat \<Rightarrow> bool" where
  "number_is_integer r = (of_int \<lfloor>r\<rfloor> = r)"

fun is_non_negative_integer :: "js_value \<Rightarrow> bool" where
  "is_non_negative_integer (Num (Finite r)) = (0 \<le> r \<and> number_is_integer r)"
| "is_non_negative_integer _ = False"

definition is_optional_non_negative_integer :: "js_value \<Rightarrow> bool" where
  "is_optional_non_negative_integer v = (v = Undefined \<or> is_non_negative_integer v)"

text \<open>The regular expressions of the source, as predicates on strings.\<close>

definition room_code_pattern :: "string \<Rightarrow> bool" where
  "room_code_pattern s = (length s = 6 \<and> list_all (\<lambda>c. is_upper c \<or> is_digit c) s)"

definition actor_id_char :: "char \<Rightarrow> bool" where
  "actor_id_char c = (is_alnum c \<or> c = CHR '':'' \<or> c = CHR ''_'' \<or> c = CHR ''-'')"

definition actor_id_pattern :: "string \<Rightarrow> bool" where
  "actor_id_pattern s =
     (case s of [] \<Rightarrow> False
      | c # cs \<Rightarrow> is_alnum c \<and> length cs \<le> 63 \<and> list_all actor_id_char cs)"

definition video_id_base :: "string \<Rightarrow> bool" where
  "video_id_base s =
     ((case strip_prefix ''BV'' s of None \<Rightarrow> False | Some r \<Rightarrow> r \<noteq> [] \<and> list_all is_alnum r)
      \<or> (case strip_prefix ''av'' s of None \<Rightarrow> False | Some r \<Rightarrow> all_digits r)
      \<or> (case strip_prefix ''ep'' s of None \<Rightarrow> False | Some r \<Rightarrow> all_digits r)
      \<or> (case strip_prefix ''ss'' s of None \<Rightarrow> False | Some r \<Rightarrow> all_digits r))"

definition video_id_part :: "string \<Rightarrow> bool" where
  "video_id_part s =
     ((case strip_prefix ''p'' s of None \<Rightarrow> False | Some r \<Rightarrow> positive_digits r)
      \<or> positive_digits s)"

text \<open>A base holds no colon, so the optional part starts at the first one.\<close>

definition video_id_pattern :: "string \<Rightarrow> bool" where
  "video_id_pattern s =
     (let base = takeWhile (\<lambda>c. c \<noteq> CHR '':'') s; rest = dropWhile (\<lambda>c. c \<noteq> CHR '':'') s
      in video_id_base base \<and> (rest = [] \<or> video_id_part (tl rest)))"

definition is_room_code :: "js_value \<Rightarrow> bool" where
  "is_room_code v = (case v of Str s \<Rightarrow> room_code_pattern s | _ \<Rightarrow> False)"

definition is_actor_id :: "js_value \<Rightarrow> bool" where
  "is_actor_id v = (case v of Str s \<Rightarrow> actor_id_pattern s | _ \<Rightarrow> False)"

definition is_bilibili_url :: "url_parser \<Rightarrow> js_value \<Rightarrow> bool" where
  "is_bilibili_url U v =
     (case v of Str s \<Rightarrow> parse_bilibili_video_ref U (Some s) \<noteq> None | _ \<Rightarrow> False)"

definition is_video_id :: "js_value \<Rightarrow> bool" where
  "is_video_id v = (case v of Str s \<Rightarrow> video_id_pattern s | _ \<Rightarrow> False)"

definition has_string_length_in_range :: "string \<Rightarrow> nat \<Rightarrow> nat \<Rightarrow> bool" where
  "has_string_length_in_range s lo hi = (lo \<le> length s \<and> length s \<le> hi)"

definition is_token :: "js_value \<Rightarrow> bool" where
  "is_token v = (case v of Str s \<Rightarrow> has_string_length_in_range s 16 128 | _ \<Rightarrow> False)"

definition read_play_state :: "js_value \<Rightarrow> play_state option" where
  "read_play_state v =
     (case v of
        Str s \<Rightarrow> if s = ''playing'' then Some Playing
                 else if s = ''paused'' then Some Paused
                 else if s = ''buffering'' then Some Buffering else None
      | _ \<Rightarrow> None)"

definition is_playback_play_state :: "js_value \<Rightarrow> bool" where
  "is_playback_play_state v =
     (case v of Str s \<Rightarrow> s \<in> {''playing'', ''paused'', ''buffering''} | _ \<Rightarrow> False)"

definition read_sync_intent :: "js_value \<Rightarrow> sync_intent option" where
  "read_sync_intent v =
     (case v of
        Str s \<Rightarrow> if s = ''explicit-seek'' then Some Explicit_Seek
                 else if s = ''explicit-ratechange'' then Some Explicit_Ratechange else None
      | _ \<Rightarrow> None)"

definition is_playback_sync_intent :: "js_value \<Rightarrow> bool" where
  "is_playback_sync_intent v =
     (case v of Str s \<Rightarrow> s \<in> {''explicit-seek'', ''explicit-ratechange''} | _ \<Rightarrow> False)"

subsection \<open>Message guards\<close>

definition display_name_max_length :: nat where "display_name_max_length = 32"
definition title_max_length :: nat where "title_max_length = 128"
definition url_max_length :: nat where "url_max_length = 512"

definition is_bounded_string :: "js_value \<Rightarrow> nat \<Rightarrow> bool" where
  "is_bounded_string v n = (case v of Str s \<Rightarrow> length s \<le> n | _ \<Rightarrow> False)"

definition is_optional_bounded_string :: "js_value \<Rightarrow> nat \<Rightarrow> bool" where
  "is_optional_bounded_string v n = (v = Undefined \<or> is_bounded_string v n)"

definition is_client_hello_payload :: "js_value \<Rightarrow> bool" where
  "is_client_hello_payload v =
     (is_record v
      \<and> is_optional_bounded_string (field v ''displayName'') display_name_max_length
      \<and> is_optional_non_negative_integer (field v ''protocolVersion''))"

definition is_shared_video :: "url_parser \<Rightarrow> js_value \<Rightarrow> bool" where
  "is_shared_video U v =
     (is_record v
      \<and> is_bounded_string (field v ''videoId'') title_max_length
      \<and> is_video_id (field v ''videoId'')
      \<and> is_bounded_string (field v ''url'') url_max_length
      \<and> is_bilibili_url U (field v ''url'')
      \<and> is_bounded_string (field v ''title'') title_max_length
      \<and> is_optional_bounded_string (field v ''sharedByMemberId'') display_name_max_length
      \<and> (field v ''sharedByMemberId'' = Undefined \<or> is_actor_id (field v ''sharedByMemberId''))
      \<and> is_optional_bounded_string (field v ''sharedByDisplayName'') display_name_max_length)"

definition is_playback_state :: "js_value \<Rightarrow> bool" where
  "is_playback_state v =
     (is_record v
      \<and> is_bounded_string (field v ''url'') url_max_length
      \<and> is_finite_number (field v ''currentTime'')
      \<and> is_playback_play_state (field v ''playState'')
      \<and> (field v ''syncIntent'' = Undefined \<or> is_playback_sync_intent (field v ''syncIntent''))
      \<and> (field v ''userInitiated'' = Undefined \<or> is_boolean (field v ''userInitiated''))
      \<and> (field v ''naturalEnd'' = Undefined \<or> is_boolean (field v ''naturalEnd''))
      \<and> is_finite_number (field v ''playbackRate'')
      \<and> is_finite_number (field v ''updatedAt'')
      \<and> is_finite_number (field v ''serverTime'')
      \<and> is_actor_id (field v ''actorId'')
      \<and> is_finite_number (field v ''seq''))"

definition is_join_room_payload :: "js_value \<Rightarrow> bool" where
  "is_join_room_payload v =
     (is_record v
      \<and> is_room_code (field v ''roomCode'')
      \<and> is_token (field v ''joinToken'')
      \<and> (field v ''memberToken'' = Undefined \<or> is_token (field v ''memberToken''))
      \<and> is_optional_bounded_string (field v ''displayName'') display_name_max_length
      \<and> is_optional_non_negative_integer (field v ''protocolVersion''))"

definition is_profile_update_payload :: "js_value \<Rightarrow> bool" where
  "is_profile_update_payload v =
     (is_record v \<and> is_token (field v ''memberToken'')
      \<and> is_bounded_string (field v ''displayName'') display_name_max_length)"

definition is_leave_room_payload :: "js_value \<Rightarrow> bool" where
  "is_leave_room_payload v =
     (is_record v \<and> (field v ''memberToken'' = Undefined \<or> is_token (field v ''memberToken'')))"

definition is_share_video_payload :: "url_parser \<Rightarrow> js_value \<Rightarrow> bool" where
  "is_share_video_payload U v =
     (is_record v \<and> is_token (field v ''memberToken'') \<and> is_shared_video U (field v ''video'')
      \<and> (field v ''playback'' = Undefined \<or> is_playback_state (field v ''playback'')))"

definition is_playback_update_payload :: "js_value \<Rightarrow> bool" where
  "is_playback_update_payload v =
     (is_record v \<and> is_token (field v ''memberToken'') \<and> is_playback_state (field v ''playback''))"

definition is_sync_request_payload :: "js_value \<Rightarrow> bool" where
  "is_sync_request_payload v = (is_record v \<and> is_token (field v ''memberToken''))"

definition is_sync_ping_payload :: "js_value \<Rightarrow> bool" where
  "is_sync_ping_payload v = (is_record v \<and> is_finite_number (field v ''clientSendTime''))"

definition is_client_message :: "url_parser \<Rightarrow> js_value \<Rightarrow> bool" where
  "is_client_message U v =
     (is_record v \<and>
      (case field v ''type'' of
         Str ty \<Rightarrow>
           let payload = field v ''payload'' in
           if ty = ''room:create'' then payload = Undefined \<or> is_client_hello_payload payload
           else if ty = ''room:join'' then is_join_room_payload payload
           else if ty = ''profile:update'' then is_profile_update_payload payload
           else if ty = ''room:leave'' then payload = Undefined \<or> is_leave_room_payload payload
           else if ty = ''video:share'' then is_share_video_payload U payload
           else if ty = ''playback:update'' then is_playback_update_payload payload
           else if ty = ''sync:request'' then is_sync_request_payload payload
           else if ty = ''sync:ping'' then is_sync_ping_payload payload
           else False
       | _ \<Rightarrow> False))"

subsection \<open>Reading a value as a typed message\<close>

text \<open>
  Reading a property of the wrong type yields \<open>None\<close>: the program has no such branch, because
  the guards exclude it. That they do is the property.
\<close>

definition read_string :: "js_value \<Rightarrow> string option" where
  "read_string v = (case v of Str s \<Rightarrow> Some s | _ \<Rightarrow> None)"

definition read_number :: "js_value \<Rightarrow> rat option" where
  "read_number v = (case v of Num (Finite r) \<Rightarrow> Some r | _ \<Rightarrow> None)"

definition read_bool :: "js_value \<Rightarrow> bool option" where
  "read_bool v = (case v of Bool_Val b \<Rightarrow> Some b | _ \<Rightarrow> None)"

definition read_optional :: "(js_value \<Rightarrow> 'a option) \<Rightarrow> js_value \<Rightarrow> 'a option option" where
  "read_optional rd v = (if v = Undefined then Some None else map_option Some (rd v))"

definition read_record :: "js_value \<Rightarrow> js_value option" where
  "read_record v = (if is_record v then Some v else None)"

definition read_client_hello :: "js_value \<Rightarrow> client_hello option" where
  "read_client_hello v = do {
     r \<leftarrow> read_record v;
     name \<leftarrow> read_optional read_string (field r ''displayName'');
     ver \<leftarrow> read_optional read_number (field r ''protocolVersion'');
     Some \<lparr> ch_display_name = name, ch_protocol_version = ver \<rparr> }"

definition read_shared_video :: "js_value \<Rightarrow> shared_video option" where
  "read_shared_video v = do {
     r \<leftarrow> read_record v;
     vid \<leftarrow> read_string (field r ''videoId'');
     url \<leftarrow> read_string (field r ''url'');
     title \<leftarrow> read_string (field r ''title'');
     mid \<leftarrow> read_optional read_string (field r ''sharedByMemberId'');
     name \<leftarrow> read_optional read_string (field r ''sharedByDisplayName'');
     Some \<lparr> sv_video_id = vid, sv_url = url, sv_title = title,
            sv_shared_by_member_id = mid, sv_shared_by_display_name = name \<rparr> }"

definition read_playback_state :: "js_value \<Rightarrow> playback_state option" where
  "read_playback_state v = do {
     r \<leftarrow> read_record v;
     url \<leftarrow> read_string (field r ''url'');
     cur \<leftarrow> read_number (field r ''currentTime'');
     ps \<leftarrow> read_play_state (field r ''playState'');
     si \<leftarrow> read_optional read_sync_intent (field r ''syncIntent'');
     ui \<leftarrow> read_optional read_bool (field r ''userInitiated'');
     ne \<leftarrow> read_optional read_bool (field r ''naturalEnd'');
     rate \<leftarrow> read_number (field r ''playbackRate'');
     upd \<leftarrow> read_number (field r ''updatedAt'');
     srv \<leftarrow> read_number (field r ''serverTime'');
     actor \<leftarrow> read_string (field r ''actorId'');
     sq \<leftarrow> read_number (field r ''seq'');
     Some \<lparr> pb_url = url, pb_current_time = cur, pb_play_state = ps, pb_sync_intent = si,
            pb_user_initiated = ui, pb_natural_end = ne, pb_playback_rate = rate,
            pb_updated_at = upd, pb_server_time = srv, pb_actor_id = actor, pb_seq = sq \<rparr> }"

definition read_join_payload :: "js_value \<Rightarrow> join_payload option" where
  "read_join_payload v = do {
     r \<leftarrow> read_record v;
     code \<leftarrow> read_string (field r ''roomCode'');
     jt \<leftarrow> read_string (field r ''joinToken'');
     mt \<leftarrow> read_optional read_string (field r ''memberToken'');
     name \<leftarrow> read_optional read_string (field r ''displayName'');
     ver \<leftarrow> read_optional read_number (field r ''protocolVersion'');
     Some \<lparr> jp_room_code = code, jp_join_token = jt, jp_member_token = mt,
            jp_display_name = name, jp_protocol_version = ver \<rparr> }"

definition read_profile_update :: "js_value \<Rightarrow> client_message option" where
  "read_profile_update v = do {
     q \<leftarrow> read_record v;
     tok \<leftarrow> read_string (field q ''memberToken'');
     name \<leftarrow> read_string (field q ''displayName'');
     Some (Profile_Update tok name) }"

definition read_leave_room :: "js_value \<Rightarrow> client_message option" where
  "read_leave_room v =
     (if v = Undefined then Some (Room_Leave None)
      else do {
        q \<leftarrow> read_record v;
        tok \<leftarrow> read_optional read_string (field q ''memberToken'');
        Some (Room_Leave tok) })"

definition read_share_video :: "js_value \<Rightarrow> client_message option" where
  "read_share_video v = do {
     q \<leftarrow> read_record v;
     tok \<leftarrow> read_string (field q ''memberToken'');
     video \<leftarrow> read_shared_video (field q ''video'');
     pb \<leftarrow> read_optional read_playback_state (field q ''playback'');
     Some (Video_Share tok video pb) }"

definition read_playback_update :: "js_value \<Rightarrow> client_message option" where
  "read_playback_update v = do {
     q \<leftarrow> read_record v;
     tok \<leftarrow> read_string (field q ''memberToken'');
     pb \<leftarrow> read_playback_state (field q ''playback'');
     Some (Playback_Update tok pb) }"

definition read_sync_request :: "js_value \<Rightarrow> client_message option" where
  "read_sync_request v = do {
     q \<leftarrow> read_record v;
     tok \<leftarrow> read_string (field q ''memberToken'');
     Some (Sync_Request tok) }"

definition read_sync_ping :: "js_value \<Rightarrow> client_message option" where
  "read_sync_ping v = do {
     q \<leftarrow> read_record v;
     t \<leftarrow> read_number (field q ''clientSendTime'');
     Some (Sync_Ping t) }"

definition read_payload :: "string \<Rightarrow> js_value \<Rightarrow> client_message option" where
  "read_payload ty payload =
     (if ty = ''room:create'' then
        map_option Room_Create (read_optional read_client_hello payload)
      else if ty = ''room:join'' then map_option Room_Join (read_join_payload payload)
      else if ty = ''profile:update'' then read_profile_update payload
      else if ty = ''room:leave'' then read_leave_room payload
      else if ty = ''video:share'' then read_share_video payload
      else if ty = ''playback:update'' then read_playback_update payload
      else if ty = ''sync:request'' then read_sync_request payload
      else if ty = ''sync:ping'' then read_sync_ping payload
      else None)"

definition read_client_message :: "js_value \<Rightarrow> client_message option" where
  "read_client_message v = do {
     r \<leftarrow> read_record v;
     ty \<leftarrow> read_string (field r ''type'');
     read_payload ty (field r ''payload'') }"

subsection \<open>Well-formed messages\<close>

definition wf_token :: "string \<Rightarrow> bool" where
  "wf_token s = (16 \<le> length s \<and> length s \<le> 128)"

definition wf_version :: "rat \<Rightarrow> bool" where
  "wf_version r = (0 \<le> r \<and> number_is_integer r)"

definition wf_client_hello :: "client_hello \<Rightarrow> bool" where
  "wf_client_hello h = (pred_option (\<lambda>s. length s \<le> 32) (ch_display_name h)
     \<and> pred_option wf_version (ch_protocol_version h))"

definition wf_shared_video :: "url_parser \<Rightarrow> shared_video \<Rightarrow> bool" where
  "wf_shared_video U v =
     (length (sv_video_id v) \<le> 128 \<and> video_id_pattern (sv_video_id v)
      \<and> length (sv_url v) \<le> 512 \<and> parse_bilibili_video_ref U (Some (sv_url v)) \<noteq> None
      \<and> length (sv_title v) \<le> 128
      \<and> pred_option (\<lambda>s. length s \<le> 32 \<and> actor_id_pattern s) (sv_shared_by_member_id v)
      \<and> pred_option (\<lambda>s. length s \<le> 32) (sv_shared_by_display_name v))"

definition wf_playback_state :: "playback_state \<Rightarrow> bool" where
  "wf_playback_state p = (length (pb_url p) \<le> 512 \<and> actor_id_pattern (pb_actor_id p))"

definition wf_join_payload :: "join_payload \<Rightarrow> bool" where
  "wf_join_payload p =
     (room_code_pattern (jp_room_code p) \<and> wf_token (jp_join_token p)
      \<and> pred_option wf_token (jp_member_token p)
      \<and> pred_option (\<lambda>s. length s \<le> 32) (jp_display_name p)
      \<and> pred_option wf_version (jp_protocol_version p))"

fun wf_client_message :: "url_parser \<Rightarrow> client_message \<Rightarrow> bool" where
  "wf_client_message U (Room_Create h) = pred_option wf_client_hello h"
| "wf_client_message U (Room_Join p) = wf_join_payload p"
| "wf_client_message U (Profile_Update tok name) = (wf_token tok \<and> length name \<le> 32)"
| "wf_client_message U (Room_Leave tok) = pred_option wf_token tok"
| "wf_client_message U (Video_Share tok v pb) =
     (wf_token tok \<and> wf_shared_video U v \<and> pred_option wf_playback_state pb)"
| "wf_client_message U (Playback_Update tok pb) = (wf_token tok \<and> wf_playback_state pb)"
| "wf_client_message U (Sync_Request tok) = wf_token tok"
| "wf_client_message U (Sync_Ping t) = True"

text \<open>Each guard accepts exactly the values that read as something well formed.\<close>

definition reads_as :: "(js_value \<Rightarrow> 'a option) \<Rightarrow> ('a \<Rightarrow> bool) \<Rightarrow> js_value \<Rightarrow> bool" where
  "reads_as rd P v \<longleftrightarrow> (case rd v of None \<Rightarrow> False | Some x \<Rightarrow> P x)"

lemma reads_as_optional:
  "reads_as (read_optional rd) (pred_option P) v \<longleftrightarrow> v = Undefined \<or> reads_as rd P v"
  by (auto simp: reads_as_def read_optional_def split: option.splits)

lemma primitive_guards [guard_simps]:
  "is_bounded_string v n \<longleftrightarrow> reads_as read_string (\<lambda>s. length s \<le> n) v"
  "is_token v \<longleftrightarrow> reads_as read_string wf_token v"
  "is_room_code v \<longleftrightarrow> reads_as read_string room_code_pattern v"
  "is_actor_id v \<longleftrightarrow> reads_as read_string actor_id_pattern v"
  "is_video_id v \<longleftrightarrow> reads_as read_string video_id_pattern v"
  "is_bilibili_url U v \<longleftrightarrow>
     reads_as read_string (\<lambda>s. parse_bilibili_video_ref U (Some s) \<noteq> None) v"
  by (auto simp: is_bounded_string_def is_token_def is_room_code_def is_actor_id_def
      is_video_id_def is_bilibili_url_def reads_as_def read_string_def wf_token_def
      has_string_length_in_range_def split: js_value.splits)

lemma number_guards [guard_simps]:
  "is_finite_number v \<longleftrightarrow> reads_as read_number (\<lambda>_. True) v"
  "is_non_negative_integer v \<longleftrightarrow> reads_as read_number wf_version v"
  "is_boolean v \<longleftrightarrow> reads_as read_bool (\<lambda>_. True) v"
  by (auto simp: reads_as_def read_number_def read_bool_def wf_version_def
      split: js_value.splits js_number.splits)

lemma enum_guards [guard_simps]:
  "is_playback_play_state v \<longleftrightarrow> reads_as read_play_state (\<lambda>_. True) v"
  "is_playback_sync_intent v \<longleftrightarrow> reads_as read_sync_intent (\<lambda>_. True) v"
  by (auto simp: is_playback_play_state_def is_playback_sync_intent_def read_play_state_def
      read_sync_intent_def reads_as_def split: js_value.splits)

lemma reads_as_iff: "reads_as rd P v \<longleftrightarrow> (\<exists>x. rd v = Some x \<and> P x)"
  by (auto simp: reads_as_def split: option.splits)

lemma optional_string_guard [guard_simps]:
  "is_optional_bounded_string v n \<longleftrightarrow>
     reads_as (read_optional read_string) (pred_option (\<lambda>s. length s \<le> n)) v"
  "is_optional_non_negative_integer v \<longleftrightarrow>
     reads_as (read_optional read_number) (pred_option wf_version) v"
  by (simp_all add: is_optional_bounded_string_def is_optional_non_negative_integer_def
      reads_as_optional guard_simps)

lemma optional_guards [guard_simps]:
  "v = Undefined \<or> reads_as rd P v \<longleftrightarrow> reads_as (read_optional rd) (pred_option P) v"
  by (simp add: reads_as_optional)

lemma pred_option_True [simp]: "pred_option (\<lambda>_. True) x"
  by (cases x) auto

lemma pred_option_conj:
  "pred_option (\<lambda>x. P x \<and> Q x) y \<longleftrightarrow> pred_option P y \<and> pred_option Q y"
  by (cases y) auto

lemma bind_reads:
  "(\<exists>z. Option.bind m f = Some z \<and> P z) \<longleftrightarrow> (\<exists>x. m = Some x \<and> (\<exists>z. f x = Some z \<and> P z))"
  by (cases m) auto

lemma read_record_Some [simp]: "read_record v = Some r \<longleftrightarrow> r = v \<and> is_record v"
  by (auto simp: read_record_def)

lemmas max_lengths = display_name_max_length_def title_max_length_def url_max_length_def

lemmas read_simps = reads_as_iff bind_reads max_lengths

lemma client_hello_guard [guard_simps]:
  "is_client_hello_payload v \<longleftrightarrow> reads_as read_client_hello wf_client_hello v"
  unfolding is_client_hello_payload_def guard_simps
  by (auto simp: read_simps read_client_hello_def wf_client_hello_def)

lemma join_payload_guard [guard_simps]:
  "is_join_room_payload v \<longleftrightarrow> reads_as read_join_payload wf_join_payload v"
  unfolding is_join_room_payload_def guard_simps
  by (auto simp: read_simps read_join_payload_def wf_join_payload_def)

lemma shared_video_guard [guard_simps]:
  "is_shared_video U v \<longleftrightarrow> reads_as read_shared_video (wf_shared_video U) v"
  unfolding is_shared_video_def guard_simps
  by (auto simp: read_simps read_shared_video_def wf_shared_video_def pred_option_conj)

lemma playback_state_guard [guard_simps]:
  "is_playback_state v \<longleftrightarrow> reads_as read_playback_state wf_playback_state v"
  unfolding is_playback_state_def guard_simps
  by (auto simp: read_simps read_playback_state_def wf_playback_state_def)

lemma reads_as_map:
  "reads_as (\<lambda>v. map_option f (rd v)) P v \<longleftrightarrow> reads_as rd (\<lambda>x. P (f x)) v"
  by (auto simp: reads_as_iff)

lemma leave_payload_guard:
  "v = Undefined \<or> is_leave_room_payload v \<longleftrightarrow> reads_as read_leave_room (wf_client_message U) v"
  unfolding is_leave_room_payload_def guard_simps
  by (auto simp: read_simps read_leave_room_def)

lemma message_payload_guards:
  "is_profile_update_payload v \<longleftrightarrow> reads_as read_profile_update (wf_client_message U) v"
  "is_share_video_payload U v \<longleftrightarrow> reads_as read_share_video (wf_client_message U) v"
  "is_playback_update_payload v \<longleftrightarrow> reads_as read_playback_update (wf_client_message U) v"
  "is_sync_request_payload v \<longleftrightarrow> reads_as read_sync_request (wf_client_message U) v"
  "is_sync_ping_payload v \<longleftrightarrow> reads_as read_sync_ping (wf_client_message U) v"
  unfolding is_profile_update_payload_def is_share_video_payload_def is_playback_update_payload_def
    is_sync_request_payload_def is_sync_ping_payload_def guard_simps
    read_profile_update_def read_share_video_def read_playback_update_def
    read_sync_request_def read_sync_ping_def
  by (auto simp: read_simps)

lemma create_payload_guard:
  "v = Undefined \<or> is_client_hello_payload v \<longleftrightarrow>
     reads_as (\<lambda>v. map_option Room_Create (read_optional read_client_hello v))
       (wf_client_message U) v"
  by (simp add: guard_simps reads_as_map)

lemma join_message_guard:
  "is_join_room_payload v \<longleftrightarrow>
     reads_as (\<lambda>v. map_option Room_Join (read_join_payload v)) (wf_client_message U) v"
  by (simp add: join_payload_guard reads_as_map)

lemma guard_exact:
  "is_client_message U v \<longleftrightarrow> reads_as read_client_message (wf_client_message U) v"
proof (cases "is_record v \<and> (\<exists>ty. field v ''type'' = Str ty)")
  case False
  then show ?thesis
    by (auto simp: reads_as_def is_client_message_def read_client_message_def read_string_def read_record_def
        split: js_value.splits)
next
  case True
  then obtain ty where r: "is_record v" and ty: "field v ''type'' = Str ty" by blast
  have "is_client_message U v \<longleftrightarrow> reads_as (read_payload ty) (wf_client_message U) (field v ''payload'')"
    unfolding is_client_message_def Let_def ty js_value.case create_payload_guard [where U = U]
      leave_payload_guard [where U = U] message_payload_guards [where U = U] join_message_guard [where U = U]
    by (simp add: r reads_as_def read_payload_def)
  also have "\<dots> \<longleftrightarrow> reads_as read_client_message (wf_client_message U) v"
    by (simp add: reads_as_def read_client_message_def read_record_def read_string_def r ty)
  finally show ?thesis .
qed

subsection \<open>Properties\<close>

text \<open>
  C11. The trust boundary: a parsed JSON value passes \<open>isClientMessage\<close> exactly when it can be
  read as one of the eight client messages and that message is well formed, that is, its room
  code is six upper-case letters or digits, its tokens have 16 to 128 characters, names, titles
  and addresses respect their bounds, the shared address names a Bilibili video, and every
  number is finite.
\<close>

theorem client_message_guard_exact:
  "is_client_message U v \<longleftrightarrow>
     (case read_client_message v of None \<Rightarrow> False | Some m \<Rightarrow> wf_client_message U m)"
  using guard_exact [of U v] by (simp add: reads_as_def)

subsection \<open>Writing messages\<close>

text \<open>
  \<open>JSON.stringify\<close> of a typed message leaves out the properties that are \<open>undefined\<close>. What the
  extension sends is the value this writes; the server parses it back.
\<close>

definition optional_field :: "string \<Rightarrow> ('a \<Rightarrow> js_value) \<Rightarrow> 'a option \<Rightarrow> (string \<times> js_value) list" where
  "optional_field k f x = (case x of None \<Rightarrow> [] | Some y \<Rightarrow> [(k, f y)])"

definition number_value :: "rat \<Rightarrow> js_value" where
  "number_value r = Num (Finite r)"

definition play_state_value :: "play_state \<Rightarrow> js_value" where
  "play_state_value s = Str (case s of Playing \<Rightarrow> ''playing'' | Paused \<Rightarrow> ''paused''
     | Buffering \<Rightarrow> ''buffering'')"

definition sync_intent_value :: "sync_intent \<Rightarrow> js_value" where
  "sync_intent_value i = Str (case i of Explicit_Seek \<Rightarrow> ''explicit-seek''
     | Explicit_Ratechange \<Rightarrow> ''explicit-ratechange'')"

definition write_client_hello :: "client_hello \<Rightarrow> js_value" where
  "write_client_hello h =
     Obj (optional_field ''displayName'' Str (ch_display_name h)
          @ optional_field ''protocolVersion'' number_value (ch_protocol_version h))"

definition write_shared_video :: "shared_video \<Rightarrow> js_value" where
  "write_shared_video v =
     Obj ([(''videoId'', Str (sv_video_id v)), (''url'', Str (sv_url v)),
           (''title'', Str (sv_title v))]
          @ optional_field ''sharedByMemberId'' Str (sv_shared_by_member_id v)
          @ optional_field ''sharedByDisplayName'' Str (sv_shared_by_display_name v))"

definition write_playback_state :: "playback_state \<Rightarrow> js_value" where
  "write_playback_state p =
     Obj ([(''url'', Str (pb_url p)), (''currentTime'', number_value (pb_current_time p)),
           (''playState'', play_state_value (pb_play_state p))]
          @ optional_field ''syncIntent'' sync_intent_value (pb_sync_intent p)
          @ optional_field ''userInitiated'' Bool_Val (pb_user_initiated p)
          @ optional_field ''naturalEnd'' Bool_Val (pb_natural_end p)
          @ [(''playbackRate'', number_value (pb_playback_rate p)),
             (''updatedAt'', number_value (pb_updated_at p)),
             (''serverTime'', number_value (pb_server_time p)),
             (''actorId'', Str (pb_actor_id p)), (''seq'', number_value (pb_seq p))])"

definition write_join_payload :: "join_payload \<Rightarrow> js_value" where
  "write_join_payload p =
     Obj ([(''roomCode'', Str (jp_room_code p)), (''joinToken'', Str (jp_join_token p))]
          @ optional_field ''memberToken'' Str (jp_member_token p)
          @ optional_field ''displayName'' Str (jp_display_name p)
          @ optional_field ''protocolVersion'' number_value (jp_protocol_version p))"

definition typed_value :: "string \<Rightarrow> (string \<times> js_value) list \<Rightarrow> js_value" where
  "typed_value ty payload = Obj ((''type'', Str ty) # payload)"

fun write_client_message :: "client_message \<Rightarrow> js_value" where
  "write_client_message (Room_Create h) =
     typed_value ''room:create'' (optional_field ''payload'' write_client_hello h)"
| "write_client_message (Room_Join p) =
     typed_value ''room:join'' [(''payload'', write_join_payload p)]"
| "write_client_message (Profile_Update tok name) =
     typed_value ''profile:update''
       [(''payload'', Obj [(''memberToken'', Str tok), (''displayName'', Str name)])]"
| "write_client_message (Room_Leave tok) =
     typed_value ''room:leave'' [(''payload'', Obj (optional_field ''memberToken'' Str tok))]"
| "write_client_message (Video_Share tok v pb) =
     typed_value ''video:share''
       [(''payload'', Obj ([(''memberToken'', Str tok), (''video'', write_shared_video v)]
          @ optional_field ''playback'' write_playback_state pb))]"
| "write_client_message (Playback_Update tok pb) =
     typed_value ''playback:update''
       [(''payload'', Obj [(''memberToken'', Str tok), (''playback'', write_playback_state pb)])]"
| "write_client_message (Sync_Request tok) =
     typed_value ''sync:request'' [(''payload'', Obj [(''memberToken'', Str tok)])]"
| "write_client_message (Sync_Ping t) =
     typed_value ''sync:ping'' [(''payload'', Obj [(''clientSendTime'', number_value t)])]"

lemma read_values [simp]:
  "read_string (Str s) = Some s" "read_number (number_value r) = Some r"
  "read_bool (Bool_Val b) = Some b"
  "read_play_state (play_state_value ps) = Some ps"
  "read_sync_intent (sync_intent_value si) = Some si"
  by (simp_all add: read_string_def read_number_def number_value_def read_bool_def
      read_play_state_def play_state_value_def read_sync_intent_def sync_intent_value_def
      split: play_state.splits sync_intent.splits)

lemma values_defined [simp]:
  "number_value r \<noteq> Undefined" "play_state_value ps \<noteq> Undefined"
  "sync_intent_value si \<noteq> Undefined"
  by (simp_all add: number_value_def play_state_value_def sync_intent_value_def)

lemma read_optional_Undefined [simp]: "read_optional rd Undefined = Some None"
  and read_optional_value [simp]: "v \<noteq> Undefined \<Longrightarrow> read_optional rd v = map_option Some (rd v)"
  by (simp_all add: read_optional_def)

lemma read_record_Obj [simp]: "read_record (Obj fs) = Some (Obj fs)"
  by (simp add: read_record_def)

lemma optional_field_simps [simp]:
  "optional_field k f None = []" "optional_field k f (Some x) = [(k, f x)]"
  by (simp_all add: optional_field_def)

lemma read_write_hello [simp]: "read_client_hello (write_client_hello h) = Some h"
  by (cases h; cases "ch_display_name h"; cases "ch_protocol_version h")
     (simp_all add: read_client_hello_def write_client_hello_def)

lemma read_write_video [simp]: "read_shared_video (write_shared_video v) = Some v"
  by (cases v; cases "sv_shared_by_member_id v"; cases "sv_shared_by_display_name v")
     (simp_all add: read_shared_video_def write_shared_video_def)

lemma read_write_playback [simp]: "read_playback_state (write_playback_state p) = Some p"
  by (cases p; cases "pb_sync_intent p"; cases "pb_user_initiated p"; cases "pb_natural_end p")
     (simp_all add: read_playback_state_def write_playback_state_def)

lemma read_write_join [simp]: "read_join_payload (write_join_payload p) = Some p"
  by (cases p; cases "jp_member_token p"; cases "jp_display_name p"; cases "jp_protocol_version p")
     (simp_all add: read_join_payload_def write_join_payload_def)

lemma written_defined [simp]:
  "write_client_hello h \<noteq> Undefined" "write_playback_state p \<noteq> Undefined"
  by (simp_all add: write_client_hello_def write_playback_state_def)

lemma read_write_message: "read_client_message (write_client_message m) = Some m"
proof (cases m)
  case (Room_Create h)
  then show ?thesis
    by (cases h) (simp_all add: read_client_message_def typed_value_def read_payload_def)
next
  case (Room_Leave tok)
  then show ?thesis
    by (cases tok)
       (simp_all add: read_client_message_def typed_value_def read_payload_def read_leave_room_def)
next
  case (Video_Share tok v pb)
  then show ?thesis
    by (cases pb)
       (simp_all add: read_client_message_def typed_value_def read_payload_def read_share_video_def)
qed (simp_all add: read_client_message_def typed_value_def read_payload_def read_profile_update_def
       read_playback_update_def read_sync_request_def read_sync_ping_def)

text \<open>
  Round trip: every well-formed client message, written as JSON, passes the server's guard
  and reads back as the same message; a message that is not well formed is refused.
\<close>

theorem client_message_round_trip:
  "read_client_message (write_client_message m) = Some m
   \<and> is_client_message U (write_client_message m) = wf_client_message U m"
  using reads_as_def [of read_client_message "wf_client_message U" "write_client_message m"]
    guard_exact [of U "write_client_message m"] by (simp add: read_write_message)

end
