(* ===== verification/Rate_Limit.thy ===== *)
theory Rate_Limit
  imports Prelude
begin

text \<open>
  \<open>server/src/rate-limit.ts\<close>: the fixed-window counter and the token bucket that every
  session, every address and the admin login are metered with. The source mutates the counter
  and returns whether the attempt may pass; here the new counter is returned beside the answer.

  Both are interpretations of \<open>metered\<close>, which gives the bound on what they can let through.
\<close>

definition window_minute_ms :: rat where "window_minute_ms = 60000"
definition window_10_seconds_ms :: rat where "window_10_seconds_ms = 10000"

record window_counter =
  window_start :: rat
  counted :: nat

record token_bucket =
  tokens :: rat
  last_refill_at :: rat

definition create_window_counter :: "rat \<Rightarrow> window_counter" where
  "create_window_counter now = \<lparr> window_start = now, counted = 0 \<rparr>"

definition create_token_bucket :: "rat \<Rightarrow> rat \<Rightarrow> token_bucket" where
  "create_token_bucket capacity now = \<lparr> tokens = capacity, last_refill_at = now \<rparr>"

definition consume_fixed_window ::
    "window_counter \<Rightarrow> nat \<Rightarrow> rat \<Rightarrow> rat \<Rightarrow> bool \<times> window_counter" where
  "consume_fixed_window counter limit window_ms now =
     (let c = (if window_ms \<le> now - window_start counter
               then \<lparr> window_start = now, counted = 0 \<rparr> else counter)
      in if limit \<le> counted c then (False, c)
         else (True, c\<lparr> counted := counted c + 1 \<rparr>))"

definition consume_token_bucket ::
    "token_bucket \<Rightarrow> rat \<Rightarrow> rat \<Rightarrow> rat \<Rightarrow> bool \<times> token_bucket" where
  "consume_token_bucket bucket refill_per_second capacity now =
     (let elapsed_ms = max 0 (now - last_refill_at bucket);
          refill = elapsed_ms / 1000 * refill_per_second;
          b = \<lparr> tokens = min capacity (tokens bucket + refill), last_refill_at = now \<rparr>
      in if tokens b < 1 then (False, b) else (True, b\<lparr> tokens := tokens b - 1 \<rparr>))"

subsection \<open>The fixed window as a metered resource\<close>

definition window_ok :: "nat \<Rightarrow> rat \<Rightarrow> window_counter \<Rightarrow> rat \<Rightarrow> bool" where
  "window_ok limit window_ms c t = (0 < window_ms \<and> counted c \<le> limit \<and> window_start c \<le> t)"

definition window_rate :: "nat \<Rightarrow> rat \<Rightarrow> rat" where
  "window_rate limit window_ms = (if 0 < window_ms then of_nat limit / window_ms else 0)"

text \<open>What the window may still grant, plus the share of the next one that has come due.\<close>

definition window_potential :: "nat \<Rightarrow> rat \<Rightarrow> window_counter \<Rightarrow> rat \<Rightarrow> rat" where
  "window_potential limit window_ms c t =
     of_nat limit - of_nat (counted c) + window_rate limit window_ms * (t - window_start c)"

lemma window_rate_nonneg: "0 \<le> window_rate limit window_ms"
  by (simp add: window_rate_def)

lemma window_full_share:
  assumes "0 < window_ms" and "window_ms \<le> d"
  shows "of_nat limit \<le> window_rate limit window_ms * d"
proof -
  have "of_nat limit = window_rate limit window_ms * window_ms"
    using assms(1) by (simp add: window_rate_def)
  also have "\<dots> \<le> window_rate limit window_ms * d"
    by (rule mult_left_mono) (use assms in \<open>simp_all add: window_rate_nonneg\<close>)
  finally show ?thesis .
qed

interpretation fixed_window: metered
  "\<lambda>c t. consume_fixed_window c limit window_ms t"
  "window_potential limit window_ms"
  "window_rate limit window_ms"
  "window_ok limit window_ms"
  for limit window_ms
proof
  fix c :: window_counter and t t' :: rat and granted :: bool and c' :: window_counter
  show "0 \<le> window_rate limit window_ms" by (rule window_rate_nonneg)
  show "0 \<le> window_potential limit window_ms c t" if "window_ok limit window_ms c t"
    using that window_rate_nonneg [of limit window_ms]
    by (simp add: window_ok_def window_potential_def)
  show "window_potential limit window_ms c t' \<le>
      window_potential limit window_ms c t + window_rate limit window_ms * (t' - t)"
    by (simp add: window_potential_def algebra_simps)
  show "window_potential limit window_ms c' t + (if granted then 1 else 0)
      \<le> window_potential limit window_ms c t"
    if ok: "window_ok limit window_ms c t"
      and step: "consume_fixed_window c limit window_ms t = (granted, c')"
  proof (cases "window_ms \<le> t - window_start c")
    case True
    have "of_nat limit \<le> window_rate limit window_ms * (t - window_start c)"
      using ok True by (intro window_full_share) (simp_all add: window_ok_def)
    moreover have "of_nat (counted c) \<le> (of_nat limit :: rat)"
      using ok by (simp add: window_ok_def)
    ultimately show ?thesis
      using step True
      by (auto simp: consume_fixed_window_def Let_def window_potential_def split: if_splits)
  next
    case False
    then show ?thesis
      using step
      by (auto simp: consume_fixed_window_def Let_def window_potential_def split: if_splits)
  qed
  show "window_ok limit window_ms c' t"
    if "window_ok limit window_ms c t" and "consume_fixed_window c limit window_ms t = (granted, c')"
    using that by (auto simp: consume_fixed_window_def Let_def window_ok_def split: if_splits)
  show "window_ok limit window_ms c t'" if "window_ok limit window_ms c t" and "t \<le> t'"
    using that by (simp add: window_ok_def)
qed

subsection \<open>The token bucket as a metered resource\<close>

definition bucket_ok :: "rat \<Rightarrow> rat \<Rightarrow> token_bucket \<Rightarrow> rat \<Rightarrow> bool" where
  "bucket_ok refill capacity b t =
     (0 \<le> refill \<and> 0 \<le> tokens b \<and> tokens b \<le> capacity \<and> last_refill_at b \<le> t)"

definition bucket_rate :: "rat \<Rightarrow> rat" where
  "bucket_rate refill = max 0 refill / 1000"

definition bucket_potential :: "rat \<Rightarrow> rat \<Rightarrow> token_bucket \<Rightarrow> rat \<Rightarrow> rat" where
  "bucket_potential refill capacity b t =
     min capacity (tokens b + bucket_rate refill * (t - last_refill_at b))"

lemma bucket_rate_nonneg: "0 \<le> bucket_rate refill"
  by (simp add: bucket_rate_def)

lemma bucket_refilled:
  "0 \<le> refill \<Longrightarrow> last_refill_at b \<le> t \<Longrightarrow>
     max 0 (t - last_refill_at b) / 1000 * refill = bucket_rate refill * (t - last_refill_at b)"
  by (simp add: bucket_rate_def)

lemma consume_token_bucket_eq:
  assumes "bucket_ok refill capacity b t"
  shows "consume_token_bucket b refill capacity t =
    (let p = bucket_potential refill capacity b t
     in if p < 1 then (False, \<lparr> tokens = p, last_refill_at = t \<rparr>)
        else (True, \<lparr> tokens = p - 1, last_refill_at = t \<rparr>))"
proof -
  have "max 0 (t - last_refill_at b) / 1000 * refill = bucket_rate refill * (t - last_refill_at b)"
    using assms by (intro bucket_refilled) (simp_all add: bucket_ok_def)
  then show ?thesis
    unfolding consume_token_bucket_def bucket_potential_def Let_def by (simp only:) simp
qed

interpretation token_bucket: metered
  "\<lambda>b t. consume_token_bucket b refill capacity t"
  "bucket_potential refill capacity"
  "bucket_rate refill"
  "bucket_ok refill capacity"
  for refill capacity
proof
  fix b :: token_bucket and t t' :: rat and granted :: bool and b' :: token_bucket
  show "0 \<le> bucket_rate refill" by (rule bucket_rate_nonneg)
  show nonneg: "0 \<le> bucket_potential refill capacity b t" if "bucket_ok refill capacity b t" for b t
    using that bucket_rate_nonneg [of refill]
    by (auto simp: bucket_ok_def bucket_potential_def min_def)
  show "bucket_potential refill capacity b t' \<le>
      bucket_potential refill capacity b t + bucket_rate refill * (t' - t)" if "t \<le> t'"
  proof -
    have "0 \<le> bucket_rate refill * (t' - t)"
      using that bucket_rate_nonneg [of refill] by simp
    then show ?thesis
      by (auto simp: bucket_potential_def min_def algebra_simps)
  qed
  show "bucket_potential refill capacity b' t + (if granted then 1 else 0)
      \<le> bucket_potential refill capacity b t"
    if ok: "bucket_ok refill capacity b t"
      and step: "consume_token_bucket b refill capacity t = (granted, b')"
    using step unfolding consume_token_bucket_eq [OF ok]
    by (auto simp: Let_def bucket_potential_def split: if_splits)
  show "bucket_ok refill capacity b' t"
    if ok: "bucket_ok refill capacity b t"
      and step: "consume_token_bucket b refill capacity t = (granted, b')"
    using step nonneg [OF ok] ok unfolding consume_token_bucket_eq [OF ok]
    by (auto simp: Let_def bucket_ok_def bucket_potential_def split: if_splits)
  show "bucket_ok refill capacity b t'" if "bucket_ok refill capacity b t" and "t \<le> t'"
    using that by (simp add: bucket_ok_def)
qed

subsection \<open>Properties\<close>

text \<open>
  However attempts arrive, a fresh fixed-window counter grants at most
  \<open>limit * (1 + elapsed / window)\<close> of them up to a moment: a session cannot create or join
  rooms, share videos or ask for state faster than configured by timing its attempts around
  the window's edge.
\<close>

theorem fixed_window_bound:
  assumes "0 < window_ms" and "sorted (t0 # ts)" and "\<forall>t \<in> set ts. t \<le> t1" and "t0 \<le> t1"
  shows "of_nat (granted_count (\<lambda>c t. consume_fixed_window c limit window_ms t)
            (create_window_counter t0) ts)
         \<le> of_nat limit * (1 + (t1 - t0) / window_ms)"
proof -
  have "window_ok limit window_ms (create_window_counter t0) t0"
    using assms(1) by (simp add: window_ok_def create_window_counter_def)
  from fixed_window.granted_bound [OF this assms(2-4)] show ?thesis
    using assms(1)
    by (simp add: window_potential_def create_window_counter_def window_rate_def algebra_simps)
qed

theorem fixed_window_bound_witness:
  "granted_count (\<lambda>c t. consume_fixed_window c 2 1000 t) (create_window_counter 0)
     [0, 10, 20, 999, 1000] = 3
   \<and> (3::rat) \<le> 2 * (1 + 1000 / 1000)"
proof -
  have *: "granted_count (\<lambda>c t. consume_fixed_window c 2 1000 t) (create_window_counter 0)
     [0, 10, 20, 999, 1000] = 3"
    by (simp add: consume_fixed_window_def create_window_counter_def)
  show ?thesis
    using fixed_window_bound [of 1000 0 "[0, 10, 20, 999, 1000]" 1000 2] unfolding * by simp
qed

text \<open>
  A token bucket grants at most its burst plus its rate times the elapsed seconds, in
  every run of attempts, from a fresh bucket.
\<close>

theorem token_bucket_bound:
  assumes "0 \<le> refill" and "0 \<le> capacity"
    and "sorted (t0 # ts)" and "\<forall>t \<in> set ts. t \<le> t1" and "t0 \<le> t1"
  shows "of_nat (granted_count (\<lambda>b t. consume_token_bucket b refill capacity t)
            (create_token_bucket capacity t0) ts)
         \<le> capacity + refill * ((t1 - t0) / 1000)"
proof -
  have "bucket_ok refill capacity (create_token_bucket capacity t0) t0"
    using assms by (simp add: bucket_ok_def create_token_bucket_def)
  from token_bucket.granted_bound [OF this assms(3-5)] show ?thesis
    using assms(1)
    by (simp add: bucket_potential_def create_token_bucket_def bucket_rate_def)
qed

theorem token_bucket_bound_witness:
  "granted_count (\<lambda>b t. consume_token_bucket b 2 3 t) (create_token_bucket 3 0)
     [0, 0, 0, 0, 500] = 4
   \<and> (4::rat) \<le> 3 + 2 * (500 / 1000)"
proof -
  have *: "granted_count (\<lambda>b t. consume_token_bucket b 2 3 t) (create_token_bucket 3 0)
     [0, 0, 0, 0, 500] = 4"
    by (simp add: consume_token_bucket_def create_token_bucket_def)
  show ?thesis
    using token_bucket_bound [of 2 3 0 "[0, 0, 0, 0, 500]" 500] unfolding * by simp
qed

end
