(* ===== verification/Playback_Authority.thy ===== *)
theory Playback_Authority
  imports Protocol
begin

text \<open>
  \<open>server/src/playback-authority.ts\<close>: whether an incoming playback report replaces the
  room's playback. After a member takes a deliberate action it holds the room's authority for
  a short window; what other members report in that window is mostly the echo of players that
  are still following, and must not be taken for a new instruction.
\<close>

datatype authority_kind = Share_Kind | Play_Kind | Pause_Kind | Seek_Kind | Ratechange_Kind

datatype authority_source = From_Video_Share | From_Playback_Update

record playback_authority =
  pa_actor_id :: string
  pa_until :: rat
  pa_kind :: authority_kind
  pa_source :: authority_source

datatype accept_reason = Same_Actor | No_Current | By_Default

datatype acceptance = Accept accept_reason | Ignore_As_Follow | Ignore_Stale_Like

definition stop_like :: "play_state \<Rightarrow> bool" where
  "stop_like s = (s = Paused \<or> s = Buffering)"

definition decide_playback_acceptance ::
    "playback_state option \<Rightarrow> playback_authority option \<Rightarrow> playback_state \<Rightarrow> rat \<Rightarrow> acceptance" where
  "decide_playback_acceptance current_playback authority incoming current_time =
     (case current_playback of
        None \<Rightarrow> Accept No_Current
      | Some current \<Rightarrow>
          if pb_actor_id current = pb_actor_id incoming then Accept Same_Actor
          else
            (let current_is_stop_like = stop_like (pb_play_state current);
                 incoming_is_playing = (pb_play_state incoming = Playing);
                 incoming_is_stop_like = stop_like (pb_play_state incoming);
                 incoming_is_explicit_control =
                   is_explicit_control_sync_intent (pb_sync_intent incoming);
                 within_window = (case authority of None \<Rightarrow> False | Some a \<Rightarrow> current_time < pa_until a);
                 prefers_continuity =
                   (case authority of None \<Rightarrow> False
                    | Some a \<Rightarrow> pa_kind a \<in> {Play_Kind, Seek_Kind, Ratechange_Kind, Share_Kind});
                 owns_current =
                   (case authority of None \<Rightarrow> False
                    | Some a \<Rightarrow> pb_actor_id current = pa_actor_id a \<and> pb_play_state current = Playing);
                 from_other =
                   (case authority of None \<Rightarrow> False | Some a \<Rightarrow> pa_actor_id a \<noteq> pb_actor_id incoming);
                 close_in_timeline =
                   (\<bar>pb_current_time incoming - pb_current_time current\<bar> < 12 / 10);
                 non_advancing_stop_like =
                   (pb_current_time incoming \<le> pb_current_time current + 15 / 100);
                 drifts_back = (pb_current_time incoming + 6 / 10 < pb_current_time current)
             in if \<not> incoming_is_explicit_control \<and> within_window \<and> from_other
                   \<and> incoming_is_playing
                   \<and> (current_is_stop_like \<or> close_in_timeline \<or> prefers_continuity \<and> owns_current)
                then Ignore_As_Follow
                else if \<not> incoming_is_explicit_control \<and> within_window \<and> from_other
                   \<and> prefers_continuity \<and> incoming_is_stop_like \<and> \<not> current_is_stop_like
                   \<and> close_in_timeline \<and> non_advancing_stop_like
                then Ignore_As_Follow
                else if \<not> incoming_is_explicit_control \<and> incoming_is_playing \<and> drifts_back
                then Ignore_Stale_Like
                else Accept By_Default))"

fun accepts :: "acceptance \<Rightarrow> bool" where
  "accepts (Accept _) = True"
| "accepts _ = False"

text \<open>The authority another member holds at a moment, if any.\<close>

definition open_window_of_other :: "playback_authority option \<Rightarrow> playback_state \<Rightarrow> rat \<Rightarrow> bool" where
  "open_window_of_other authority incoming t =
     (case authority of None \<Rightarrow> False
      | Some a \<Rightarrow> t < pa_until a \<and> pa_actor_id a \<noteq> pb_actor_id incoming)"

lemma decide_explicit:
  "is_explicit_control_sync_intent (pb_sync_intent incoming) \<Longrightarrow>
     accepts (decide_playback_acceptance current authority incoming t)"
  by (simp add: decide_playback_acceptance_def Let_def split: option.splits)

lemma decide_cases:
  assumes "\<not> accepts (decide_playback_acceptance current authority incoming t)"
  obtains (follow) cur where "current = Some cur"
      "decide_playback_acceptance current authority incoming t = Ignore_As_Follow"
      "open_window_of_other authority incoming t"
  | (stale) cur where "current = Some cur"
      "decide_playback_acceptance current authority incoming t = Ignore_Stale_Like"
      "pb_play_state incoming = Playing"
      "pb_current_time incoming + 6 / 10 < pb_current_time cur"
  using assms
  by (auto simp: decide_playback_acceptance_def Let_def open_window_of_other_def
      split: option.splits if_splits)

lemma decide_outside_window:
  assumes "\<not> open_window_of_other authority incoming t" and "pb_play_state incoming \<noteq> Playing"
  shows "accepts (decide_playback_acceptance current authority incoming t)"
  using assms by (metis decide_cases)

subsection \<open>A run of reports against one room\<close>

text \<open>What the room's playback becomes when a report is accepted, and over a list of reports.\<close>

definition accept_report ::
    "(playback_state \<times> rat) \<Rightarrow> playback_authority option \<Rightarrow> playback_state option \<Rightarrow> playback_state option"
  where
  "accept_report r authority current =
     (if accepts (decide_playback_acceptance current authority (fst r) (snd r)) then Some (fst r)
      else current)"

lemma accepted_playing_not_behind:
  assumes "pb_play_state incoming = Playing"
    and "\<not> is_explicit_control_sync_intent (pb_sync_intent incoming)"
    and "pb_actor_id cur \<noteq> pb_actor_id incoming"
    and "accepts (decide_playback_acceptance (Some cur) authority incoming t)"
  shows "pb_current_time cur - 6 / 10 \<le> pb_current_time incoming"
  using assms by (auto simp: decide_playback_acceptance_def Let_def split: if_splits)

subsection \<open>Properties\<close>

text \<open>
  C38. A report is refused only for one of two reasons: it comes from someone other than the
  holder of a still-open authority window, or it is a playing report that would take the room
  back by more than 0.6 seconds. In particular a member's own reports, the first report in a
  room, and every explicit seek or rate change pass in every state of the window, and a pause
  passes whenever nobody else holds the window.
\<close>

theorem refusals_are_justified:
  assumes "\<not> accepts (decide_playback_acceptance current authority incoming t)"
  shows "\<exists>cur. current = Some cur \<and> pb_actor_id cur \<noteq> pb_actor_id incoming
     \<and> \<not> is_explicit_control_sync_intent (pb_sync_intent incoming)
     \<and> (open_window_of_other authority incoming t
        \<or> pb_play_state incoming = Playing
          \<and> pb_current_time incoming + 6 / 10 < pb_current_time cur)"
  using assms
  by (auto simp: decide_playback_acceptance_def Let_def open_window_of_other_def
      split: option.splits if_splits)

definition sample_playback :: "string \<Rightarrow> rat \<Rightarrow> play_state \<Rightarrow> playback_state" where
  "sample_playback actor pos st =
     \<lparr> pb_url = ''u'', pb_current_time = pos, pb_play_state = st, pb_sync_intent = None,
       pb_user_initiated = None, pb_natural_end = None, pb_playback_rate = 1,
       pb_updated_at = 0, pb_server_time = 0, pb_actor_id = actor, pb_seq = 0 \<rparr>"

definition sample_authority :: "authority_kind \<Rightarrow> playback_authority" where
  "sample_authority k =
     \<lparr> pa_actor_id = ''alice'', pa_until = 1200, pa_kind = k, pa_source = From_Playback_Update \<rparr>"

theorem refusals_are_justified_witness:
  "\<exists>cur. Some (sample_playback ''alice'' 50 Paused) = Some cur
     \<and> pb_actor_id cur \<noteq> pb_actor_id (sample_playback ''bob'' 51 Playing)
     \<and> \<not> is_explicit_control_sync_intent (pb_sync_intent (sample_playback ''bob'' 51 Playing))
     \<and> (open_window_of_other (Some (sample_authority Pause_Kind)) (sample_playback ''bob'' 51 Playing) 700
        \<or> pb_play_state (sample_playback ''bob'' 51 Playing) = Playing
          \<and> pb_current_time (sample_playback ''bob'' 51 Playing) + 6 / 10 < pb_current_time cur)"
  by (rule refusals_are_justified) code_simp

text \<open>
  While the authority window of a member whose play, seek, rate change or share set the
  current playback is open, no other member's implicit report disturbs it: a playing report
  is refused wherever it is, and a pause or stall close by and not ahead is refused too, so
  any number of followers catching up leaves the room's playback as it is.
\<close>

theorem followers_leave_authority_alone:
  assumes holder: "pa_actor_id a = pb_actor_id cur" "pb_play_state cur = Playing"
      "pa_kind a \<noteq> Pause_Kind"
    and reports: "\<forall>(r, t) \<in> set reports. t < pa_until a \<and> pb_actor_id r \<noteq> pa_actor_id a
        \<and> \<not> is_explicit_control_sync_intent (pb_sync_intent r)
        \<and> (pb_play_state r = Playing
           \<or> pb_current_time r \<le> pb_current_time cur + 15 / 100
             \<and> pb_current_time cur < pb_current_time r + 12 / 10)"
  shows "fold (\<lambda>r c. accept_report r (Some a) c) reports (Some cur) = Some cur"
  using reports
proof (induction reports)
  case (Cons x reports)
  obtain r t where x: "x = (r, t)" by fastforce
  have kind: "pa_kind a \<in> {Play_Kind, Seek_Kind, Ratechange_Kind, Share_Kind}"
    using holder(3) by (cases "pa_kind a") auto
  have stop: "pb_play_state r = Playing \<or> stop_like (pb_play_state r)"
    by (cases "pb_play_state r") (simp_all add: stop_like_def)
  have close: "\<bar>pb_current_time r - pb_current_time cur\<bar> < 12 / 10"
    if "pb_play_state r \<noteq> Playing"
    using Cons.prems x that by (auto simp: abs_if)
  have "\<not> accepts (decide_playback_acceptance (Some cur) (Some a) r t)"
    using Cons.prems x holder kind stop close
    by (auto simp: decide_playback_acceptance_def Let_def stop_like_def)
  then have "accept_report x (Some a) (Some cur) = Some cur"
    by (simp add: accept_report_def x)
  then show ?case using Cons by simp
qed simp

theorem followers_leave_authority_alone_witness:
  "fold (\<lambda>r c. accept_report r (Some (sample_authority Seek_Kind)) c)
     [(sample_playback ''bob'' 10 Playing, 100), (sample_playback ''carol'' 49 Buffering, 900)]
     (Some (sample_playback ''alice'' 50 Playing)) = Some (sample_playback ''alice'' 50 Playing)"
  by (rule followers_leave_authority_alone)
     (simp_all add: sample_authority_def sample_playback_def is_explicit_control_sync_intent_def)

end
