(* ===== verification/Shared_Owner.thy ===== *)
theory Shared_Owner
  imports Prelude
begin

text \<open>
  \<open>server/src/shared-video-owner.ts\<close>: who is presented as the owner of the room's share.
  The stored sharer keeps it while online; otherwise the online member of longest tenure
  takes it, the smaller member id deciding between equal tenures.
\<close>

record owner_candidate =
  oc_id :: string
  oc_joined_at :: "rat option"

text \<open>
  \<open>joinedAt ?? Number.POSITIVE_INFINITY\<close>: the operands of the tenure comparison. A session
  that never recorded a join is behind every one that did.
\<close>

datatype tenure = Joined rat | Never_Joined

instantiation tenure :: linorder
begin

fun less_eq_tenure :: "tenure \<Rightarrow> tenure \<Rightarrow> bool" where
  "less_eq_tenure (Joined a) (Joined b) = (a \<le> b)"
| "less_eq_tenure _ Never_Joined = True"
| "less_eq_tenure Never_Joined (Joined _) = False"

definition less_tenure :: "tenure \<Rightarrow> tenure \<Rightarrow> bool" where
  "less_tenure a b = (a \<le> b \<and> \<not> b \<le> a)"

instance
proof
  fix a b c :: tenure
  show "(a < b) = (a \<le> b \<and> \<not> b \<le> a)" by (rule less_tenure_def)
  show "a \<le> a" by (cases a) auto
  show "a \<le> c" if "a \<le> b" "b \<le> c" using that by (cases a; cases b; cases c) auto
  show "a = b" if "a \<le> b" "b \<le> a" using that by (cases a; cases b) auto
  show "a \<le> b \<or> b \<le> a" by (cases a; cases b) auto
qed

end

definition tenure_of :: "owner_candidate \<Rightarrow> tenure" where
  "tenure_of c = (case oc_joined_at c of None \<Rightarrow> Never_Joined | Some t \<Rightarrow> Joined t)"

text \<open>The sign of the source's comparison: negative, zero or positive.\<close>

definition compare_candidates :: "owner_candidate \<Rightarrow> owner_candidate \<Rightarrow> int" where
  "compare_candidates left right =
     (if tenure_of left \<noteq> tenure_of right
      then (if tenure_of left < tenure_of right then -1 else 1)
      else if oc_id left < oc_id right then -1
      else if oc_id right < oc_id left then 1 else 0)"

definition elect_successor :: "owner_candidate list \<Rightarrow> owner_candidate option" where
  "elect_successor members =
     fold (\<lambda>member successor.
        case successor of None \<Rightarrow> Some member
        | Some s \<Rightarrow> if compare_candidates member s < 0 then Some member else Some s)
       members None"

definition resolve_shared_video_owner_id ::
    "string option \<Rightarrow> owner_candidate list \<Rightarrow> string option" where
  "resolve_shared_video_owner_id shared_by members =
     (if \<not> truthy shared_by then None
      else if \<exists>m \<in> set members. Some (oc_id m) = shared_by then shared_by
      else case elect_successor members of None \<Rightarrow> shared_by | Some s \<Rightarrow> Some (oc_id s))"

definition shared_video_owner_changed_on_leave ::
    "string option \<Rightarrow> owner_candidate list \<Rightarrow> owner_candidate \<Rightarrow> bool" where
  "shared_video_owner_changed_on_leave shared_by members_after leaving =
     (let members_before =
        (if \<exists>m \<in> set members_after. oc_id m = oc_id leaving
         then map (\<lambda>m. if oc_id m = oc_id leaving then leaving else m) members_after
         else members_after @ [leaving])
      in resolve_shared_video_owner_id shared_by members_before
         \<noteq> resolve_shared_video_owner_id shared_by members_after)"

subsection \<open>The successor is the minimum of a linear order\<close>

definition rank :: "owner_candidate \<Rightarrow> tenure \<times> string" where
  "rank c = (tenure_of c, oc_id c)"

lemma compare_candidates_rank: "compare_candidates l r < 0 \<longleftrightarrow> rank l < rank r"
  by (auto simp: compare_candidates_def rank_def less_prod_def)

lemma elect_fold:
  "\<exists>s. fold (\<lambda>member successor.
        case successor of None \<Rightarrow> Some member
        | Some s \<Rightarrow> if compare_candidates member s < 0 then Some member else Some s)
       members (Some s0) = Some s
     \<and> s \<in> insert s0 (set members) \<and> (\<forall>m \<in> insert s0 (set members). rank s \<le> rank m)"
proof (induction members arbitrary: s0)
  case (Cons m members)
  let ?s1 = "if compare_candidates m s0 < 0 then m else s0"
  have "rank ?s1 \<le> rank m" "rank ?s1 \<le> rank s0" "?s1 \<in> {m, s0}"
    by (auto simp: compare_candidates_rank)
  with Cons.IH [of ?s1] show ?case
    by (auto intro: order_trans)
qed simp

lemma elect_successor_least:
  assumes "members \<noteq> []"
  obtains s where "elect_successor members = Some s" "s \<in> set members"
    "\<forall>m \<in> set members. rank s \<le> rank m"
  using assms elect_fold [of "tl members" "hd members"]
  by (cases members) (auto simp: elect_successor_def)

lemma elect_successor_Nil [simp]: "elect_successor [] = None"
  by (simp add: elect_successor_def)

lemma elect_successor_id_cong:
  assumes "set xs = set ys"
  shows "map_option oc_id (elect_successor xs) = map_option oc_id (elect_successor ys)"
proof (cases "xs = []")
  case False
  then have "ys \<noteq> []" using assms by auto
  obtain s where s: "elect_successor xs = Some s" "s \<in> set xs" "\<forall>m \<in> set xs. rank s \<le> rank m"
    using False by (rule elect_successor_least)
  obtain u where u: "elect_successor ys = Some u" "u \<in> set ys" "\<forall>m \<in> set ys. rank u \<le> rank m"
    using \<open>ys \<noteq> []\<close> by (rule elect_successor_least)
  have "rank s = rank u"
    using s u assms by (metis order_antisym)
  then show ?thesis using s(1) u(1) by (simp add: rank_def)
qed (use assms in \<open>simp add: elect_successor_def\<close>)

lemma resolve_as_election:
  "truthy shared_by \<Longrightarrow> \<forall>m \<in> set members. Some (oc_id m) \<noteq> shared_by \<Longrightarrow>
     resolve_shared_video_owner_id shared_by members =
       (case elect_successor members of None \<Rightarrow> shared_by | Some s \<Rightarrow> Some (oc_id s))"
  by (auto simp: resolve_shared_video_owner_id_def)

lemma resolve_online:
  "truthy shared_by \<Longrightarrow> members \<noteq> [] \<Longrightarrow>
     \<exists>m \<in> set members. resolve_shared_video_owner_id shared_by members = Some (oc_id m)"
  by (cases "\<exists>m \<in> set members. Some (oc_id m) = shared_by")
     (force simp: resolve_shared_video_owner_id_def elim: elect_successor_least)+

subsection \<open>Properties\<close>

text \<open>
  C23. Who owns the share: the stored sharer exactly while online; otherwise, with somebody
  online, a member with the longest tenure, the least id among those; with nobody online, the
  stored sharer again; and nobody if nobody ever shared. The answer is the specification's
  for every list of candidates.
\<close>

theorem owner_is_the_longest_tenured:
  "resolve_shared_video_owner_id shared_by members = owner \<longleftrightarrow>
    (if \<not> truthy shared_by then owner = None
     else if members = [] \<or> (\<exists>m \<in> set members. Some (oc_id m) = shared_by) then owner = shared_by
     else \<exists>s \<in> set members. owner = Some (oc_id s) \<and>
       (\<forall>m \<in> set members. tenure_of s < tenure_of m
          \<or> tenure_of s = tenure_of m \<and> oc_id s \<le> oc_id m))"
proof (cases "truthy shared_by \<and> members \<noteq> [] \<and> (\<forall>m \<in> set members. Some (oc_id m) \<noteq> shared_by)")
  case True
  obtain s where s: "elect_successor members = Some s" "s \<in> set members"
    "\<forall>m \<in> set members. rank s \<le> rank m"
    using True elect_successor_least by blast
  have rank: "rank a \<le> rank b \<longleftrightarrow>
      tenure_of a < tenure_of b \<or> tenure_of a = tenure_of b \<and> oc_id a \<le> oc_id b" for a b
    by (auto simp: rank_def less_eq_prod_def)
  have least: "oc_id u = oc_id s"
    if "u \<in> set members" "\<forall>m \<in> set members. rank u \<le> rank m" for u
    using that s(2,3) by (metis order_antisym rank_def prod.inject)
  have "resolve_shared_video_owner_id shared_by members = Some (oc_id s)"
    using True s(1) by (simp add: resolve_as_election)
  then have own: "resolve_shared_video_owner_id shared_by members = owner \<longleftrightarrow> owner = Some (oc_id s)"
    by auto
  have stored: "\<not> (members = [] \<or> (\<exists>m \<in> set members. Some (oc_id m) = shared_by))"
    using True by blast
  have "owner = Some (oc_id s) \<longleftrightarrow>
      (\<exists>u \<in> set members. owner = Some (oc_id u) \<and> (\<forall>m \<in> set members. rank u \<le> rank m))"
    using s(2,3) least by metis
  then show ?thesis
    unfolding own rank using True stored by (simp only: if_not_P if_P not_not simp_thms if_False)
qed (auto simp: resolve_shared_video_owner_id_def elect_successor_def)

theorem owner_is_the_longest_tenured_witness:
  "resolve_shared_video_owner_id (Some ''dave'')
     [\<lparr> oc_id = ''carol'', oc_joined_at = None \<rparr>, \<lparr> oc_id = ''alice'', oc_joined_at = Some 20 \<rparr>,
      \<lparr> oc_id = ''bob'', oc_joined_at = Some 10 \<rparr>] = Some ''bob''"
  unfolding owner_is_the_longest_tenured by code_simp

text \<open>
  Every node resolves the same owner: the answer depends only on which candidates are
  online, not on the order or multiplicity in which a node lists them.
\<close>

theorem owner_independent_of_order:
  assumes "set xs = set ys"
  shows "resolve_shared_video_owner_id shared_by xs = resolve_shared_video_owner_id shared_by ys"
  using elect_successor_id_cong [OF assms] assms
  by (auto simp: resolve_shared_video_owner_id_def split: option.splits)

definition alice_bob :: "owner_candidate list" where
  "alice_bob = [\<lparr> oc_id = ''alice'', oc_joined_at = Some 20 \<rparr>,
                \<lparr> oc_id = ''bob'', oc_joined_at = Some 10 \<rparr>,
                \<lparr> oc_id = ''carol'', oc_joined_at = None \<rparr>]"

theorem owner_independent_of_order_witness:
  "resolve_shared_video_owner_id (Some ''dave'') alice_bob
     = resolve_shared_video_owner_id (Some ''dave'') (rev (alice_bob @ alice_bob))
   \<and> resolve_shared_video_owner_id (Some ''dave'') alice_bob = Some ''bob''"
proof
  show "resolve_shared_video_owner_id (Some ''dave'') alice_bob
     = resolve_shared_video_owner_id (Some ''dave'') (rev (alice_bob @ alice_bob))"
    by (rule owner_independent_of_order) auto
  show "resolve_shared_video_owner_id (Some ''dave'') alice_bob = Some ''bob''"
    by code_simp
qed

text \<open>
  A member's departure moves the share only if that member was presented as its owner: when \<open>sharedVideoOwnerChangedOnLeave\<close> answers no, the
  owner every remaining client has cached is still right, and when a departure is announced
  as a change, the departed member held the share and the new owner is online (or nobody is left, and the
  room falls back to its stored sharer).
\<close>

theorem leave_moves_only_the_leavers_share:
  assumes gone: "\<forall>m \<in> set members_after. oc_id m \<noteq> oc_id leaving"
    and changed: "shared_video_owner_changed_on_leave shared_by members_after leaving"
  shows "resolve_shared_video_owner_id shared_by (members_after @ [leaving]) = Some (oc_id leaving)
     \<and> (if members_after = [] then resolve_shared_video_owner_id shared_by members_after = shared_by
        else \<exists>m \<in> set members_after.
          resolve_shared_video_owner_id shared_by members_after = Some (oc_id m))"
proof -
  let ?before = "members_after @ [leaving]"
  have differ: "resolve_shared_video_owner_id shared_by ?before
      \<noteq> resolve_shared_video_owner_id shared_by members_after"
    using changed gone by (auto simp: shared_video_owner_changed_on_leave_def)
  then have truthy: "truthy shared_by"
    by (rule contrapos_np) (simp add: resolve_shared_video_owner_id_def)
  show ?thesis
  proof (cases "members_after = []")
    case True
    then show ?thesis
      using differ truthy
      by (auto simp: resolve_shared_video_owner_id_def elect_successor_def split: if_splits)
  next
    case False
    have online: "\<exists>m \<in> set members_after.
        resolve_shared_video_owner_id shared_by members_after = Some (oc_id m)"
      by (rule resolve_online [OF truthy False])
    show ?thesis
    proof (rule ccontr)
      assume contra: "\<not> ?thesis"
      then have other: "resolve_shared_video_owner_id shared_by ?before \<noteq> Some (oc_id leaving)"
        using online False by auto
      then have absent: "\<forall>m \<in> set ?before. Some (oc_id m) \<noteq> shared_by"
        using differ truthy by (auto simp: resolve_shared_video_owner_id_def split: if_splits)
      obtain s where s: "elect_successor ?before = Some s" "s \<in> set ?before"
        "\<forall>m \<in> set ?before. rank s \<le> rank m"
        by (rule elect_successor_least [of ?before]) auto
      obtain u where u: "elect_successor members_after = Some u" "u \<in> set members_after"
        "\<forall>m \<in> set members_after. rank u \<le> rank m"
        using False by (rule elect_successor_least)
      have "resolve_shared_video_owner_id shared_by ?before = Some (oc_id s)"
        using absent truthy s(1) by (simp add: resolve_as_election)
      then have "s \<in> set members_after" using s(2) other by auto
      then have "rank s = rank u" using s(3) u(2,3) by (auto intro: order_antisym)
      then have "oc_id s = oc_id u" by (simp add: rank_def)
      then show False
        using differ absent truthy s(1) u(1) by (simp add: resolve_as_election)
    qed
  qed
qed

theorem leave_moves_only_the_leavers_share_witness:
  "resolve_shared_video_owner_id (Some ''dave'')
      (alice_bob @ [\<lparr> oc_id = ''dave'', oc_joined_at = Some 30 \<rparr>]) = Some ''dave''
   \<and> resolve_shared_video_owner_id (Some ''dave'') alice_bob = Some ''bob''"
proof -
  have gone: "\<forall>m \<in> set alice_bob. oc_id m \<noteq> oc_id \<lparr> oc_id = ''dave'', oc_joined_at = Some 30 \<rparr>"
    by code_simp
  have changed: "shared_video_owner_changed_on_leave (Some ''dave'') alice_bob
      \<lparr> oc_id = ''dave'', oc_joined_at = Some 30 \<rparr>"
    by code_simp
  have "resolve_shared_video_owner_id (Some ''dave'') alice_bob = Some ''bob''"
    by code_simp
  with leave_moves_only_the_leavers_share [OF gone changed] show ?thesis by simp
qed

end
