(* ===== verification/Server_Types.thy ===== *)
theory Server_Types
  imports Rate_Limit Protocol
begin

text \<open>
  The server types every component shares (\<open>server/src/types.ts\<close>): the security
  configuration, the per-session limiter state of \<open>rate-limit.ts\<close>, and the session. A
  session's socket appears only as the fact that one is attached.
\<close>

record rate_limit_config =
  room_create_per_minute :: nat
  room_join_per_minute :: nat
  video_share_per_10_seconds :: nat
  playback_update_per_second :: rat
  playback_update_burst :: rat
  sync_request_per_10_seconds :: nat
  sync_ping_per_second :: rat
  sync_ping_burst :: rat
  admin_login_failures_per_ip_per_minute :: nat
  admin_login_failures_per_username_per_minute :: nat

record security_config =
  allowed_origins :: "string list"
  allow_missing_origin_in_dev :: bool
  allow_any_firefox_extension_origin :: bool
  trusted_proxy_addresses :: "string list"
  max_connections_per_ip :: nat
  connection_attempts_per_minute :: nat
  max_members_per_room :: nat
  max_message_bytes :: nat
  invalid_message_close_threshold :: nat
  ws_heartbeat_enabled :: bool
  ws_heartbeat_interval_ms :: rat
  metrics_token :: "string option"
  rate_limits :: rate_limit_config

record session_rate_limit_state =
  rl_room_create :: window_counter
  rl_room_join :: window_counter
  rl_video_share :: window_counter
  rl_sync_request :: window_counter
  rl_playback_update :: token_bucket
  rl_sync_ping :: token_bucket

definition create_session_rate_limit_state ::
    "security_config \<Rightarrow> rat \<Rightarrow> session_rate_limit_state" where
  "create_session_rate_limit_state config now =
     \<lparr> rl_room_create = create_window_counter now,
       rl_room_join = create_window_counter now,
       rl_video_share = create_window_counter now,
       rl_sync_request = create_window_counter now,
       rl_playback_update = create_token_bucket (playback_update_burst (rate_limits config)) now,
       rl_sync_ping = create_token_bucket (sync_ping_burst (rate_limits config)) now \<rparr>"

record session =
  s_id :: string
  s_instance_id :: "string option"
  s_remote_address :: "string option"
  s_origin :: "string option"
  s_room_code :: "string option"
  s_member_id :: "string option"
  s_display_name :: string
  s_member_token :: "string option"
  s_protocol_version :: "rat option"
  s_joined_at :: "rat option"
  s_invalid_message_count :: nat
  s_rate_limit_state :: session_rate_limit_state
  s_attached :: bool

definition has_attached_socket :: "session \<Rightarrow> bool" where
  "has_attached_socket session = s_attached session"

definition empty_session :: "string \<Rightarrow> session" where
  "empty_session i =
     \<lparr> s_id = i, s_instance_id = None, s_remote_address = None, s_origin = None,
       s_room_code = None, s_member_id = None, s_display_name = [], s_member_token = None,
       s_protocol_version = None, s_joined_at = None, s_invalid_message_count = 0,
       s_rate_limit_state =
         \<lparr> rl_room_create = create_window_counter 0, rl_room_join = create_window_counter 0,
           rl_video_share = create_window_counter 0, rl_sync_request = create_window_counter 0,
           rl_playback_update = create_token_bucket 0 0, rl_sync_ping = create_token_bucket 0 0 \<rparr>,
       s_attached = True \<rparr>"

end
