(* ===== verification/Room_Store.thy ===== *)
theory Room_Store
  imports Server_Types Shared_Owner
begin

text \<open>
  \<open>server/src/room-store.ts\<close>: the persisted rooms, their guarded updates and deletes, the
  listing, the operator announcement, and the \<open>room:state\<close> built from a room and the sessions
  in it (with \<open>room-state-age.ts\<close>). The store is the in-memory one; the Redis store implements
  the same interface with scripts that run inside Redis.

  Every read of the source returns a clone, so a room value here is a copy as it is there.
\<close>

record persisted_room =
  pr_code :: string
  pr_join_token :: string
  pr_created_at :: rat
  pr_owner_member_id :: "string option"
  pr_owner_display_name :: "string option"
  pr_shared_video :: "shared_video option"
  pr_playback :: "playback_state option"
  pr_version :: nat
  pr_last_active_at :: rat
  pr_expires_at :: "rat option"

record create_room_input =
  ci_code :: string
  ci_join_token :: string
  ci_created_at :: rat
  ci_owner_member_id :: "string option"
  ci_owner_display_name :: "string option"

text \<open>A patch leaves out a field (\<open>None\<close>) or sets it, possibly to \<open>null\<close> (\<open>Some None\<close>).\<close>

record room_patch =
  rp_owner_display_name :: "string option option"
  rp_shared_video :: "shared_video option option"
  rp_playback :: "playback_state option option"
  rp_last_active_at :: "rat option"
  rp_expires_at :: "rat option option"

definition empty_patch :: room_patch where
  "empty_patch = \<lparr> rp_owner_display_name = None, rp_shared_video = None, rp_playback = None,
     rp_last_active_at = None, rp_expires_at = None \<rparr>"

datatype room_guard = At_Version nat | Instance string "nat option"

datatype update_result = Updated persisted_room | Not_Found | Version_Conflict

datatype delete_outcome = Deleted | Already_Deleted | Superseded

datatype announcement_level = Info_Level | Warning_Level

record stored_announcement =
  an_id :: string
  an_level :: announcement_level
  an_message :: string
  an_scheduled_at :: "rat option"
  an_published_at :: rat

record announcement_snapshot =
  as_announcement :: stored_announcement
  as_remaining_ms :: rat

record room_store =
  st_rooms :: "(string, persisted_room) js_map"
  st_announcement :: "(stored_announcement \<times> rat) option"

definition empty_room_store :: room_store where
  "empty_room_store = \<lparr> st_rooms = [], st_announcement = None \<rparr>"

subsection \<open>Operations\<close>

definition create_persisted_room :: "create_room_input \<Rightarrow> persisted_room" where
  "create_persisted_room input =
     \<lparr> pr_code = ci_code input, pr_join_token = ci_join_token input,
       pr_created_at = ci_created_at input, pr_owner_member_id = ci_owner_member_id input,
       pr_owner_display_name = ci_owner_display_name input, pr_shared_video = None,
       pr_playback = None, pr_version = 0, pr_last_active_at = ci_created_at input,
       pr_expires_at = None \<rparr>"

text \<open>\<open>None\<close> is the error thrown when the code is taken.\<close>

definition create_room :: "create_room_input \<Rightarrow> room_store \<Rightarrow> persisted_room option \<times> room_store" where
  "create_room input st =
     (if js_has (st_rooms st) (ci_code input) then (None, st)
      else let room = create_persisted_room input
           in (Some room, st\<lparr> st_rooms := js_set (pr_code room) room (st_rooms st) \<rparr>))"

definition get_room :: "room_store \<Rightarrow> string \<Rightarrow> persisted_room option" where
  "get_room st code = js_get (st_rooms st) code"

definition apply_patch :: "rat \<Rightarrow> room_patch \<Rightarrow> persisted_room \<Rightarrow> persisted_room" where
  "apply_patch now p room = room\<lparr>
     pr_owner_display_name := (case rp_owner_display_name p of None \<Rightarrow> pr_owner_display_name room | Some v \<Rightarrow> v),
     pr_shared_video := (case rp_shared_video p of None \<Rightarrow> pr_shared_video room | Some v \<Rightarrow> v),
     pr_playback := (case rp_playback p of None \<Rightarrow> pr_playback room | Some v \<Rightarrow> v),
     pr_expires_at := (case rp_expires_at p of None \<Rightarrow> pr_expires_at room | Some v \<Rightarrow> v),
     pr_version := pr_version room + 1,
     pr_last_active_at := (case rp_last_active_at p of None \<Rightarrow> now | Some t \<Rightarrow> t) \<rparr>"

definition update_room ::
    "rat \<Rightarrow> string \<Rightarrow> room_guard \<Rightarrow> room_patch \<Rightarrow> room_store \<Rightarrow> update_result \<times> room_store" where
  "update_room now code expected p st =
     (case js_get (st_rooms st) code of
        None \<Rightarrow> (Not_Found, st)
      | Some current \<Rightarrow>
          let next_room = apply_patch now p current;
              commit = (Updated next_room, st\<lparr> st_rooms := js_set code next_room (st_rooms st) \<rparr>)
          in (case expected of
                At_Version v \<Rightarrow> if pr_version current \<noteq> v then (Version_Conflict, st) else commit
              | Instance join_token version \<Rightarrow>
                  if pr_join_token current \<noteq> join_token then (Not_Found, st)
                  else if version \<noteq> None \<and> Some (pr_version current) \<noteq> version
                  then (Version_Conflict, st) else commit))"

definition delete_room :: "persisted_room \<Rightarrow> room_store \<Rightarrow> delete_outcome \<times> room_store" where
  "delete_room expected st =
     (case js_get (st_rooms st) (pr_code expected) of
        None \<Rightarrow> (Already_Deleted, st)
      | Some room \<Rightarrow>
          if pr_join_token room \<noteq> pr_join_token expected then (Superseded, st)
          else (Deleted, st\<lparr> st_rooms := js_delete (pr_code expected) (st_rooms st) \<rparr>))"

definition expired_at :: "rat \<Rightarrow> persisted_room \<Rightarrow> bool" where
  "expired_at now room = (case pr_expires_at room of None \<Rightarrow> False | Some t \<Rightarrow> t \<le> now)"

definition delete_expired_room :: "string \<Rightarrow> rat \<Rightarrow> room_store \<Rightarrow> delete_outcome \<times> room_store" where
  "delete_expired_room code now st =
     (case js_get (st_rooms st) code of
        None \<Rightarrow> (Already_Deleted, st)
      | Some room \<Rightarrow>
          if \<not> expired_at now room then (Superseded, st)
          else (Deleted, st\<lparr> st_rooms := js_delete code (st_rooms st) \<rparr>))"

text \<open>The sweep deletes entries of the map it iterates over; the codes come in map order.\<close>

definition delete_expired_rooms :: "rat \<Rightarrow> room_store \<Rightarrow> string list \<times> room_store" where
  "delete_expired_rooms now st =
     fold (\<lambda>(code, room) (deleted, st').
        if expired_at now room
        then (deleted @ [code], st'\<lparr> st_rooms := js_delete code (st_rooms st') \<rparr>)
        else (deleted, st'))
       (st_rooms st) ([], st)"

subsubsection \<open>Listing\<close>

definition to_lower_char :: "char \<Rightarrow> char" where
  "to_lower_char c =
     (let n = of_char c :: nat
      in if 65 \<le> n \<and> n \<le> 90 \<or> 192 \<le> n \<and> n \<le> 222 \<and> n \<noteq> 215 then char_of (n + 32) else c)"

definition to_lower_case :: "string \<Rightarrow> string" where
  "to_lower_case s = map to_lower_char s"

fun string_includes :: "string \<Rightarrow> string \<Rightarrow> bool" where
  "string_includes s needle =
     (strip_prefix needle s \<noteq> None \<or> (case s of [] \<Rightarrow> False | c # cs \<Rightarrow> string_includes cs needle))"

declare string_includes.simps [simp del]

datatype sort_by = By_Created_At | By_Last_Active_At
datatype sort_order = Asc | Desc

record room_list_query =
  q_keyword :: "string option"
  q_include_expired :: bool
  q_page :: int
  q_page_size :: int
  q_sort_by :: sort_by
  q_sort_order :: sort_order

definition matches_query :: "rat \<Rightarrow> room_list_query \<Rightarrow> persisted_room \<Rightarrow> bool" where
  "matches_query now q room =
     (if \<not> q_include_expired q \<and> expired_at now room then False
      else (case q_keyword q of
              None \<Rightarrow> True
            | Some k \<Rightarrow> k = [] \<or> string_includes (to_lower_case (pr_code room)) (to_lower_case k)))"

definition sort_key_of :: "room_list_query \<Rightarrow> persisted_room \<Rightarrow> rat" where
  "sort_key_of q room =
     (case q_sort_by q of By_Created_At \<Rightarrow> pr_created_at room | By_Last_Active_At \<Rightarrow> pr_last_active_at room)
     * (case q_sort_order q of Asc \<Rightarrow> 1 | Desc \<Rightarrow> -1)"

text \<open>\<open>Array.prototype.slice\<close>: a negative index counts from the end.\<close>

definition slice_index :: "nat \<Rightarrow> int \<Rightarrow> nat" where
  "slice_index len i = nat (if i < 0 then max 0 (int len + i) else min (int len) i)"

definition js_slice :: "int \<Rightarrow> int \<Rightarrow> 'a list \<Rightarrow> 'a list" where
  "js_slice i j xs =
     (let a = slice_index (length xs) i; b = slice_index (length xs) j in take (b - a) (drop a xs))"

definition matching_rooms :: "rat \<Rightarrow> room_list_query \<Rightarrow> room_store \<Rightarrow> persisted_room list" where
  "matching_rooms now q st = filter (matches_query now q) (map snd (st_rooms st))"

definition list_rooms :: "rat \<Rightarrow> room_list_query \<Rightarrow> room_store \<Rightarrow> persisted_room list" where
  "list_rooms now q st =
     (let items = sort_key (sort_key_of q) (matching_rooms now q st);
          start = (q_page q - 1) * q_page_size q
      in js_slice start (start + q_page_size q) items)"

definition count_rooms :: "rat \<Rightarrow> room_list_query \<Rightarrow> room_store \<Rightarrow> nat" where
  "count_rooms now q st = length (matching_rooms now q st)"

subsubsection \<open>The announcement\<close>

definition get_announcement :: "rat \<Rightarrow> room_store \<Rightarrow> announcement_snapshot option \<times> room_store" where
  "get_announcement now st =
     (case st_announcement st of
        None \<Rightarrow> (None, st)
      | Some (value, expires_at) \<Rightarrow>
          let remaining = expires_at - now
          in if remaining \<le> 0 then (None, st\<lparr> st_announcement := None \<rparr>)
             else (Some \<lparr> as_announcement = value, as_remaining_ms = remaining \<rparr>, st))"

definition set_announcement :: "rat \<Rightarrow> stored_announcement \<Rightarrow> rat \<Rightarrow> room_store \<Rightarrow> room_store" where
  "set_announcement now value ttl st = st\<lparr> st_announcement := Some (value, now + ttl) \<rparr>"

definition clear_announcement :: "room_store \<Rightarrow> room_store" where
  "clear_announcement st = st\<lparr> st_announcement := None \<rparr>"

text \<open>\<open>announcement.ts\<close>: the wire form some time after the snapshot was read.\<close>

record wire_announcement =
  wa_id :: string
  wa_level :: announcement_level
  wa_message :: string
  wa_scheduled_at :: "rat option"
  wa_expires_in_ms :: int

definition to_wire_announcement :: "announcement_snapshot \<Rightarrow> rat \<Rightarrow> wire_announcement option" where
  "to_wire_announcement snapshot elapsed =
     (let expires_in = \<lfloor>as_remaining_ms snapshot - max 0 elapsed\<rfloor>;
          a = as_announcement snapshot
      in if expires_in \<le> 0 then None
         else Some \<lparr> wa_id = an_id a, wa_level = an_level a, wa_message = an_message a,
                     wa_scheduled_at = an_scheduled_at a, wa_expires_in_ms = expires_in \<rparr>)"

subsubsection \<open>The room state sent to clients\<close>

definition with_resolved_shared_owner ::
    "shared_video option \<Rightarrow> (string, string) js_map \<Rightarrow> owner_candidate list \<Rightarrow> shared_video option" where
  "with_resolved_shared_owner shared_video members candidates =
     (case shared_video of
        None \<Rightarrow> None
      | Some v \<Rightarrow>
          let owner = resolve_shared_video_owner_id (sv_shared_by_member_id v) candidates
          in if owner = sv_shared_by_member_id v then Some v
             else Some (v\<lparr> sv_shared_by_member_id := owner,
                           sv_shared_by_display_name :=
                             (case (if truthy owner then js_get members (the owner) else None) of
                                None \<Rightarrow> sv_shared_by_display_name v
                              | Some n \<Rightarrow> Some n) \<rparr>))"

definition session_member_id :: "session \<Rightarrow> string" where
  "session_member_id s = (case s_member_id s of None \<Rightarrow> s_id s | Some m \<Rightarrow> m)"

definition sessions_in_room :: "string \<Rightarrow> session list \<Rightarrow> session list" where
  "sessions_in_room code sessions = filter (\<lambda>s. s_room_code s = Some code) sessions"

definition candidates_of :: "session list \<Rightarrow> owner_candidate list" where
  "candidates_of = map (\<lambda>s. \<lparr> oc_id = session_member_id s, oc_joined_at = s_joined_at s \<rparr>)"

definition room_state_from_sessions :: "persisted_room \<Rightarrow> session list \<Rightarrow> room_state" where
  "room_state_from_sessions room sessions =
     (let here = sessions_in_room (pr_code room) sessions;
          members = fold (\<lambda>s m. js_set (session_member_id s) (s_display_name s) m) here []
      in \<lparr> rs_room_code = pr_code room,
           rs_shared_video =
             with_resolved_shared_owner (pr_shared_video room) members (candidates_of here),
           rs_playback = pr_playback room,
           rs_members = map (\<lambda>(i, n). \<lparr> rm_id = i, rm_name = n \<rparr>) members \<rparr>)"

record active_room =
  ar_code :: string
  ar_members :: "(string, session) js_map"
  ar_member_tokens :: "(string, string) js_map"

definition room_state_of :: "persisted_room \<Rightarrow> active_room option \<Rightarrow> room_state" where
  "room_state_of room active =
     room_state_from_sessions room (case active of None \<Rightarrow> [] | Some a \<Rightarrow> map snd (ar_members a))"

text \<open>\<open>room-state-age.ts\<close>: the state with the age of its playback snapshot.\<close>

definition with_playback_age :: "room_state \<Rightarrow> rat \<Rightarrow> room_state \<times> rat option" where
  "with_playback_age state sent_at =
     (case rs_playback state of
        None \<Rightarrow> (state, None)
      | Some p \<Rightarrow> (state, Some (max 0 (sent_at - pb_server_time p))))"

subsection \<open>Guarded writes as compare-and-swap\<close>

text \<open>
  What the callers of \<open>updateRoom\<close> rely on: a write that is not admitted changes nothing, and
  an admitted one replaces exactly the body it was admitted against, moving its version on and
  keeping its instance. The consequences are proved from this contract alone.
\<close>

locale cas_store =
  fixes lookup :: "'s \<Rightarrow> 'k \<Rightarrow> 'v option"
    and swap :: "'k \<Rightarrow> 'g \<Rightarrow> 'p \<Rightarrow> 's \<Rightarrow> 'v option \<times> 's"
    and version :: "'v \<Rightarrow> nat"
    and identity :: "'v \<Rightarrow> 'i"
    and admits :: "'g \<Rightarrow> 'v \<Rightarrow> bool"
  assumes swap_cases: "(case swap k g p s of
        (None, s') \<Rightarrow> s' = s \<and> (\<forall>v. lookup s k = Some v \<longrightarrow> \<not> admits g v)
      | (Some v', s') \<Rightarrow> (\<exists>v. lookup s k = Some v \<and> admits g v
           \<and> version v' = Suc (version v) \<and> identity v' = identity v
           \<and> lookup s' = (lookup s)(k := Some v')))"
begin

definition succeeds :: "'k \<Rightarrow> 'g \<Rightarrow> 'p \<Rightarrow> 's \<Rightarrow> bool" where
  "succeeds k g p s = (fst (swap k g p s) \<noteq> None)"

lemma swap_lost: "\<not> succeeds k g p s \<Longrightarrow> snd (swap k g p s) = s"
  using swap_cases [where k = k and g = g and p = p and s = s] by (auto simp: succeeds_def split: prod.splits option.splits)

lemma succeeds_iff: "succeeds k g p s \<longleftrightarrow> (\<exists>v. lookup s k = Some v \<and> admits g v)"
  using swap_cases [where k = k and g = g and p = p and s = s] by (auto simp: succeeds_def split: prod.splits option.splits)

lemma swap_won:
  assumes "succeeds k g p s"
  obtains v v' where "lookup s k = Some v" "admits g v" "version v' = Suc (version v)"
    "identity v' = identity v" "lookup (snd (swap k g p s)) = (lookup s)(k := Some v')"
  using swap_cases [where k = k and g = g and p = p and s = s] assms that
  by (auto simp: succeeds_def split: prod.splits option.splits)

lemma swap_frame: "k' \<noteq> k \<Longrightarrow> lookup (snd (swap k g p s)) k' = lookup s k'"
  by (cases "succeeds k g p s") (auto simp: swap_lost elim: swap_won)

text \<open>How many of a list of writes succeed, one after the other.\<close>

fun wins :: "('k \<times> 'g \<times> 'p) list \<Rightarrow> 's \<Rightarrow> nat" where
  "wins [] s = 0"
| "wins ((k, g, p) # ws) s =
     (if succeeds k g p s then 1 else 0) + wins ws (snd (swap k g p s))"

fun writes :: "('k \<times> 'g \<times> 'p) list \<Rightarrow> 's \<Rightarrow> 's" where
  "writes [] s = s"
| "writes ((k, g, p) # ws) s = writes ws (snd (swap k g p s))"

lemma stale_version_never_wins:
  assumes "\<forall>(k', g, p) \<in> set ws. k' = k \<and> (\<forall>v. admits g v \<longrightarrow> version v = n)"
    and "\<forall>v. lookup s k = Some v \<longrightarrow> n < version v"
  shows "wins ws s = 0"
  using assms
proof (induction ws arbitrary: s)
  case (Cons w ws)
  obtain g p where w: "w = (k, g, p)" using Cons.prems(1) by (cases w) auto
  have "\<not> succeeds k g p s"
    using Cons.prems w by (fastforce simp: succeeds_iff)
  moreover from this have "wins ws (snd (swap k g p s)) = 0"
    using Cons by (simp add: swap_lost)
  ultimately show ?case by (simp add: w)
qed simp

lemma at_most_one_win:
  assumes "\<forall>(k', g, p) \<in> set ws. k' = k \<and> (\<forall>v. admits g v \<longrightarrow> version v = n)"
  shows "wins ws s \<le> 1"
  using assms
proof (induction ws arbitrary: s)
  case (Cons w ws)
  obtain g p where w: "w = (k, g, p)" using Cons.prems by (cases w) auto
  show ?case
  proof (cases "succeeds k g p s")
    case True
    then obtain v v' where "lookup s k = Some v" "admits g v" "version v' = Suc (version v)"
      "lookup (snd (swap k g p s)) = (lookup s)(k := Some v')"
      by (rule swap_won)
    then have "wins ws (snd (swap k g p s)) = 0"
      using Cons.prems w by (intro stale_version_never_wins [of _ k n]) auto
    then show ?thesis by (simp add: w)
  next
    case False
    then show ?thesis using Cons w by (simp add: swap_lost)
  qed
qed simp

lemma version_counts_wins:
  assumes "\<forall>(k', g, p) \<in> set ws. k' = k" and "lookup s k = Some v"
  shows "\<exists>v'. lookup (writes ws s) k = Some v' \<and> version v' = version v + wins ws s
     \<and> identity v' = identity v"
  using assms
proof (induction ws arbitrary: s v)
  case (Cons w ws)
  obtain g p where w: "w = (k, g, p)" using Cons.prems(1) by (cases w) auto
  show ?case
  proof (cases "succeeds k g p s")
    case True
    then obtain v0 v1 where "lookup s k = Some v0" "version v1 = Suc (version v0)"
      "identity v1 = identity v0" "lookup (snd (swap k g p s)) = (lookup s)(k := Some v1)"
      by (rule swap_won)
    with Cons.prems Cons.IH [of "snd (swap k g p s)" v1] True show ?thesis
      by (auto simp: w)
  next
    case False
    with Cons show ?thesis by (auto simp: w swap_lost)
  qed
qed simp

end

definition room_update :: "string \<Rightarrow> room_guard \<Rightarrow> rat \<times> room_patch \<Rightarrow> room_store
    \<Rightarrow> persisted_room option \<times> room_store" where
  "room_update code g tp st =
     (case update_room (fst tp) code g (snd tp) st of
        (Updated r, st') \<Rightarrow> (Some r, st') | (_, st') \<Rightarrow> (None, st'))"

fun guard_admits :: "room_guard \<Rightarrow> persisted_room \<Rightarrow> bool" where
  "guard_admits (At_Version v) room = (pr_version room = v)"
| "guard_admits (Instance token version) room =
     (pr_join_token room = token \<and> (version = None \<or> version = Some (pr_version room)))"

definition room_identity :: "persisted_room \<Rightarrow> string \<times> string \<times> rat \<times> string option" where
  "room_identity room = (pr_code room, pr_join_token room, pr_created_at room, pr_owner_member_id room)"

lemma apply_patch_keeps [simp]:
  "pr_code (apply_patch now p room) = pr_code room"
  "pr_join_token (apply_patch now p room) = pr_join_token room"
  "pr_created_at (apply_patch now p room) = pr_created_at room"
  "pr_owner_member_id (apply_patch now p room) = pr_owner_member_id room"
  "pr_version (apply_patch now p room) = Suc (pr_version room)"
  by (simp_all add: apply_patch_def)

lemma update_room_cases [case_names missing wrong_instance conflict updated]:
  obtains "update_room now code g p st = (Not_Found, st)" "get_room st code = None"
  | room where "update_room now code g p st = (Not_Found, st)" "get_room st code = Some room"
      "\<not> guard_admits g room"
  | room where "update_room now code g p st = (Version_Conflict, st)"
      "get_room st code = Some room" "\<not> guard_admits g room"
  | room where "get_room st code = Some room" "guard_admits g room"
      "update_room now code g p st = (Updated (apply_patch now p room),
         st\<lparr> st_rooms := js_set code (apply_patch now p room) (st_rooms st) \<rparr>)"
proof (cases "js_get (st_rooms st) code")
  case None
  then show ?thesis using that(1) by (simp add: update_room_def get_room_def)
next
  case (Some room)
  show ?thesis
  proof (cases "guard_admits g room")
    case True
    then show ?thesis using Some that(4) [of room]
      by (cases g) (auto simp: update_room_def get_room_def Let_def)
  next
    case False
    then have "update_room now code g p st \<in> {(Not_Found, st), (Version_Conflict, st)}"
      using Some by (cases g) (auto simp: update_room_def Let_def)
    then show ?thesis using False Some that(2,3) [of room] by (auto simp: get_room_def)
  qed
qed

interpretation rooms: cas_store get_room room_update pr_version room_identity guard_admits
proof
  fix k g p s
  show "case room_update k g p s of
        (None, s') \<Rightarrow> s' = s \<and> (\<forall>v. get_room s k = Some v \<longrightarrow> \<not> guard_admits g v)
      | (Some v', s') \<Rightarrow> (\<exists>v. get_room s k = Some v \<and> guard_admits g v
           \<and> pr_version v' = Suc (pr_version v) \<and> room_identity v' = room_identity v
           \<and> get_room s' = (get_room s)(k := Some v'))"
    by (rule update_room_cases [where now = "fst p" and code = k and g = g and p = "snd p" and st = s])
       (auto simp: room_update_def room_identity_def get_room_def)
qed

subsection \<open>The invariant of the room map\<close>

text \<open>Codes are distinct and every room is stored under its own code.\<close>

definition room_store_wf :: "room_store \<Rightarrow> bool" where
  "room_store_wf st = (js_wf (st_rooms st) \<and> list_all (\<lambda>(code, room). pr_code room = code) (st_rooms st))"

lemma room_store_wf_alt:
  "room_store_wf st \<longleftrightarrow>
     js_wf (st_rooms st) \<and> (\<forall>code room. get_room st code = Some room \<longrightarrow> pr_code room = code)"
  by (auto simp: room_store_wf_def list_all_iff get_room_def js_get_in_set dest: map_of_SomeD)

lemma room_store_wf_code: "room_store_wf st \<Longrightarrow> get_room st code = Some room \<Longrightarrow> pr_code room = code"
  by (simp add: room_store_wf_alt)

lemma room_store_wf_set:
  "room_store_wf st \<Longrightarrow> pr_code room = code \<Longrightarrow>
     room_store_wf (st\<lparr> st_rooms := js_set code room (st_rooms st) \<rparr>)"
  by (auto simp: room_store_wf_alt get_room_def)

lemma room_store_wf_filter:
  "room_store_wf st \<Longrightarrow> room_store_wf (st\<lparr> st_rooms := filter P (st_rooms st) \<rparr>)"
  by (auto simp: room_store_wf_def list_all_iff)

lemma room_store_wf_delete:
  "room_store_wf st \<Longrightarrow> room_store_wf (st\<lparr> st_rooms := js_delete code (st_rooms st) \<rparr>)"
  by (simp add: js_delete_eq_filter room_store_wf_filter)

lemma room_store_wf_announcement [simp]:
  "room_store_wf (st\<lparr> st_announcement := a \<rparr>) = room_store_wf st"
  by (simp add: room_store_wf_def)

lemma delete_expired_rooms_fold:
  "fold (\<lambda>(code, room) (deleted, st').
        if expired_at now room
        then (deleted @ [code], st'\<lparr> st_rooms := js_delete code (st_rooms st') \<rparr>)
        else (deleted, st')) es (deleted, st)
   = (deleted @ map fst (filter (\<lambda>(_, room). expired_at now room) es),
      st\<lparr> st_rooms := filter (\<lambda>(code, _). code \<notin> fst ` set (filter (\<lambda>(_, room). expired_at now room) es))
           (st_rooms st) \<rparr>)"
proof (induction es arbitrary: deleted st)
  case (Cons e es)
  obtain code room where e: "e = (code, room)" by fastforce
  show ?case
    unfolding e using Cons.IH
    by (auto simp: js_delete_eq_filter case_prod_unfold intro!: filter_cong)
qed (simp add: case_prod_unfold)

lemma delete_expired_rooms_eq:
  assumes "room_store_wf st"
  shows "delete_expired_rooms now st =
    (map fst (filter (\<lambda>(_, room). expired_at now room) (st_rooms st)),
     st\<lparr> st_rooms := filter (\<lambda>(_, room). \<not> expired_at now room) (st_rooms st) \<rparr>)"
proof -
  have wf: "js_wf (st_rooms st)" using assms by (simp add: room_store_wf_def)
  have "code \<in> fst ` set (filter (\<lambda>(_, room). expired_at now room) (st_rooms st))
      \<longleftrightarrow> expired_at now room" if "(code, room) \<in> set (st_rooms st)" for code room
  proof -
    have unique: "\<And>room'. (code, room') \<in> set (st_rooms st) \<Longrightarrow> room' = room"
      using js_get_in_set [OF wf] that by (metis option.inject)
    show ?thesis
    proof
      assume "code \<in> fst ` set (filter (\<lambda>(_, room). expired_at now room) (st_rooms st))"
      then obtain room' where "(code, room') \<in> set (st_rooms st)" "expired_at now room'" by auto
      then show "expired_at now room" using unique by simp
    next
      assume "expired_at now room"
      then have "(code, room) \<in> set (filter (\<lambda>(_, room). expired_at now room) (st_rooms st))"
        using that by simp
      then show "code \<in> fst ` set (filter (\<lambda>(_, room). expired_at now room) (st_rooms st))"
        by (rule image_eqI [rotated]) simp
    qed
  qed
  then have "filter (\<lambda>(code, _). code \<notin> fst ` set (filter (\<lambda>(_, room). expired_at now room) (st_rooms st)))
      (st_rooms st) = filter (\<lambda>(_, room). \<not> expired_at now room) (st_rooms st)"
    by (intro filter_cong [OF refl]) (simp only: split_paired_all prod.case simp_thms)
  then show ?thesis
    unfolding delete_expired_rooms_def delete_expired_rooms_fold by simp
qed

subsection \<open>Runs of operations\<close>

datatype store_op =
    Op_Create create_room_input
  | Op_Update rat string room_guard room_patch
  | Op_Delete persisted_room
  | Op_Delete_Expired string rat
  | Op_Sweep rat
  | Op_Get_Announcement rat
  | Op_Set_Announcement rat stored_announcement rat
  | Op_Clear_Announcement

fun store_step :: "store_op \<Rightarrow> room_store \<Rightarrow> room_store" where
  "store_step (Op_Create input) st = snd (create_room input st)"
| "store_step (Op_Update now code g p) st = snd (update_room now code g p st)"
| "store_step (Op_Delete room) st = snd (delete_room room st)"
| "store_step (Op_Delete_Expired code now) st = snd (delete_expired_room code now st)"
| "store_step (Op_Sweep now) st = snd (delete_expired_rooms now st)"
| "store_step (Op_Get_Announcement now) st = snd (get_announcement now st)"
| "store_step (Op_Set_Announcement now a ttl) st = set_announcement now a ttl st"
| "store_step Op_Clear_Announcement st = clear_announcement st"

lemma room_store_wf_update: "room_store_wf st \<Longrightarrow> room_store_wf (snd (update_room now code g p st))"
  by (cases rule: update_room_cases [where now = now and code = code and g = g and p = p and st = st])
     (auto intro!: room_store_wf_set simp: room_store_wf_code)

lemma room_store_wf_create: "room_store_wf st \<Longrightarrow> room_store_wf (snd (create_room input st))"
  by (simp add: create_room_def Let_def room_store_wf_set)

lemma room_store_wf_deletes:
  assumes "room_store_wf st"
  shows "room_store_wf (snd (delete_room room st))"
    and "room_store_wf (snd (delete_expired_room code now st))"
    and "room_store_wf (snd (delete_expired_rooms now st))"
  using assms
  by (simp_all add: delete_room_def delete_expired_room_def delete_expired_rooms_eq
      room_store_wf_delete room_store_wf_filter split: option.split)

lemma room_store_wf_announcements:
  assumes "room_store_wf st"
  shows "room_store_wf (snd (get_announcement now st))"
    and "room_store_wf (set_announcement now a ttl st)"
    and "room_store_wf (clear_announcement st)"
  using assms
  by (simp_all add: get_announcement_def set_announcement_def clear_announcement_def Let_def
      split: option.split)

lemma room_store_wf_step: "room_store_wf st \<Longrightarrow> room_store_wf (store_step op st)"
  by (cases op) (simp_all add: room_store_wf_update room_store_wf_create room_store_wf_deletes
      room_store_wf_announcements)

text \<open>The writes of a list that succeed, each against the store the earlier ones left.\<close>

fun updates_won :: "(string \<times> room_guard \<times> rat \<times> room_patch) list \<Rightarrow> room_store \<Rightarrow> nat" where
  "updates_won [] st = 0"
| "updates_won ((code, g, now, p) # us) st =
     (case update_room now code g p st of (r, st') \<Rightarrow>
        (case r of Updated _ \<Rightarrow> 1 | _ \<Rightarrow> 0) + updates_won us st')"

lemma succeeds_update:
  "rooms.succeeds code g (now, p) st \<longleftrightarrow> (\<exists>r. fst (update_room now code g p st) = Updated r)"
  by (auto simp: rooms.succeeds_def room_update_def split: prod.splits update_result.splits)

lemma snd_room_update: "snd (room_update code g (now, p) st) = snd (update_room now code g p st)"
  by (auto simp: room_update_def split: prod.splits update_result.splits)

lemma updates_won_wins: "updates_won us st = rooms.wins us st"
proof (induction us st rule: updates_won.induct)
  case (2 code g now p us st)
  then show ?case
    by (cases "update_room now code g p st")
       (auto simp: succeeds_update snd_room_update split: update_result.splits)
qed simp

lemma writes_fold:
  "rooms.writes us st = fold (\<lambda>(code, g, now, p). store_step (Op_Update now code g p)) us st"
  by (induction us arbitrary: st) (auto simp: snd_room_update)

subsection \<open>Properties\<close>

text \<open>
  C26. Of all the writers that read the same version of a room, at most one succeeds, however
  their writes are interleaved and whatever they write: no update is lost by being overwritten
  by another that had not seen it.
\<close>

theorem one_winner_per_version:
  assumes "\<forall>(code', g, now, p) \<in> set us.
      code' = code \<and> (g = At_Version n \<or> (\<exists>token. g = Instance token (Some n)))"
  shows "updates_won us st \<le> 1"
proof -
  have "\<forall>(code', g, tp) \<in> set us.
      code' = code \<and> (\<forall>v. guard_admits g v \<longrightarrow> pr_version v = n)"
    using assms by fastforce
  then show ?thesis unfolding updates_won_wins by (rule rooms.at_most_one_win)
qed

definition sample_room :: persisted_room where
  "sample_room = create_persisted_room \<lparr> ci_code = ''ABC234'', ci_join_token = ''token-0123456789'',
     ci_created_at = 5, ci_owner_member_id = None, ci_owner_display_name = None \<rparr>"

definition sample_store :: room_store where
  "sample_store = \<lparr> st_rooms = [(''ABC234'', sample_room)], st_announcement = None \<rparr>"

theorem one_winner_per_version_witness:
  "updates_won [(''ABC234'', At_Version 0, 10, empty_patch),
                (''ABC234'', Instance ''token-0123456789'' (Some 0), 11, empty_patch)] sample_store \<le> 1
   \<and> updates_won [(''ABC234'', At_Version 0, 10, empty_patch),
                (''ABC234'', Instance ''token-0123456789'' (Some 0), 11, empty_patch)] sample_store = 1"
proof
  show "updates_won [(''ABC234'', At_Version 0, 10, empty_patch),
                (''ABC234'', Instance ''token-0123456789'' (Some 0), 11, empty_patch)] sample_store \<le> 1"
    by (rule one_winner_per_version [where code = "''ABC234''" and n = 0]) simp
qed code_simp

text \<open>
  A room's version counts exactly the updates that succeeded since it was read, and no
  update changes which room it is: code, join token, creation time and owner stay.
\<close>

theorem version_counts_updates:
  assumes "\<forall>(code', _) \<in> set us. code' = code" and "get_room st code = Some room"
  shows "\<exists>room'. get_room (fold (\<lambda>(code, g, now, p). store_step (Op_Update now code g p)) us st) code
           = Some room'
     \<and> pr_version room' = pr_version room + updates_won us st
     \<and> room_identity room' = room_identity room"
proof -
  have "\<forall>(code', g, tp) \<in> set us. code' = code" using assms(1) by auto
  from rooms.version_counts_wins [OF this assms(2)] show ?thesis
    unfolding updates_won_wins writes_fold .
qed

theorem version_counts_updates_witness:
  "\<exists>room'. get_room (fold (\<lambda>(code, g, now, p). store_step (Op_Update now code g p))
        [(''ABC234'', At_Version 0, 10, empty_patch), (''ABC234'', At_Version 7, 10, empty_patch)]
        sample_store) ''ABC234'' = Some room'
     \<and> pr_version room' = pr_version sample_room
         + updates_won [(''ABC234'', At_Version 0, 10, empty_patch),
                        (''ABC234'', At_Version 7, 10, empty_patch)] sample_store
     \<and> room_identity room' = room_identity sample_room"
  by (rule version_counts_updates) (simp_all add: sample_store_def get_room_def)

text \<open>
  Whatever sequence of operations runs against a new store, each code has at most one
  room and every room is stored under its own code.
\<close>

theorem store_well_formed: "room_store_wf (fold store_step ops empty_room_store)"
proof -
  have "room_store_wf (fold store_step ops st)" if "room_store_wf st" for st
    using that by (induction ops arbitrary: st) (simp_all add: room_store_wf_step)
  then show ?thesis by (simp add: empty_room_store_def room_store_wf_def)
qed

lemma get_room_sweep:
  assumes "room_store_wf st"
  shows "get_room (snd (delete_expired_rooms now st)) code =
     (case get_room st code of None \<Rightarrow> None | Some r \<Rightarrow> if expired_at now r then None else Some r)"
  using assms
  by (simp add: delete_expired_rooms_eq get_room_def js_get_filter room_store_wf_def
      split: option.split)

lemma sweep_reports:
  assumes "room_store_wf st"
  shows "code \<in> set (fst (delete_expired_rooms now st)) \<longleftrightarrow>
     (\<exists>r. get_room st code = Some r \<and> expired_at now r)"
  using assms js_get_in_set [of "st_rooms st" code]
  by (force simp: delete_expired_rooms_eq get_room_def room_store_wf_def)

text \<open>
  An expiry sweep removes exactly the rooms that have expired and reports exactly their
  codes; every other room is untouched, and a second sweep at the same moment finds nothing.
\<close>

theorem sweep_removes_exactly_expired:
  assumes "room_store_wf st" and "delete_expired_rooms now st = (codes, st')"
  shows "get_room st' code = (if code \<in> set codes then None else get_room st code)
     \<and> (code \<in> set codes \<longleftrightarrow> (\<exists>r. get_room st code = Some r \<and> expired_at now r))
     \<and> fst (delete_expired_rooms now st') = []"
proof (intro conjI)
  have st': "st' = snd (delete_expired_rooms now st)" and codes: "codes = fst (delete_expired_rooms now st)"
    using assms(2) by simp_all
  show reported: "code \<in> set codes \<longleftrightarrow> (\<exists>r. get_room st code = Some r \<and> expired_at now r)"
    unfolding codes by (rule sweep_reports [OF assms(1)])
  show "get_room st' code = (if code \<in> set codes then None else get_room st code)"
    unfolding reported st' get_room_sweep [OF assms(1)] by (simp split: option.split)
  have "room_store_wf st'" unfolding st' by (rule room_store_wf_deletes(3) [OF assms(1)])
  then have "code' \<notin> set (fst (delete_expired_rooms now st'))" for code'
    using sweep_reports [of st' code' now] get_room_sweep [OF assms(1), of now code']
    unfolding st' [symmetric] by (auto split: option.splits if_splits)
  then show "fst (delete_expired_rooms now st') = []"
    by (metis last_in_set)
qed

definition two_room_store :: room_store where
  "two_room_store = \<lparr> st_rooms = [(''ABC234'', sample_room),
     (''XYZ789'', sample_room\<lparr> pr_code := ''XYZ789'', pr_join_token := ''other'', pr_expires_at := Some 40 \<rparr>)],
     st_announcement = None \<rparr>"

theorem sweep_removes_exactly_expired_witness:
  "delete_expired_rooms 50 two_room_store = ([''XYZ789''], sample_store)
   \<and> get_room sample_store ''XYZ789'' = None"
proof
  show sweep: "delete_expired_rooms 50 two_room_store = ([''XYZ789''], sample_store)"
    by code_simp
  show "get_room sample_store ''XYZ789'' = None"
    using sweep_removes_exactly_expired [OF _ sweep, of "''XYZ789''"]
    by (simp add: two_room_store_def room_store_wf_def js_wf_def sample_room_def
        create_persisted_room_def)
qed

text \<open>
  A guarded delete never takes a room other than the one it means: a room under another
  code, another room that has taken the same code, and - for the expiry delete - a room that
  is not expired at that moment all survive it; and what it does mean to take is gone.
\<close>

theorem guarded_deletes_are_exact:
  "get_room (snd (delete_room expected st)) code =
     (case get_room st code of None \<Rightarrow> None
      | Some r \<Rightarrow> if code = pr_code expected \<and> pr_join_token r = pr_join_token expected then None else Some r)
   \<and> get_room (snd (delete_expired_room code' now st)) code =
     (case get_room st code of None \<Rightarrow> None
      | Some r \<Rightarrow> if code = code' \<and> expired_at now r then None else Some r)
   \<and> (fst (delete_room expected st) = Deleted
      \<longleftrightarrow> get_room (snd (delete_room expected st)) \<noteq> get_room st)
   \<and> (fst (delete_expired_room code' now st) = Deleted
      \<longleftrightarrow> get_room (snd (delete_expired_room code' now st)) \<noteq> get_room st)"
  by (auto simp: delete_room_def delete_expired_room_def get_room_def fun_eq_iff
      split: option.split)

lemma slice_index_nat [simp]: "slice_index len (int n) = min len n"
  by (simp add: slice_index_def)

lemma js_slice_nat: "js_slice (int a) (int b) xs = take (b - a) (drop a xs)"
proof (cases "a \<le> length xs")
  case True
  then show ?thesis
    by (cases "b \<le> length xs") (simp_all add: js_slice_def min_absorb1 min_absorb2 min_def)
qed (simp add: js_slice_def min_def)

lemma concat_pages:
  "concat (map (\<lambda>k. take w (drop (k * w) xs)) [0..<n]) = take (n * w) xs"
proof (induction n)
  case (Suc n)
  have "take (n * w) xs @ take w (drop (n * w) xs) = take (n * w + w) xs"
    by (simp add: take_add)
  then show ?case using Suc by (simp add: add.commute)
qed simp

lemma list_rooms_page:
  assumes "q_page_size q = int w"
  shows "list_rooms now (q\<lparr> q_page := int k + 1 \<rparr>) st
     = take w (drop (k * w) (sort_key (sort_key_of q) (matching_rooms now q st)))"
proof -
  have "matching_rooms now (q\<lparr> q_page := p \<rparr>) st = matching_rooms now q st" for p
  proof -
    have "matches_query now (q\<lparr> q_page := p \<rparr>) = matches_query now q"
      by (simp add: matches_query_def fun_eq_iff)
    then show ?thesis by (simp add: matching_rooms_def)
  qed
  moreover have "sort_key_of (q\<lparr> q_page := p \<rparr>) = sort_key_of q" for p
    by (simp add: sort_key_of_def fun_eq_iff)
  moreover have "q_page (q\<lparr> q_page := int k + 1 \<rparr>) - 1 = int k"
    "q_page_size (q\<lparr> q_page := int k + 1 \<rparr>) = int w"
    using assms by simp_all
  moreover have "int k * int w = int (k * w)" "int (k * w) + int w = int (k * w + w)" by simp_all
  ultimately show ?thesis
    unfolding list_rooms_def Let_def by (simp only: js_slice_nat add_diff_cancel_left')
qed

text \<open>
  The pages of a listing are a partition of it: one after the other they give every
  matching room exactly once, in the order asked for, and as many rooms as \<open>countRooms\<close> says.
\<close>

theorem pages_partition_listing:
  assumes "q_page_size q = int w" and "count_rooms now q st \<le> n * w"
  shows "concat (map (\<lambda>k. list_rooms now (q\<lparr> q_page := int k + 1 \<rparr>) st) [0..<n])
           = sort_key (sort_key_of q) (filter (matches_query now q) (map snd (st_rooms st)))
     \<and> (\<forall>k < n. length (list_rooms now (q\<lparr> q_page := int k + 1 \<rparr>) st) \<le> w)"
  using assms
  by (simp add: list_rooms_page concat_pages count_rooms_def matching_rooms_def)

definition page_query :: room_list_query where
  "page_query = \<lparr> q_keyword = Some ''z7'', q_include_expired = True, q_page = 1, q_page_size = 1,
     q_sort_by = By_Created_At, q_sort_order = Desc \<rparr>"

theorem pages_partition_listing_witness:
  "count_rooms 50 page_query two_room_store = 1
   \<and> concat (map (\<lambda>k. list_rooms 50 (page_query\<lparr> q_page := int k + 1 \<rparr>) two_room_store) [0..<2])
     = sort_key (sort_key_of page_query)
         (filter (matches_query 50 page_query) (map snd (st_rooms two_room_store)))"
proof
  show count: "count_rooms 50 page_query two_room_store = 1" by code_simp
  show "concat (map (\<lambda>k. list_rooms 50 (page_query\<lparr> q_page := int k + 1 \<rparr>) two_room_store) [0..<2])
     = sort_key (sort_key_of page_query)
         (filter (matches_query 50 page_query) (map snd (st_rooms two_room_store)))"
    using pages_partition_listing [of page_query 1 50 two_room_store 2] count
    by (simp add: page_query_def)
qed

lemma members_fold:
  "js_wf m \<Longrightarrow> js_wf (fold (\<lambda>s m. js_set (session_member_id s) (s_display_name s) m) here m)
   \<and> fst ` set (fold (\<lambda>s m. js_set (session_member_id s) (s_display_name s) m) here m)
     = session_member_id ` set here \<union> fst ` set m"
proof (induction here arbitrary: m)
  case (Cons s here)
  from Cons.IH [of "js_set (session_member_id s) (s_display_name s) m"] Cons.prems show ?case
    by (simp add: js_set_fst)
qed simp

lemma candidate_ids: "oc_id ` set (candidates_of here) = session_member_id ` set here"
  by (auto simp: candidates_of_def image_image)

lemma map_of_image_fst: "k \<in> fst ` set m \<Longrightarrow> \<exists>v. js_get m k = Some v"
  by (metis map_of_eq_None_iff option.exhaust)

lemma resolved_owner_listed:
  assumes shared: "truthy (sv_shared_by_member_id v)"
    and here: "here \<noteq> []" "\<forall>s \<in> set here. session_member_id s \<noteq> []"
    and ids: "fst ` set members = session_member_id ` set here"
  shows "\<exists>(k, n) \<in> set members. \<exists>v'.
       with_resolved_shared_owner (Some v) members (candidates_of here) = Some v'
     \<and> sv_shared_by_member_id v' = Some k \<and> (v' = v \<or> sv_shared_by_display_name v' = Some n)"
proof -
  let ?owner = "resolve_shared_video_owner_id (sv_shared_by_member_id v) (candidates_of here)"
  have "candidates_of here \<noteq> []" using here(1) by (simp add: candidates_of_def)
  then obtain c where c: "?owner = Some (oc_id c)" "c \<in> set (candidates_of here)"
    using resolve_online [OF shared] by blast
  have key: "oc_id c \<in> session_member_id ` set here"
    using c(2) candidate_ids [of here] by blast
  obtain n where n: "js_get members (oc_id c) = Some n"
    using key ids map_of_image_fst by metis
  have "oc_id c \<noteq> []" using key here(2) by auto
  then have "with_resolved_shared_owner (Some v) members (candidates_of here) = Some v \<and>
       sv_shared_by_member_id v = Some (oc_id c)
     \<or> (\<exists>v'. with_resolved_shared_owner (Some v) members (candidates_of here) = Some v' \<and>
       sv_shared_by_member_id v' = Some (oc_id c) \<and> sv_shared_by_display_name v' = Some n)"
    using c(1) n by (auto simp: with_resolved_shared_owner_def Let_def)
  with map_of_SomeD [OF n] show ?thesis by blast
qed

lemma resolved_video_content:
  "map_option (\<lambda>v. (sv_video_id v, sv_url v, sv_title v)) (with_resolved_shared_owner sv members cs)
     = map_option (\<lambda>v. (sv_video_id v, sv_url v, sv_title v)) sv"
  by (simp add: with_resolved_shared_owner_def Let_def split: option.split)

text \<open>
  The room state every client is sent: the members are the sessions that name the room,
  one entry per member id; and the share's owner is one of the listed members, under the name
  listed for it, whenever a video is shared by somebody and anybody is in the room. Video,
  address and title of the share, and the playback, are the room's own.
\<close>

theorem room_state_is_consistent:
  assumes "rs = room_state_from_sessions room sessions"
    and "\<forall>s \<in> set sessions. session_member_id s \<noteq> []"
  shows "distinct (map rm_id (rs_members rs))
     \<and> rm_id ` set (rs_members rs)
         = session_member_id ` {s \<in> set sessions. s_room_code s = Some (pr_code room)}
     \<and> rs_playback rs = pr_playback room
     \<and> map_option (\<lambda>v. (sv_video_id v, sv_url v, sv_title v)) (rs_shared_video rs)
         = map_option (\<lambda>v. (sv_video_id v, sv_url v, sv_title v)) (pr_shared_video room)
     \<and> (\<forall>v. pr_shared_video room = Some v \<and> truthy (sv_shared_by_member_id v)
            \<and> rs_members rs \<noteq> [] \<longrightarrow>
          (\<exists>m \<in> set (rs_members rs). \<exists>v'. rs_shared_video rs = Some v'
              \<and> sv_shared_by_member_id v' = Some (rm_id m)
              \<and> (v' = v \<or> sv_shared_by_display_name v' = Some (rm_name m))))"
proof -
  define here where "here = sessions_in_room (pr_code room) sessions"
  define ms where "ms = fold (\<lambda>s m. js_set (session_member_id s) (s_display_name s) m) here []"
  have wf: "js_wf ms" and ids: "fst ` set ms = session_member_id ` set here"
    using members_fold [of "[]" here] by (simp_all add: ms_def)
  have here: "set here = {s \<in> set sessions. s_room_code s = Some (pr_code room)}"
    by (auto simp: sessions_in_room_def here_def)
  have members: "rs_members rs = map (\<lambda>(i, n). \<lparr> rm_id = i, rm_name = n \<rparr>) ms"
    and video: "rs_shared_video rs
      = with_resolved_shared_owner (pr_shared_video room) ms (candidates_of here)"
    and playback: "rs_playback rs = pr_playback room"
    by (simp_all add: assms(1) room_state_from_sessions_def Let_def here_def ms_def)
  have rm_ids: "map rm_id (rs_members rs) = map fst ms"
    by (simp add: members case_prod_unfold)
  have "rm_id ` set (rs_members rs) = fst ` set ms"
    using rm_ids by (metis list.set_map)
  moreover have "\<exists>m \<in> set (rs_members rs). \<exists>v'. rs_shared_video rs = Some v'
        \<and> sv_shared_by_member_id v' = Some (rm_id m)
        \<and> (v' = v \<or> sv_shared_by_display_name v' = Some (rm_name m))"
    if stored: "pr_shared_video room = Some v" "truthy (sv_shared_by_member_id v)"
      "rs_members rs \<noteq> []" for v
  proof -
    have "here \<noteq> []" using stored(3) by (auto simp: members ms_def)
    moreover have "\<forall>s \<in> set here. session_member_id s \<noteq> []" using assms(2) here by auto
    ultimately obtain k n v' where "(k, n) \<in> set ms" "rs_shared_video rs = Some v'"
      "sv_shared_by_member_id v' = Some k" "v' = v \<or> sv_shared_by_display_name v' = Some n"
      using resolved_owner_listed [OF stored(2) _ _ ids] unfolding video stored(1) by blast
    then show ?thesis unfolding members by force
  qed
  ultimately show ?thesis
    using wf ids here playback video resolved_video_content
    by (simp add: rm_ids js_wf_def)
qed

definition shared_room :: persisted_room where
  "shared_room = sample_room\<lparr> pr_shared_video := Some \<lparr> sv_video_id = ''v'', sv_url = ''u'', sv_title = ''t'',
     sv_shared_by_member_id = Some ''gone'', sv_shared_by_display_name = None \<rparr> \<rparr>"

definition bob_session :: session where
  "bob_session = (empty_session ''s1'')\<lparr> s_room_code := Some ''ABC234'', s_member_id := Some ''bob'',
     s_display_name := ''Bob'', s_joined_at := Some 3 \<rparr>"

theorem room_state_is_consistent_witness:
  "distinct (map rm_id (rs_members (room_state_from_sessions shared_room [bob_session, empty_session ''s2''])))
   \<and> map_option sv_shared_by_member_id
        (rs_shared_video (room_state_from_sessions shared_room [bob_session, empty_session ''s2'']))
      = Some (Some ''bob'')"
proof
  have "\<forall>s \<in> set [bob_session, empty_session ''s2'']. session_member_id s \<noteq> []" by code_simp
  from room_state_is_consistent [OF refl this]
  show "distinct (map rm_id (rs_members (room_state_from_sessions shared_room
      [bob_session, empty_session ''s2''])))" by blast
  show "map_option sv_shared_by_member_id
        (rs_shared_video (room_state_from_sessions shared_room [bob_session, empty_session ''s2'']))
      = Some (Some ''bob'')" by code_simp
qed

text \<open>
  An announcement never outlives the lifetime it was published with: whenever a read of
  it is put on the wire, some time after the read, the receiver is told to drop it no later
  than that lifetime's end; and once the lifetime is over no read returns it.
\<close>

theorem announcement_lifetime:
  assumes "get_announcement t (set_announcement t0 a ttl st) = (found, st')"
  shows "(found = None \<longleftrightarrow> t0 + ttl \<le> t)
     \<and> (\<forall>snap w elapsed. found = Some snap \<and> to_wire_announcement snap elapsed = Some w \<longrightarrow>
          as_announcement snap = a \<and> 0 < wa_expires_in_ms w
          \<and> t + max 0 elapsed + of_int (wa_expires_in_ms w) \<le> t0 + ttl)
     \<and> (found = None \<longrightarrow> fst (get_announcement t' st') = None)"
proof (cases "t0 + ttl \<le> t")
  case True
  then show ?thesis
    using assms by (auto simp: get_announcement_def set_announcement_def)
next
  case False
  then have found: "found = Some \<lparr> as_announcement = a, as_remaining_ms = t0 + ttl - t \<rparr>"
    using assms by (auto simp: get_announcement_def set_announcement_def Let_def)
  have "of_int \<lfloor>t0 + ttl - t - max 0 e\<rfloor> \<le> t0 + ttl - t - max 0 e" for e
    by (rule of_int_floor_le)
  then have "of_int \<lfloor>t0 + ttl - t - max 0 e\<rfloor> + max 0 e + t \<le> t0 + ttl" for e
    unfolding le_diff_eq .
  then have "t + max 0 e + of_int \<lfloor>t0 + ttl - t - max 0 e\<rfloor> \<le> t0 + ttl" for e
    by (metis add.assoc add.commute)
  with False show ?thesis
    by (auto simp: found to_wire_announcement_def Let_def split: if_splits)
qed

theorem announcement_lifetime_witness:
  "fst (get_announcement 130 (set_announcement 100
      \<lparr> an_id = ''a'', an_level = Info_Level, an_message = ''m'', an_scheduled_at = None, an_published_at = 0 \<rparr>
      30 empty_room_store)) = None"
  using announcement_lifetime [OF surjective_pairing, of 130 100 _ 30 empty_room_store] by simp

end
