(* ===== verification/Lease_Table.thy ===== *)
theory Lease_Table
  imports Prelude
begin

text \<open>
  The two tables of short-lived ownership inside \<open>server/src/runtime-store.ts\<close>: message slots,
  which make a repeated message a duplicate for some seconds, and room locks, which serialise
  joins across nodes. Both map a room and a key to the token of the owner and the time its
  ownership lapses; both are interpretations of \<open>lease_table\<close>, from which exclusion follows.
\<close>

type_synonym lease = "string \<times> rat"
type_synonym lease_map = "(string, (string, lease) js_map) js_map"

definition leases_of :: "lease_map \<Rightarrow> string \<Rightarrow> (string, lease) js_map" where
  "leases_of m room = (case js_get m room of None \<Rightarrow> [] | Some ls \<Rightarrow> ls)"

definition live_leases :: "rat \<Rightarrow> (string, lease) js_map \<Rightarrow> (string, lease) js_map" where
  "live_leases now ls = filter (\<lambda>(_, _, expires_at). now < expires_at) ls"

text \<open>
  The expired entries are deleted from the room's map in place; a room that has no map yet
  gets one only when the claim succeeds.
\<close>

definition try_claim_message_slot ::
    "rat \<Rightarrow> string \<Rightarrow> string \<Rightarrow> string \<Rightarrow> rat \<Rightarrow> lease_map \<Rightarrow> bool \<times> lease_map" where
  "try_claim_message_slot now room key token expires_at m =
     (let room_slots = live_leases now (leases_of m room)
      in if js_has room_slots key then (False, js_set room room_slots m)
         else (True, js_set room (js_set key (token, expires_at) room_slots) m))"

definition release_message_slot :: "string \<Rightarrow> string \<Rightarrow> string \<Rightarrow> lease_map \<Rightarrow> bool \<times> lease_map" where
  "release_message_slot room key token m =
     (case js_get m room of
        None \<Rightarrow> (False, m)
      | Some room_slots \<Rightarrow>
          (case js_get room_slots key of
             None \<Rightarrow> (False, m)
           | Some (t, _) \<Rightarrow> if t \<noteq> token then (False, m)
                            else (True, js_set room (js_delete key room_slots) m)))"

definition acquire_room_lock ::
    "rat \<Rightarrow> string \<Rightarrow> string \<Rightarrow> string \<Rightarrow> rat \<Rightarrow> lease_map \<Rightarrow> bool \<times> lease_map" where
  "acquire_room_lock now room key token expires_at m =
     (let room_locks = live_leases now (leases_of m room)
      in if js_has room_locks key then (False, js_set room room_locks m)
         else (True, js_set room (js_set key (token, expires_at) room_locks) m))"

definition release_room_lock :: "string \<Rightarrow> string \<Rightarrow> string \<Rightarrow> lease_map \<Rightarrow> bool \<times> lease_map" where
  "release_room_lock room key token m =
     (case js_get m room of
        None \<Rightarrow> (False, m)
      | Some room_locks \<Rightarrow>
          (case js_get room_locks key of
             None \<Rightarrow> (False, m)
           | Some (t, _) \<Rightarrow> if t \<noteq> token then (False, m)
              else let rest = js_delete key room_locks
                   in (True, if rest = [] then js_delete room m else js_set room rest m)))"

subsection \<open>The contract of a lease table\<close>

text \<open>The lease recorded under a room and key, lapsed or not.\<close>

datatype lease_op = Take rat string string string rat | Give string string string

locale lease_table =
  fixes recorded :: "'s \<Rightarrow> string \<Rightarrow> string \<Rightarrow> lease option"
    and take_lease :: "rat \<Rightarrow> string \<Rightarrow> string \<Rightarrow> string \<Rightarrow> rat \<Rightarrow> 's \<Rightarrow> bool \<times> 's"
    and give_lease :: "string \<Rightarrow> string \<Rightarrow> string \<Rightarrow> 's \<Rightarrow> bool \<times> 's"
    and ok :: "'s \<Rightarrow> bool"
  assumes take_ok: "ok s \<Longrightarrow> ok (snd (take_lease now r k a e s))"
    and give_ok: "ok s \<Longrightarrow> ok (snd (give_lease r k a s))"
    and take_granted: "ok s \<Longrightarrow> fst (take_lease now r k a e s) \<longleftrightarrow>
        (\<forall>b d. recorded s r k = Some (b, d) \<longrightarrow> d \<le> now)"
    and take_records: "ok s \<Longrightarrow> fst (take_lease now r k a e s) \<Longrightarrow>
        recorded (snd (take_lease now r k a e s)) r k = Some (a, e)"
    and take_keeps: "ok s \<Longrightarrow> recorded s r' k' = Some (b, d) \<Longrightarrow> now < d \<Longrightarrow>
        recorded (snd (take_lease now r k a e s)) r' k' = Some (b, d)"
    and give_keeps: "ok s \<Longrightarrow> recorded s r' k' = Some (b, d) \<Longrightarrow> (r', k', b) \<noteq> (r, k, a) \<Longrightarrow>
        recorded (snd (give_lease r k a s)) r' k' = Some (b, d)"
    and give_frees: "ok s \<Longrightarrow> recorded s r k = Some (a, d) \<Longrightarrow>
        fst (give_lease r k a s) \<and> recorded (snd (give_lease r k a s)) r k = None"
begin

fun run :: "lease_op list \<Rightarrow> 's \<Rightarrow> bool list \<times> 's" where
  "run [] s = ([], s)"
| "run (Take now r k a e # ops) s =
     (case take_lease now r k a e s of (g, s') \<Rightarrow> apfst (Cons g) (run ops s'))"
| "run (Give r k a # ops) s =
     (case give_lease r k a s of (g, s') \<Rightarrow> apfst (Cons g) (run ops s'))"

text \<open>While a lease runs, nobody else obtains it, unless its own holder gives it back.\<close>

definition undisturbed :: "string \<Rightarrow> string \<Rightarrow> string \<Rightarrow> rat \<Rightarrow> lease_op \<Rightarrow> bool" where
  "undisturbed r k a e op = (case op of Take now _ _ _ _ \<Rightarrow> now < e | Give r' k' b \<Rightarrow> (r', k', b) \<noteq> (r, k, a))"

lemma held_until_lapse:
  assumes "ok s" and "recorded s r k = Some (a, e)" and "\<forall>op \<in> set ops. undisturbed r k a e op"
  shows "recorded (snd (run ops s)) r k = Some (a, e)
     \<and> (\<forall>(op, g) \<in> set (zip ops (fst (run ops s))). \<forall>now b d. op = Take now r k b d \<longrightarrow> \<not> g)"
  using assms
proof (induction ops arbitrary: s)
  case (Cons op ops)
  show ?case
  proof (cases op)
    case (Take now r' k' b d)
    obtain g s' where step: "take_lease now r' k' b d s = (g, s')" by fastforce
    have "now < e" using Cons.prems(3) by (simp add: Take undisturbed_def)
    then have "recorded s' r k = Some (a, e)"
      using take_keeps [OF Cons.prems(1,2), of now r' k' b d] step by simp
    moreover have "ok s'" using take_ok [OF Cons.prems(1), of now r' k' b d] step by simp
    moreover have "\<not> g" if "r' = r" "k' = k"
      using take_granted [OF Cons.prems(1), of now r k b d] Cons.prems(2) that step \<open>now < e\<close>
      by (auto simp: not_le)
    ultimately show ?thesis
      using Cons.IH [of s'] Cons.prems(3) step by (auto simp: Take apfst_def map_prod_def split: prod.splits)
  next
    case (Give r' k' b)
    obtain g s' where step: "give_lease r' k' b s = (g, s')" by fastforce
    have "(r, k, a) \<noteq> (r', k', b)" using Cons.prems(3) by (auto simp: Give undisturbed_def)
    then have "recorded s' r k = Some (a, e)"
      using give_keeps [OF Cons.prems(1,2), of r' k' b] step by simp
    moreover have "ok s'" using give_ok [OF Cons.prems(1), of r' k' b] step by simp
    ultimately show ?thesis
      using Cons.IH [of s'] Cons.prems(3) step by (auto simp: Give apfst_def map_prod_def split: prod.splits)
  qed
qed simp

lemma exclusive_after_take:
  assumes "ok s" and "fst (take_lease t r k a e s)" and "\<forall>op \<in> set ops. undisturbed r k a e op"
  shows "\<forall>(op, g) \<in> set (zip ops (fst (run ops (snd (take_lease t r k a e s))))).
       \<forall>now b d. op = Take now r k b d \<longrightarrow> \<not> g"
  using held_until_lapse [OF take_ok [OF assms(1)] take_records [OF assms(1,2)] assms(3)] by blast

end

subsection \<open>Message slots and room locks are lease tables\<close>

definition recorded_lease :: "lease_map \<Rightarrow> string \<Rightarrow> string \<Rightarrow> lease option" where
  "recorded_lease m room key = js_get (leases_of m room) key"

definition lease_map_wf :: "lease_map \<Rightarrow> bool" where
  "lease_map_wf m = (\<forall>room ls. js_get m room = Some ls \<longrightarrow> js_wf ls)"

lemma leases_of_set [simp]: "leases_of (js_set room ls m) r = (if r = room then ls else leases_of m r)"
  by (simp add: leases_of_def)

lemma leases_of_delete [simp]: "leases_of (js_delete room m) r = (if r = room then [] else leases_of m r)"
  by (simp add: leases_of_def)

lemma leases_wf: "lease_map_wf m \<Longrightarrow> js_wf (leases_of m room)"
  by (auto simp: lease_map_wf_def leases_of_def split: option.split)

lemma lease_map_wf_set [simp]: "lease_map_wf m \<Longrightarrow> js_wf ls \<Longrightarrow> lease_map_wf (js_set room ls m)"
  by (simp add: lease_map_wf_def)

lemma lease_map_wf_delete [simp]: "lease_map_wf m \<Longrightarrow> lease_map_wf (js_delete room m)"
  by (simp add: lease_map_wf_def)

lemma live_leases_wf [simp]: "js_wf ls \<Longrightarrow> js_wf (live_leases now ls)"
  by (simp add: live_leases_def)

lemma live_leases_get:
  "js_wf ls \<Longrightarrow> js_get (live_leases now ls) k =
     (case js_get ls k of None \<Rightarrow> None | Some (a, e) \<Rightarrow> if now < e then Some (a, e) else None)"
  by (auto simp: live_leases_def js_get_filter split: option.split)

lemma recorded_lease_get:
  "recorded_lease m r k = (case js_get m r of None \<Rightarrow> None | Some ls \<Rightarrow> js_get ls k)"
  by (simp add: recorded_lease_def leases_of_def split: option.split)

lemma release_slot_recorded:
  "fst (release_message_slot r k a m) = (\<exists>d. recorded_lease m r k = Some (a, d))"
  "recorded_lease (snd (release_message_slot r k a m)) r' k' =
     (if r' = r \<and> k' = k \<and> (\<exists>d. recorded_lease m r k = Some (a, d)) then None
      else recorded_lease m r' k')"
  by (auto simp: release_message_slot_def recorded_lease_get split: option.splits)

lemma release_lock_recorded:
  "fst (release_room_lock r k a m) = (\<exists>d. recorded_lease m r k = Some (a, d))"
  "recorded_lease (snd (release_room_lock r k a m)) r' k' =
     (if r' = r \<and> k' = k \<and> (\<exists>d. recorded_lease m r k = Some (a, d)) then None
      else recorded_lease m r' k')"
proof -
  have empty: "js_get ls x = None" if "js_delete k ls = []" "x \<noteq> k" for ls :: "(string, lease) js_map" and x
  proof -
    have "js_get (js_delete k ls) x = js_get ls x" using that(2) by simp
    then show ?thesis using that(1) by simp
  qed
  show "fst (release_room_lock r k a m) = (\<exists>d. recorded_lease m r k = Some (a, d))"
    by (auto simp: release_room_lock_def recorded_lease_get Let_def split: option.splits)
  show "recorded_lease (snd (release_room_lock r k a m)) r' k' =
     (if r' = r \<and> k' = k \<and> (\<exists>d. recorded_lease m r k = Some (a, d)) then None
      else recorded_lease m r' k')"
    by (auto simp: release_room_lock_def recorded_lease_get Let_def empty split: option.splits)
qed

lemmas lease_simps = try_claim_message_slot_def acquire_room_lock_def Let_def recorded_lease_def
  live_leases_get leases_wf

interpretation slots: lease_table recorded_lease try_claim_message_slot release_message_slot lease_map_wf
proof
  fix m r k a b r' k' and now e d :: rat
  assume wf: "lease_map_wf m"
  show "lease_map_wf (snd (try_claim_message_slot now r k a e m))"
    using wf by (simp add: lease_simps)
  show "fst (try_claim_message_slot now r k a e m)
      \<longleftrightarrow> (\<forall>b d. recorded_lease m r k = Some (b, d) \<longrightarrow> d \<le> now)"
    using wf by (auto simp: lease_simps not_less split: option.split)
  show "recorded_lease (snd (try_claim_message_slot now r k a e m)) r k = Some (a, e)"
    if "fst (try_claim_message_slot now r k a e m)"
    using that by (simp add: lease_simps split: if_splits)
  show "recorded_lease (snd (try_claim_message_slot now r k a e m)) r' k' = Some (b, d)"
    if "recorded_lease m r' k' = Some (b, d)" "now < d"
    using wf that by (auto simp: lease_simps)
  show "lease_map_wf (snd (release_message_slot r k a m))"
    using wf by (auto simp: release_message_slot_def lease_map_wf_def split: option.split)
  show "recorded_lease (snd (release_message_slot r k a m)) r' k' = Some (b, d)"
    if "recorded_lease m r' k' = Some (b, d)" "(r', k', b) \<noteq> (r, k, a)"
    using that by (auto simp: release_slot_recorded)
  show "fst (release_message_slot r k a m) \<and> recorded_lease (snd (release_message_slot r k a m)) r k = None"
    if "recorded_lease m r k = Some (a, d)"
    using that by (auto simp: release_slot_recorded)
qed

interpretation locks: lease_table recorded_lease acquire_room_lock release_room_lock lease_map_wf
proof
  fix m r k a b r' k' and now e d :: rat
  assume wf: "lease_map_wf m"
  show "lease_map_wf (snd (acquire_room_lock now r k a e m))"
    using wf by (simp add: lease_simps)
  show "fst (acquire_room_lock now r k a e m)
      \<longleftrightarrow> (\<forall>b d. recorded_lease m r k = Some (b, d) \<longrightarrow> d \<le> now)"
    using wf by (auto simp: lease_simps not_less split: option.split)
  show "recorded_lease (snd (acquire_room_lock now r k a e m)) r k = Some (a, e)"
    if "fst (acquire_room_lock now r k a e m)"
    using that by (simp add: lease_simps split: if_splits)
  show "recorded_lease (snd (acquire_room_lock now r k a e m)) r' k' = Some (b, d)"
    if "recorded_lease m r' k' = Some (b, d)" "now < d"
    using wf that by (auto simp: lease_simps)
  show "lease_map_wf (snd (release_room_lock r k a m))"
    using wf by (auto simp: release_room_lock_def Let_def lease_map_wf_def split: option.split)
  show "recorded_lease (snd (release_room_lock r k a m)) r' k' = Some (b, d)"
    if "recorded_lease m r' k' = Some (b, d)" "(r', k', b) \<noteq> (r, k, a)"
    using that by (auto simp: release_lock_recorded)
  show "fst (release_room_lock r k a m) \<and> recorded_lease (snd (release_room_lock r k a m)) r k = None"
    if "recorded_lease m r k = Some (a, d)"
    using that by (auto simp: release_lock_recorded)
qed

end
