(* ===== verification/Runtime_Store.thy ===== *)
theory Runtime_Store
  imports Room_Store Lease_Table
begin

text \<open>
  \<open>server/src/runtime-store-state.ts\<close> and the in-memory store of \<open>server/src/runtime-store.ts\<close>:
  what a server process knows about who is connected and seated where. A member's presence
  (the seat) and identity (the token that reclaims the member id) are kept apart: a disconnect
  ends the first and starts a clock on the second.

  The source shares session objects by reference between the store, the rooms and the
  handlers. Here they live in a heap, \<open>rt_heap\<close>, and everything else holds their ids; comparing
  references is comparing ids. A \<open>Set\<close> is a list without repetition in insertion order.
\<close>

subsection \<open>State\<close>

record runtime_room =
  rr_code :: string
  rr_members :: "(string, string) js_map"
  rr_member_tokens :: "(string, string) js_map"

type_synonym room_map = "(string, runtime_room) js_map"

record member_block =
  mb_token :: string
  mb_expires_at :: rat

datatype node_health = Node_Ok | Node_Stale | Node_Offline

record node_status =
  ns_instance_id :: string
  ns_version :: string
  ns_started_at :: rat
  ns_uptime_ms :: "rat option"
  ns_last_heartbeat_at :: rat
  ns_stale_at :: rat
  ns_expires_at :: rat
  ns_connection_count :: nat
  ns_active_room_count :: nat
  ns_active_member_count :: nat
  ns_health :: node_health

record runtime_store =
  rt_heap :: "(string, session) js_map"
  rt_registered :: "string list"
  rt_by_address :: "(string, string list) js_map"
  rt_room_sessions :: "(string, string list) js_map"
  rt_timed_events :: "(string \<times> rat) list"
  rt_lifetime_counts :: "(string, nat) js_map"
  rt_rooms :: room_map
  rt_blocked :: "(string, member_block list) js_map"
  rt_slots :: lease_map
  rt_locks :: lease_map
  rt_nodes :: "(string, node_status) js_map"
  rt_expiry :: "(string, (string, rat) js_map) js_map"
  rt_generations :: "(string, string) js_map"

definition empty_runtime_store :: runtime_store where
  "empty_runtime_store =
     \<lparr> rt_heap = [], rt_registered = [], rt_by_address = [], rt_room_sessions = [],
       rt_timed_events = [], rt_lifetime_counts = [], rt_rooms = [], rt_blocked = [],
       rt_slots = [], rt_locks = [], rt_nodes = [], rt_expiry = [], rt_generations = [] \<rparr>"

definition set_add :: "'a \<Rightarrow> 'a list \<Rightarrow> 'a list" where
  "set_add x xs = (if x \<in> set xs then xs else xs @ [x])"

definition set_delete :: "'a \<Rightarrow> 'a list \<Rightarrow> 'a list" where
  "set_delete x xs = filter (\<lambda>y. y \<noteq> x) xs"

definition counter_window_ms :: rat where "counter_window_ms = 60000"
definition default_member_token_retention_ms :: rat where
  "default_member_token_retention_ms = 30 * 60000"

subsection \<open>Helpers over the maps\<close>

definition get_previous_room_to_leave :: "string option \<Rightarrow> string \<Rightarrow> string option" where
  "get_previous_room_to_leave current next_code =
     (if \<not> truthy current \<or> current = Some next_code then None else current)"

definition resolve_room_code_to_leave :: "string option \<Rightarrow> string option \<Rightarrow> string option" where
  "resolve_room_code_to_leave current requested =
     (case requested of Some r \<Rightarrow> Some r | None \<Rightarrow> current)"

definition remove_from_index ::
    "string \<Rightarrow> string \<Rightarrow> (string, string list) js_map \<Rightarrow> (string, string list) js_map" where
  "remove_from_index session_id room_code idx =
     (case js_get idx room_code of
        None \<Rightarrow> idx
      | Some ids \<Rightarrow>
          let ids' = set_delete session_id ids
          in if ids' = [] then js_delete room_code idx else js_set room_code ids' idx)"

text \<open>The loop visits the preferred room and then every room there is; the order is immaterial.\<close>

definition detach_session_from_room_indexes ::
    "(string, string list) js_map \<Rightarrow> string \<Rightarrow> string option \<Rightarrow> (string, string list) js_map" where
  "detach_session_from_room_indexes idx session_id preferred =
     fold (remove_from_index session_id)
       (remdups ((if truthy preferred then [the preferred] else []) @ map fst idx)) idx"

definition get_or_create_active_room :: "room_map \<Rightarrow> string \<Rightarrow> runtime_room \<times> room_map" where
  "get_or_create_active_room rooms code =
     (case js_get rooms code of
        Some room \<Rightarrow> (room, rooms)
      | None \<Rightarrow> let room = \<lparr> rr_code = code, rr_members = [], rr_member_tokens = [] \<rparr>
                in (room, js_set code room rooms))"

definition add_member_to_room ::
    "room_map \<Rightarrow> string \<Rightarrow> string \<Rightarrow> string \<Rightarrow> string \<Rightarrow> runtime_room \<times> room_map" where
  "add_member_to_room rooms code member_id session_id member_token =
     (case get_or_create_active_room rooms code of
        (room, rooms') \<Rightarrow>
          let room' = room\<lparr> rr_members := js_set member_id session_id (rr_members room),
                            rr_member_tokens := js_set member_id member_token (rr_member_tokens room) \<rparr>
          in (room', js_set code room' rooms'))"

definition find_member_id_by_token_entries :: "(string \<times> string) list \<Rightarrow> string \<Rightarrow> string option" where
  "find_member_id_by_token_entries entries member_token =
     map_option fst (find (\<lambda>(_, token). token = member_token) entries)"

definition filter_active_blocked_member_tokens :: "member_block list \<Rightarrow> rat \<Rightarrow> member_block list" where
  "filter_active_blocked_member_tokens entries now = filter (\<lambda>e. now < mb_expires_at e) entries"

definition should_remove_member_binding :: "string option \<Rightarrow> string option \<Rightarrow> bool" where
  "should_remove_member_binding current expected =
     (\<not> truthy expected \<or> \<not> truthy current \<or> current = expected)"

record member_removal =
  mr_room :: "runtime_room option"
  mr_room_empty :: bool
  mr_removed :: bool

text \<open>Whether a seat is held by a session other than the one given.\<close>

definition held_by_other :: "runtime_room \<Rightarrow> string \<Rightarrow> string option \<Rightarrow> bool" where
  "held_by_other room member_id session =
     (session \<noteq> None \<and> js_has (rr_members room) member_id
      \<and> js_get (rr_members room) member_id \<noteq> session)"

definition remove_member_from_room ::
    "room_map \<Rightarrow> string \<Rightarrow> string \<Rightarrow> string option \<Rightarrow> member_removal \<times> room_map" where
  "remove_member_from_room rooms code member_id session =
     (case js_get rooms code of
        None \<Rightarrow> (\<lparr> mr_room = None, mr_room_empty = True, mr_removed = False \<rparr>, rooms)
      | Some room \<Rightarrow>
          if held_by_other room member_id session
          then (\<lparr> mr_room = Some room, mr_room_empty = False, mr_removed = False \<rparr>, rooms)
          else
            let existed = js_has (rr_members room) member_id;
                room' = room\<lparr> rr_members := js_delete member_id (rr_members room) \<rparr>;
                room_empty = (rr_members room' = []);
                rooms' = (if room_empty \<and> rr_member_tokens room' = [] then js_delete code rooms
                          else js_set code room' rooms)
            in (\<lparr> mr_room = (if room_empty then None else Some room'),
                  mr_room_empty = room_empty, mr_removed = existed \<rparr>, rooms'))"

definition revoke_member_token_in_room ::
    "room_map \<Rightarrow> string \<Rightarrow> string \<Rightarrow> string option \<Rightarrow> bool \<times> room_map" where
  "revoke_member_token_in_room rooms code member_id session =
     (case js_get rooms code of
        None \<Rightarrow> (False, rooms)
      | Some room \<Rightarrow>
          if held_by_other room member_id session then (False, rooms)
          else
            let revoked = js_has (rr_member_tokens room) member_id;
                room' = room\<lparr> rr_member_tokens := js_delete member_id (rr_member_tokens room) \<rparr>;
                rooms' = (if rr_members room' = [] \<and> rr_member_tokens room' = []
                          then js_delete code rooms else js_set code room' rooms)
            in (revoked, rooms'))"

subsection \<open>Operations\<close>

definition prune_expired_member_tokens :: "rat \<Rightarrow> string \<Rightarrow> runtime_store \<Rightarrow> runtime_store" where
  "prune_expired_member_tokens now code rt =
     (case js_get (rt_expiry rt) code of
        None \<Rightarrow> rt
      | Some by_member \<Rightarrow>
          let due = map fst (filter (\<lambda>(_, expires_at). expires_at \<le> now) by_member);
              rooms' = fold (\<lambda>member_id rooms.
                 snd (revoke_member_token_in_room rooms code member_id None)) due (rt_rooms rt);
              left = filter (\<lambda>(_, expires_at). \<not> expires_at \<le> now) by_member
          in rt\<lparr> rt_rooms := rooms',
                 rt_expiry := (if left = [] then js_delete code (rt_expiry rt)
                               else js_set code left (rt_expiry rt)) \<rparr>)"

definition prune_events :: "rat \<Rightarrow> runtime_store \<Rightarrow> runtime_store" where
  "prune_events now rt =
     rt\<lparr> rt_timed_events := dropWhile (\<lambda>(_, t). counter_window_ms < now - t) (rt_timed_events rt) \<rparr>"

definition prune_blocked_member_tokens ::
    "rat \<Rightarrow> string \<Rightarrow> runtime_store \<Rightarrow> member_block list \<times> runtime_store" where
  "prune_blocked_member_tokens now code rt =
     (let entries = (case js_get (rt_blocked rt) code of None \<Rightarrow> [] | Some es \<Rightarrow> es);
          active = filter_active_blocked_member_tokens entries now
      in if active = [] then ([], rt\<lparr> rt_blocked := js_delete code (rt_blocked rt) \<rparr>)
         else if length active \<noteq> length entries
         then (active, rt\<lparr> rt_blocked := js_set code active (rt_blocked rt) \<rparr>)
         else (active, rt))"

definition revoke_member_token :: "string \<Rightarrow> string \<Rightarrow> string option \<Rightarrow> runtime_store \<Rightarrow> runtime_store" where
  "revoke_member_token code member_id session rt =
     (case revoke_member_token_in_room (rt_rooms rt) code member_id session of
        (revoked, rooms') \<Rightarrow>
          let rt' = rt\<lparr> rt_rooms := rooms' \<rparr>
          in if \<not> revoked then rt'
             else (case js_get (rt_expiry rt) code of
                     None \<Rightarrow> rt'
                   | Some by_member \<Rightarrow>
                       let left = js_delete member_id by_member
                       in rt'\<lparr> rt_expiry := (if left = [] then js_delete code (rt_expiry rt)
                                            else js_set code left (rt_expiry rt)) \<rparr>))"

definition put_session :: "session \<Rightarrow> runtime_store \<Rightarrow> runtime_store" where
  "put_session s rt = rt\<lparr> rt_heap := js_set (s_id s) s (rt_heap rt) \<rparr>"

definition session_object :: "runtime_store \<Rightarrow> string \<Rightarrow> session" where
  "session_object rt i = (case js_get (rt_heap rt) i of None \<Rightarrow> empty_session i | Some s \<Rightarrow> s)"

definition get_session :: "runtime_store \<Rightarrow> string \<Rightarrow> session option" where
  "get_session rt i = (if i \<in> set (rt_registered rt) then Some (session_object rt i) else None)"

definition register_session :: "string \<Rightarrow> runtime_store \<Rightarrow> runtime_store" where
  "register_session i rt =
     (let rt' = rt\<lparr> rt_registered := set_add i (rt_registered rt) \<rparr>
      in case s_remote_address (session_object rt i) of
           None \<Rightarrow> rt'
         | Some a \<Rightarrow>
             if a = [] then rt'
             else rt'\<lparr> rt_by_address := js_set a
                    (set_add i (case js_get (rt_by_address rt) a of None \<Rightarrow> [] | Some ids \<Rightarrow> ids))
                    (rt_by_address rt) \<rparr>)"

definition unregister_session :: "string \<Rightarrow> runtime_store \<Rightarrow> runtime_store" where
  "unregister_session i rt =
     (case get_session rt i of
        None \<Rightarrow> rt\<lparr> rt_room_sessions := detach_session_from_room_indexes (rt_room_sessions rt) i None \<rparr>
      | Some s \<Rightarrow>
          rt\<lparr> rt_room_sessions := detach_session_from_room_indexes (rt_room_sessions rt) i (s_room_code s),
              rt_by_address := (if truthy (s_remote_address s)
                then remove_from_index i (the (s_remote_address s)) (rt_by_address rt)
                else rt_by_address rt),
              rt_registered := set_delete i (rt_registered rt) \<rparr>)"

definition mark_session_joined_room :: "string \<Rightarrow> string \<Rightarrow> runtime_store \<Rightarrow> runtime_store" where
  "mark_session_joined_room i room_code rt =
     (case get_session rt i of
        None \<Rightarrow> rt
      | Some s \<Rightarrow>
          let idx = detach_session_from_room_indexes (rt_room_sessions rt) i (s_room_code s);
              ids = (case js_get idx room_code of None \<Rightarrow> [] | Some ids \<Rightarrow> ids)
          in put_session (s\<lparr> s_room_code := Some room_code \<rparr>)
               (rt\<lparr> rt_room_sessions := js_set room_code (set_add i ids) idx \<rparr>))"

definition mark_session_left_room :: "string \<Rightarrow> string option \<Rightarrow> runtime_store \<Rightarrow> runtime_store" where
  "mark_session_left_room i room_code rt =
     (let found = get_session rt i;
          target = resolve_room_code_to_leave
            (case found of None \<Rightarrow> None | Some s \<Rightarrow> s_room_code s) room_code
      in if \<not> truthy target then rt
         else let rt' = rt\<lparr> rt_room_sessions := remove_from_index i (the target) (rt_room_sessions rt) \<rparr>
              in case found of
                   None \<Rightarrow> rt'
                 | Some s \<Rightarrow> if s_room_code s = target
                             then put_session (s\<lparr> s_room_code := None \<rparr>) rt' else rt')"

definition record_event :: "string \<Rightarrow> rat \<Rightarrow> runtime_store \<Rightarrow> runtime_store" where
  "record_event event timestamp rt =
     prune_events timestamp
       (rt\<lparr> rt_timed_events := rt_timed_events rt @ [(event, timestamp)],
            rt_lifetime_counts := js_set event
              ((case js_get (rt_lifetime_counts rt) event of None \<Rightarrow> 0 | Some n \<Rightarrow> n) + 1)
              (rt_lifetime_counts rt) \<rparr>)"

definition get_recent_event_counts :: "rat \<Rightarrow> runtime_store \<Rightarrow> (string, nat) js_map \<times> runtime_store" where
  "get_recent_event_counts now rt =
     (let rt' = prune_events now rt
      in (fold (\<lambda>(event, _) counts.
             js_set event ((case js_get counts event of None \<Rightarrow> 0 | Some n \<Rightarrow> n) + 1) counts)
           (rt_timed_events rt') [], rt'))"

definition list_sessions_by_room :: "runtime_store \<Rightarrow> string \<Rightarrow> session list" where
  "list_sessions_by_room rt room_code =
     (case js_get (rt_room_sessions rt) room_code of
        None \<Rightarrow> []
      | Some ids \<Rightarrow> List.map_filter (get_session rt) ids)"

definition get_connection_count :: "runtime_store \<Rightarrow> nat" where
  "get_connection_count rt = length (rt_registered rt)"

definition get_active_room_count :: "runtime_store \<Rightarrow> nat" where
  "get_active_room_count rt = length (rt_room_sessions rt)"

definition get_active_member_count :: "runtime_store \<Rightarrow> nat" where
  "get_active_member_count rt = sum_list (map (\<lambda>(_, ids). length ids) (rt_room_sessions rt))"

definition get_active_room_codes :: "runtime_store \<Rightarrow> string list" where
  "get_active_room_codes rt = map fst (rt_room_sessions rt)"

definition get_runtime_room :: "rat \<Rightarrow> string \<Rightarrow> runtime_store \<Rightarrow> runtime_room option \<times> runtime_store" where
  "get_runtime_room now code rt =
     (let rt' = prune_expired_member_tokens now code rt in (js_get (rt_rooms rt') code, rt'))"

definition get_or_create_room :: "string \<Rightarrow> runtime_store \<Rightarrow> runtime_room \<times> runtime_store" where
  "get_or_create_room code rt =
     (case get_or_create_active_room (rt_rooms rt) code of
        (room, rooms') \<Rightarrow> (room, rt\<lparr> rt_rooms := rooms' \<rparr>))"

definition add_member ::
    "rat \<Rightarrow> string \<Rightarrow> string \<Rightarrow> string \<Rightarrow> string \<Rightarrow> runtime_store \<Rightarrow> runtime_room \<times> runtime_store" where
  "add_member now code member_id session_id member_token rt =
     (let rt1 = prune_expired_member_tokens now code rt;
          rt2 = (case js_get (rt_expiry rt1) code of
                   None \<Rightarrow> rt1
                 | Some by_member \<Rightarrow>
                     rt1\<lparr> rt_expiry := js_set code (js_delete member_id by_member) (rt_expiry rt1) \<rparr>)
      in case add_member_to_room (rt_rooms rt2) code member_id session_id member_token of
           (room, rooms') \<Rightarrow> (room, rt2\<lparr> rt_rooms := rooms' \<rparr>))"

definition find_member_id_by_token ::
    "rat \<Rightarrow> string \<Rightarrow> string \<Rightarrow> runtime_store \<Rightarrow> string option \<times> runtime_store" where
  "find_member_id_by_token now code member_token rt =
     (let rt' = prune_expired_member_tokens now code rt
      in (case js_get (rt_rooms rt') code of
            None \<Rightarrow> None
          | Some room \<Rightarrow> find_member_id_by_token_entries (rr_member_tokens room) member_token, rt'))"

definition is_member_token_blocked ::
    "rat \<Rightarrow> string \<Rightarrow> string \<Rightarrow> runtime_store \<Rightarrow> bool \<times> runtime_store" where
  "is_member_token_blocked now code member_token rt =
     (case prune_blocked_member_tokens now code rt of
        (active, rt') \<Rightarrow> (list_ex (\<lambda>e. mb_token e = member_token) active, rt'))"

definition remove_member ::
    "rat \<Rightarrow> rat \<Rightarrow> string \<Rightarrow> string \<Rightarrow> string option \<Rightarrow> runtime_store \<Rightarrow> member_removal \<times> runtime_store"
  where
  "remove_member retention now code member_id session rt =
     (let rt1 = prune_expired_member_tokens now code rt
      in case remove_member_from_room (rt_rooms rt1) code member_id session of
           (removal, rooms') \<Rightarrow>
             let rt2 = rt1\<lparr> rt_rooms := rooms' \<rparr>
             in if mr_removed removal
                   \<and> (case js_get rooms' code of None \<Rightarrow> False
                      | Some room \<Rightarrow> js_has (rr_member_tokens room) member_id)
                then (removal,
                      rt2\<lparr> rt_expiry := js_set code
                             (js_set member_id (now + retention)
                                (case js_get (rt_expiry rt1) code of None \<Rightarrow> [] | Some es \<Rightarrow> es))
                             (rt_expiry rt1) \<rparr>)
                else (removal, rt2))"

text \<open>
  The existing block found is extended in place; the list may hold one block per token only.
\<close>

definition evict_member_token ::
    "rat \<Rightarrow> string \<Rightarrow> string \<Rightarrow> string \<Rightarrow> rat \<Rightarrow> runtime_store \<Rightarrow> runtime_store" where
  "evict_member_token now code member_id member_token blocked_until rt =
     (case prune_blocked_member_tokens now code rt of
        (active, rt1) \<Rightarrow>
          let extend = (\<lambda>e. e\<lparr> mb_expires_at := max (mb_expires_at e) blocked_until \<rparr>);
              active' = (case List.extract (\<lambda>e. mb_token e = member_token) active of
                   Some (before, e, after) \<Rightarrow> before @ [extend e] @ after
                 | None \<Rightarrow> active @ [\<lparr> mb_token = member_token, mb_expires_at = blocked_until \<rparr>])
          in revoke_member_token code member_id None
               (rt1\<lparr> rt_blocked := js_set code active' (rt_blocked rt1) \<rparr>))"

definition claim_slot ::
    "rat \<Rightarrow> string \<Rightarrow> string \<Rightarrow> string \<Rightarrow> rat \<Rightarrow> runtime_store \<Rightarrow> bool \<times> runtime_store" where
  "claim_slot now code key token expires_at rt =
     apsnd (\<lambda>m. rt\<lparr> rt_slots := m \<rparr>) (try_claim_message_slot now code key token expires_at (rt_slots rt))"

definition release_slot :: "string \<Rightarrow> string \<Rightarrow> string \<Rightarrow> runtime_store \<Rightarrow> bool \<times> runtime_store" where
  "release_slot code key token rt =
     apsnd (\<lambda>m. rt\<lparr> rt_slots := m \<rparr>) (release_message_slot code key token (rt_slots rt))"

definition acquire_lock ::
    "rat \<Rightarrow> string \<Rightarrow> string \<Rightarrow> string \<Rightarrow> rat \<Rightarrow> runtime_store \<Rightarrow> bool \<times> runtime_store" where
  "acquire_lock now code key token expires_at rt =
     apsnd (\<lambda>m. rt\<lparr> rt_locks := m \<rparr>) (acquire_room_lock now code key token expires_at (rt_locks rt))"

definition release_lock :: "string \<Rightarrow> string \<Rightarrow> string \<Rightarrow> runtime_store \<Rightarrow> bool \<times> runtime_store" where
  "release_lock code key token rt =
     apsnd (\<lambda>m. rt\<lparr> rt_locks := m \<rparr>) (release_room_lock code key token (rt_locks rt))"

definition has_room_residue :: "rat \<Rightarrow> string \<Rightarrow> runtime_store \<Rightarrow> bool \<times> runtime_store" where
  "has_room_residue now code rt =
     (let rt' = prune_expired_member_tokens now code rt
      in (js_has (rt_rooms rt') code \<or> js_has (rt_room_sessions rt') code
          \<or> js_has (rt_blocked rt') code \<or> js_has (rt_expiry rt') code \<or> js_has (rt_slots rt') code, rt'))"

definition get_room_generation :: "runtime_store \<Rightarrow> string \<Rightarrow> string option" where
  "get_room_generation rt code = js_get (rt_generations rt) code"

definition mark_room_generation ::
    "string \<Rightarrow> string \<Rightarrow> string option \<Rightarrow> runtime_store \<Rightarrow> bool \<times> runtime_store" where
  "mark_room_generation code generation expected rt =
     (if get_room_generation rt code \<noteq> expected then (False, rt)
      else (True, rt\<lparr> rt_generations := js_set code generation (rt_generations rt) \<rparr>))"

definition delete_runtime_room :: "string \<Rightarrow> string option \<Rightarrow> runtime_store \<Rightarrow> bool \<times> runtime_store" where
  "delete_runtime_room code expected rt =
     (if get_room_generation rt code \<noteq> expected then (False, rt)
      else (True, rt\<lparr> rt_generations := js_delete code (rt_generations rt),
                      rt_rooms := js_delete code (rt_rooms rt),
                      rt_expiry := js_delete code (rt_expiry rt),
                      rt_room_sessions := js_delete code (rt_room_sessions rt),
                      rt_blocked := js_delete code (rt_blocked rt),
                      rt_slots := js_delete code (rt_slots rt),
                      rt_locks := js_delete code (rt_locks rt) \<rparr>))"

definition heartbeat_node :: "node_status \<Rightarrow> runtime_store \<Rightarrow> runtime_store" where
  "heartbeat_node status rt = rt\<lparr> rt_nodes := js_set (ns_instance_id status) status (rt_nodes rt) \<rparr>"

definition node_health_at :: "rat \<Rightarrow> node_status \<Rightarrow> node_health" where
  "node_health_at now status =
     (if ns_expires_at status < now then Node_Offline
      else if ns_stale_at status < now then Node_Stale else Node_Ok)"

text \<open>The order of \<open>localeCompare\<close> belongs to the platform; it enters as a collation key.\<close>

definition list_node_statuses ::
    "(string \<Rightarrow> string) \<Rightarrow> rat \<Rightarrow> runtime_store \<Rightarrow> node_status list" where
  "list_node_statuses collation_key now rt =
     sort_key (\<lambda>s. collation_key (ns_instance_id s))
       (map (\<lambda>(_, s). s\<lparr> ns_health := node_health_at now s \<rparr>) (rt_nodes rt))"

definition purge_node_status :: "string \<Rightarrow> runtime_store \<Rightarrow> runtime_store" where
  "purge_node_status i rt = rt\<lparr> rt_nodes := js_delete i (rt_nodes rt) \<rparr>"

definition list_cluster_active_room_codes :: "runtime_store \<Rightarrow> string list" where
  "list_cluster_active_room_codes rt = sort (map fst (rt_room_sessions rt))"

definition list_cluster_sessions :: "runtime_store \<Rightarrow> session list" where
  "list_cluster_sessions rt = map (session_object rt) (rt_registered rt)"

text \<open>
  \<open>active-room-registry.ts\<close>: the registry lists a room's sessions by its seats.
\<close>

definition registry_sessions_by_room :: "rat \<Rightarrow> string \<Rightarrow> runtime_store \<Rightarrow> session list \<times> runtime_store" where
  "registry_sessions_by_room now code rt =
     (case get_runtime_room now code rt of
        (None, rt') \<Rightarrow> ([], rt')
      | (Some room, rt') \<Rightarrow> (map (\<lambda>(_, i). session_object rt' i) (rr_members room), rt'))"

text \<open>The room a handler sees, its sessions read through the heap.\<close>

definition active_room_view :: "runtime_store \<Rightarrow> runtime_room \<Rightarrow> active_room" where
  "active_room_view rt room =
     \<lparr> ar_code = rr_code room,
       ar_members = map (\<lambda>(m, i). (m, session_object rt i)) (rr_members room),
       ar_member_tokens = rr_member_tokens room \<rparr>"

subsection \<open>Seats and identities of a room\<close>

definition members_of :: "runtime_store \<Rightarrow> string \<Rightarrow> (string, string) js_map" where
  "members_of rt code = (case js_get (rt_rooms rt) code of None \<Rightarrow> [] | Some r \<Rightarrow> rr_members r)"

definition tokens_of :: "runtime_store \<Rightarrow> string \<Rightarrow> (string, string) js_map" where
  "tokens_of rt code = (case js_get (rt_rooms rt) code of None \<Rightarrow> [] | Some r \<Rightarrow> rr_member_tokens r)"

definition expiry_of :: "runtime_store \<Rightarrow> string \<Rightarrow> (string, rat) js_map" where
  "expiry_of rt code = (case js_get (rt_expiry rt) code of None \<Rightarrow> [] | Some es \<Rightarrow> es)"

lemmas room_views = members_of_def tokens_of_def expiry_of_def

text \<open>The same views on a bare room map, where the helpers work.\<close>

abbreviation (input) seats :: "room_map \<Rightarrow> string \<Rightarrow> (string, string) js_map" where
  "seats rooms code \<equiv> (case js_get rooms code of None \<Rightarrow> [] | Some r \<Rightarrow> rr_members r)"

abbreviation (input) idents :: "room_map \<Rightarrow> string \<Rightarrow> (string, string) js_map" where
  "idents rooms code \<equiv> (case js_get rooms code of None \<Rightarrow> [] | Some r \<Rightarrow> rr_member_tokens r)"

definition seat_held_by_other :: "(string, string) js_map \<Rightarrow> string \<Rightarrow> string option \<Rightarrow> bool" where
  "seat_held_by_other occ m session = (session \<noteq> None \<and> js_has occ m \<and> js_get occ m \<noteq> session)"

lemma js_delete_absent: "js_get m k = None \<Longrightarrow> js_delete k m = m"
  by (induction m) (auto split: if_splits)

lemma revoke_views:
  "seats (snd (revoke_member_token_in_room rooms code m session)) c = seats rooms c"
  "idents (snd (revoke_member_token_in_room rooms code m session)) c =
     (if c = code \<and> \<not> seat_held_by_other (seats rooms code) m session
      then js_delete m (idents rooms code) else idents rooms c)"
  "fst (revoke_member_token_in_room rooms code m session) =
     (js_has (idents rooms code) m \<and> \<not> seat_held_by_other (seats rooms code) m session)"
  by (auto simp: revoke_member_token_in_room_def Let_def held_by_other_def seat_held_by_other_def
      split: option.splits)

lemma remove_views:
  "seats (snd (remove_member_from_room rooms code m session)) c =
     (if c = code \<and> \<not> seat_held_by_other (seats rooms code) m session
      then js_delete m (seats rooms code) else seats rooms c)"
  "idents (snd (remove_member_from_room rooms code m session)) c = idents rooms c"
  "mr_removed (fst (remove_member_from_room rooms code m session)) =
     (js_has (seats rooms code) m \<and> \<not> seat_held_by_other (seats rooms code) m session)"
  by (auto simp: remove_member_from_room_def Let_def held_by_other_def seat_held_by_other_def
      split: option.splits)

lemma add_views:
  "seats (snd (add_member_to_room rooms code m i tok)) c =
     (if c = code then js_set m i (seats rooms code) else seats rooms c)"
  "idents (snd (add_member_to_room rooms code m i tok)) c =
     (if c = code then js_set m tok (idents rooms code) else idents rooms c)"
  by (auto simp: add_member_to_room_def get_or_create_active_room_def Let_def split: option.splits)

lemma fold_revoke_views:
  "seats (fold (\<lambda>m rooms. snd (revoke_member_token_in_room rooms code m None)) due rooms) c = seats rooms c
   \<and> idents (fold (\<lambda>m rooms. snd (revoke_member_token_in_room rooms code m None)) due rooms) c =
     (if c = code then filter (\<lambda>(m, _). m \<notin> set due) (idents rooms code) else idents rooms c)"
proof (induction due arbitrary: rooms)
  case (Cons m due)
  have free: "\<not> seat_held_by_other (seats rooms code) m None" by (simp add: seat_held_by_other_def)
  have "filter (\<lambda>(m', _). m' \<notin> set due) (js_delete m ts) = filter (\<lambda>(m', _). m' \<notin> set (m # due)) ts"
    for ts :: "(string, string) js_map"
    unfolding js_delete_eq_filter filter_filter by (rule filter_cong) (auto simp: case_prod_unfold)
  then show ?case
    using Cons.IH [of "snd (revoke_member_token_in_room rooms code m None)"] free
    by (simp only: fold_simps comp_apply revoke_views if_True simp_thms split: if_split) simp
qed (simp add: case_prod_unfold)

text \<open>Who loses the identity when a room is pruned.\<close>

definition due_members :: "rat \<Rightarrow> (string, rat) js_map \<Rightarrow> string list" where
  "due_members now es = map fst (filter (\<lambda>(_, expires_at). expires_at \<le> now) es)"

lemma prune_views:
  "members_of (prune_expired_member_tokens now code rt) c = members_of rt c"
  "tokens_of (prune_expired_member_tokens now code rt) c =
     (if c = code then filter (\<lambda>(m, _). m \<notin> set (due_members now (expiry_of rt code))) (tokens_of rt code)
      else tokens_of rt c)"
  "expiry_of (prune_expired_member_tokens now code rt) c =
     (if c = code then filter (\<lambda>(_, e). \<not> e \<le> now) (expiry_of rt code) else expiry_of rt c)"
proof -
  show "members_of (prune_expired_member_tokens now code rt) c = members_of rt c"
    by (cases "js_get (rt_expiry rt) code")
       (simp_all add: prune_expired_member_tokens_def members_of_def Let_def fold_revoke_views)
  show "tokens_of (prune_expired_member_tokens now code rt) c =
     (if c = code then filter (\<lambda>(m, _). m \<notin> set (due_members now (expiry_of rt code))) (tokens_of rt code)
      else tokens_of rt c)"
    by (cases "js_get (rt_expiry rt) code")
       (simp_all add: prune_expired_member_tokens_def tokens_of_def expiry_of_def due_members_def
          Let_def fold_revoke_views case_prod_unfold)
  show "expiry_of (prune_expired_member_tokens now code rt) c =
     (if c = code then filter (\<lambda>(_, e). \<not> e \<le> now) (expiry_of rt code) else expiry_of rt c)"
    by (cases "js_get (rt_expiry rt) code")
       (simp_all add: prune_expired_member_tokens_def expiry_of_def Let_def)
qed

lemma prune_frame:
  "rt_room_sessions (prune_expired_member_tokens now code rt) = rt_room_sessions rt"
  "rt_slots (prune_expired_member_tokens now code rt) = rt_slots rt"
  "rt_locks (prune_expired_member_tokens now code rt) = rt_locks rt"
  "rt_blocked (prune_expired_member_tokens now code rt) = rt_blocked rt"
  "rt_heap (prune_expired_member_tokens now code rt) = rt_heap rt"
  "rt_registered (prune_expired_member_tokens now code rt) = rt_registered rt"
  "rt_generations (prune_expired_member_tokens now code rt) = rt_generations rt"
  by (simp_all add: prune_expired_member_tokens_def Let_def split: option.split)

subsection \<open>Runs of operations and their invariant\<close>

text \<open>
  Identities on the clock belong to members who hold a token and no seat; a session is seated
  in at most one room's index, no index entry is empty; and the lease tables are proper maps.
\<close>

definition expiry_ok :: "runtime_store \<Rightarrow> bool" where
  "expiry_ok rt = (\<forall>code. js_wf (expiry_of rt code)
     \<and> (\<forall>m. js_has (expiry_of rt code) m \<longrightarrow>
          \<not> js_has (members_of rt code) m \<and> js_has (tokens_of rt code) m))"

definition index_ok :: "(string, string list) js_map \<Rightarrow> bool" where
  "index_ok idx = (\<forall>r ids. js_get idx r = Some ids \<longrightarrow> ids \<noteq> [] \<and> distinct ids
     \<and> (\<forall>r' ids'. js_get idx r' = Some ids' \<and> r' \<noteq> r \<longrightarrow> set ids \<inter> set ids' = {}))"

definition runtime_ok :: "runtime_store \<Rightarrow> bool" where
  "runtime_ok rt = (expiry_ok rt \<and> index_ok (rt_room_sessions rt)
     \<and> lease_map_wf (rt_slots rt) \<and> lease_map_wf (rt_locks rt))"

datatype runtime_op =
    R_Put session
  | R_Register string
  | R_Unregister string
  | R_Joined string string
  | R_Left string "string option"
  | R_Event string rat
  | R_Counts rat
  | R_Get_Room rat string
  | R_Get_Or_Create string
  | R_Add rat string string string string
  | R_Find rat string string
  | R_Blocked rat string string
  | R_Remove rat string string "string option"
  | R_Revoke string string "string option"
  | R_Evict rat string string string rat
  | R_Claim rat string string string rat
  | R_Release string string string
  | R_Lock rat string string string rat
  | R_Unlock string string string
  | R_Residue rat string
  | R_Mark string string "string option"
  | R_Delete string "string option"
  | R_Heartbeat node_status
  | R_Purge_Node string

fun runtime_step :: "rat \<Rightarrow> runtime_op \<Rightarrow> runtime_store \<Rightarrow> runtime_store" where
  "runtime_step ret (R_Put s) rt = put_session s rt"
| "runtime_step ret (R_Register i) rt = register_session i rt"
| "runtime_step ret (R_Unregister i) rt = unregister_session i rt"
| "runtime_step ret (R_Joined i code) rt = mark_session_joined_room i code rt"
| "runtime_step ret (R_Left i code) rt = mark_session_left_room i code rt"
| "runtime_step ret (R_Event e t) rt = record_event e t rt"
| "runtime_step ret (R_Counts t) rt = snd (get_recent_event_counts t rt)"
| "runtime_step ret (R_Get_Room t code) rt = snd (get_runtime_room t code rt)"
| "runtime_step ret (R_Get_Or_Create code) rt = snd (get_or_create_room code rt)"
| "runtime_step ret (R_Add t code m i tok) rt = snd (add_member t code m i tok rt)"
| "runtime_step ret (R_Find t code tok) rt = snd (find_member_id_by_token t code tok rt)"
| "runtime_step ret (R_Blocked t code tok) rt = snd (is_member_token_blocked t code tok rt)"
| "runtime_step ret (R_Remove t code m i) rt = snd (remove_member ret t code m i rt)"
| "runtime_step ret (R_Revoke code m i) rt = revoke_member_token code m i rt"
| "runtime_step ret (R_Evict t code m tok u) rt = evict_member_token t code m tok u rt"
| "runtime_step ret (R_Claim t code k tok e) rt = snd (claim_slot t code k tok e rt)"
| "runtime_step ret (R_Release code k tok) rt = snd (release_slot code k tok rt)"
| "runtime_step ret (R_Lock t code k tok e) rt = snd (acquire_lock t code k tok e rt)"
| "runtime_step ret (R_Unlock code k tok) rt = snd (release_lock code k tok rt)"
| "runtime_step ret (R_Residue t code) rt = snd (has_room_residue t code rt)"
| "runtime_step ret (R_Mark code g x) rt = snd (mark_room_generation code g x rt)"
| "runtime_step ret (R_Delete code x) rt = snd (delete_runtime_room code x rt)"
| "runtime_step ret (R_Heartbeat n) rt = heartbeat_node n rt"
| "runtime_step ret (R_Purge_Node n) rt = purge_node_status n rt"

lemma due_members_iff:
  "js_wf es \<Longrightarrow> m \<in> set (due_members now es) \<longleftrightarrow> (\<exists>e. js_get es m = Some e \<and> e \<le> now)"
  using js_get_in_set [of es m] by (auto simp: due_members_def image_iff)

lemma expiry_ok_views:
  assumes "expiry_of rt' = expiry_of rt" "members_of rt' = members_of rt" "tokens_of rt' = tokens_of rt"
  shows "expiry_ok rt' = expiry_ok rt"
  using assms by (simp add: expiry_ok_def)

lemma views_cong:
  assumes "rt_rooms rt' = rt_rooms rt" "rt_expiry rt' = rt_expiry rt"
  shows "expiry_ok rt' = expiry_ok rt"
  using assms by (intro expiry_ok_views) (simp_all add: room_views fun_eq_iff)

lemma prune_expiry_ok:
  assumes "expiry_ok rt"
  shows "expiry_ok (prune_expired_member_tokens now code rt)"
proof -
  have wf: "js_wf (expiry_of rt c)" for c using assms by (simp add: expiry_ok_def)
  have "js_wf (expiry_of (prune_expired_member_tokens now code rt) c)" for c
    using wf by (simp add: prune_views)
  moreover have "\<not> js_has (members_of (prune_expired_member_tokens now code rt) c) m
      \<and> js_has (tokens_of (prune_expired_member_tokens now code rt) c) m"
    if "js_has (expiry_of (prune_expired_member_tokens now code rt) c) m" for c m
    using that assms unfolding prune_views expiry_ok_def
    by (auto simp: js_get_filter wf due_members_iff split: if_splits option.splits)
  ultimately show ?thesis by (simp add: expiry_ok_def)
qed

lemma revoke_member_token_views:
  "members_of (revoke_member_token code m i rt) c = members_of rt c"
  "tokens_of (revoke_member_token code m i rt) c =
     (if c = code \<and> \<not> seat_held_by_other (members_of rt code) m i
      then js_delete m (tokens_of rt code) else tokens_of rt c)"
  "expiry_of (revoke_member_token code m i rt) c =
     (if c = code \<and> js_has (tokens_of rt code) m \<and> \<not> seat_held_by_other (members_of rt code) m i
      then js_delete m (expiry_of rt code) else expiry_of rt c)"
proof -
  obtain revoked rooms' where step:
    "revoke_member_token_in_room (rt_rooms rt) code m i = (revoked, rooms')" by fastforce
  note v = revoke_views [of "rt_rooms rt" code m i, unfolded step fst_conv snd_conv]
  have rooms: "rt_rooms (revoke_member_token code m i rt) = rooms'"
    by (simp add: revoke_member_token_def step Let_def split: option.split)
  show "members_of (revoke_member_token code m i rt) c = members_of rt c"
    unfolding members_of_def rooms v(1) ..
  show "tokens_of (revoke_member_token code m i rt) c =
     (if c = code \<and> \<not> seat_held_by_other (members_of rt code) m i
      then js_delete m (tokens_of rt code) else tokens_of rt c)"
    unfolding tokens_of_def members_of_def rooms v(2) ..
  show "expiry_of (revoke_member_token code m i rt) c =
     (if c = code \<and> js_has (tokens_of rt code) m \<and> \<not> seat_held_by_other (members_of rt code) m i
      then js_delete m (expiry_of rt code) else expiry_of rt c)"
    using v(3) unfolding members_of_def [symmetric] tokens_of_def [symmetric]
    by (cases "js_get (rt_expiry rt) code")
       (auto simp: revoke_member_token_def step expiry_of_def Let_def)
qed

lemma add_member_views:
  "members_of (snd (add_member t code m i tok rt)) c =
     (if c = code then js_set m i (members_of rt code) else members_of rt c)"
  "tokens_of (snd (add_member t code m i tok rt)) c =
     (if c = code then js_set m tok (tokens_of (prune_expired_member_tokens t code rt) code)
      else tokens_of rt c)"
  "expiry_of (snd (add_member t code m i tok rt)) c =
     (if c = code then js_delete m (expiry_of (prune_expired_member_tokens t code rt) code)
      else expiry_of rt c)"
proof -
  let ?p = "prune_expired_member_tokens t code rt"
  have rooms: "rt_rooms (snd (add_member t code m i tok rt))
      = snd (add_member_to_room (rt_rooms ?p) code m i tok)"
    by (simp add: add_member_def Let_def split: prod.split option.split)
  have expiry: "expiry_of (snd (add_member t code m i tok rt)) c
      = (if c = code then js_delete m (expiry_of ?p code) else expiry_of ?p c)"
    by (auto simp: add_member_def Let_def expiry_of_def split: prod.split option.split)
  show "members_of (snd (add_member t code m i tok rt)) c =
     (if c = code then js_set m i (members_of rt code) else members_of rt c)"
    unfolding members_of_def rooms add_views by (simp add: members_of_def [symmetric] prune_views)
  show "tokens_of (snd (add_member t code m i tok rt)) c =
     (if c = code then js_set m tok (tokens_of ?p code) else tokens_of rt c)"
    unfolding tokens_of_def rooms add_views by (simp add: tokens_of_def [symmetric] prune_views)
  show "expiry_of (snd (add_member t code m i tok rt)) c =
     (if c = code then js_delete m (expiry_of ?p code) else expiry_of rt c)"
    unfolding expiry by (simp add: prune_views)
qed

lemma remove_member_views:
  fixes rt t code
  defines "p \<equiv> prune_expired_member_tokens t code rt"
  shows
  "members_of (snd (remove_member ret t code m i rt)) c =
     (if c = code \<and> \<not> seat_held_by_other (members_of rt code) m i
      then js_delete m (members_of rt code) else members_of rt c)"
  "tokens_of (snd (remove_member ret t code m i rt)) c = tokens_of p c"
  "expiry_of (snd (remove_member ret t code m i rt)) c =
     (if c = code \<and> js_has (members_of rt code) m \<and> \<not> seat_held_by_other (members_of rt code) m i
         \<and> js_has (tokens_of p code) m
      then js_set m (t + ret) (expiry_of p code) else expiry_of p c)"
proof -
  obtain removal rooms' where step:
    "remove_member_from_room (rt_rooms p) code m i = (removal, rooms')" by fastforce
  note v = remove_views [of "rt_rooms p" code m i, unfolded step fst_conv snd_conv]
  have has: "(case js_get rooms' code of None \<Rightarrow> False | Some room \<Rightarrow> js_has (rr_member_tokens room) m)
      \<longleftrightarrow> js_has (tokens_of p code) m"
    using v(2) [of code] by (auto simp: tokens_of_def split: option.splits)
  have removed: "mr_removed removal \<longleftrightarrow>
      js_has (members_of rt code) m \<and> \<not> seat_held_by_other (members_of rt code) m i"
    using v(3) unfolding members_of_def [symmetric] by (simp add: p_def prune_views)
  have rooms: "rt_rooms (snd (remove_member ret t code m i rt)) = rooms'"
    unfolding remove_member_def Let_def p_def [symmetric] step by simp
  show "members_of (snd (remove_member ret t code m i rt)) c =
     (if c = code \<and> \<not> seat_held_by_other (members_of rt code) m i
      then js_delete m (members_of rt code) else members_of rt c)"
    unfolding members_of_def rooms v(1)
    unfolding members_of_def [symmetric] by (simp add: p_def prune_views)
  show "tokens_of (snd (remove_member ret t code m i rt)) c = tokens_of p c"
    unfolding tokens_of_def rooms v(2) ..
  show "expiry_of (snd (remove_member ret t code m i rt)) c =
     (if c = code \<and> js_has (members_of rt code) m \<and> \<not> seat_held_by_other (members_of rt code) m i
         \<and> js_has (tokens_of p code) m
      then js_set m (t + ret) (expiry_of p code) else expiry_of p c)"
    unfolding remove_member_def Let_def p_def [symmetric] step
    using has removed by (auto simp: expiry_of_def split: option.split)
qed

definition without_session :: "string \<Rightarrow> string list option \<Rightarrow> string list option" where
  "without_session i ids =
     (case ids of None \<Rightarrow> None | Some xs \<Rightarrow> if set_delete i xs = [] then None else Some (set_delete i xs))"

lemma remove_from_index_get:
  "js_get (remove_from_index i r idx) r' = (if r' = r then without_session i (js_get idx r) else js_get idx r')"
  by (auto simp: remove_from_index_def without_session_def Let_def split: option.split)

lemma without_session_idem: "without_session i (without_session i x) = without_session i x"
  by (auto simp: without_session_def set_delete_def split: option.split)

lemma fold_remove_from_index:
  "js_get (fold (remove_from_index i) rs idx) r =
     (if r \<in> set rs then without_session i (js_get idx r) else js_get idx r)"
  by (induction rs arbitrary: idx) (auto simp: remove_from_index_get without_session_idem)

lemma detach_get:
  "js_get (detach_session_from_room_indexes idx i pref) r = without_session i (js_get idx r)"
proof (cases "js_get idx r")
  case None
  then show ?thesis
    by (simp add: detach_session_from_room_indexes_def fold_remove_from_index without_session_def)
next
  case (Some ids)
  then have "r \<in> fst ` set idx" by (metis fst_conv image_eqI map_of_SomeD)
  then show ?thesis
    by (simp add: detach_session_from_room_indexes_def fold_remove_from_index)
qed

lemma without_session_Some:
  "without_session i x = Some ys \<longleftrightarrow> (\<exists>xs. x = Some xs \<and> ys = set_delete i xs \<and> ys \<noteq> [])"
  by (auto simp: without_session_def split: option.splits)

lemma set_delete_facts [simp]:
  "set (set_delete i xs) = set xs - {i}" "distinct xs \<Longrightarrow> distinct (set_delete i xs)"
  by (auto simp: set_delete_def)

lemma set_add_facts [simp]:
  "set (set_add i xs) = insert i (set xs)" "distinct xs \<Longrightarrow> distinct (set_add i xs)" "set_add i xs \<noteq> []"
  by (auto simp: set_add_def)

lemma index_okD:
  assumes "index_ok idx" and "js_get idx r = Some ids"
  shows "ids \<noteq> []" and "distinct ids"
    and "js_get idx r' = Some ids' \<Longrightarrow> r' \<noteq> r \<Longrightarrow> set ids \<inter> set ids' = {}"
  using assms unfolding index_ok_def by blast+

lemma index_okI:
  assumes "\<And>r ids. js_get idx r = Some ids \<Longrightarrow> ids \<noteq> [] \<and> distinct ids"
    and "\<And>r ids r' ids'. js_get idx r = Some ids \<Longrightarrow> js_get idx r' = Some ids' \<Longrightarrow> r' \<noteq> r \<Longrightarrow>
       set ids \<inter> set ids' = {}"
  shows "index_ok idx"
  using assms unfolding index_ok_def by blast

lemma index_ok_shrink:
  assumes ok: "index_ok idx"
    and sub: "\<And>r ids. js_get idx' r = Some ids \<Longrightarrow> ids \<noteq> [] \<and>
          (\<exists>xs. js_get idx r = Some xs \<and> (ids = xs \<or> ids = set_delete i xs))"
  shows "index_ok idx'"
proof (rule index_okI)
  fix r ids assume "js_get idx' r = Some ids"
  from sub [OF this] obtain xs where xs: "js_get idx r = Some xs" "ids = xs \<or> ids = set_delete i xs"
    "ids \<noteq> []" by blast
  have "distinct xs" by (rule index_okD(2) [OF ok xs(1)])
  then show "ids \<noteq> [] \<and> distinct ids" using xs(2,3) by (elim disjE) simp_all
next
  fix r ids r' ids' assume r: "js_get idx' r = Some ids" "js_get idx' r' = Some ids'" "r' \<noteq> r"
  obtain xs where xs: "js_get idx r = Some xs" "set ids \<subseteq> set xs"
    using sub [OF r(1)] by auto
  obtain ys where ys: "js_get idx r' = Some ys" "set ids' \<subseteq> set ys"
    using sub [OF r(2)] by auto
  have "set xs \<inter> set ys = {}" by (rule index_okD(3) [OF ok xs(1) ys(1) r(3)])
  then show "set ids \<inter> set ids' = {}" using xs(2) ys(2) by blast
qed

lemma index_ok_remove:
  assumes "index_ok idx" shows "index_ok (remove_from_index i r idx)"
proof (rule index_ok_shrink [OF assms, where i = i])
  fix r' ids assume "js_get (remove_from_index i r idx) r' = Some ids"
  then show "ids \<noteq> [] \<and> (\<exists>xs. js_get idx r' = Some xs \<and> (ids = xs \<or> ids = set_delete i xs))"
    using index_okD(1) [OF assms, of r' ids]
    by (cases "r' = r") (auto simp: remove_from_index_get without_session_Some)
qed

lemma index_ok_detach:
  assumes "index_ok idx" shows "index_ok (detach_session_from_room_indexes idx i pref)"
  by (rule index_ok_shrink [OF assms, where i = i]) (auto simp: detach_get without_session_Some)

lemma index_ok_delete:
  assumes "index_ok idx" shows "index_ok (js_delete r idx)"
proof (rule index_ok_shrink [OF assms, where i = "[]"])
  fix r' ids assume "js_get (js_delete r idx) r' = Some ids"
  then have "js_get idx r' = Some ids" by (simp split: if_splits)
  with index_okD(1) [OF assms this]
  show "ids \<noteq> [] \<and> (\<exists>xs. js_get idx r' = Some xs \<and> (ids = xs \<or> ids = set_delete [] xs))"
    by simp
qed

lemma index_ok_join:
  assumes "index_ok idx"
  shows "index_ok (js_set r (set_add i
      (case js_get (detach_session_from_room_indexes idx i pref) r of None \<Rightarrow> [] | Some ids \<Rightarrow> ids))
      (detach_session_from_room_indexes idx i pref))"
proof -
  define idx' where "idx' = detach_session_from_room_indexes idx i pref"
  define ids0 where "ids0 = (case js_get idx' r of None \<Rightarrow> [] | Some ids \<Rightarrow> ids)"
  have ok: "index_ok idx'" unfolding idx'_def by (rule index_ok_detach [OF assms])
  have gone: "i \<notin> set ids" if "js_get idx' r' = Some ids" for r' ids
    using that by (auto simp: detach_get without_session_Some idx'_def)
  have d0: "distinct ids0"
  proof (cases "js_get idx' r")
    case (Some xs)
    from index_okD(2) [OF ok Some] show ?thesis by (simp add: ids0_def Some)
  qed (simp add: ids0_def)
  have apart: "set (set_add i ids0) \<inter> set ids = {}" if "js_get idx' r' = Some ids" "r' \<noteq> r" for r' ids
  proof -
    have "set ids0 \<inter> set ids = {}"
    proof (cases "js_get idx' r")
      case (Some xs)
      from index_okD(3) [OF ok Some that] show ?thesis by (simp add: ids0_def Some)
    qed (simp add: ids0_def)
    then show ?thesis using gone [OF that(1)] by simp
  qed
  have "index_ok (js_set r (set_add i ids0) idx')"
  proof (rule index_okI)
    fix a ids assume "js_get (js_set r (set_add i ids0) idx') a = Some ids"
    then show "ids \<noteq> [] \<and> distinct ids"
      using d0 index_okD(1,2) [OF ok, of a ids] by (cases "a = r") auto
  next
    fix a ids b ids'
    assume ab: "js_get (js_set r (set_add i ids0) idx') a = Some ids"
      "js_get (js_set r (set_add i ids0) idx') b = Some ids'" "b \<noteq> a"
    consider "a = r" | "b = r" | "a \<noteq> r" "b \<noteq> r" by blast
    then show "set ids \<inter> set ids' = {}"
    proof cases
      case 1
      then show ?thesis using ab apart [of b ids'] by simp
    next
      case 2
      then show ?thesis using ab apart [of a ids] by (simp add: Int_commute)
    next
      case 3
      then show ?thesis using ab index_okD(3) [OF ok, of a ids b ids'] by simp
    qed
  qed
  then show ?thesis unfolding ids0_def idx'_def .
qed

lemma views_of_rooms [simp]:
  "members_of (rt\<lparr> rt_expiry := x \<rparr>) = members_of rt" "tokens_of (rt\<lparr> rt_expiry := x \<rparr>) = tokens_of rt"
  by (simp_all add: room_views fun_eq_iff)

lemma revoke_frame:
  "rt_room_sessions (revoke_member_token code m i rt) = rt_room_sessions rt"
  "rt_slots (revoke_member_token code m i rt) = rt_slots rt"
  "rt_locks (revoke_member_token code m i rt) = rt_locks rt"
  "rt_blocked (revoke_member_token code m i rt) = rt_blocked rt"
  "rt_generations (revoke_member_token code m i rt) = rt_generations rt"
  by (simp_all add: revoke_member_token_def Let_def split: prod.split option.split)

lemma add_member_frame:
  "rt_room_sessions (snd (add_member t code m i tok rt)) = rt_room_sessions rt"
  "rt_slots (snd (add_member t code m i tok rt)) = rt_slots rt"
  "rt_locks (snd (add_member t code m i tok rt)) = rt_locks rt"
  by (simp_all add: add_member_def Let_def prune_frame split: prod.split option.split)

lemma remove_member_frame:
  "rt_room_sessions (snd (remove_member ret t code m i rt)) = rt_room_sessions rt"
  "rt_slots (snd (remove_member ret t code m i rt)) = rt_slots rt"
  "rt_locks (snd (remove_member ret t code m i rt)) = rt_locks rt"
  by (simp_all add: remove_member_def Let_def prune_frame split: prod.split)

lemma expiry_okI:
  assumes "\<And>c. js_wf (expiry_of rt c)"
    and "\<And>c m. js_has (expiry_of rt c) m \<Longrightarrow> \<not> js_has (members_of rt c) m \<and> js_has (tokens_of rt c) m"
  shows "expiry_ok rt"
  using assms unfolding expiry_ok_def by blast

lemma expiry_okD:
  assumes "expiry_ok rt"
  shows "js_wf (expiry_of rt c)"
    and "js_get (expiry_of rt c) m = Some e \<Longrightarrow> js_get (members_of rt c) m = None"
    and "js_get (expiry_of rt c) m = Some e \<Longrightarrow> \<exists>tok. js_get (tokens_of rt c) m = Some tok"
  using assms unfolding expiry_ok_def by auto

lemma revoke_expiry_ok:
  assumes "expiry_ok rt" shows "expiry_ok (revoke_member_token code m i rt)"
proof (rule expiry_okI)
  show "js_wf (expiry_of (revoke_member_token code m i rt) c)" for c
    using expiry_okD(1) [OF assms] by (simp add: revoke_member_token_views)
  fix c m' assume has: "js_has (expiry_of (revoke_member_token code m i rt) c) m'"
  then obtain e where e: "js_get (expiry_of rt c) m' = Some e"
    by (auto simp: revoke_member_token_views split: if_splits)
  from expiry_okD(2,3) [OF assms e] has show "\<not> js_has (members_of (revoke_member_token code m i rt) c) m'
      \<and> js_has (tokens_of (revoke_member_token code m i rt) c) m'"
    by (auto simp: revoke_member_token_views split: if_splits)
qed

lemma add_expiry_ok:
  assumes "expiry_ok rt" shows "expiry_ok (snd (add_member t code m i tok rt))"
proof (rule expiry_okI)
  let ?p = "prune_expired_member_tokens t code rt"
  have p: "expiry_ok ?p" by (rule prune_expiry_ok [OF assms])
  show "js_wf (expiry_of (snd (add_member t code m i tok rt)) c)" for c
    using expiry_okD(1) [OF assms] expiry_okD(1) [OF p] by (simp add: add_member_views)
  fix c m' assume has: "js_has (expiry_of (snd (add_member t code m i tok rt)) c) m'"
  show "\<not> js_has (members_of (snd (add_member t code m i tok rt)) c) m'
      \<and> js_has (tokens_of (snd (add_member t code m i tok rt)) c) m'"
  proof (cases "c = code")
    case True
    then have "m' \<noteq> m" "js_has (expiry_of ?p code) m'"
      using has by (auto simp: add_member_views split: if_splits)
    then show ?thesis
      using expiry_okD(2,3) [OF p, of code m'] True by (auto simp: add_member_views prune_views(1))
  next
    case False
    then show ?thesis
      using has expiry_okD(2,3) [OF assms, of c m'] by (auto simp: add_member_views)
  qed
qed

lemma remove_expiry_ok:
  assumes "expiry_ok rt" shows "expiry_ok (snd (remove_member ret t code m i rt))"
proof (rule expiry_okI)
  let ?p = "prune_expired_member_tokens t code rt"
  have p: "expiry_ok ?p" by (rule prune_expiry_ok [OF assms])
  show "js_wf (expiry_of (snd (remove_member ret t code m i rt)) c)" for c
    using expiry_okD(1) [OF p] by (simp add: remove_member_views)
  fix c m' assume has: "js_has (expiry_of (snd (remove_member ret t code m i rt)) c) m'"
  consider "c = code" "m' = m" "js_has (members_of rt code) m"
      "\<not> seat_held_by_other (members_of rt code) m i" "js_has (tokens_of ?p code) m"
    | "js_has (expiry_of ?p c) m'"
    using has by (auto simp: remove_member_views split: if_splits)
  then show "\<not> js_has (members_of (snd (remove_member ret t code m i rt)) c) m'
      \<and> js_has (tokens_of (snd (remove_member ret t code m i rt)) c) m'"
  proof cases
    case 1
    then show ?thesis by (simp add: remove_member_views)
  next
    case 2
    then show ?thesis
      using expiry_okD(2,3) [OF p, of c m'] by (auto simp: remove_member_views prune_views(1))
  qed
qed

lemma delete_views:
  "members_of (snd (delete_runtime_room code x rt)) c =
     (if fst (delete_runtime_room code x rt) \<and> c = code then [] else members_of rt c)"
  "tokens_of (snd (delete_runtime_room code x rt)) c =
     (if fst (delete_runtime_room code x rt) \<and> c = code then [] else tokens_of rt c)"
  "expiry_of (snd (delete_runtime_room code x rt)) c =
     (if fst (delete_runtime_room code x rt) \<and> c = code then [] else expiry_of rt c)"
  by (simp_all add: delete_runtime_room_def room_views)

lemma delete_expiry_ok:
  assumes "expiry_ok rt" shows "expiry_ok (snd (delete_runtime_room code x rt))"
  by (rule expiry_okI)
     (use expiry_okD [OF assms] in \<open>auto simp: delete_views split: if_splits\<close>)

lemma get_or_create_views:
  "members_of (snd (get_or_create_room code rt)) c = members_of rt c"
  "tokens_of (snd (get_or_create_room code rt)) c = tokens_of rt c"
  "expiry_of (snd (get_or_create_room code rt)) c = expiry_of rt c"
  by (auto simp: get_or_create_room_def get_or_create_active_room_def room_views Let_def
      split: prod.split option.splits)

definition blocks_of :: "runtime_store \<Rightarrow> string \<Rightarrow> member_block list" where
  "blocks_of rt code = (case js_get (rt_blocked rt) code of None \<Rightarrow> [] | Some es \<Rightarrow> es)"

lemma prune_blocked_shape:
  obtains b where "prune_blocked_member_tokens t code rt
       = (filter_active_blocked_member_tokens (blocks_of rt code) t, rt\<lparr> rt_blocked := b \<rparr>)"
    and "blocks_of (rt\<lparr> rt_blocked := b \<rparr>) code
       = filter_active_blocked_member_tokens (blocks_of rt code) t"
proof -
  define es where "es = filter_active_blocked_member_tokens (blocks_of rt code) t"
  consider "es = []" | "es \<noteq> []" "length es \<noteq> length (blocks_of rt code)"
    | "es \<noteq> []" "length es = length (blocks_of rt code)" by blast
  then show thesis
  proof cases
    case 1
    then show ?thesis
      using that [of "js_delete code (rt_blocked rt)"]
      by (simp add: prune_blocked_member_tokens_def es_def blocks_of_def Let_def)
  next
    case 2
    then show ?thesis
      using that [of "js_set code es (rt_blocked rt)"]
      by (simp add: prune_blocked_member_tokens_def es_def blocks_of_def Let_def)
  next
    case 3
    have "es = blocks_of rt code"
      using 3(2) unfolding es_def filter_active_blocked_member_tokens_def
      by (metis length_filter_less less_irrefl filter_True)
    with 3 show ?thesis
      using that [of "rt_blocked rt"]
      by (simp add: prune_blocked_member_tokens_def es_def blocks_of_def Let_def)
  qed
qed

lemma evict_as_revoke:
  obtains b where "evict_member_token t code m tok u rt
     = revoke_member_token code m None (rt\<lparr> rt_blocked := b \<rparr>)"
proof -
  obtain b0 where "prune_blocked_member_tokens t code rt
       = (filter_active_blocked_member_tokens (blocks_of rt code) t, rt\<lparr> rt_blocked := b0 \<rparr>)"
    by (rule prune_blocked_shape)
  then show thesis using that by (simp add: evict_member_token_def Let_def)
qed

lemma blocked_frame [simp]:
  "expiry_ok (rt\<lparr> rt_blocked := b \<rparr>) = expiry_ok rt"
  by (rule views_cong) simp_all

lemma index_ok_mark_left:
  "index_ok (rt_room_sessions rt) \<Longrightarrow> index_ok (rt_room_sessions (mark_session_left_room i c rt))"
  by (simp add: mark_session_left_room_def put_session_def Let_def index_ok_remove split: option.split)

lemma index_ok_mark_joined:
  "index_ok (rt_room_sessions rt) \<Longrightarrow> index_ok (rt_room_sessions (mark_session_joined_room i c rt))"
  by (simp add: mark_session_joined_room_def put_session_def Let_def index_ok_join split: option.split)

text \<open>Operations that touch neither rooms nor clocks, and those that do not touch the index.\<close>

lemma session_op_frame:
  "rt_rooms (mark_session_left_room i c rt) = rt_rooms rt"
  "rt_expiry (mark_session_left_room i c rt) = rt_expiry rt"
  "rt_slots (mark_session_left_room i c rt) = rt_slots rt"
  "rt_locks (mark_session_left_room i c rt) = rt_locks rt"
  "rt_rooms (mark_session_joined_room i d rt) = rt_rooms rt"
  "rt_expiry (mark_session_joined_room i d rt) = rt_expiry rt"
  "rt_slots (mark_session_joined_room i d rt) = rt_slots rt"
  "rt_locks (mark_session_joined_room i d rt) = rt_locks rt"
  "rt_rooms (unregister_session i rt) = rt_rooms rt"
  "rt_expiry (unregister_session i rt) = rt_expiry rt"
  "rt_slots (unregister_session i rt) = rt_slots rt"
  "rt_locks (unregister_session i rt) = rt_locks rt"
  "rt_rooms (register_session i rt) = rt_rooms rt"
  "rt_expiry (register_session i rt) = rt_expiry rt"
  "rt_slots (register_session i rt) = rt_slots rt"
  "rt_locks (register_session i rt) = rt_locks rt"
  "rt_room_sessions (register_session i rt) = rt_room_sessions rt"
  by (simp_all add: mark_session_left_room_def mark_session_joined_room_def unregister_session_def
      register_session_def put_session_def Let_def split: option.split)

lemma runtime_ok_session_ops:
  assumes "runtime_ok rt"
  shows "runtime_ok (register_session i rt)" "runtime_ok (unregister_session i rt)"
    "runtime_ok (mark_session_joined_room i d rt)" "runtime_ok (mark_session_left_room i c rt)"
    "runtime_ok (put_session s rt)"
proof -
  have idx: "index_ok (rt_room_sessions rt)" and ex: "expiry_ok rt"
    using assms by (simp_all add: runtime_ok_def)
  have ex': "expiry_ok rt'" if "rt_rooms rt' = rt_rooms rt" "rt_expiry rt' = rt_expiry rt" for rt'
    using views_cong [OF that] ex by simp
  show "runtime_ok (register_session i rt)" "runtime_ok (mark_session_joined_room i d rt)"
    "runtime_ok (mark_session_left_room i c rt)" "runtime_ok (put_session s rt)"
    using assms idx
    by (simp_all add: runtime_ok_def session_op_frame ex' index_ok_mark_joined index_ok_mark_left
        put_session_def)
  have "index_ok (rt_room_sessions (unregister_session i rt))"
    using index_ok_detach [OF idx] by (simp add: unregister_session_def split: option.split)
  then show "runtime_ok (unregister_session i rt)"
    using assms by (simp add: runtime_ok_def session_op_frame ex')
qed

lemma runtime_ok_prune: "runtime_ok rt \<Longrightarrow> runtime_ok (prune_expired_member_tokens t code rt)"
  by (simp add: runtime_ok_def prune_expiry_ok prune_frame)

lemma runtime_ok_seat_ops:
  assumes "runtime_ok rt"
  shows "runtime_ok (snd (add_member t code m i tok rt))"
    "runtime_ok (snd (remove_member ret t code m j rt))"
    "runtime_ok (revoke_member_token code m j rt)"
    "runtime_ok (snd (get_or_create_room code rt))"
    "runtime_ok (snd (delete_runtime_room code x rt))"
    "runtime_ok (evict_member_token t code m tok u rt)"
proof -
  have ex: "expiry_ok rt" using assms by (simp add: runtime_ok_def)
  show "runtime_ok (snd (add_member t code m i tok rt))"
    "runtime_ok (snd (remove_member ret t code m j rt))"
    "runtime_ok (revoke_member_token code m j rt)"
    using assms
    by (simp_all add: runtime_ok_def add_expiry_ok remove_expiry_ok revoke_expiry_ok add_member_frame
        remove_member_frame revoke_frame)
  have "expiry_ok (snd (get_or_create_room code rt))"
    using ex expiry_ok_views [of "snd (get_or_create_room code rt)" rt]
    by (simp add: get_or_create_views fun_eq_iff)
  moreover have "rt_room_sessions (snd (get_or_create_room code rt)) = rt_room_sessions rt"
    "rt_slots (snd (get_or_create_room code rt)) = rt_slots rt"
    "rt_locks (snd (get_or_create_room code rt)) = rt_locks rt"
    by (simp_all add: get_or_create_room_def split: prod.split)
  ultimately show "runtime_ok (snd (get_or_create_room code rt))"
    using assms by (simp add: runtime_ok_def)
  show "runtime_ok (snd (delete_runtime_room code x rt))"
    using assms delete_expiry_ok [OF ex, of code x]
    by (auto simp: runtime_ok_def delete_runtime_room_def index_ok_delete)
  obtain b where b: "evict_member_token t code m tok u rt
     = revoke_member_token code m None (rt\<lparr> rt_blocked := b \<rparr>)" by (rule evict_as_revoke)
  show "runtime_ok (evict_member_token t code m tok u rt)"
    using assms unfolding b by (simp add: runtime_ok_def revoke_expiry_ok revoke_frame)
qed

lemma runtime_ok_lease_ops:
  assumes "runtime_ok rt"
  shows "runtime_ok (snd (claim_slot t code k tok e rt))" "runtime_ok (snd (release_slot code k tok rt))"
    "runtime_ok (snd (acquire_lock t code k tok e rt))" "runtime_ok (snd (release_lock code k tok rt))"
proof -
  have ex': "expiry_ok rt'" if "rt_rooms rt' = rt_rooms rt" "rt_expiry rt' = rt_expiry rt" for rt'
    using views_cong [OF that] assms by (simp add: runtime_ok_def)
  show "runtime_ok (snd (claim_slot t code k tok e rt))" "runtime_ok (snd (release_slot code k tok rt))"
    "runtime_ok (snd (acquire_lock t code k tok e rt))" "runtime_ok (snd (release_lock code k tok rt))"
    using assms
    by (simp_all add: runtime_ok_def claim_slot_def release_slot_def acquire_lock_def release_lock_def
        ex' slots.take_ok slots.give_ok locks.take_ok locks.give_ok)
qed

lemma runtime_ok_reads:
  assumes "runtime_ok rt"
  shows "runtime_ok (snd (get_runtime_room t code rt))"
    "runtime_ok (snd (find_member_id_by_token t code tok rt))"
    "runtime_ok (snd (has_room_residue t code rt))"
    "runtime_ok (snd (is_member_token_blocked t code tok rt))"
    "runtime_ok (record_event e t rt)" "runtime_ok (snd (get_recent_event_counts t rt))"
    "runtime_ok (snd (mark_room_generation code g x rt))"
    "runtime_ok (heartbeat_node n rt)" "runtime_ok (purge_node_status y rt)"
proof -
  have ex': "expiry_ok rt'" if "rt_rooms rt' = rt_rooms rt" "rt_expiry rt' = rt_expiry rt" for rt'
    using views_cong [OF that] assms by (simp add: runtime_ok_def)
  show "runtime_ok (snd (get_runtime_room t code rt))"
    "runtime_ok (snd (find_member_id_by_token t code tok rt))"
    "runtime_ok (snd (has_room_residue t code rt))"
    using runtime_ok_prune [OF assms]
    by (simp_all add: get_runtime_room_def find_member_id_by_token_def has_room_residue_def Let_def)
  obtain b where "prune_blocked_member_tokens t code rt
       = (filter_active_blocked_member_tokens (blocks_of rt code) t, rt\<lparr> rt_blocked := b \<rparr>)"
    by (rule prune_blocked_shape)
  then show "runtime_ok (snd (is_member_token_blocked t code tok rt))"
    using assms by (simp add: is_member_token_blocked_def runtime_ok_def)
  show "runtime_ok (record_event e t rt)" "runtime_ok (snd (get_recent_event_counts t rt))"
    "runtime_ok (snd (mark_room_generation code g x rt))"
    "runtime_ok (heartbeat_node n rt)" "runtime_ok (purge_node_status y rt)"
    using assms
    by (simp_all add: runtime_ok_def record_event_def get_recent_event_counts_def prune_events_def
        mark_room_generation_def heartbeat_node_def purge_node_status_def Let_def ex')
qed

lemma runtime_ok_step: "runtime_ok rt \<Longrightarrow> runtime_ok (runtime_step ret op rt)"
  by (cases op) (simp_all add: runtime_ok_session_ops runtime_ok_seat_ops runtime_ok_lease_ops
      runtime_ok_reads)

lemma runtime_ok_empty: "runtime_ok empty_runtime_store"
  by (simp add: runtime_ok_def empty_runtime_store_def expiry_ok_def index_ok_def lease_map_wf_def
      room_views)

lemma runtime_ok_run: "runtime_ok rt \<Longrightarrow> runtime_ok (fold (runtime_step ret) ops rt)"
  by (induction ops arbitrary: rt) (simp_all add: runtime_ok_step)

subsection \<open>Properties\<close>

text \<open>
  C25. Slots and locks exclude: once somebody has claimed a message slot or acquired a room's
  lock, then until the moment its time runs out nobody else obtains it, whatever claims and
  releases other owners make on any room and key in between.
\<close>

theorem leases_exclude:
  assumes "runtime_ok rt"
    and "\<forall>op \<in> set ops. case op of Take t _ _ _ _ \<Rightarrow> t < expires_at
           | Give r k tok \<Rightarrow> (r, k, tok) \<noteq> (code, key, token)"
  shows "(fst (claim_slot now code key token expires_at rt) \<longrightarrow>
      (\<forall>(op, granted) \<in> set (zip ops (fst (slots.run ops
           (rt_slots (snd (claim_slot now code key token expires_at rt)))))).
         \<forall>t tok e. op = Take t code key tok e \<longrightarrow> \<not> granted))
    \<and> (fst (acquire_lock now code key token expires_at rt) \<longrightarrow>
      (\<forall>(op, granted) \<in> set (zip ops (fst (locks.run ops
           (rt_locks (snd (acquire_lock now code key token expires_at rt)))))).
         \<forall>t tok e. op = Take t code key tok e \<longrightarrow> \<not> granted))"
proof -
  have ops: "\<forall>op \<in> set ops. slots.undisturbed code key token expires_at op"
    "\<forall>op \<in> set ops. locks.undisturbed code key token expires_at op"
    using assms(2) by (simp_all add: slots.undisturbed_def locks.undisturbed_def)
  have wf: "lease_map_wf (rt_slots rt)" "lease_map_wf (rt_locks rt)"
    using assms(1) by (simp_all add: runtime_ok_def)
  show ?thesis
    using slots.exclusive_after_take [OF wf(1) _ ops(1)] locks.exclusive_after_take [OF wf(2) _ ops(2)]
    by (simp add: claim_slot_def acquire_lock_def)
qed

theorem leases_exclude_witness:
  "fst (slots.run [Take 5 ''R'' ''k'' ''b'' 20, Give ''R'' ''k'' ''b'', Take 9 ''R'' ''k'' ''c'' 30]
      (rt_slots (snd (claim_slot 0 ''R'' ''k'' ''a'' 10 empty_runtime_store)))) = [False, False, False]"
proof -
  let ?ops = "[Take 5 ''R'' ''k'' ''b'' 20, Give ''R'' ''k'' ''b'', Take 9 ''R'' ''k'' ''c'' 30]"
  let ?run = "fst (slots.run ?ops (rt_slots (snd (claim_slot 0 ''R'' ''k'' ''a'' 10 empty_runtime_store))))"
  have claimed: "fst (claim_slot 0 ''R'' ''k'' ''a'' 10 empty_runtime_store)"
    by (simp add: claim_slot_def empty_runtime_store_def try_claim_message_slot_def leases_of_def
        live_leases_def)
  have refused: "\<forall>(op, granted) \<in> set (zip ?ops ?run). \<forall>t tok e. op = Take t ''R'' ''k'' tok e \<longrightarrow> \<not> granted"
    by (rule mp [OF conjunct1 [OF leases_exclude [OF runtime_ok_empty]] claimed]) simp
  then have "\<not> hd ?run" "\<not> last ?run"
    by (simp_all add: claim_slot_def empty_runtime_store_def try_claim_message_slot_def leases_of_def
        live_leases_def release_message_slot_def)
  then show ?thesis
    by (simp add: claim_slot_def empty_runtime_store_def try_claim_message_slot_def leases_of_def
        live_leases_def release_message_slot_def)
qed

text \<open>
  C37. Whatever operations run against a new store: every identity whose clock is running
  belongs to a member who holds its token and no seat in that room; every session is indexed
  under at most one room, once; and no room is indexed without a session.
\<close>

theorem runtime_invariant:
  "runtime_ok (fold (runtime_step retention) ops empty_runtime_store)"
  by (rule runtime_ok_run [OF runtime_ok_empty])

lemma find_token_entries:
  assumes "js_get ts m = Some tok" and "\<forall>m' tok'. (m', tok') \<in> set ts \<and> tok' = tok \<longrightarrow> m' = m"
  shows "find_member_id_by_token_entries (filter (\<lambda>(m, _). P m) ts) tok = (if P m then Some m else None)"
  using assms
proof (induction ts)
  case (Cons x ts)
  obtain a b where x: "x = (a, b)" by fastforce
  show ?case
  proof (cases "b = tok")
    case True
    then have "a = m" using Cons.prems(2) x by auto
    have rest: "\<not> P m \<Longrightarrow> find (\<lambda>(_, t). t = tok) (filter (\<lambda>(m, _). P m) ts) = None"
      using Cons.prems(2) by (auto simp: find_None_iff)
    show ?thesis
      using True \<open>a = m\<close> rest by (auto simp: x find_member_id_by_token_entries_def)
  next
    case False
    then have "a \<noteq> m" using Cons.prems(1) x by auto
    then have "find_member_id_by_token_entries (filter (\<lambda>(m, _). P m) ts) tok
        = (if P m then Some m else None)"
      using Cons.prems x by (intro Cons.IH) auto
    then show ?thesis
      using False by (cases "P a") (simp_all only: x find_member_id_by_token_entries_def
        filter.simps find.simps prod.case if_True if_False simp_thms)
  qed
qed simp

lemma find_member_by_views:
  "fst (find_member_id_by_token now code tok rt) =
     find_member_id_by_token_entries (tokens_of (prune_expired_member_tokens now code rt) code) tok"
  by (simp add: find_member_id_by_token_def tokens_of_def Let_def find_member_id_by_token_entries_def
      split: option.split)

text \<open>
  C36. A disconnect keeps the identity for exactly the retention period: after a seated
  member's session is removed, presenting the member's token names the same member id again
  until the period ends, and no member from then on.
\<close>

theorem identity_survives_disconnect:
  assumes ok: "runtime_ok rt"
    and seated: "js_get (members_of rt code) m = Some i"
    and token: "js_get (tokens_of rt code) m = Some tok"
    and own: "\<forall>(m', tok') \<in> set (tokens_of rt code). tok' = tok \<longrightarrow> m' = m"
  shows "fst (find_member_id_by_token t' code tok (snd (remove_member retention t code m (Some i) rt)))
    = (if t' < t + retention then Some m else None)"
proof -
  let ?p = "prune_expired_member_tokens t code rt"
  let ?r = "snd (remove_member retention t code m (Some i) rt)"
  define E where "E = (\<lambda>x. x \<notin> set (due_members t (expiry_of rt code)))"
  define F where "F = (\<lambda>x. x \<notin> set (due_members t' (expiry_of ?r code)))"
  have ex: "expiry_ok rt" and pex: "expiry_ok ?p"
    using ok prune_expiry_ok by (simp_all add: runtime_ok_def)
  have "js_get (expiry_of rt code) m = None"
    using expiry_okD(2) [OF ex, of code m] seated by (cases "js_get (expiry_of rt code) m") auto
  then have Em: "E m"
    using due_members_iff [OF expiry_okD(1) [OF ex]] by (simp add: E_def)
  have tp: "tokens_of ?p code = filter (\<lambda>(x, _). E x) (tokens_of rt code)"
    by (simp add: prune_views E_def)
  have clock: "expiry_of ?r code = js_set m (t + retention) (expiry_of ?p code)"
    using seated token Em by (simp add: remove_member_views seat_held_by_other_def tp)
  have Fm: "F m \<longleftrightarrow> t' < t + retention"
    using due_members_iff [of "expiry_of ?r code" m t'] expiry_okD(1) [OF pex, of code]
    unfolding F_def clock by (simp add: not_le)
  have both: "filter (\<lambda>(x, _). F x) (filter (\<lambda>(x, _). E x) ts) = filter (\<lambda>(x, _). E x \<and> F x) ts"
    for ts :: "(string, string) js_map"
    unfolding filter_filter by (rule filter_cong) auto
  have "tokens_of (prune_expired_member_tokens t' code ?r) code
      = filter (\<lambda>(x, _). F x) (tokens_of ?r code)"
    by (simp add: prune_views(2) [of t' code ?r] F_def)
  then have "tokens_of (prune_expired_member_tokens t' code ?r) code
      = filter (\<lambda>(x, _). E x \<and> F x) (tokens_of rt code)"
    by (simp only: remove_member_views(2) tp both)
  moreover have "\<forall>m' tok'. (m', tok') \<in> set (tokens_of rt code) \<and> tok' = tok \<longrightarrow> m' = m"
    using own by blast
  ultimately show ?thesis
    using find_token_entries [OF token, of "\<lambda>x. E x \<and> F x"] Em Fm
    by (simp add: find_member_by_views)
qed

definition one_seat_store :: runtime_store where
  "one_seat_store = snd (add_member 0 ''R'' ''alice'' ''s1'' ''tok'' empty_runtime_store)"

theorem identity_survives_disconnect_witness:
  "fst (find_member_id_by_token 100 ''R'' ''tok''
      (snd (remove_member default_member_token_retention_ms 50 ''R'' ''alice'' (Some ''s1'') one_seat_store)))
    = Some ''alice''"
proof -
  have ok: "runtime_ok one_seat_store"
    unfolding one_seat_store_def by (rule runtime_ok_seat_ops(1) [OF runtime_ok_empty])
  have seats: "js_get (members_of one_seat_store ''R'') ''alice'' = Some ''s1''"
    "js_get (tokens_of one_seat_store ''R'') ''alice'' = Some ''tok''"
    "\<forall>(m', tok') \<in> set (tokens_of one_seat_store ''R''). tok' = ''tok'' \<longrightarrow> m' = ''alice''"
    by code_simp+
  show ?thesis
    using identity_survives_disconnect [OF ok seats, of 100 default_member_token_retention_ms 50]
    by (simp add: default_member_token_retention_ms_def)
qed

text \<open>
  A session that has been replaced is powerless: while another session holds the seat,
  neither its removal nor its revocation changes who is seated, whose token is valid, or
  whose clock runs - apart from identities that had run out anyway.
\<close>

theorem replaced_session_is_powerless:
  assumes "js_get (members_of rt code) m = Some j" and "j \<noteq> i"
  shows "members_of (snd (remove_member retention t code m (Some i) rt)) = members_of rt
    \<and> tokens_of (snd (remove_member retention t code m (Some i) rt))
        = tokens_of (prune_expired_member_tokens t code rt)
    \<and> expiry_of (snd (remove_member retention t code m (Some i) rt))
        = expiry_of (prune_expired_member_tokens t code rt)
    \<and> members_of (revoke_member_token code m (Some i) rt) = members_of rt
    \<and> tokens_of (revoke_member_token code m (Some i) rt) = tokens_of rt
    \<and> expiry_of (revoke_member_token code m (Some i) rt) = expiry_of rt"
  using assms
  by (auto simp: fun_eq_iff remove_member_views revoke_member_token_views seat_held_by_other_def)

theorem replaced_session_is_powerless_witness:
  "members_of (snd (remove_member 1000 5 ''R'' ''alice'' (Some ''s0'') one_seat_store)) = members_of one_seat_store"
proof -
  have seat: "js_get (members_of one_seat_store ''R'') ''alice'' = Some ''s1''" by code_simp
  show ?thesis
    using replaced_session_is_powerless [OF seat, of "''s0''" 1000 5] by simp
qed

lemma get_session_frame:
  "rt_heap rt' = rt_heap rt \<Longrightarrow> rt_registered rt' = rt_registered rt \<Longrightarrow> get_session rt' = get_session rt"
  by (simp add: get_session_def session_object_def fun_eq_iff)

lemma delete_runtime_room_frame:
  "c \<noteq> code \<Longrightarrow> list_sessions_by_room (snd (delete_runtime_room code x rt)) c = list_sessions_by_room rt c"
proof -
  have "get_session (snd (delete_runtime_room code x rt)) = get_session rt"
    by (rule get_session_frame) (simp_all add: delete_runtime_room_def)
  moreover have "js_get (rt_room_sessions (snd (delete_runtime_room code x rt))) c = js_get (rt_room_sessions rt) c"
    if "c \<noteq> code"
    using that by (simp add: delete_runtime_room_def)
  ultimately show "c \<noteq> code \<Longrightarrow> list_sessions_by_room (snd (delete_runtime_room code x rt)) c = list_sessions_by_room rt c"
    by (simp add: list_sessions_by_room_def split: option.split)
qed

lemma delete_runtime_room_residue:
  "get_room_generation rt code = x \<Longrightarrow>
     \<not> fst (has_room_residue now code (snd (delete_runtime_room code x rt)))"
  by (simp add: delete_runtime_room_def has_room_residue_def prune_expired_member_tokens_def Let_def)

text \<open>
  A teardown removes everything its room instance left and nothing else: under the
  expected generation no state of the code remains - seats, identities, blocks, slots, locks,
  index, generation - while every other code keeps its own; under any other generation the
  store does not change at all.
\<close>

theorem teardown_is_generation_exact:
  "(get_room_generation rt code = expected \<longrightarrow>
      fst (delete_runtime_room code expected rt)
    \<and> \<not> fst (has_room_residue now code (snd (delete_runtime_room code expected rt)))
    \<and> get_room_generation (snd (delete_runtime_room code expected rt)) code = None
    \<and> js_get (rt_locks (snd (delete_runtime_room code expected rt))) code = None
    \<and> (\<forall>c. c \<noteq> code \<longrightarrow>
          members_of (snd (delete_runtime_room code expected rt)) c = members_of rt c
        \<and> tokens_of (snd (delete_runtime_room code expected rt)) c = tokens_of rt c
        \<and> expiry_of (snd (delete_runtime_room code expected rt)) c = expiry_of rt c
        \<and> blocks_of (snd (delete_runtime_room code expected rt)) c = blocks_of rt c
        \<and> list_sessions_by_room (snd (delete_runtime_room code expected rt)) c = list_sessions_by_room rt c
        \<and> get_room_generation (snd (delete_runtime_room code expected rt)) c = get_room_generation rt c))
   \<and> (get_room_generation rt code \<noteq> expected \<longrightarrow> delete_runtime_room code expected rt = (False, rt))"
  using delete_runtime_room_frame [of _ code expected rt] delete_runtime_room_residue [of rt code expected now]
  by (simp add: delete_views) (simp add: delete_runtime_room_def get_room_generation_def blocks_of_def)

theorem teardown_is_generation_exact_witness:
  "\<not> fst (has_room_residue 9 ''R'' (snd (delete_runtime_room ''R'' None one_seat_store)))
   \<and> delete_runtime_room ''R'' (Some ''g'') one_seat_store = (False, one_seat_store)"
proof -
  have gen: "get_room_generation one_seat_store ''R'' = None" by code_simp
  show ?thesis
    using teardown_is_generation_exact [of one_seat_store "''R''" None 9]
      teardown_is_generation_exact [of one_seat_store "''R''" "Some ''g''" 9] gen by simp
qed

lemma evict_blocks:
  assumes "t \<le> t'" and "t' < u"
  shows "fst (is_member_token_blocked t' code tok (evict_member_token t code m tok u rt))"
proof -
  obtain b where prune: "prune_blocked_member_tokens t code rt
       = (filter_active_blocked_member_tokens (blocks_of rt code) t, rt\<lparr> rt_blocked := b \<rparr>)"
    by (rule prune_blocked_shape)
  define active where "active = filter_active_blocked_member_tokens (blocks_of rt code) t"
  obtain es where es: "evict_member_token t code m tok u rt
      = revoke_member_token code m None (rt\<lparr> rt_blocked := js_set code es b \<rparr>)"
    and e: "\<exists>e \<in> set es. mb_token e = tok \<and> u \<le> mb_expires_at e"
  proof (cases "List.extract (\<lambda>e. mb_token e = tok) active")
    case None
    then show ?thesis
      using that [of "active @ [\<lparr> mb_token = tok, mb_expires_at = u \<rparr>]"]
      by (simp add: evict_member_token_def prune active_def [symmetric] Let_def)
  next
    case (Some x)
    obtain xs y ys where x: "x = (xs, y, ys)" by (cases x) auto
    have "mb_token y = tok" using Some x by (simp add: extract_Some_iff)
    then show ?thesis
      using that [of "xs @ [y\<lparr> mb_expires_at := max (mb_expires_at y) u \<rparr>] @ ys"] Some x
      by (simp add: evict_member_token_def prune active_def [symmetric] Let_def)
  qed
  have blocks: "blocks_of (evict_member_token t code m tok u rt) code = es"
    by (simp add: es blocks_of_def revoke_frame)
  obtain b' where "prune_blocked_member_tokens t' code (evict_member_token t code m tok u rt)
     = (filter_active_blocked_member_tokens es t', (evict_member_token t code m tok u rt)\<lparr> rt_blocked := b' \<rparr>)"
    using prune_blocked_shape [of t' code "evict_member_token t code m tok u rt"] unfolding blocks by metis
  then show ?thesis
    using e assms(2)
    by (auto simp: is_member_token_blocked_def filter_active_blocked_member_tokens_def list_ex_iff)
qed

text \<open>
  A kick takes effect at once and for its whole time: the member's token is refused until
  the moment the block ends (never earlier, even if an older block was due to end sooner), it
  no longer names the member, and other members' identities stay.
\<close>

theorem kick_is_effective:
  assumes "t \<le> t'" and "t' < blocked_until"
  shows "fst (is_member_token_blocked t' code tok (evict_member_token t code m tok blocked_until rt))
    \<and> js_get (tokens_of (evict_member_token t code m tok blocked_until rt) code) m = None
    \<and> (\<forall>m'. m' \<noteq> m \<longrightarrow>
         js_get (tokens_of (evict_member_token t code m tok blocked_until rt) code) m'
           = js_get (tokens_of rt code) m')
    \<and> members_of (evict_member_token t code m tok blocked_until rt) = members_of rt"
proof -
  obtain b where b: "evict_member_token t code m tok blocked_until rt
     = revoke_member_token code m None (rt\<lparr> rt_blocked := b \<rparr>)" by (rule evict_as_revoke)
  have views: "members_of (rt\<lparr> rt_blocked := b \<rparr>) = members_of rt"
    "tokens_of (rt\<lparr> rt_blocked := b \<rparr>) = tokens_of rt"
    by (simp_all add: room_views fun_eq_iff)
  show ?thesis
    using evict_blocks [OF assms, of code tok m rt] unfolding b
    by (simp add: revoke_member_token_views seat_held_by_other_def views fun_eq_iff)
qed

theorem kick_is_effective_witness:
  "fst (is_member_token_blocked 30 ''R'' ''tok'' (evict_member_token 10 ''R'' ''alice'' ''tok'' 40 one_seat_store))
   \<and> js_get (tokens_of (evict_member_token 10 ''R'' ''alice'' ''tok'' 40 one_seat_store) ''R'') ''alice'' = None"
  using kick_is_effective [of 10 30 40 "''R''" "''tok''" "''alice''" one_seat_store] by simp

end
