(* ===== verification/Request_Effects.thy ===== *)
theory Request_Effects
  imports Runtime_Store Playback_Authority
begin

text \<open>
  What a request of \<open>server/src/room-service.ts\<close> runs in: the state it shares with every other
  request of the process, the errors it can end with, and its suspension points.

  A request is a function from the world to a result and a new world. Between two \<open>await\<close>s it
  runs alone; at every awaited call other requests, other nodes and the clock may act, before
  the call takes effect and again before the request resumes. \<open>w_sched\<close> says what they do
  there, one list of events per suspension point, and \<open>w_faults\<close> which awaited calls are
  rejected, so that a statement about all worlds is a statement about all interleavings and
  all failures. A rejected call has no effect of its own; a command that times out and lands
  later is an event of the schedule. \<open>w_trace\<close> records the writes the request itself issued
  and exists only to be spoken about.
\<close>

datatype service_reason =
    Reason_Room_Not_Found | Reason_Join_Token_Invalid | Reason_Member_Token_Invalid
  | Reason_Not_In_Room | Reason_Room_Full | Reason_Invalid_Message
  | Reason_Room_Resolution_Unconfirmed | Reason_Internal_Error

text \<open>
  \<open>Service\<close> is \<open>RoomServiceError\<close>, \<open>Unavailable\<close> is \<open>RedisStoreUnavailableError\<close> with whether
  admission refused the command, \<open>Other_Error\<close> any other rejection.
\<close>

datatype failure = Service error_code service_reason | Unavailable bool | Other_Error

datatype issued =
    Issue_Create rat create_room_input bool
  | Issue_Update rat string room_guard room_patch bool
  | Issue_Expire rat string delete_outcome
  | Issue_Sweep rat "string list"
  | Issue_Teardown string "string option" bool

datatype env_event =
    Env_Store store_op
  | Env_Runtime runtime_op
  | Env_Clock rat
  | Env_Close
  | Env_Authority string playback_authority

record world =
  w_now :: rat
  w_fresh :: nat
  w_rooms :: room_store
  w_runtime :: runtime_store
  w_authority :: "(string, playback_authority) js_map"
  w_last_sweep :: rat
  w_closing :: bool
  w_debts :: "(string, nat) js_map"
  w_expired_deleted :: nat
  w_closed_sockets :: "string list"
  w_faults :: "failure option list"
  w_sched :: "env_event list list"
  w_trace :: "issued list"

record service_options =
  so_config :: security_config
  so_empty_room_ttl_ms :: rat
  so_retention_ms :: rat
  so_code :: "nat \<Rightarrow> string"
  so_token :: "nat \<Rightarrow> string"
  so_uuid :: "nat \<Rightarrow> string"
  so_url_parser :: url_parser
  so_number_string :: "rat \<Rightarrow> string"

type_synonym ('s, 'a) action = "'s \<Rightarrow> (failure + 'a) \<times> 's"
type_synonym 'a io = "(world, 'a) action"

subsection \<open>Sequencing\<close>

text \<open>The state is left open: the message handler sequences its own, larger state the same way.\<close>

definition returnE :: "'a \<Rightarrow> ('s, 'a) action" where "returnE x = (\<lambda>w. (Inr x, w))"
definition raiseE :: "failure \<Rightarrow> ('s, 'a) action" where "raiseE e = (\<lambda>w. (Inl e, w))"

definition bindE :: "('s, 'a) action \<Rightarrow> ('a \<Rightarrow> ('s, 'b) action) \<Rightarrow> ('s, 'b) action" where
  "bindE m k = (\<lambda>w. case m w of (Inl e, w') \<Rightarrow> (Inl e, w') | (Inr x, w') \<Rightarrow> k x w')"

text \<open>\<open>try\<close> with a handler for the rejection, and with a continuation for the normal end.\<close>

definition tryE ::
    "('s, 'a) action \<Rightarrow> (failure \<Rightarrow> ('s, 'b) action) \<Rightarrow> ('a \<Rightarrow> ('s, 'b) action) \<Rightarrow> ('s, 'b) action" where
  "tryE m h k = (\<lambda>w. case m w of (Inl e, w') \<Rightarrow> h e w' | (Inr x, w') \<Rightarrow> k x w')"

definition finallyE :: "('s, 'a) action \<Rightarrow> ('s, unit) action \<Rightarrow> ('s, 'a) action" where
  "finallyE m c = (\<lambda>w. case m w of (r, w') \<Rightarrow>
     (case c w' of (Inl e, w'') \<Rightarrow> (Inl e, w'') | (Inr _, w'') \<Rightarrow> (r, w'')))"

definition getE :: "('s \<Rightarrow> 'a) \<Rightarrow> ('s, 'a) action" where "getE f = (\<lambda>w. (Inr (f w), w))"
definition putE :: "('s \<Rightarrow> 's) \<Rightarrow> ('s, unit) action" where "putE f = (\<lambda>w. (Inr (), f w))"

text \<open>A synchronous operation: it answers and changes the world, and nobody else acts.\<close>

definition syncE :: "('s \<Rightarrow> 'a \<times> 's) \<Rightarrow> ('s, 'a) action" where
  "syncE f = (\<lambda>w. case f w of (x, w') \<Rightarrow> (Inr x, w'))"

subsection \<open>The environment\<close>

definition env_retention_ms :: rat where "env_retention_ms = default_member_token_retention_ms"

fun env_step :: "env_event \<Rightarrow> world \<Rightarrow> world" where
  "env_step (Env_Store op) w = w\<lparr> w_rooms := store_step op (w_rooms w) \<rparr>"
| "env_step (Env_Runtime op) w = w\<lparr> w_runtime := runtime_step env_retention_ms op (w_runtime w) \<rparr>"
| "env_step (Env_Clock t) w = w\<lparr> w_now := max (w_now w) t \<rparr>"
| "env_step Env_Close w = w\<lparr> w_closing := True \<rparr>"
| "env_step (Env_Authority code a) w = w\<lparr> w_authority := js_set code a (w_authority w) \<rparr>"

definition interfere :: "world \<Rightarrow> world" where
  "interfere w = (case w_sched w of [] \<Rightarrow> w | evs # rest \<Rightarrow> fold env_step evs (w\<lparr> w_sched := rest \<rparr>))"

text \<open>An awaited call.\<close>

definition callE :: "(world \<Rightarrow> 'a \<times> world) \<Rightarrow> 'a io" where
  "callE f = (\<lambda>w.
     let w1 = interfere w
     in case w_faults w1 of
          Some e # rest \<Rightarrow> (Inl e, interfere (w1\<lparr> w_faults := rest \<rparr>))
        | None # rest \<Rightarrow> (case f (w1\<lparr> w_faults := rest \<rparr>) of (x, w2) \<Rightarrow> (Inr x, interfere w2))
        | [] \<Rightarrow> (case f w1 of (x, w2) \<Rightarrow> (Inr x, interfere w2)))"

definition issue :: "issued \<Rightarrow> world \<Rightarrow> world" where
  "issue e w = w\<lparr> w_trace := w_trace w @ [e] \<rparr>"

subsection \<open>The calls a request makes\<close>

definition read_room :: "string \<Rightarrow> persisted_room option io" where
  "read_room code = callE (\<lambda>w. (get_room (w_rooms w) code, w))"

fun update_succeeded :: "update_result \<Rightarrow> bool" where
  "update_succeeded (Updated _) = True"
| "update_succeeded _ = False"

definition write_room :: "string \<Rightarrow> room_guard \<Rightarrow> room_patch \<Rightarrow> update_result io" where
  "write_room code g p = callE (\<lambda>w.
     case update_room (w_now w) code g p (w_rooms w) of
       (r, st) \<Rightarrow> (r, issue (Issue_Update (w_now w) code g p (update_succeeded r)) (w\<lparr> w_rooms := st \<rparr>)))"

text \<open>The store throws when the code is taken.\<close>

definition make_room :: "create_room_input \<Rightarrow> persisted_room io" where
  "make_room input =
     bindE (callE (\<lambda>w. case create_room input (w_rooms w) of
         (r, st) \<Rightarrow> (r, issue (Issue_Create (w_now w) input (r \<noteq> None)) (w\<lparr> w_rooms := st \<rparr>))))
       (\<lambda>r. case r of None \<Rightarrow> raiseE Other_Error | Some room \<Rightarrow> returnE room)"

definition expire_room :: "string \<Rightarrow> rat \<Rightarrow> delete_outcome io" where
  "expire_room code now = callE (\<lambda>w.
     case delete_expired_room code now (w_rooms w) of
       (r, st) \<Rightarrow> (r, issue (Issue_Expire now code r) (w\<lparr> w_rooms := st \<rparr>)))"

definition sweep_rooms :: "rat \<Rightarrow> string list io" where
  "sweep_rooms now = callE (\<lambda>w.
     case delete_expired_rooms now (w_rooms w) of
       (codes, st) \<Rightarrow> (codes, issue (Issue_Sweep now codes) (w\<lparr> w_rooms := st \<rparr>)))"

definition runtime_call :: "(rat \<Rightarrow> runtime_store \<Rightarrow> 'a \<times> runtime_store) \<Rightarrow> 'a io" where
  "runtime_call f = callE (\<lambda>w. case f (w_now w) (w_runtime w) of (x, rt) \<Rightarrow> (x, w\<lparr> w_runtime := rt \<rparr>))"

definition runtime_sync :: "(rat \<Rightarrow> runtime_store \<Rightarrow> 'a \<times> runtime_store) \<Rightarrow> 'a io" where
  "runtime_sync f = syncE (\<lambda>w. case f (w_now w) (w_runtime w) of (x, rt) \<Rightarrow> (x, w\<lparr> w_runtime := rt \<rparr>))"

definition teardown_room :: "string \<Rightarrow> string option \<Rightarrow> bool io" where
  "teardown_room code gen = callE (\<lambda>w.
     case delete_runtime_room code gen (w_runtime w) of
       (r, rt) \<Rightarrow> (r, issue (Issue_Teardown code gen r) (w\<lparr> w_runtime := rt \<rparr>)))"

definition flush_runtime :: "unit io" where
  "flush_runtime = callE (\<lambda>w. ((), w))"

definition the_session :: "string \<Rightarrow> world \<Rightarrow> session" where
  "the_session sid w = session_object (w_runtime w) sid"

definition update_session :: "string \<Rightarrow> (session \<Rightarrow> session) \<Rightarrow> unit io" where
  "update_session sid f = putE (\<lambda>w. w\<lparr> w_runtime :=
     (w_runtime w)\<lparr> rt_heap := js_set sid (f (the_session sid w)) (rt_heap (w_runtime w)) \<rparr> \<rparr>)"

definition next_token :: "service_options \<Rightarrow> string io" where
  "next_token opt = syncE (\<lambda>w. (so_token opt (w_fresh w), w\<lparr> w_fresh := w_fresh w + 1 \<rparr>))"

definition next_uuid :: "service_options \<Rightarrow> string io" where
  "next_uuid opt = syncE (\<lambda>w. (so_uuid opt (w_fresh w), w\<lparr> w_fresh := w_fresh w + 1 \<rparr>))"

definition next_code :: "service_options \<Rightarrow> string io" where
  "next_code opt = syncE (\<lambda>w. (so_code opt (w_fresh w), w\<lparr> w_fresh := w_fresh w + 1 \<rparr>))"

definition clock :: "rat io" where "clock = getE w_now"

text \<open>
  A wait that the request bounds: when the bound wins, the request fails with the given error
  and whatever the awaited effect still does is up to the schedule.
\<close>

definition bounded_wait :: "failure \<Rightarrow> 'a io \<Rightarrow> 'a io" where
  "bounded_wait e m = tryE (callE (\<lambda>w. ((), w))) (\<lambda>_. raiseE e) (\<lambda>_. m)"

end
