(* ===== verification/Room_Service.thy ===== *)
theory Room_Service
  imports Request_Effects
begin

text \<open>
  \<open>server/src/room-service.ts\<close>: creating, joining and leaving rooms, sharing a video, reporting
  playback, and the collection of expired rooms. Every function of the source is one
  definition, in the source's order, with its awaited calls, its compensations and its errors.

  Logging and the wording of messages are left out. The confirmation pacers appear as
  \<open>bounded_wait\<close>. A request is identified with the session it acts for, \<open>sid\<close>.
\<close>

definition playback_authority_window_ms :: rat where "playback_authority_window_ms = 1200"
definition playback_authority_sweep_interval_ms :: rat where
  "playback_authority_sweep_interval_ms = 60000"
definition max_version_retries :: nat where "max_version_retries = 3"
definition room_rollback_max_attempts :: nat where "room_rollback_max_attempts = 3"
definition room_last_active_write_interval_ms :: rat where
  "room_last_active_write_interval_ms = 30000"
definition join_admission_lock_key :: string where "join_admission_lock_key = ''join-admission''"
definition join_admission_lock_ttl_ms :: rat where "join_admission_lock_ttl_ms = 30000"
definition join_admission_lock_max_wait_ms :: rat where "join_admission_lock_max_wait_ms = 5000"
definition join_admission_lock_retry_interval_ms :: rat where
  "join_admission_lock_retry_interval_ms = 25"

datatype leave_reason = Client_Request | Disconnect

definition internal_error :: failure where
  "internal_error = Service Internal_Error Reason_Internal_Error"

definition resolution_unconfirmed :: failure where
  "resolution_unconfirmed = Service Internal_Error Reason_Room_Resolution_Unconfirmed"

subsection \<open>Session fields\<close>

definition set_session_display_name :: "string \<Rightarrow> string option \<Rightarrow> bool io" where
  "set_session_display_name sid display_name =
     bindE (getE (the_session sid)) (\<lambda>session.
       let next_name = map_option js_trim display_name
       in if \<not> truthy next_name \<or> next_name = Some (s_display_name session) then returnE False
          else bindE (update_session sid (\<lambda>s. s\<lparr> s_display_name := the next_name \<rparr>)) (\<lambda>_.
               bindE (runtime_sync (\<lambda>_ rt. ((), register_session sid rt))) (\<lambda>_. returnE True)))"

definition clear_session_room :: "string \<Rightarrow> unit io" where
  "clear_session_room sid = update_session sid
     (\<lambda>s. s\<lparr> s_room_code := None, s_member_id := None, s_member_token := None, s_joined_at := None \<rparr>)"

record joined_session_snapshot =
  sn_room_code :: string
  sn_member_id :: string
  sn_member_token :: string
  sn_joined_at :: "rat option"

definition snapshot_joined_session :: "session \<Rightarrow> joined_session_snapshot option" where
  "snapshot_joined_session s =
     (if \<not> truthy (s_room_code s) \<or> \<not> truthy (s_member_id s) \<or> \<not> truthy (s_member_token s) then None
      else Some \<lparr> sn_room_code = the (s_room_code s), sn_member_id = the (s_member_id s),
                  sn_member_token = the (s_member_token s), sn_joined_at = s_joined_at s \<rparr>)"

definition restore_joined_session :: "string \<Rightarrow> joined_session_snapshot \<Rightarrow> unit io" where
  "restore_joined_session sid sn = update_session sid
     (\<lambda>s. s\<lparr> s_room_code := Some (sn_room_code sn), s_member_id := Some (sn_member_id sn),
            s_member_token := Some (sn_member_token sn), s_joined_at := sn_joined_at sn \<rparr>)"

definition add_member_now :: "string \<Rightarrow> string \<Rightarrow> string \<Rightarrow> string \<Rightarrow> unit io" where
  "add_member_now code member_id sid token =
     runtime_sync (\<lambda>now rt. ((), snd (add_member now code member_id sid token rt)))"

definition remove_member_now :: "service_options \<Rightarrow> string \<Rightarrow> string \<Rightarrow> string \<Rightarrow> member_removal io" where
  "remove_member_now opt code member_id sid =
     runtime_sync (\<lambda>now rt. remove_member (so_retention_ms opt) now code member_id (Some sid) rt)"

definition flush_quietly :: "unit io" where
  "flush_quietly = tryE flush_runtime (\<lambda>_. returnE ()) returnE"

definition restore_leave_state :: "string \<Rightarrow> joined_session_snapshot option \<Rightarrow> unit io" where
  "restore_leave_state sid snapshot =
     (case snapshot of
        None \<Rightarrow> returnE ()
      | Some sn \<Rightarrow>
          bindE (add_member_now (sn_room_code sn) (sn_member_id sn) sid (sn_member_token sn)) (\<lambda>_.
          bindE (restore_joined_session sid sn) (\<lambda>_. flush_quietly)))"

definition release_message_slot_best_effort :: "string \<Rightarrow> string \<Rightarrow> string \<Rightarrow> unit io" where
  "release_message_slot_best_effort code key token =
     tryE (runtime_call (\<lambda>_ rt. release_slot code key token rt)) (\<lambda>_. returnE ()) (\<lambda>_. returnE ())"

subsection \<open>The join lock\<close>

record join_admission_lock =
  jl_token :: string
  jl_expires_at :: rat

text \<open>
  The loop sleeps for the retry interval between attempts, and the clock does not run slower
  than that. Each turn moves the clock on by at least 25 ms of the 5000 ms it may wait, so the
  fuel of 201 turns is never used up; see \<open>lock_fuel_suffices\<close>.
\<close>

definition lock_turns :: nat where "lock_turns = 201"

definition sleep :: "rat \<Rightarrow> unit io" where
  "sleep ms = bindE (putE (\<lambda>w. w\<lparr> w_now := w_now w + ms \<rparr>)) (\<lambda>_. putE interfere)"

fun acquire_lock_loop ::
    "nat \<Rightarrow> service_options \<Rightarrow> string \<Rightarrow> rat \<Rightarrow> (bool \<times> join_admission_lock option) io" where
  "acquire_lock_loop 0 opt code deadline = returnE (False, None)"
| "acquire_lock_loop (Suc n) opt code deadline =
     bindE clock (\<lambda>now.
     bindE (next_uuid opt) (\<lambda>token.
     let expires_at = now + join_admission_lock_ttl_ms in
     bindE (runtime_call (\<lambda>t rt. acquire_lock t code join_admission_lock_key token expires_at rt))
       (\<lambda>got.
        if got then returnE (True, Some \<lparr> jl_token = token, jl_expires_at = expires_at \<rparr>)
        else bindE clock (\<lambda>now'.
             if deadline \<le> now' then returnE (True, None)
             else bindE (sleep join_admission_lock_retry_interval_ms) (\<lambda>_.
                  acquire_lock_loop n opt code deadline)))))"

definition acquire_distributed_join_lock ::
    "service_options \<Rightarrow> string \<Rightarrow> join_admission_lock option io" where
  "acquire_distributed_join_lock opt code =
     bindE clock (\<lambda>now.
     bindE (acquire_lock_loop lock_turns opt code (now + join_admission_lock_max_wait_ms)) (\<lambda>r.
     returnE (snd r)))"

definition assert_active :: "join_admission_lock \<Rightarrow> unit io" where
  "assert_active lock =
     bindE clock (\<lambda>now. if jl_expires_at lock \<le> now then raiseE internal_error else returnE ())"

definition release_join_lock :: "string \<Rightarrow> join_admission_lock \<Rightarrow> unit io" where
  "release_join_lock code lock =
     bindE clock (\<lambda>now.
       if now < jl_expires_at lock
       then tryE (runtime_call (\<lambda>_ rt. release_lock code join_admission_lock_key (jl_token lock) rt))
              (\<lambda>_. returnE ()) (\<lambda>_. returnE ())
       else returnE ())"

text \<open>
  The promise chain that queues the joins of one process only delays the request; it is the
  suspension point in front of the distributed lock.
\<close>

definition with_room_join_lock ::
    "service_options \<Rightarrow> string \<Rightarrow> (join_admission_lock \<Rightarrow> 'a io) \<Rightarrow> 'a io" where
  "with_room_join_lock opt code action =
     bindE (putE interfere) (\<lambda>_.
     bindE (acquire_distributed_join_lock opt code) (\<lambda>lock.
       case lock of
         None \<Rightarrow> raiseE internal_error
       | Some l \<Rightarrow> finallyE (action l) (release_join_lock code l)))"

subsection \<open>Collecting deleted rooms\<close>

text \<open>
  The ledger of unfinished teardowns maps a code to the identity of the debt. An effect that
  this request starts takes the debt over under a new identity.
\<close>

definition remember_runtime_teardown_debt :: "string \<Rightarrow> unit io" where
  "remember_runtime_teardown_debt code = putE (\<lambda>w.
     if js_has (w_debts w) code then w
     else w\<lparr> w_debts := js_set code (w_fresh w) (w_debts w), w_fresh := w_fresh w + 1 \<rparr>)"

definition take_over_debt :: "string \<Rightarrow> nat io" where
  "take_over_debt code = syncE (\<lambda>w. (w_fresh w,
     w\<lparr> w_debts := js_set code (w_fresh w) (w_debts w), w_fresh := w_fresh w + 1 \<rparr>))"

definition settle_debt :: "string \<Rightarrow> nat \<Rightarrow> bool \<Rightarrow> unit io" where
  "settle_debt code debt applied = putE (\<lambda>w.
     if js_get (w_debts w) code = Some debt \<and> applied then w\<lparr> w_debts := js_delete code (w_debts w) \<rparr>
     else w)"

definition run_teardown_effect :: "string \<Rightarrow> string option \<Rightarrow> bool io" where
  "run_teardown_effect code generation =
     bindE (take_over_debt code) (\<lambda>debt.
     tryE (teardown_room code generation)
       (\<lambda>_. returnE False)
       (\<lambda>applied. bindE (settle_debt code debt applied) (\<lambda>_. returnE True)))"

text \<open>Whether the code is settled. The generation is read before and after the room.\<close>

definition collect_one :: "string \<Rightarrow> nat option \<Rightarrow> bool io" where
  "collect_one code expected_debt =
     (let give_up = (\<lambda>_. bindE (remember_runtime_teardown_debt code) (\<lambda>_. returnE False));
          read_generation = runtime_call (\<lambda>_ rt. (get_room_generation rt code, rt))
      in tryE read_generation give_up (\<lambda>expected_generation.
         tryE (read_room code) give_up (\<lambda>current_room.
           if current_room \<noteq> None
           then bindE (putE (\<lambda>w. w\<lparr> w_debts := js_delete code (w_debts w) \<rparr>)) (\<lambda>_. returnE True)
           else
             tryE read_generation give_up (\<lambda>confirmed_generation.
               if confirmed_generation \<noteq> expected_generation then returnE False
               else bindE (getE (\<lambda>w. js_get (w_debts w) code)) (\<lambda>debt.
                    if expected_debt \<noteq> None \<and> debt \<noteq> expected_debt then returnE False
                    else run_teardown_effect code expected_generation)))))"

fun collect_all :: "(string \<times> nat option) list \<Rightarrow> string list io" where
  "collect_all [] = returnE []"
| "collect_all ((code, debt) # rest) =
     bindE (collect_one code debt) (\<lambda>settled.
     bindE (collect_all rest) (\<lambda>codes. returnE (if settled then code # codes else codes)))"

definition collect_runtime_state_for_deleted_rooms ::
    "(string, nat) js_map \<Rightarrow> string list \<Rightarrow> string list io" where
  "collect_runtime_state_for_deleted_rooms pending fresh =
     collect_all (fold (\<lambda>code m. js_set code None m) fresh
       (map (\<lambda>(code, debt). (code, Some debt)) pending))"

definition collect_expired_room :: "string \<Rightarrow> delete_outcome io" where
  "collect_expired_room code =
     bindE clock (\<lambda>now.
     bindE (expire_room code now) (\<lambda>outcome.
       if outcome = Superseded then returnE outcome
       else bindE (putE (\<lambda>w. if outcome = Deleted
              then w\<lparr> w_expired_deleted := w_expired_deleted w + 1 \<rparr> else w)) (\<lambda>_.
            bindE (collect_runtime_state_for_deleted_rooms [] [code]) (\<lambda>_. returnE outcome))))"

definition resolve_room :: "string \<Rightarrow> persisted_room option io" where
  "resolve_room code =
     bindE (read_room code) (\<lambda>found.
       case found of
         None \<Rightarrow> returnE None
       | Some room \<Rightarrow>
           bindE (getE (\<lambda>w. (w_now w, w_closing w))) (\<lambda>(now, closing).
             if \<not> expired_at now room then returnE (Some room)
             else if closing then raiseE resolution_unconfirmed
             else
               bindE (bounded_wait resolution_unconfirmed (collect_expired_room code)) (\<lambda>outcome.
                 if outcome \<noteq> Superseded then returnE None
                 else
                   bindE (read_room code) (\<lambda>fresh.
                     case fresh of
                       None \<Rightarrow> returnE None
                     | Some room' \<Rightarrow>
                         bindE clock (\<lambda>now'.
                           if expired_at now' room' then raiseE resolution_unconfirmed
                           else returnE (Some room'))))))"

subsection \<open>Playback authority\<close>

definition get_playback_authority :: "string \<Rightarrow> playback_authority option io" where
  "get_playback_authority code = syncE (\<lambda>w.
     case js_get (w_authority w) code of
       None \<Rightarrow> (None, w)
     | Some a \<Rightarrow> if pa_until a \<le> w_now w
                then (None, w\<lparr> w_authority := js_delete code (w_authority w) \<rparr>) else (Some a, w))"

definition derive_playback_authority_kind ::
    "playback_state option \<Rightarrow> playback_state \<Rightarrow> authority_kind option" where
  "derive_playback_authority_kind current_playback next_playback =
     (case current_playback of
        None \<Rightarrow> Some Play_Kind
      | Some current \<Rightarrow>
          if pb_play_state next_playback = Paused \<or> pb_play_state next_playback = Buffering
          then Some Pause_Kind
          else if 1 / 100 < \<bar>pb_playback_rate next_playback - pb_playback_rate current\<bar>
          then Some Ratechange_Kind
          else if pb_sync_intent next_playback = Some Explicit_Seek \<and> pb_play_state next_playback = Playing
          then Some Seek_Kind
          else if 25 / 10 \<le> \<bar>pb_current_time next_playback - pb_current_time current\<bar>
          then Some Seek_Kind
          else if pb_play_state current \<noteq> Playing \<and> pb_play_state next_playback = Playing
          then Some Play_Kind else None)"

definition sweep_expired_playback_authorities :: "rat \<Rightarrow> world \<Rightarrow> world" where
  "sweep_expired_playback_authorities now w =
     (if now - w_last_sweep w < playback_authority_sweep_interval_ms then w
      else w\<lparr> w_last_sweep := now,
              w_authority := filter (\<lambda>(_, a). \<not> pa_until a \<le> now) (w_authority w) \<rparr>)"

definition record_playback_authority ::
    "string \<Rightarrow> string \<Rightarrow> authority_kind \<Rightarrow> authority_source \<Rightarrow> unit io" where
  "record_playback_authority code actor_id kind source = putE (\<lambda>w.
     let w' = sweep_expired_playback_authorities (w_now w) w
     in w'\<lparr> w_authority := js_set code
            \<lparr> pa_actor_id = actor_id, pa_until = w_now w + playback_authority_window_ms,
              pa_kind = kind, pa_source = source \<rparr> (w_authority w') \<rparr>)"

subsection \<open>Authentication\<close>

definition require_member_token :: "runtime_room \<Rightarrow> string \<Rightarrow> string \<Rightarrow> unit io" where
  "require_member_token active sid member_token =
     bindE (getE (the_session sid)) (\<lambda>s.
       if \<not> truthy (s_member_id s) \<or> \<not> truthy (s_member_token s)
          \<or> Some member_token \<noteq> s_member_token s
          \<or> js_get (rr_member_tokens active) (the (s_member_id s)) \<noteq> s_member_token s
       then raiseE (Service Member_Token_Invalid Reason_Member_Token_Invalid) else returnE ())"

definition require_joined_room_session :: "string \<Rightarrow> string \<Rightarrow> persisted_room io" where
  "require_joined_room_session sid member_token =
     bindE (getE (the_session sid)) (\<lambda>s.
       if \<not> truthy (s_room_code s) then raiseE (Service Not_In_Room Reason_Not_In_Room)
       else
         bindE (resolve_room (the (s_room_code s))) (\<lambda>found.
           case found of
             None \<Rightarrow> bindE (clear_session_room sid) (\<lambda>_.
                       raiseE (Service Room_Not_Found Reason_Room_Not_Found))
           | Some room \<Rightarrow>
               bindE (runtime_sync (\<lambda>now rt. get_runtime_room now (pr_code room) rt)) (\<lambda>active.
               bindE (getE (the_session sid)) (\<lambda>s'.
                 case active of
                   None \<Rightarrow> bindE (clear_session_room sid) (\<lambda>_.
                             raiseE (Service Member_Token_Invalid Reason_Member_Token_Invalid))
                 | Some a \<Rightarrow>
                     if \<not> truthy (s_member_id s') \<or> js_get (rr_members a) (the (s_member_id s')) \<noteq> Some sid
                     then bindE (clear_session_room sid) (\<lambda>_.
                            raiseE (Service Member_Token_Invalid Reason_Member_Token_Invalid))
                     else bindE (require_member_token a sid member_token) (\<lambda>_. returnE room)))))"

subsection \<open>Rolling back a room that nobody will ever sit in\<close>

fun orphan_attempts :: "nat \<Rightarrow> string \<Rightarrow> string \<Rightarrow> unit io" where
  "orphan_attempts 0 code join_token = returnE ()"
| "orphan_attempts (Suc n) code join_token =
     bindE clock (\<lambda>now.
     bindE (write_room code (Instance join_token None) (empty_patch\<lparr> rp_expires_at := Some (Some now) \<rparr>))
       (\<lambda>r. case r of Version_Conflict \<Rightarrow> orphan_attempts n code join_token | _ \<Rightarrow> returnE ()))"

definition run_orphan_expiry :: "string \<Rightarrow> string \<Rightarrow> unit io" where
  "run_orphan_expiry code join_token =
     tryE (orphan_attempts room_rollback_max_attempts code join_token) (\<lambda>_. returnE ()) returnE"

definition expire_orphaned_room :: "string \<Rightarrow> string \<Rightarrow> unit io" where
  "expire_orphaned_room code join_token =
     bindE (getE w_closing) (\<lambda>closing.
       if closing then returnE ()
       else tryE (bounded_wait Other_Error (run_orphan_expiry code join_token)) (\<lambda>_. returnE ()) returnE)"

subsection \<open>Optimistic updates\<close>

fun version_attempts ::
    "nat \<Rightarrow> string \<Rightarrow> (persisted_room \<Rightarrow> 'a option io) \<Rightarrow> 'a option io" where
  "version_attempts 0 code action = returnE None"
| "version_attempts (Suc n) code action =
     bindE (resolve_room code) (\<lambda>found.
       case found of
         None \<Rightarrow> returnE None
       | Some room \<Rightarrow>
           bindE (action room) (\<lambda>r.
             case r of Some x \<Rightarrow> returnE (Some x) | None \<Rightarrow> version_attempts n code action))"

definition with_version_retry :: "string \<Rightarrow> (persisted_room \<Rightarrow> 'a option io) \<Rightarrow> 'a option io" where
  "with_version_retry = version_attempts max_version_retries"

subsection \<open>Admission to a room\<close>

record join_target =
  jt_reconnect_member_id :: "string option"
  jt_reconnect_holds_seat :: bool
  jt_active_member_count :: nat

text \<open>
  The active room is the live object of the local store: what is asked of it after the token
  lookup is asked of its state by then.
\<close>

definition resolve_join_target_state :: "string \<Rightarrow> string option \<Rightarrow> join_target io" where
  "resolve_join_target_state code previous_token =
     bindE (runtime_call (\<lambda>now rt. get_runtime_room now code rt)) (\<lambda>active.
     bindE (if truthy previous_token \<and> active \<noteq> None
            then runtime_call (\<lambda>now rt. find_member_id_by_token now code (the previous_token) rt)
            else returnE None) (\<lambda>reconnect.
     bindE (getE (\<lambda>w. if active = None then [] else members_of (w_runtime w) code)) (\<lambda>members.
     returnE \<lparr> jt_reconnect_member_id = reconnect,
               jt_reconnect_holds_seat =
                 (case reconnect of None \<Rightarrow> False | Some m \<Rightarrow> js_has members m),
               jt_active_member_count = length members \<rparr>)))"

definition ensure_join_request_allowed ::
    "service_options \<Rightarrow> persisted_room \<Rightarrow> string \<Rightarrow> string \<Rightarrow> string option \<Rightarrow> join_target io" where
  "ensure_join_request_allowed opt room code join_token previous_token =
     (if pr_join_token room \<noteq> join_token
      then raiseE (Service Join_Token_Invalid Reason_Join_Token_Invalid)
      else
        bindE (if truthy previous_token
               then bindE clock (\<lambda>now.
                      runtime_call (\<lambda>_ rt. is_member_token_blocked now code (the previous_token) rt))
               else returnE False) (\<lambda>blocked.
          if blocked then raiseE (Service Join_Token_Invalid Reason_Join_Token_Invalid)
          else
            bindE (resolve_join_target_state code previous_token) (\<lambda>target.
              if max_members_per_room (so_config opt) \<le> jt_active_member_count target
                 \<and> \<not> jt_reconnect_holds_seat target
              then raiseE (Service Room_Full Reason_Room_Full) else returnE target)))"

definition persist_joined_room ::
    "service_options \<Rightarrow> string \<Rightarrow> string \<Rightarrow> string option \<Rightarrow> (persisted_room \<times> join_target) option io"
  where
  "persist_joined_room opt code join_token previous_token =
     with_version_retry code (\<lambda>room.
       bindE clock (\<lambda>now.
       bindE (ensure_join_request_allowed opt room code join_token previous_token) (\<lambda>target.
         if pr_expires_at room = None
            \<and> now - pr_last_active_at room < room_last_active_write_interval_ms
            \<and> jt_reconnect_holds_seat target
         then bindE (read_room code) (\<lambda>latest.
                case latest of
                  None \<Rightarrow> returnE None
                | Some r \<Rightarrow> if pr_version r \<noteq> pr_version room then returnE None
                            else returnE (Some (r, target)))
         else bindE (write_room code (At_Version (pr_version room))
                (empty_patch\<lparr> rp_expires_at := (if pr_expires_at room \<noteq> None then Some None else None),
                              rp_last_active_at := Some now \<rparr>)) (\<lambda>result.
                case result of Updated r \<Rightarrow> returnE (Some (r, target)) | _ \<Rightarrow> returnE None))))"

definition build_join_identity ::
    "service_options \<Rightarrow> string \<Rightarrow> string option \<Rightarrow> string option \<Rightarrow> (string \<times> string) io" where
  "build_join_identity opt sid reconnect previous_token =
     (if truthy reconnect \<and> truthy previous_token
      then returnE (the reconnect, the previous_token)
      else bindE (next_token opt) (\<lambda>token.
           returnE (case reconnect of None \<Rightarrow> sid | Some m \<Rightarrow> m, token)))"

definition apply_joined_session_state :: "string \<Rightarrow> string \<Rightarrow> rat \<Rightarrow> string \<times> string \<Rightarrow> unit io" where
  "apply_joined_session_state sid code joined_at identity = update_session sid
     (\<lambda>s. s\<lparr> s_member_id := Some (fst identity), s_room_code := Some code,
            s_member_token := Some (snd identity), s_joined_at := Some joined_at \<rparr>)"

definition disconnect_replaced_session :: "string \<Rightarrow> string option \<Rightarrow> unit io" where
  "disconnect_replaced_session sid previous = putE (\<lambda>w.
     case previous of
       None \<Rightarrow> w
     | Some old \<Rightarrow> if old = sid \<or> \<not> has_attached_socket (the_session old w) then w
                  else w\<lparr> w_closed_sockets := w_closed_sockets w @ [old] \<rparr>)"

subsection \<open>Leaving\<close>

record leave_result =
  lr_room :: "persisted_room option"
  lr_notify_room :: bool
  lr_member_removed :: bool
  lr_needs_resync :: bool

definition nothing_left :: leave_result where
  "nothing_left = \<lparr> lr_room = None, lr_notify_room = False, lr_member_removed = False, lr_needs_resync = False \<rparr>"

text \<open>
  The handler around the body of a leave. The removal's outcome and the local view of
  emptiness are what the body had reached.
\<close>

definition leave_failed ::
    "string \<Rightarrow> string \<Rightarrow> joined_session_snapshot option \<Rightarrow> bool \<Rightarrow> bool \<Rightarrow> failure \<Rightarrow> leave_result io" where
  "leave_failed sid code snapshot removed room_empty e =
     (let rethrow = (case e of Service c r \<Rightarrow> raiseE e | _ \<Rightarrow> raiseE internal_error)
      in if \<not> removed then rethrow
         else bindE (getE (\<lambda>w. has_attached_socket (the_session sid w))) (\<lambda>open_socket.
           if \<not> open_socket
           then (if room_empty then rethrow
                 else returnE \<lparr> lr_room = None, lr_notify_room = True, lr_member_removed = removed,
                                lr_needs_resync = True \<rparr>)
           else
             bindE (tryE (read_room code) (\<lambda>_. returnE True) (\<lambda>r. returnE (r \<noteq> None))) (\<lambda>still_exists.
             bindE (if still_exists then restore_leave_state sid snapshot else returnE ()) (\<lambda>_. rethrow))))"

definition schedule_expiry ::
    "string \<Rightarrow> persisted_room \<Rightarrow> rat \<Rightarrow> persisted_room option io" where
  "schedule_expiry code room expires_at =
     bindE clock (\<lambda>now.
     tryE (write_room code (Instance (pr_join_token room) (Some (pr_version room)))
            (empty_patch\<lparr> rp_expires_at := Some (Some expires_at), rp_last_active_at := Some now \<rparr>))
       (\<lambda>_. returnE None)
       (\<lambda>r. case r of Updated u \<Rightarrow> returnE (Some u) | _ \<Rightarrow> returnE None))"

text \<open>The members of the room as others see them, or that they could not be read.\<close>

definition shared_member_view :: "string \<Rightarrow> (string, string) js_map option option io" where
  "shared_member_view code =
     tryE (runtime_call (\<lambda>now rt. get_runtime_room now code rt)) (\<lambda>_. returnE None)
       (\<lambda>active. bindE (getE (\<lambda>w. members_of (w_runtime w) code)) (\<lambda>members.
          returnE (Some (if active = None then None else Some members))))"

definition leave_persisted ::
    "service_options \<Rightarrow> string \<Rightarrow> string \<Rightarrow> string \<Rightarrow> rat option \<Rightarrow> bool \<Rightarrow> bool \<Rightarrow> persisted_room
      \<Rightarrow> leave_result io" where
  "leave_persisted opt sid code leaving_member_id leaving_joined_at removed confirmed room =
     bindE (shared_member_view code) (\<lambda>view.
     bindE (getE (\<lambda>w i. s_joined_at (the_session i w))) (\<lambda>joined_at.
       let shared_room = (case view of None \<Rightarrow> None | Some r \<Rightarrow> r);
           remaining = filter (\<lambda>(m, i). m \<noteq> leaving_member_id \<or> i \<noteq> sid)
             (case shared_room of None \<Rightarrow> [] | Some ms \<Rightarrow> ms);
           room_empty = (view \<noteq> None \<and> remaining = []);
           needs_resync = (\<not> room_empty \<and>
             (shared_room = None \<or> \<not> confirmed
              \<or> shared_video_owner_changed_on_leave
                  (case pr_shared_video room of None \<Rightarrow> None | Some v \<Rightarrow> sv_shared_by_member_id v)
                  (map (\<lambda>(m, i). \<lparr> oc_id = m, oc_joined_at = joined_at i \<rparr>) remaining)
                  \<lparr> oc_id = leaving_member_id, oc_joined_at = leaving_joined_at \<rparr>))
       in if \<not> room_empty
          then returnE \<lparr> lr_room = Some room, lr_notify_room = False, lr_member_removed = removed,
                         lr_needs_resync = needs_resync \<rparr>
          else
            bindE (getE (\<lambda>w. (w_now w, w_closing w))) (\<lambda>(now, closing).
            bindE (if closing then returnE None
                   else tryE (bounded_wait Other_Error
                          (schedule_expiry code room (now + so_empty_room_ttl_ms opt)))
                        (\<lambda>_. returnE None) returnE) (\<lambda>updated.
            returnE \<lparr> lr_room = Some (case updated of None \<Rightarrow> room | Some u \<Rightarrow> u),
                      lr_notify_room = False, lr_member_removed = removed, lr_needs_resync = False \<rparr>))))"

definition leave_current_room :: "service_options \<Rightarrow> string \<Rightarrow> leave_reason \<Rightarrow> leave_result io" where
  "leave_current_room opt sid reason =
     bindE (getE (the_session sid)) (\<lambda>s.
       if \<not> truthy (s_room_code s) then returnE nothing_left
       else
         let code = the (s_room_code s);
             leaving_member_id = session_member_id s;
             leaving_joined_at = s_joined_at s;
             snapshot = snapshot_joined_session s
         in bindE (runtime_sync (\<lambda>now rt. get_runtime_room now code rt)) (\<lambda>_.
            tryE (if reason = Client_Request \<and> truthy (s_member_id s)
                  then runtime_call (\<lambda>_ rt. ((), revoke_member_token code (the (s_member_id s)) (Some sid) rt))
                  else returnE ())
              (leave_failed sid code snapshot False False)
              (\<lambda>_.
            bindE (getE (the_session sid)) (\<lambda>s'.
            bindE (if truthy (s_member_id s')
                   then bindE (remove_member_now opt code (the (s_member_id s')) sid) (\<lambda>r.
                        returnE (mr_removed r, mr_room_empty r))
                   else returnE (False, False)) (\<lambda>(removed, room_empty).
            tryE (bindE flush_runtime (\<lambda>_.
                  bindE (tryE flush_runtime (\<lambda>_. returnE False) (\<lambda>_. returnE True)) (\<lambda>confirmed.
                  bindE (clear_session_room sid) (\<lambda>_.
                  bindE (resolve_room code) (\<lambda>found. returnE (confirmed, found))))))
              (leave_failed sid code snapshot removed room_empty)
              (\<lambda>(confirmed, found).
                 case found of
                   None \<Rightarrow> returnE nothing_left
                 | Some room \<Rightarrow>
                     leave_persisted opt sid code leaving_member_id leaving_joined_at removed
                       confirmed room))))))"

subsection \<open>Creating a room\<close>

text \<open>
  Up to five codes are tried. A code with anything left under it, or whose state cannot be
  read, is passed over; a store that stops answering ends the search, after a rollback of what
  the unanswered create may still build.
\<close>

fun create_attempts ::
    "nat \<Rightarrow> service_options \<Rightarrow> string \<Rightarrow> rat \<Rightarrow> persisted_room option io" where
  "create_attempts 0 opt sid created_at = returnE None"
| "create_attempts (Suc n) opt sid created_at =
     bindE (next_code opt) (\<lambda>code.
     bindE (tryE (runtime_call (\<lambda>now rt. has_room_residue now code rt)) (\<lambda>_. returnE True) returnE)
       (\<lambda>dirty.
        if dirty then create_attempts n opt sid created_at
        else
          bindE (next_token opt) (\<lambda>join_token.
          bindE (getE (the_session sid)) (\<lambda>s.
          tryE (make_room \<lparr> ci_code = code, ci_join_token = join_token, ci_created_at = created_at,
                  ci_owner_member_id = Some sid, ci_owner_display_name = Some (s_display_name s) \<rparr>)
            (\<lambda>e. case e of
                   Unavailable admission \<Rightarrow>
                     bindE (if admission then returnE () else expire_orphaned_room code join_token)
                       (\<lambda>_. returnE None)
                 | _ \<Rightarrow> create_attempts n opt sid created_at)
            (\<lambda>room. returnE (Some room))))))"

definition rollback_unstamped_room :: "persisted_room \<Rightarrow> 'a io" where
  "rollback_unstamped_room room =
     bindE (expire_orphaned_room (pr_code room) (pr_join_token room)) (\<lambda>_. raiseE internal_error)"

definition stamp_generation :: "service_options \<Rightarrow> string \<Rightarrow> bool io" where
  "stamp_generation opt code =
     bindE (runtime_call (\<lambda>_ rt. (get_room_generation rt code, rt))) (\<lambda>pinned.
     bindE (next_uuid opt) (\<lambda>generation.
     runtime_call (\<lambda>_ rt. mark_room_generation code generation pinned rt)))"

definition create_room_for_session ::
    "service_options \<Rightarrow> string \<Rightarrow> string option \<Rightarrow> (persisted_room \<times> string) io" where
  "create_room_for_session opt sid display_name =
     bindE (set_session_display_name sid display_name) (\<lambda>_.
     bindE (leave_current_room opt sid Client_Request) (\<lambda>_.
     bindE clock (\<lambda>created_at.
     bindE (create_attempts 5 opt sid created_at) (\<lambda>found.
       case found of
         None \<Rightarrow> raiseE internal_error
       | Some room \<Rightarrow>
           bindE (tryE (stamp_generation opt (pr_code room)) (\<lambda>_. rollback_unstamped_room room) returnE)
             (\<lambda>stamped.
           bindE (if \<not> stamped then rollback_unstamped_room room else returnE ()) (\<lambda>_.
           bindE (next_token opt) (\<lambda>member_token.
           bindE (update_session sid (\<lambda>s. s\<lparr> s_member_id := Some sid \<rparr>)) (\<lambda>_.
           bindE (add_member_now (pr_code room) sid sid member_token) (\<lambda>_.
           bindE (update_session sid (\<lambda>s. s\<lparr> s_room_code := Some (pr_code room),
                    s_member_token := Some member_token, s_joined_at := Some created_at \<rparr>)) (\<lambda>_.
           returnE (room, member_token)))))))))))"

subsection \<open>Joining a room\<close>

text \<open>Undoes a seat that the join could not finish, and puts a session it displaced back.\<close>

definition undo_join ::
    "service_options \<Rightarrow> string \<Rightarrow> string \<Rightarrow> string \<times> string \<Rightarrow> string option \<Rightarrow> failure \<Rightarrow> 'a io" where
  "undo_join opt sid code identity previous_session e =
     bindE (remove_member_now opt code (fst identity) sid) (\<lambda>_.
     bindE flush_quietly (\<lambda>_.
     bindE (runtime_call (\<lambda>now rt. get_runtime_room now code rt)) (\<lambda>active.
     let current = (case active of None \<Rightarrow> None | Some a \<Rightarrow> js_get (rr_members a) (fst identity)) in
     bindE (case previous_session of
              Some old \<Rightarrow> if current = None \<or> current = Some sid
                then bindE (add_member_now code (fst identity) old (snd identity)) (\<lambda>_. flush_quietly)
                else returnE ()
            | None \<Rightarrow> returnE ()) (\<lambda>_. raiseE e))))"

definition seat_joined_session ::
    "service_options \<Rightarrow> string \<Rightarrow> string option \<Rightarrow> join_admission_lock \<Rightarrow> persisted_room \<times> join_target
      \<Rightarrow> (persisted_room \<times> string) io" where
  "seat_joined_session opt sid previous_token lock joined =
     (let room = fst joined; code = pr_code room; reconnect = jt_reconnect_member_id (snd joined)
      in bindE (build_join_identity opt sid reconnect previous_token) (\<lambda>identity.
         bindE (runtime_sync (\<lambda>now rt. get_runtime_room now code rt)) (\<lambda>active.
         let previous_session = (case (reconnect, active) of
               (Some m, Some a) \<Rightarrow> js_get (rr_members a) m | _ \<Rightarrow> None) in
         bindE (assert_active lock) (\<lambda>_.
         bindE (add_member_now code (fst identity) sid (snd identity)) (\<lambda>_.
         tryE (bindE flush_runtime (\<lambda>_.
               bindE (assert_active lock) (\<lambda>_.
               bindE clock (\<lambda>now. apply_joined_session_state sid code now identity))))
           (undo_join opt sid code identity previous_session)
           (\<lambda>_. bindE (disconnect_replaced_session sid previous_session) (\<lambda>_.
                returnE (room, snd identity))))))))"

definition join_room_for_session ::
    "service_options \<Rightarrow> string \<Rightarrow> string \<Rightarrow> string \<Rightarrow> string option \<Rightarrow> string option
      \<Rightarrow> (persisted_room \<times> string) io" where
  "join_room_for_session opt sid code join_token display_name previous_token =
     bindE (set_session_display_name sid display_name) (\<lambda>_.
     bindE (leave_current_room opt sid Client_Request) (\<lambda>_.
     with_room_join_lock opt code (\<lambda>lock.
       bindE (persist_joined_room opt code join_token previous_token) (\<lambda>joined.
         case joined of
           None \<Rightarrow> raiseE (Service Room_Not_Found Reason_Room_Not_Found)
         | Some j \<Rightarrow> seat_joined_session opt sid previous_token lock j))))"

subsection \<open>Sharing a video\<close>

definition share_dedup_key :: "service_options \<Rightarrow> string \<Rightarrow> shared_video \<Rightarrow> playback_state option \<Rightarrow> string" where
  "share_dedup_key opt actor video playback =
     ''share:'' @ actor @ '':'' @ sv_url video @ '':'' @
     so_number_string opt (case playback of None \<Rightarrow> 0 | Some p \<Rightarrow> pb_seq p)"

definition shared_playback ::
    "session \<Rightarrow> shared_video \<Rightarrow> playback_state option \<Rightarrow> rat \<Rightarrow> playback_state" where
  "shared_playback s video playback now =
     (case playback of
        Some p \<Rightarrow> p\<lparr> pb_url := sv_url video, pb_sync_intent := None,
                     pb_actor_id := session_member_id s, pb_server_time := now \<rparr>
      | None \<Rightarrow> \<lparr> pb_url = sv_url video, pb_current_time = 0, pb_play_state = Paused,
                  pb_sync_intent = None, pb_user_initiated = None, pb_natural_end = None,
                  pb_playback_rate = 1, pb_updated_at = now, pb_server_time = now,
                  pb_actor_id = session_member_id s, pb_seq = 0 \<rparr>)"

definition share_patch :: "session \<Rightarrow> shared_video \<Rightarrow> playback_state option \<Rightarrow> rat \<Rightarrow> room_patch" where
  "share_patch s video playback now = empty_patch\<lparr>
     rp_shared_video := Some (Some (video\<lparr> sv_shared_by_member_id := Some (session_member_id s),
                                            sv_shared_by_display_name := Some (s_display_name s) \<rparr>)),
     rp_playback := Some (Some (shared_playback s video playback now)),
     rp_expires_at := Some None, rp_last_active_at := Some now \<rparr>"

definition share_action ::
    "string \<Rightarrow> shared_video \<Rightarrow> playback_state option \<Rightarrow> rat \<Rightarrow> persisted_room \<Rightarrow> persisted_room option io" where
  "share_action sid video playback now room =
     bindE (getE (the_session sid)) (\<lambda>s.
     bindE (write_room (pr_code room) (At_Version (pr_version room)) (share_patch s video playback now))
       (\<lambda>result. case result of
          Updated r \<Rightarrow>
            bindE (record_playback_authority (pr_code room) (pb_actor_id (shared_playback s video playback now))
                     Share_Kind From_Video_Share) (\<lambda>_. returnE (Some r))
        | _ \<Rightarrow> returnE None))"

definition share_video_for_session ::
    "service_options \<Rightarrow> string \<Rightarrow> string \<Rightarrow> shared_video \<Rightarrow> playback_state option \<Rightarrow> persisted_room io" where
  "share_video_for_session opt sid member_token video playback =
     bindE (require_joined_room_session sid member_token) (\<lambda>room0.
     bindE clock (\<lambda>now.
     bindE (getE (the_session sid)) (\<lambda>s.
     let code = pr_code room0; key = share_dedup_key opt (session_member_id s) video playback in
     bindE (next_uuid opt) (\<lambda>token.
     bindE (runtime_call (\<lambda>t rt. claim_slot t code key token (now + 5000) rt)) (\<lambda>claimed.
       if \<not> claimed then returnE room0
       else
         tryE (with_version_retry code (share_action sid video playback now))
           (\<lambda>e. bindE (release_message_slot_best_effort code key token) (\<lambda>_. raiseE e))
           (\<lambda>r. case r of
              None \<Rightarrow> bindE (release_message_slot_best_effort code key token) (\<lambda>_. raiseE internal_error)
            | Some room \<Rightarrow> returnE room))))))"

subsection \<open>Reporting playback\<close>

definition playback_dedup_key :: "service_options \<Rightarrow> string \<Rightarrow> string \<Rightarrow> rat \<Rightarrow> string" where
  "playback_dedup_key opt actor sid seq =
     ''playback:'' @ actor @ '':'' @ sid @ '':'' @ so_number_string opt seq"

definition is_steady_tick :: "playback_state option \<Rightarrow> playback_state \<Rightarrow> bool" where
  "is_steady_tick previous next =
     (case previous of
        None \<Rightarrow> False
      | Some p \<Rightarrow>
          (let elapsed_seconds = (pb_server_time next - pb_server_time p) / 1000;
               expected_delta = (if pb_play_state p \<noteq> Playing then 0
                                 else pb_playback_rate p * elapsed_seconds);
               actual_delta = pb_current_time next - pb_current_time p
           in pb_play_state p = pb_play_state next
              \<and> \<bar>pb_playback_rate p - pb_playback_rate next\<bar> < 1 / 100
              \<and> pb_sync_intent next = None
              \<and> \<bar>actual_delta - expected_delta\<bar> < 1))"

definition urls_agree :: "url_parser \<Rightarrow> string \<Rightarrow> string \<Rightarrow> bool" where
  "urls_agree U shared_url playback_url =
     (let a = normalize_bilibili_url U (Some shared_url); b = normalize_bilibili_url U (Some playback_url)
      in truthy a \<and> truthy b \<and> a = b)"

definition playback_patch :: "playback_state \<Rightarrow> rat \<Rightarrow> room_patch" where
  "playback_patch next now = empty_patch\<lparr> rp_playback := Some (Some next), rp_expires_at := Some None,
     rp_last_active_at := Some now \<rparr>"

text \<open>The part of a report that writes, once it has been accepted.\<close>

definition apply_playback ::
    "string \<Rightarrow> string \<Rightarrow> persisted_room \<Rightarrow> playback_state \<Rightarrow> authority_kind option \<Rightarrow> rat
      \<Rightarrow> (persisted_room option \<times> bool) io" where
  "apply_playback key token room next kind now =
     (let code = pr_code room; release = release_message_slot_best_effort code key token
      in tryE (write_room code (At_Version (pr_version room)) (playback_patch next now))
           (\<lambda>e. bindE release (\<lambda>_. raiseE e))
           (\<lambda>result. case result of
              Version_Conflict \<Rightarrow> returnE (None, True)
            | Not_Found \<Rightarrow> bindE release (\<lambda>_. raiseE (Service Room_Not_Found Reason_Room_Not_Found))
            | Updated updated \<Rightarrow>
                bindE (case kind of
                         Some k \<Rightarrow> if is_steady_tick (pr_playback room) next then returnE ()
                           else record_playback_authority code (pb_actor_id next) k From_Playback_Update
                       | None \<Rightarrow> returnE ()) (\<lambda>_.
                bindE (get_playback_authority code) (\<lambda>_. returnE (Some updated, False)))))"

definition update_playback_for_session ::
    "service_options \<Rightarrow> string \<Rightarrow> string \<Rightarrow> playback_state \<Rightarrow> (persisted_room option \<times> bool) io" where
  "update_playback_for_session opt sid member_token playback =
     bindE (require_joined_room_session sid member_token) (\<lambda>room.
     bindE (getE (the_session sid)) (\<lambda>s.
     let code = pr_code room; key = playback_dedup_key opt (session_member_id s) sid (pb_seq playback) in
     bindE (next_uuid opt) (\<lambda>token.
     bindE clock (\<lambda>now0.
     bindE (runtime_call (\<lambda>t rt. claim_slot t code key token (now0 + 10000) rt)) (\<lambda>claimed.
       if \<not> claimed then returnE (None, True)
       else
         let reject = bindE (release_message_slot_best_effort code key token)
               (\<lambda>_. raiseE (Service Invalid_Message Reason_Invalid_Message))
         in case pr_shared_video room of
              None \<Rightarrow> reject
            | Some shared \<Rightarrow>
                if \<not> urls_agree (so_url_parser opt) (sv_url shared) (pb_url playback) then reject
                else
                  bindE clock (\<lambda>now.
                  bindE (getE (the_session sid)) (\<lambda>s'.
                  let next = playback\<lparr> pb_actor_id := session_member_id s', pb_server_time := now \<rparr>;
                      kind = derive_playback_authority_kind (pr_playback room) next in
                  bindE (get_playback_authority code) (\<lambda>authority.
                    if \<not> accepts (decide_playback_acceptance (pr_playback room) authority next now)
                    then bindE (get_playback_authority code) (\<lambda>_. returnE (Some room, True))
                    else apply_playback key token room next kind now))))))))"

subsection \<open>Profile, state and sweep\<close>

definition profile_action :: "string \<Rightarrow> persisted_room \<Rightarrow> persisted_room option io" where
  "profile_action sid room =
     bindE (getE (\<lambda>w. (the_session sid w, w_now w))) (\<lambda>(s, now).
     bindE (write_room (pr_code room) (At_Version (pr_version room))
              (empty_patch\<lparr> rp_owner_display_name := Some (Some (s_display_name s)),
                            rp_last_active_at := Some now \<rparr>))
       (\<lambda>result. case result of Updated r \<Rightarrow> returnE (Some r) | _ \<Rightarrow> returnE None))"

definition update_profile_for_session ::
    "service_options \<Rightarrow> string \<Rightarrow> string \<Rightarrow> string \<Rightarrow> persisted_room io" where
  "update_profile_for_session opt sid member_token display_name =
     bindE (require_joined_room_session sid member_token) (\<lambda>room.
     bindE (set_session_display_name sid (Some display_name)) (\<lambda>changed.
     bindE (getE (the_session sid)) (\<lambda>s.
     bindE (if changed \<and> Some (session_member_id s) = pr_owner_member_id room
            then bindE (with_version_retry (pr_code room) (profile_action sid)) (\<lambda>updated.
                 returnE (case updated of None \<Rightarrow> room | Some r \<Rightarrow> r))
            else returnE room) (\<lambda>room'.
     bindE flush_runtime (\<lambda>_. returnE room')))))"

definition room_sessions :: "string \<Rightarrow> session list io" where
  "room_sessions code = runtime_call (\<lambda>_ rt. (list_sessions_by_room rt code, rt))"

definition get_room_state_for_session :: "string \<Rightarrow> string \<Rightarrow> room_state io" where
  "get_room_state_for_session sid member_token =
     bindE (require_joined_room_session sid member_token) (\<lambda>room.
     bindE (room_sessions (pr_code room)) (\<lambda>sessions.
     returnE (room_state_from_sessions room sessions)))"

definition get_room_state_by_code :: "string \<Rightarrow> room_state option io" where
  "get_room_state_by_code code =
     bindE (resolve_room code) (\<lambda>found.
       case found of
         None \<Rightarrow> returnE None
       | Some room \<Rightarrow> bindE (room_sessions code) (\<lambda>sessions.
           returnE (Some (room_state_from_sessions room sessions))))"

definition service_delete_expired_rooms :: "rat option \<Rightarrow> (nat \<times> nat) io" where
  "service_delete_expired_rooms current_time =
     bindE clock (\<lambda>now.
     bindE (sweep_rooms (case current_time of None \<Rightarrow> now | Some t \<Rightarrow> t)) (\<lambda>codes.
     bindE (putE (\<lambda>w. w\<lparr> w_expired_deleted := w_expired_deleted w + length codes \<rparr>)) (\<lambda>_.
     bindE (getE w_debts) (\<lambda>debts.
     bindE (collect_runtime_state_for_deleted_rooms debts codes) (\<lambda>_.
     returnE (length codes, 0))))))"

definition teardown_room_runtime :: "string \<Rightarrow> unit io" where
  "teardown_room_runtime code =
     bindE (getE w_debts) (\<lambda>debts.
     bindE (collect_runtime_state_for_deleted_rooms debts [code]) (\<lambda>_. returnE ()))"

definition close_room_service :: "unit io" where
  "close_room_service = putE (\<lambda>w. w\<lparr> w_closing := True \<rparr>)"

end
