(* ===== verification/Service_Rules.thy ===== *)
theory Service_Rules
  imports Room_Service
begin

text \<open>
  How the requests of \<open>Room_Service\<close> are reasoned about.

  \<open>issues_at\<close> bounds what a request may write, from a given world on, whatever the
  environment does: it is closed under sequencing, handlers and loops, so that the writes of a
  whole request follow from those of its calls. \<open>keeps\<close> says that a relation between worlds
  holds from the start to the end of a request; the environment's part of it is one lemma per
  relation. The calls are the only places where either has to be looked at.
\<close>

subsection \<open>The environment's reach\<close>

lemma env_step_trace [simp]: "w_trace (env_step e w) = w_trace w"
  by (cases e) simp_all

lemma env_step_sched [simp]: "w_sched (env_step e w) = w_sched w"
  by (cases e) simp_all

lemma env_step_now: "w_now w \<le> w_now (env_step e w)"
  by (cases e) simp_all

lemma fold_env_trace [simp]: "w_trace (fold env_step es w) = w_trace w"
  by (induction es arbitrary: w) simp_all

lemma fold_env_sched [simp]: "w_sched (fold env_step es w) = w_sched w"
  by (induction es arbitrary: w) simp_all

lemma fold_env_now: "w_now w \<le> w_now (fold env_step es w)"
  by (induction es arbitrary: w) (auto intro: order_trans env_step_now)

lemma interfere_trace [simp]: "w_trace (interfere w) = w_trace w"
  by (simp add: interfere_def split: list.split)

lemma interfere_now: "w_now w \<le> w_now (interfere w)"
proof (cases "w_sched w")
  case (Cons es rest)
  then show ?thesis
    using fold_env_now [of "w\<lparr> w_sched := rest \<rparr>" es] by (simp add: interfere_def)
qed (simp add: interfere_def)

lemma interfere_sched: "set (w_sched (interfere w)) \<subseteq> set (w_sched w)"
  by (auto simp: interfere_def split: list.split)

lemma interfere_quiet [simp]: "w_sched w = [] \<Longrightarrow> interfere w = w"
  by (simp add: interfere_def)

subsection \<open>What a request issues\<close>

definition issues_at :: "(issued \<Rightarrow> bool) \<Rightarrow> 'a io \<Rightarrow> world \<Rightarrow> bool" where
  "issues_at P m w = (\<exists>es. w_trace (snd (m w)) = w_trace w @ es \<and> list_all P es)"

definition issued_by :: "'a io \<Rightarrow> world \<Rightarrow> issued list" where
  "issued_by m w = drop (length (w_trace w)) (w_trace (snd (m w)))"

lemma issues_at_iff: "issues_at P m w \<longleftrightarrow>
    w_trace (snd (m w)) = w_trace w @ issued_by m w \<and> list_all P (issued_by m w)"
  by (auto simp: issues_at_def issued_by_def)

lemma issues_at_mono: "issues_at P m w \<Longrightarrow> (\<And>e. P e \<Longrightarrow> Q e) \<Longrightarrow> issues_at Q m w"
  by (auto simp: issues_at_def list_all_iff)

lemma issues_at_silent: "w_trace (snd (m w)) = w_trace w \<Longrightarrow> issues_at P m w"
  by (simp add: issues_at_def)

named_theorems issues_intros \<open>what compound requests issue\<close>

lemma issues_return [issues_intros]: "issues_at P (returnE x) w"
  and issues_raise [issues_intros]: "issues_at P (raiseE e) w"
  and issues_get [issues_intros]: "issues_at P (getE f) w"
  and issues_clock [issues_intros]: "issues_at P clock w"
  by (simp_all add: issues_at_def returnE_def raiseE_def getE_def clock_def)

lemma issues_put: "w_trace (f w) = w_trace w \<Longrightarrow> issues_at P (putE f) w"
  by (simp add: issues_at_def putE_def)

lemma issues_sync: "w_trace (snd (f w)) = w_trace w \<Longrightarrow> issues_at P (syncE f) w"
  by (cases "f w") (simp add: issues_at_def syncE_def)

lemma issues_bind [issues_intros]:
  assumes "issues_at P m w" and "\<And>x w'. m w = (Inr x, w') \<Longrightarrow> issues_at P (k x) w'"
  shows "issues_at P (bindE m k) w"
proof (cases "m w")
  case (Pair r w')
  show ?thesis
  proof (cases r)
    case (Inl e)
    then show ?thesis using assms(1) Pair by (simp add: issues_at_def bindE_def)
  next
    case (Inr x)
    obtain es where "w_trace w' = w_trace w @ es" "list_all P es"
      using assms(1) Pair by (auto simp: issues_at_def)
    moreover obtain fs where "w_trace (snd (k x w')) = w_trace w' @ fs" "list_all P fs"
      using assms(2) [of x w'] Pair Inr by (auto simp: issues_at_def)
    ultimately show ?thesis
      using Pair Inr by (auto simp: issues_at_def bindE_def intro!: exI [of _ "es @ fs"])
  qed
qed

lemma issues_try [issues_intros]:
  assumes "issues_at P m w" and "\<And>e w'. m w = (Inl e, w') \<Longrightarrow> issues_at P (h e) w'"
    and "\<And>x w'. m w = (Inr x, w') \<Longrightarrow> issues_at P (k x) w'"
  shows "issues_at P (tryE m h k) w"
proof (cases "m w")
  case (Pair r w')
  obtain es where es: "w_trace w' = w_trace w @ es" "list_all P es"
    using assms(1) Pair by (auto simp: issues_at_def)
  obtain fs where "w_trace (snd (tryE m h k w)) = w_trace w' @ fs" "list_all P fs"
    using assms(2,3) Pair by (cases r) (auto simp: issues_at_def tryE_def)
  with es show ?thesis by (auto simp: issues_at_def intro!: exI [of _ "es @ fs"])
qed

lemma issues_finally [issues_intros]:
  assumes "issues_at P m w" and "\<And>w'. issues_at P c w'"
  shows "issues_at P (finallyE m c) w"
proof (cases "m w")
  case (Pair r w')
  obtain es where es: "w_trace w' = w_trace w @ es" "list_all P es"
    using assms(1) Pair by (auto simp: issues_at_def)
  obtain fs where fs: "w_trace (snd (c w')) = w_trace w' @ fs" "list_all P fs"
    using assms(2) [of w'] by (auto simp: issues_at_def)
  have "w_trace (snd (finallyE m c w)) = w_trace (snd (c w'))"
    using Pair by (simp add: finallyE_def split: prod.split sum.split)
  with es fs show ?thesis by (auto simp: issues_at_def intro!: exI [of _ "es @ fs"])
qed

text \<open>The one rule for awaited calls: look at what the call itself writes down.\<close>

lemma issues_call:
  assumes "\<And>w'. w_now w \<le> w_now w' \<Longrightarrow>
      \<exists>es. w_trace (snd (f w')) = w_trace w' @ es \<and> list_all P es"
  shows "issues_at P (callE f) w"
proof -
  let ?w = "interfere w"
  have run: "\<exists>es. w_trace (snd (f (?w\<lparr> w_faults := fs \<rparr>))) = w_trace w @ es \<and> list_all P es" for fs
    using assms [of "?w\<lparr> w_faults := fs \<rparr>"] interfere_now [of w] by simp
  show ?thesis
  proof (cases "w_faults ?w")
    case Nil
    then show ?thesis
      using assms [of ?w] interfere_now [of w]
      by (auto simp: issues_at_def callE_def Let_def split: prod.splits)
  next
    case (Cons x rest)
    then show ?thesis
      using run [of rest]
      by (cases x) (auto simp: issues_at_def callE_def Let_def split: prod.splits)
  qed
qed

lemma issues_silent_call: "(\<And>w. w_trace (snd (f w)) = w_trace w) \<Longrightarrow> issues_at P (callE f) w"
  by (rule issues_call) simp

lemma silent_calls [issues_intros]:
  "issues_at P (read_room code) w"
  "issues_at P (runtime_call g) w"
  "issues_at P (runtime_sync g) w"
  "issues_at P flush_runtime w"
  "issues_at P (update_session sid upd) w"
  "issues_at P (next_token opt) w"
  "issues_at P (next_uuid opt) w"
  "issues_at P (next_code opt) w"
  unfolding read_room_def runtime_call_def runtime_sync_def flush_runtime_def update_session_def
    next_token_def next_uuid_def next_code_def
  by (auto intro!: issues_silent_call issues_put issues_sync split: prod.split)

lemma issues_write [issues_intros]:
  assumes "\<And>now ok. w_now w \<le> now \<Longrightarrow> P (Issue_Update now code g p ok)"
  shows "issues_at P (write_room code g p) w"
  unfolding write_room_def
  by (rule issues_call) (use assms in \<open>auto simp: issue_def split: prod.split\<close>)

lemma issues_expire [issues_intros]:
  assumes "\<And>r. P (Issue_Expire now code r)"
  shows "issues_at P (expire_room code now) w"
  unfolding expire_room_def
  by (rule issues_call) (use assms in \<open>auto simp: issue_def split: prod.split\<close>)

lemma issues_sweep [issues_intros]:
  assumes "\<And>codes. P (Issue_Sweep now codes)"
  shows "issues_at P (sweep_rooms now) w"
  unfolding sweep_rooms_def
  by (rule issues_call) (use assms in \<open>auto simp: issue_def split: prod.split\<close>)

lemma issues_teardown [issues_intros]:
  assumes "\<And>r. P (Issue_Teardown code gen r)"
  shows "issues_at P (teardown_room code gen) w"
  unfolding teardown_room_def
  by (rule issues_call) (use assms in \<open>auto simp: issue_def split: prod.split\<close>)

lemma issues_make [issues_intros]:
  assumes "\<And>now ok. P (Issue_Create now input ok)"
  shows "issues_at P (make_room input) w"
  unfolding make_room_def
  by (rule issues_bind, rule issues_call)
     (use assms in \<open>auto simp: issue_def split: prod.split option.split intro: issues_intros\<close>)

lemma issues_bounded_wait [issues_intros]:
  "(\<And>w'. issues_at P m w') \<Longrightarrow> issues_at P (bounded_wait e m) w"
  unfolding bounded_wait_def
  by (rule issues_try) (auto intro: issues_silent_call issues_intros)

lemma issues_if [issues_intros]:
  "(b \<Longrightarrow> issues_at P m w) \<Longrightarrow> (\<not> b \<Longrightarrow> issues_at P n w) \<Longrightarrow> issues_at P (if b then m else n) w"
  by simp

lemma issues_option [issues_intros]:
  "(x = None \<Longrightarrow> issues_at P m w) \<Longrightarrow> (\<And>y. x = Some y \<Longrightarrow> issues_at P (k y) w) \<Longrightarrow>
     issues_at P (case x of None \<Rightarrow> m | Some y \<Rightarrow> k y) w"
  by (cases x) simp_all

lemma issues_update_result [issues_intros]:
  "(\<And>r. x = Updated r \<Longrightarrow> issues_at P (k r) w) \<Longrightarrow> (x = Not_Found \<Longrightarrow> issues_at P m w) \<Longrightarrow>
   (x = Version_Conflict \<Longrightarrow> issues_at P n w) \<Longrightarrow>
     issues_at P (case x of Updated r \<Rightarrow> k r | Not_Found \<Rightarrow> m | Version_Conflict \<Rightarrow> n) w"
  by (cases x) simp_all

lemma issues_pair [issues_intros]:
  "(\<And>a b. x = (a, b) \<Longrightarrow> issues_at P (k a b) w) \<Longrightarrow> issues_at P (case x of (a, b) \<Rightarrow> k a b) w"
  by (cases x) simp_all

lemma issues_failure [issues_intros]:
  "(\<And>c r. x = Service c r \<Longrightarrow> issues_at P (f c r) w) \<Longrightarrow> (\<And>a. x = Unavailable a \<Longrightarrow> issues_at P (g a) w) \<Longrightarrow>
   (x = Other_Error \<Longrightarrow> issues_at P m w) \<Longrightarrow>
     issues_at P (case x of Service c r \<Rightarrow> f c r | Unavailable a \<Rightarrow> g a | Other_Error \<Rightarrow> m) w"
  by (cases x) simp_all

subsection \<open>What the operations issue\<close>

fun is_update :: "issued \<Rightarrow> bool" where
  "is_update (Issue_Update _ _ _ _ _) = True"
| "is_update _ = False"

fun is_collection :: "issued \<Rightarrow> bool" where
  "is_collection (Issue_Expire _ _ _) = True"
| "is_collection (Issue_Teardown _ _ _) = True"
| "is_collection _ = False"

lemma issues_debt_ops [issues_intros]:
  "issues_at P (remember_runtime_teardown_debt code) w"
  "issues_at P (take_over_debt code) w"
  "issues_at P (settle_debt code d ok) w"
  "issues_at P (putE (\<lambda>w. w\<lparr> w_debts := js_delete code (w_debts w) \<rparr>)) w"
  "issues_at P (putE (\<lambda>w. if b then w\<lparr> w_expired_deleted := n w \<rparr> else w)) w"
  "issues_at P (putE interfere) w"
  unfolding remember_runtime_teardown_debt_def take_over_debt_def settle_debt_def
  by (auto intro!: issues_put issues_sync)

lemma issues_collect_one: "issues_at is_collection (collect_one code d) w"
  unfolding collect_one_def run_teardown_effect_def Let_def
  by (intro issues_intros) simp_all

lemma issues_collect_all: "issues_at is_collection (collect_all cs) w"
  by (induction cs arbitrary: w rule: collect_all.induct)
     (auto intro!: issues_intros issues_collect_one)

lemma issues_resolve [issues_intros]: "issues_at is_collection (resolve_room code) w"
  unfolding resolve_room_def collect_expired_room_def collect_runtime_state_for_deleted_rooms_def
  by (intro issues_intros issues_collect_all) simp_all

lemma issues_require: "issues_at is_collection (require_joined_room_session sid tok) w"
  unfolding require_joined_room_session_def require_member_token_def clear_session_room_def
  by (intro issues_intros)

subsection \<open>Relations that survive interference\<close>

text \<open>
  A relation between an earlier and a later world that the environment respects and that does
  not look at the faults still to come.
\<close>

locale stable =
  fixes R :: "world \<Rightarrow> world \<Rightarrow> bool"
  assumes R_refl: "R w w"
    and R_trans: "R w w' \<Longrightarrow> R w' w'' \<Longrightarrow> R w w''"
    and R_env: "R w (interfere w)"
    and R_faults: "R w (w\<lparr> w_faults := fs \<rparr>)"
begin

definition keeps :: "'a io \<Rightarrow> world \<Rightarrow> bool" where
  "keeps m w = R w (snd (m w))"

lemma keepsD: "keeps m w \<Longrightarrow> m w = (r, w') \<Longrightarrow> R w w'"
  by (simp add: keeps_def)

lemma keeps_basic: "keeps (returnE x) w" "keeps (raiseE e) w" "keeps (getE f) w" "keeps clock w"
  by (simp_all add: keeps_def returnE_def raiseE_def getE_def clock_def R_refl)

lemma keeps_put: "R w (f w) \<Longrightarrow> keeps (putE f) w"
  by (simp add: keeps_def putE_def)

lemma keeps_sync: "R w (snd (f w)) \<Longrightarrow> keeps (syncE f) w"
  by (cases "f w") (simp add: keeps_def syncE_def)

lemma keeps_bind:
  assumes "keeps m w" and "\<And>x w'. m w = (Inr x, w') \<Longrightarrow> keeps (k x) w'"
  shows "keeps (bindE m k) w"
  using assms by (auto simp: keeps_def bindE_def split: prod.split sum.split intro: R_trans)

lemma keeps_try:
  assumes "keeps m w" and "\<And>e w'. m w = (Inl e, w') \<Longrightarrow> keeps (h e) w'"
    and "\<And>x w'. m w = (Inr x, w') \<Longrightarrow> keeps (k x) w'"
  shows "keeps (tryE m h k) w"
  using assms by (auto simp: keeps_def tryE_def split: prod.split sum.split intro: R_trans)

lemma keeps_finally:
  assumes "keeps m w" and "\<And>w'. keeps c w'"
  shows "keeps (finallyE m c) w"
proof (cases "m w")
  case (Pair r w')
  have "snd (finallyE m c w) = snd (c w')"
    using Pair by (simp add: finallyE_def split: prod.split sum.split)
  then show ?thesis
    using assms(1) assms(2) [of w'] Pair by (auto simp: keeps_def intro: R_trans)
qed

lemma keeps_call:
  assumes "\<And>w'. R w w' \<Longrightarrow> R w' (snd (f w'))"
  shows "keeps (callE f) w"
proof -
  let ?w = "interfere w"
  have start: "R w (?w\<lparr> w_faults := fs \<rparr>)" for fs by (rule R_trans [OF R_env R_faults])
  have run: "R w (interfere w2)" if "R w w1" "f w1 = (x, w2)" for w1 x w2
    using assms [OF that(1)] that by (auto intro: R_trans R_env)
  show ?thesis
  proof (cases "w_faults ?w")
    case Nil
    then show ?thesis
      using run [OF R_env] by (auto simp: keeps_def callE_def Let_def split: prod.split)
  next
    case (Cons y rest)
    then show ?thesis
      using run [OF start [of rest]] R_trans [OF start [of rest] R_env]
      by (cases y) (auto simp: keeps_def callE_def Let_def split: prod.split)
  qed
qed

text \<open>Where a call that answers took effect.\<close>

lemma call_effect:
  assumes "callE f w = (Inr x, w')"
  obtains w1 w2 where "R w w1" "f w1 = (x, w2)" "w' = interfere w2"
proof (cases "w_faults (interfere w)")
  case Nil
  then show ?thesis
    using assms that [OF R_env] by (auto simp: callE_def Let_def split: prod.splits)
next
  case (Cons y rest)
  then show ?thesis
    using assms that [OF R_trans [OF R_env R_faults [where fs = rest]]]
    by (auto simp: callE_def Let_def split: prod.splits option.splits)
qed

lemma keeps_cases:
  "(b \<Longrightarrow> keeps m w) \<Longrightarrow> (\<not> b \<Longrightarrow> keeps n w) \<Longrightarrow> keeps (if b then m else n) w"
  "(x = None \<Longrightarrow> keeps m w) \<Longrightarrow> (\<And>y. x = Some y \<Longrightarrow> keeps (k y) w) \<Longrightarrow>
     keeps (case x of None \<Rightarrow> m | Some y \<Rightarrow> k y) w"
  "(\<And>r. u = Updated r \<Longrightarrow> keeps (k1 r) w) \<Longrightarrow> (u = Not_Found \<Longrightarrow> keeps m w) \<Longrightarrow>
   (u = Version_Conflict \<Longrightarrow> keeps n w) \<Longrightarrow>
     keeps (case u of Updated r \<Rightarrow> k1 r | Not_Found \<Rightarrow> m | Version_Conflict \<Rightarrow> n) w"
  "(\<And>a b. p = (a, b) \<Longrightarrow> keeps (k2 a b) w) \<Longrightarrow> keeps (case p of (a, b) \<Rightarrow> k2 a b) w"
  "(\<And>c r. e = Service c r \<Longrightarrow> keeps (f c r) w) \<Longrightarrow> (\<And>a. e = Unavailable a \<Longrightarrow> keeps (g a) w) \<Longrightarrow>
   (e = Other_Error \<Longrightarrow> keeps m w) \<Longrightarrow>
     keeps (case e of Service c r \<Rightarrow> f c r | Unavailable a \<Rightarrow> g a | Other_Error \<Rightarrow> m) w"
  by (simp_all split: option.split update_result.split prod.split failure.split)

lemma keeps_wait: "(\<And>w'. keeps m w') \<Longrightarrow> keeps (bounded_wait e m) w"
  unfolding bounded_wait_def
  by (intro keeps_try keeps_call keeps_basic) (simp_all add: R_refl)

text \<open>The relation for requests that end normally; what an undo did is then not asked.\<close>

definition keeps_ok :: "'a io \<Rightarrow> world \<Rightarrow> bool" where
  "keeps_ok m w = (\<forall>x w'. m w = (Inr x, w') \<longrightarrow> R w w')"

lemma keeps_okD: "keeps_ok m w \<Longrightarrow> m w = (Inr x, w') \<Longrightarrow> R w w'"
  by (simp add: keeps_ok_def)

lemma keeps_ok_keeps: "keeps m w \<Longrightarrow> keeps_ok m w"
  by (auto simp: keeps_ok_def keeps_def)

lemma keeps_ok_bind:
  assumes "keeps_ok m w" and "\<And>x w'. m w = (Inr x, w') \<Longrightarrow> keeps_ok (k x) w'"
  shows "keeps_ok (bindE m k) w"
  using assms by (fastforce simp: keeps_ok_def bindE_def split: prod.splits sum.splits intro: R_trans)

lemma keeps_ok_try:
  assumes "keeps m w" and "\<And>e w'. m w = (Inl e, w') \<Longrightarrow> keeps_ok (h e) w'"
    and "\<And>x w'. m w = (Inr x, w') \<Longrightarrow> keeps_ok (k x) w'"
  shows "keeps_ok (tryE m h k) w"
  using assms by (fastforce simp: keeps_ok_def keeps_def tryE_def split: prod.splits sum.splits intro: R_trans)

lemma keeps_ok_cases:
  "(b \<Longrightarrow> keeps_ok m w) \<Longrightarrow> (\<not> b \<Longrightarrow> keeps_ok n w) \<Longrightarrow> keeps_ok (if b then m else n) w"
  "(x = None \<Longrightarrow> keeps_ok m w) \<Longrightarrow> (\<And>y. x = Some y \<Longrightarrow> keeps_ok (k y) w) \<Longrightarrow>
     keeps_ok (case x of None \<Rightarrow> m | Some y \<Rightarrow> k y) w"
  "(\<And>a b. p = (a, b) \<Longrightarrow> keeps_ok (k2 a b) w) \<Longrightarrow> keeps_ok (case p of (a, b) \<Rightarrow> k2 a b) w"
  by (simp_all split: option.split prod.split)

lemmas keeps_intros = keeps_basic keeps_bind keeps_try keeps_finally keeps_cases keeps_wait

end

text \<open>
  Relations that also survive what resolving a room may do on the way: collecting an expired
  room, tearing down its runtime state and keeping the ledger of that.
\<close>

locale collector = stable +
  assumes R_ledger: "R w (w\<lparr> w_debts := d, w_fresh := n, w_expired_deleted := k \<rparr>)"
    and R_expire: "R w (w\<lparr> w_rooms := snd (delete_expired_room code now (w_rooms w)), w_trace := tr \<rparr>)"
    and R_teardown: "R w (w\<lparr> w_runtime := snd (delete_runtime_room code gen (w_runtime w)), w_trace := tr \<rparr>)"
begin

lemma keeps_ledger:
  "keeps (remember_runtime_teardown_debt code) w" "keeps (take_over_debt code) w"
  "keeps (settle_debt code x ok) w" "keeps (putE (\<lambda>w. w\<lparr> w_debts := js_delete code (w_debts w) \<rparr>)) w"
  "keeps (putE (\<lambda>w. if b then w\<lparr> w_expired_deleted := f w \<rparr> else w)) w"
  "keeps (next_token opt) w" "keeps (next_uuid opt) w" "keeps (next_code opt) w"
proof -
  have parts: "R w (w\<lparr> w_debts := d \<rparr>)" "R w (w\<lparr> w_fresh := n \<rparr>)" "R w (w\<lparr> w_expired_deleted := k \<rparr>)"
      "R w (w\<lparr> w_debts := d, w_fresh := n \<rparr>)" for w d n k
    using R_ledger [where w = w and d = d and n = "w_fresh w" and k = "w_expired_deleted w"]
      R_ledger [where w = w and d = "w_debts w" and n = n and k = "w_expired_deleted w"]
      R_ledger [where w = w and d = "w_debts w" and n = "w_fresh w" and k = k]
      R_ledger [where w = w and d = d and n = n and k = "w_expired_deleted w"] by simp_all
  show "keeps (remember_runtime_teardown_debt code) w" "keeps (take_over_debt code) w"
    "keeps (settle_debt code x ok) w" "keeps (putE (\<lambda>w. w\<lparr> w_debts := js_delete code (w_debts w) \<rparr>)) w"
    "keeps (putE (\<lambda>w. if b then w\<lparr> w_expired_deleted := f w \<rparr> else w)) w"
    "keeps (next_token opt) w" "keeps (next_uuid opt) w" "keeps (next_code opt) w"
    unfolding remember_runtime_teardown_debt_def take_over_debt_def settle_debt_def
      next_token_def next_uuid_def next_code_def
    by (auto intro!: keeps_put keeps_sync parts R_refl)
qed

lemma keeps_reads: "keeps (read_room code) w" "keeps (runtime_call (\<lambda>t rt. (g t rt, rt))) w"
  "keeps flush_runtime w"
  unfolding read_room_def runtime_call_def flush_runtime_def
  by (auto intro!: keeps_call R_refl)

lemma keeps_expire: "keeps (expire_room code now) w"
  unfolding expire_room_def
  by (rule keeps_call) (use R_expire in \<open>auto simp: issue_def split: prod.split dest: sndI\<close>)

lemma keeps_teardown: "keeps (teardown_room code gen) w"
  unfolding teardown_room_def
  by (rule keeps_call) (use R_teardown in \<open>auto simp: issue_def split: prod.split dest: sndI\<close>)

lemma keeps_collect_one: "keeps (collect_one code d) w"
  unfolding collect_one_def run_teardown_effect_def Let_def
  by (intro keeps_intros keeps_ledger keeps_reads keeps_teardown)

lemma keeps_collect_all: "keeps (collect_all cs) w"
  by (induction cs arbitrary: w rule: collect_all.induct)
     (auto intro!: keeps_intros keeps_collect_one)

lemma keeps_resolve: "keeps (resolve_room code) w"
  unfolding resolve_room_def collect_expired_room_def collect_runtime_state_for_deleted_rooms_def
  by (intro keeps_intros keeps_reads keeps_expire keeps_ledger keeps_collect_all)

end

subsection \<open>A session that only its own request changes\<close>

text \<open>
  Other requests write to other session objects. Index writes of others do move the room code
  of a session they name, so only identity is private.
\<close>

fun spares_session :: "string \<Rightarrow> env_event \<Rightarrow> bool" where
  "spares_session sid (Env_Runtime (R_Put s)) = (s_id s \<noteq> sid)"
| "spares_session sid (Env_Runtime (R_Joined i _)) = (i \<noteq> sid)"
| "spares_session sid (Env_Runtime (R_Left i _)) = (i \<noteq> sid)"
| "spares_session sid _ = True"

definition private_session :: "string \<Rightarrow> world \<Rightarrow> bool" where
  "private_session sid w = list_all (list_all (spares_session sid)) (w_sched w)"

definition heap_keyed :: "runtime_store \<Rightarrow> bool" where
  "heap_keyed rt = list_all (\<lambda>(i, s). s_id s = i) (rt_heap rt)"

definition calm :: "string \<Rightarrow> world \<Rightarrow> world \<Rightarrow> bool" where
  "calm sid w w' = (w_now w \<le> w_now w' \<and>
     (private_session sid w \<and> heap_keyed (w_runtime w) \<longrightarrow>
        private_session sid w' \<and> heap_keyed (w_runtime w') \<and> the_session sid w' = the_session sid w))"

lemma heap_keyed_get: "heap_keyed rt \<Longrightarrow> s_id (session_object rt i) = i"
  by (auto simp: heap_keyed_def session_object_def list_all_iff empty_session_def split: option.split
      dest!: map_of_SomeD)

lemma js_set_subset: "set (js_set k v m) \<subseteq> insert (k, v) (set m)"
  by (induction m) auto

lemma heap_keyed_set:
  "heap_keyed rt \<Longrightarrow> s_id s = i \<Longrightarrow> heap_keyed (rt\<lparr> rt_heap := js_set i s (rt_heap rt) \<rparr>)"
  using js_set_subset [of i s "rt_heap rt"] by (auto simp: heap_keyed_def list_all_iff)

lemma heap_keyed_cong: "rt_heap rt' = rt_heap rt \<Longrightarrow> heap_keyed rt' = heap_keyed rt"
  by (simp add: heap_keyed_def)

lemma session_object_cong: "rt_heap rt' = rt_heap rt \<Longrightarrow> session_object rt' = session_object rt"
  by (simp add: session_object_def fun_eq_iff)

text \<open>The operations of the runtime store that write to the heap are these three.\<close>

fun writes_heap :: "runtime_op \<Rightarrow> bool" where
  "writes_heap (R_Put _) = True"
| "writes_heap (R_Joined _ _) = True"
| "writes_heap (R_Left _ _) = True"
| "writes_heap _ = False"

lemma revoke_heap: "rt_heap (revoke_member_token code m i rt) = rt_heap rt"
  by (simp add: revoke_member_token_def Let_def split: prod.split option.split)

lemma blocked_heap: "rt_heap (snd (is_member_token_blocked t code tok rt)) = rt_heap rt"
proof -
  obtain b where "prune_blocked_member_tokens t code rt
       = (filter_active_blocked_member_tokens (blocks_of rt code) t, rt\<lparr> rt_blocked := b \<rparr>)"
    by (rule prune_blocked_shape)
  then show ?thesis by (simp add: is_member_token_blocked_def)
qed

lemma evict_heap: "rt_heap (evict_member_token t code m tok u rt) = rt_heap rt"
proof -
  obtain b where "evict_member_token t code m tok u rt = revoke_member_token code m None (rt\<lparr> rt_blocked := b \<rparr>)"
    by (rule evict_as_revoke)
  then show ?thesis by (simp add: revoke_heap)
qed

lemma heap_frame:
  assumes "\<not> writes_heap op"
  shows "rt_heap (runtime_step ret op rt) = rt_heap rt"
  using assms
  by (cases op)
     (simp_all add: register_session_def unregister_session_def record_event_def prune_events_def
       get_recent_event_counts_def get_runtime_room_def get_or_create_room_def add_member_def
       find_member_id_by_token_def blocked_heap remove_member_def revoke_heap evict_heap
       claim_slot_def release_slot_def acquire_lock_def release_lock_def has_room_residue_def
       mark_room_generation_def delete_runtime_room_def heartbeat_node_def purge_node_status_def
       prune_frame Let_def split: prod.split option.split)

lemma session_object_set:
  "session_object (rt\<lparr> rt_heap := js_set i s (rt_heap rt) \<rparr>) j = (if j = i then s else session_object rt j)"
  by (simp add: session_object_def)

lemma put_session_object:
  "session_object (put_session s rt) j = (if j = s_id s then s else session_object rt j)"
  by (simp add: put_session_def session_object_def)

lemma heap_keyed_put: "heap_keyed rt \<Longrightarrow> heap_keyed (put_session s rt)"
  unfolding put_session_def by (rule heap_keyed_set) simp_all

lemma session_object_index [simp]:
  "session_object (rt\<lparr> rt_room_sessions := x \<rparr>) = session_object rt"
  "heap_keyed (rt\<lparr> rt_room_sessions := x \<rparr>) = heap_keyed rt"
  by (simp_all add: session_object_def heap_keyed_def fun_eq_iff)

lemma get_session_id: "heap_keyed rt \<Longrightarrow> get_session rt i = Some s \<Longrightarrow> s_id s = i"
  by (auto simp: get_session_def heap_keyed_get split: if_splits)

lemma mark_session_heap:
  assumes "heap_keyed rt"
  shows "heap_keyed (mark_session_joined_room i c rt)" "heap_keyed (mark_session_left_room i d rt)"
    and "j \<noteq> i \<Longrightarrow> session_object (mark_session_joined_room i c rt) j = session_object rt j"
    and "j \<noteq> i \<Longrightarrow> session_object (mark_session_left_room i d rt) j = session_object rt j"
  using assms get_session_id [OF assms, of i]
  by (auto simp: mark_session_joined_room_def mark_session_left_room_def Let_def heap_keyed_put
      put_session_object split: option.split)

lemma spared_step:
  assumes "spares_session sid e" and "heap_keyed (w_runtime w)"
  shows "heap_keyed (w_runtime (env_step e w)) \<and> the_session sid (env_step e w) = the_session sid w"
proof (cases e)
  case (Env_Runtime op)
  show ?thesis
  proof (cases "writes_heap op")
    case True
    then show ?thesis
      using assms Env_Runtime
      by (cases op) (simp_all add: the_session_def put_session_object heap_keyed_put mark_session_heap)
  next
    case False
    note same = heap_frame [OF False, of env_retention_ms "w_runtime w"]
    show ?thesis
      using assms(2) Env_Runtime heap_keyed_cong [OF same] session_object_cong [OF same]
      by (simp add: the_session_def)
  qed
qed (use assms in \<open>simp_all add: the_session_def\<close>)

lemma spared_steps:
  assumes "list_all (spares_session sid) es" and "heap_keyed (w_runtime w)"
  shows "heap_keyed (w_runtime (fold env_step es w)) \<and> the_session sid (fold env_step es w) = the_session sid w"
  using assms
proof (induction es arbitrary: w)
  case (Cons e es)
  have "heap_keyed (w_runtime (env_step e w)) \<and> the_session sid (env_step e w) = the_session sid w"
    using Cons.prems by (intro spared_step) simp_all
  then show ?case using Cons.IH [of "env_step e w"] Cons.prems(1) by simp
qed simp

lemma calm_interfere: "calm sid w (interfere w)"
proof (cases "w_sched w")
  case (Cons es rest)
  have "list_all (spares_session sid) es" "private_session sid (w\<lparr> w_sched := rest \<rparr>)"
    if "private_session sid w"
    using that Cons by (simp_all add: private_session_def)
  then show ?thesis
    using spared_steps [of sid es "w\<lparr> w_sched := rest \<rparr>"] interfere_now [of w] Cons
    by (simp add: calm_def interfere_def private_session_def the_session_def)
qed (simp add: calm_def interfere_def)

lemma delete_runtime_heap: "rt_heap (snd (delete_runtime_room code gen rt)) = rt_heap rt"
  by (simp add: delete_runtime_room_def)

interpretation calm: collector "calm sid" for sid
proof
  fix w w' w'' :: world and fs d n k code gen now tr
  show "calm sid w w" by (simp add: calm_def)
  show "calm sid w w' \<Longrightarrow> calm sid w' w'' \<Longrightarrow> calm sid w w''" by (auto simp: calm_def)
  show "calm sid w (interfere w)" by (rule calm_interfere)
  show "calm sid w (w\<lparr> w_faults := fs \<rparr>)"
    "calm sid w (w\<lparr> w_debts := d, w_fresh := n, w_expired_deleted := k \<rparr>)"
    "calm sid w (w\<lparr> w_rooms := snd (delete_expired_room code now (w_rooms w)), w_trace := tr \<rparr>)"
    by (simp_all add: calm_def private_session_def the_session_def)
  show "calm sid w (w\<lparr> w_runtime := snd (delete_runtime_room code gen (w_runtime w)), w_trace := tr \<rparr>)"
    using heap_keyed_cong [OF delete_runtime_heap, of code gen "w_runtime w"]
      session_object_cong [OF delete_runtime_heap, of code gen "w_runtime w"]
    by (simp add: calm_def private_session_def the_session_def)
qed

text \<open>The request's own operations that leave sessions alone.\<close>

lemma calm_runtime:
  assumes "rt_heap rt = rt_heap (w_runtime w)"
  shows "calm sid w (w\<lparr> w_runtime := rt \<rparr>)"
  using heap_keyed_cong [OF assms] session_object_cong [OF assms]
  by (simp add: calm_def private_session_def the_session_def)

lemma calm_silent:
  "w_runtime w' = w_runtime w \<Longrightarrow> w_sched w' = w_sched w \<Longrightarrow> w_now w \<le> w_now w' \<Longrightarrow> calm sid w w'"
  by (simp add: calm_def private_session_def the_session_def)

lemma calm_runtime_call:
  assumes "\<And>t rt. rt_heap (snd (g t rt)) = rt_heap rt"
  shows "calm.keeps sid (runtime_call g) w" "calm.keeps sid (runtime_sync g) w"
proof -
  have "calm sid w' (snd (case g (w_now w') (w_runtime w') of (x, rt) \<Rightarrow> (x, w'\<lparr> w_runtime := rt \<rparr>)))" for w'
    using assms [of "w_now w'" "w_runtime w'"] by (auto split: prod.split intro: calm_runtime)
  then show "calm.keeps sid (runtime_call g) w" "calm.keeps sid (runtime_sync g) w"
    unfolding runtime_call_def runtime_sync_def by (auto intro: calm.keeps_call calm.keeps_sync)
qed

lemma calm_store_calls:
  "calm.keeps sid (read_room code) w"
  "calm.keeps sid (write_room code g p) w"
  "calm.keeps sid (next_uuid opt) w"
  "calm.keeps sid (next_token opt) w"
  "calm.keeps sid (get_playback_authority code) w"
  "calm.keeps sid (record_playback_authority code a k src) w"
  unfolding read_room_def write_room_def next_uuid_def next_token_def get_playback_authority_def
    record_playback_authority_def sweep_expired_playback_authorities_def Let_def
  by (auto intro!: calm.keeps_call calm.keeps_sync calm.keeps_put calm_silent
      simp: calm.R_refl issue_def split: prod.split option.split)

end
