(* ===== verification/Room_Safety.thy ===== *)
theory Room_Safety
  imports Service_Rules
begin

text \<open>
  What the member-facing requests of \<open>room-service.ts\<close> may write to a room, under every
  interleaving with other requests and every failure of a store call.
\<close>

text \<open>The world of the witnesses: Alice sits in a room that shares a video.\<close>

definition watch_url :: string where "watch_url = ''https://www.bilibili.com/video/BV1''"

definition watched_video :: shared_video where
  "watched_video = \<lparr> sv_video_id = ''BV1'', sv_url = watch_url, sv_title = ''t'',
     sv_shared_by_member_id = Some ''alice'', sv_shared_by_display_name = None \<rparr>"

definition alice_session :: session where
  "alice_session = (empty_session ''s1'')\<lparr> s_room_code := Some ''ABC234'', s_member_id := Some ''alice'',
     s_member_token := Some ''tok'', s_display_name := ''Alice'', s_joined_at := Some 3 \<rparr>"

definition alice_world :: world where
  "alice_world = \<lparr> w_now = 100, w_fresh = 0,
     w_rooms = \<lparr> st_rooms = [(''ABC234'', sample_room\<lparr> pr_shared_video := Some watched_video \<rparr>)],
                 st_announcement = None \<rparr>,
     w_runtime = snd (add_member 0 ''ABC234'' ''alice'' ''s1'' ''tok'' (put_session alice_session empty_runtime_store)),
     w_authority = [], w_last_sweep = 0, w_closing = False, w_debts = [], w_expired_deleted = 0,
     w_closed_sockets = [], w_faults = [], w_sched = [], w_trace = [] \<rparr>"

definition sample_config :: security_config where
  "sample_config = \<lparr> allowed_origins = [], allow_missing_origin_in_dev = False,
     allow_any_firefox_extension_origin = False, trusted_proxy_addresses = [], max_connections_per_ip = 10,
     connection_attempts_per_minute = 20, max_members_per_room = 2, max_message_bytes = 8192,
     invalid_message_close_threshold = 3, ws_heartbeat_enabled = True, ws_heartbeat_interval_ms = 30000,
     metrics_token = None,
     rate_limits = \<lparr> room_create_per_minute = 3, room_join_per_minute = 10, video_share_per_10_seconds = 3,
       playback_update_per_second = 8, playback_update_burst = 12, sync_request_per_10_seconds = 6,
       sync_ping_per_second = 1, sync_ping_burst = 2, admin_login_failures_per_ip_per_minute = 10,
       admin_login_failures_per_username_per_minute = 5 \<rparr> \<rparr>"

definition sample_options :: service_options where
  "sample_options = \<lparr> so_config = sample_config, so_empty_room_ttl_ms = 900000,
     so_retention_ms = default_member_token_retention_ms, so_code = (\<lambda>n. replicate n CHR ''C''),
     so_token = (\<lambda>n. replicate n CHR ''T''), so_uuid = (\<lambda>n. replicate n CHR ''U''),
     so_url_parser = splitting_parser, so_number_string = (\<lambda>_. ''1'') \<rparr>"

definition played :: playback_state where
  "played = \<lparr> pb_url = watch_url, pb_current_time = 7, pb_play_state = Playing, pb_sync_intent = None,
     pb_user_initiated = None, pb_natural_end = None, pb_playback_rate = 1, pb_updated_at = 5,
     pb_server_time = 999999, pb_actor_id = ''mallory'', pb_seq = 1 \<rparr>"

subsection \<open>Authentication\<close>

definition authenticated :: "string \<Rightarrow> string \<Rightarrow> persisted_room \<Rightarrow> world \<Rightarrow> bool" where
  "authenticated sid member_token room w =
     (case s_member_id (the_session sid w) of
        None \<Rightarrow> False
      | Some m \<Rightarrow> m \<noteq> []
          \<and> s_member_token (the_session sid w) = Some member_token
          \<and> js_get (members_of (w_runtime w) (pr_code room)) m = Some sid
          \<and> js_get (tokens_of (w_runtime w) (pr_code room)) m = Some member_token)"

lemma bindE_Inr:
  "bindE m k w = (Inr x, w'') \<longleftrightarrow> (\<exists>y w'. m w = (Inr y, w') \<and> k y w' = (Inr x, w''))"
  by (auto simp: bindE_def split: prod.split sum.split)

lemma raise_not_Inr [simp]: "raiseE e w \<noteq> (Inr x, w')" "bindE m (\<lambda>_. raiseE e) w \<noteq> (Inr x, w')"
  by (auto simp: raiseE_def bindE_def split: prod.split sum.split)

lemma returnE_eq [simp]: "returnE x w = (r, w') \<longleftrightarrow> r = Inr x \<and> w' = w"
  by (auto simp: returnE_def)

lemma getE_eq [simp]: "getE f w = (r, w') \<longleftrightarrow> r = Inr (f w) \<and> w' = w"
  by (auto simp: getE_def)

lemma runtime_sync_Inr:
  "runtime_sync f w = (r, w') \<longleftrightarrow>
     r = Inr (fst (f (w_now w) (w_runtime w))) \<and> w' = w\<lparr> w_runtime := snd (f (w_now w) (w_runtime w)) \<rparr>"
  by (auto simp: runtime_sync_def syncE_def split: prod.split)

lemma require_member_token_Inr:
  "require_member_token a sid tok w = (Inr u, w') \<longleftrightarrow> w' = w
     \<and> truthy (s_member_id (the_session sid w)) \<and> truthy (s_member_token (the_session sid w))
     \<and> s_member_token (the_session sid w) = Some tok
     \<and> js_get (rr_member_tokens a) (the (s_member_id (the_session sid w))) = Some tok"
  by (auto simp: require_member_token_def bindE_Inr)

lemma active_views:
  assumes "js_get (rt_rooms rt) code = Some a"
  shows "rr_members a = members_of rt code" "rr_member_tokens a = tokens_of rt code"
  using assms by (simp_all add: members_of_def tokens_of_def)

text \<open>The authentication succeeds only for a session that is seated in the room it resolved.\<close>

lemma require_authenticates:
  assumes "require_joined_room_session sid tok w = (Inr room, w1)"
  shows "authenticated sid tok room w1"
proof -
  obtain w0 a where run: "w1 = w0\<lparr> w_runtime := snd (get_runtime_room (w_now w0) (pr_code room) (w_runtime w0)) \<rparr>"
    and a: "fst (get_runtime_room (w_now w0) (pr_code room) (w_runtime w0)) = Some a"
    and seat: "js_get (rr_members a) (the (s_member_id (the_session sid w1))) = Some sid"
    and tok: "truthy (s_member_id (the_session sid w1))" "s_member_token (the_session sid w1) = Some tok"
      "js_get (rr_member_tokens a) (the (s_member_id (the_session sid w1))) = Some tok"
    using assms unfolding require_joined_room_session_def
    by (auto simp: bindE_Inr runtime_sync_Inr require_member_token_Inr split: if_splits option.splits)
  have "js_get (rt_rooms (w_runtime w1)) (pr_code room) = Some a"
    using a run by (simp add: get_runtime_room_def Let_def)
  then show ?thesis
    using seat tok active_views [of "w_runtime w1" "pr_code room" a]
    by (auto simp: authenticated_def elim!: truthyE)
qed

datatype member_request =
    Req_Share shared_video "playback_state option"
  | Req_Playback playback_state
  | Req_Profile string
  | Req_State

fun run_member_request :: "service_options \<Rightarrow> string \<Rightarrow> string \<Rightarrow> member_request \<Rightarrow> unit io" where
  "run_member_request opt sid tok (Req_Share v p) =
     bindE (share_video_for_session opt sid tok v p) (\<lambda>_. returnE ())"
| "run_member_request opt sid tok (Req_Playback p) =
     bindE (update_playback_for_session opt sid tok p) (\<lambda>_. returnE ())"
| "run_member_request opt sid tok (Req_Profile n) =
     bindE (update_profile_for_session opt sid tok n) (\<lambda>_. returnE ())"
| "run_member_request opt sid tok Req_State =
     bindE (get_room_state_for_session sid tok) (\<lambda>_. returnE ())"

lemma bindE_assoc: "bindE (bindE m k) h = bindE m (\<lambda>x. bindE (k x) h)"
  by (auto simp: bindE_def fun_eq_iff split: prod.split sum.split)

lemma member_request_begins:
  "\<exists>k. run_member_request opt sid tok req = bindE (require_joined_room_session sid tok) k"
  by (cases req; hypsubst; simp only: run_member_request.simps share_video_for_session_def
      update_playback_for_session_def update_profile_for_session_def get_room_state_for_session_def
      bindE_assoc; rule exI; rule refl)

lemma collections_are_no_updates: "list_all is_collection es \<Longrightarrow> \<not> list_ex is_update es"
proof -
  have "\<not> is_update e" if "is_collection e" for e using that by (cases e) simp_all
  then show "list_all is_collection es \<Longrightarrow> \<not> list_ex is_update es"
    by (auto simp: list_all_iff list_ex_iff)
qed

lemma bind_fails: "m w = (Inl e, w') \<Longrightarrow> bindE m k w = (Inl e, w')"
  by (simp add: bindE_def)



subsection \<open>Playback reports\<close>

text \<open>What a playback report may write, given the room and session it was judged against.\<close>

fun playback_write_ok ::
    "url_parser \<Rightarrow> playback_state \<Rightarrow> persisted_room \<Rightarrow> session \<Rightarrow> rat \<Rightarrow> issued \<Rightarrow> bool" where
  "playback_write_ok U report room s since (Issue_Update t code g p _) =
     (code = pr_code room \<and> g = At_Version (pr_version room)
      \<and> (case pr_shared_video room of None \<Rightarrow> False
         | Some shared \<Rightarrow> urls_agree U (sv_url shared) (pb_url report))
      \<and> (case rp_playback p of
           Some (Some next) \<Rightarrow>
             since \<le> pb_server_time next \<and> pb_server_time next \<le> t
             \<and> next = report\<lparr> pb_actor_id := session_member_id s, pb_server_time := pb_server_time next \<rparr>
             \<and> p = playback_patch next (pb_server_time next)
         | _ \<Rightarrow> False))"
| "playback_write_ok U report room s since e = is_collection e"

lemma issues_release_slot [issues_intros]: "issues_at P (release_message_slot_best_effort code k tok) w"
  unfolding release_message_slot_best_effort_def by (intro issues_intros)

lemma issues_authority [issues_intros]:
  "issues_at P (get_playback_authority code) w"
  "issues_at P (record_playback_authority code a kind src) w"
  unfolding get_playback_authority_def record_playback_authority_def sweep_expired_playback_authorities_def
  by (auto intro!: issues_sync issues_put simp: Let_def split: option.split)

lemma issues_apply_playback:
  assumes "pr_shared_video room = Some shared" "urls_agree U (sv_url shared) (pb_url report)"
    and "next = report\<lparr> pb_actor_id := session_member_id s, pb_server_time := now \<rparr>"
    and "since \<le> now" "now \<le> w_now w"
  shows "issues_at (playback_write_ok U report room s since) (apply_playback key tok room next kind now) w"
  unfolding apply_playback_def Let_def
  by (intro issues_intros) (use assms in \<open>auto simp: playback_patch_def empty_patch_def\<close>)

lemma now_of_get_authority: "get_playback_authority code w = (r, w') \<Longrightarrow> w_now w' = w_now w"
  by (auto simp: get_playback_authority_def syncE_def split: option.splits if_splits)

lemma claim_slot_heap: "rt_heap (snd (claim_slot t code k tok e rt)) = rt_heap rt"
  by (simp add: claim_slot_def)

lemma next_uuid_now: "next_uuid opt w = (r, w') \<Longrightarrow> w_now w' = w_now w"
  by (auto simp: next_uuid_def syncE_def)

definition playback_continuation ::
    "service_options \<Rightarrow> string \<Rightarrow> playback_state \<Rightarrow> persisted_room \<Rightarrow> (persisted_room option \<times> bool) io"
  where
  "playback_continuation opt sid playback room =
     bindE (getE (the_session sid)) (\<lambda>s.
     let code = pr_code room; key = playback_dedup_key opt (session_member_id s) sid (pb_seq playback) in
     bindE (next_uuid opt) (\<lambda>token.
     bindE clock (\<lambda>now0.
     bindE (runtime_call (\<lambda>t rt. claim_slot t code key token (now0 + 10000) rt)) (\<lambda>claimed.
       if \<not> claimed then returnE (None, True)
       else
         let reject = bindE (release_message_slot_best_effort code key token)
               (\<lambda>_. raiseE (Service Invalid_Message Reason_Invalid_Message))
         in case pr_shared_video room of
              None \<Rightarrow> reject
            | Some shared \<Rightarrow>
                if \<not> urls_agree (so_url_parser opt) (sv_url shared) (pb_url playback) then reject
                else
                  bindE clock (\<lambda>now.
                  bindE (getE (the_session sid)) (\<lambda>s'.
                  let next = playback\<lparr> pb_actor_id := session_member_id s', pb_server_time := now \<rparr>;
                      kind = derive_playback_authority_kind (pr_playback room) next in
                  bindE (get_playback_authority code) (\<lambda>authority.
                    if \<not> accepts (decide_playback_acceptance (pr_playback room) authority next now)
                    then bindE (get_playback_authority code) (\<lambda>_. returnE (Some room, True))
                    else apply_playback key token room next kind now)))))))"

lemma update_playback_split:
  "update_playback_for_session opt sid tok p
     = bindE (require_joined_room_session sid tok) (playback_continuation opt sid p)"
  by (simp add: update_playback_for_session_def playback_continuation_def [abs_def])

lemma issues_playback_continuation:
  assumes "private_session sid w1" "heap_keyed (w_runtime w1)"
  shows "issues_at (playback_write_ok (so_url_parser opt) p room (the_session sid w1) (w_now w1))
           (playback_continuation opt sid p room) w1"
proof -
  have claim: "w_now w1 \<le> w_now w3 \<and> the_session sid w3 = the_session sid w1"
    if "next_uuid opt w1 = (Inr u, w2)"
      "runtime_call (\<lambda>t rt. claim_slot t c k tk e rt) w2 = (Inr cl, w3)" for u w2 c k tk e cl w3
  proof -
    have "calm sid w1 w2" by (rule calm.keepsD [OF calm_store_calls(3) that(1)])
    moreover have "calm sid w2 w3"
      by (rule calm.keepsD [OF calm_runtime_call(1) that(2)]) (rule claim_slot_heap)
    ultimately have "calm sid w1 w3" by (rule calm.R_trans)
    then show ?thesis using assms by (simp add: calm_def)
  qed
  show ?thesis
    unfolding playback_continuation_def Let_def
    by (intro issues_intros issues_apply_playback refl)
       (auto simp: clock_def dest!: now_of_get_authority dest: claim)
qed

text \<open>
  C10. Whatever a playback report writes carries the server's stamp: the acting member is the
  authenticated session's and the server time is the server's own clock during the request,
  never what the client sent; the rest of the report is written as it was sent. It is written
  only to the room the report was judged against, at the version it was judged at, and only
  when the reported address and the room's shared video are the same video.
\<close>

theorem playback_writes_are_stamped:
  assumes "private_session sid w1" and "heap_keyed (w_runtime w1)"
    and "require_joined_room_session sid tok w = (Inr room, w1)"
    and "e \<in> set (issued_by (update_playback_for_session opt sid tok report) w)" and "is_update e"
  shows "playback_write_ok (so_url_parser opt) report room (the_session sid w1) (w_now w1) e"
proof -
  let ?P = "playback_write_ok (so_url_parser opt) report room (the_session sid w1) (w_now w1)"
  have "is_collection e' \<Longrightarrow> ?P e'" for e' by (cases e') simp_all
  then have "issues_at ?P (require_joined_room_session sid tok) w"
    using issues_at_mono [OF issues_require] by blast
  then have "issues_at ?P (update_playback_for_session opt sid tok report) w"
    unfolding update_playback_split
    using issues_playback_continuation [OF assms(1,2)] assms(3) by (auto intro!: issues_bind)
  then show ?thesis using assms(4) by (auto simp: issues_at_iff list_all_iff)
qed

text \<open>The forged actor and the forged server time of the report do not get through.\<close>

definition stamped_write :: issued where
  "stamped_write = Issue_Update 100 ''ABC234'' (At_Version 0)
     (playback_patch (played\<lparr> pb_actor_id := ''alice'', pb_server_time := 100 \<rparr>) 100) True"

theorem playback_writes_are_stamped_witness:
  "playback_write_ok splitting_parser played (sample_room\<lparr> pr_shared_video := Some watched_video \<rparr>)
     alice_session 100 stamped_write"
proof -
  obtain w1 where run: "require_joined_room_session ''s1'' ''tok'' alice_world
      = (Inr (sample_room\<lparr> pr_shared_video := Some watched_video \<rparr>), w1)"
    and fine: "private_session ''s1'' w1" "heap_keyed (w_runtime w1)"
    and same: "the_session ''s1'' w1 = alice_session" "w_now w1 = 100"
  proof
    show "require_joined_room_session ''s1'' ''tok'' alice_world
      = (Inr (sample_room\<lparr> pr_shared_video := Some watched_video \<rparr>), alice_world)"
      by code_simp
  qed (code_simp+)
  have "stamped_write \<in> set (issued_by (update_playback_for_session sample_options ''s1'' ''tok'' played) alice_world)"
    "is_update stamped_write"
    by code_simp+
  from playback_writes_are_stamped [OF fine run this] show ?thesis
    by (simp add: same sample_options_def)
qed

subsection \<open>Waiting for the join lock\<close>

lemma acquire_lock_heap: "rt_heap (snd (acquire_lock t code k tok e rt)) = rt_heap rt"
  by (simp add: acquire_lock_def)

lemma lock_attempt_now:
  assumes "next_uuid opt w = (Inr token, w1)"
    and "runtime_call (\<lambda>t. acquire_lock t code k token e) w1 = (r, w2)"
  shows "w_now w \<le> w_now w2"
proof -
  have "calm [] w w1" by (rule calm.keepsD [OF calm_store_calls(3) assms(1)])
  moreover have "calm [] w1 w2"
    by (rule calm.keepsD [OF calm_runtime_call(1) assms(2)]) (rule acquire_lock_heap)
  ultimately show ?thesis unfolding calm_def by linarith
qed

lemma sleep_now: "sleep d w = (r, w') \<Longrightarrow> r = Inr () \<and> w_now w + d \<le> w_now w'"
  using interfere_now [of "w\<lparr> w_now := w_now w + d \<rparr>"]
  by (auto simp: sleep_def bindE_def putE_def)

text \<open>A turn that ends without an answer came before the deadline and took its 25 ms.\<close>

lemma lock_turn:
  assumes "acquire_lock_loop (Suc n) opt code deadline w = (Inr (False, None), w')"
  obtains w1 where "w_now w < deadline" "w_now w + 25 \<le> w_now w1"
    "acquire_lock_loop n opt code deadline w1 = (Inr (False, None), w')"
proof -
  obtain token w1 got w2 u w3 where run: "next_uuid opt w = (Inr token, w1)"
      "runtime_call (\<lambda>t. acquire_lock t code join_admission_lock_key token
          (w_now w + join_admission_lock_ttl_ms)) w1 = (Inr got, w2)"
    and late: "\<not> deadline \<le> w_now w2"
    and slept: "sleep join_admission_lock_retry_interval_ms w2 = (Inr u, w3)"
    and again: "acquire_lock_loop n opt code deadline w3 = (Inr (False, None), w')"
    using assms by (auto simp: bindE_Inr clock_def Let_def split: if_splits)
  have "w_now w \<le> w_now w2" by (rule lock_attempt_now [OF run])
  moreover have "w_now w2 + 25 \<le> w_now w3"
    using sleep_now [OF slept] by (simp add: join_admission_lock_retry_interval_ms_def)
  ultimately show ?thesis using late again by (intro that [of w3]) linarith+
qed

lemma lock_loop_ends:
  "deadline \<le> w_now w + 25 * of_nat n \<Longrightarrow>
     acquire_lock_loop (Suc n) opt code deadline w \<noteq> (Inr (False, None), w')"
proof (induction n arbitrary: w)
  case 0
  then show ?case by (auto elim: lock_turn simp del: acquire_lock_loop.simps)
next
  case (Suc n)
  show ?case
  proof
    assume "acquire_lock_loop (Suc (Suc n)) opt code deadline w = (Inr (False, None), w')"
    then obtain w1 where "w_now w + 25 \<le> w_now w1"
      and again: "acquire_lock_loop (Suc n) opt code deadline w1 = (Inr (False, None), w')"
      by (rule lock_turn)
    then have "deadline \<le> w_now w1 + 25 * of_nat n" using Suc.prems by (simp add: algebra_simps)
    with Suc.IH again show False by blast
  qed
qed

text \<open>
  Waiting for a room's join lock ends: however long other requests hold the lock and
  however the clock jumps, the loop of attempts answers, with the lock or with the expiry of
  the five seconds it may wait, before its 201 turns are used up.
\<close>

theorem lock_fuel_suffices:
  "acquire_lock_loop lock_turns opt code (w_now w + join_admission_lock_max_wait_ms) w
     \<noteq> (Inr (False, None), w')"
proof -
  have "lock_turns = Suc 200" by (simp add: lock_turns_def)
  then show ?thesis
    using lock_loop_ends [of "w_now w + join_admission_lock_max_wait_ms" w 200]
    by (simp add: join_admission_lock_max_wait_ms_def del: acquire_lock_loop.simps)
qed

end
