(* ===== verification/Room_Sharing.thy ===== *)
theory Room_Sharing
  imports Room_Safety
begin

text \<open>
  Sharing a video (\<open>shareVideoForSession\<close> of \<open>room-service.ts\<close>): what the optimistic loop
  writes, how often, and for whom.
\<close>

subsection \<open>Rooms stay under their codes\<close>

definition keyed :: "world \<Rightarrow> world \<Rightarrow> bool" where
  "keyed w w' = (room_store_wf (w_rooms w) \<longrightarrow> room_store_wf (w_rooms w'))"

lemma env_step_keyed: "room_store_wf (w_rooms w) \<Longrightarrow> room_store_wf (w_rooms (env_step e w))"
  by (cases e) (simp_all add: room_store_wf_step)

lemma fold_env_keyed: "room_store_wf (w_rooms w) \<Longrightarrow> room_store_wf (w_rooms (fold env_step es w))"
  by (induction es arbitrary: w) (simp_all add: env_step_keyed)

interpretation keyed: collector keyed
proof
  fix w w' w'' :: world and fs d n k code gen now tr
  show "keyed w w" by (simp add: keyed_def)
  show "keyed w w' \<Longrightarrow> keyed w' w'' \<Longrightarrow> keyed w w''" by (simp add: keyed_def)
  show "keyed w (interfere w)"
    by (auto simp: keyed_def interfere_def fold_env_keyed split: list.split)
  show "keyed w (w\<lparr> w_faults := fs \<rparr>)"
    "keyed w (w\<lparr> w_debts := d, w_fresh := n, w_expired_deleted := k \<rparr>)"
    "keyed w (w\<lparr> w_runtime := snd (delete_runtime_room code gen (w_runtime w)), w_trace := tr \<rparr>)"
    by (simp_all add: keyed_def)
  show "keyed w (w\<lparr> w_rooms := snd (delete_expired_room code now (w_rooms w)), w_trace := tr \<rparr>)"
    by (simp add: keyed_def room_store_wf_deletes)
qed

lemma keyed_write: "keyed.keeps (write_room code g p) w"
  unfolding write_room_def
  by (rule keyed.keeps_call)
     (auto simp: keyed_def issue_def split: prod.split dest!: sndI dest: room_store_wf_update)

lemma keyed_runtime: "keyed.keeps (runtime_call g) w" "keyed.keeps (runtime_sync g) w"
  unfolding runtime_call_def runtime_sync_def
  by (auto intro!: keyed.keeps_call keyed.keeps_sync simp: keyed_def split: prod.split)

lemma read_room_code:
  assumes "room_store_wf (w_rooms w)" and "read_room code w = (Inr (Some room), w')"
  shows "pr_code room = code"
proof -
  obtain w1 w2 where "keyed w w1" "(get_room (w_rooms w1) code, w1) = (Some room, w2)"
    using assms(2) unfolding read_room_def by (rule keyed.call_effect)
  then have "room_store_wf (w_rooms w1)" "get_room (w_rooms w1) code = Some room"
    using assms(1) by (auto simp: keyed_def)
  then show ?thesis by (rule room_store_wf_code)
qed

lemma resolve_room_code:
  assumes wf: "room_store_wf (w_rooms w)" and "resolve_room code w = (Inr (Some room), w')"
  shows "pr_code room = code"
proof -
  obtain found w1 where first: "read_room code w = (Inr (Some found), w1)"
    using assms(2) by (auto simp: resolve_room_def bindE_Inr split: option.splits)
  have wf1: "room_store_wf (w_rooms w1)"
    using keyed.keepsD [OF keyed.keeps_reads(1) first] wf by (simp add: keyed_def)
  consider "room = found" | oc w2 w3 where
      "bounded_wait resolution_unconfirmed (collect_expired_room code) w1 = (Inr oc, w2)"
      "read_room code w2 = (Inr (Some room), w3)"
    using assms(2) first
    by (auto simp: resolve_room_def bindE_Inr clock_def split: option.splits if_splits)
  then show ?thesis
  proof cases
    case 1
    then show ?thesis using read_room_code [OF wf] first by simp
  next
    case 2
    have "keyed.keeps (bounded_wait resolution_unconfirmed (collect_expired_room code)) w1"
      unfolding collect_expired_room_def collect_runtime_state_for_deleted_rooms_def
      by (intro keyed.keeps_intros keyed.keeps_expire keyed.keeps_ledger keyed.keeps_collect_all)
    then have "room_store_wf (w_rooms w2)" using keyed.keepsD 2(1) wf1 by (auto simp: keyed_def)
    then show ?thesis using read_room_code 2(2) by simp
  qed
qed

subsection \<open>What a share writes\<close>

fun won :: "issued \<Rightarrow> bool" where
  "won (Issue_Update _ _ _ _ ok) = ok"
| "won _ = False"

fun share_write ::
    "string \<Rightarrow> session \<Rightarrow> shared_video \<Rightarrow> playback_state option \<Rightarrow> rat \<Rightarrow> issued \<Rightarrow> bool" where
  "share_write code s video playback now (Issue_Update _ c (At_Version _) p _) =
     (c = code \<and> rp_owner_display_name p = None \<and> rp_expires_at p = Some None
      \<and> rp_last_active_at p = Some now
      \<and> rp_shared_video p = Some (Some \<lparr> sv_video_id = sv_video_id video, sv_url = sv_url video,
           sv_title = sv_title video, sv_shared_by_member_id = Some (session_member_id s),
           sv_shared_by_display_name = Some (s_display_name s) \<rparr>)
      \<and> (case rp_playback p of Some (Some q) \<Rightarrow>
           pb_url q = sv_url video \<and> pb_actor_id q = session_member_id s \<and> pb_server_time q = now
           \<and> pb_sync_intent q = None
           \<and> pb_current_time q = (case playback of None \<Rightarrow> 0 | Some r \<Rightarrow> pb_current_time r)
           \<and> pb_play_state q = (case playback of None \<Rightarrow> Paused | Some r \<Rightarrow> pb_play_state r)
         | _ \<Rightarrow> False))"
| "share_write code s video playback now _ = False"

lemma write_room_trace:
  assumes "write_room code g p w = (r, w')"
  obtains (failed) e where "r = Inl e" "w_trace w' = w_trace w"
    | (answered) t u where "r = Inr u" "w_trace w' = w_trace w @ [Issue_Update t code g p (update_succeeded u)]"
  using assms unfolding write_room_def callE_def Let_def issue_def
  by (fastforce split: list.splits option.splits prod.splits)

lemma record_authority_run:
  "\<exists>w'. record_playback_authority code a k src w = (Inr (), w') \<and> w_trace w' = w_trace w"
  by (auto simp: record_playback_authority_def sweep_expired_playback_authorities_def putE_def Let_def)

text \<open>One attempt writes at most once, and a write that wins ends the loop.\<close>

lemma share_action_trace:
  assumes "share_action sid video playback now room w = (r, w')"
    and s: "the_session sid w = s"
  obtains (failed) e where "r = Inl e" "w_trace w' = w_trace w"
    | (answered) t u where "r = Inr (case u of Updated x \<Rightarrow> Some x | _ \<Rightarrow> None)"
        "w_trace w' = w_trace w @ [Issue_Update t (pr_code room) (At_Version (pr_version room))
            (share_patch s video playback now) (update_succeeded u)]"
proof -
  obtain r1 w1 where wrote: "write_room (pr_code room) (At_Version (pr_version room))
      (share_patch s video playback now) w = (r1, w1)" by fastforce
  from wrote show ?thesis
  proof (cases rule: write_room_trace)
    case (failed e)
    then have "r = Inl e" "w' = w1"
      using assms wrote by (simp_all add: share_action_def bindE_def getE_def s)
    then show ?thesis using that(1) failed by simp
  next
    case (answered t u)
    obtain w2 where w2: "record_playback_authority (pr_code room)
        (pb_actor_id (shared_playback s video playback now)) Share_Kind From_Video_Share w1 = (Inr (), w2)"
      "w_trace w2 = w_trace w1" using record_authority_run by blast
    have "r = Inr (case u of Updated x \<Rightarrow> Some x | _ \<Rightarrow> None) \<and> w_trace w' = w_trace w1"
      using assms(1) wrote answered(1) w2
      by (auto simp: share_action_def bindE_def getE_def returnE_def s split: update_result.splits)
    then show ?thesis using that(2) answered(2) by simp
  qed
qed

lemma share_action_keeps: "calm.keeps sid (share_action sid v p now room) w"
    "keyed.keeps (share_action sid v p now room) w"
proof -
  have auth: "keyed.keeps (record_playback_authority code a k src) w" for code a k src w
    unfolding record_playback_authority_def
    by (rule keyed.keeps_put) (simp add: keyed_def sweep_expired_playback_authorities_def Let_def)
  show "calm.keeps sid (share_action sid v p now room) w"
    unfolding share_action_def by (intro calm.keeps_intros calm_store_calls)
  show "keyed.keeps (share_action sid v p now room) w"
    unfolding share_action_def by (intro keyed.keeps_intros keyed_write auth)
qed

definition own_world :: "string \<Rightarrow> session \<Rightarrow> world \<Rightarrow> bool" where
  "own_world sid s w = (private_session sid w \<and> heap_keyed (w_runtime w) \<and> room_store_wf (w_rooms w)
     \<and> the_session sid w = s)"

lemma own_world_keeps:
  assumes "own_world sid s w" "calm.keeps sid m w" "keyed.keeps m w" "m w = (r, w')"
  shows "own_world sid s w'"
  using assms calm.keepsD [OF assms(2,4)] keyed.keepsD [OF assms(3,4)]
  by (simp add: own_world_def calm_def keyed_def)

lemma collections_update_nothing: "list_all is_collection es \<Longrightarrow> filter is_update es = []"
  using collections_are_no_updates by (auto simp: filter_empty_conv list_ex_iff)

definition share_run ::
    "string \<Rightarrow> session \<Rightarrow> shared_video \<Rightarrow> playback_state option \<Rightarrow> rat \<Rightarrow> nat \<Rightarrow> bool \<Rightarrow> issued list \<Rightarrow> bool"
  where
  "share_run code s video playback now n nothing us =
     (length us \<le> n \<and> list_all (share_write code s video playback now) us
      \<and> length (filter won us) \<le> (if nothing then 0 else 1))"

lemma share_loop:
  assumes "own_world sid s w" and "version_attempts n code (share_action sid v p now) w = (r, w')"
  shows "\<exists>es. w_trace w' = w_trace w @ es
    \<and> share_run code s v p now n (r = Inr None) (filter is_update es)"
  using assms
proof (induction n arbitrary: w)
  case 0
  then show ?case by (simp add: share_run_def del: filter_filter)
next
  case (Suc n)
  obtain r1 w1 where resolve: "resolve_room code w = (r1, w1)" by fastforce
  obtain es1 where es1: "w_trace w1 = w_trace w @ es1" "filter is_update es1 = []"
    using issues_resolve [of code w] resolve collections_update_nothing by (auto simp: issues_at_def)
  have own1: "own_world sid s w1"
    by (rule own_world_keeps [OF Suc.prems(1) calm.keeps_resolve keyed.keeps_resolve resolve])
  show ?case
  proof (cases "\<exists>room. r1 = Inr (Some room)")
    case False
    then have "w' = w1"
      using Suc.prems(2) resolve by (cases r1) (auto simp: bindE_def returnE_def split: option.splits)
    then show ?thesis using es1 by (auto simp: share_run_def simp del: filter_filter)
  next
    case True
    then obtain room where r1: "r1 = Inr (Some room)" by blast
    have code: "pr_code room = code"
      using resolve_room_code resolve r1 Suc.prems(1) by (auto simp: own_world_def)
    obtain r2 w2 where act: "share_action sid v p now room w1 = (r2, w2)" by fastforce
    have own2: "own_world sid s w2" by (rule own_world_keeps [OF own1 share_action_keeps act])
    have s1: "the_session sid w1 = s" using own1 by (simp add: own_world_def)
    from act s1 show ?thesis
    proof (cases rule: share_action_trace)
      case (failed e)
      then have "w' = w2" using Suc.prems(2) resolve r1 act by (simp add: bindE_def)
      then show ?thesis using es1 failed by (auto simp: share_run_def simp del: filter_filter)
    next
      case (answered t u)
      let ?e = "Issue_Update t code (At_Version (pr_version room)) (share_patch s v p now) (update_succeeded u)"
      have e: "is_update ?e" "share_write code s v p now ?e"
        by (simp_all add: share_patch_def shared_playback_def empty_patch_def split: option.split)
      show ?thesis
      proof (cases "update_succeeded u")
        case True
        then have "w' = w2" "r \<noteq> Inr None" using Suc.prems(2) resolve r1 act answered(1)
          by (cases u; auto simp: bindE_def returnE_def)+
        then show ?thesis using es1 answered(2) e code
          by (intro exI [of _ "es1 @ [?e]"]) (simp add: share_run_def del: filter_filter)
      next
        case False
        then have "version_attempts n code (share_action sid v p now) w2 = (r, w')"
          using Suc.prems(2) resolve r1 act answered(1) by (cases u) (auto simp: bindE_def)
        from Suc.IH [OF own2 this] obtain es where es: "w_trace w' = w_trace w2 @ es"
          "share_run code s v p now n (r = Inr None) (filter is_update es)" by blast
        then show ?thesis using es1 answered(2) e code False
          by (intro exI [of _ "es1 @ ?e # es"]) (simp add: share_run_def del: filter_filter)
      qed
    qed
  qed
qed

lemma silent_trace: "issues_at (\<lambda>_. False) m w \<Longrightarrow> w_trace (snd (m w)) = w_trace w"
  by (auto simp: issues_at_def list_all_iff)

lemma silentD: "issues_at (\<lambda>_. False) m w \<Longrightarrow> m w = (r, w') \<Longrightarrow> w_trace w' = w_trace w"
  by (auto simp: issues_at_def list_all_iff)

definition share_continuation ::
    "service_options \<Rightarrow> string \<Rightarrow> shared_video \<Rightarrow> playback_state option \<Rightarrow> persisted_room \<Rightarrow> persisted_room io"
  where
  "share_continuation opt sid video playback room0 =
     bindE clock (\<lambda>now.
     bindE (getE (the_session sid)) (\<lambda>s.
     let code = pr_code room0; key = share_dedup_key opt (session_member_id s) video playback in
     bindE (next_uuid opt) (\<lambda>token.
     bindE (runtime_call (\<lambda>t rt. claim_slot t code key token (now + 5000) rt)) (\<lambda>claimed.
       if \<not> claimed then returnE room0
       else
         tryE (with_version_retry code (share_action sid video playback now))
           (\<lambda>e. bindE (release_message_slot_best_effort code key token) (\<lambda>_. raiseE e))
           (\<lambda>r. case r of
              None \<Rightarrow> bindE (release_message_slot_best_effort code key token) (\<lambda>_. raiseE internal_error)
            | Some room \<Rightarrow> returnE room)))))"

lemma share_split:
  "share_video_for_session opt sid tok v p
     = bindE (require_joined_room_session sid tok) (share_continuation opt sid v p)"
  by (simp add: share_video_for_session_def share_continuation_def [abs_def])

lemma release_trace:
  "w_trace (snd (bindE (release_message_slot_best_effort c k t) (\<lambda>_. raiseE e) w)) = w_trace w"
  by (intro silent_trace issues_bind issues_release_slot issues_raise)

lemma bind_run: "m w = (Inr x, w') \<Longrightarrow> bindE m k w = k x w'"
  by (simp add: bindE_def)

lemma bind_get: "bindE (getE f) k w = k (f w) w" "bindE clock k' w = k' (w_now w) w"
  by (simp_all add: bindE_def getE_def clock_def)

lemma share_continuation_run:
  assumes "own_world sid s w"
  shows "\<exists>es nothing. w_trace (snd (share_continuation opt sid v p room w)) = w_trace w @ es
    \<and> share_run (pr_code room) s v p (w_now w) max_version_retries nothing (filter is_update es)"
proof -
  let ?code = "pr_code room" and ?key = "share_dedup_key opt (session_member_id s) v p"
  have s: "the_session sid w = s" using assms by (simp add: own_world_def)
  obtain token w1 where uuid: "next_uuid opt w = (Inr token, w1)"
    by (auto simp: next_uuid_def syncE_def)
  let ?claim = "runtime_call (\<lambda>t rt. claim_slot t ?code ?key token (w_now w + 5000) rt)"
  obtain r2 w2 where claim: "?claim w1 = (r2, w2)" by fastforce
  have silent: "w_trace w1 = w_trace w" "w_trace w2 = w_trace w1"
    by (rule silentD [OF silent_calls(7) uuid], rule silentD [OF silent_calls(2) claim])
  have own1: "own_world sid s w1"
    by (rule own_world_keeps [OF assms calm.keeps_ledger(7) keyed.keeps_ledger(7) uuid])
  have own2: "own_world sid s w2"
    by (rule own_world_keeps [OF own1 calm_runtime_call(1) keyed_runtime(1) claim]) (rule claim_slot_heap)
  have none: "share_run ?code s v p (w_now w) n nothing []" for n nothing by (simp add: share_run_def)
  show ?thesis
  proof (cases "r2 = Inr True")
    case False
    then have "w_trace (snd (share_continuation opt sid v p room w)) = w_trace w @ []"
      using uuid claim silent s
      by (cases r2) (simp_all add: share_continuation_def bindE_def clock_def getE_def returnE_def Let_def)
    then show ?thesis using none by (metis filter.simps(1))
  next
    case True
    let ?loop = "with_version_retry ?code (share_action sid v p (w_now w))"
    obtain r3 w3 where loop: "?loop w2 = (r3, w3)" by fastforce
    obtain es where es: "w_trace w3 = w_trace w2 @ es"
      "share_run ?code s v p (w_now w) max_version_retries (r3 = Inr None) (filter is_update es)"
      using share_loop [OF own2] loop unfolding with_version_retry_def by blast
    let ?finish = "\<lambda>r. case r of
        None \<Rightarrow> bindE (release_message_slot_best_effort ?code ?key token) (\<lambda>_. raiseE internal_error)
      | Some room \<Rightarrow> returnE room"
    have "share_continuation opt sid v p room w = tryE ?loop
        (\<lambda>e. bindE (release_message_slot_best_effort ?code ?key token) (\<lambda>_. raiseE e)) ?finish w2"
      by (simp add: share_continuation_def bind_get s Let_def
          bind_run [where m = "next_uuid opt" and w = w, OF uuid]
          bind_run [where m = ?claim and w = w1, OF claim [unfolded True]])
    then have "w_trace (snd (share_continuation opt sid v p room w)) = w_trace w3"
      by (simp add: release_trace tryE_def loop returnE_def split: sum.split option.split)
    then show ?thesis using es silent by metis
  qed
qed

text \<open>
  C30. A share is attributed to the authenticated session and applied at most once: whatever
  the interleaving, everything it writes goes to the session's room, at a version it read, and
  is the video and playback of the message under the session's own member id and name, stamped
  with the time of the request, whatever the message says of these; it writes at most three
  times and at most one write wins.
\<close>

theorem shares_are_attributed:
  assumes "require_joined_room_session sid tok w = (Inr room, w1)"
    and "own_world sid s w1"
    and "us = filter is_update (issued_by (share_video_for_session opt sid tok v p) w)"
  shows "length us \<le> 3 \<and> length (filter won us) \<le> 1
    \<and> list_all (share_write (pr_code room) s v p (w_now w1)) us"
proof -
  obtain es1 where es1: "w_trace w1 = w_trace w @ es1" "filter is_update es1 = []"
    using issues_require [of sid tok w] assms(1) collections_update_nothing by (auto simp: issues_at_def)
  obtain es nothing where es: "w_trace (snd (share_continuation opt sid v p room w1)) = w_trace w1 @ es"
    "share_run (pr_code room) s v p (w_now w1) max_version_retries nothing (filter is_update es)"
    using share_continuation_run [OF assms(2)] by blast
  have "issued_by (share_video_for_session opt sid tok v p) w = es1 @ es"
    unfolding share_split issued_by_def bindE_def using assms(1) es(1) es1(1) by simp
  then show ?thesis using es(2) es1(2) assms(3)
    by (auto simp: share_run_def max_version_retries_def simp del: filter_filter split: if_splits)
qed

definition shared_write :: issued where
  "shared_write = Issue_Update 100 ''ABC234'' (At_Version 0) (share_patch alice_session watched_video None 100) True"

theorem shares_are_attributed_witness:
  "filter is_update (issued_by (share_video_for_session sample_options ''s1'' ''tok'' watched_video None) alice_world)
     = [shared_write]
   \<and> share_write ''ABC234'' alice_session watched_video None 100 shared_write"
proof
  show us: "filter is_update
      (issued_by (share_video_for_session sample_options ''s1'' ''tok'' watched_video None) alice_world)
     = [shared_write]" by code_simp
  have run: "require_joined_room_session ''s1'' ''tok'' alice_world
      = (Inr (sample_room\<lparr> pr_shared_video := Some watched_video \<rparr>), alice_world)" by code_simp
  have "own_world ''s1'' alice_session alice_world"
    unfolding own_world_def by (intro conjI) code_simp+
  from shares_are_attributed [OF run this us [symmetric]]
  show "share_write ''ABC234'' alice_session watched_video None 100 shared_write"
    by (simp add: sample_room_def create_persisted_room_def alice_world_def)
qed

end
