(* ===== verification/Room_Admission.thy ===== *)
theory Room_Admission
  imports Room_Sharing "HOL-Library.Sublist"
begin

text \<open>
  Admission to a room (\<open>joinRoomForSession\<close> of \<open>room-service.ts\<close>): the check of the room's
  capacity, the seat it leads to, and everything that may happen between the two.
\<close>

subsection \<open>Nobody else takes a seat\<close>

definition occupants :: "string \<Rightarrow> world \<Rightarrow> (string, string) js_map" where
  "occupants code w = members_of (w_runtime w) code"

fun seats_into :: "string \<Rightarrow> env_event \<Rightarrow> bool" where
  "seats_into code (Env_Runtime (R_Add _ c _ _ _)) = (c = code)"
| "seats_into code _ = False"

definition no_other_joins :: "string \<Rightarrow> world \<Rightarrow> bool" where
  "no_other_joins code w = list_all (list_all (\<lambda>e. \<not> seats_into code e)) (w_sched w)"

text \<open>Members come and go, but nobody joins: the members left are some of those before.\<close>

definition thins :: "string \<Rightarrow> world \<Rightarrow> world \<Rightarrow> bool" where
  "thins code w w' = (no_other_joins code w \<longrightarrow>
     no_other_joins code w' \<and> subseq (occupants code w') (occupants code w))"

lemma members_of_rooms: "rt_rooms rt' = rt_rooms rt \<Longrightarrow> members_of rt' = members_of rt"
  by (simp add: members_of_def fun_eq_iff)

lemma subseq_delete: "subseq (js_delete k m) m"
  by (simp add: js_delete_eq_filter subseq_filter_left)

lemma members_frame [simp]:
  "members_of (put_session s rt) = members_of rt"
  "members_of (register_session i rt) = members_of rt"
  "members_of (unregister_session i rt) = members_of rt"
  "members_of (mark_session_joined_room i c rt) = members_of rt"
  "members_of (mark_session_left_room i d rt) = members_of rt"
  "members_of (record_event e t rt) = members_of rt"
  "members_of (snd (get_recent_event_counts t rt)) = members_of rt"
  "members_of (snd (claim_slot t c k tok e' rt)) = members_of rt"
  "members_of (snd (release_slot c k tok rt)) = members_of rt"
  "members_of (snd (acquire_lock t c k tok e' rt)) = members_of rt"
  "members_of (snd (release_lock c k tok rt)) = members_of rt"
  "members_of (snd (mark_room_generation c g x rt)) = members_of rt"
  "members_of (heartbeat_node n rt) = members_of rt"
  "members_of (purge_node_status i rt) = members_of rt"
  "members_of (rt\<lparr> rt_blocked := b \<rparr>) = members_of rt"
  "members_of (rt\<lparr> rt_heap := h \<rparr>) = members_of rt"
  by (rule members_of_rooms, simp add: put_session_def session_op_frame
      record_event_def get_recent_event_counts_def prune_events_def claim_slot_def release_slot_def
      acquire_lock_def release_lock_def mark_room_generation_def heartbeat_node_def
      purge_node_status_def Let_def split: prod.split)+

lemma members_reads [simp]:
  "members_of (prune_expired_member_tokens t c rt) = members_of rt"
  "members_of (snd (get_runtime_room t c rt)) = members_of rt"
  "members_of (snd (get_or_create_room c rt)) = members_of rt"
  "members_of (snd (find_member_id_by_token t c tok rt)) = members_of rt"
  "members_of (snd (has_room_residue t c rt)) = members_of rt"
  "members_of (revoke_member_token c m i rt) = members_of rt"
  by (rule ext, simp add: prune_views get_runtime_room_def get_or_create_views
      find_member_id_by_token_def has_room_residue_def revoke_member_token_views Let_def)+

lemma evict_members [simp]: "members_of (evict_member_token t c m tok u rt) = members_of rt"
proof -
  obtain b where "evict_member_token t c m tok u rt = revoke_member_token c m None (rt\<lparr> rt_blocked := b \<rparr>)"
    by (rule evict_as_revoke)
  then show ?thesis by simp
qed

lemma blocked_members [simp]: "members_of (snd (is_member_token_blocked t c tok rt)) = members_of rt"
proof -
  obtain b where "prune_blocked_member_tokens t c rt
       = (filter_active_blocked_member_tokens (blocks_of rt c) t, rt\<lparr> rt_blocked := b \<rparr>)"
    by (rule prune_blocked_shape)
  then show ?thesis by (simp add: is_member_token_blocked_def)
qed

lemma members_thin:
  assumes "\<not> seats_into code (Env_Runtime op)"
  shows "subseq (members_of (runtime_step ret op rt) code) (members_of rt code)"
  using assms by (cases op) (auto simp: remove_member_views delete_views add_member_views subseq_delete)

lemma env_step_thins:
  "\<not> seats_into code e \<Longrightarrow> subseq (occupants code (env_step e w)) (occupants code w)"
  using members_thin by (cases e) (simp_all add: occupants_def)

lemma fold_env_thins:
  "list_all (\<lambda>e. \<not> seats_into code e) es \<Longrightarrow> subseq (occupants code (fold env_step es w)) (occupants code w)"
proof (induction es arbitrary: w)
  case (Cons e es)
  then show ?case
    using subseq_order.trans [OF Cons.IH [of "env_step e w"] env_step_thins [of code e w]] by simp
qed simp

lemma thins_interfere: "thins code w (interfere w)"
proof (cases "w_sched w")
  case (Cons es rest)
  have "no_other_joins code (interfere w) \<and> list_all (\<lambda>e. \<not> seats_into code e) es"
    if "no_other_joins code w"
    using that Cons by (simp add: no_other_joins_def interfere_def)
  moreover have "subseq (occupants code (interfere w)) (occupants code w)"
    if "list_all (\<lambda>e. \<not> seats_into code e) es"
    using fold_env_thins [OF that, of "w\<lparr> w_sched := rest \<rparr>"] Cons
    by (simp add: interfere_def occupants_def)
  ultimately show ?thesis by (simp add: thins_def)
qed (simp add: thins_def interfere_def)

interpretation thins: collector "thins code" for code
proof
  fix w w' w'' :: world and fs d n k code' gen now tr
  show "thins code w w" by (simp add: thins_def)
  show "thins code w w' \<Longrightarrow> thins code w' w'' \<Longrightarrow> thins code w w''"
    by (auto simp: thins_def intro: subseq_order.trans)
  show "thins code w (interfere w)" by (rule thins_interfere)
  show "thins code w (w\<lparr> w_faults := fs \<rparr>)"
    "thins code w (w\<lparr> w_debts := d, w_fresh := n, w_expired_deleted := k \<rparr>)"
    "thins code w (w\<lparr> w_rooms := snd (delete_expired_room code' now (w_rooms w)), w_trace := tr \<rparr>)"
    "thins code w (w\<lparr> w_runtime := snd (delete_runtime_room code' gen (w_runtime w)), w_trace := tr \<rparr>)"
    by (simp_all add: thins_def no_other_joins_def occupants_def delete_views)
qed

lemma thins_runtime:
  assumes "\<And>t rt. subseq (members_of (snd (g t rt)) code) (members_of rt code)"
  shows "thins.keeps code (runtime_call g) w" "thins.keeps code (runtime_sync g) w"
proof -
  have "thins code w' (snd (case g (w_now w') (w_runtime w') of (x, rt) \<Rightarrow> (x, w'\<lparr> w_runtime := rt \<rparr>)))" for w'
    using assms [of "w_now w'" "w_runtime w'"]
    by (auto simp: thins_def no_other_joins_def occupants_def split: prod.split)
  then show "thins.keeps code (runtime_call g) w" "thins.keeps code (runtime_sync g) w"
    unfolding runtime_call_def runtime_sync_def by (auto intro: thins.keeps_call thins.keeps_sync)
qed

lemma thins_calls:
  "thins.keeps code (runtime_sync (\<lambda>_ rt. ((), register_session sid rt))) w"
  "thins.keeps code (runtime_sync (\<lambda>now rt. get_runtime_room now c rt)) w"
  "thins.keeps code (runtime_call (\<lambda>now rt. get_runtime_room now c rt)) w"
  "thins.keeps code (runtime_call (\<lambda>_ rt. ((), revoke_member_token c m i rt))) w"
  "thins.keeps code (runtime_call (\<lambda>_ rt. is_member_token_blocked t c tok rt)) w"
  "thins.keeps code (runtime_call (\<lambda>now rt. find_member_id_by_token now c tok rt)) w"
  "thins.keeps code (runtime_call (\<lambda>t rt. acquire_lock t c key tok e rt)) w"
  "thins.keeps code (runtime_call (\<lambda>_ rt. release_lock c key tok rt)) w"
  "thins.keeps code (remove_member_now opt c m sid) w"
  unfolding remove_member_now_def
  by (rule thins_runtime, simp add: remove_member_views subseq_delete)+

lemma thins_silent:
  "rt_rooms (w_runtime (f w)) = rt_rooms (w_runtime w) \<Longrightarrow> w_sched (f w) = w_sched w \<Longrightarrow> thins code w (f w)"
  by (simp add: thins_def occupants_def no_other_joins_def members_of_def)

lemma thins_puts:
  "thins.keeps code (update_session sid f) w"
  "thins.keeps code (write_room c g p) w"
  "thins.keeps code (sleep d) w"
  "thins.keeps code (putE interfere) w"
  "thins.keeps code (disconnect_replaced_session sid prev) w"
proof -
  show "thins.keeps code (update_session sid f) w" "thins.keeps code (disconnect_replaced_session sid prev) w"
    unfolding update_session_def disconnect_replaced_session_def
    by (auto intro!: thins.keeps_put thins_silent split: option.split)
  show "thins.keeps code (write_room c g p) w"
    unfolding write_room_def issue_def
    by (rule thins.keeps_call) (auto simp: thins_def occupants_def no_other_joins_def split: prod.split)
  have put: "thins.keeps code (putE interfere) w" for w by (intro thins.keeps_put thins_interfere)
  then show "thins.keeps code (putE interfere) w" .
  show "thins.keeps code (sleep d) w"
    unfolding sleep_def
    by (intro thins.keeps_bind put thins.keeps_put thins_silent) simp_all
qed

subsection \<open>Leaving the previous room\<close>

lemma keeps_ok_raise: "thins.keeps_ok c (bindE m (\<lambda>_. raiseE e)) w"
  by (simp add: thins.keeps_ok_def)

lemma leave_failed_thins: "thins.keeps_ok c (leave_failed sid code sn removed none_left e) w"
proof -
  obtain e' where e': "(case e of Service c r \<Rightarrow> raiseE e | _ \<Rightarrow> raiseE internal_error)
      = (raiseE e' :: leave_result io)"
    by (cases e) auto
  have quiet: "thins.keeps_ok c (getE f) w" "thins.keeps_ok c (returnE x) w"
      "thins.keeps_ok c (raiseE e'') w" for f x e'' w
    by (rule thins.keeps_ok_keeps, rule thins.keeps_basic)+
  have read: "thins.keeps_ok c (tryE (read_room code) (\<lambda>_. returnE True) (\<lambda>r. returnE (r \<noteq> None))) w" for w
    by (intro thins.keeps_ok_keeps thins.keeps_intros thins.keeps_reads)
  show ?thesis
    unfolding leave_failed_def Let_def e'
    by (rule keeps_ok_raise quiet thins.keeps_ok_cases(1) read thins.keeps_ok_bind)+
qed

lemma shared_view_thins: "thins.keeps c (shared_member_view code) w"
  unfolding shared_member_view_def by (intro thins.keeps_intros thins_calls)

lemma schedule_thins: "thins.keeps c (schedule_expiry code room t) w"
  unfolding schedule_expiry_def by (intro thins.keeps_intros thins_puts)

lemma leave_persisted_thins: "thins.keeps c (leave_persisted opt sid code m j rem conf room) w"
  unfolding leave_persisted_def Let_def
  by (intro thins.keeps_intros shared_view_thins schedule_thins)

lemma leave_thins: "thins.keeps_ok c (leave_current_room opt sid reason) w"
  unfolding leave_current_room_def Let_def clear_session_room_def
  by (intro thins.keeps_ok_bind thins.keeps_ok_try thins.keeps_ok_cases leave_failed_thins
      thins.keeps_ok_keeps [OF leave_persisted_thins] thins.keeps_intros thins.keeps_reads
      thins.keeps_resolve thins_calls thins_puts | rule thins.keeps_ok_keeps)+

lemma set_name_thins: "thins.keeps c (set_session_display_name sid name) w"
  unfolding set_session_display_name_def Let_def
  by (intro thins.keeps_intros thins_calls thins_puts)

lemma lock_loop_thins: "thins.keeps c (acquire_lock_loop n opt code deadline) w"
  by (induction n arbitrary: w)
     (auto simp: Let_def intro!: thins.keeps_intros thins.keeps_ledger thins_calls thins_puts)

lemma lock_thins: "thins.keeps c (acquire_distributed_join_lock opt code) w"
  unfolding acquire_distributed_join_lock_def by (intro thins.keeps_intros lock_loop_thins)

lemma release_join_lock_thins: "thins.keeps c (release_join_lock code lock) w"
  unfolding release_join_lock_def by (intro thins.keeps_intros thins_calls)

lemma assert_active_thins: "thins.keeps c (assert_active lock) w"
  unfolding assert_active_def by (intro thins.keeps_intros)

subsection \<open>What the capacity check establishes\<close>

text \<open>
  With at most \<open>n\<close> members when the lock was taken and room for \<open>cap\<close>: a reconnecting member
  who still held the seat holds it or somebody left since, anybody else finds a free place.
\<close>

definition admitted :: "string \<Rightarrow> nat \<Rightarrow> nat \<Rightarrow> join_target \<Rightarrow> world \<Rightarrow> bool" where
  "admitted code n cap target w = (no_other_joins code w \<and> length (occupants code w) \<le> n
     \<and> (length (occupants code w) < cap
        \<or> (\<exists>m. jt_reconnect_member_id target = Some m
             \<and> (js_has (occupants code w) m \<or> length (occupants code w) < n))))"

definition crowd :: "string \<Rightarrow> nat \<Rightarrow> world \<Rightarrow> bool" where
  "crowd code n w = (no_other_joins code w \<and> length (occupants code w) \<le> n)"

lemma crowd_thins: "crowd code n w \<Longrightarrow> thins code w w' \<Longrightarrow> crowd code n w'"
  using list_emb_length [of "(=)" "occupants code w'" "occupants code w"]
  by (auto simp: crowd_def thins_def)

lemma admitted_thins:
  assumes "admitted code n cap target w" "thins code w w'"
  shows "admitted code n cap target w'"
proof -
  have sub: "subseq (occupants code w') (occupants code w)" "no_other_joins code w'"
    using assms by (auto simp: admitted_def thins_def)
  have le: "length (occupants code w') \<le> length (occupants code w)"
    by (rule list_emb_length [OF sub(1)])
  show ?thesis
  proof (cases "occupants code w' = occupants code w")
    case True
    then show ?thesis using assms sub by (simp add: admitted_def)
  next
    case False
    then have "length (occupants code w') < length (occupants code w)"
      using subseq_same_length [OF sub(1)] le by linarith
    then show ?thesis using assms(1) sub(2) by (auto simp: admitted_def)
  qed
qed

lemma target_admitted:
  assumes run: "resolve_join_target_state code prev w = (Inr target, w')" and n: "crowd code n w"
    and fits: "jt_active_member_count target < cap \<or> jt_reconnect_holds_seat target"
  shows "admitted code n cap target w'"
proof -
  let ?get = "runtime_call (\<lambda>now rt. get_runtime_room now code rt)"
  obtain active w1 reconnect where get: "?get w = (Inr active, w1)"
    and find: "(if truthy prev \<and> active \<noteq> None
        then runtime_call (\<lambda>now rt. find_member_id_by_token now code (the prev) rt) else returnE None) w1
      = (Inr reconnect, w')"
    and target: "target = \<lparr> jt_reconnect_member_id = reconnect,
        jt_reconnect_holds_seat = (case reconnect of None \<Rightarrow> False
           | Some m \<Rightarrow> js_has (if active = None then [] else occupants code w') m),
        jt_active_member_count = length (if active = None then [] else occupants code w') \<rparr>"
    using run unfolding resolve_join_target_state_def occupants_def by (auto simp: bindE_Inr)
  have t1: "thins code w w1" by (rule thins.keepsD [OF thins_calls(3) get])
  have t2: "thins code w1 w'"
    using thins.keepsD [OF thins.keeps_cases(1) [OF thins_calls(6) thins.keeps_basic(1)] find] .
  have crowd': "crowd code n w'" by (rule crowd_thins [OF crowd_thins [OF n t1] t2])
  have empty: "occupants code w' = []" if "active = None"
  proof -
    obtain w2 w3 where "thins code w w2" "(case get_runtime_room (w_now w2) code (w_runtime w2) of
        (x, rt) \<Rightarrow> (x, w2\<lparr> w_runtime := rt \<rparr>)) = (active, w3)" "w1 = interfere w3"
      using get unfolding runtime_call_def by (rule thins.call_effect)
    then have "thins code w3 w'" "occupants code w3 = []" "thins code w w3"
      using that t2 thins.R_trans [OF thins.R_env t2 [unfolded \<open>w1 = interfere w3\<close>]] thins_calls
      by (auto simp: get_runtime_room_def Let_def occupants_def members_of_def thins_def no_other_joins_def
          prune_views(1) [unfolded members_of_def] split: prod.splits)
    then show ?thesis using n by (auto simp: thins_def crowd_def)
  qed
  have "(if active = None then [] else occupants code w') = occupants code w'" using empty by simp
  note target = target [unfolded this]
  show ?thesis using fits crowd' by (auto simp: target admitted_def crowd_def split: option.splits)
qed

lemma clock_eq: "clock w = (r, w') \<longleftrightarrow> r = Inr (w_now w) \<and> w' = w"
  by (auto simp: clock_def)

lemma ensure_admits:
  assumes "ensure_join_request_allowed opt room code tok prev w = (Inr target, w')" and "crowd code n w"
  shows "admitted code n (max_members_per_room (so_config opt)) target w'"
proof -
  let ?ask = "if truthy prev then bindE clock (\<lambda>now.
      runtime_call (\<lambda>_ rt. is_member_token_blocked now code (the prev) rt)) else returnE False"
  have ask: "thins.keeps code ?ask w" by (intro thins.keeps_intros thins_calls)
  obtain w1 target' where w1: "?ask w = (Inr False, w1)"
    and t: "resolve_join_target_state code prev w1 = (Inr target, w')"
    and fits: "\<not> (max_members_per_room (so_config opt) \<le> jt_active_member_count target
        \<and> \<not> jt_reconnect_holds_seat target)"
    using assms(1) unfolding ensure_join_request_allowed_def
    by (auto simp del: not_None_eq simp: bindE_Inr split: if_splits)
  have "crowd code n w1" by (rule crowd_thins [OF assms(2) thins.keepsD [OF ask w1]])
  then show ?thesis using target_admitted [OF t] fits by (meson not_le_imp_less)
qed

lemma persist_admits:
  assumes "version_attempts k code (\<lambda>room.
       bindE clock (\<lambda>now.
       bindE (ensure_join_request_allowed opt room code tok prev) (\<lambda>target. save now room target))) w
     = (Inr (Some (r, target)), w')"
    and "crowd code n w"
    and save: "\<And>now room t w r t' w'. save now room t w = (Inr (Some (r, t')), w') \<Longrightarrow> t' = t \<and> thins code w w'"
      "\<And>now room t w. thins.keeps code (save now room t) w"
  shows "admitted code n (max_members_per_room (so_config opt)) target w'"
  using assms(1,2)
proof (induction k arbitrary: w)
  case (Suc k)
  obtain room w1 where resolve: "resolve_room code w = (Inr (Some room), w1)"
    using Suc.prems(1) by (auto simp: bindE_Inr split: option.splits)
  have c1: "crowd code n w1"
    by (rule crowd_thins [OF Suc.prems(2) thins.keepsD [OF thins.keeps_resolve resolve]])
  obtain t w2 x w3 where ens: "ensure_join_request_allowed opt room code tok prev w1 = (Inr t, w2)"
    and act: "save (w_now w1) room t w2 = (Inr x, w3)"
    and rest: "(case x of Some y \<Rightarrow> returnE (Some y) | None \<Rightarrow> version_attempts k code (\<lambda>room.
       bindE clock (\<lambda>now.
       bindE (ensure_join_request_allowed opt room code tok prev) (\<lambda>target. save now room target)))) w3
     = (Inr (Some (r, target)), w')"
    using Suc.prems(1) resolve by (auto simp: bindE_Inr clock_eq)
  have ad: "admitted code n (max_members_per_room (so_config opt)) t w2" by (rule ensure_admits [OF ens c1])
  show ?case
  proof (cases x)
    case None
    have "thins code w2 w3" by (rule thins.keepsD [OF save(2) act])
    then have "crowd code n w3" using admitted_thins [OF ad] by (simp add: admitted_def crowd_def)
    then show ?thesis using Suc.IH rest None by simp
  next
    case (Some y)
    then have "y = (r, target)" "w' = w3" using rest by auto
    then show ?thesis using save(1) act Some admitted_thins [OF ad] by blast
  qed
qed simp

subsection \<open>The room that is joined\<close>

lemma keyed_puts: "keyed.keeps (update_session sid f) w" "keyed.keeps (add_member_now c m sid tok) w"
  "keyed.keeps (remove_member_now opt c m sid) w" "keyed.keeps (sleep d) w"
  "keyed.keeps (putE interfere) w" "keyed.keeps flush_quietly w"
proof -
  show "keyed.keeps (update_session sid f) w"
    unfolding update_session_def by (rule keyed.keeps_put) (simp add: keyed_def)
  show "keyed.keeps (add_member_now c m sid tok) w" "keyed.keeps (remove_member_now opt c m sid) w"
    unfolding add_member_now_def remove_member_now_def by (rule keyed_runtime)+
  have put: "keyed.keeps (putE interfere) w" for w by (intro keyed.keeps_put keyed.R_env)
  then show "keyed.keeps (putE interfere) w" .
  show "keyed.keeps (sleep d) w"
    unfolding sleep_def by (intro keyed.keeps_bind put keyed.keeps_put) (simp add: keyed_def)
  show "keyed.keeps flush_quietly w"
    unfolding flush_quietly_def by (intro keyed.keeps_intros keyed.keeps_reads)
qed

lemma keyed_leave: "keyed.keeps (leave_current_room opt sid reason) w"
  unfolding leave_current_room_def leave_persisted_def shared_member_view_def schedule_expiry_def
    leave_failed_def restore_leave_state_def restore_joined_session_def clear_session_room_def Let_def
  by (intro keyed.keeps_intros keyed.keeps_reads keyed.keeps_resolve keyed_runtime keyed_write keyed_puts)

lemma keyed_set_name: "keyed.keeps (set_session_display_name sid name) w"
  unfolding set_session_display_name_def Let_def
  by (intro keyed.keeps_intros keyed_runtime keyed_puts)

lemma keyed_lock: "keyed.keeps (acquire_distributed_join_lock opt code) w"
proof -
  have "keyed.keeps (acquire_lock_loop n opt code d) w" for n d w
    by (induction n arbitrary: w)
       (auto simp: Let_def intro!: keyed.keeps_intros keyed.keeps_ledger keyed_runtime keyed_puts)
  then show ?thesis unfolding acquire_distributed_join_lock_def by (intro keyed.keeps_intros)
qed

lemma keyed_ensure: "keyed.keeps (ensure_join_request_allowed opt room code tok prev) w"
  unfolding ensure_join_request_allowed_def resolve_join_target_state_def
  by (intro keyed.keeps_intros keyed_runtime)

lemma write_room_code:
  assumes "room_store_wf (w_rooms w)" and "write_room code g p w = (Inr (Updated r), w')"
  shows "pr_code r = code"
proof -
  obtain w1 w2 where "keyed w w1" and run: "(case update_room (w_now w1) code g p (w_rooms w1) of
      (r, st) \<Rightarrow> (r, issue (Issue_Update (w_now w1) code g p (update_succeeded r)) (w1\<lparr> w_rooms := st \<rparr>)))
      = (Updated r, w2)"
    using assms(2) unfolding write_room_def by (rule keyed.call_effect)
  then have wf: "room_store_wf (w_rooms w1)" using assms(1) by (simp add: keyed_def)
  obtain st where "update_room (w_now w1) code g p (w_rooms w1) = (Updated r, st)"
    using run by (auto split: prod.splits)
  then obtain current where "js_get (st_rooms (w_rooms w1)) code = Some current"
      "r = apply_patch (w_now w1) p current"
    by (auto simp: update_room_def Let_def split: option.splits room_guard.splits if_splits)
  then show ?thesis using room_store_wf_code [OF wf] by (simp add: get_room_def apply_patch_def)
qed

definition save_join :: "string \<Rightarrow> rat \<Rightarrow> persisted_room \<Rightarrow> join_target \<Rightarrow> (persisted_room \<times> join_target) option io"
  where
  "save_join code now room target =
     (if pr_expires_at room = None
         \<and> now - pr_last_active_at room < room_last_active_write_interval_ms
         \<and> jt_reconnect_holds_seat target
      then bindE (read_room code) (\<lambda>latest.
             case latest of
               None \<Rightarrow> returnE None
             | Some r \<Rightarrow> if pr_version r \<noteq> pr_version room then returnE None
                         else returnE (Some (r, target)))
      else bindE (write_room code (At_Version (pr_version room))
             (empty_patch\<lparr> rp_expires_at := (if pr_expires_at room \<noteq> None then Some None else None),
                           rp_last_active_at := Some now \<rparr>)) (\<lambda>result.
             case result of Updated r \<Rightarrow> returnE (Some (r, target)) | _ \<Rightarrow> returnE None))"

lemma persist_as_attempts:
  "persist_joined_room opt code tok prev = version_attempts max_version_retries code (\<lambda>room.
       bindE clock (\<lambda>now.
       bindE (ensure_join_request_allowed opt room code tok prev) (\<lambda>target. save_join code now room target)))"
  by (simp add: persist_joined_room_def with_version_retry_def save_join_def)

lemma save_join_keeps: "thins.keeps c (save_join code now room t) w" "keyed.keeps (save_join code now room t) w"
  unfolding save_join_def
  by (intro thins.keeps_intros thins.keeps_reads thins_puts)
     (intro keyed.keeps_intros keyed.keeps_reads keyed_write)

lemma updated_case:
  "(case u of Updated r \<Rightarrow> returnE (Some (r, t)) | Not_Found \<Rightarrow> returnE None
      | Version_Conflict \<Rightarrow> returnE None) w = (Inr (Some x), w')
   \<longleftrightarrow> (\<exists>r. u = Updated r \<and> x = (r, t) \<and> w' = w)"
  by (cases u) auto

lemma save_join_result:
  assumes "save_join code now room t w = (Inr (Some (r, t')), w')"
  shows "t' = t" and "room_store_wf (w_rooms w) \<Longrightarrow> pr_code r = code"
proof -
  consider "read_room code w = (Inr (Some r), w')" "t' = t" | p where
      "write_room code (At_Version (pr_version room)) p w = (Inr (Updated r), w')" "t' = t"
    using assms by (auto simp: save_join_def bindE_Inr updated_case split: if_splits option.split_asm)
  then have "t' = t \<and> (room_store_wf (w_rooms w) \<longrightarrow> pr_code r = code)"
  proof cases
    case 1
    then show ?thesis using read_room_code [of w code r w'] by simp
  next
    case (2 p)
    then show ?thesis using write_room_code [of w code "At_Version (pr_version room)" p r w'] by simp
  qed
  then show "t' = t" "room_store_wf (w_rooms w) \<Longrightarrow> pr_code r = code" by simp_all
qed

lemma persist_code:
  assumes "persist_joined_room opt code tok prev w = (Inr (Some (r, target)), w')"
    and "room_store_wf (w_rooms w)"
  shows "pr_code r = code"
proof -
  have "pr_code r = code" if "version_attempts k code (\<lambda>room. bindE clock (\<lambda>now.
       bindE (ensure_join_request_allowed opt room code tok prev) (\<lambda>target. save_join code now room target))) w
     = (Inr (Some (r, target)), w')" "room_store_wf (w_rooms w)" for k w
    using that
  proof (induction k arbitrary: w)
    case (Suc k)
    obtain room w1 where resolve: "resolve_room code w = (Inr (Some room), w1)"
      using Suc.prems(1) by (auto simp: bindE_Inr split: option.splits)
    obtain t w2 x w3 where ens: "ensure_join_request_allowed opt room code tok prev w1 = (Inr t, w2)"
      and act: "save_join code (w_now w1) room t w2 = (Inr x, w3)"
      and rest: "(case x of Some y \<Rightarrow> returnE (Some y) | None \<Rightarrow> version_attempts k code (\<lambda>room. bindE clock (\<lambda>now.
       bindE (ensure_join_request_allowed opt room code tok prev) (\<lambda>target. save_join code now room target)))) w3
       = (Inr (Some (r, target)), w')"
      using Suc.prems(1) resolve by (auto simp: bindE_Inr clock_eq)
    have "keyed w w2" "keyed w2 w3"
      using keyed.R_trans [OF keyed.keepsD [OF keyed.keeps_resolve resolve] keyed.keepsD [OF keyed_ensure ens]]
        keyed.keepsD [OF save_join_keeps(2) act] by auto
    then have wf: "room_store_wf (w_rooms w2)" "room_store_wf (w_rooms w3)"
      using Suc.prems(2) by (simp_all add: keyed_def)
    show ?case
    proof (cases x)
      case None
      then show ?thesis using Suc.IH [OF _ wf(2)] rest by simp
    next
      case (Some y)
      then show ?thesis using save_join_result(2) [OF _ wf(1)] act rest by auto
    qed
  qed simp
  then show ?thesis using assms by (simp add: persist_as_attempts)
qed

subsection \<open>The seat\<close>

lemma identity_keeps_reconnect:
  assumes "build_join_identity opt sid reconnect prev w = (Inr ident, w')"
  shows "thins c w w'" and "reconnect = Some m \<Longrightarrow> fst ident = m"
proof -
  have "thins.keeps c (build_join_identity opt sid reconnect prev) w"
    unfolding build_join_identity_def by (intro thins.keeps_intros thins.keeps_ledger)
  then show "thins c w w'" using assms by (rule thins.keepsD)
  show "reconnect = Some m \<Longrightarrow> fst ident = m"
    using assms by (auto simp: build_join_identity_def bindE_Inr split: if_splits)
qed

lemma add_member_now_run:
  assumes "add_member_now code m sid tok w = (r, w')"
  shows "occupants code w' = js_set m sid (occupants code w)" "no_other_joins c w' = no_other_joins c w"
  using assms
  by (auto simp: add_member_now_def runtime_sync_Inr occupants_def add_member_views no_other_joins_def)

lemma undo_fails: "undo_join opt sid code ident old e w \<noteq> (Inr x, w')"
  unfolding undo_join_def by (auto simp: bindE_Inr Let_def)

lemma seating_thins:
  "thins.keeps c (bindE flush_runtime (\<lambda>_. bindE (assert_active lock) (\<lambda>_.
     bindE clock (\<lambda>now. apply_joined_session_state sid code now ident)))) w"
  unfolding apply_joined_session_state_def
  by (intro thins.keeps_intros thins.keeps_reads assert_active_thins thins_puts)

lemma seat_bounded:
  assumes run: "seat_joined_session opt sid prev lock (room, target) w = (Inr out, w')"
    and ad: "admitted (pr_code room) n cap target w"
  shows "crowd (pr_code room) (max n cap) w'"
proof -
  let ?code = "pr_code room"
  let ?old = "\<lambda>active. case (jt_reconnect_member_id target, active) of
      (Some m, Some a) \<Rightarrow> js_get (rr_members a) m | _ \<Rightarrow> None"
  obtain ident w1 active w2 u w3 v w4 where
      build: "build_join_identity opt sid (jt_reconnect_member_id target) prev w = (Inr ident, w1)"
    and get: "runtime_sync (\<lambda>now rt. get_runtime_room now ?code rt) w1 = (Inr active, w2)"
    and active: "assert_active lock w2 = (Inr u, w3)"
    and add: "add_member_now ?code (fst ident) sid (snd ident) w3 = (Inr v, w4)"
    and rest: "tryE (bindE flush_runtime (\<lambda>_. bindE (assert_active lock) (\<lambda>_.
          bindE clock (\<lambda>now. apply_joined_session_state sid ?code now ident))))
        (undo_join opt sid ?code ident (?old active))
        (\<lambda>_. bindE (disconnect_replaced_session sid (?old active)) (\<lambda>_. returnE (room, snd ident))) w4
        = (Inr out, w')"
    using run unfolding seat_joined_session_def Let_def bindE_Inr fst_conv snd_conv by blast
  have "admitted ?code n cap target w3"
    using identity_keeps_reconnect(1) [OF build] thins.keepsD [OF thins_calls(2) get]
      thins.keepsD [OF assert_active_thins active] by (blast intro: admitted_thins [OF ad] thins.R_trans)
  then have "length (occupants ?code w3) \<le> n" "no_other_joins ?code w4"
    "length (occupants ?code w3) < cap \<or> js_has (occupants ?code w3) (fst ident) \<or> length (occupants ?code w3) < n"
    using add_member_now_run [OF add] identity_keeps_reconnect(2) [OF build] by (auto simp: admitted_def)
  then have "crowd ?code (max n cap) w4"
    using add_member_now_run [OF add] by (auto simp: crowd_def js_length_set)
  moreover have "thins ?code w4 w'"
  proof -
    have keep: "thins.keeps_ok ?code (tryE (bindE flush_runtime (\<lambda>_. bindE (assert_active lock) (\<lambda>_.
          bindE clock (\<lambda>now. apply_joined_session_state sid ?code now ident))))
        (undo_join opt sid ?code ident old)
        (\<lambda>_. bindE (disconnect_replaced_session sid old) (\<lambda>_. returnE (room, snd ident)))) w4" for old
      by (rule thins.keeps_ok_try [OF seating_thins])
         (auto simp: thins.keeps_ok_def undo_fails bindE_Inr dest: thins.keepsD [OF thins_puts(5)])
    show ?thesis by (rule thins.keeps_okD [OF keep [of "?old active"] rest])
  qed
  ultimately show ?thesis by (rule crowd_thins)
qed

lemma crowd_start: "no_other_joins code w \<Longrightarrow> crowd code (length (occupants code w)) w"
  by (simp add: crowd_def)

lemma finally_Inr:
  "finallyE m c w = (Inr x, w') \<longleftrightarrow> (\<exists>w1 y. m w = (Inr x, w1) \<and> c w1 = (Inr y, w'))"
  by (auto simp: finallyE_def split: prod.splits sum.splits)



end
