(* ===== verification/Room_Outcomes.thy ===== *)
theory Room_Outcomes
  imports Room_Admission
begin

text \<open>
  What the requests of \<open>room-service.ts\<close> do when nothing interferes and no call fails: the
  result and the state after leaving, joining and creating a room, on every member-facing
  component at once. The rules of \<open>quiet_run\<close> execute a request symbolically.
\<close>

definition quiet :: "world \<Rightarrow> bool" where
  "quiet w = (w_sched w = [] \<and> w_faults w = [])"

lemma quiet_updates [simp]:
  "quiet (w\<lparr> w_runtime := rt \<rparr>) = quiet w"
  "quiet (w\<lparr> w_rooms := st \<rparr>) = quiet w"
  "quiet (w\<lparr> w_fresh := n \<rparr>) = quiet w"
  "quiet (w\<lparr> w_trace := tr \<rparr>) = quiet w"
  "quiet (w\<lparr> w_now := t \<rparr>) = quiet w"
  "quiet (w\<lparr> w_authority := a \<rparr>) = quiet w"
  "quiet (w\<lparr> w_closed_sockets := cs \<rparr>) = quiet w"
  "quiet (issue e w) = quiet w"
  by (simp_all add: quiet_def issue_def)

named_theorems quiet_run \<open>requests of a quiet world, executed\<close>

lemma quiet_callE:
  "quiet w \<Longrightarrow> quiet (snd (f w)) \<Longrightarrow> callE f w = (Inr (fst (f w)), snd (f w))"
  by (cases "f w") (simp add: callE_def quiet_def interfere_def)

lemma run_basic [quiet_run]:
  "bindE (returnE x) k w = k x w"
  "bindE (getE f) k' w = k' (f w) w"
  "bindE clock k'' w = k'' (w_now w) w"
  "bindE (putE g) k''' w = k''' () (g w)"
  "bindE (raiseE e) k4 w = (Inl e, w)"
  "tryE (returnE y) h k5 w = k5 y w"
  "tryE (raiseE e) h' k6 w = h' e w"
  by (simp_all add: bindE_def returnE_def getE_def clock_def putE_def raiseE_def tryE_def)

lemma run_bind_assoc [quiet_run]: "bindE (bindE m k) h w = bindE m (\<lambda>x. bindE (k x) h) w"
  by (simp add: bindE_assoc)

lemma run_try_bind [quiet_run]:
  "m w = (Inr x, w') \<Longrightarrow> tryE (bindE m k) h k' w = tryE (k x) h k' w'"
  "m w = (Inr x, w') \<Longrightarrow> tryE m h k'' w = k'' x w'"
  by (simp_all add: tryE_def bindE_def)

lemmas [quiet_run] = bind_run

lemma run_read [quiet_run]:
  assumes "quiet w"
  shows "read_room code w = (Inr (get_room (w_rooms w) code), w)"
  using assms quiet_callE [of w "\<lambda>w. (get_room (w_rooms w) code, w)"] by (simp add: read_room_def)

lemma run_flush [quiet_run]: "quiet w \<Longrightarrow> flush_runtime w = (Inr (), w)"
  using quiet_callE [of w "\<lambda>w. ((), w)"] by (simp add: flush_runtime_def)

lemma run_runtime_call [quiet_run]:
  assumes "quiet w"
  shows "runtime_call f w = (Inr (fst (f (w_now w) (w_runtime w))),
            w\<lparr> w_runtime := snd (f (w_now w) (w_runtime w)) \<rparr>)"
  using assms quiet_callE [of w "\<lambda>w. case f (w_now w) (w_runtime w) of (x, rt) \<Rightarrow> (x, w\<lparr> w_runtime := rt \<rparr>)"]
  by (simp add: runtime_call_def case_prod_unfold)

lemma run_runtime_sync [quiet_run]:
  "runtime_sync f w = (Inr (fst (f (w_now w) (w_runtime w))), w\<lparr> w_runtime := snd (f (w_now w) (w_runtime w)) \<rparr>)"
  by (simp add: runtime_sync_def syncE_def split: prod.split)

lemma run_write [quiet_run]:
  assumes "quiet w"
  shows "write_room code g p w =
     (Inr (fst (update_room (w_now w) code g p (w_rooms w))),
      issue (Issue_Update (w_now w) code g p (update_succeeded (fst (update_room (w_now w) code g p (w_rooms w)))))
        (w\<lparr> w_rooms := snd (update_room (w_now w) code g p (w_rooms w)) \<rparr>))"
  using assms quiet_callE [of w "\<lambda>w. case update_room (w_now w) code g p (w_rooms w) of (r, st) \<Rightarrow>
      (r, issue (Issue_Update (w_now w) code g p (update_succeeded r)) (w\<lparr> w_rooms := st \<rparr>))"]
  by (simp add: write_room_def case_prod_unfold)

lemma run_wait [quiet_run]: "quiet w \<Longrightarrow> bounded_wait e m w = m w"
  using quiet_callE [of w "\<lambda>w. ((), w)"] by (simp add: bounded_wait_def tryE_def)

lemma run_resolve [quiet_run]:
  assumes "quiet w" "get_room (w_rooms w) code = Some room" "\<not> expired_at (w_now w) room"
  shows "resolve_room code w = (Inr (Some room), w)"
  using assms by (simp add: resolve_room_def bind_run [OF run_read] run_basic returnE_def)

lemma run_update_session [quiet_run]:
  "update_session sid f w = (Inr (), w\<lparr> w_runtime :=
     (w_runtime w)\<lparr> rt_heap := js_set sid (f (the_session sid w)) (rt_heap (w_runtime w)) \<rparr> \<rparr>)"
  by (simp add: update_session_def putE_def)

subsection \<open>Leaving\<close>

definition seated :: "world \<Rightarrow> string \<Rightarrow> string \<Rightarrow> string \<Rightarrow> bool" where
  "seated w sid code m = (s_room_code (the_session sid w) = Some code \<and> code \<noteq> []
     \<and> s_member_id (the_session sid w) = Some m \<and> m \<noteq> []
     \<and> js_get (members_of (w_runtime w) code) m = Some sid)"

lemma get_runtime_room_frame:
  "tokens_of (snd (get_runtime_room t c rt)) = tokens_of (prune_expired_member_tokens t c rt)"
  "rt_heap (snd (get_runtime_room t c rt)) = rt_heap rt"
  by (simp_all add: get_runtime_room_def Let_def prune_frame)

lemma remove_heap: "rt_heap (snd (remove_member ret t c m i rt)) = rt_heap rt"
  using heap_frame [of "R_Remove t c m i" ret rt] by simp

lemma session_object_frame [simp]:
  "session_object (snd (get_runtime_room t c rt)) = session_object rt"
  "session_object (revoke_member_token c m i rt) = session_object rt"
  "session_object (snd (remove_member ret t c m i rt)) = session_object rt"
  "session_object (rt\<lparr> rt_heap := js_set sid s (rt_heap rt) \<rparr>) j = (if j = sid then s else session_object rt j)"
  using session_object_cong [OF get_runtime_room_frame(2)] session_object_cong [OF revoke_heap]
    session_object_cong [OF remove_heap] by (simp_all add: session_object_def)

definition expiring :: "rat \<Rightarrow> rat \<Rightarrow> persisted_room \<Rightarrow> persisted_room" where
  "expiring now t = apply_patch now (empty_patch\<lparr> rp_expires_at := Some (Some t), rp_last_active_at := Some now \<rparr>)"

lemma run_schedule:
  assumes "quiet w" and "get_room (w_rooms w) code = Some room"
  shows "\<exists>w'. schedule_expiry code room t w = (Inr (Some (expiring (w_now w) t room)), w')
    \<and> w_runtime w' = w_runtime w
    \<and> w_rooms w' = (w_rooms w)\<lparr> st_rooms := js_set code (expiring (w_now w) t room) (st_rooms (w_rooms w)) \<rparr>"
  using assms
  by (simp add: schedule_expiry_def quiet_run update_room_def get_room_def Let_def expiring_def issue_def
      returnE_def)

lemma no_active_members:
  assumes "fst (get_runtime_room t code rt) = None"
  shows "members_of rt code = []"
proof -
  have "members_of (prune_expired_member_tokens t code rt) code = []"
    unfolding members_of_def using assms by (simp add: get_runtime_room_def Let_def)
  then show ?thesis by simp
qed

lemma run_shared_view:
  assumes "quiet w"
  shows "\<exists>v. shared_member_view code w
      = (Inr (Some v), w\<lparr> w_runtime := snd (get_runtime_room (w_now w) code (w_runtime w)) \<rparr>)
    \<and> (case v of None \<Rightarrow> [] | Some ms \<Rightarrow> ms) = members_of (w_runtime w) code"
  using assms no_active_members [of "w_now w" code "w_runtime w"]
  by (simp add: shared_member_view_def quiet_run returnE_def)

lemma run_leave_persisted:
  assumes q: "quiet w" "\<not> w_closing w" and room: "get_room (w_rooms w) code = Some room"
    and gone: "js_get (members_of (w_runtime w) code) m = None"
  shows "\<exists>lr w'. leave_persisted opt sid code m j removed confirmed room w = (Inr lr, w')
    \<and> lr_member_removed lr = removed
    \<and> w_runtime w' = snd (get_runtime_room (w_now w) code (w_runtime w))
    \<and> w_rooms w' = (if members_of (w_runtime w) code \<noteq> [] then w_rooms w
        else (w_rooms w)\<lparr> st_rooms := js_set code (expiring (w_now w) (w_now w + so_empty_room_ttl_ms opt) room)
                                       (st_rooms (w_rooms w)) \<rparr>)"
proof -
  let ?w = "w\<lparr> w_runtime := snd (get_runtime_room (w_now w) code (w_runtime w)) \<rparr>"
  obtain v where v: "shared_member_view code w = (Inr (Some v), ?w)"
    "(case v of None \<Rightarrow> [] | Some ms \<Rightarrow> ms) = members_of (w_runtime w) code"
    using run_shared_view [OF q(1)] by blast
  have "(x, y) \<in> set (members_of (w_runtime w) code) \<Longrightarrow> x \<noteq> m" for x y
    using gone by (auto simp: map_of_eq_None_iff image_iff)
  then have all: "filter (\<lambda>(x, i). x = m \<longrightarrow> i \<noteq> sid) (members_of (w_runtime w) code)
      = members_of (w_runtime w) code" by (intro filter_True) auto
  show ?thesis
  proof (cases "members_of (w_runtime w) code = []")
    case False
    then show ?thesis using q
      by (simp add: leave_persisted_def quiet_run v(1) v(2) all Let_def)
  next
    case True
    obtain w' where "schedule_expiry code room (w_now w + so_empty_room_ttl_ms opt) ?w
        = (Inr (Some (expiring (w_now w) (w_now w + so_empty_room_ttl_ms opt) room)), w')"
      "w_runtime w' = w_runtime ?w"
      "w_rooms w' = (w_rooms w)\<lparr> st_rooms := js_set code
          (expiring (w_now w) (w_now w + so_empty_room_ttl_ms opt) room) (st_rooms (w_rooms w)) \<rparr>"
      using run_schedule [of ?w code room "w_now w + so_empty_room_ttl_ms opt"] q room by auto
    then show ?thesis using q True all v(2)
      by (simp add: leave_persisted_def quiet_run v(1) v(2) Let_def)
  qed
qed

definition departed :: "service_options \<Rightarrow> string \<Rightarrow> string \<Rightarrow> string \<Rightarrow> leave_reason \<Rightarrow> rat
    \<Rightarrow> runtime_store \<Rightarrow> runtime_store" where
  "departed opt sid code m reason now rt =
     (let rt1 = snd (get_runtime_room now code rt);
          rt2 = (if reason = Client_Request then revoke_member_token code m (Some sid) rt1 else rt1);
          rt3 = snd (remove_member (so_retention_ms opt) now code m (Some sid) rt2)
      in rt3\<lparr> rt_heap := js_set sid ((session_object rt sid)\<lparr> s_room_code := None, s_member_id := None,
                   s_member_token := None, s_joined_at := None \<rparr>) (rt_heap rt3) \<rparr>)"

lemma remove_member_removed:
  "mr_removed (fst (remove_member ret t code m i rt)) \<longleftrightarrow>
     js_has (members_of rt code) m \<and> \<not> seat_held_by_other (members_of rt code) m i"
proof -
  let ?p = "prune_expired_member_tokens t code rt"
  have "mr_removed (fst (remove_member ret t code m i rt))
      = mr_removed (fst (remove_member_from_room (rt_rooms ?p) code m i))"
    by (simp add: remove_member_def Let_def split: prod.split)
  then show ?thesis
    unfolding remove_views(3) members_of_def [symmetric] by (simp del: not_None_eq)
qed

lemma leave_as_departure:
  assumes "quiet w" and "seated w sid code m"
    and "get_room (w_rooms w) code = Some room" "\<not> expired_at (w_now w) room"
  shows "leave_current_room opt sid reason w
     = leave_persisted opt sid code m (s_joined_at (the_session sid w)) True True room
         (w\<lparr> w_runtime := departed opt sid code m reason (w_now w) (w_runtime w) \<rparr>)"
  using assms
  by (simp add: leave_current_room_def seated_def session_member_id_def Let_def quiet_run the_session_def
      remove_member_now_def clear_session_room_def departed_def remove_member_removed seat_held_by_other_def)

lemma tokens_of_heap: "tokens_of (rt\<lparr> rt_heap := h \<rparr>) = tokens_of rt"
  by (simp add: tokens_of_def fun_eq_iff)

lemma departed_views:
  assumes seat: "js_get (members_of rt code) m = Some sid" and ok: "runtime_ok rt"
  shows "members_of (departed opt sid code m reason now rt)
      = (members_of rt)(code := js_delete m (members_of rt code))"
    and "js_get (tokens_of (departed opt sid code m reason now rt) code) m
      = (if reason = Client_Request then None else js_get (tokens_of rt code) m)"
    and "session_object (departed opt sid code m reason now rt)
      = (session_object rt)(sid := (session_object rt sid)\<lparr> s_room_code := None, s_member_id := None,
                                     s_member_token := None, s_joined_at := None \<rparr>)"
proof -
  have free: "\<not> seat_held_by_other (members_of rt code) m (Some sid)"
    using seat by (simp add: seat_held_by_other_def)
  show "members_of (departed opt sid code m reason now rt)
      = (members_of rt)(code := js_delete m (members_of rt code))"
    using free by (auto simp: departed_def Let_def fun_eq_iff remove_member_views)
  show "session_object (departed opt sid code m reason now rt)
      = (session_object rt)(sid := (session_object rt sid)\<lparr> s_room_code := None, s_member_id := None,
                                     s_member_token := None, s_joined_at := None \<rparr>)"
    by (auto simp: departed_def Let_def fun_eq_iff)
  let ?p = "prune_expired_member_tokens now code rt"
  have "expiry_ok rt" using ok by (simp add: runtime_ok_def)
  then have p: "js_get (expiry_of rt code) m = None" "js_wf (expiry_of rt code)"
    using seat expiry_okD(1) [of rt code] expiry_okD(2) [of rt code m] by (cases "js_get (expiry_of rt code) m"; auto)+
  have once: "js_get (tokens_of ?p code) m = js_get (tokens_of rt code) m"
    using p by (simp add: prune_views due_members_iff)
  have "js_get (expiry_of ?p code) m = None" "js_wf (expiry_of ?p code)"
    using p by (auto simp: prune_views js_get_filter)
  then have twice: "js_get (tokens_of (prune_expired_member_tokens now code
      (snd (get_runtime_room now code rt))) code) m = js_get (tokens_of rt code) m"
    using once by (simp add: get_runtime_room_def Let_def prune_views(2) [of _ _ ?p] due_members_iff)
  have "js_get (tokens_of (prune_expired_member_tokens now code rt') code) m = None"
    if "js_get (tokens_of rt' code) m = None" for rt'
    using that by (simp add: prune_views)
  then show "js_get (tokens_of (departed opt sid code m reason now rt) code) m
      = (if reason = Client_Request then None else js_get (tokens_of rt code) m)"
    using free twice
    by (simp add: departed_def Let_def remove_member_views revoke_member_token_views tokens_of_heap)
qed

lemma departed_expiry:
  assumes seat: "js_get (members_of rt code) m = Some sid" and ok: "runtime_ok rt"
  shows "js_wf (expiry_of (departed opt sid code m reason now rt) code)"
    and "js_get (expiry_of (departed opt sid code m reason now rt) code) m = Some e \<Longrightarrow>
           e = now + so_retention_ms opt"
proof -
  let ?rt1 = "snd (get_runtime_room now code rt)"
  let ?rt2 = "if reason = Client_Request then revoke_member_token code m (Some sid) ?rt1 else ?rt1"
  let ?rt3 = "snd (remove_member (so_retention_ms opt) now code m (Some sid) ?rt2)"
  have "expiry_ok ?rt1" using ok prune_expiry_ok [of rt now code] by (simp add: runtime_ok_def get_runtime_room_def Let_def)
  then have ok2: "expiry_ok ?rt2" by (simp add: revoke_expiry_ok)
  have same: "expiry_of (departed opt sid code m reason now rt) = expiry_of ?rt3"
    by (simp add: departed_def Let_def expiry_of_def fun_eq_iff)
  have "expiry_ok ?rt3" by (rule remove_expiry_ok [OF ok2])
  then show "js_wf (expiry_of (departed opt sid code m reason now rt) code)"
    unfolding same by (rule expiry_okD(1))
  have "js_get (members_of ?rt2 code) m = Some sid" using seat by simp
  then have "js_get (expiry_of ?rt2 code) m = None"
    using expiry_okD(2) [OF ok2, of code m] by (cases "js_get (expiry_of ?rt2 code) m") auto
  then have "js_get (expiry_of (prune_expired_member_tokens now code ?rt2) code) m = None"
    using expiry_okD(1) [OF ok2] by (auto simp: prune_views js_get_filter)
  then show "js_get (expiry_of (departed opt sid code m reason now rt) code) m = Some e \<Longrightarrow>
           e = now + so_retention_ms opt"
    unfolding same by (simp only: remove_member_views) (simp split: if_splits)
qed

text \<open>
  Leaving takes exactly the leaver out. For a seated session in a quiet world the leave
  reports the removal; the seat is gone and every other seat of every room stays; the
  session's room fields are cleared and every other session is as it was; the identity is
  revoked when the client asked to leave and kept when its connection dropped; and the stored
  room is untouched, except that the last member's leave schedules its expiry after the
  time an empty room is kept.
\<close>

theorem leave_outcome:
  assumes "quiet w" and "\<not> w_closing w" and "seated w sid code m" and "runtime_ok (w_runtime w)"
    and "0 < so_retention_ms opt"
    and "get_room (w_rooms w) code = Some room" "\<not> expired_at (w_now w) room"
    and "leave_current_room opt sid reason w = (result, w')"
  defines "others \<equiv> js_delete m (members_of (w_runtime w) code)"
  shows "(\<exists>lr. result = Inr lr \<and> lr_member_removed lr)
    \<and> members_of (w_runtime w') = (members_of (w_runtime w))(code := others)
    \<and> js_get (tokens_of (w_runtime w') code) m
        = (if reason = Client_Request then None else js_get (tokens_of (w_runtime w) code) m)
    \<and> session_object (w_runtime w') = (session_object (w_runtime w))(sid :=
        (the_session sid w)\<lparr> s_room_code := None, s_member_id := None, s_member_token := None,
                             s_joined_at := None \<rparr>)
    \<and> w_rooms w' = (if others \<noteq> [] then w_rooms w
        else (w_rooms w)\<lparr> st_rooms := js_set code (room\<lparr>
            pr_expires_at := Some (w_now w + so_empty_room_ttl_ms opt), pr_last_active_at := w_now w,
            pr_version := pr_version room + 1 \<rparr>) (st_rooms (w_rooms w)) \<rparr>)"
proof -
  let ?rt = "departed opt sid code m reason (w_now w) (w_runtime w)"
  let ?w = "w\<lparr> w_runtime := ?rt \<rparr>"
  have seat: "js_get (members_of (w_runtime w) code) m = Some sid" using assms(3) by (simp add: seated_def)
  note views = departed_views [OF seat assms(4), where opt = opt and reason = reason and now = "w_now w"]
  have "js_get (members_of (w_runtime ?w) code) m = None" by (simp add: views(1))
  then obtain lr w2 where run: "leave_persisted opt sid code m (s_joined_at (the_session sid w)) True True room ?w
      = (Inr lr, w2)" "lr_member_removed lr" "w_runtime w2 = snd (get_runtime_room (w_now w) code ?rt)"
    "w_rooms w2 = (if members_of ?rt code \<noteq> [] then w_rooms w else (w_rooms w)\<lparr> st_rooms := js_set code
        (expiring (w_now w) (w_now w + so_empty_room_ttl_ms opt) room) (st_rooms (w_rooms w)) \<rparr>)"
    using run_leave_persisted [of ?w code room m opt sid "s_joined_at (the_session sid w)" True True] assms(1,2,6)
    by auto
  have "result = Inr lr" "w' = w2"
    using run(1) leave_as_departure [OF assms(1,3,6,7), of opt reason] assms(8) by simp_all
  moreover have "expiring (w_now w) t room = room\<lparr> pr_expires_at := Some t, pr_last_active_at := w_now w,
      pr_version := pr_version room + 1 \<rparr>" for t
    by (simp add: expiring_def apply_patch_def empty_patch_def)
  moreover have "js_get (tokens_of (snd (get_runtime_room (w_now w) code ?rt)) code) m
      = js_get (tokens_of ?rt code) m"
    using departed_expiry [OF seat assms(4), of opt reason "w_now w"] assms(5)
    by (auto simp: get_runtime_room_frame prune_views due_members_iff)
  ultimately show ?thesis using run views by (simp add: others_def the_session_def)
qed

theorem leave_outcome_witness:
  "get_room (w_rooms (snd (leave_current_room sample_options ''s1'' Disconnect alice_world))) ''ABC234''
     = Some (sample_room\<lparr> pr_shared_video := Some watched_video, pr_expires_at := Some 900100,
                          pr_last_active_at := 100, pr_version := 1 \<rparr>)
   \<and> js_get (tokens_of (w_runtime (snd (leave_current_room sample_options ''s1'' Disconnect alice_world))) ''ABC234'')
       ''alice'' = Some ''tok''"
proof -
  let ?run = "leave_current_room sample_options ''s1'' Disconnect alice_world"
  have "quiet alice_world" "\<not> w_closing alice_world" "seated alice_world ''s1'' ''ABC234'' ''alice''"
    "0 < so_retention_ms sample_options"
    "get_room (w_rooms alice_world) ''ABC234'' = Some (sample_room\<lparr> pr_shared_video := Some watched_video \<rparr>)"
    "\<not> expired_at (w_now alice_world) (sample_room\<lparr> pr_shared_video := Some watched_video \<rparr>)"
    by code_simp+
  moreover have "runtime_ok (w_runtime alice_world)"
    using runtime_ok_seat_ops(1) [OF runtime_ok_session_ops(5) [OF runtime_ok_empty]]
    by (simp add: alice_world_def)
  moreover obtain result w' where run: "?run = (result, w')" by fastforce
  moreover have "js_delete ''alice'' (members_of (w_runtime alice_world) ''ABC234'') = []"
    "js_get (tokens_of (w_runtime alice_world) ''ABC234'') ''alice'' = Some ''tok''"
    "w_now alice_world + so_empty_room_ttl_ms sample_options = 900100" "w_now alice_world = 100"
    "pr_version (sample_room\<lparr> pr_shared_video := Some watched_video \<rparr>) = 0"
    by code_simp+
  ultimately show ?thesis
    using leave_outcome [of alice_world "''s1''" "''ABC234''" "''alice''" sample_options
        "sample_room\<lparr> pr_shared_video := Some watched_video \<rparr>" Disconnect result w']
    by (simp add: get_room_def)
qed

subsection \<open>A version does not identify a room\<close>

text \<open>
  The write that admits a join is guarded by the version of the room the token was checked
  against, and by nothing else. In this run the room is deleted and its code taken by a new
  room before that write: the join is admitted to a room whose token it never presented.
\<close>

definition recycled_room :: create_room_input where
  "recycled_room = \<lparr> ci_code = ''ABC234'', ci_join_token = ''another-token-987'', ci_created_at = 100,
     ci_owner_member_id = None, ci_owner_display_name = None \<rparr>"

definition recycling_world :: world where
  "recycling_world = alice_world\<lparr> w_sched := replicate 7 [] @
     [[Env_Store (Op_Delete (sample_room\<lparr> pr_shared_video := Some watched_video \<rparr>)),
       Env_Runtime (R_Delete ''ABC234'' None), Env_Store (Op_Create recycled_room)]] \<rparr>"

theorem stale_token_joins_replacement:
  "map_sum (\<lambda>_. ()) (\<lambda>(room, token). pr_join_token room)
     (fst (join_room_for_session sample_options ''s2'' ''ABC234'' ''token-0123456789'' None None recycling_world))
   = Inr ''another-token-987''
   \<and> js_has (members_of (w_runtime (snd (join_room_for_session sample_options ''s2'' ''ABC234''
        ''token-0123456789'' None None recycling_world))) ''ABC234'') ''s2''"
  by (intro conjI) code_simp+

subsection \<open>Joining\<close>

lemma run_fresh [quiet_run]:
  "next_uuid opt w = (Inr (so_uuid opt (w_fresh w)), w\<lparr> w_fresh := w_fresh w + 1 \<rparr>)"
  "next_token opt w = (Inr (so_token opt (w_fresh w)), w\<lparr> w_fresh := w_fresh w + 1 \<rparr>)"
  by (simp_all add: next_uuid_def next_token_def syncE_def)

lemma run_interfere [quiet_run]: "quiet w \<Longrightarrow> interfere w = w"
  by (simp add: quiet_def)

definition lock_free :: "string \<Rightarrow> world \<Rightarrow> bool" where
  "lock_free code w = fst (acquire_lock (w_now w) code join_admission_lock_key [] 0 (w_runtime w))"

lemma acquire_lock_grant: "fst (acquire_lock t c k tok e rt) = fst (acquire_lock t c k tok' e' rt)"
  by (simp add: acquire_lock_def acquire_room_lock_def Let_def split: prod.split)

definition locked :: "service_options \<Rightarrow> string \<Rightarrow> world \<Rightarrow> world" where
  "locked opt code w = w\<lparr> w_fresh := w_fresh w + 1, w_runtime := snd (acquire_lock (w_now w) code
      join_admission_lock_key (so_uuid opt (w_fresh w)) (w_now w + join_admission_lock_ttl_ms) (w_runtime w)) \<rparr>"

lemma run_lock:
  assumes "quiet w" "lock_free code w"
  shows "acquire_distributed_join_lock opt code w
     = (Inr (Some \<lparr> jl_token = so_uuid opt (w_fresh w), jl_expires_at = w_now w + join_admission_lock_ttl_ms \<rparr>),
        locked opt code w)"
proof -
  have got: "fst (acquire_lock (w_now w) code join_admission_lock_key tok e (w_runtime w))" for tok e
    using assms(2) acquire_lock_grant unfolding lock_free_def by blast
  obtain k where turns: "lock_turns = Suc k" by (rule that [of 200]) (simp add: lock_turns_def)
  have "acquire_lock_loop (Suc n) opt code d w = (Inr (True, Some \<lparr> jl_token = so_uuid opt (w_fresh w),
      jl_expires_at = w_now w + join_admission_lock_ttl_ms \<rparr>), locked opt code w)" for n d
    using assms(1) by (simp add: quiet_run got Let_def locked_def)
  then show ?thesis
    unfolding acquire_distributed_join_lock_def turns
    by (simp add: quiet_run returnE_def del: acquire_lock_loop.simps)
qed

lemma locked_frame [simp]:
  "quiet (locked opt code w) = quiet w" "w_now (locked opt code w) = w_now w"
  "w_rooms (locked opt code w) = w_rooms w" "w_fresh (locked opt code w) = w_fresh w + 1"
  "occupants c (locked opt code w) = occupants c w" "w_closing (locked opt code w) = w_closing w"
  by (simp_all add: locked_def quiet_def occupants_def)

lemma run_target:
  assumes "quiet w"
  shows "resolve_join_target_state code None w = (Inr \<lparr> jt_reconnect_member_id = None,
      jt_reconnect_holds_seat = False, jt_active_member_count = length (members_of (w_runtime w) code) \<rparr>,
      w\<lparr> w_runtime := snd (get_runtime_room (w_now w) code (w_runtime w)) \<rparr>)"
  using assms no_active_members [of "w_now w" code "w_runtime w"]
  by (simp add: resolve_join_target_state_def quiet_run returnE_def)

lemma join_begins:
  fixes opt
  assumes "quiet w" "lock_free code w" "s_room_code (the_session sid w) = None"
  defines "lock \<equiv> \<lparr> jl_token = so_uuid opt (w_fresh w), jl_expires_at = w_now w + join_admission_lock_ttl_ms \<rparr>"
  shows "join_room_for_session opt sid code tok None None w =
     finallyE (bindE (persist_joined_room opt code tok None) (\<lambda>joined.
         case joined of
           None \<Rightarrow> raiseE (Service Room_Not_Found Reason_Room_Not_Found)
         | Some j \<Rightarrow> seat_joined_session opt sid None lock j)) (release_join_lock code lock) (locked opt code w)"
proof -
  have "set_session_display_name sid None w = (Inr False, w)"
    by (simp add: set_session_display_name_def quiet_run returnE_def)
  moreover have "leave_current_room opt sid Client_Request w = (Inr nothing_left, w)"
    using assms(3) by (simp add: leave_current_room_def quiet_run returnE_def)
  ultimately show ?thesis
    using assms(1,2) unfolding lock_def
    by (simp add: join_room_for_session_def with_room_join_lock_def run_basic bind_run run_interfere run_lock lock_def
        bind_run [where m = "set_session_display_name sid None" and x = False])
qed

definition touched :: "rat \<Rightarrow> persisted_room \<Rightarrow> persisted_room" where
  "touched now room = room\<lparr> pr_expires_at := None, pr_last_active_at := now, pr_version := pr_version room + 1 \<rparr>"

lemma touched_patch:
  "pr_expires_at room = Some t \<Longrightarrow> apply_patch now (empty_patch\<lparr> rp_expires_at := Some None,
     rp_last_active_at := Some now \<rparr>) room = touched now room"
  "pr_expires_at room = None \<Longrightarrow> apply_patch now (empty_patch\<lparr> rp_expires_at := None,
     rp_last_active_at := Some now \<rparr>) room = touched now room"
  by (cases room; simp add: apply_patch_def empty_patch_def touched_def)+

lemma run_persist:
  assumes "quiet w"
  shows "get_room (w_rooms w) code = None \<Longrightarrow> persist_joined_room opt code tok None w = (Inr None, w)"
    and "get_room (w_rooms w) code = Some room \<Longrightarrow> \<not> expired_at (w_now w) room \<Longrightarrow> pr_join_token room \<noteq> tok \<Longrightarrow>
        persist_joined_room opt code tok None w = (Inl (Service Join_Token_Invalid Reason_Join_Token_Invalid), w)"
    and "get_room (w_rooms w) code = Some room \<Longrightarrow> \<not> expired_at (w_now w) room \<Longrightarrow> pr_join_token room = tok \<Longrightarrow>
        max_members_per_room (so_config opt) \<le> length (members_of (w_runtime w) code) \<Longrightarrow>
        persist_joined_room opt code tok None w = (Inl (Service Room_Full Reason_Room_Full),
          w\<lparr> w_runtime := snd (get_runtime_room (w_now w) code (w_runtime w)) \<rparr>)"
    and "get_room (w_rooms w) code = Some room \<Longrightarrow> \<not> expired_at (w_now w) room \<Longrightarrow> pr_join_token room = tok \<Longrightarrow>
        length (members_of (w_runtime w) code) < max_members_per_room (so_config opt) \<Longrightarrow>
        \<exists>w' t. persist_joined_room opt code tok None w = (Inr (Some (touched (w_now w) room, t)), w')
          \<and> jt_reconnect_member_id t = None \<and> quiet w' \<and> w_now w' = w_now w \<and> w_fresh w' = w_fresh w
          \<and> w_runtime w' = snd (get_runtime_room (w_now w) code (w_runtime w))
          \<and> w_rooms w' = (w_rooms w)\<lparr> st_rooms := js_set code (touched (w_now w) room) (st_rooms (w_rooms w)) \<rparr>"
proof -
  obtain k where three: "max_version_retries = Suc k" by (rule that [of 2]) (simp add: max_version_retries_def)
  show "get_room (w_rooms w) code = None \<Longrightarrow> persist_joined_room opt code tok None w = (Inr None, w)"
    using assms by (simp add: persist_joined_room_def with_version_retry_def three resolve_room_def quiet_run returnE_def)
  show "get_room (w_rooms w) code = Some room \<Longrightarrow> \<not> expired_at (w_now w) room \<Longrightarrow> pr_join_token room \<noteq> tok \<Longrightarrow>
        persist_joined_room opt code tok None w = (Inl (Service Join_Token_Invalid Reason_Join_Token_Invalid), w)"
    using assms by (simp add: persist_joined_room_def with_version_retry_def three ensure_join_request_allowed_def quiet_run)
  show "get_room (w_rooms w) code = Some room \<Longrightarrow> \<not> expired_at (w_now w) room \<Longrightarrow> pr_join_token room = tok \<Longrightarrow>
        max_members_per_room (so_config opt) \<le> length (members_of (w_runtime w) code) \<Longrightarrow>
        persist_joined_room opt code tok None w = (Inl (Service Room_Full Reason_Room_Full),
          w\<lparr> w_runtime := snd (get_runtime_room (w_now w) code (w_runtime w)) \<rparr>)"
    using assms by (simp add: persist_joined_room_def with_version_retry_def three ensure_join_request_allowed_def
        quiet_run run_target bind_fails)
  show "\<exists>w' t. persist_joined_room opt code tok None w = (Inr (Some (touched (w_now w) room, t)), w')
          \<and> jt_reconnect_member_id t = None \<and> quiet w' \<and> w_now w' = w_now w \<and> w_fresh w' = w_fresh w
          \<and> w_runtime w' = snd (get_runtime_room (w_now w) code (w_runtime w))
          \<and> w_rooms w' = (w_rooms w)\<lparr> st_rooms := js_set code (touched (w_now w) room) (st_rooms (w_rooms w)) \<rparr>"
    if "get_room (w_rooms w) code = Some room" "\<not> expired_at (w_now w) room" "pr_join_token room = tok"
      "length (members_of (w_runtime w) code) < max_members_per_room (so_config opt)"
    using that assms
    by (simp add: persist_joined_room_def with_version_retry_def three ensure_join_request_allowed_def
        quiet_run run_target update_room_def get_room_def Let_def touched_patch)
      (auto simp: touched_patch issue_def)
qed

lemma run_seat:
  fixes opt room sid
  assumes "quiet w" "jt_reconnect_member_id t = None" "w_now w < jl_expires_at lock"
  defines "rt \<equiv> snd (get_runtime_room (w_now w) (pr_code room) (w_runtime w))"
  defines "token \<equiv> so_token opt (w_fresh w)"
  defines "rt' \<equiv> snd (add_member (w_now w) (pr_code room) sid sid token rt)"
  shows "seat_joined_session opt sid None lock (room, t) w = (Inr (room, token),
     w\<lparr> w_fresh := w_fresh w + 1, w_runtime := rt'\<lparr> rt_heap := js_set sid ((session_object (w_runtime w) sid)
        \<lparr> s_member_id := Some sid, s_room_code := Some (pr_code room), s_member_token := Some token,
          s_joined_at := Some (w_now w) \<rparr>) (rt_heap rt') \<rparr> \<rparr>)"
proof -
  have "session_object rt' = session_object (w_runtime w)"
    unfolding rt'_def rt_def
    using session_object_cong [OF heap_frame [of "R_Add (w_now w) (pr_code room) sid sid token"]] by simp
  then show ?thesis
    using assms(1,2,3) unfolding rt'_def rt_def token_def
    by (simp add: seat_joined_session_def build_join_identity_def quiet_run Let_def assert_active_def
        add_member_now_def apply_joined_session_state_def disconnect_replaced_session_def the_session_def)
qed

definition same_seats :: "world \<Rightarrow> world \<Rightarrow> bool" where
  "same_seats w w' = (members_of (w_runtime w') = members_of (w_runtime w)
     \<and> tokens_of (w_runtime w') = tokens_of (w_runtime w)
     \<and> session_object (w_runtime w') = session_object (w_runtime w) \<and> w_rooms w' = w_rooms w
     \<and> expiry_of (w_runtime w') = expiry_of (w_runtime w)
     \<and> (quiet w \<longrightarrow> quiet w') \<and> w_now w' = w_now w)"

lemma locks_frame [simp]:
  "members_of (rt\<lparr> rt_locks := l \<rparr>) = members_of rt" "tokens_of (rt\<lparr> rt_locks := l \<rparr>) = tokens_of rt"
  "expiry_of (rt\<lparr> rt_locks := l \<rparr>) = expiry_of rt" "expiry_of (rt\<lparr> rt_heap := x \<rparr>) = expiry_of rt"
  "session_object (rt\<lparr> rt_locks := l \<rparr>) = session_object rt"
  by (simp_all add: members_of_def tokens_of_def expiry_of_def session_object_def fun_eq_iff)

lemma run_release:
  assumes "quiet w"
  shows "\<exists>w'. release_join_lock code lock w = (Inr (), w') \<and> same_seats w w'"
  using assms
  by (auto simp: release_join_lock_def quiet_run returnE_def same_seats_def release_lock_def split: prod.split)

lemma release_after:
  assumes "m w = (r, w1)" "quiet w1"
  obtains w2 where "finallyE m (release_join_lock code lock) w = (r, w2)" "same_seats w1 w2"
  using assms run_release [OF assms(2), of code lock] by (auto simp: finallyE_def)

lemma same_seats_trans: "same_seats w w' \<Longrightarrow> same_seats w' w'' \<Longrightarrow> same_seats w w''"
  by (simp add: same_seats_def)

lemma locked_same_seats: "same_seats w (locked opt code w)"
  by (simp add: same_seats_def locked_def acquire_lock_def Let_def split: prod.split)

text \<open>A first join into a live room with the right token and a free place.\<close>

lemma join_succeeds:
  assumes "quiet w" and "lock_free code w" and "s_room_code (the_session sid w) = None"
    and "get_room (w_rooms w) code = Some room" and "\<not> expired_at (w_now w) room"
    and "pr_code room = code" and "pr_join_token room = join_token"
    and "length (members_of (w_runtime w) code) < max_members_per_room (so_config opt)"
  obtains w' where "join_room_for_session opt sid code join_token None None w
        = (Inr (touched (w_now w) room, so_token opt (w_fresh w + 1)), w')"
    "quiet w'" "w_now w' = w_now w"
    "members_of (w_runtime w') = (members_of (w_runtime w))(code := js_set sid sid (members_of (w_runtime w) code))"
    "js_get (tokens_of (w_runtime w') code) sid = Some (so_token opt (w_fresh w + 1))"
    "js_get (expiry_of (w_runtime w') code) sid = None"
    "session_object (w_runtime w') = (session_object (w_runtime w))(sid := (the_session sid w)
       \<lparr> s_room_code := Some code, s_member_id := Some sid,
         s_member_token := Some (so_token opt (w_fresh w + 1)), s_joined_at := Some (w_now w) \<rparr>)"
    "w_rooms w' = (w_rooms w)\<lparr> st_rooms := js_set code (touched (w_now w) room) (st_rooms (w_rooms w)) \<rparr>"
proof -
  let ?lock = "\<lparr> jl_token = so_uuid opt (w_fresh w), jl_expires_at = w_now w + join_admission_lock_ttl_ms \<rparr>"
  let ?persist = "persist_joined_room opt code join_token None"
  let ?body = "bindE ?persist (\<lambda>joined. case joined of
           None \<Rightarrow> raiseE (Service Room_Not_Found Reason_Room_Not_Found)
         | Some j \<Rightarrow> seat_joined_session opt sid None ?lock j)"
  let ?w = "locked opt code w" and ?room' = "touched (w_now w) room" and ?token = "so_token opt (w_fresh w + 1)"
  have same: "same_seats w ?w" by (rule locked_same_seats)
  have q: "quiet ?w" using assms(1) by simp
  have room: "get_room (w_rooms ?w) code = Some room" "\<not> expired_at (w_now ?w) room" using assms(4,5) by simp_all
  have free: "length (members_of (w_runtime ?w) code) < max_members_per_room (so_config opt)"
    using assms(8) same by (simp add: same_seats_def)
  obtain w1 t where persist: "?persist ?w = (Inr (Some (?room', t)), w1)" and t: "jt_reconnect_member_id t = None"
    and w1: "quiet w1" "w_now w1 = w_now w" "w_fresh w1 = w_fresh w + 1"
      "w_runtime w1 = snd (get_runtime_room (w_now w) code (w_runtime ?w))"
      "w_rooms w1 = (w_rooms w)\<lparr> st_rooms := js_set code ?room' (st_rooms (w_rooms w)) \<rparr>"
    using run_persist(4) [OF q room assms(7) free] by auto
  let ?rt = "snd (add_member (w_now w) code sid sid ?token (snd (get_runtime_room (w_now w) code (w_runtime w1))))"
  let ?w2 = "w1\<lparr> w_fresh := w_fresh w1 + 1, w_runtime := ?rt\<lparr> rt_heap := js_set sid
      ((session_object (w_runtime w1) sid)\<lparr> s_member_id := Some sid, s_room_code := Some code,
        s_member_token := Some ?token, s_joined_at := Some (w_now w) \<rparr>) (rt_heap ?rt) \<rparr> \<rparr>"
  have code': "pr_code ?room' = code" using assms(6) by (simp add: touched_def)
  have "seat_joined_session opt sid None ?lock (?room', t) w1 = (Inr (?room', ?token), ?w2)"
    using run_seat [OF w1(1) t, where lock = ?lock and opt = opt and room = ?room' and sid = sid] w1(2,3) code'
    by (simp add: join_admission_lock_ttl_ms_def)
  then have "?body ?w = (Inr (?room', ?token), ?w2)" using persist by (simp add: bind_run)
  moreover have q2: "quiet ?w2" using w1(1) by simp
  ultimately obtain w3 where "finallyE ?body (release_join_lock code ?lock) ?w = (Inr (?room', ?token), w3)"
    and end': "same_seats ?w2 w3" by (rule release_after)
  then have "join_room_for_session opt sid code join_token None None w = (Inr (?room', ?token), w3)"
    using join_begins [OF assms(1,2,3), of opt join_token] by simp
  moreover have "session_object ?rt = session_object (w_runtime w)"
    using session_object_cong [OF heap_frame [of "R_Add (w_now w) code sid sid ?token"]] same
    by (simp add: w1(4) same_seats_def)
  ultimately show ?thesis
    using that [of w3] end' q2 same w1
    by (simp add: same_seats_def add_member_views tokens_of_heap the_session_def fun_eq_iff)
qed

text \<open>
  C35. What a first join does, on every branch. In a quiet world with the lock free, a session
  in no room that presents a token for a live room is refused for a wrong token, then for a
  full room, and a refused join changes neither seats, identities, sessions nor rooms;
  otherwise it is seated under its own id with a fresh member token that is recorded for that
  member and in the session, no other seat or session changes, and the room's pending expiry
  is cancelled.
\<close>

theorem join_outcome:
  assumes "quiet w" and "lock_free code w" and "s_room_code (the_session sid w) = None"
    and "get_room (w_rooms w) code = Some room" and "\<not> expired_at (w_now w) room"
    and "pr_code room = code"
    and "join_room_for_session opt sid code join_token None None w = (result, w')"
  defines "room' \<equiv> room\<lparr> pr_expires_at := None, pr_last_active_at := w_now w, pr_version := pr_version room + 1 \<rparr>"
    and "token \<equiv> so_token opt (w_fresh w + 1)"
  shows "result = (if pr_join_token room \<noteq> join_token
        then Inl (Service Join_Token_Invalid Reason_Join_Token_Invalid)
        else if max_members_per_room (so_config opt) \<le> length (members_of (w_runtime w) code)
        then Inl (Service Room_Full Reason_Room_Full) else Inr (room', token))
    \<and> (case result of
         Inl _ \<Rightarrow> members_of (w_runtime w') = members_of (w_runtime w)
           \<and> session_object (w_runtime w') = session_object (w_runtime w) \<and> w_rooms w' = w_rooms w
       | Inr _ \<Rightarrow>
           members_of (w_runtime w') = (members_of (w_runtime w))(code := js_set sid sid (members_of (w_runtime w) code))
           \<and> js_get (tokens_of (w_runtime w') code) sid = Some token
           \<and> session_object (w_runtime w') = (session_object (w_runtime w))(sid := (the_session sid w)
               \<lparr> s_room_code := Some code, s_member_id := Some sid, s_member_token := Some token,
                 s_joined_at := Some (w_now w) \<rparr>)
           \<and> w_rooms w' = (w_rooms w)\<lparr> st_rooms := js_set code room' (st_rooms (w_rooms w)) \<rparr>)"
proof -
  let ?lock = "\<lparr> jl_token = so_uuid opt (w_fresh w), jl_expires_at = w_now w + join_admission_lock_ttl_ms \<rparr>"
  let ?persist = "persist_joined_room opt code join_token None"
  let ?body = "bindE ?persist (\<lambda>joined. case joined of
           None \<Rightarrow> raiseE (Service Room_Not_Found Reason_Room_Not_Found)
         | Some j \<Rightarrow> seat_joined_session opt sid None ?lock j)"
  let ?w = "locked opt code w"
  note run = join_begins [OF assms(1,2,3), of opt join_token, symmetric, unfolded assms(7)]
  have same: "same_seats w ?w" by (rule locked_same_seats)
  have q: "quiet ?w" using assms(1) by simp
  have room: "get_room (w_rooms ?w) code = Some room" "\<not> expired_at (w_now ?w) room" using assms(4,5) by simp_all
  consider (token) "pr_join_token room \<noteq> join_token"
    | (full) "pr_join_token room = join_token" "max_members_per_room (so_config opt) \<le> length (members_of (w_runtime ?w) code)"
    | (free) "pr_join_token room = join_token" "length (members_of (w_runtime ?w) code) < max_members_per_room (so_config opt)"
    by linarith
  then show ?thesis
  proof cases
    case token
    have "?body ?w = (Inl (Service Join_Token_Invalid Reason_Join_Token_Invalid), ?w)"
      by (rule bind_fails) (rule run_persist(2) [OF q room token])
    then obtain w2 where "finallyE ?body (release_join_lock code ?lock) ?w
        = (Inl (Service Join_Token_Invalid Reason_Join_Token_Invalid), w2)" "same_seats ?w w2"
      using q by (rule release_after)
    then show ?thesis using run token same_seats_trans [OF same, of w2] by (simp add: same_seats_def)
  next
    case full
    let ?w1 = "?w\<lparr> w_runtime := snd (get_runtime_room (w_now ?w) code (w_runtime ?w)) \<rparr>"
    have "?body ?w = (Inl (Service Room_Full Reason_Room_Full), ?w1)"
      by (rule bind_fails) (rule run_persist(3) [OF q room full])
    moreover have "quiet ?w1" using q by simp
    ultimately obtain w2 where "finallyE ?body (release_join_lock code ?lock) ?w
        = (Inl (Service Room_Full Reason_Room_Full), w2)" "same_seats ?w1 w2"
      by (rule release_after)
    then show ?thesis using run full same by (simp add: same_seats_def)
  next
    case free
    then have "length (members_of (w_runtime w) code) < max_members_per_room (so_config opt)"
      using same by (simp add: same_seats_def)
    from join_succeeds [OF assms(1-6) free(1) this] obtain w2 where
      run2: "join_room_for_session opt sid code join_token None None w = (Inr (touched (w_now w) room, token), w2)"
      and at_end: "members_of (w_runtime w2) = (members_of (w_runtime w))(code := js_set sid sid (members_of (w_runtime w) code))"
        "js_get (tokens_of (w_runtime w2) code) sid = Some token"
        "session_object (w_runtime w2) = (session_object (w_runtime w))(sid := (the_session sid w)
           \<lparr> s_room_code := Some code, s_member_id := Some sid, s_member_token := Some token,
             s_joined_at := Some (w_now w) \<rparr>)"
        "w_rooms w2 = (w_rooms w)\<lparr> st_rooms := js_set code (touched (w_now w) room) (st_rooms (w_rooms w)) \<rparr>"
      unfolding token_def by blast
    have room': "room' = touched (w_now w) room" by (simp add: room'_def touched_def)
    have "result = Inr (room', token)" "w' = w2" using assms(7) run2 room' by simp_all
    moreover have "\<not> max_members_per_room (so_config opt) \<le> length (members_of (w_runtime w) code)"
      using free(2) same by (simp add: same_seats_def)
    ultimately show ?thesis using free(1) at_end room' by simp
  qed
qed

theorem join_outcome_witness:
  "fst (join_room_for_session sample_options ''s2'' ''ABC234'' ''token-0123456789'' None None alice_world)
     = Inr (sample_room\<lparr> pr_shared_video := Some watched_video, pr_expires_at := None,
                        pr_last_active_at := 100, pr_version := 1 \<rparr>, ''T'')
   \<and> fst (join_room_for_session sample_options ''s2'' ''ABC234'' ''wrong-token'' None None alice_world)
     = Inl (Service Join_Token_Invalid Reason_Join_Token_Invalid)"
proof -
  let ?room = "sample_room\<lparr> pr_shared_video := Some watched_video \<rparr>"
  have facts: "quiet alice_world" "lock_free ''ABC234'' alice_world"
    "s_room_code (the_session ''s2'' alice_world) = None"
    "get_room (w_rooms alice_world) ''ABC234'' = Some ?room" "\<not> expired_at (w_now alice_world) ?room"
    "pr_code ?room = ''ABC234''" by code_simp+
  have vals: "pr_join_token ?room = ''token-0123456789''" "w_now alice_world = 100" "pr_version ?room = 0"
    "max_members_per_room (so_config sample_options) = 2"
    "length (members_of (w_runtime alice_world) ''ABC234'') = 1"
    "so_token sample_options (w_fresh alice_world + 1) = ''T''" by code_simp+
  obtain r w' where right: "join_room_for_session sample_options ''s2'' ''ABC234'' ''token-0123456789''
      None None alice_world = (r, w')" by fastforce
  obtain r2 w2 where wrong: "join_room_for_session sample_options ''s2'' ''ABC234'' ''wrong-token''
      None None alice_world = (r2, w2)" by fastforce
  show ?thesis
    using join_outcome [OF facts right] join_outcome [OF facts wrong] unfolding right wrong vals by simp
qed

subsection \<open>Creating\<close>

text \<open>The creation of the room a create returns, as the trace records it.\<close>

definition created_for :: "string \<Rightarrow> persisted_room \<Rightarrow> issued \<Rightarrow> bool" where
  "created_for sid room e = (case e of
     Issue_Create t input ok \<Rightarrow> ok \<and> room = create_persisted_room input \<and> ci_owner_member_id input = Some sid
   | _ \<Rightarrow> False)"

lemma make_room_Inr:
  assumes "make_room input w = (Inr room, w')"
  shows "\<exists>t. w_trace w' = w_trace w @ [Issue_Create t input True] \<and> room = create_persisted_room input"
proof -
  obtain r where call: "callE (\<lambda>w. case create_room input (w_rooms w) of
         (r, st) \<Rightarrow> (r, issue (Issue_Create (w_now w) input (r \<noteq> None)) (w\<lparr> w_rooms := st \<rparr>))) w = (Inr (Some room), w')"
    using assms by (auto simp: make_room_def bindE_Inr split: option.splits)
  have "calm [] w w" by (rule calm.R_refl)
  show ?thesis
    using call unfolding callE_def Let_def
    by (auto simp: create_room_def issue_def Let_def split: list.splits option.splits prod.splits if_splits)
qed

lemma orphan_issues: "issues_at (\<lambda>_. True) (orphan_attempts n code tok) w"
  by (induction n arbitrary: w) (auto intro!: issues_intros)

lemma expire_orphaned_issues: "issues_at (\<lambda>_. True) (expire_orphaned_room code tok) w"
  unfolding expire_orphaned_room_def run_orphan_expiry_def
  by (intro issues_intros orphan_issues)

text \<open>A request whose result, if it is a room, is one it created itself.\<close>

definition makes :: "string \<Rightarrow> persisted_room option io \<Rightarrow> world \<Rightarrow> bool" where
  "makes sid m w = (\<forall>room w'. m w = (Inr (Some room), w') \<longrightarrow>
     (\<exists>es. w_trace w' = w_trace w @ es \<and> list_ex (created_for sid room) es))"

lemma makes_bind:
  assumes "issues_at (\<lambda>_. True) m w" and "\<And>x w'. m w = (Inr x, w') \<Longrightarrow> makes sid (k x) w'"
  shows "makes sid (bindE m k) w"
  unfolding makes_def
proof (intro allI impI)
  fix room w' assume "bindE m k w = (Inr (Some room), w')"
  then obtain x w1 where "m w = (Inr x, w1)" "k x w1 = (Inr (Some room), w')" by (auto simp: bindE_Inr)
  moreover from this assms obtain es1 es2 where "w_trace w1 = w_trace w @ es1"
    "w_trace w' = w_trace w1 @ es2" "list_ex (created_for sid room) es2"
    unfolding makes_def issues_at_def by (metis snd_conv)
  ultimately show "\<exists>es. w_trace w' = w_trace w @ es \<and> list_ex (created_for sid room) es"
    by (intro exI [of _ "es1 @ es2"]) simp
qed

lemma makes_try_make:
  assumes "ci_owner_member_id input = Some sid"
    and "\<And>e w'. make_room input w = (Inl e, w') \<Longrightarrow> makes sid (h e) w'"
  shows "makes sid (tryE (make_room input) h (\<lambda>room. returnE (Some room))) w"
proof (cases "make_room input w")
  case (Pair r w1)
  show ?thesis
  proof (cases r)
    case (Inl e)
    have "issues_at (\<lambda>_. True) (make_room input) w" by (intro issues_intros) simp
    then obtain es where "w_trace w1 = w_trace w @ es" using Pair by (auto simp: issues_at_def)
    then show ?thesis using assms(2) [of e w1] Pair Inl
      by (fastforce simp: makes_def tryE_def)
  next
    case (Inr room)
    then show ?thesis using make_room_Inr [of input w room w1] Pair assms(1)
      by (auto simp: makes_def tryE_def created_for_def)
  qed
qed

lemma makes_nothing: "makes sid (returnE None) w" "makes sid (bindE m (\<lambda>_. returnE None)) w"
  by (auto simp: makes_def bindE_Inr)

lemma makes_if: "(b \<Longrightarrow> makes sid m w) \<Longrightarrow> (\<not> b \<Longrightarrow> makes sid n w) \<Longrightarrow> makes sid (if b then m else n) w"
  by simp

lemma create_attempts_make: "makes sid (create_attempts n opt sid t) w"
proof (induction n arbitrary: w)
  case (Suc n)
  show ?case
    unfolding create_attempts.simps
  proof (intro makes_bind makes_if makes_try_make Suc.IH issues_intros)
    show "makes sid (case e of Service c r \<Rightarrow> create_attempts n opt sid t
        | Unavailable admission \<Rightarrow> bindE (if admission then returnE () else expire_orphaned_room code tok)
            (\<lambda>_. returnE None)
        | Other_Error \<Rightarrow> create_attempts n opt sid t) w" for e code tok w
      by (cases e) (simp_all add: Suc.IH makes_nothing)
  qed simp_all
qed (simp add: makes_nothing)

lemma issues_leave: "issues_at (\<lambda>_. True) (leave_current_room opt sid reason) w"
proof -
  have remove: "issues_at (\<lambda>_. True) (remove_member_now opt code m sid) w"
    "issues_at (\<lambda>_. True) (add_member_now code m sid tok) w" for code m tok w
    unfolding remove_member_now_def add_member_now_def by (rule silent_calls)+
  have resolve: "issues_at (\<lambda>_. True) (resolve_room code) w" for code w
    by (rule issues_at_mono [OF issues_resolve]) simp
  show ?thesis
    unfolding leave_current_room_def leave_persisted_def shared_member_view_def schedule_expiry_def
      leave_failed_def restore_leave_state_def restore_joined_session_def clear_session_room_def
      flush_quietly_def Let_def
    by (intro issues_intros remove resolve) simp_all
qed

definition create_tail :: "service_options \<Rightarrow> string \<Rightarrow> rat \<Rightarrow> persisted_room \<Rightarrow> (persisted_room \<times> string) io" where
  "create_tail opt sid created_at room =
     bindE (tryE (stamp_generation opt (pr_code room)) (\<lambda>_. rollback_unstamped_room room) returnE) (\<lambda>stamped.
     bindE (if \<not> stamped then rollback_unstamped_room room else returnE ()) (\<lambda>_.
     bindE (next_token opt) (\<lambda>member_token.
     bindE (update_session sid (\<lambda>s. s\<lparr> s_member_id := Some sid \<rparr>)) (\<lambda>_.
     bindE (add_member_now (pr_code room) sid sid member_token) (\<lambda>_.
     bindE (update_session sid (\<lambda>s. s\<lparr> s_room_code := Some (pr_code room),
              s_member_token := Some member_token, s_joined_at := Some created_at \<rparr>)) (\<lambda>_.
     returnE (room, member_token)))))))"

lemma create_as_tail:
  "create_room_for_session opt sid name =
     bindE (set_session_display_name sid name) (\<lambda>_.
     bindE (leave_current_room opt sid Client_Request) (\<lambda>_.
     bindE clock (\<lambda>created_at.
     bindE (create_attempts 5 opt sid created_at) (\<lambda>found.
       case found of None \<Rightarrow> raiseE internal_error | Some room \<Rightarrow> create_tail opt sid created_at room))))"
  unfolding create_room_for_session_def create_tail_def by (rule refl)

lemma create_tail_issues: "issues_at (\<lambda>_. True) (create_tail opt sid t room) w"
  unfolding create_tail_def stamp_generation_def rollback_unstamped_room_def add_member_now_def
  by (intro issues_intros expire_orphaned_issues)

lemma rollback_fails: "rollback_unstamped_room room w \<noteq> (Inr x, w')"
  by (simp add: rollback_unstamped_room_def)

lemma update_session_eq: "update_session sid f w = (r, w') \<longleftrightarrow> r = Inr () \<and> w' = w\<lparr> w_runtime :=
     (w_runtime w)\<lparr> rt_heap := js_set sid (f (the_session sid w)) (rt_heap (w_runtime w)) \<rparr> \<rparr>"
  by (auto simp: run_update_session)

lemma create_tail_seats:
  assumes "create_tail opt sid t room w = (Inr (room', token), w')"
  shows "room' = room \<and> js_get (members_of (w_runtime w') (pr_code room)) sid = Some sid
    \<and> js_get (tokens_of (w_runtime w') (pr_code room)) sid = Some token
    \<and> s_room_code (the_session sid w') = Some (pr_code room) \<and> s_member_id (the_session sid w') = Some sid
    \<and> s_member_token (the_session sid w') = Some token \<and> s_joined_at (the_session sid w') = Some t"
proof -
  obtain w1 w2 where add: "add_member_now (pr_code room) sid sid token w1 = (Inr (), w2)"
    and before: "s_member_id (the_session sid w1) = Some sid"
    and last: "update_session sid (\<lambda>s. s\<lparr> s_room_code := Some (pr_code room),
              s_member_token := Some token, s_joined_at := Some t \<rparr>) w2 = (Inr (), w')" and "room' = room"
    using assms unfolding create_tail_def
    by (auto simp: bindE_Inr update_session_eq the_session_def)
  have "the_session sid w2 = the_session sid w1"
    using add session_object_cong [OF heap_frame [of "R_Add (w_now w1) (pr_code room) sid sid token"]]
    by (simp add: add_member_now_def runtime_sync_Inr the_session_def)
  then show ?thesis
    using add before last \<open>room' = room\<close>
    by (auto simp: add_member_now_def runtime_sync_Inr update_session_eq the_session_def add_member_views
        tokens_of_heap)
qed

text \<open>
  Creating a room yields a room of the creator's own, whatever interferes: the room a
  successful create answers with is one this request itself created in the store, owned by the
  session; the session is seated in it under its own id, with the member token that was
  returned, both in the room and in the session itself.
\<close>

theorem create_outcome:
  assumes "create_room_for_session opt sid name w = (Inr (room, token), w')"
  shows "list_ex (created_for sid room) (issued_by (create_room_for_session opt sid name) w)
    \<and> js_get (members_of (w_runtime w') (pr_code room)) sid = Some sid
    \<and> js_get (tokens_of (w_runtime w') (pr_code room)) sid = Some token
    \<and> s_room_code (the_session sid w') = Some (pr_code room) \<and> s_member_id (the_session sid w') = Some sid
    \<and> s_member_token (the_session sid w') = Some token"
proof -
  obtain u1 w1 u2 w2 room0 w3 where name: "set_session_display_name sid name w = (Inr u1, w1)"
    and leave: "leave_current_room opt sid Client_Request w1 = (Inr u2, w2)"
    and found: "create_attempts 5 opt sid (w_now w2) w2 = (Inr (Some room0), w3)"
    and tail: "create_tail opt sid (w_now w2) room0 w3 = (Inr (room, token), w')"
    using assms unfolding create_as_tail
    by (auto simp: bindE_Inr clock_eq split: option.splits simp del: create_attempts.simps)
  have "issues_at (\<lambda>_. True) (set_session_display_name sid name) w"
    unfolding set_session_display_name_def Let_def by (intro issues_intros)
  then obtain e1 e2 e3 e4 where "w_trace w1 = w_trace w @ e1" "w_trace w2 = w_trace w1 @ e2"
    "w_trace w3 = w_trace w2 @ e3" "list_ex (created_for sid room0) e3" "w_trace w' = w_trace w3 @ e4"
    using name leave tail found create_attempts_make [of sid 5 opt "w_now w2" w2]
      issues_leave [of opt sid Client_Request w1] create_tail_issues [of opt sid "w_now w2" room0 w3]
    by (auto simp: issues_at_def makes_def simp del: create_attempts.simps)
  then show ?thesis
    using create_tail_seats [OF tail] assms by (auto simp: issued_by_def)
qed

theorem create_outcome_witness:
  "js_get (members_of (w_runtime (snd (create_room_for_session sample_options ''s2'' (Some ''Bob'') alice_world))) [])
     ''s2'' = Some ''s2''"
proof -
  let ?run = "create_room_for_session sample_options ''s2'' (Some ''Bob'') alice_world"
  have "map_sum (\<lambda>_. ()) (\<lambda>(room, token). pr_code room) (fst ?run) = Inr []" by code_simp
  then obtain room token w' where run: "?run = (Inr (room, token), w')" and code: "pr_code room = []"
    by (cases ?run; cases "fst ?run") auto
  show ?thesis using create_outcome [OF run] by (simp add: run code)
qed

end
