(* ===== verification/Message_Handler.thy ===== *)
theory Message_Handler
  imports Room_Service
begin

text \<open>
  \<open>server/src/message-handler.ts\<close>: what the server does with a client message. The handler
  meters it, checks the protocol version, calls the room service, and tells the client and the
  other nodes what came of it. \<open>hs_out\<close> is everything it sends, in order: to its own client,
  to the room-event bus and to the queue of owed resyncs. The session's socket is open or not
  when an aborted join looks (\<open>hs_socket_open\<close>); what a publish finds in its slots, and what
  wakes it while it waits for one, are \<open>hs_looks\<close> and \<open>hs_wakes\<close>. Logging and metrics are left
  out. \<open>app.ts\<close> wires the two index hooks.
\<close>

subsection \<open>What is sent\<close>

text \<open>\<open>RoomEventBusMessage\<close>, less the stamp of the sending node.\<close>

datatype room_event =
    State_Updated string
  | Member_Changed string
  | Member_Joined string string string
  | Member_Left string string string
  | Room_Deleted string

datatype outgoing =
    Send_Created string string string string
  | Send_Joined string string string
  | Send_State room_state "rat option"
  | Send_Pong rat rat rat
  | Send_Error error_code
  | Send_Announcement
  | Publish room_event
  | Resync string
  | Close_Socket nat

text \<open>A wait for a publish slot ends because slots were freed, at a time, or at its timer.\<close>

datatype wake = Slots_Freed nat rat | Timer_Fired

record handler_state =
  hs_world :: world
  hs_out :: "outgoing list"
  hs_pending :: nat
  hs_looks :: "nat list"
  hs_wakes :: "wake list"
  hs_socket_open :: bool

record handler_options =
  ho_service :: service_options
  ho_max_pending_publishes :: nat
  ho_backpressure_wait_ms :: rat

type_synonym 'a hio = "(handler_state, 'a) action"

definition liftE :: "'a io \<Rightarrow> 'a hio" where
  "liftE m = (\<lambda>h. case m (hs_world h) of (r, w) \<Rightarrow> (r, h\<lparr> hs_world := w \<rparr>))"

definition emit :: "outgoing \<Rightarrow> unit hio" where
  "emit o' = putE (\<lambda>h. h\<lparr> hs_out := hs_out h @ [o'] \<rparr>)"

definition session_now :: "string \<Rightarrow> session hio" where
  "session_now sid = getE (\<lambda>h. the_session sid (hs_world h))"

definition min_protocol_version :: rat where "min_protocol_version = 1"
definition close_code_join_rollback_failed :: nat where "close_code_join_rollback_failed = 1011"

definition send_state :: "room_state \<Rightarrow> unit hio" where
  "send_state state = bindE (liftE clock) (\<lambda>now.
     let aged = with_playback_age state now in emit (Send_State (fst aged) (snd aged)))"

subsection \<open>Publishing to the room-event bus\<close>

text \<open>
  A publish takes one of a bounded number of slots and is not waited for. With none free the
  handler waits, up to a deadline, and drops the event when it passes.
\<close>

definition look :: "handler_state \<Rightarrow> handler_state" where
  "look h = (case hs_looks h of [] \<Rightarrow> h | n # rest \<Rightarrow> h\<lparr> hs_pending := n, hs_looks := rest \<rparr>)"

fun await_slot :: "nat \<Rightarrow> rat \<Rightarrow> wake list \<Rightarrow> handler_state \<Rightarrow> bool \<times> handler_state" where
  "await_slot limit deadline wakes h =
     (if hs_pending h < limit then (True, h)
      else if deadline - w_now (hs_world h) \<le> 0 then (False, h)
      else case wakes of
             [] \<Rightarrow> (False, h)
           | Timer_Fired # rest \<Rightarrow> (False, h\<lparr> hs_wakes := rest \<rparr>)
           | Slots_Freed n t # rest \<Rightarrow>
               await_slot limit deadline rest (h\<lparr> hs_pending := n, hs_wakes := rest,
                 hs_world := (hs_world h)\<lparr> w_now := max (w_now (hs_world h)) t \<rparr> \<rparr>))"

declare await_slot.simps [simp del]

definition fire_publish_room_event :: "handler_options \<Rightarrow> room_event \<Rightarrow> unit hio" where
  "fire_publish_room_event opt e = (\<lambda>h0.
     let h = look h0
     in case await_slot (ho_max_pending_publishes opt)
                (w_now (hs_world h) + ho_backpressure_wait_ms opt) (hs_wakes h) h of
          (False, h') \<Rightarrow> (Inr (), h')
        | (True, h') \<Rightarrow> (Inr (), h'\<lparr> hs_pending := hs_pending h' + 1, hs_out := hs_out h' @ [Publish e] \<rparr>))"

definition publish_shared_owner_resync :: "string \<Rightarrow> unit hio" where
  "publish_shared_owner_resync code = emit (Resync code)"

subsection \<open>The index hooks\<close>

definition on_room_joined :: "string \<Rightarrow> string \<Rightarrow> unit io" where
  "on_room_joined sid code =
     bindE (runtime_sync (\<lambda>_ rt. ((), register_session sid rt))) (\<lambda>_.
     bindE (runtime_call (\<lambda>_ rt. ((), mark_session_joined_room sid code rt))) (\<lambda>_. flush_runtime))"

definition on_room_left :: "string \<Rightarrow> string \<Rightarrow> unit io" where
  "on_room_left sid code =
     bindE (runtime_sync (\<lambda>_ rt. ((), register_session sid rt))) (\<lambda>_.
     bindE (runtime_call (\<lambda>_ rt. ((), mark_session_left_room sid (Some code) rt))) (\<lambda>_. flush_runtime))"

definition run_room_joined_hook :: "string \<Rightarrow> string \<Rightarrow> bool hio" where
  "run_room_joined_hook sid code = tryE (liftE (on_room_joined sid code)) (\<lambda>_. returnE False) (\<lambda>_. returnE True)"

definition run_room_left_hook :: "string \<Rightarrow> string \<Rightarrow> bool hio" where
  "run_room_left_hook sid code = tryE (liftE (on_room_left sid code)) (\<lambda>_. returnE False) (\<lambda>_. returnE True)"

subsection \<open>Leaving\<close>

text \<open>The answer says whether the session is provably out of the room's index.\<close>

definition leave_room :: "handler_options \<Rightarrow> string \<Rightarrow> leave_reason \<Rightarrow> bool hio" where
  "leave_room opt sid reason =
     bindE (session_now sid) (\<lambda>s.
     bindE (liftE (leave_current_room (ho_service opt) sid reason)) (\<lambda>left.
       if \<not> truthy (s_room_code s) then returnE True
       else if lr_room left = None \<and> \<not> lr_notify_room left then returnE False
       else
         let code = the (s_room_code s)
         in bindE (run_room_left_hook sid code) (\<lambda>cleaned.
            let resync = (if lr_needs_resync left \<and> cleaned then publish_shared_owner_resync code else returnE ())
            in if \<not> lr_member_removed left \<and> \<not> lr_notify_room left
               then bindE resync (\<lambda>_. returnE cleaned)
               else bindE (fire_publish_room_event opt (Member_Left code (session_member_id s) (s_display_name s)))
                      (\<lambda>_. bindE resync (\<lambda>_. returnE cleaned)))))"

text \<open>
  A join whose index write failed is unwound; when that cannot be shown to have worked within
  its bound, the socket goes. The rollback that outlives the bound is the schedule's.
\<close>

definition bounded_rollback :: "handler_options \<Rightarrow> string \<Rightarrow> bool hio" where
  "bounded_rollback opt sid =
     tryE (bindE (liftE (bounded_wait Other_Error (returnE ()))) (\<lambda>_. leave_room opt sid Disconnect))
       (\<lambda>_. returnE False) returnE"

definition abort_join :: "handler_options \<Rightarrow> string \<Rightarrow> unit hio" where
  "abort_join opt sid =
     bindE (bounded_rollback opt sid) (\<lambda>rolled_back.
     bindE (emit (Send_Error Internal_Error)) (\<lambda>_.
       if rolled_back then returnE ()
       else bindE (getE (\<lambda>h. has_attached_socket (the_session sid (hs_world h)) \<and> hs_socket_open h)) (\<lambda>open.
              if open then emit (Close_Socket close_code_join_rollback_failed) else returnE ())))"

subsection \<open>Switching rooms\<close>

record previous_seat =
  pv_room_code :: string
  pv_member_id :: string
  pv_display_name :: string

definition previous_seat_of :: "session \<Rightarrow> previous_seat option" where
  "previous_seat_of s =
     (if truthy (s_room_code s)
      then Some \<lparr> pv_room_code = the (s_room_code s), pv_member_id = session_member_id s,
                  pv_display_name = s_display_name s \<rparr>
      else None)"

definition release_previous_room :: "handler_options \<Rightarrow> string \<Rightarrow> previous_seat \<Rightarrow> bool hio" where
  "release_previous_room opt sid previous =
     bindE (run_room_left_hook sid (pv_room_code previous)) (\<lambda>cleaned.
     bindE (fire_publish_room_event opt
              (Member_Left (pv_room_code previous) (pv_member_id previous) (pv_display_name previous)))
       (\<lambda>_. returnE cleaned))"

definition publish_previous_room_resync ::
    "previous_seat option \<Rightarrow> string \<Rightarrow> bool \<Rightarrow> bool \<Rightarrow> unit hio" where
  "publish_previous_room_resync previous joined_code seated cleaned =
     (case previous of
        None \<Rightarrow> returnE ()
      | Some p \<Rightarrow> if pv_room_code p = joined_code then returnE ()
                  else if seated \<or> cleaned then publish_shared_owner_resync (pv_room_code p)
                  else returnE ())"

text \<open>Whatever the room was entered through, the room being left is released when that fails.\<close>

definition enter_room ::
    "handler_options \<Rightarrow> string \<Rightarrow> previous_seat option \<Rightarrow> 'a io \<Rightarrow> 'a hio" where
  "enter_room opt sid previous enter =
     tryE (liftE enter)
       (\<lambda>e. bindE (session_now sid) (\<lambda>s.
            bindE (case previous of
                     None \<Rightarrow> returnE ()
                   | Some p \<Rightarrow>
                       if s_room_code s = Some (pv_room_code p) then returnE ()
                       else bindE (release_previous_room opt sid p) (\<lambda>cleaned.
                              publish_previous_room_resync previous [] False cleaned))
              (\<lambda>_. raiseE e)))
       returnE"

text \<open>What both entrances do once the service admitted the session; the answer is whether it is seated.\<close>

definition settle_entry :: "handler_options \<Rightarrow> string \<Rightarrow> previous_seat option \<Rightarrow> string \<Rightarrow> bool hio" where
  "settle_entry opt sid previous code =
     bindE (case previous of
              None \<Rightarrow> returnE False
            | Some p \<Rightarrow> if pv_room_code p = code then returnE False else release_previous_room opt sid p)
       (\<lambda>cleaned.
     bindE (run_room_joined_hook sid code) (\<lambda>seated.
     bindE (if seated then returnE () else abort_join opt sid) (\<lambda>_.
     bindE (publish_previous_room_resync previous code seated cleaned) (\<lambda>_. returnE seated))))"

text \<open>Who the state just sent names as the owner of the share, when it could be sent.\<close>

definition send_room_state_to_session :: "string \<Rightarrow> string \<Rightarrow> string option option hio" where
  "send_room_state_to_session sid member_token =
     bindE (session_now sid) (\<lambda>s.
       if \<not> has_attached_socket s then returnE None
       else
         tryE (liftE (get_room_state_for_session sid member_token)) (\<lambda>_. returnE None) (\<lambda>state.
         bindE (session_now sid) (\<lambda>s'.
           if \<not> has_attached_socket s' then returnE None
           else bindE (send_state state) (\<lambda>_.
                returnE (Some (case rs_shared_video state of
                    None \<Rightarrow> None | Some v \<Rightarrow> sv_shared_by_member_id v))))))"

subsection \<open>Metering and the protocol version\<close>

definition handle_rate_limited :: "bool \<Rightarrow> unit hio" where
  "handle_rate_limited answer = (if answer then emit (Send_Error Rate_Limited) else returnE ())"

text \<open>The limiters belong to the session; an attempt is counted at the time the message arrived.\<close>

definition consume_limit ::
    "string \<Rightarrow> (session_rate_limit_state \<Rightarrow> bool \<times> session_rate_limit_state) \<Rightarrow> bool hio" where
  "consume_limit sid f = liftE (bindE (getE (the_session sid)) (\<lambda>s.
     bindE (update_session sid (\<lambda>s. s\<lparr> s_rate_limit_state := snd (f (s_rate_limit_state s)) \<rparr>)) (\<lambda>_.
     returnE (fst (f (s_rate_limit_state s))))))"

fun message_limit ::
    "rate_limit_config \<Rightarrow> rat \<Rightarrow> client_message \<Rightarrow>
      (session_rate_limit_state \<Rightarrow> bool \<times> session_rate_limit_state) option" where
  "message_limit cfg now (Room_Create _) = Some (\<lambda>s.
     case consume_fixed_window (rl_room_create s) (room_create_per_minute cfg) window_minute_ms now of
       (ok, c) \<Rightarrow> (ok, s\<lparr> rl_room_create := c \<rparr>))"
| "message_limit cfg now (Room_Join _) = Some (\<lambda>s.
     case consume_fixed_window (rl_room_join s) (room_join_per_minute cfg) window_minute_ms now of
       (ok, c) \<Rightarrow> (ok, s\<lparr> rl_room_join := c \<rparr>))"
| "message_limit cfg now (Video_Share _ _ _) = Some (\<lambda>s.
     case consume_fixed_window (rl_video_share s) (video_share_per_10_seconds cfg) window_10_seconds_ms now of
       (ok, c) \<Rightarrow> (ok, s\<lparr> rl_video_share := c \<rparr>))"
| "message_limit cfg now (Playback_Update _ _) = Some (\<lambda>s.
     case consume_token_bucket (rl_playback_update s) (playback_update_per_second cfg)
            (playback_update_burst cfg) now of
       (ok, b) \<Rightarrow> (ok, s\<lparr> rl_playback_update := b \<rparr>))"
| "message_limit cfg now (Sync_Request _) = Some (\<lambda>s.
     case consume_fixed_window (rl_sync_request s) (sync_request_per_10_seconds cfg) window_10_seconds_ms now of
       (ok, c) \<Rightarrow> (ok, s\<lparr> rl_sync_request := c \<rparr>))"
| "message_limit cfg now (Sync_Ping _) = Some (\<lambda>s.
     case consume_token_bucket (rl_sync_ping s) (sync_ping_per_second cfg) (sync_ping_burst cfg) now of
       (ok, b) \<Rightarrow> (ok, s\<lparr> rl_sync_ping := b \<rparr>))"
| "message_limit cfg now (Profile_Update _ _) = None"
| "message_limit cfg now (Room_Leave _) = None"

text \<open>Playback reports and pings over the limit are dropped without a word.\<close>

fun limit_is_answered :: "client_message \<Rightarrow> bool" where
  "limit_is_answered (Playback_Update _ _) = False"
| "limit_is_answered (Sync_Ping _) = False"
| "limit_is_answered _ = True"

definition check_protocol_version :: "string \<Rightarrow> rat option \<Rightarrow> bool hio" where
  "check_protocol_version sid client_version =
     (let set_version = (\<lambda>v. liftE (update_session sid (\<lambda>s. s\<lparr> s_protocol_version := Some v \<rparr>)))
      in case client_version of
           None \<Rightarrow> bindE (set_version min_protocol_version) (\<lambda>_. returnE True)
         | Some v \<Rightarrow>
             if v < min_protocol_version
             then bindE (emit (Send_Error Unsupported_Protocol_Version)) (\<lambda>_. returnE False)
             else bindE (set_version v) (\<lambda>_. returnE True))"

subsection \<open>The messages\<close>

definition handle_room_create ::
    "handler_options \<Rightarrow> string \<Rightarrow> previous_seat option \<Rightarrow> client_hello option \<Rightarrow> unit hio" where
  "handle_room_create opt sid previous payload =
     bindE (check_protocol_version sid (case payload of None \<Rightarrow> None | Some p \<Rightarrow> ch_protocol_version p)) (\<lambda>ok.
       if \<not> ok then returnE ()
       else
         bindE (enter_room opt sid previous (create_room_for_session (ho_service opt) sid
                  (case payload of None \<Rightarrow> None | Some p \<Rightarrow> ch_display_name p))) (\<lambda>(room, member_token).
         bindE (settle_entry opt sid previous (pr_code room)) (\<lambda>seated.
           if \<not> seated then returnE ()
           else
             bindE (session_now sid) (\<lambda>s.
             bindE (emit (Send_Created (pr_code room) (session_member_id s) (pr_join_token room) member_token)) (\<lambda>_.
             bindE (emit Send_Announcement) (\<lambda>_.
             bindE (send_room_state_to_session sid member_token) (\<lambda>_. returnE ())))))))"

text \<open>The last part of a join: tell the others, unless the session has moved on meanwhile.\<close>

definition announce_join ::
    "handler_options \<Rightarrow> string \<Rightarrow> previous_seat option \<Rightarrow> string \<Rightarrow> string \<Rightarrow> string
      \<Rightarrow> string option option \<Rightarrow> unit hio" where
  "announce_join opt sid previous code member_id display_name bootstrap =
     bindE (session_now sid) (\<lambda>s.
       if s_room_code s \<noteq> Some code \<or> s_member_id s \<noteq> Some member_id then returnE ()
       else
         bindE (fire_publish_room_event opt (Member_Joined code member_id display_name)) (\<lambda>_.
           if bootstrap = None \<or> bootstrap = Some (Some member_id)
              \<or> map_option pv_room_code previous = Some code
           then publish_shared_owner_resync code else returnE ()))"

definition handle_room_join ::
    "handler_options \<Rightarrow> string \<Rightarrow> previous_seat option \<Rightarrow> join_payload \<Rightarrow> unit hio" where
  "handle_room_join opt sid previous payload =
     bindE (check_protocol_version sid (jp_protocol_version payload)) (\<lambda>ok.
       if \<not> ok then returnE ()
       else
         bindE (enter_room opt sid previous (join_room_for_session (ho_service opt) sid
                  (jp_room_code payload) (jp_join_token payload) (jp_display_name payload)
                  (jp_member_token payload))) (\<lambda>(room, member_token).
         bindE (settle_entry opt sid previous (pr_code room)) (\<lambda>seated.
           if \<not> seated then returnE ()
           else
             bindE (session_now sid) (\<lambda>s.
             bindE (emit (Send_Joined (pr_code room) (session_member_id s) member_token)) (\<lambda>_.
             bindE (emit Send_Announcement) (\<lambda>_.
             bindE (send_room_state_to_session sid member_token) (\<lambda>bootstrap.
             announce_join opt sid previous (pr_code room) (session_member_id s) (s_display_name s) bootstrap)))))))"

definition handle_room_leave :: "handler_options \<Rightarrow> string \<Rightarrow> string option \<Rightarrow> unit hio" where
  "handle_room_leave opt sid member_token =
     bindE (session_now sid) (\<lambda>s.
       if truthy member_token \<and> truthy (s_member_token s) \<and> member_token \<noteq> s_member_token s
       then emit (Send_Error Member_Token_Invalid)
       else bindE (leave_room opt sid Client_Request) (\<lambda>_. returnE ()))"

definition publish_update :: "handler_options \<Rightarrow> persisted_room \<Rightarrow> unit hio" where
  "publish_update opt room = fire_publish_room_event opt (State_Updated (pr_code room))"

definition handle_playback_update ::
    "handler_options \<Rightarrow> string \<Rightarrow> string \<Rightarrow> playback_state \<Rightarrow> unit hio" where
  "handle_playback_update opt sid member_token playback =
     bindE (liftE (update_playback_for_session (ho_service opt) sid member_token playback)) (\<lambda>(room, ignored).
       case room of
         Some r \<Rightarrow> if ignored then returnE () else publish_update opt r
       | None \<Rightarrow> returnE ())"

fun handle_admitted ::
    "handler_options \<Rightarrow> string \<Rightarrow> rat \<Rightarrow> previous_seat option \<Rightarrow> client_message \<Rightarrow> unit hio" where
  "handle_admitted opt sid now previous (Room_Create payload) = handle_room_create opt sid previous payload"
| "handle_admitted opt sid now previous (Room_Join payload) = handle_room_join opt sid previous payload"
| "handle_admitted opt sid now previous (Room_Leave member_token) = handle_room_leave opt sid member_token"
| "handle_admitted opt sid now previous (Profile_Update member_token display_name) =
     bindE (liftE (update_profile_for_session (ho_service opt) sid member_token display_name)) (publish_update opt)"
| "handle_admitted opt sid now previous (Video_Share member_token video playback) =
     bindE (liftE (share_video_for_session (ho_service opt) sid member_token video playback)) (publish_update opt)"
| "handle_admitted opt sid now previous (Playback_Update member_token playback) =
     handle_playback_update opt sid member_token playback"
| "handle_admitted opt sid now previous (Sync_Request member_token) =
     bindE (liftE (get_room_state_for_session sid member_token)) send_state"
| "handle_admitted opt sid now previous (Sync_Ping client_send_time) =
     bindE (liftE clock) (\<lambda>sent. emit (Send_Pong client_send_time now sent))"

definition handle_metered :: "handler_options \<Rightarrow> string \<Rightarrow> rat \<Rightarrow> client_message \<Rightarrow> unit hio" where
  "handle_metered opt sid now message =
     bindE (session_now sid) (\<lambda>s.
     let previous = previous_seat_of s in
     bindE (case message_limit (rate_limits (so_config (ho_service opt))) now message of
              None \<Rightarrow> returnE True | Some f \<Rightarrow> consume_limit sid f) (\<lambda>allowed.
       if \<not> allowed then handle_rate_limited (limit_is_answered message)
       else handle_admitted opt sid now previous message))"

text \<open>Every \<open>RoomServiceError\<close> is answered with its code; any other rejection is the caller's.\<close>

definition handle_client_message :: "handler_options \<Rightarrow> string \<Rightarrow> client_message \<Rightarrow> unit hio" where
  "handle_client_message opt sid message =
     bindE (liftE clock) (\<lambda>now.
     bindE (session_now sid) (\<lambda>s.
       if \<not> has_attached_socket s then raiseE Other_Error
       else tryE (handle_metered opt sid now message)
              (\<lambda>e. case e of Service code _ \<Rightarrow> emit (Send_Error code) | _ \<Rightarrow> raiseE e) returnE))"

end
