(* ===== verification/Handler_Replies.thy ===== *)
theory Handler_Replies
  imports Message_Handler Room_Safety
begin

text \<open>
  What a client hears of its message, whatever the service, the other requests and the bus do:
  a message that is refused at the gate reaches no service, and every request that asks for an
  answer gets exactly one.
\<close>

subsection \<open>Actions of the handler\<close>

text \<open>\<open>replies P m k\<close>: a normal end adds \<open>k x\<close> outputs of kind \<open>P\<close>, a failure none.\<close>

definition said :: "(outgoing \<Rightarrow> bool) \<Rightarrow> handler_state \<Rightarrow> nat" where
  "said P h = length (filter P (hs_out h))"

definition replies :: "(outgoing \<Rightarrow> bool) \<Rightarrow> 'a hio \<Rightarrow> ('a \<Rightarrow> nat) \<Rightarrow> bool" where
  "replies P m k = (\<forall>h. said P (snd (m h)) = said P h + (case fst (m h) of Inl _ \<Rightarrow> 0 | Inr x \<Rightarrow> k x))"

definition never_fails :: "'a hio \<Rightarrow> bool" where
  "never_fails m = (\<forall>h. \<exists>x. fst (m h) = Inr x)"

abbreviation silent :: "(outgoing \<Rightarrow> bool) \<Rightarrow> 'a hio \<Rightarrow> bool" where
  "silent P m \<equiv> replies P m (\<lambda>_. 0)"

named_theorems reply_rules \<open>how much an action of the handler says\<close>
named_theorems total_rules \<open>actions of the handler that cannot fail\<close>

lemma repliesD:
  "replies P m k \<Longrightarrow> said P (snd (m h)) = said P h + (case fst (m h) of Inl _ \<Rightarrow> 0 | Inr x \<Rightarrow> k x)"
  by (simp add: replies_def)

lemma repliesE: "silent P m \<Longrightarrow> m h = (r, h') \<Longrightarrow> said P h' = said P h"
  using repliesD [of P m "\<lambda>_. 0" h] by (simp split: sum.splits)

lemma replies_basic [reply_rules]:
  "silent P (returnE x)" "silent P (raiseE e)" "silent P (getE f)" "silent P (session_now sid)"
  by (simp_all add: replies_def returnE_def raiseE_def getE_def session_now_def)

lemma said_world [simp]: "said P (h\<lparr> hs_world := w \<rparr>) = said P h"
  by (simp add: said_def)

lemma replies_lift [reply_rules]: "silent P (liftE m)"
  by (simp add: replies_def liftE_def split: prod.split sum.split)

lemma replies_emit [reply_rules]: "replies P (emit x) (\<lambda>_. if P x then 1 else 0)"
  by (simp add: replies_def emit_def putE_def said_def)

lemma replies_bind:
  assumes "silent P m" and "\<And>x. replies P (k x) n"
  shows "replies P (bindE m k) n"
  unfolding replies_def
proof
  fix h
  obtain r h1 where m: "m h = (r, h1)" by fastforce
  show "said P (snd (bindE m k h)) = said P h + (case fst (bindE m k h) of Inl _ \<Rightarrow> 0 | Inr x \<Rightarrow> n x)"
    using repliesE [OF assms(1) m] m repliesD [OF assms(2)] by (cases r) (simp_all add: bindE_def)
qed

lemma replies_then:
  assumes "replies P m (\<lambda>_. n)" and "\<And>x. silent P (k x)" and "\<And>x. never_fails (k x)"
  shows "replies P (bindE m k) (\<lambda>_. n)"
  unfolding replies_def
proof
  fix h
  obtain r h1 where m: "m h = (r, h1)" by fastforce
  show "said P (snd (bindE m k h)) = said P h + (case fst (bindE m k h) of Inl _ \<Rightarrow> 0 | Inr x \<Rightarrow> n)"
  proof (cases r)
    case Inl
    then show ?thesis using repliesD [OF assms(1), of h] m by (simp add: bindE_def)
  next
    case (Inr x)
    obtain y where "fst (k x h1) = Inr y" using assms(3) unfolding never_fails_def by blast
    then show ?thesis
      using repliesD [OF assms(1), of h] m repliesD [OF assms(2), of x h1] Inr by (simp add: bindE_def)
  qed
qed

lemma replies_try:
  assumes "silent P m" and "\<And>e. replies P (f e) n" and "\<And>x. replies P (k x) n"
  shows "replies P (tryE m f k) n"
  unfolding replies_def
proof
  fix h
  obtain r h1 where m: "m h = (r, h1)" by fastforce
  show "said P (snd (tryE m f k h)) = said P h + (case fst (tryE m f k h) of Inl _ \<Rightarrow> 0 | Inr x \<Rightarrow> n x)"
    using repliesE [OF assms(1) m] m repliesD [OF assms(2)] repliesD [OF assms(3)]
    by (cases r) (simp_all add: tryE_def)
qed

lemma replies_result:
  assumes "replies P m k" and "\<And>h x. fst (m h) = Inr x \<Longrightarrow> k x = k' x"
  shows "replies P m k'"
  using assms unfolding replies_def by (metis (no_types, lifting) obj_sumE sum.case(1) sum.case(2))

lemma total_basic [total_rules]:
  "never_fails (returnE x)" "never_fails (getE f)" "never_fails (session_now sid)" "never_fails (emit y)"
  by (simp_all add: never_fails_def returnE_def getE_def session_now_def emit_def putE_def)

lemma total_bind:
  assumes "never_fails m" and "\<And>x. never_fails (k x)"
  shows "never_fails (bindE m k)"
  unfolding never_fails_def
proof
  fix h
  obtain x h1 where "m h = (Inr x, h1)"
    using assms(1) unfolding never_fails_def by (metis prod.collapse)
  then show "\<exists>y. fst (bindE m k h) = Inr y" using assms(2) by (simp add: bindE_def never_fails_def)
qed

lemma total_try:
  assumes "\<And>e. never_fails (f e)" and "\<And>x. never_fails (k x)"
  shows "never_fails (tryE m f k)"
  using assms by (simp add: never_fails_def tryE_def split: prod.split sum.split)

lemma total_if: "(b \<Longrightarrow> never_fails m) \<Longrightarrow> (\<not> b \<Longrightarrow> never_fails m') \<Longrightarrow> never_fails (if b then m else m')"
  by simp

lemma replies_if: "(b \<Longrightarrow> replies P m k) \<Longrightarrow> (\<not> b \<Longrightarrow> replies P m' k) \<Longrightarrow> replies P (if b then m else m') k"
  by simp

lemma total_option:
  "(x = None \<Longrightarrow> never_fails m) \<Longrightarrow> (\<And>y. x = Some y \<Longrightarrow> never_fails (m' y)) \<Longrightarrow>
    never_fails (case x of None \<Rightarrow> m | Some y \<Rightarrow> m' y)"
  by (cases x) simp_all

lemma replies_option:
  "(x = None \<Longrightarrow> replies P m k) \<Longrightarrow> (\<And>y. x = Some y \<Longrightarrow> replies P (m' y) k) \<Longrightarrow>
    replies P (case x of None \<Rightarrow> m | Some y \<Rightarrow> m' y) k"
  by (cases x) simp_all

lemmas reply_steps = replies_bind replies_try replies_if replies_option
lemmas total_steps = total_bind total_try total_if total_option


subsection \<open>The parts of a request\<close>

lemma await_slot_says: "said P (snd (await_slot limit deadline wakes h)) = said P h"
proof (induction limit deadline wakes h rule: await_slot.induct)
  case (1 limit deadline wakes h)
  show ?case
    by (subst await_slot.simps) (use 1 in \<open>simp add: said_def split: list.split wake.split\<close>)
qed

lemma look_says: "said P (look h) = said P h"
  by (simp add: look_def said_def split: list.split)

lemma total_publish [total_rules]: "never_fails (fire_publish_room_event opt e)"
  by (simp add: never_fails_def fire_publish_room_event_def Let_def split: prod.split bool.split)

lemma replies_publish:
  assumes "\<not> P (Publish e)"
  shows "silent P (fire_publish_room_event opt e)"
  unfolding replies_def
proof
  fix h
  let ?h = "look h"
  obtain b h' where "await_slot (ho_max_pending_publishes opt)
      (w_now (hs_world ?h) + ho_backpressure_wait_ms opt) (hs_wakes ?h) ?h = (b, h')" by fastforce
  then show "said P (snd (fire_publish_room_event opt e h))
      = said P h + (case fst (fire_publish_room_event opt e h) of Inl _ \<Rightarrow> 0 | Inr x \<Rightarrow> 0)"
    using assms await_slot_says [of P "ho_max_pending_publishes opt"
      "w_now (hs_world ?h) + ho_backpressure_wait_ms opt" "hs_wakes ?h" ?h] look_says [of P h]
    by (cases b) (simp_all add: fire_publish_room_event_def Let_def said_def)
qed

text \<open>Outputs that are not for the client's eyes.\<close>

definition answering :: "(outgoing \<Rightarrow> bool) \<Rightarrow> bool" where
  "answering P = ((\<forall>e. \<not> P (Publish e)) \<and> (\<forall>c. \<not> P (Resync c)) \<and> \<not> P Send_Announcement
     \<and> (\<forall>n. \<not> P (Close_Socket n)) \<and> (\<forall>c. P (Send_Error c)))"

lemma silent_quietly:
  assumes "answering P"
  shows "silent P (fire_publish_room_event opt e)" "silent P (publish_shared_owner_resync c)"
    "silent P (emit Send_Announcement)" "silent P (emit (Close_Socket n))"
    "replies P (emit (Send_Error code)) (\<lambda>_. Suc 0)"
  using assms replies_emit [of P "Resync c"] replies_emit [of P Send_Announcement]
    replies_emit [of P "Close_Socket n"] replies_emit [of P "Send_Error code"]
  by (simp_all add: answering_def replies_publish publish_shared_owner_resync_def)

lemma total_hooks [total_rules]:
  "never_fails (run_room_joined_hook sid code)" "never_fails (run_room_left_hook sid code)"
  by (simp_all add: run_room_joined_hook_def run_room_left_hook_def total_rules total_try)

lemma silent_hooks [reply_rules]:
  "silent P (run_room_joined_hook sid code)" "silent P (run_room_left_hook sid code)"
  by (simp_all add: run_room_joined_hook_def run_room_left_hook_def reply_rules replies_try)

lemma total_resync [total_rules]: "never_fails (publish_shared_owner_resync code)"
  by (simp add: publish_shared_owner_resync_def total_rules)

lemma silent_leave: "answering P \<Longrightarrow> silent P (leave_room opt sid reason)"
  unfolding leave_room_def Let_def by (intro reply_steps) (simp_all add: reply_rules silent_quietly)

lemma total_rollback: "never_fails (bounded_rollback opt sid)"
  unfolding bounded_rollback_def by (intro total_try) (simp_all add: total_rules)

lemma silent_rollback: "answering P \<Longrightarrow> silent P (bounded_rollback opt sid)"
  unfolding bounded_rollback_def by (intro reply_steps) (simp_all add: reply_rules silent_leave)

lemma total_abort [total_rules]: "never_fails (abort_join opt sid)"
  unfolding abort_join_def by (intro total_steps) (simp_all add: total_rules total_rollback)

lemma replies_abort:
  assumes "answering P"
  shows "replies P (abort_join opt sid) (\<lambda>_. 1)"
  unfolding abort_join_def
proof (rule replies_bind)
  show "silent P (bounded_rollback opt sid)" using assms by (rule silent_rollback)
next
  fix rolled
  show "replies P (bindE (emit (Send_Error Internal_Error)) (\<lambda>_.
      if rolled then returnE ()
      else bindE (getE (\<lambda>h. has_attached_socket (the_session sid (hs_world h)) \<and> hs_socket_open h)) (\<lambda>open.
             if open then emit (Close_Socket close_code_join_rollback_failed) else returnE ()))) (\<lambda>_. 1)"
    by (rule replies_then)
      (use assms in \<open>auto intro!: reply_steps total_steps simp: reply_rules total_rules silent_quietly\<close>)
qed

lemma total_previous [total_rules]:
  "never_fails (release_previous_room opt sid p)" "never_fails (publish_previous_room_resync q code b c)"
  unfolding release_previous_room_def publish_previous_room_resync_def
  by (intro total_steps; simp add: total_rules)+

lemma silent_previous:
  assumes "answering P"
  shows "silent P (release_previous_room opt sid p)" "silent P (publish_previous_room_resync q code b c)"
  unfolding release_previous_room_def publish_previous_room_resync_def
  by (intro reply_steps; simp add: reply_rules silent_quietly assms)+

lemma silent_enter: "answering P \<Longrightarrow> silent P (enter_room opt sid previous m)"
  unfolding enter_room_def by (intro reply_steps) (simp_all add: reply_rules silent_previous)

text \<open>Settling an entry says nothing to a session it seats, and refuses any other once.\<close>

lemma replies_settle:
  assumes "answering P"
  shows "replies P (settle_entry opt sid previous code) (\<lambda>seated. if seated then 0 else Suc 0)"
proof -
  have hook: "replies P (bindE (if seated then returnE () else abort_join opt sid) (\<lambda>_.
      bindE (publish_previous_room_resync previous code seated cleaned) (\<lambda>_. returnE seated)))
      (\<lambda>seated. if seated then 0 else Suc 0)" (is "replies P ?m _") for seated cleaned
  proof -
    let ?rest = "bindE (publish_previous_room_resync previous code seated cleaned) (\<lambda>_. returnE seated)"
    have rest: "silent P ?rest" "never_fails ?rest"
      by (intro replies_bind total_bind; simp add: reply_rules total_rules silent_previous assms)+
    have answer: "fst (?m h) = Inr x \<Longrightarrow> x = seated" for h x
      by (auto simp: bindE_def returnE_def split: prod.splits sum.splits)
    show ?thesis
    proof (cases seated)
      case True
      have "silent P ?m" by (rule replies_bind) (use rest True in \<open>simp_all add: reply_rules\<close>)
      then show ?thesis by (rule replies_result) (frule answer, simp add: True)
    next
      case False
      have "replies P ?m (\<lambda>_. 1)"
        using False replies_then [OF replies_abort [OF assms] rest] by simp
      then show ?thesis by (rule replies_result) (frule answer, simp add: False)
    qed
  qed
  show ?thesis
    unfolding settle_entry_def
    by (intro replies_bind replies_option replies_if hook) (simp_all add: reply_rules silent_previous assms)
qed

subsection \<open>Every request is answered once\<close>

fun answers_to :: "client_message \<Rightarrow> outgoing \<Rightarrow> bool" where
  "answers_to _ (Send_Error _) = True"
| "answers_to (Room_Create _) (Send_Created _ _ _ _) = True"
| "answers_to (Room_Join _) (Send_Joined _ _ _) = True"
| "answers_to (Sync_Request _) (Send_State _ _) = True"
| "answers_to (Sync_Ping _) (Send_Pong _ _ _) = True"
| "answers_to _ _ = False"

fun must_be_answered :: "client_message \<Rightarrow> bool" where
  "must_be_answered (Room_Create _) = True"
| "must_be_answered (Room_Join _) = True"
| "must_be_answered (Sync_Request _) = True"
| "must_be_answered _ = False"

lemma answering_answers: "answering (answers_to message)"
  by (cases message) (simp_all add: answering_def)

lemma replies_gate:
  assumes "replies P m (\<lambda>ok. if ok then 0 else Suc 0)" and "replies P c (\<lambda>_. Suc 0)"
  shows "replies P (bindE m (\<lambda>ok. if \<not> ok then returnE () else c)) (\<lambda>_. Suc 0)"
  unfolding replies_def
proof
  fix h
  let ?m = "bindE m (\<lambda>ok. if \<not> ok then returnE () else c)"
  obtain r h1 where m: "m h = (r, h1)" by fastforce
  consider (Fail) e where "r = Inl e" | (Ok) "r = Inr True" | (No) "r = Inr False"
    by (cases r) auto
  then show "said P (snd (?m h)) = said P h + (case fst (?m h) of Inl _ \<Rightarrow> 0 | Inr x \<Rightarrow> Suc 0)"
    using repliesD [OF assms(1), of h] repliesD [OF assms(2), of h1] m
    by cases (simp_all add: bindE_def returnE_def)
qed

lemma replies_version:
  assumes "answering P"
  shows "replies P (check_protocol_version sid v) (\<lambda>ok. if ok then 0 else Suc 0)"
  using assms
  by (cases v) (simp_all add: check_protocol_version_def Let_def replies_def bindE_def returnE_def emit_def
      putE_def liftE_def update_session_def said_def answering_def)

lemma total_state [total_rules]: "never_fails (send_room_state_to_session sid token)"
proof -
  have "never_fails (send_state state)" for state
    by (simp add: send_state_def never_fails_def bindE_def liftE_def clock_def getE_def Let_def emit_def putE_def)
  then show ?thesis
    unfolding send_room_state_to_session_def by (intro total_steps) (simp_all add: total_rules)
qed

lemma replies_send_state:
  assumes "\<And>s a. P (Send_State s a) = b"
  shows "replies P (send_state state) (\<lambda>_. if b then Suc 0 else 0)"
  unfolding send_state_def Let_def
  by (rule replies_bind [OF replies_lift]) (use replies_emit [of P "Send_State _ _"] assms in \<open>cases b; simp\<close>)

lemma silent_state:
  assumes "\<And>s a. \<not> P (Send_State s a)"
  shows "silent P (send_room_state_to_session sid token)"
proof -
  have "silent P (send_state state)" for state using replies_send_state [of P False state] assms by simp
  then show ?thesis
    unfolding send_room_state_to_session_def by (intro reply_steps) (simp_all add: reply_rules)
qed

lemma announce_join_quiet:
  "never_fails (announce_join opt sid previous code m n b)"
  "answering P \<Longrightarrow> silent P (announce_join opt sid previous code m n b)"
  unfolding announce_join_def
  by ((intro total_steps; simp add: total_rules), (intro reply_steps; simp add: reply_rules silent_quietly))

lemma replies_create:
  "replies (answers_to (Room_Create payload)) (handle_room_create opt sid previous payload') (\<lambda>_. Suc 0)"
  (is "replies ?P _ _")
proof -
  note P = answering_answers [of "Room_Create payload"]
  have told: "replies ?P (bindE (session_now sid) (\<lambda>s.
      bindE (emit (Send_Created (pr_code room) (session_member_id s) (pr_join_token room) token)) (\<lambda>_.
      bindE (emit Send_Announcement) (\<lambda>_.
      bindE (send_room_state_to_session sid token) (\<lambda>_. returnE ()))))) (\<lambda>_. Suc 0)" for room token
    by (intro replies_bind replies_basic replies_then [where n = "Suc 0"] total_steps)
      (auto intro!: replies_bind simp: reply_rules total_rules silent_quietly P silent_state
        replies_emit [of ?P "Send_Created _ _ _ _", simplified])
  show ?thesis
    unfolding handle_room_create_def
    by (intro replies_gate replies_version P replies_bind silent_enter)
      (auto split: prod.split intro!: replies_gate told replies_settle P)
qed

lemma replies_join:
  "replies (answers_to (Room_Join payload)) (handle_room_join opt sid previous payload') (\<lambda>_. Suc 0)"
  (is "replies ?P _ _")
proof -
  note P = answering_answers [of "Room_Join payload"]
  have told: "replies ?P (bindE (session_now sid) (\<lambda>s.
      bindE (emit (Send_Joined (pr_code room) (session_member_id s) token)) (\<lambda>_.
      bindE (emit Send_Announcement) (\<lambda>_.
      bindE (send_room_state_to_session sid token) (\<lambda>b.
      announce_join opt sid previous (pr_code room) (session_member_id s) (s_display_name s) b))))) (\<lambda>_. Suc 0)"
    for room token
    by (intro replies_bind replies_basic replies_then [where n = "Suc 0"] total_steps)
      (auto intro!: replies_bind simp: reply_rules total_rules silent_quietly P silent_state announce_join_quiet
        replies_emit [of ?P "Send_Joined _ _ _", simplified])
  show ?thesis
    unfolding handle_room_join_def
    by (intro replies_gate replies_version P replies_bind silent_enter)
      (auto split: prod.split intro!: replies_gate told replies_settle P)
qed

text \<open>At most one answer, and none when the failure is left to the caller.\<close>

definition brief :: "(outgoing \<Rightarrow> bool) \<Rightarrow> 'a hio \<Rightarrow> bool" where
  "brief P m = (\<forall>h. said P (snd (m h)) = said P h
     \<or> (said P (snd (m h)) = Suc (said P h) \<and> (\<exists>x. fst (m h) = Inr x)))"

lemma replies_brief: "replies P m (\<lambda>_. if b then Suc 0 else 0) \<Longrightarrow> brief P m"
  unfolding brief_def replies_def by (intro allI) (erule allE, auto split: sum.splits if_splits)

lemma silent_brief: "silent P m \<Longrightarrow> brief P m"
  using replies_brief [of P m False] by simp

lemma answered_brief: "replies P m (\<lambda>_. Suc 0) \<Longrightarrow> brief P m"
  using replies_brief [of P m True] by simp

lemma brief_if: "(b \<Longrightarrow> brief P m) \<Longrightarrow> (\<not> b \<Longrightarrow> brief P m') \<Longrightarrow> brief P (if b then m else m')"
  by simp

lemma brief_bind:
  assumes "silent P m" and "\<And>x. brief P (k x)"
  shows "brief P (bindE m k)"
  unfolding brief_def
proof
  fix h
  obtain r h1 where m: "m h = (r, h1)" by fastforce
  show "said P (snd (bindE m k h)) = said P h
     \<or> said P (snd (bindE m k h)) = Suc (said P h) \<and> (\<exists>x. fst (bindE m k h) = Inr x)"
    using repliesE [OF assms(1) m] m assms(2) [unfolded brief_def, THEN spec, of _ h1]
    by (cases r) (simp_all add: bindE_def)
qed

lemma silent_publish_update: "answering P \<Longrightarrow> silent P (publish_update opt room)"
  by (simp add: publish_update_def silent_quietly)

lemma brief_admitted: "brief (answers_to message) (handle_admitted opt sid now previous message)"
proof (cases message)
  case (Room_Leave token)
  have left: "brief (answers_to (Room_Leave token)) (bindE (leave_room opt sid Client_Request) (\<lambda>_. returnE ()))"
    by (intro silent_brief replies_bind silent_leave answering_answers) (rule reply_rules)
  have "brief (answers_to message) (handle_room_leave opt sid token)"
    unfolding handle_room_leave_def Room_Leave
    by (rule brief_bind [OF replies_basic(4)], rule brief_if)
      (rule answered_brief [OF silent_quietly(5) [OF answering_answers]], rule left)
  then show ?thesis by (simp add: Room_Leave)
next
  case (Sync_Ping t)
  then show ?thesis
    using replies_emit [of "answers_to (Sync_Ping t)" "Send_Pong t now _"]
    by (auto intro!: answered_brief replies_bind simp: reply_rules)
next
  case (Playback_Update token playback)
  then show ?thesis
    using answering_answers [of message]
    by (auto simp: handle_playback_update_def reply_rules silent_publish_update split: prod.split
        intro!: silent_brief replies_bind replies_option)
next
  case (Sync_Request token)
  then show ?thesis
    using replies_send_state [of "answers_to (Sync_Request token)" True]
    by (auto intro!: answered_brief replies_bind simp: reply_rules)
next
  case (Profile_Update token name)
  then show ?thesis
    by simp (intro silent_brief replies_bind replies_lift silent_publish_update answering_answers)
next
  case (Video_Share token video playback)
  then show ?thesis
    by simp (intro silent_brief replies_bind replies_lift silent_publish_update answering_answers)
qed (auto intro!: answered_brief replies_create replies_join)

lemma replies_admitted:
  assumes "must_be_answered message"
  shows "replies (answers_to message) (handle_admitted opt sid now previous message) (\<lambda>_. Suc 0)"
  using assms
proof (cases message)
  case (Sync_Request token)
  then show ?thesis
    using replies_send_state [of "answers_to (Sync_Request token)" True]
    by (auto intro!: replies_bind simp: reply_rules)
qed (auto intro: replies_create replies_join)

lemma silent_limit: "silent P (consume_limit sid f)"
  by (simp add: consume_limit_def reply_rules)

lemma rate_limited_replies:
  "brief (answers_to message) (handle_rate_limited b)"
  "b \<Longrightarrow> replies (answers_to message) (handle_rate_limited b) (\<lambda>_. Suc 0)"
proof -
  have told: "replies (answers_to message) (emit (Send_Error Rate_Limited)) (\<lambda>_. Suc 0)"
    by (rule silent_quietly(5) [OF answering_answers])
  show "b \<Longrightarrow> replies (answers_to message) (handle_rate_limited b) (\<lambda>_. Suc 0)"
    using told by (simp add: handle_rate_limited_def)
  show "brief (answers_to message) (handle_rate_limited b)"
    unfolding handle_rate_limited_def
    by (rule brief_if) (rule answered_brief [OF told], rule silent_brief, rule reply_rules)
qed

lemma brief_metered: "brief (answers_to message) (handle_metered opt sid now message)"
  unfolding handle_metered_def Let_def
  by (intro brief_bind replies_option brief_if rate_limited_replies brief_admitted silent_limit)
    (simp_all add: reply_rules)

lemma replies_metered:
  assumes "must_be_answered message"
  shows "replies (answers_to message) (handle_metered opt sid now message) (\<lambda>_. Suc 0)"
  unfolding handle_metered_def Let_def
  by (intro replies_bind replies_option replies_if rate_limited_replies(2) replies_admitted silent_limit assms)
    (use assms in \<open>cases message; simp add: reply_rules\<close>)+

fun service_failure :: "failure \<Rightarrow> bool" where
  "service_failure (Service _ _) = True"
| "service_failure _ = False"

text \<open>
  Every request is answered once. Whatever the service, the bus, the hooks and the other
  requests do, a message that asks for an answer (create, join, state) and is handled to its
  end has put exactly one answer to it on its own socket, the answer of its kind or an error;
  any other message gets at most one; a message whose handling fails has got none; and no
  failure of the room service is left unanswered.
\<close>

lemma message_answered_once:
  "case handle_client_message opt sid message h of
     (Inl e, h') \<Rightarrow> said (answers_to message) h' = said (answers_to message) h \<and> \<not> service_failure e
   | (Inr _, h') \<Rightarrow> said (answers_to message) h'
       \<in> {said (answers_to message) h + (if must_be_answered message then 1 else 0),
          said (answers_to message) h + 1}"
proof -
  let ?P = "answers_to message"
  let ?m = "handle_metered opt sid (w_now (hs_world h)) message"
  obtain r h' where m: "?m h = (r, h')" by fastforce
  have meter: "said ?P h' = said ?P h \<or> said ?P h' = Suc (said ?P h) \<and> (\<exists>x. r = Inr x)"
    using brief_metered [of message opt sid "w_now (hs_world h)"] m unfolding brief_def by (metis fst_conv snd_conv)
  have must: "must_be_answered message \<Longrightarrow> r = Inr x \<Longrightarrow> said ?P h' = Suc (said ?P h)" for x
    using repliesD [OF replies_metered, of message opt sid "w_now (hs_world h)" h] m by simp
  have clock: "liftE clock h = (Inr (w_now (hs_world h)), h)" by (simp add: liftE_def clock_def getE_def)
  have run: "handle_client_message opt sid message h =
    (if \<not> has_attached_socket (the_session sid (hs_world h)) then (Inl Other_Error, h)
     else tryE ?m (\<lambda>e. case e of Service code _ \<Rightarrow> emit (Send_Error code) | _ \<Rightarrow> raiseE e) returnE h)"
    using clock by (simp add: handle_client_message_def bindE_def session_now_def getE_def raiseE_def)
  have error: "said ?P (h'\<lparr> hs_out := hs_out h' @ [Send_Error c] \<rparr>) = Suc (said ?P h')" for c
    by (simp add: said_def)
  show ?thesis
    using m meter must error
    by (auto simp: run tryE_def raiseE_def returnE_def emit_def putE_def split: sum.split failure.split)
qed

subsection \<open>The gate\<close>

fun declared_version :: "client_message \<Rightarrow> rat option" where
  "declared_version (Room_Create (Some p)) = ch_protocol_version p"
| "declared_version (Room_Join p) = jp_protocol_version p"
| "declared_version _ = None"

text \<open>What a message that may not pass is told.\<close>

definition refusal :: "rate_limit_config \<Rightarrow> rat \<Rightarrow> session_rate_limit_state \<Rightarrow> client_message \<Rightarrow> outgoing list option" where
  "refusal cfg now limits message =
     (case message_limit cfg now message of
        Some f \<Rightarrow>
          if \<not> fst (f limits) then Some (if limit_is_answered message then [Send_Error Rate_Limited] else [])
          else if (case declared_version message of None \<Rightarrow> False | Some v \<Rightarrow> v < min_protocol_version)
          then Some [Send_Error Unsupported_Protocol_Version] else None
      | None \<Rightarrow> None)"

definition metered_world :: "rate_limit_config \<Rightarrow> string \<Rightarrow> client_message \<Rightarrow> world \<Rightarrow> world" where
  "metered_world cfg sid message w =
     (case message_limit cfg (w_now w) message of
        None \<Rightarrow> w
      | Some f \<Rightarrow> snd (update_session sid (\<lambda>s. s\<lparr> s_rate_limit_state := snd (f (s_rate_limit_state s)) \<rparr>) w))"

lemma handle_rate_limited_eq: "handle_rate_limited b h =
    (Inr (), h\<lparr> hs_out := hs_out h @ (if b then [Send_Error Rate_Limited] else []) \<rparr>)"
  by (cases h) (simp add: handle_rate_limited_def emit_def putE_def returnE_def)

text \<open>
  The gate comes first. A message that its limiter does not grant, or whose client's
  protocol is too old, costs that limiter one attempt and is told so, playback reports and pings
  over the limit not even that: nothing is awaited, no store or session field other than the
  limiter is touched, nothing is published, and the handling ends normally.
\<close>

theorem refused_at_the_gate:
  assumes "has_attached_socket (the_session sid (hs_world h))"
    and "refusal (rate_limits (so_config (ho_service opt))) (w_now (hs_world h))
           (s_rate_limit_state (the_session sid (hs_world h))) message = Some told"
  shows "handle_client_message opt sid message h = (Inr (),
    h\<lparr> hs_world := metered_world (rate_limits (so_config (ho_service opt))) sid message (hs_world h),
       hs_out := hs_out h @ told \<rparr>)"
proof -
  let ?cfg = "rate_limits (so_config (ho_service opt))" and ?now = "w_now (hs_world h)"
  let ?s = "the_session sid (hs_world h)"
  obtain f where f: "message_limit ?cfg ?now message = Some f"
    using assms(2) by (auto simp: refusal_def split: option.splits)
  let ?h = "h\<lparr> hs_world := metered_world ?cfg sid message (hs_world h) \<rparr>"
  have consume: "consume_limit sid f h = (Inr (fst (f (s_rate_limit_state ?s))), ?h)"
    by (simp add: consume_limit_def liftE_def bindE_def getE_def update_session_def putE_def returnE_def
        metered_world_def f)
  have run: "handle_client_message opt sid message h =
    tryE (handle_metered opt sid ?now message)
      (\<lambda>e. case e of Service code _ \<Rightarrow> emit (Send_Error code) | _ \<Rightarrow> raiseE e) returnE h"
    using assms(1) by (simp add: handle_client_message_def bindE_def liftE_def clock_def session_now_def getE_def)
  have metered: "handle_metered opt sid ?now message h =
      (if \<not> fst (f (s_rate_limit_state ?s)) then handle_rate_limited (limit_is_answered message)
       else handle_admitted opt sid ?now (previous_seat_of ?s) message) ?h"
    by (simp add: handle_metered_def bindE_def session_now_def getE_def f consume Let_def)
  show ?thesis
  proof (cases "fst (f (s_rate_limit_state ?s))")
    case False
    then show ?thesis
      using assms(2) f
      by (auto simp: run tryE_def metered refusal_def handle_rate_limited_eq returnE_def)
  next
    case True
    then obtain v where v: "declared_version message = Some v" "v < min_protocol_version"
      and told: "told = [Send_Error Unsupported_Protocol_Version]"
      using assms(2) f by (auto simp: refusal_def split: if_splits option.splits)
    have "check_protocol_version sid (Some v) ?h = (Inr False, ?h\<lparr> hs_out := hs_out h @ told \<rparr>)"
      using v told by (simp add: check_protocol_version_def bindE_def emit_def putE_def returnE_def)
    then have "handle_admitted opt sid ?now (previous_seat_of ?s) message ?h = (Inr (), ?h\<lparr> hs_out := hs_out h @ told \<rparr>)"
      using v(1)
      by (cases message rule: declared_version.cases)
        (simp_all add: handle_room_create_def handle_room_join_def bindE_def returnE_def)
    then show ?thesis using True by (simp add: run tryE_def metered returnE_def)
  qed
qed

text \<open>Alice at home, the state the witnesses of the handler start from.\<close>

definition alice_at_home :: handler_state where
  "alice_at_home = \<lparr> hs_world = alice_world, hs_out = [], hs_pending = 0, hs_looks = [], hs_wakes = [],
     hs_socket_open = True \<rparr>"

definition sample_handler :: handler_options where
  "sample_handler = \<lparr> ho_service = sample_options, ho_max_pending_publishes = 256,
     ho_backpressure_wait_ms = 5000 \<rparr>"

definition old_hello :: client_message where
  "old_hello = Room_Create (Some \<lparr> ch_display_name = None, ch_protocol_version = Some 0 \<rparr>)"

theorem refused_at_the_gate_witness:
  "hs_out (snd (handle_client_message sample_handler ''s1'' old_hello alice_at_home))
     = [Send_Error Unsupported_Protocol_Version]
   \<and> handle_client_message sample_handler ''s1'' (Sync_Ping 5) alice_at_home
     = (Inr (), alice_at_home\<lparr> hs_world := metered_world (rate_limits sample_config) ''s1'' (Sync_Ping 5) alice_world,
         hs_out := [] \<rparr>)"
proof -
  have fits: "so_config (ho_service sample_handler) = sample_config" "hs_world alice_at_home = alice_world"
    "hs_out alice_at_home = []"
    by (simp_all add: sample_handler_def sample_options_def alice_at_home_def)
  have open': "has_attached_socket (the_session ''s1'' (hs_world alice_at_home))" by code_simp
  have old: "refusal (rate_limits (so_config (ho_service sample_handler))) (w_now (hs_world alice_at_home))
      (s_rate_limit_state (the_session ''s1'' (hs_world alice_at_home))) old_hello
      = Some [Send_Error Unsupported_Protocol_Version]"
    by code_simp
  have ping: "refusal (rate_limits (so_config (ho_service sample_handler))) (w_now (hs_world alice_at_home))
      (s_rate_limit_state (the_session ''s1'' (hs_world alice_at_home))) (Sync_Ping 5) = Some []"
    by code_simp
  show ?thesis
    using refused_at_the_gate [OF open' old] refused_at_the_gate [OF open' ping] by (simp add: fits)
qed

end
