(* ===== verification/Handler_Switching.thy ===== *)
theory Handler_Switching
  imports Handler_Replies Room_Outcomes
begin

text \<open>
  Leaving and switching rooms through the handler. A full \<open>room:state\<close> is rebuilt from the
  room's session index, so the handler may only ask for one where the leaver cannot come back
  into it (\<open>leaveRoom\<close>, \<open>releasePreviousRoom\<close> and \<open>publishPreviousRoomResync\<close> of
  \<open>message-handler.ts\<close>).
\<close>

subsection \<open>The room index\<close>

definition among :: "string \<Rightarrow> string list option \<Rightarrow> bool" where
  "among sid ids = (case ids of None \<Rightarrow> False | Some is \<Rightarrow> sid \<in> set is)"

definition listed :: "string \<Rightarrow> string \<Rightarrow> runtime_store \<Rightarrow> bool" where
  "listed sid code rt = among sid (js_get (rt_room_sessions rt) code)"

text \<open>Registered, so that an index write of its own finds it, or in no index at all.\<close>

definition known :: "string \<Rightarrow> runtime_store \<Rightarrow> bool" where
  "known sid rt = (sid \<in> set (rt_registered rt) \<or> (\<forall>c. \<not> listed sid c rt))"

lemma among_without [simp]: "among sid (without_session i ids) = (among sid ids \<and> sid \<noteq> i)"
proof (cases ids)
  case (Some xs)
  show ?thesis
  proof (cases "set_delete i xs = []")
    case True
    then have "set xs - {i} = {}" using set_delete_facts(1) [of i xs] by simp
    then show ?thesis using Some True by (auto simp: among_def without_session_def)
  qed (use Some in \<open>auto simp: among_def without_session_def\<close>)
qed (simp add: among_def without_session_def)

lemma among_add [simp]:
  "among sid (Some (set_add i (case ids of None \<Rightarrow> [] | Some is \<Rightarrow> is))) = (sid = i \<or> among sid ids)"
  by (auto simp: among_def split: option.split)

lemma listed_mark_left:
  "listed sid c (mark_session_left_room i (Some code) rt) = (listed sid c rt \<and> \<not> (sid = i \<and> c = code \<and> code \<noteq> []))"
  by (auto simp: mark_session_left_room_def Let_def listed_def put_session_def remove_from_index_get
      truthy_def resolve_room_code_to_leave_def split: option.split)

lemma listed_mark_left_sub: "listed sid c (mark_session_left_room i d rt) \<Longrightarrow> listed sid c rt"
  by (auto simp: mark_session_left_room_def Let_def listed_def put_session_def remove_from_index_get
      split: option.splits if_splits)

lemma listed_mark_joined:
  "listed sid c (mark_session_joined_room i code rt)
     = (if get_session rt i = None then listed sid c rt
        else if sid = i then c = code else listed sid c rt)"
  by (auto simp: mark_session_joined_room_def Let_def listed_def put_session_def detach_get
      split: option.split)

lemma listed_unregister: "listed sid c (unregister_session i rt) = (listed sid c rt \<and> sid \<noteq> i)"
  by (auto simp: unregister_session_def listed_def detach_get split: option.split)

lemma listed_delete: "listed sid c (snd (delete_runtime_room code g rt)) \<Longrightarrow> listed sid c rt"
  by (auto simp: delete_runtime_room_def listed_def among_def split: if_splits option.splits)

text \<open>Every other operation leaves the index and the registrations alone.\<close>

fun moves_index :: "runtime_op \<Rightarrow> bool" where
  "moves_index (R_Register _) = True"
| "moves_index (R_Unregister _) = True"
| "moves_index (R_Joined _ _) = True"
| "moves_index (R_Left _ _) = True"
| "moves_index (R_Delete _ _) = True"
| "moves_index _ = False"

lemma blocked_index:
  "rt_room_sessions (snd (is_member_token_blocked t code tok rt)) = rt_room_sessions rt"
  "rt_registered (snd (is_member_token_blocked t code tok rt)) = rt_registered rt"
proof -
  obtain b where "prune_blocked_member_tokens t code rt
       = (filter_active_blocked_member_tokens (blocks_of rt code) t, rt\<lparr> rt_blocked := b \<rparr>)"
    by (rule prune_blocked_shape)
  then show "rt_room_sessions (snd (is_member_token_blocked t code tok rt)) = rt_room_sessions rt"
    "rt_registered (snd (is_member_token_blocked t code tok rt)) = rt_registered rt"
    by (simp_all add: is_member_token_blocked_def)
qed

lemma revoke_index:
  "rt_room_sessions (revoke_member_token c m i rt) = rt_room_sessions rt"
  "rt_registered (revoke_member_token c m i rt) = rt_registered rt"
  by (simp_all add: revoke_member_token_def Let_def split: prod.split option.split)

lemma evict_index:
  "rt_room_sessions (evict_member_token t c m tok u rt) = rt_room_sessions rt"
  "rt_registered (evict_member_token t c m tok u rt) = rt_registered rt"
proof -
  obtain b where "evict_member_token t c m tok u rt = revoke_member_token c m None (rt\<lparr> rt_blocked := b \<rparr>)"
    by (rule evict_as_revoke)
  then show "rt_room_sessions (evict_member_token t c m tok u rt) = rt_room_sessions rt"
    "rt_registered (evict_member_token t c m tok u rt) = rt_registered rt"
    by (simp_all add: revoke_index)
qed

lemma index_frame:
  assumes "\<not> moves_index op"
  shows "rt_room_sessions (runtime_step ret op rt) = rt_room_sessions rt"
    and "rt_registered (runtime_step ret op rt) = rt_registered rt"
  using assms
  by (cases op; simp add: put_session_def record_event_def prune_events_def get_recent_event_counts_def
       get_runtime_room_def get_or_create_room_def add_member_def find_member_id_by_token_def
       blocked_index remove_member_def revoke_index evict_index claim_slot_def release_slot_def
       acquire_lock_def release_lock_def has_room_residue_def mark_room_generation_def
       heartbeat_node_def purge_node_status_def prune_frame Let_def split: prod.split option.split)+

subsection \<open>Only its own join puts a session into the index\<close>

fun relists :: "string \<Rightarrow> env_event \<Rightarrow> bool" where
  "relists sid (Env_Runtime (R_Joined i _)) = (i = sid)"
| "relists sid _ = False"

definition not_relisted :: "string \<Rightarrow> world \<Rightarrow> bool" where
  "not_relisted sid w = list_all (list_all (\<lambda>e. \<not> relists sid e)) (w_sched w)"

definition unlists :: "string \<Rightarrow> world \<Rightarrow> world \<Rightarrow> bool" where
  "unlists sid w w' = (not_relisted sid w \<longrightarrow> not_relisted sid w'
     \<and> (\<forall>c. listed sid c (w_runtime w') \<longrightarrow> listed sid c (w_runtime w))
     \<and> (known sid (w_runtime w) \<longrightarrow> known sid (w_runtime w')))"

lemma knownI:
  assumes "known sid rt" "\<And>c. listed sid c rt' \<Longrightarrow> listed sid c rt"
    "sid \<in> set (rt_registered rt) \<Longrightarrow> sid \<in> set (rt_registered rt')"
  shows "known sid rt'"
  using assms by (auto simp: known_def)

lemma register_index: "rt_room_sessions (register_session i rt) = rt_room_sessions rt"
  "rt_registered (register_session i rt) = set_add i (rt_registered rt)"
  by (simp_all add: register_session_def Let_def split: option.split)

lemma op_unlists:
  assumes "\<not> relists sid (Env_Runtime op)"
  shows "(\<forall>c. listed sid c (runtime_step ret op rt) \<longrightarrow> listed sid c rt)
      \<and> (known sid rt \<longrightarrow> known sid (runtime_step ret op rt))"
proof (cases "moves_index op")
    case False
    then show ?thesis using index_frame [OF False, of ret rt] by (auto simp: listed_def known_def)
  next
    case True
    then show ?thesis
    proof (cases op)
      case (R_Register i)
      then show ?thesis using register_index [of i rt] by (auto simp: listed_def known_def)
    next
      case (R_Unregister i)
      have "sid \<noteq> i \<Longrightarrow> sid \<in> set (rt_registered rt) \<Longrightarrow> sid \<in> set (rt_registered (unregister_session i rt))"
        by (auto simp: unregister_session_def split: option.split)
      then show ?thesis using R_Unregister by (auto simp: listed_unregister known_def)
    next
      case (R_Joined i code)
      then have "rt_registered (mark_session_joined_room i code rt) = rt_registered rt"
        by (simp add: mark_session_joined_room_def put_session_def Let_def split: option.split)
      then show ?thesis using R_Joined assms by (auto simp: listed_mark_joined known_def)
    next
      case (R_Left i d)
      then have "rt_registered (mark_session_left_room i d rt) = rt_registered rt"
        by (simp add: mark_session_left_room_def put_session_def Let_def split: option.split)
      then show ?thesis using R_Left listed_mark_left_sub [of sid _ i d rt] by (auto simp: known_def)
    next
      case (R_Delete code g)
      then have "rt_registered (snd (delete_runtime_room code g rt)) = rt_registered rt"
        by (simp add: delete_runtime_room_def)
      then show ?thesis using R_Delete listed_delete [of sid _ code g rt] by (auto simp: known_def)
  qed simp_all
qed

lemma fold_env_unlists:
  assumes "list_all (\<lambda>e. \<not> relists sid e) es"
  shows "(\<forall>c. listed sid c (w_runtime (fold env_step es w)) \<longrightarrow> listed sid c (w_runtime w))
     \<and> (known sid (w_runtime w) \<longrightarrow> known sid (w_runtime (fold env_step es w)))"
  using assms
proof (induction es arbitrary: w)
  case (Cons e es)
  have "(\<forall>c. listed sid c (w_runtime (env_step e w)) \<longrightarrow> listed sid c (w_runtime w))
     \<and> (known sid (w_runtime w) \<longrightarrow> known sid (w_runtime (env_step e w)))"
  proof (cases e)
    case (Env_Runtime op)
    then show ?thesis using Cons.prems op_unlists [of sid op env_retention_ms "w_runtime w"] by simp
  qed simp_all
  then show ?case using Cons.IH [of "env_step e w"] Cons.prems by simp
qed simp

lemma unlists_interfere: "unlists sid w (interfere w)"
proof (cases "w_sched w")
  case (Cons es rest)
  then show ?thesis
    using fold_env_unlists [of sid es "w\<lparr> w_sched := rest \<rparr>"]
    by (auto simp: unlists_def not_relisted_def interfere_def)
qed (simp add: unlists_def interfere_def)

interpretation unlists: collector "unlists sid" for sid
proof
  fix w w' w'' :: world and fs d n k code gen now tr
  show "unlists sid w w" by (simp add: unlists_def)
  show "unlists sid w w' \<Longrightarrow> unlists sid w' w'' \<Longrightarrow> unlists sid w w''" by (auto simp: unlists_def)
  show "unlists sid w (interfere w)" by (rule unlists_interfere)
  show "unlists sid w (w\<lparr> w_faults := fs \<rparr>)"
    "unlists sid w (w\<lparr> w_debts := d, w_fresh := n, w_expired_deleted := k \<rparr>)"
    "unlists sid w (w\<lparr> w_rooms := snd (delete_expired_room code now (w_rooms w)), w_trace := tr \<rparr>)"
    by (simp_all add: unlists_def not_relisted_def)
  show "unlists sid w (w\<lparr> w_runtime := snd (delete_runtime_room code gen (w_runtime w)), w_trace := tr \<rparr>)"
    using op_unlists [of sid "R_Delete code gen" 0 "w_runtime w"]
    by (auto simp: unlists_def not_relisted_def)
qed

lemma unlists_op:
  assumes "\<And>t rt. \<exists>op. snd (g t rt) = runtime_step ret op rt \<and> \<not> relists sid (Env_Runtime op)"
  shows "unlists.keeps sid (runtime_call g) w" "unlists.keeps sid (runtime_sync g) w"
proof -
  have "unlists sid w' (snd (case g (w_now w') (w_runtime w') of (x, rt) \<Rightarrow> (x, w'\<lparr> w_runtime := rt \<rparr>)))" for w'
  proof -
    obtain op where "snd (g (w_now w') (w_runtime w')) = runtime_step ret op (w_runtime w')"
      "\<not> relists sid (Env_Runtime op)" using assms by blast
    then show ?thesis
      using op_unlists [of sid op ret "w_runtime w'"]
      by (auto simp: unlists_def not_relisted_def split: prod.split)
  qed
  then show "unlists.keeps sid (runtime_call g) w" "unlists.keeps sid (runtime_sync g) w"
    unfolding runtime_call_def runtime_sync_def by (auto intro: unlists.keeps_call unlists.keeps_sync)
qed

lemma unlists_calls:
  "unlists.keeps sid (runtime_sync (\<lambda>_ rt. ((), register_session i rt))) w"
  "unlists.keeps sid (runtime_sync (\<lambda>now rt. get_runtime_room now c rt)) w"
  "unlists.keeps sid (runtime_call (\<lambda>now rt. get_runtime_room now c rt)) w"
  "unlists.keeps sid (runtime_call (\<lambda>_ rt. ((), revoke_member_token c m o' rt))) w"
  "unlists.keeps sid (runtime_call (\<lambda>_ rt. is_member_token_blocked t c tok rt)) w"
  "unlists.keeps sid (runtime_call (\<lambda>now rt. find_member_id_by_token now c tok rt)) w"
  "unlists.keeps sid (runtime_call (\<lambda>now rt. has_room_residue now c rt)) w"
  "unlists.keeps sid (runtime_call (\<lambda>_ rt. mark_room_generation c g x rt)) w"
  "unlists.keeps sid (runtime_call (\<lambda>t rt. acquire_lock t c key tok e rt)) w"
  "unlists.keeps sid (runtime_call (\<lambda>_ rt. release_lock c key tok rt)) w"
  "unlists.keeps sid (runtime_call (\<lambda>_ rt. ((), mark_session_left_room i d rt))) w"
  "unlists.keeps sid (add_member_now c m i tok) w"
  "unlists.keeps sid (remove_member_now opt c m i) w"
proof -
  note step = runtime_step.simps [of "so_retention_ms opt", symmetric] and
    call = unlists_op [where ret = "so_retention_ms opt"]
  show "unlists.keeps sid (runtime_sync (\<lambda>_ rt. ((), register_session i rt))) w"
    by (rule call(2)) (rule exI [of _ "R_Register i"], simp)
  show "unlists.keeps sid (runtime_sync (\<lambda>now rt. get_runtime_room now c rt)) w"
    by (rule call(2)) (rule exI [of _ "R_Get_Room _ c"], simp)
  show "unlists.keeps sid (runtime_call (\<lambda>now rt. get_runtime_room now c rt)) w"
    by (rule call(1)) (rule exI [of _ "R_Get_Room _ c"], simp)
  show "unlists.keeps sid (runtime_call (\<lambda>_ rt. ((), revoke_member_token c m o' rt))) w"
    by (rule call(1)) (rule exI [of _ "R_Revoke c m o'"], simp)
  show "unlists.keeps sid (runtime_call (\<lambda>_ rt. is_member_token_blocked t c tok rt)) w"
    by (rule call(1)) (rule exI [of _ "R_Blocked t c tok"], simp)
  show "unlists.keeps sid (runtime_call (\<lambda>now rt. find_member_id_by_token now c tok rt)) w"
    by (rule call(1)) (rule exI [of _ "R_Find _ c tok"], simp)
  show "unlists.keeps sid (runtime_call (\<lambda>now rt. has_room_residue now c rt)) w"
    by (rule call(1)) (rule exI [of _ "R_Residue _ c"], simp)
  show "unlists.keeps sid (runtime_call (\<lambda>_ rt. mark_room_generation c g x rt)) w"
    by (rule call(1)) (rule exI [of _ "R_Mark c g x"], simp)
  show "unlists.keeps sid (runtime_call (\<lambda>t rt. acquire_lock t c key tok e rt)) w"
    by (rule call(1)) (rule exI [of _ "R_Lock _ c key tok e"], simp)
  show "unlists.keeps sid (runtime_call (\<lambda>_ rt. release_lock c key tok rt)) w"
    by (rule call(1)) (rule exI [of _ "R_Unlock c key tok"], simp)
  show "unlists.keeps sid (runtime_call (\<lambda>_ rt. ((), mark_session_left_room i d rt))) w"
    by (rule call(1)) (rule exI [of _ "R_Left i d"], simp)
  show "unlists.keeps sid (add_member_now c m i tok) w"
    unfolding add_member_now_def by (rule call(2)) (rule exI [of _ "R_Add _ c m i tok"], simp)
  show "unlists.keeps sid (remove_member_now opt c m i) w"
    unfolding remove_member_now_def by (rule call(2)) (rule exI [of _ "R_Remove _ c m (Some i)"], simp)
qed

lemma unlists_same:
  "rt_room_sessions (w_runtime w') = rt_room_sessions (w_runtime w) \<Longrightarrow>
   rt_registered (w_runtime w') = rt_registered (w_runtime w) \<Longrightarrow> w_sched w' = w_sched w \<Longrightarrow> unlists sid w w'"
  by (simp add: unlists_def not_relisted_def listed_def known_def)

lemma unlists_puts:
  "unlists.keeps sid (update_session i f) w"
  "unlists.keeps sid (write_room c g p) w"
  "unlists.keeps sid (putE interfere) w"
  "unlists.keeps sid (sleep d) w"
  "unlists.keeps sid (disconnect_replaced_session i prev) w"
  "unlists.keeps sid (make_room input) w"
proof -
  show "unlists.keeps sid (update_session i f) w" "unlists.keeps sid (disconnect_replaced_session i prev) w"
    unfolding update_session_def disconnect_replaced_session_def
    by (auto intro!: unlists.keeps_put unlists_same split: option.split)
  show "unlists.keeps sid (write_room c g p) w"
    unfolding write_room_def issue_def
    by (rule unlists.keeps_call) (auto intro!: unlists_same split: prod.split)
  show "unlists.keeps sid (make_room input) w"
    unfolding make_room_def issue_def
    by (intro unlists.keeps_intros unlists.keeps_call) (auto intro!: unlists_same split: prod.split)
  have put: "unlists.keeps sid (putE interfere) w" for w by (intro unlists.keeps_put unlists_interfere)
  then show "unlists.keeps sid (putE interfere) w" .
  show "unlists.keeps sid (sleep d) w"
    unfolding sleep_def by (intro unlists.keeps_bind put unlists.keeps_put unlists_same) simp_all
qed

subsection \<open>The service never lists a session\<close>

lemma failed_leave_unlists: "unlists.keeps sid (leave_failed i code sn removed none_left e) w"
  unfolding leave_failed_def restore_leave_state_def restore_joined_session_def flush_quietly_def Let_def
  by (intro unlists.keeps_intros unlists.keeps_reads unlists_calls unlists_puts)

lemma leave_unlists: "unlists.keeps sid (leave_current_room opt i reason) w"
  unfolding leave_current_room_def leave_persisted_def shared_member_view_def schedule_expiry_def
    clear_session_room_def Let_def
  by (intro unlists.keeps_intros unlists.keeps_reads unlists.keeps_resolve unlists_calls unlists_puts
      failed_leave_unlists)

lemma name_unlists: "unlists.keeps sid (set_session_display_name i name) w"
  unfolding set_session_display_name_def Let_def
  by (intro unlists.keeps_intros unlists_calls unlists_puts)

lemma orphan_unlists: "unlists.keeps sid (expire_orphaned_room code tok) w"
proof -
  have "unlists.keeps sid (orphan_attempts n code tok) w" for n w
    by (induction n arbitrary: w) (auto intro!: unlists.keeps_intros unlists_puts)
  then show ?thesis
    unfolding expire_orphaned_room_def run_orphan_expiry_def by (intro unlists.keeps_intros)
qed

lemma create_attempts_unlists: "unlists.keeps sid (create_attempts n opt i t) w"
  by (induction n arbitrary: w)
     (auto intro!: unlists.keeps_intros unlists.keeps_ledger unlists_calls unlists_puts orphan_unlists)

lemma create_unlists: "unlists.keeps sid (create_room_for_session opt i name) w"
  unfolding create_room_for_session_def stamp_generation_def rollback_unstamped_room_def
  by (intro unlists.keeps_intros unlists.keeps_reads unlists.keeps_ledger unlists_calls unlists_puts
      name_unlists leave_unlists create_attempts_unlists orphan_unlists)

lemma lock_unlists: "unlists.keeps sid (acquire_distributed_join_lock opt code) w"
proof -
  have "unlists.keeps sid (acquire_lock_loop n opt code deadline) w" for n deadline w
    by (induction n arbitrary: w)
       (auto simp: Let_def intro!: unlists.keeps_intros unlists.keeps_ledger unlists_calls unlists_puts)
  then show ?thesis unfolding acquire_distributed_join_lock_def by (intro unlists.keeps_intros)
qed

lemma attempts_unlists:
  fixes f :: "persisted_room \<Rightarrow> 'a option io"
  assumes "\<And>room w. unlists.keeps sid (f room) w"
  shows "unlists.keeps sid (version_attempts n code f) w"
  by (induction n arbitrary: w) (auto intro!: unlists.keeps_intros unlists.keeps_resolve assms)

lemma persist_unlists: "unlists.keeps sid (persist_joined_room opt code tok prev) w"
  unfolding persist_joined_room_def with_version_retry_def ensure_join_request_allowed_def
    resolve_join_target_state_def Let_def
  by (intro attempts_unlists unlists.keeps_intros unlists.keeps_reads unlists_calls unlists_puts)

lemma undo_unlists: "unlists.keeps sid (undo_join opt i code identity prev e) w"
  unfolding undo_join_def flush_quietly_def Let_def
  by (intro unlists.keeps_intros unlists.keeps_reads unlists_calls unlists_puts)

lemma seat_unlists: "unlists.keeps sid (seat_joined_session opt i tok lock joined) w"
  unfolding seat_joined_session_def build_join_identity_def apply_joined_session_state_def
    assert_active_def Let_def
  by (intro unlists.keeps_intros unlists.keeps_reads unlists.keeps_ledger unlists_calls unlists_puts
      undo_unlists)

lemma join_unlists: "unlists.keeps sid (join_room_for_session opt i code tok name prev) w"
  unfolding join_room_for_session_def with_room_join_lock_def release_join_lock_def
  by (intro unlists.keeps_intros unlists.keeps_reads unlists_calls unlists_puts
      name_unlists leave_unlists lock_unlists persist_unlists seat_unlists)

lemma state_unlists: "unlists.keeps sid (get_room_state_for_session i tok) w"
  unfolding get_room_state_for_session_def room_sessions_def require_joined_room_session_def
    require_member_token_def clear_session_room_def
  by (intro unlists.keeps_intros unlists.keeps_reads unlists.keeps_resolve unlists_calls unlists_puts)

subsection \<open>The hooks\<close>

lemma left_hook_unlists: "unlists.keeps sid (on_room_left i code) w"
  unfolding on_room_left_def by (intro unlists.keeps_intros unlists.keeps_reads unlists_calls)

lemma write_effect:
  assumes "runtime_call (\<lambda>_ rt. ((), f rt)) w = (Inr (), w')"
  obtains w1 where "unlists sid w w1" "w' = interfere (w1\<lparr> w_runtime := f (w_runtime w1) \<rparr>)"
proof -
  from assms obtain w1 w2 where "unlists sid w w1" "(case ((), f (w_runtime w1)) of (x, rt) \<Rightarrow> (x, w1\<lparr> w_runtime := rt \<rparr>)) = ((), w2)"
    "w' = interfere w2"
    unfolding runtime_call_def by (rule unlists.call_effect [where sid = sid])
  then show ?thesis using that by simp
qed

text \<open>A leave hook that reports success has taken the session out of the room's index.\<close>

lemma left_hook_clears:
  assumes "on_room_left sid code w = (Inr (), w')" and "not_relisted sid w" and "code \<noteq> []"
  shows "\<not> listed sid code (w_runtime w')"
proof -
  obtain w1 w2 where reg: "runtime_sync (\<lambda>_ rt. ((), register_session sid rt)) w = (Inr (), w1)"
    and mark: "runtime_call (\<lambda>_ rt. ((), mark_session_left_room sid (Some code) rt)) w1 = (Inr (), w2)"
    and flush: "flush_runtime w2 = (Inr (), w')"
    using assms(1) by (auto simp: on_room_left_def bindE_Inr)
  have free: "not_relisted sid w1"
    using unlists.keepsD [OF unlists_calls(1) reg] assms(2) by (auto simp: unlists_def)
  obtain w3 where before: "unlists sid w1 w3"
    and after: "w2 = interfere (w3\<lparr> w_runtime := mark_session_left_room sid (Some code) (w_runtime w3) \<rparr>)"
    using mark by (rule write_effect)
  let ?w4 = "w3\<lparr> w_runtime := mark_session_left_room sid (Some code) (w_runtime w3) \<rparr>"
  have "not_relisted sid ?w4" using before free by (auto simp: unlists_def not_relisted_def)
  moreover have "\<not> listed sid code (w_runtime ?w4)" using assms(3) by (simp add: listed_mark_left)
  moreover have "unlists sid ?w4 w'"
    using unlists_interfere [of sid ?w4] unlists.keepsD [OF unlists.keeps_reads(3) flush] after
    by (auto intro: unlists.R_trans)
  ultimately show ?thesis by (auto simp: unlists_def)
qed

text \<open>A join hook lists the session under the room joined only, and success unlists it elsewhere.\<close>

lemma joined_hook_lists:
  assumes "on_room_joined sid code w = (r, w')" and "not_relisted sid w" and "c \<noteq> code"
  shows "not_relisted sid w' \<and> (listed sid c (w_runtime w') \<longrightarrow> listed sid c (w_runtime w) \<and> r \<noteq> Inr ())"
proof -
  obtain w1 where reg: "runtime_sync (\<lambda>_ rt. ((), register_session sid rt)) w = (Inr (), w1)"
    and w1: "w_sched w1 = w_sched w" "w_runtime w1 = register_session sid (w_runtime w)"
    by (auto simp: runtime_sync_def syncE_def)
  have free: "not_relisted sid w1" using w1 assms(2) by (simp add: not_relisted_def)
  have reg_known: "known sid (w_runtime w1)" by (simp add: w1 known_def register_index)
  have same: "listed sid c (w_runtime w1) = listed sid c (w_runtime w)"
    by (simp add: w1 listed_def register_index)
  obtain r2 w2 where mark: "runtime_call (\<lambda>_ rt. ((), mark_session_joined_room sid code rt)) w1 = (r2, w2)"
    by fastforce
  have flush: "case r2 of Inl e \<Rightarrow> r = Inl e \<and> w' = w2 | Inr _ \<Rightarrow> flush_runtime w2 = (r, w')"
    using assms(1) reg mark by (auto simp: on_room_joined_def bindE_def split: sum.splits)
  show ?thesis
  proof (cases r2)
    case (Inl e)
    have "unlists sid w1 w2"
      using mark Inl unlists_interfere [of sid] unfolding runtime_call_def callE_def Let_def
      by (auto split: list.splits option.splits prod.splits intro!: unlists.R_trans [OF _ unlists_interfere]
          unlists.R_trans [OF unlists_interfere unlists.R_faults])
    then show ?thesis using Inl flush free same by (auto simp: unlists_def)
  next
    case (Inr u)
    have "runtime_call (\<lambda>_ rt. ((), mark_session_joined_room sid code rt)) w1 = (Inr (), w2)"
      using mark Inr by simp
    then obtain w3 where before: "unlists sid w1 w3"
      and after: "w2 = interfere (w3\<lparr> w_runtime := mark_session_joined_room sid code (w_runtime w3) \<rparr>)"
      by (rule write_effect)
    let ?w4 = "w3\<lparr> w_runtime := mark_session_joined_room sid code (w_runtime w3) \<rparr>"
    have w3: "not_relisted sid w3" "known sid (w_runtime w3)" using before free reg_known by (auto simp: unlists_def)
    have gone: "\<not> listed sid c (w_runtime ?w4)"
    proof (cases "get_session (w_runtime w3) sid")
      case None
      then have "\<not> listed sid c (w_runtime w3)"
        using w3(2) by (auto simp: known_def get_session_def split: if_splits)
      then show ?thesis using None by (simp add: listed_mark_joined)
    next
      case Some
      then show ?thesis using assms(3) by (simp add: listed_mark_joined)
    qed
    moreover have "not_relisted sid ?w4" using w3(1) by (simp add: not_relisted_def)
    moreover have "unlists sid ?w4 w'"
      using unlists_interfere [of sid ?w4] unlists.keepsD [OF unlists.keeps_reads(3), of w2 r w'] flush Inr after
      by (auto intro: unlists.R_trans)
    ultimately show ?thesis by (auto simp: unlists_def)
  qed
qed

subsection \<open>Handler actions that list nobody\<close>

locale handler_relation =
  fixes T :: "handler_state \<Rightarrow> handler_state \<Rightarrow> bool"
  assumes T_refl: "T h h"
    and T_trans: "T h h' \<Longrightarrow> T h' h'' \<Longrightarrow> T h h''"
begin

definition tidy :: "'a hio \<Rightarrow> bool" where
  "tidy m = (\<forall>h. T h (snd (m h)))"

lemma tidyD: "tidy m \<Longrightarrow> m h = (r, h') \<Longrightarrow> T h h'"
  by (metis tidy_def snd_conv)

lemma tidy_basic: "tidy (returnE x)" "tidy (raiseE e)" "tidy (getE f)" "tidy (session_now sid)"
  by (simp_all add: tidy_def returnE_def raiseE_def getE_def session_now_def T_refl)

lemma tidy_bind: "tidy m \<Longrightarrow> (\<And>x. tidy (k x)) \<Longrightarrow> tidy (bindE m k)"
  unfolding tidy_def bindE_def by (simp split: prod.split sum.split) (metis T_trans snd_conv)

lemma tidy_try: "tidy m \<Longrightarrow> (\<And>e. tidy (f e)) \<Longrightarrow> (\<And>x. tidy (k x)) \<Longrightarrow> tidy (tryE m f k)"
  unfolding tidy_def tryE_def by (simp split: prod.split sum.split) (metis T_trans snd_conv)

lemma tidy_cases:
  "(b \<Longrightarrow> tidy m) \<Longrightarrow> (\<not> b \<Longrightarrow> tidy n) \<Longrightarrow> tidy (if b then m else n)"
  "(x = None \<Longrightarrow> tidy m) \<Longrightarrow> (\<And>y. x = Some y \<Longrightarrow> tidy (k y)) \<Longrightarrow> tidy (case x of None \<Rightarrow> m | Some y \<Rightarrow> k y)"
  by (simp_all split: option.split)

lemma tidy_read:
  "(\<And>h. T h (snd (m h)) ) \<Longrightarrow> tidy m"
  by (simp add: tidy_def)

lemmas tidy_intros = tidy_basic tidy_bind tidy_try tidy_cases

end

text \<open>The session is listed nowhere new, and every new resync is of a room it is not listed in.\<close>

definition unlisted_resyncs :: "string \<Rightarrow> handler_state \<Rightarrow> handler_state \<Rightarrow> bool" where
  "unlisted_resyncs sid h h' = (not_relisted sid (hs_world h) \<longrightarrow> not_relisted sid (hs_world h')
     \<and> (\<forall>c. listed sid c (w_runtime (hs_world h')) \<longrightarrow> listed sid c (w_runtime (hs_world h)))
     \<and> (\<forall>c. Resync c \<in> set (hs_out h') \<longrightarrow>
           Resync c \<in> set (hs_out h) \<or> \<not> listed sid c (w_runtime (hs_world h'))))"

interpretation clean: handler_relation "unlisted_resyncs sid" for sid
proof
  fix h h' h'' :: handler_state
  show "unlisted_resyncs sid h h" by (simp add: unlisted_resyncs_def)
  show "unlisted_resyncs sid h h' \<Longrightarrow> unlisted_resyncs sid h' h'' \<Longrightarrow> unlisted_resyncs sid h h''"
    unfolding unlisted_resyncs_def by blast
qed

lemma clean_lift:
  assumes "\<And>w. unlists.keeps sid m w"
  shows "clean.tidy sid (liftE m)"
proof (rule clean.tidy_read)
  fix h :: handler_state
  obtain r w' where m: "m (hs_world h) = (r, w')" by fastforce
  then have "unlists sid (hs_world h) w'" using assms by (auto intro: unlists.keepsD)
  then show "unlisted_resyncs sid h (snd (liftE m h))"
    using m by (auto simp: liftE_def unlisted_resyncs_def unlists_def)
qed

lemma clean_silent:
  fixes h :: handler_state
  shows "hs_world h' = hs_world h \<or> (\<exists>t. hs_world h' = (hs_world h)\<lparr> w_now := t \<rparr>) \<Longrightarrow>
   (\<And>c. Resync c \<in> set (hs_out h') \<Longrightarrow> Resync c \<in> set (hs_out h)) \<Longrightarrow> unlisted_resyncs sid h h'"
  by (auto simp: unlisted_resyncs_def not_relisted_def)

lemma clean_emit: "\<forall>c. x \<noteq> Resync c \<Longrightarrow> clean.tidy sid (emit x)"
  by (rule clean.tidy_read) (auto simp: emit_def putE_def intro!: clean_silent)

text \<open>Publishing only lets time pass.\<close>

lemma await_slot_out: "hs_out (snd (await_slot limit deadline wakes h)) = hs_out h"
proof (induction limit deadline wakes h rule: await_slot.induct)
  case (1 limit deadline wakes h)
  show ?case by (subst await_slot.simps) (use 1 in \<open>simp split: list.split wake.split\<close>)
qed

lemma await_slot_world: "\<exists>t. hs_world (snd (await_slot limit deadline wakes h)) = (hs_world h)\<lparr> w_now := t \<rparr>"
proof (induction wakes arbitrary: h)
  case Nil
  show ?case by (subst await_slot.simps) (simp add: exI [of _ "w_now (hs_world h)"])
next
  case (Cons wk rest)
  have self: "\<exists>t. hs_world h = (hs_world h)\<lparr> w_now := t \<rparr>" by (rule exI [of _ "w_now (hs_world h)"]) simp
  show ?case
  proof (cases wk)
    case (Slots_Freed n t)
    let ?h = "h\<lparr> hs_pending := n, hs_wakes := rest,
        hs_world := (hs_world h)\<lparr> w_now := max (w_now (hs_world h)) t \<rparr> \<rparr>"
    obtain t' where "hs_world (snd (await_slot limit deadline rest ?h)) = (hs_world ?h)\<lparr> w_now := t' \<rparr>"
      using Cons.IH by blast
    then show ?thesis using self by (subst await_slot.simps) (auto simp: Slots_Freed)
  qed (use self in \<open>subst await_slot.simps; simp\<close>)
qed

lemma publish_world:
  assumes "fire_publish_room_event opt e h = (r, h')"
  obtains t where "hs_world h' = (hs_world h)\<lparr> w_now := t \<rparr>" "hs_out h' = hs_out h \<or> hs_out h' = hs_out h @ [Publish e]"
proof -
  let ?h = "look h"
  obtain b h1 where slot: "await_slot (ho_max_pending_publishes opt)
      (w_now (hs_world ?h) + ho_backpressure_wait_ms opt) (hs_wakes ?h) ?h = (b, h1)" by fastforce
  have "hs_world ?h = hs_world h" "hs_out ?h = hs_out h" by (simp_all add: look_def split: list.split)
  then obtain t where "hs_world h1 = (hs_world h)\<lparr> w_now := t \<rparr>" "hs_out h1 = hs_out h"
    using await_slot_out [of "ho_max_pending_publishes opt"
      "w_now (hs_world ?h) + ho_backpressure_wait_ms opt" "hs_wakes ?h" ?h]
      await_slot_world [of "ho_max_pending_publishes opt"
      "w_now (hs_world ?h) + ho_backpressure_wait_ms opt" "hs_wakes ?h" ?h] slot by auto
  then show ?thesis
    using that assms slot by (cases b) (auto simp: fire_publish_room_event_def Let_def)
qed

lemma clean_publish: "clean.tidy sid (fire_publish_room_event opt e)"
proof (rule clean.tidy_read)
  fix h
  obtain r h' where run: "fire_publish_room_event opt e h = (r, h')" by fastforce
  then obtain t where "hs_world h' = (hs_world h)\<lparr> w_now := t \<rparr>"
    "hs_out h' = hs_out h \<or> hs_out h' = hs_out h @ [Publish e]" by (rule publish_world)
  then have "unlisted_resyncs sid h h'" by (intro clean_silent) auto
  then show "unlisted_resyncs sid h (snd (fire_publish_room_event opt e h))" by (simp add: run)
qed

lemma clean_left_hook: "clean.tidy sid (run_room_left_hook i code)"
  unfolding run_room_left_hook_def by (intro clean.tidy_intros clean_lift left_hook_unlists)

lemma clean_resync:
  assumes "\<not> listed sid code (w_runtime (hs_world h))"
  shows "unlisted_resyncs sid h (snd (publish_shared_owner_resync code h))"
  using assms by (auto simp: publish_shared_owner_resync_def emit_def putE_def unlisted_resyncs_def)

text \<open>A release that reports a clean index has one, and it stays so.\<close>

lemma left_hook_result:
  assumes "run_room_left_hook sid code h = (r, h')" and "not_relisted sid (hs_world h)" and "code \<noteq> []"
  shows "(\<exists>b. r = Inr b \<and> (b \<longrightarrow> \<not> listed sid code (w_runtime (hs_world h')))) \<and> hs_out h' = hs_out h"
proof -
  obtain r1 w1 where run: "on_room_left sid code (hs_world h) = (r1, w1)" by fastforce
  then have "run_room_left_hook sid code h = (Inr (r1 = Inr ()), h\<lparr> hs_world := w1 \<rparr>)"
    by (cases r1) (simp_all add: run_room_left_hook_def tryE_def liftE_def returnE_def)
  then show ?thesis using assms(1) left_hook_clears [OF _ assms(2,3)] run by auto
qed

lemma bind_snd: "m h = (Inr x, h') \<Longrightarrow> snd (bindE m k h) = snd (k x h')"
  by (simp add: bindE_def)

lemma relisted_clean: "\<not> not_relisted sid (hs_world h) \<Longrightarrow> unlisted_resyncs sid h h'"
  by (simp add: unlisted_resyncs_def)

lemma clean_after_hook:
  assumes "code \<noteq> []" and "clean.tidy sid (k False)"
    and "\<And>h. not_relisted sid (hs_world h) \<Longrightarrow> \<not> listed sid code (w_runtime (hs_world h)) \<Longrightarrow>
           unlisted_resyncs sid h (snd (k True h))"
  shows "clean.tidy sid (bindE (run_room_left_hook sid code) k)"
proof (rule clean.tidy_read)
  fix h :: handler_state
  obtain r h1 where hook: "run_room_left_hook sid code h = (r, h1)" by fastforce
  have first: "unlisted_resyncs sid h h1" using clean_left_hook hook by (rule clean.tidyD)
  show "unlisted_resyncs sid h (snd (bindE (run_room_left_hook sid code) k h))"
  proof (cases "not_relisted sid (hs_world h)")
    case True
    then obtain b where b: "r = Inr b" "b \<longrightarrow> \<not> listed sid code (w_runtime (hs_world h1))"
      using left_hook_result [OF hook True assms(1)] by blast
    have "not_relisted sid (hs_world h1)" using first True by (simp add: unlisted_resyncs_def)
    then have "unlisted_resyncs sid h1 (snd (k b h1))"
      using b(2) assms(2,3) by (cases b) (simp_all add: clean.tidy_def)
    then show ?thesis using first hook b(1) by (auto simp: bind_snd intro: clean.T_trans)
  qed (rule relisted_clean)
qed

text \<open>A resync that follows a publish, for a room the session is out of.\<close>

lemma clean_owed_resync:
  fixes h :: handler_state
  assumes "not_relisted sid (hs_world h)" and "\<not> listed sid code (w_runtime (hs_world h))"
  shows "unlisted_resyncs sid h (snd (bindE (if b then publish_shared_owner_resync code else returnE ()) (\<lambda>_. returnE x) h))"
    and "unlisted_resyncs sid h (snd (bindE (fire_publish_room_event opt e) (\<lambda>_.
      bindE (if b then publish_shared_owner_resync code else returnE ()) (\<lambda>_. returnE x)) h))"
proof -
  let ?tail = "bindE (if b then publish_shared_owner_resync code else returnE ()) (\<lambda>_. returnE x)"
  have last: "unlisted_resyncs sid h' (snd (?tail h'))" if "\<not> listed sid code (w_runtime (hs_world h'))" for h'
    using clean_resync [OF that] clean.T_refl [of sid h']
    by (cases b) (simp_all add: bindE_def publish_shared_owner_resync_def emit_def putE_def returnE_def)
  show "unlisted_resyncs sid h (snd (?tail h))" by (rule last [OF assms(2)])
  obtain r h1 where pub: "fire_publish_room_event opt e h = (r, h1)" by fastforce
  then obtain y where r: "r = Inr y" using total_publish [of opt e] unfolding never_fails_def by (metis fst_conv)
  have first: "unlisted_resyncs sid h h1" using clean_publish pub by (rule clean.tidyD)
  then have "\<not> listed sid code (w_runtime (hs_world h1))" using assms by (auto simp: unlisted_resyncs_def)
  then show "unlisted_resyncs sid h (snd (bindE (fire_publish_room_event opt e) (\<lambda>_. ?tail) h))"
    using last first pub r by (auto simp: bind_snd intro: clean.T_trans)
qed

lemma clean_leave: "clean.tidy sid (leave_room opt sid reason)"
proof -
  have none: "clean.tidy sid (if lr_needs_resync left \<and> False then publish_shared_owner_resync code else returnE ())"
    for left code by (simp add: clean.tidy_basic)
  show ?thesis
    unfolding leave_room_def Let_def
  proof (intro clean_after_hook clean.tidy_intros clean_lift leave_unlists)
    fix s :: session assume "\<not> \<not> truthy (s_room_code s)"
    then show "the (s_room_code s) \<noteq> []" by (auto simp: truthy_def split: option.splits)
  next
    fix s :: session and left :: leave_result and h :: handler_state
    assume h: "not_relisted sid (hs_world h)" "\<not> listed sid (the (s_room_code s)) (w_runtime (hs_world h))"
    show "unlisted_resyncs sid h (snd ((if \<not> lr_member_removed left \<and> \<not> lr_notify_room left
        then bindE (if lr_needs_resync left \<and> True then publish_shared_owner_resync (the (s_room_code s)) else returnE ())
               (\<lambda>_. returnE True)
        else bindE (fire_publish_room_event opt (Member_Left (the (s_room_code s)) (session_member_id s) (s_display_name s)))
               (\<lambda>_. bindE (if lr_needs_resync left \<and> True then publish_shared_owner_resync (the (s_room_code s))
                           else returnE ()) (\<lambda>_. returnE True))) h))"
      by (cases "\<not> lr_member_removed left \<and> \<not> lr_notify_room left")
        (simp_all only: if_True if_False simp_thms clean_owed_resync [OF h])
  qed (simp_all add: clean_publish)
qed

lemma clean_abort: "clean.tidy sid (abort_join opt sid)"
  unfolding abort_join_def bounded_rollback_def
  by (intro clean.tidy_intros clean_lift clean_leave clean_emit unlists.keeps_intros) simp_all

definition quiet_on_resyncs :: "handler_state \<Rightarrow> handler_state \<Rightarrow> bool" where
  "quiet_on_resyncs h h' = (\<forall>c. Resync c \<in> set (hs_out h') \<longrightarrow> Resync c \<in> set (hs_out h))"

lemma release_result:
  assumes "release_previous_room opt sid p h = (r, h')" and "not_relisted sid (hs_world h)" and "pv_room_code p \<noteq> []"
  shows "unlisted_resyncs sid h h' \<and> quiet_on_resyncs h h'
    \<and> (\<exists>b. r = Inr b \<and> (b \<longrightarrow> \<not> listed sid (pv_room_code p) (w_runtime (hs_world h'))))"
proof -
  obtain r1 h1 where hook: "run_room_left_hook sid (pv_room_code p) h = (r1, h1)" by fastforce
  have first: "unlisted_resyncs sid h h1" using clean_left_hook hook by (rule clean.tidyD)
  obtain b where b: "r1 = Inr b" "b \<longrightarrow> \<not> listed sid (pv_room_code p) (w_runtime (hs_world h1))"
    and out: "hs_out h1 = hs_out h"
    using left_hook_result [OF hook assms(2,3)] by blast
  let ?e = "Member_Left (pv_room_code p) (pv_member_id p) (pv_display_name p)"
  obtain r2 h2 where pub: "fire_publish_room_event opt ?e h1 = (r2, h2)" by fastforce
  obtain y where y: "r2 = Inr y" using pub total_publish [of opt ?e] unfolding never_fails_def by (metis fst_conv)
  obtain t where t: "hs_world h2 = (hs_world h1)\<lparr> w_now := t \<rparr>"
    "hs_out h2 = hs_out h1 \<or> hs_out h2 = hs_out h1 @ [Publish ?e]"
    using pub by (rule publish_world)
  have "release_previous_room opt sid p h = (Inr b, h2)"
    by (simp add: release_previous_room_def bindE_def hook b pub y returnE_def)
  moreover have "unlisted_resyncs sid h h2"
    using first clean.tidyD [OF clean_publish pub] by (rule clean.T_trans)
  moreover have "quiet_on_resyncs h h2" using out t(2) by (auto simp: quiet_on_resyncs_def)
  ultimately show ?thesis using assms(1) b(2) t(1) by auto
qed

lemma clean_release: "clean.tidy sid (release_previous_room opt sid p)"
  unfolding release_previous_room_def by (intro clean.tidy_intros clean_left_hook clean_publish)

subsection \<open>Entering a room\<close>

definition wf_previous :: "previous_seat option \<Rightarrow> bool" where
  "wf_previous previous = (case previous of None \<Rightarrow> True | Some p \<Rightarrow> pv_room_code p \<noteq> [])"

lemma wf_previous_seat [simp]: "wf_previous (previous_seat_of s)"
  by (auto simp: wf_previous_def previous_seat_of_def truthy_def split: option.splits)

lemma enter_success:
  assumes "enter_room opt sid previous m h = (Inr x, h')"
  shows "hs_out h' = hs_out h"
proof -
  show ?thesis
    using assms
    by (auto simp: enter_room_def tryE_def liftE_def returnE_def bindE_Inr raiseE_def
        split: prod.splits sum.splits)
qed

lemma clean_enter:
  assumes "wf_previous previous" and "\<And>w. unlists.keeps sid m w"
  shows "clean.tidy sid (enter_room opt sid previous m)"
proof -
  have rel: "clean.tidy sid (bindE (release_previous_room opt sid p) (\<lambda>cleaned.
      publish_previous_room_resync previous [] False cleaned))" if p: "previous = Some p" for p
  proof (rule clean.tidy_read)
    fix h :: handler_state
    obtain r h1 where run: "release_previous_room opt sid p h = (r, h1)" by fastforce
    have code: "pv_room_code p \<noteq> []" using assms(1) p by (simp add: wf_previous_def)
    let ?all = "bindE (release_previous_room opt sid p) (\<lambda>cleaned. publish_previous_room_resync previous [] False cleaned)"
    show "unlisted_resyncs sid h (snd (?all h))"
    proof (cases "not_relisted sid (hs_world h)")
      case True
      then obtain b where b: "r = Inr b" "b \<longrightarrow> \<not> listed sid (pv_room_code p) (w_runtime (hs_world h1))"
        and first: "unlisted_resyncs sid h h1"
        using release_result [OF run True code] by blast
      have "unlisted_resyncs sid h1 (snd (publish_previous_room_resync previous [] False b h1))"
        using b(2) p code clean_resync [of sid "pv_room_code p" h1] clean.T_refl [of sid h1]
        by (cases b) (simp_all add: publish_previous_room_resync_def returnE_def)
      then show ?thesis using first run b(1) by (auto simp: bind_snd intro: clean.T_trans)
    qed (rule relisted_clean)
  qed
  show ?thesis
    unfolding enter_room_def
    by (intro clean.tidy_try clean_lift assms(2) clean.tidy_bind [OF clean.tidy_basic(4)]
        clean.tidy_bind [OF clean.tidy_cases(2)] clean.tidy_cases(1) rel clean.tidy_basic)
qed

text \<open>
  After the entry is settled every resync owed so far is of a room the session is not listed in:
  the joined room's only when the aborted join was undone, the previous room's only when the
  session left its index one way or the other.
\<close>

lemma joined_hook_step:
  assumes "run_room_joined_hook sid code h = (r, h')" and "not_relisted sid (hs_world h)"
  obtains seated' where "r = Inr seated'" "hs_out h' = hs_out h" "not_relisted sid (hs_world h')"
    "\<And>c. c \<noteq> code \<Longrightarrow> listed sid c (w_runtime (hs_world h')) \<Longrightarrow>
       listed sid c (w_runtime (hs_world h)) \<and> \<not> seated'"
proof -
  obtain r1 w1 where run: "on_room_joined sid code (hs_world h) = (r1, w1)" by fastforce
  then have hook: "run_room_joined_hook sid code h = (Inr (r1 = Inr ()), h\<lparr> hs_world := w1 \<rparr>)"
    by (cases r1) (simp_all add: run_room_joined_hook_def tryE_def liftE_def returnE_def)
  have "not_relisted sid w1" using joined_hook_lists [OF run assms(2), of "CHR ''x'' # code"] by simp
  moreover have "listed sid c (w_runtime w1) \<Longrightarrow> c \<noteq> code \<Longrightarrow>
      listed sid c (w_runtime (hs_world h)) \<and> r1 \<noteq> Inr ()" for c
    using joined_hook_lists [OF run assms(2)] by blast
  ultimately show ?thesis using that [of "r1 = Inr ()"] assms(1) hook by auto
qed

definition resyncs_clean :: "string \<Rightarrow> handler_state \<Rightarrow> bool" where
  "resyncs_clean sid h = (not_relisted sid (hs_world h)
     \<and> (\<forall>c. Resync c \<in> set (hs_out h) \<longrightarrow> \<not> listed sid c (w_runtime (hs_world h))))"

lemma resyncs_clean_step:
  "resyncs_clean sid h \<Longrightarrow> unlisted_resyncs sid h h' \<Longrightarrow> resyncs_clean sid h'"
  unfolding resyncs_clean_def unlisted_resyncs_def by blast

lemma settle_clean:
  assumes "settle_entry opt sid previous code h = (r, h')" and "not_relisted sid (hs_world h)"
    and "wf_previous previous" and none: "\<And>c. Resync c \<notin> set (hs_out h)"
  shows "resyncs_clean sid h'"
proof -
  let ?release = "case previous of None \<Rightarrow> returnE False
    | Some p \<Rightarrow> if pv_room_code p = code then returnE False else release_previous_room opt sid p"
  have released: "\<exists>b h1. ?release h = (Inr b, h1) \<and> not_relisted sid (hs_world h1) \<and> quiet_on_resyncs h h1
    \<and> (b \<longrightarrow> (\<forall>p. previous = Some p \<longrightarrow> \<not> listed sid (pv_room_code p) (w_runtime (hs_world h1))))"
  proof (cases "\<exists>p. previous = Some p \<and> pv_room_code p \<noteq> code")
    case True
    then obtain p where p: "previous = Some p" "pv_room_code p \<noteq> code" by blast
    have code: "pv_room_code p \<noteq> []" using assms(3) p by (simp add: wf_previous_def)
    obtain r1 h1 where run: "release_previous_room opt sid p h = (r1, h1)" by fastforce
    from release_result [OF run assms(2) code] obtain b where "r1 = Inr b" "unlisted_resyncs sid h h1"
      "quiet_on_resyncs h h1" "b \<longrightarrow> \<not> listed sid (pv_room_code p) (w_runtime (hs_world h1))" by blast
    then show ?thesis using run p assms(2) by (auto simp: unlisted_resyncs_def)
  next
    case False
    then have "?release h = (Inr False, h)" by (auto simp: returnE_def split: option.split)
    then show ?thesis using assms(2) by (auto simp: quiet_on_resyncs_def intro!: exI [of _ False])
  qed
  then obtain b h1 where rel: "?release h = (Inr b, h1)" and h1: "not_relisted sid (hs_world h1)"
    "quiet_on_resyncs h h1"
    "b \<Longrightarrow> previous = Some p \<Longrightarrow> \<not> listed sid (pv_room_code p) (w_runtime (hs_world h1))" for p by blast
  obtain r2 h2 where hook: "run_room_joined_hook sid code h1 = (r2, h2)" by fastforce
  then obtain in' where h2: "r2 = Inr in'" "hs_out h2 = hs_out h1" "not_relisted sid (hs_world h2)"
    "\<And>c. c \<noteq> code \<Longrightarrow> listed sid c (w_runtime (hs_world h2)) \<Longrightarrow>
       listed sid c (w_runtime (hs_world h1)) \<and> \<not> in'"
    using h1(1) by (rule joined_hook_step) blast
  have clean2: "resyncs_clean sid h2"
    using h2 h1(2) none by (auto simp: resyncs_clean_def quiet_on_resyncs_def)
  let ?abort = "if in' then returnE () else abort_join opt sid"
  obtain r3 h3 where abort: "?abort h2 = (r3, h3)" by fastforce
  have step: "unlisted_resyncs sid h2 h3"
    using abort clean.tidyD [OF clean_abort, of opt sid h2 r3 h3] clean.T_refl [of sid h2]
    by (cases in') (simp_all add: returnE_def)
  have r3: "\<exists>u. r3 = Inr u"
    using abort total_abort [of opt sid] unfolding never_fails_def
    by (cases in') (auto simp: returnE_def dest!: spec [of _ h2])
  have clean3: "resyncs_clean sid h3" using clean2 step by (rule resyncs_clean_step)
  have gone: "\<not> listed sid (pv_room_code p) (w_runtime (hs_world h3))"
    if "previous = Some p" "pv_room_code p \<noteq> code" "in' \<or> b" for p
    using h2(4) [OF that(2)] h1(3) that(1,3) step h2(3) by (auto simp: unlisted_resyncs_def)
  obtain r4 h4 where pub: "publish_previous_room_resync previous code in' b h3 = (r4, h4)" by fastforce
  have "resyncs_clean sid h4"
    using pub clean3 gone
    by (auto simp: publish_previous_room_resync_def publish_shared_owner_resync_def emit_def putE_def
        returnE_def resyncs_clean_def split: option.splits if_splits)
  moreover have "h' = h4"
    using assms(1) rel hook h2(1) abort r3 pub total_previous(2) [of previous code in' b, unfolded never_fails_def, rule_format, of h3]
    by (auto simp: settle_entry_def bindE_def returnE_def)
  ultimately show ?thesis by simp
qed

subsection \<open>Whole messages\<close>

definition no_resyncs :: "handler_state \<Rightarrow> bool" where
  "no_resyncs h = (\<forall>c. Resync c \<notin> set (hs_out h))"

text \<open>The session a resync could wrongly bring back is out of that room, or is in it.\<close>

definition nobody_returns :: "string \<Rightarrow> handler_state \<Rightarrow> bool" where
  "nobody_returns sid h = (\<forall>c. Resync c \<in> set (hs_out h) \<longrightarrow>
     \<not> listed sid c (w_runtime (hs_world h)) \<or> s_room_code (the_session sid (hs_world h)) = Some c)"

lemma resyncs_clean_returns: "resyncs_clean sid h \<Longrightarrow> nobody_returns sid h"
  by (simp add: resyncs_clean_def nobody_returns_def)

lemma no_resyncs_clean: "no_resyncs h \<Longrightarrow> not_relisted sid (hs_world h) \<Longrightarrow> resyncs_clean sid h"
  by (simp add: no_resyncs_def resyncs_clean_def)

fun is_resync :: "outgoing \<Rightarrow> bool" where
  "is_resync (Resync _) = True"
| "is_resync _ = False"

lemma no_resyncs_said: "no_resyncs h \<longleftrightarrow> said is_resync h = 0"
proof -
  have "(\<forall>x\<in>set (hs_out h). \<not> is_resync x) \<longleftrightarrow> no_resyncs h"
    unfolding no_resyncs_def by (metis is_resync.elims(2) is_resync.simps(1))
  then show ?thesis by (simp add: said_def filter_empty_conv)
qed

lemma silent_no_resyncs: "silent is_resync m \<Longrightarrow> no_resyncs h \<Longrightarrow> no_resyncs (snd (m h))"
  using repliesD [of is_resync m "\<lambda>_. 0" h] by (simp add: no_resyncs_said split: sum.splits)

lemma silent_emit: "\<not> P x \<Longrightarrow> silent P (emit x)"
  using replies_emit [of P x] by simp

lemma clean_state: "clean.tidy sid (send_room_state_to_session i tok)"
proof -
  have "clean.tidy sid (send_state state)" for state
    unfolding send_state_def Let_def clock_def
    by (intro clean.tidy_intros clean_lift clean_emit unlists.keeps_intros) simp
  then show ?thesis
    unfolding send_room_state_to_session_def by (intro clean.tidy_intros clean_lift state_unlists)
qed

lemma announce_returns:
  assumes "resyncs_clean sid h"
  shows "nobody_returns sid (snd (announce_join opt sid previous code m n b h))"
proof (cases "s_room_code (the_session sid (hs_world h)) \<noteq> Some code \<or> s_member_id (the_session sid (hs_world h)) \<noteq> Some m")
  case True
  then have "announce_join opt sid previous code m n b h = (Inr (), h)"
    by (simp add: announce_join_def bindE_def session_now_def getE_def returnE_def)
  then show ?thesis using resyncs_clean_returns [OF assms] by simp
next
  case False
  obtain r h1 where pub: "fire_publish_room_event opt (Member_Joined code m n) h = (r, h1)" by fastforce
  then obtain y where r: "r = Inr y"
    using total_publish [of opt "Member_Joined code m n"] unfolding never_fails_def by (metis fst_conv)
  obtain t where t: "hs_world h1 = (hs_world h)\<lparr> w_now := t \<rparr>"
    using pub by (rule publish_world)
  have "resyncs_clean sid h1"
    using assms clean.tidyD [OF clean_publish pub] by (rule resyncs_clean_step)
  then show ?thesis
    using False t pub r
    by (auto simp: announce_join_def bindE_def session_now_def getE_def publish_shared_owner_resync_def
        emit_def putE_def returnE_def nobody_returns_def resyncs_clean_def the_session_def)
qed

lemma entry_returns:
  assumes "no_resyncs h" and "not_relisted sid (hs_world h)" and "wf_previous previous"
    and "\<And>w. unlists.keeps sid m w"
    and rest: "\<And>room tok seated' h. resyncs_clean sid h \<Longrightarrow> nobody_returns sid (snd (k room tok seated' h))"
  shows "nobody_returns sid (snd (bindE (enter_room opt sid previous m) (\<lambda>(room, tok).
           bindE (settle_entry opt sid previous (pr_code room)) (k room tok)) h))"
proof -
  obtain r h1 where enter: "enter_room opt sid previous m h = (r, h1)" by fastforce
  have step: "unlisted_resyncs sid h h1" using clean_enter [OF assms(3,4)] enter by (rule clean.tidyD)
  have clean1: "resyncs_clean sid h1"
    using no_resyncs_clean [OF assms(1,2)] step by (rule resyncs_clean_step)
  show ?thesis
  proof (cases r)
    case (Inl e)
    then show ?thesis using resyncs_clean_returns [OF clean1] enter by (simp add: bindE_def)
  next
    case (Inr x)
    obtain room tok where x: "x = (room, tok)" by fastforce
    have "hs_out h1 = hs_out h" using enter Inr by (auto intro: enter_success)
    then have none: "\<And>c. Resync c \<notin> set (hs_out h1)" using assms(1) by (simp add: no_resyncs_def)
    obtain r2 h2 where settle: "settle_entry opt sid previous (pr_code room) h1 = (r2, h2)" by fastforce
    have "not_relisted sid (hs_world h1)" using clean1 by (simp add: resyncs_clean_def)
    from settle_clean [OF settle this assms(3) none] have clean2: "resyncs_clean sid h2" .
    show ?thesis
      using enter Inr x settle rest [OF clean2] resyncs_clean_returns [OF clean2]
      by (cases r2) (simp_all add: bindE_def)
  qed
qed

lemma tidy_returns: "clean.tidy sid m \<Longrightarrow> resyncs_clean sid h \<Longrightarrow> nobody_returns sid (snd (m h))"
  by (rule resyncs_clean_returns, erule resyncs_clean_step, simp add: clean.tidy_def)

lemma bind_returns:
  assumes "resyncs_clean sid h" and "clean.tidy sid m"
    and "\<And>x h. resyncs_clean sid h \<Longrightarrow> nobody_returns sid (snd (k x h))"
  shows "nobody_returns sid (snd (bindE m k h))"
proof -
  obtain r h1 where m: "m h = (r, h1)" by fastforce
  have "resyncs_clean sid h1" using assms(1) clean.tidyD [OF assms(2) m] by (rule resyncs_clean_step)
  then show ?thesis using assms(3) m resyncs_clean_returns by (cases r) (simp_all add: bindE_def)
qed

lemma gate_returns:
  assumes "no_resyncs h" and "not_relisted sid (hs_world h)"
    and rest: "\<And>h. no_resyncs h \<Longrightarrow> not_relisted sid (hs_world h) \<Longrightarrow> nobody_returns sid (snd (k h))"
  shows "nobody_returns sid (snd (bindE (check_protocol_version sid v) (\<lambda>ok. if \<not> ok then returnE () else k) h))"
proof -
  have "unlists.keeps sid (update_session sid f) w" for f w by (rule unlists_puts)
  then have tidy: "clean.tidy sid (check_protocol_version sid v)"
    unfolding check_protocol_version_def Let_def
    by (intro clean.tidy_intros clean_lift clean_emit) simp_all
  have quiet: "silent is_resync (check_protocol_version sid v)"
    unfolding check_protocol_version_def Let_def
    by (intro reply_steps reply_rules silent_emit) simp_all
  obtain r h1 where run: "check_protocol_version sid v h = (r, h1)" by fastforce
  have h1: "no_resyncs h1" "not_relisted sid (hs_world h1)"
    using silent_no_resyncs [OF quiet assms(1)] clean.tidyD [OF tidy run] assms(2) run
    by (simp_all add: unlisted_resyncs_def)
  then show ?thesis
    using run rest [OF h1] resyncs_clean_returns [OF no_resyncs_clean [OF h1]]
    by (cases r) (auto simp: bindE_def returnE_def)
qed

lemma create_returns:
  assumes "no_resyncs h" and "not_relisted sid (hs_world h)" and "wf_previous previous"
  shows "nobody_returns sid (snd (handle_room_create opt sid previous payload h))"
  unfolding handle_room_create_def
proof (rule gate_returns [OF assms(1,2)])
  fix h assume h: "no_resyncs h" "not_relisted sid (hs_world h)"
  show "nobody_returns sid (snd (bindE (enter_room opt sid previous (create_room_for_session (ho_service opt) sid
        (case payload of None \<Rightarrow> None | Some p \<Rightarrow> ch_display_name p))) (\<lambda>(room, member_token).
      bindE (settle_entry opt sid previous (pr_code room)) (\<lambda>seated. if \<not> seated then returnE () else
        bindE (session_now sid) (\<lambda>s.
        bindE (emit (Send_Created (pr_code room) (session_member_id s) (pr_join_token room) member_token)) (\<lambda>_.
        bindE (emit Send_Announcement) (\<lambda>_.
        bindE (send_room_state_to_session sid member_token) (\<lambda>_. returnE ())))))) h))"
  proof (rule entry_returns [OF h assms(3) create_unlists])
    fix room tok seated' and h :: handler_state
    assume "resyncs_clean sid h"
    then show "nobody_returns sid (snd ((if \<not> seated' then returnE () else
        bindE (session_now sid) (\<lambda>s.
        bindE (emit (Send_Created (pr_code room) (session_member_id s) (pr_join_token room) tok)) (\<lambda>_.
        bindE (emit Send_Announcement) (\<lambda>_.
        bindE (send_room_state_to_session sid tok) (\<lambda>_. returnE ()))))) h))"
      by (rule tidy_returns [rotated]) (intro clean.tidy_intros clean_emit clean_state; simp)
  qed
qed

lemma join_returns:
  assumes "no_resyncs h" and "not_relisted sid (hs_world h)" and "wf_previous previous"
  shows "nobody_returns sid (snd (handle_room_join opt sid previous payload h))"
  unfolding handle_room_join_def
proof (rule gate_returns [OF assms(1,2)])
  fix h assume h: "no_resyncs h" "not_relisted sid (hs_world h)"
  show "nobody_returns sid (snd (bindE (enter_room opt sid previous (join_room_for_session (ho_service opt) sid
        (jp_room_code payload) (jp_join_token payload) (jp_display_name payload) (jp_member_token payload)))
      (\<lambda>(room, member_token).
      bindE (settle_entry opt sid previous (pr_code room)) (\<lambda>seated. if \<not> seated then returnE () else
        bindE (session_now sid) (\<lambda>s.
        bindE (emit (Send_Joined (pr_code room) (session_member_id s) member_token)) (\<lambda>_.
        bindE (emit Send_Announcement) (\<lambda>_.
        bindE (send_room_state_to_session sid member_token) (\<lambda>bootstrap.
        announce_join opt sid previous (pr_code room) (session_member_id s) (s_display_name s) bootstrap)))))) h))"
  proof (rule entry_returns [OF h assms(3) join_unlists])
    fix room tok and seated' :: bool and h :: handler_state
    assume "resyncs_clean sid h"
    then show "nobody_returns sid (snd ((if \<not> seated' then returnE () else
        bindE (session_now sid) (\<lambda>s.
        bindE (emit (Send_Joined (pr_code room) (session_member_id s) tok)) (\<lambda>_.
        bindE (emit Send_Announcement) (\<lambda>_.
        bindE (send_room_state_to_session sid tok) (\<lambda>bootstrap.
        announce_join opt sid previous (pr_code room) (session_member_id s) (s_display_name s) bootstrap))))) h))"
      by (cases seated')
        (auto intro!: bind_returns announce_returns clean_emit clean_state clean.tidy_basic
           tidy_returns [OF clean.tidy_basic(1)])
  qed
qed

lemma admitted_returns:
  assumes "no_resyncs h" and "not_relisted sid (hs_world h)" and "wf_previous previous"
  shows "nobody_returns sid (snd (handle_admitted opt sid now previous message h))"
proof -
  have quiet: "nobody_returns sid (snd (m h))" if "silent is_resync m" for m :: "unit hio"
    using silent_no_resyncs [OF that assms(1)] by (auto simp: nobody_returns_def no_resyncs_def)
  have publish: "silent is_resync (publish_update opt room)" for room
    by (simp add: publish_update_def replies_publish)
  show ?thesis
  proof (cases message)
    case (Room_Leave tok)
    have "clean.tidy sid (handle_room_leave opt sid tok)"
      unfolding handle_room_leave_def by (intro clean.tidy_intros clean_emit clean_leave) simp
    then show ?thesis using Room_Leave tidy_returns no_resyncs_clean [OF assms(1,2)] by simp
  next
    case (Playback_Update tok playback)
    show ?thesis
      unfolding Playback_Update handle_admitted.simps handle_playback_update_def
      by (rule quiet) (auto intro!: reply_steps reply_rules publish split: prod.split)
  next
    case (Sync_Request tok)
    have "silent is_resync (send_state state)" for state
      using replies_send_state [of is_resync False] by simp
    then show ?thesis
      unfolding Sync_Request handle_admitted.simps by (intro quiet replies_bind replies_lift)
  next
    case (Sync_Ping t)
    then show ?thesis by (simp, intro quiet replies_bind replies_lift silent_emit) simp
  next
    case Profile_Update
    then show ?thesis by (simp, intro quiet replies_bind replies_lift publish)
  next
    case Video_Share
    then show ?thesis by (simp, intro quiet replies_bind replies_lift publish)
  qed (use assms in \<open>simp_all add: create_returns join_returns\<close>)
qed

text \<open>
  C9. No resync brings a leaver back. Whatever else happens while a message is handled, short
  of another request joining the same session somewhere, each room for which the handler asks a
  full state to be broadcast is, when the handling is over, either the room the session is in
  or one whose index no longer lists it: a state rebuilt from that index cannot show somebody
  who left, however the service call, the hooks and the rollback failed.
\<close>

theorem resyncs_never_bring_a_leaver_back:
  assumes "handle_client_message opt sid message h = (r, h')"
    and "hs_out h = []" and "not_relisted sid (hs_world h)"
    and "Resync code \<in> set (hs_out h')"
  shows "\<not> listed sid code (w_runtime (hs_world h')) \<or> s_room_code (the_session sid (hs_world h')) = Some code"
proof -
  let ?now = "w_now (hs_world h)" and ?s = "the_session sid (hs_world h)"
  let ?limit = "case message_limit (rate_limits (so_config (ho_service opt))) ?now message of
      None \<Rightarrow> returnE True | Some f \<Rightarrow> consume_limit sid f"
  have start: "no_resyncs h" using assms(2) by (simp add: no_resyncs_def)
  have "unlists.keeps sid (update_session sid f) w" for f w by (rule unlists_puts)
  then have tidy: "clean.tidy sid ?limit"
    by (cases "message_limit (rate_limits (so_config (ho_service opt))) ?now message")
      (auto simp: consume_limit_def intro!: clean.tidy_basic clean_lift unlists.keeps_intros)
  have quiet: "silent is_resync ?limit"
    by (intro replies_option reply_rules silent_limit)
  obtain r1 h1 where limit: "?limit h = (r1, h1)" by fastforce
  have h1: "no_resyncs h1" "not_relisted sid (hs_world h1)"
    using silent_no_resyncs [OF quiet start] clean.tidyD [OF tidy limit] assms(3) limit
    by (simp_all add: unlisted_resyncs_def)
  have metered: "nobody_returns sid (snd (handle_metered opt sid ?now message h))"
    using limit admitted_returns [OF h1 wf_previous_seat] resyncs_clean_returns [OF no_resyncs_clean [OF h1]]
    by (cases r1) (auto simp: handle_metered_def bindE_def session_now_def getE_def Let_def
        handle_rate_limited_eq nobody_returns_def resyncs_clean_def)
  obtain r2 h2 where m: "handle_metered opt sid ?now message h = (r2, h2)" by fastforce
  have "nobody_returns sid h'"
    using assms(1) m metered start
    by (auto simp: handle_client_message_def bindE_def liftE_def clock_def session_now_def getE_def
        raiseE_def tryE_def returnE_def emit_def putE_def nobody_returns_def no_resyncs_def
        split: if_splits sum.splits failure.splits)
  then show ?thesis using assms(4) by (simp add: nobody_returns_def)
qed

text \<open>Alice opens a room of her own.\<close>

definition hello :: client_message where
  "hello = Room_Create (Some \<lparr> ch_display_name = None, ch_protocol_version = Some 5 \<rparr>)"

definition alice_moves :: handler_state where
  "alice_moves = alice_at_home\<lparr> hs_world := alice_world\<lparr> w_fresh := 3,
     w_runtime := mark_session_joined_room ''s1'' ''ABC234'' (register_session ''s1'' (w_runtime alice_world)) \<rparr> \<rparr>"

definition resync_and_room :: "handler_state \<Rightarrow> bool \<times> string option" where
  "resync_and_room h = (Resync ''ABC234'' \<in> set (hs_out h), s_room_code (the_session ''s1'' (hs_world h)))"

theorem resyncs_never_bring_a_leaver_back_witness:
  "Resync ''ABC234'' \<in> set (hs_out (snd (handle_client_message sample_handler ''s1'' hello alice_moves)))
   \<and> listed ''s1'' ''ABC234'' (w_runtime (hs_world alice_moves))
   \<and> \<not> listed ''s1'' ''ABC234'' (w_runtime (hs_world
       (snd (handle_client_message sample_handler ''s1'' hello alice_moves))))"
proof (intro conjI)
  let ?h' = "snd (handle_client_message sample_handler ''s1'' hello alice_moves)"
  have "resync_and_room ?h' = (True, Some ''CCC'')" by code_simp
  then have told: "Resync ''ABC234'' \<in> set (hs_out ?h')"
    and moved: "s_room_code (the_session ''s1'' (hs_world ?h')) = Some ''CCC''"
    by (simp_all add: resync_and_room_def)
  show "Resync ''ABC234'' \<in> set (hs_out ?h')" by (rule told)
  show "listed ''s1'' ''ABC234'' (w_runtime (hs_world alice_moves))" by code_simp
  have "hs_out alice_moves = []" "not_relisted ''s1'' (hs_world alice_moves)" by code_simp+
  from resyncs_never_bring_a_leaver_back [OF surjective_pairing this told] moved
  show "\<not> listed ''s1'' ''ABC234'' (w_runtime (hs_world ?h'))" by simp
qed

end
