(* ===== verification/Handler_Outcomes.thy ===== *)
theory Handler_Outcomes
  imports Handler_Switching
begin

text \<open>
  A join through the whole server: what the client of a first join into a live room hears, what
  the other nodes are told, and what the room's members and index are afterwards, when nothing
  interferes and no call fails.
\<close>

definition with_session :: "string \<Rightarrow> session \<Rightarrow> world \<Rightarrow> world" where
  "with_session sid s w = w\<lparr> w_runtime := (w_runtime w)\<lparr> rt_heap := js_set sid s (rt_heap (w_runtime w)) \<rparr> \<rparr>"

lemma with_session_frame [simp]:
  "quiet (with_session sid s w) = quiet w" "w_now (with_session sid s w) = w_now w"
  "w_rooms (with_session sid s w) = w_rooms w" "w_fresh (with_session sid s w) = w_fresh w"
  "members_of (w_runtime (with_session sid s w)) = members_of (w_runtime w)"
  "the_session i (with_session sid s w) = (if i = sid then s else the_session i w)"
  "with_session sid s' (with_session sid s w) = with_session sid s' w"
  by (simp_all add: with_session_def quiet_def the_session_def session_object_def)

lemma acquire_lock_heap_free:
  "fst (acquire_lock t c k tok e (rt\<lparr> rt_heap := x \<rparr>)) = fst (acquire_lock t c k tok e rt)"
  by (simp add: acquire_lock_def split: prod.split)

lemma with_session_lock [simp]: "lock_free code (with_session sid s w) = lock_free code w"
  using acquire_lock_heap_free by (simp add: lock_free_def with_session_def)

lemma update_session_with: "update_session sid f w = (Inr (), with_session sid (f (the_session sid w)) w)"
  by (simp add: update_session_def putE_def with_session_def)

subsection \<open>Reading the state back\<close>

definition at_home :: "string \<Rightarrow> string \<Rightarrow> string \<Rightarrow> world \<Rightarrow> bool" where
  "at_home sid code tok w = (s_room_code (the_session sid w) = Some code \<and> code \<noteq> []
     \<and> s_member_id (the_session sid w) = Some sid \<and> sid \<noteq> []
     \<and> s_member_token (the_session sid w) = Some tok \<and> tok \<noteq> []
     \<and> js_get (members_of (w_runtime w) code) sid = Some sid
     \<and> js_get (tokens_of (w_runtime w) code) sid = Some tok
     \<and> js_get (expiry_of (w_runtime w) code) sid = None)"

lemma runtime_room_found:
  assumes "js_get (members_of rt code) m = Some i"
  obtains a where "fst (get_runtime_room t code rt) = Some a" "rr_members a = members_of rt code"
    "rr_member_tokens a = tokens_of (prune_expired_member_tokens t code rt) code"
proof -
  obtain a where a: "fst (get_runtime_room t code rt) = Some a"
    using no_active_members [of t code rt] assms by fastforce
  have "members_of (prune_expired_member_tokens t code rt) code = rr_members a"
    unfolding members_of_def using a by (simp add: get_runtime_room_def Let_def)
  moreover have "tokens_of (prune_expired_member_tokens t code rt) code = rr_member_tokens a"
    unfolding tokens_of_def using a by (simp add: get_runtime_room_def Let_def)
  ultimately show ?thesis using that [OF a] by simp
qed

lemma token_kept:
  assumes "js_get (tokens_of rt code) m = Some tok" and "js_get (expiry_of rt code) m = None"
  shows "js_get (tokens_of (prune_expired_member_tokens t code rt) code) m = Some tok"
proof -
  have "m \<notin> set (due_members t (expiry_of rt code))"
    using assms(2) by (auto simp: due_members_def map_of_eq_None_iff image_iff)
  then show ?thesis using assms(1) by (simp add: prune_views js_get_filter)
qed

lemma not_expiring_kept:
  "js_get (expiry_of rt code) m = None \<Longrightarrow> js_get (expiry_of (prune_expired_member_tokens t code rt) code) m = None"
  by (auto simp: prune_views map_of_eq_None_iff)

lemma run_require:
  assumes "quiet w" and "at_home sid code tok w"
    and "get_room (w_rooms w) code = Some room" "\<not> expired_at (w_now w) room" "pr_code room = code"
  shows "require_joined_room_session sid tok w
    = (Inr room, w\<lparr> w_runtime := snd (get_runtime_room (w_now w) code (w_runtime w)) \<rparr>)"
proof -
  obtain a where a: "fst (get_runtime_room (w_now w) code (w_runtime w)) = Some a"
    "rr_members a = members_of (w_runtime w) code"
    "rr_member_tokens a = tokens_of (prune_expired_member_tokens (w_now w) code (w_runtime w)) code"
    using assms(2) runtime_room_found [of "w_runtime w" code sid sid "w_now w"] by (auto simp: at_home_def)
  have tok: "js_get (rr_member_tokens a) sid = Some tok"
    using assms(2) token_kept [of "w_runtime w" code sid tok "w_now w"] by (simp add: a at_home_def)
  let ?w = "w\<lparr> w_runtime := snd (get_runtime_room (w_now w) code (w_runtime w)) \<rparr>"
  have same: "the_session sid ?w = the_session sid w" by (simp add: the_session_def)
  have "require_member_token a sid tok ?w = (Inr (), ?w)"
    using assms(2) tok by (simp add: require_member_token_def quiet_run same at_home_def truthy_def returnE_def)
  then show ?thesis
    using assms a same
    by (simp add: require_joined_room_session_def quiet_run run_resolve at_home_def truthy_def returnE_def)
qed

lemma run_state:
  assumes "quiet w" and "at_home sid code tok w"
    and "get_room (w_rooms w) code = Some room" "\<not> expired_at (w_now w) room" "pr_code room = code"
  defines "w' \<equiv> w\<lparr> w_runtime := snd (get_runtime_room (w_now w) code (w_runtime w)) \<rparr>"
  shows "get_room_state_for_session sid tok w
    = (Inr (room_state_from_sessions room (list_sessions_by_room (w_runtime w') code)), w')"
  using assms(1,5)
  by (simp add: get_room_state_for_session_def bind_run [where m = "require_joined_room_session sid tok" and w = w, OF run_require [OF assms(1-5)]] w'_def
      room_sessions_def quiet_run returnE_def)

subsection \<open>Through the hook\<close>

definition hooked :: "string \<Rightarrow> string \<Rightarrow> world \<Rightarrow> world" where
  "hooked sid code w = w\<lparr> w_runtime := mark_session_joined_room sid code (register_session sid (w_runtime w)) \<rparr>"

lemma run_joined_hook:
  assumes "quiet (hs_world h)"
  shows "run_room_joined_hook sid code h = (Inr True, h\<lparr> hs_world := hooked sid code (hs_world h) \<rparr>)"
  using assms
  by (simp add: run_room_joined_hook_def tryE_def liftE_def on_room_joined_def quiet_run returnE_def hooked_def)

lemma register_heap: "rt_heap (register_session i rt) = rt_heap rt"
  by (simp add: register_session_def Let_def split: option.split)

lemma register_object: "session_object (register_session i rt) = session_object rt"
  by (rule session_object_cong) (rule register_heap)

lemma hooked_frame:
  assumes "s_id (the_session sid w) = sid" and "s_room_code (the_session sid w) = Some code"
  shows "quiet (hooked sid code w) = quiet w" "w_now (hooked sid code w) = w_now w"
    "w_rooms (hooked sid code w) = w_rooms w"
    "the_session sid (hooked sid code w) = the_session sid w"
    "listed sid code (w_runtime (hooked sid code w))"
    "get_session (w_runtime (hooked sid code w)) sid = Some (the_session sid w)"
    "at_home sid code tok (hooked sid code w) = at_home sid code tok w"
proof -
  let ?rt = "register_session sid (w_runtime w)" and ?s = "the_session sid w"
  have found: "get_session ?rt sid = Some ?s"
    by (simp add: get_session_def register_index register_object the_session_def)
  obtain idx where mark: "mark_session_joined_room sid code ?rt = put_session ?s (?rt\<lparr> rt_room_sessions := idx \<rparr>)"
    using assms(2) by (simp add: mark_session_joined_room_def found Let_def) (metis session.surjective session.update_convs(5))
  show "quiet (hooked sid code w) = quiet w" "w_now (hooked sid code w) = w_now w"
    "w_rooms (hooked sid code w) = w_rooms w" by (simp_all add: hooked_def quiet_def)
  show same: "the_session sid (hooked sid code w) = the_session sid w"
    using assms(1) by (simp add: hooked_def mark the_session_def put_session_object)
  show "listed sid code (w_runtime (hooked sid code w))"
    by (simp add: hooked_def listed_mark_joined found)
  show "get_session (w_runtime (hooked sid code w)) sid = Some (the_session sid w)"
    using same by (simp add: hooked_def mark get_session_def put_session_def register_index the_session_def)
  have "rt_rooms (w_runtime (hooked sid code w)) = rt_rooms (w_runtime w)"
    "rt_expiry (w_runtime (hooked sid code w)) = rt_expiry (w_runtime w)"
    by (simp_all add: hooked_def session_op_frame)
  then show "at_home sid code tok (hooked sid code w) = at_home sid code tok w"
    using same by (simp add: at_home_def members_of_def tokens_of_def expiry_of_def)
qed

text \<open>Who is listed and seated is in the state.\<close>

lemma listed_in_state:
  assumes "listed sid code rt" and "get_session rt sid = Some s" and "pr_code room = code"
    and "s_room_code s = Some code" and "s_member_id s = Some m"
  shows "m \<in> rm_id ` set (rs_members (room_state_from_sessions room (list_sessions_by_room rt code)))"
proof -
  obtain ids where "js_get (rt_room_sessions rt) code = Some ids" "sid \<in> set ids"
    using assms(1) by (auto simp: listed_def among_def split: option.splits)
  then have "s \<in> set (sessions_in_room code (list_sessions_by_room rt code))"
    using assms(2,4) by (auto simp: list_sessions_by_room_def sessions_in_room_def map_filter_def image_iff
        intro!: bexI [of _ sid])
  then have "session_member_id s \<in> fst ` set (fold (\<lambda>s m. js_set (session_member_id s) (s_display_name s) m)
      (sessions_in_room code (list_sessions_by_room rt code)) [])"
    using members_fold [of "[]"] by simp
  then show ?thesis
    using assms(3,5) by (force simp: room_state_from_sessions_def Let_def session_member_id_def image_iff)
qed

subsection \<open>A first join\<close>

definition ready_to_join :: "handler_options \<Rightarrow> string \<Rightarrow> join_payload \<Rightarrow> persisted_room \<Rightarrow> handler_state \<Rightarrow> bool" where
  "ready_to_join opt sid p room h =
     (let w = hs_world h; s = the_session sid w; code = jp_room_code p; cfg = so_config (ho_service opt)
      in quiet w \<and> lock_free code w \<and> hs_looks h = [] \<and> hs_pending h < ho_max_pending_publishes opt
         \<and> s_id s = sid \<and> sid \<noteq> [] \<and> s_room_code s = None \<and> has_attached_socket s
         \<and> code \<noteq> [] \<and> get_room (w_rooms w) code = Some room \<and> \<not> expired_at (w_now w) room
         \<and> pr_code room = code \<and> pr_join_token room = jp_join_token p
         \<and> length (members_of (w_runtime w) code) < max_members_per_room cfg
         \<and> jp_member_token p = None \<and> jp_display_name p = None
         \<and> (case jp_protocol_version p of None \<Rightarrow> True | Some v \<Rightarrow> min_protocol_version \<le> v)
         \<and> fst (consume_fixed_window (rl_room_join (s_rate_limit_state s))
                  (room_join_per_minute (rate_limits cfg)) window_minute_ms (w_now w))
         \<and> so_token (ho_service opt) (w_fresh w + 1) \<noteq> [])"

lemma run_liftE: "m (hs_world h) = (r, w) \<Longrightarrow> liftE m h = (r, h\<lparr> hs_world := w \<rparr>)"
  by (simp add: liftE_def)

lemma run_hio:
  "bindE (emit x) k h = k () (h\<lparr> hs_out := hs_out h @ [x] \<rparr>)"
  "bindE (session_now sid) k' h = k' (the_session sid (hs_world h)) h"
  by (simp_all add: bindE_def emit_def putE_def session_now_def getE_def)

lemma run_publish:
  assumes "hs_looks h = []" and "hs_pending h < ho_max_pending_publishes opt"
  shows "fire_publish_room_event opt e h = (Inr (), h\<lparr> hs_pending := hs_pending h + 1, hs_out := hs_out h @ [Publish e] \<rparr>)"
  using assms by (simp add: fire_publish_room_event_def look_def Let_def await_slot.simps)

lemma run_gate:
  assumes "ready_to_join opt sid p room h"
  obtains s where "consume_limit sid (\<lambda>s. case consume_fixed_window (rl_room_join s)
        (room_join_per_minute (rate_limits (so_config (ho_service opt)))) window_minute_ms (w_now (hs_world h)) of
          (ok, c) \<Rightarrow> (ok, s\<lparr> rl_room_join := c \<rparr>)) h
        = (Inr True, h\<lparr> hs_world := with_session sid s (hs_world h) \<rparr>)"
    "\<exists>s'. check_protocol_version sid (jp_protocol_version p) (h\<lparr> hs_world := with_session sid s (hs_world h) \<rparr>)
        = (Inr True, h\<lparr> hs_world := with_session sid s' (hs_world h) \<rparr>)
       \<and> s_id s' = sid \<and> s_room_code s' = None \<and> has_attached_socket s'
       \<and> s_display_name s' = s_display_name (the_session sid (hs_world h))"
proof -
  let ?s = "the_session sid (hs_world h)"
  let ?c = "consume_fixed_window (rl_room_join (s_rate_limit_state ?s))
        (room_join_per_minute (rate_limits (so_config (ho_service opt)))) window_minute_ms (w_now (hs_world h))"
  let ?s1 = "?s\<lparr> s_rate_limit_state := (s_rate_limit_state ?s)\<lparr> rl_room_join := snd ?c \<rparr> \<rparr>"
  have granted: "fst ?c" using assms by (simp add: ready_to_join_def Let_def)
  have limit: "consume_limit sid (\<lambda>s. case consume_fixed_window (rl_room_join s)
        (room_join_per_minute (rate_limits (so_config (ho_service opt)))) window_minute_ms (w_now (hs_world h)) of
          (ok, c) \<Rightarrow> (ok, s\<lparr> rl_room_join := c \<rparr>)) h
        = (Inr True, h\<lparr> hs_world := with_session sid ?s1 (hs_world h) \<rparr>)"
    using granted
    by (simp add: consume_limit_def liftE_def bindE_def getE_def update_session_with returnE_def case_prod_unfold)
  let ?v = "case jp_protocol_version p of None \<Rightarrow> min_protocol_version | Some v \<Rightarrow> v"
  have "\<not> (\<exists>v. jp_protocol_version p = Some v \<and> v < min_protocol_version)"
    using assms by (auto simp: ready_to_join_def Let_def)
  then have "check_protocol_version sid (jp_protocol_version p) (h\<lparr> hs_world := with_session sid ?s1 (hs_world h) \<rparr>)
      = (Inr True, h\<lparr> hs_world := with_session sid (?s1\<lparr> s_protocol_version := Some ?v \<rparr>) (hs_world h) \<rparr>)"
    by (auto simp: check_protocol_version_def liftE_def bindE_def update_session_with returnE_def split: option.split)
  moreover have "s_id ?s = sid" "s_room_code ?s = None" "has_attached_socket ?s"
    using assms by (simp_all add: ready_to_join_def Let_def)
  ultimately show ?thesis
    using that [OF limit] by (fastforce simp: has_attached_socket_def)
qed

text \<open>What the handler does with the join once the service has admitted it.\<close>

lemma run_settled_join:
  assumes "quiet w" and "at_home sid code tok w" and "s_id (the_session sid w) = sid"
    and "has_attached_socket (the_session sid w)"
    and "get_room (w_rooms w) code = Some room" and "\<not> expired_at (w_now w) room" and "pr_code room = code"
    and "hs_looks h = []" and "hs_pending h < ho_max_pending_publishes opt"
  defines "state \<equiv> room_state_from_sessions room (list_sessions_by_room
      (snd (get_runtime_room (w_now w) code (w_runtime (hooked sid code w)))) code)"
  shows "\<exists>h'. bindE (settle_entry opt sid None code) (\<lambda>seated. if \<not> seated then returnE () else
      bindE (session_now sid) (\<lambda>s.
      bindE (emit (Send_Joined code (session_member_id s) tok)) (\<lambda>_.
      bindE (emit Send_Announcement) (\<lambda>_.
      bindE (send_room_state_to_session sid tok) (\<lambda>bootstrap.
      announce_join opt sid None code (session_member_id s) (s_display_name s) bootstrap)))))
      (h\<lparr> hs_world := w \<rparr>) = (Inr (), h')
    \<and> hs_out h' = hs_out h @ [Send_Joined code sid tok, Send_Announcement,
        Send_State state (snd (with_playback_age state (w_now w))),
        Publish (Member_Joined code sid (s_display_name (the_session sid w)))]
      @ (if map_option sv_shared_by_member_id (rs_shared_video state) = Some (Some sid) then [Resync code] else [])
    \<and> sid \<in> rm_id ` set (rs_members state)
    \<and> listed sid code (w_runtime (hs_world h')) \<and> at_home sid code tok (hs_world h')"
proof -
  let ?s = "the_session sid w" and ?w4 = "hooked sid code w"
  let ?w5 = "?w4\<lparr> w_runtime := snd (get_runtime_room (w_now ?w4) code (w_runtime ?w4)) \<rparr>"
  have here: "s_room_code ?s = Some code" "s_member_id ?s = Some sid" using assms(2) by (simp_all add: at_home_def)
  note hook = hooked_frame [OF assms(3) here(1)]
  have seat: "at_home sid code tok ?w4" using hook(7) assms(2) by simp
  have run: "get_room_state_for_session sid tok ?w4 = (Inr state, ?w5)"
    using run_state [OF _ seat, of room] assms(1,5,6,7) hook(1,2,3) by (simp add: state_def)
  have views: "the_session sid ?w5 = ?s" "members_of (w_runtime ?w5) = members_of (w_runtime ?w4)"
    "w_now ?w5 = w_now w"
    using hook(2,4) by (simp_all add: the_session_def)
  have frame: "rt_room_sessions (w_runtime ?w5) = rt_room_sessions (w_runtime ?w4)"
    "get_session (w_runtime ?w5) sid = Some ?s"
    using hook(6) by (auto simp: get_runtime_room_def Let_def prune_frame get_session_def session_object_def split: if_splits)
  have still: "listed sid code (w_runtime ?w5)" using hook(5) frame(1) by (simp add: listed_def)
  have home: "at_home sid code tok ?w5"
    using seat token_kept [of "w_runtime ?w4" code sid tok "w_now ?w4"] views(1) hook(4)
      not_expiring_kept [of "w_runtime ?w4" code sid "w_now ?w4"]
    by (simp add: at_home_def get_runtime_room_def Let_def)
  have member: "sid \<in> rm_id ` set (rs_members state)"
    using listed_in_state [OF still frame(2) assms(7) here] hook(2) by (simp add: state_def)
  have settle: "settle_entry opt sid None code (h\<lparr> hs_world := w \<rparr>) = (Inr True, h\<lparr> hs_world := ?w4 \<rparr>)"
    using run_joined_hook [of "h\<lparr> hs_world := w \<rparr>" sid code] assms(1)
    by (simp add: settle_entry_def bindE_def returnE_def publish_previous_room_resync_def)
  have boot: "send_room_state_to_session sid tok (h\<lparr> hs_world := ?w4, hs_out := out \<rparr>)
      = (Inr (Some (case rs_shared_video state of None \<Rightarrow> None | Some v \<Rightarrow> sv_shared_by_member_id v)),
         h\<lparr> hs_world := ?w5, hs_out := out @ [Send_State state (snd (with_playback_age state (w_now w)))] \<rparr>)" for out
    using run_liftE [of "get_room_state_for_session sid tok" "h\<lparr> hs_world := ?w4, hs_out := out \<rparr>"] run assms(4) hook(4) views
    by (simp add: send_room_state_to_session_def send_state_def with_playback_age_def run_hio tryE_def bindE_def
        session_now_def getE_def liftE_def clock_def emit_def putE_def returnE_def Let_def split: option.split)
  have sid: "session_member_id ?s = sid" using here by (simp add: session_member_id_def)
  have announce: "announce_join opt sid None code sid n b (h\<lparr> hs_world := ?w5, hs_out := out \<rparr>)
      = (Inr (), h\<lparr> hs_world := ?w5, hs_pending := hs_pending h + 1, hs_out := out @ [Publish (Member_Joined code sid n)]
          @ (if b = None \<or> b = Some (Some sid) then [Resync code] else []) \<rparr>)" for n b out
    using run_publish [of "h\<lparr> hs_world := ?w5, hs_out := out \<rparr>" opt] assms(8,9) views(1) here
    by (simp add: announce_join_def run_hio bindE_def session_now_def getE_def publish_shared_owner_resync_def
        emit_def putE_def returnE_def)
  show ?thesis
    using hook(4) boot announce still home member sid views
    by (simp add: bind_run [where m = "settle_entry opt sid None code" and w = "h\<lparr> hs_world := w \<rparr>", OF settle] run_hio bind_run returnE_def split: option.split)
qed


definition second_join :: join_payload where
  "second_join = \<lparr> jp_room_code = ''ABC234'', jp_join_token = ''token-0123456789'', jp_member_token = None,
     jp_display_name = None, jp_protocol_version = Some 5 \<rparr>"


end
