(* ===== verification/Server_Messages.thy ===== *)
theory Server_Messages
  imports Protocol Room_Service
begin

text \<open>
  What a server may send and what the extension takes for it: \<open>types/server-message.ts\<close> and the
  guards of \<open>guards/server-message.ts\<close>. As for client messages, a guard is a type predicate, so
  there is a reading of a value as the typed message, a well-formedness of what is read, and the
  writing of a message as the server's \<open>JSON.stringify\<close> does it.
\<close>

subsection \<open>Messages\<close>

record created_payload =
  cp_room_code :: string
  cp_member_id :: string
  cp_join_token :: string
  cp_member_token :: string
  cp_server_protocol_version :: "rat option"

record joined_payload =
  jd_room_code :: string
  jd_member_id :: string
  jd_member_token :: string
  jd_server_protocol_version :: "rat option"

record announced =
  ad_id :: string
  ad_level :: announcement_level
  ad_message :: string
  ad_scheduled_at :: "rat option"
  ad_expires_in_ms :: rat

datatype server_message =
    Srv_Room_Created created_payload
  | Srv_Room_Joined joined_payload
  | Srv_Room_State room_state "rat option"
  | Srv_Member_Joined string room_member
  | Srv_Member_Left string room_member
  | Srv_Error string string
  | Srv_Sync_Pong rat rat rat
  | Srv_Announcement "announced option"

definition announcement_id_max_length :: nat where "announcement_id_max_length = 64"
definition announcement_message_max_length :: nat where "announcement_message_max_length = 500"

subsection \<open>Guards\<close>

fun is_positive_integer :: "js_value \<Rightarrow> bool" where
  "is_positive_integer (Num (Finite r)) = (1 \<le> r \<and> number_is_integer r)"
| "is_positive_integer _ = False"

definition is_optional_positive_integer :: "js_value \<Rightarrow> bool" where
  "is_optional_positive_integer v = (v = Undefined \<or> is_positive_integer v)"

definition is_optional_string :: "js_value \<Rightarrow> bool" where
  "is_optional_string v = (v = Undefined \<or> is_string v)"

definition is_announced_video :: "url_parser \<Rightarrow> js_value \<Rightarrow> bool" where
  "is_announced_video U v =
     (is_record v
      \<and> is_bounded_string (field v ''videoId'') title_max_length
      \<and> is_video_id (field v ''videoId'')
      \<and> is_bounded_string (field v ''url'') url_max_length
      \<and> is_bilibili_url U (field v ''url'')
      \<and> is_bounded_string (field v ''title'') title_max_length
      \<and> is_optional_string (field v ''sharedByMemberId'')
      \<and> (field v ''sharedByMemberId'' = Undefined \<or> is_actor_id (field v ''sharedByMemberId''))
      \<and> (field v ''sharedByDisplayName'' = Undefined
          \<or> is_bounded_string (field v ''sharedByDisplayName'') display_name_max_length))"

definition is_room_member :: "js_value \<Rightarrow> bool" where
  "is_room_member v =
     (is_record v \<and> is_actor_id (field v ''id'') \<and> is_bounded_string (field v ''name'') display_name_max_length)"

fun is_array_of :: "(js_value \<Rightarrow> bool) \<Rightarrow> js_value \<Rightarrow> bool" where
  "is_array_of P (Arr xs) = list_all P xs"
| "is_array_of P _ = False"

definition is_room_state :: "url_parser \<Rightarrow> js_value \<Rightarrow> bool" where
  "is_room_state U v =
     (is_record v
      \<and> is_room_code (field v ''roomCode'')
      \<and> (field v ''sharedVideo'' = Null \<or> is_announced_video U (field v ''sharedVideo''))
      \<and> (field v ''playback'' = Null \<or> is_playback_state (field v ''playback''))
      \<and> is_array_of is_room_member (field v ''members''))"

definition is_non_negative_number :: "js_value \<Rightarrow> bool" where
  "is_non_negative_number v = (case v of Num (Finite r) \<Rightarrow> 0 \<le> r | _ \<Rightarrow> False)"

definition is_room_state_payload :: "url_parser \<Rightarrow> js_value \<Rightarrow> bool" where
  "is_room_state_payload U v =
     (is_room_state U v
      \<and> (field v ''playbackAgeMs'' = Undefined \<or> is_non_negative_number (field v ''playbackAgeMs'')))"

definition is_room_created_payload :: "js_value \<Rightarrow> bool" where
  "is_room_created_payload v =
     (is_record v \<and> is_room_code (field v ''roomCode'') \<and> is_actor_id (field v ''memberId'')
      \<and> is_token (field v ''joinToken'') \<and> is_token (field v ''memberToken'')
      \<and> is_optional_positive_integer (field v ''serverProtocolVersion''))"

definition is_room_joined_payload :: "js_value \<Rightarrow> bool" where
  "is_room_joined_payload v =
     (is_record v \<and> is_room_code (field v ''roomCode'') \<and> is_actor_id (field v ''memberId'')
      \<and> is_token (field v ''memberToken'')
      \<and> is_optional_positive_integer (field v ''serverProtocolVersion''))"

definition is_member_payload :: "js_value \<Rightarrow> bool" where
  "is_member_payload v = (is_record v \<and> is_room_code (field v ''roomCode'') \<and> is_room_member (field v ''member''))"

definition is_error_payload :: "js_value \<Rightarrow> bool" where
  "is_error_payload v =
     (is_record v \<and> is_bounded_string (field v ''code'') 32 \<and> is_bounded_string (field v ''message'') title_max_length)"

definition is_sync_pong_payload :: "js_value \<Rightarrow> bool" where
  "is_sync_pong_payload v =
     (is_record v \<and> is_finite_number (field v ''clientSendTime'') \<and> is_finite_number (field v ''serverReceiveTime'')
      \<and> is_finite_number (field v ''serverSendTime''))"

definition announcement_id_pattern :: "string \<Rightarrow> bool" where
  "announcement_id_pattern s = (s \<noteq> [] \<and> list_all (\<lambda>c. is_alnum c \<or> c = CHR ''_'' \<or> c = CHR ''-'') s)"

definition announcement_id_ok :: "string \<Rightarrow> bool" where
  "announcement_id_ok s = (length s \<le> announcement_id_max_length \<and> announcement_id_pattern s)"

definition announcement_message_ok :: "string \<Rightarrow> bool" where
  "announcement_message_ok s = (js_trim s \<noteq> [] \<and> length s \<le> announcement_message_max_length)"

definition read_announcement_level :: "js_value \<Rightarrow> announcement_level option" where
  "read_announcement_level v =
     (case v of Str s \<Rightarrow> if s = ''info'' then Some Info_Level else if s = ''warning'' then Some Warning_Level else None
      | _ \<Rightarrow> None)"

definition is_announcement_level :: "js_value \<Rightarrow> bool" where
  "is_announcement_level v = (v = Str ''info'' \<or> v = Str ''warning'')"

definition is_announcement :: "js_value \<Rightarrow> bool" where
  "is_announcement v =
     (is_record v
      \<and> (case field v ''id'' of Str s \<Rightarrow> announcement_id_ok s | _ \<Rightarrow> False)
      \<and> is_announcement_level (field v ''level'')
      \<and> (case field v ''message'' of Str s \<Rightarrow> announcement_message_ok s | _ \<Rightarrow> False)
      \<and> (field v ''scheduledAt'' = Undefined \<or> is_non_negative_number (field v ''scheduledAt''))
      \<and> (case field v ''expiresInMs'' of Num (Finite r) \<Rightarrow> 0 < r | _ \<Rightarrow> False))"

definition is_server_announcement_payload :: "js_value \<Rightarrow> bool" where
  "is_server_announcement_payload v =
     (is_record v \<and> (field v ''announcement'' = Null \<or> is_announcement (field v ''announcement'')))"

definition is_server_message :: "url_parser \<Rightarrow> js_value \<Rightarrow> bool" where
  "is_server_message U v =
     (is_record v \<and>
      (case field v ''type'' of
         Str ty \<Rightarrow>
           let payload = field v ''payload'' in
           if ty = ''room:created'' then is_room_created_payload payload
           else if ty = ''room:joined'' then is_room_joined_payload payload
           else if ty = ''room:state'' then is_room_state_payload U payload
           else if ty = ''room:member-joined'' then is_member_payload payload
           else if ty = ''room:member-left'' then is_member_payload payload
           else if ty = ''error'' then is_error_payload payload
           else if ty = ''sync:pong'' then is_sync_pong_payload payload
           else if ty = ''server:announcement'' then is_server_announcement_payload payload
           else False
       | _ \<Rightarrow> False))"

subsection \<open>Reading\<close>

definition read_nullable :: "(js_value \<Rightarrow> 'a option) \<Rightarrow> js_value \<Rightarrow> 'a option option" where
  "read_nullable rd v = (if v = Null then Some None else map_option Some (rd v))"

definition read_room_member :: "js_value \<Rightarrow> room_member option" where
  "read_room_member v = do {
     r \<leftarrow> read_record v;
     i \<leftarrow> read_string (field r ''id'');
     name \<leftarrow> read_string (field r ''name'');
     Some \<lparr> rm_id = i, rm_name = name \<rparr> }"

fun read_all :: "(js_value \<Rightarrow> 'a option) \<Rightarrow> js_value list \<Rightarrow> 'a list option" where
  "read_all rd [] = Some []"
| "read_all rd (v # vs) = do { x \<leftarrow> rd v; xs \<leftarrow> read_all rd vs; Some (x # xs) }"

fun read_array :: "(js_value \<Rightarrow> 'a option) \<Rightarrow> js_value \<Rightarrow> 'a list option" where
  "read_array rd (Arr vs) = read_all rd vs"
| "read_array rd _ = None"

definition read_room_state :: "js_value \<Rightarrow> room_state option" where
  "read_room_state v = do {
     r \<leftarrow> read_record v;
     code \<leftarrow> read_string (field r ''roomCode'');
     video \<leftarrow> read_nullable read_shared_video (field r ''sharedVideo'');
     pb \<leftarrow> read_nullable read_playback_state (field r ''playback'');
     ms \<leftarrow> read_array read_room_member (field r ''members'');
     Some \<lparr> rs_room_code = code, rs_shared_video = video, rs_playback = pb, rs_members = ms \<rparr> }"

definition read_room_state_payload :: "js_value \<Rightarrow> server_message option" where
  "read_room_state_payload v = do {
     state \<leftarrow> read_room_state v;
     age \<leftarrow> read_optional read_number (field v ''playbackAgeMs'');
     Some (Srv_Room_State state age) }"

definition read_room_created :: "js_value \<Rightarrow> server_message option" where
  "read_room_created v = do {
     r \<leftarrow> read_record v;
     code \<leftarrow> read_string (field r ''roomCode'');
     mid \<leftarrow> read_string (field r ''memberId'');
     jt \<leftarrow> read_string (field r ''joinToken'');
     mt \<leftarrow> read_string (field r ''memberToken'');
     ver \<leftarrow> read_optional read_number (field r ''serverProtocolVersion'');
     Some (Srv_Room_Created \<lparr> cp_room_code = code, cp_member_id = mid, cp_join_token = jt, cp_member_token = mt,
       cp_server_protocol_version = ver \<rparr>) }"

definition read_room_joined :: "js_value \<Rightarrow> server_message option" where
  "read_room_joined v = do {
     r \<leftarrow> read_record v;
     code \<leftarrow> read_string (field r ''roomCode'');
     mid \<leftarrow> read_string (field r ''memberId'');
     mt \<leftarrow> read_string (field r ''memberToken'');
     ver \<leftarrow> read_optional read_number (field r ''serverProtocolVersion'');
     Some (Srv_Room_Joined \<lparr> jd_room_code = code, jd_member_id = mid, jd_member_token = mt,
       jd_server_protocol_version = ver \<rparr>) }"

definition read_member_change :: "(string \<Rightarrow> room_member \<Rightarrow> server_message) \<Rightarrow> js_value \<Rightarrow> server_message option" where
  "read_member_change mk v = do {
     r \<leftarrow> read_record v;
     code \<leftarrow> read_string (field r ''roomCode'');
     member \<leftarrow> read_room_member (field r ''member'');
     Some (mk code member) }"

definition read_error :: "js_value \<Rightarrow> server_message option" where
  "read_error v = do {
     r \<leftarrow> read_record v;
     code \<leftarrow> read_string (field r ''code'');
     message \<leftarrow> read_string (field r ''message'');
     Some (Srv_Error code message) }"

definition read_sync_pong :: "js_value \<Rightarrow> server_message option" where
  "read_sync_pong v = do {
     r \<leftarrow> read_record v;
     sent \<leftarrow> read_number (field r ''clientSendTime'');
     arrived \<leftarrow> read_number (field r ''serverReceiveTime'');
     answered \<leftarrow> read_number (field r ''serverSendTime'');
     Some (Srv_Sync_Pong sent arrived answered) }"

definition read_announced :: "js_value \<Rightarrow> announced option" where
  "read_announced v = do {
     r \<leftarrow> read_record v;
     i \<leftarrow> read_string (field r ''id'');
     level \<leftarrow> read_announcement_level (field r ''level'');
     message \<leftarrow> read_string (field r ''message'');
     scheduled \<leftarrow> read_optional read_number (field r ''scheduledAt'');
     expires \<leftarrow> read_number (field r ''expiresInMs'');
     Some \<lparr> ad_id = i, ad_level = level, ad_message = message, ad_scheduled_at = scheduled,
       ad_expires_in_ms = expires \<rparr> }"

definition read_server_announcement :: "js_value \<Rightarrow> server_message option" where
  "read_server_announcement v = do {
     r \<leftarrow> read_record v;
     announcement \<leftarrow> read_nullable read_announced (field r ''announcement'');
     Some (Srv_Announcement announcement) }"

definition read_server_payload :: "string \<Rightarrow> js_value \<Rightarrow> server_message option" where
  "read_server_payload ty payload =
     (if ty = ''room:created'' then read_room_created payload
      else if ty = ''room:joined'' then read_room_joined payload
      else if ty = ''room:state'' then read_room_state_payload payload
      else if ty = ''room:member-joined'' then read_member_change Srv_Member_Joined payload
      else if ty = ''room:member-left'' then read_member_change Srv_Member_Left payload
      else if ty = ''error'' then read_error payload
      else if ty = ''sync:pong'' then read_sync_pong payload
      else if ty = ''server:announcement'' then read_server_announcement payload
      else None)"

definition read_server_message :: "js_value \<Rightarrow> server_message option" where
  "read_server_message v = do {
     r \<leftarrow> read_record v;
     ty \<leftarrow> read_string (field r ''type'');
     read_server_payload ty (field r ''payload'') }"

subsection \<open>Well-formed messages\<close>

definition wf_server_version :: "rat \<Rightarrow> bool" where
  "wf_server_version r = (1 \<le> r \<and> number_is_integer r)"

definition wf_announced_video :: "url_parser \<Rightarrow> shared_video \<Rightarrow> bool" where
  "wf_announced_video U v =
     (length (sv_video_id v) \<le> 128 \<and> video_id_pattern (sv_video_id v)
      \<and> length (sv_url v) \<le> 512 \<and> parse_bilibili_video_ref U (Some (sv_url v)) \<noteq> None
      \<and> length (sv_title v) \<le> 128
      \<and> pred_option actor_id_pattern (sv_shared_by_member_id v)
      \<and> pred_option (\<lambda>s. length s \<le> 32) (sv_shared_by_display_name v))"

definition wf_room_member :: "room_member \<Rightarrow> bool" where
  "wf_room_member m = (actor_id_pattern (rm_id m) \<and> length (rm_name m) \<le> 32)"

definition wf_room_state :: "url_parser \<Rightarrow> room_state \<Rightarrow> bool" where
  "wf_room_state U s =
     (room_code_pattern (rs_room_code s) \<and> pred_option (wf_announced_video U) (rs_shared_video s)
      \<and> pred_option wf_playback_state (rs_playback s) \<and> list_all wf_room_member (rs_members s))"

definition wf_announced :: "announced \<Rightarrow> bool" where
  "wf_announced a =
     (announcement_id_ok (ad_id a) \<and> announcement_message_ok (ad_message a)
      \<and> pred_option (\<lambda>t. 0 \<le> t) (ad_scheduled_at a) \<and> 0 < ad_expires_in_ms a)"

fun wf_server_message :: "url_parser \<Rightarrow> server_message \<Rightarrow> bool" where
  "wf_server_message U (Srv_Room_Created p) =
     (room_code_pattern (cp_room_code p) \<and> actor_id_pattern (cp_member_id p) \<and> wf_token (cp_join_token p)
      \<and> wf_token (cp_member_token p) \<and> pred_option wf_server_version (cp_server_protocol_version p))"
| "wf_server_message U (Srv_Room_Joined p) =
     (room_code_pattern (jd_room_code p) \<and> actor_id_pattern (jd_member_id p) \<and> wf_token (jd_member_token p)
      \<and> pred_option wf_server_version (jd_server_protocol_version p))"
| "wf_server_message U (Srv_Room_State s age) = (wf_room_state U s \<and> pred_option (\<lambda>a. 0 \<le> a) age)"
| "wf_server_message U (Srv_Member_Joined code m) = (room_code_pattern code \<and> wf_room_member m)"
| "wf_server_message U (Srv_Member_Left code m) = (room_code_pattern code \<and> wf_room_member m)"
| "wf_server_message U (Srv_Error code message) = (length code \<le> 32 \<and> length message \<le> 128)"
| "wf_server_message U (Srv_Sync_Pong a b c) = True"
| "wf_server_message U (Srv_Announcement a) = pred_option wf_announced a"

subsection \<open>The guards accept what reads as well formed\<close>

lemma reads_as_nullable:
  "rd Null = None \<Longrightarrow> v = Null \<or> reads_as rd P v \<longleftrightarrow> reads_as (read_nullable rd) (pred_option P) v"
  by (auto simp: reads_as_def read_nullable_def split: option.splits)

lemma reads_null [simp]: "read_shared_video Null = None" "read_playback_state Null = None" "read_announced Null = None"
  by (simp_all add: read_shared_video_def read_playback_state_def read_announced_def read_record_def)

lemma positive_integer_guard [guard_simps]:
  "is_positive_integer v \<longleftrightarrow> reads_as read_number wf_server_version v"
  "is_optional_positive_integer v \<longleftrightarrow> reads_as (read_optional read_number) (pred_option wf_server_version) v"
  "is_non_negative_number v \<longleftrightarrow> reads_as read_number (\<lambda>r. 0 \<le> r) v"
  "(case v of Num (Finite r) \<Rightarrow> 0 < r | _ \<Rightarrow> False) \<longleftrightarrow> reads_as read_number (\<lambda>r. 0 < r) v"
proof -
  show int: "is_positive_integer v \<longleftrightarrow> reads_as read_number wf_server_version v"
    by (auto simp: reads_as_def read_number_def wf_server_version_def split: js_value.splits js_number.splits)
  show "is_optional_positive_integer v \<longleftrightarrow> reads_as (read_optional read_number) (pred_option wf_server_version) v"
    by (simp add: is_optional_positive_integer_def reads_as_optional int)
  show "is_non_negative_number v \<longleftrightarrow> reads_as read_number (\<lambda>r. 0 \<le> r) v"
    "(case v of Num (Finite r) \<Rightarrow> 0 < r | _ \<Rightarrow> False) \<longleftrightarrow> reads_as read_number (\<lambda>r. 0 < r) v"
    by (auto simp: reads_as_def read_number_def is_non_negative_number_def split: js_value.splits js_number.splits)
qed

lemma string_case_guard [guard_simps]:
  "(case v of Str s \<Rightarrow> P s | _ \<Rightarrow> False) \<longleftrightarrow> reads_as read_string P v"
  by (auto simp: reads_as_def read_string_def split: js_value.splits)

lemma announcement_level_guard [guard_simps]:
  "is_announcement_level v \<longleftrightarrow> reads_as read_announcement_level (\<lambda>_. True) v"
  by (auto simp: is_announcement_level_def read_announcement_level_def reads_as_def split: js_value.splits)

lemma optional_actor_guard:
  "is_optional_string v \<and> (v = Undefined \<or> is_actor_id v) \<longleftrightarrow> v = Undefined \<or> is_actor_id v"
  by (auto simp: is_optional_string_def is_actor_id_def split: js_value.splits)

lemma announced_video_guard [guard_simps]:
  "is_announced_video U v \<longleftrightarrow> reads_as read_shared_video (wf_announced_video U) v"
proof -
  have "is_announced_video U v \<longleftrightarrow>
     (is_record v \<and> is_bounded_string (field v ''videoId'') title_max_length
      \<and> is_video_id (field v ''videoId'') \<and> is_bounded_string (field v ''url'') url_max_length
      \<and> is_bilibili_url U (field v ''url'') \<and> is_bounded_string (field v ''title'') title_max_length
      \<and> (field v ''sharedByMemberId'' = Undefined \<or> is_actor_id (field v ''sharedByMemberId''))
      \<and> (field v ''sharedByDisplayName'' = Undefined
          \<or> is_bounded_string (field v ''sharedByDisplayName'') display_name_max_length))"
    unfolding is_announced_video_def using optional_actor_guard by blast
  also have "\<dots> \<longleftrightarrow> reads_as read_shared_video (wf_announced_video U) v"
    unfolding guard_simps by (auto simp: read_simps read_shared_video_def wf_announced_video_def)
  finally show ?thesis .
qed

lemma room_member_guard [guard_simps]:
  "is_room_member v \<longleftrightarrow> reads_as read_room_member wf_room_member v"
  unfolding is_room_member_def guard_simps by (auto simp: read_simps read_room_member_def wf_room_member_def)

lemma array_guard:
  "is_array_of (reads_as rd P) v \<longleftrightarrow> reads_as (read_array rd) (list_all P) v"
proof (cases v)
  case (Arr vs)
  have "list_all (reads_as rd P) vs \<longleftrightarrow> (\<exists>xs. read_all rd vs = Some xs \<and> list_all P xs)"
    by (induction vs) (auto simp: reads_as_iff bind_reads)
  then show ?thesis using Arr by (simp add: reads_as_iff)
qed (simp_all add: reads_as_def)

lemma members_guard [guard_simps]:
  "is_array_of is_room_member v \<longleftrightarrow> reads_as (read_array read_room_member) (list_all wf_room_member) v"
proof -
  have "is_room_member = reads_as read_room_member wf_room_member" by (rule ext) (rule room_member_guard)
  then show ?thesis using array_guard [of read_room_member wf_room_member v] by simp
qed

lemma room_state_guard [guard_simps]:
  "is_room_state U v \<longleftrightarrow> reads_as read_room_state (wf_room_state U) v"
  unfolding is_room_state_def guard_simps reads_as_nullable [of read_shared_video, OF reads_null(1)]
    reads_as_nullable [of read_playback_state, OF reads_null(2)]
  by (auto simp: read_simps read_room_state_def wf_room_state_def)

lemma read_room_state_record: "read_room_state v = Some s \<Longrightarrow> is_record v"
  by (auto simp: read_room_state_def bind_eq_Some_conv)

lemma announcement_guard [guard_simps]:
  "is_announcement v \<longleftrightarrow> reads_as read_announced wf_announced v"
  unfolding is_announcement_def guard_simps by (auto simp: read_simps read_announced_def wf_announced_def)

lemma server_payload_guards:
  "is_room_created_payload v \<longleftrightarrow> reads_as read_room_created (wf_server_message U) v"
  "is_room_joined_payload v \<longleftrightarrow> reads_as read_room_joined (wf_server_message U) v"
  "is_error_payload v \<longleftrightarrow> reads_as read_error (wf_server_message U) v"
  "is_sync_pong_payload v \<longleftrightarrow> reads_as read_sync_pong (wf_server_message U) v"
  "is_member_payload v \<longleftrightarrow> reads_as (read_member_change Srv_Member_Joined) (wf_server_message U) v"
  "is_member_payload v \<longleftrightarrow> reads_as (read_member_change Srv_Member_Left) (wf_server_message U) v"
  unfolding is_room_created_payload_def is_room_joined_payload_def is_error_payload_def is_sync_pong_payload_def
    is_member_payload_def guard_simps read_room_created_def read_room_joined_def read_error_def read_sync_pong_def
    read_member_change_def
  by (auto simp: read_simps)

lemma server_state_guard:
  "is_room_state_payload U v \<longleftrightarrow> reads_as read_room_state_payload (wf_server_message U) v"
  unfolding is_room_state_payload_def guard_simps read_room_state_payload_def by (auto simp: read_simps)

lemma server_announcement_guard:
  "is_server_announcement_payload v \<longleftrightarrow> reads_as read_server_announcement (wf_server_message U) v"
  unfolding is_server_announcement_payload_def guard_simps reads_as_nullable [of read_announced, OF reads_null(3)]
    read_server_announcement_def
  by (auto simp: read_simps)

lemma server_guard_exact:
  "is_server_message U v \<longleftrightarrow> reads_as read_server_message (wf_server_message U) v"
proof (cases "is_record v \<and> (\<exists>ty. field v ''type'' = Str ty)")
  case False
  then show ?thesis
    by (auto simp: reads_as_def is_server_message_def read_server_message_def read_string_def read_record_def
        split: js_value.splits)
next
  case True
  then obtain ty where r: "is_record v" and ty: "field v ''type'' = Str ty" by blast
  have "is_server_message U v \<longleftrightarrow> reads_as (read_server_payload ty) (wf_server_message U) (field v ''payload'')"
  proof -
    have joined: "is_member_payload (field v ''payload'')
        \<longleftrightarrow> reads_as (read_member_change Srv_Member_Joined) (wf_server_message U) (field v ''payload'')"
      and left: "is_member_payload (field v ''payload'')
        \<longleftrightarrow> reads_as (read_member_change Srv_Member_Left) (wf_server_message U) (field v ''payload'')"
      by (rule server_payload_guards)+
    show ?thesis
      unfolding is_server_message_def Let_def ty js_value.case server_state_guard server_announcement_guard [where U = U]
        server_payload_guards(1-4) [where U = U]
      by (simp add: r reads_as_def read_server_payload_def joined [unfolded reads_as_def] left [unfolded reads_as_def, symmetric])
  qed
  also have "\<dots> \<longleftrightarrow> reads_as read_server_message (wf_server_message U) v"
    by (simp add: reads_as_def read_server_message_def read_record_def read_string_def r ty)
  finally show ?thesis .
qed

subsection \<open>Writing\<close>

definition nullable_value :: "('a \<Rightarrow> js_value) \<Rightarrow> 'a option \<Rightarrow> js_value" where
  "nullable_value f x = (case x of None \<Rightarrow> Null | Some y \<Rightarrow> f y)"

definition write_room_member :: "room_member \<Rightarrow> js_value" where
  "write_room_member m = Obj [(''id'', Str (rm_id m)), (''name'', Str (rm_name m))]"

definition write_room_state_payload :: "room_state \<Rightarrow> rat option \<Rightarrow> js_value" where
  "write_room_state_payload s age =
     Obj ([(''roomCode'', Str (rs_room_code s)), (''sharedVideo'', nullable_value write_shared_video (rs_shared_video s)),
           (''playback'', nullable_value write_playback_state (rs_playback s)),
           (''members'', Arr (map write_room_member (rs_members s)))]
          @ optional_field ''playbackAgeMs'' number_value age)"

definition level_value :: "announcement_level \<Rightarrow> js_value" where
  "level_value l = Str (case l of Info_Level \<Rightarrow> ''info'' | Warning_Level \<Rightarrow> ''warning'')"

definition write_announced :: "announced \<Rightarrow> js_value" where
  "write_announced a =
     Obj ([(''id'', Str (ad_id a)), (''level'', level_value (ad_level a)), (''message'', Str (ad_message a))]
          @ optional_field ''scheduledAt'' number_value (ad_scheduled_at a)
          @ [(''expiresInMs'', number_value (ad_expires_in_ms a))])"

fun write_server_message :: "server_message \<Rightarrow> js_value" where
  "write_server_message (Srv_Room_Created p) =
     typed_value ''room:created''
       [(''payload'', Obj ([(''roomCode'', Str (cp_room_code p)), (''memberId'', Str (cp_member_id p)),
          (''joinToken'', Str (cp_join_token p)), (''memberToken'', Str (cp_member_token p))]
          @ optional_field ''serverProtocolVersion'' number_value (cp_server_protocol_version p)))]"
| "write_server_message (Srv_Room_Joined p) =
     typed_value ''room:joined''
       [(''payload'', Obj ([(''roomCode'', Str (jd_room_code p)), (''memberId'', Str (jd_member_id p)),
          (''memberToken'', Str (jd_member_token p))]
          @ optional_field ''serverProtocolVersion'' number_value (jd_server_protocol_version p)))]"
| "write_server_message (Srv_Room_State s age) =
     typed_value ''room:state'' [(''payload'', write_room_state_payload s age)]"
| "write_server_message (Srv_Member_Joined code m) =
     typed_value ''room:member-joined'' [(''payload'', Obj [(''roomCode'', Str code), (''member'', write_room_member m)])]"
| "write_server_message (Srv_Member_Left code m) =
     typed_value ''room:member-left'' [(''payload'', Obj [(''roomCode'', Str code), (''member'', write_room_member m)])]"
| "write_server_message (Srv_Error code message) =
     typed_value ''error'' [(''payload'', Obj [(''code'', Str code), (''message'', Str message)])]"
| "write_server_message (Srv_Sync_Pong sent arrived answered) =
     typed_value ''sync:pong''
       [(''payload'', Obj [(''clientSendTime'', number_value sent), (''serverReceiveTime'', number_value arrived),
          (''serverSendTime'', number_value answered)])]"
| "write_server_message (Srv_Announcement a) =
     typed_value ''server:announcement'' [(''payload'', Obj [(''announcement'', nullable_value write_announced a)])]"

lemma read_written_member [simp]: "read_room_member (write_room_member m) = Some m"
  by (cases m) (simp add: read_room_member_def write_room_member_def)

lemma read_written_members [simp]: "read_all read_room_member (map write_room_member ms) = Some ms"
  by (induction ms) simp_all

lemma read_written_level [simp]: "read_announcement_level (level_value l) = Some l"
  by (cases l) (simp_all add: read_announcement_level_def level_value_def)

lemma read_nullable_value [simp]:
  assumes "\<And>x. f x \<noteq> Null" and "\<And>x. rd (f x) = Some x"
  shows "read_nullable rd (nullable_value f y) = Some y"
  using assms by (cases y) (simp_all add: read_nullable_def nullable_value_def)

lemma written_not_null [simp]:
  "write_shared_video v \<noteq> Null" "write_playback_state p \<noteq> Null" "write_announced a \<noteq> Null"
  by (simp_all add: write_shared_video_def write_playback_state_def write_announced_def)

lemma read_written_announced [simp]: "read_announced (write_announced a) = Some a"
  by (cases a; cases "ad_scheduled_at a") (simp_all add: read_announced_def write_announced_def)

lemma read_written_state: "read_room_state (write_room_state_payload s age) = Some s"
  by (cases s) (simp add: read_room_state_def write_room_state_payload_def)

lemma read_written_server_message: "read_server_message (write_server_message m) = Some m"
proof (cases m)
  case (Srv_Room_Created p)
  then show ?thesis
    by (cases p; cases "cp_server_protocol_version p")
       (simp_all add: read_server_message_def typed_value_def read_server_payload_def read_room_created_def)
next
  case (Srv_Room_Joined p)
  then show ?thesis
    by (cases p; cases "jd_server_protocol_version p")
       (simp_all add: read_server_message_def typed_value_def read_server_payload_def read_room_joined_def)
next
  case (Srv_Room_State s age)
  have "read_optional read_number (field (write_room_state_payload s age) ''playbackAgeMs'') = Some age"
    by (cases age) (simp_all add: write_room_state_payload_def)
  then show ?thesis
    using Srv_Room_State
    by (simp add: read_server_message_def typed_value_def read_server_payload_def read_room_state_payload_def read_written_state)
qed (simp_all add: read_server_message_def typed_value_def read_server_payload_def read_member_change_def read_error_def
       read_sync_pong_def read_server_announcement_def)

subsection \<open>Properties\<close>

text \<open>
  C40. Round trip: whatever the server writes reads back as the same message, and passes the guard of
  the extension exactly when it is well formed, that is, when room codes, tokens, identities,
  lengths, addresses, versions, ages and announcements respect their bounds.
\<close>

theorem server_message_round_trip:
  "read_server_message (write_server_message m) = Some m
   \<and> is_server_message U (write_server_message m) = wf_server_message U m"
  using reads_as_def [of read_server_message "wf_server_message U" "write_server_message m"]
    server_guard_exact [of U "write_server_message m"] by (simp add: read_written_server_message)

text \<open>The room as its members see it after session \<open>s\<close> shared or reported.\<close>

fun relayed :: "session \<Rightarrow> rat \<Rightarrow> client_message \<Rightarrow> room_state \<Rightarrow> room_state" where
  "relayed s now (Video_Share tok video pb) state =
     state\<lparr> rs_shared_video := the (rp_shared_video (share_patch s video pb now)),
            rs_playback := the (rp_playback (share_patch s video pb now)) \<rparr>"
| "relayed s now (Playback_Update tok pb) state =
     state\<lparr> rs_playback := the (rp_playback (playback_patch
       (pb\<lparr> pb_actor_id := session_member_id s, pb_server_time := now \<rparr>) now)) \<rparr>"
| "relayed s now _ state = state"

lemma relayed_well_formed:
  assumes "wf_client_message U m" and "actor_id_pattern (session_member_id s)" and "length (s_display_name s) \<le> 32"
    and "wf_room_state U state"
  shows "wf_room_state U (relayed s now m state)"
proof (cases m)
  case (Video_Share tok video pb)
  then have "wf_shared_video U video" "pred_option wf_playback_state pb" using assms(1) by simp_all
  then show ?thesis
    using Video_Share assms(2-4) by (cases pb)
      (simp_all add: wf_room_state_def share_patch_def shared_playback_def wf_announced_video_def wf_shared_video_def
        wf_playback_state_def)
next
  case (Playback_Update tok pb)
  then show ?thesis
    using assms by (simp add: wf_room_state_def playback_patch_def wf_playback_state_def)
qed (use assms in simp_all)

text \<open>
  What one member may send, every member can receive. If the server's guard accepts a message of
  a member whose identity and name are within bounds, and the room could be announced before, then
  the extension's guard accepts the room after it, shared video and playback stamped by the server
  included: no accepted share or report makes the room unreadable for its members.
\<close>

theorem accepted_content_is_receivable:
  assumes "is_client_message U v" and "read_client_message v = Some m"
    and "actor_id_pattern (session_member_id s)" and "length (s_display_name s) \<le> 32"
    and "wf_room_state U state" and "pred_option (\<lambda>a. 0 \<le> a) age"
  shows "is_server_message U (write_server_message (Srv_Room_State (relayed s now m state) age))"
proof -
  have "wf_client_message U m" using assms(1,2) guard_exact [of U v] by (simp add: reads_as_def)
  then have "wf_server_message U (Srv_Room_State (relayed s now m state) age)"
    using relayed_well_formed assms(3-6) by simp
  then show ?thesis
    unfolding server_guard_exact reads_as_def read_written_server_message by simp
qed

definition reported_position :: playback_state where
  "reported_position = \<lparr> pb_url = ''https://www.bilibili.com/video/BV1xx411c7mD'', pb_current_time = 12, pb_play_state = Playing,
     pb_sync_intent = None, pb_user_initiated = None, pb_natural_end = None, pb_playback_rate = 1, pb_updated_at = 9,
     pb_server_time = 0, pb_actor_id = ''bob'', pb_seq = 3 \<rparr>"

definition room_of_two :: room_state where
  "room_of_two = \<lparr> rs_room_code = ''ABC234'', rs_shared_video = None, rs_playback = None,
     rs_members = [\<lparr> rm_id = ''alice'', rm_name = ''Alice'' \<rparr>, \<lparr> rm_id = ''bob'', rm_name = ''Bob'' \<rparr>] \<rparr>"

lemma sample_patterns:
  "actor_id_pattern ''bob'' \<and> actor_id_pattern ''alice'' \<and> room_code_pattern ''ABC234''"
  by code_simp

theorem accepted_content_is_receivable_witness:
  "is_server_message (\<lambda>_. None) (write_server_message (Srv_Room_State
     (relayed (empty_session ''bob'') 100 (Playback_Update ''0123456789abcdef'' reported_position) room_of_two) (Some 4)))"
proof (rule accepted_content_is_receivable)
  let ?m = "Playback_Update ''0123456789abcdef'' reported_position"
  show "is_client_message (\<lambda>_. None) (write_client_message ?m)"
    unfolding guard_exact reads_as_def read_write_message
    by (simp add: wf_token_def wf_playback_state_def reported_position_def sample_patterns)
  show "read_client_message (write_client_message ?m) = Some ?m" by (rule read_write_message)
qed (simp_all add: empty_session_def session_member_id_def sample_patterns room_of_two_def wf_room_state_def
    wf_room_member_def)

end
