(* ===== verification/Room_Events.thy ===== *)
theory Room_Events
  imports Message_Handler Server_Messages
begin

text \<open>
  \<open>server/src/room-event-consumer.ts\<close>: every node hears every event of every room and tells its own members of that
  room. A member who understands changes of membership gets the change, an older client the whole state, which is read
  once per event and only when somebody needs it. A delivery is suspended while the state is read, and sessions change,
  leave or close meanwhile; they are the objects the code holds, by their identifiers. The sessions the store lists for
  the room when an event arrives come with the event. \<open>cn_sent\<close> is what was sent, to whom and for which event.
\<close>

subsection \<open>State\<close>

record delivery =
  dl_event :: room_event
  dl_rest :: "string list"
  dl_loaded :: "room_state option option"

record consumer_state =
  cn_sessions :: "string \<Rightarrow> session"
  cn_deliveries :: "delivery list"
  cn_sent :: "(string \<times> room_event \<times> server_message) list"

definition member_delta_protocol_version :: rat where "member_delta_protocol_version = 2"

definition supports_incremental_member_events :: "session \<Rightarrow> bool" where
  "supports_incremental_member_events session =
     (member_delta_protocol_version \<le> (case s_protocol_version session of None \<Rightarrow> 1 | Some v \<Rightarrow> v))"

fun room_of_event :: "room_event \<Rightarrow> string" where
  "room_of_event (State_Updated code) = code"
| "room_of_event (Member_Changed code) = code"
| "room_of_event (Member_Joined code member_id name) = code"
| "room_of_event (Member_Left code member_id name) = code"
| "room_of_event (Room_Deleted code) = code"

fun member_of_event :: "room_event \<Rightarrow> string option" where
  "member_of_event (Member_Joined code member_id name) = Some member_id"
| "member_of_event (Member_Left code member_id name) = Some member_id"
| "member_of_event e = None"

fun create_member_message :: "room_event \<Rightarrow> server_message option" where
  "create_member_message (Member_Joined code member_id name) =
     Some (Srv_Member_Joined code \<lparr> rm_id = member_id, rm_name = name \<rparr>)"
| "create_member_message (Member_Left code member_id name) =
     Some (Srv_Member_Left code \<lparr> rm_id = member_id, rm_name = name \<rparr>)"
| "create_member_message e = None"

definition is_room_event_recipient :: "session \<Rightarrow> string \<Rightarrow> bool" where
  "is_room_event_recipient session room_code = (has_attached_socket session \<and> s_room_code session = Some room_code)"

text \<open>For a change of membership also not the member it is about.\<close>

definition is_event_recipient :: "session \<Rightarrow> room_event \<Rightarrow> bool" where
  "is_event_recipient session e =
     (is_room_event_recipient session (room_of_event e)
      \<and> (case member_of_event e of None \<Rightarrow> True | Some m \<Rightarrow> s_member_id session \<noteq> Some m))"

definition state_message :: "room_state \<Rightarrow> rat \<Rightarrow> server_message" where
  "state_message state now = (case with_playback_age state now of (aged, age) \<Rightarrow> Srv_Room_State aged age)"

definition deleted_room_state :: "string \<Rightarrow> room_state" where
  "deleted_room_state code = \<lparr> rs_room_code = code, rs_shared_video = None, rs_playback = None, rs_members = [] \<rparr>"

subsection \<open>Deliveries\<close>

text \<open>Up to the first session that needs the whole state, which is the head of the rest.\<close>

fun deliver_deltas ::
    "(string \<Rightarrow> session) \<Rightarrow> room_event \<Rightarrow> server_message \<Rightarrow> string list \<Rightarrow> (string \<times> server_message) list \<times> string list" where
  "deliver_deltas S e message [] = ([], [])"
| "deliver_deltas S e message (i # is) =
     (if \<not> is_event_recipient (S i) e then deliver_deltas S e message is
      else if supports_incremental_member_events (S i)
      then (case deliver_deltas S e message is of (sent, rest) \<Rightarrow> ((i, message) # sent, rest))
      else ([], i # is))"

definition suspended :: "room_event \<Rightarrow> room_state option option \<Rightarrow> string list \<Rightarrow> delivery option" where
  "suspended e loaded rest = (if rest = [] then None else Some \<lparr> dl_event = e, dl_rest = rest, dl_loaded = loaded \<rparr>)"

definition receive_room_event ::
    "(string \<Rightarrow> session) \<Rightarrow> rat \<Rightarrow> room_event \<Rightarrow> string list \<Rightarrow> (string \<times> server_message) list \<times> delivery option" where
  "receive_room_event S now e local_sessions =
     (case create_member_message e of
        Some message \<Rightarrow>
          (case deliver_deltas S e message local_sessions of (sent, rest) \<Rightarrow> (sent, suspended e None rest))
      | None \<Rightarrow>
          let recipients = filter (\<lambda>i. is_room_event_recipient (S i) (room_of_event e)) local_sessions
          in if e = Room_Deleted (room_of_event e)
             then (map (\<lambda>i. (i, state_message (deleted_room_state (room_of_event e)) now)) recipients, None)
             else ([], suspended e None recipients))"

text \<open>The state was read, or had been: what follows the await.\<close>

definition resume_delivery ::
    "(string \<Rightarrow> session) \<Rightarrow> rat \<Rightarrow> room_state option \<Rightarrow> delivery \<Rightarrow> (string \<times> server_message) list \<times> delivery option" where
  "resume_delivery S now answer d =
     (case create_member_message (dl_event d) of
        None \<Rightarrow>
          (case answer of
             None \<Rightarrow> ([], None)
           | Some state \<Rightarrow>
               (map (\<lambda>i. (i, state_message state now))
                  (filter (\<lambda>i. is_room_event_recipient (S i) (room_of_event (dl_event d))) (dl_rest d)), None))
      | Some message \<Rightarrow>
          let loaded = (case dl_loaded d of Some known \<Rightarrow> known | None \<Rightarrow> answer);
              i = hd (dl_rest d);
              first = (case loaded of
                         None \<Rightarrow> []
                       | Some state \<Rightarrow> if is_event_recipient (S i) (dl_event d) then [(i, state_message state now)] else [])
          in (case deliver_deltas S (dl_event d) message (tl (dl_rest d)) of
                (sent, rest) \<Rightarrow> (first @ sent, suspended (dl_event d) (Some loaded) rest)))"

subsection \<open>Runs\<close>

datatype consumer_event =
    Event_Arrives room_event "string list"
  | Delivery_Goes_On nat "room_state option"
  | State_Read_Fails nat
  | Session_Changes string session

definition log_sent ::
    "room_event \<Rightarrow> (string \<times> server_message) list \<Rightarrow> consumer_state \<Rightarrow> consumer_state" where
  "log_sent e sent c = c\<lparr> cn_sent := cn_sent c @ map (\<lambda>(i, message). (i, e, message)) sent \<rparr>"

definition keep_delivery :: "delivery option \<Rightarrow> delivery list \<Rightarrow> delivery list" where
  "keep_delivery d ds = (case d of None \<Rightarrow> ds | Some d \<Rightarrow> ds @ [d])"

definition without_delivery :: "nat \<Rightarrow> delivery list \<Rightarrow> delivery list" where
  "without_delivery k ds = take k ds @ drop (k + 1) ds"

fun consumer_step :: "consumer_event \<Rightarrow> rat \<Rightarrow> consumer_state \<Rightarrow> consumer_state" where
  "consumer_step (Event_Arrives e local_sessions) now c =
     (case receive_room_event (cn_sessions c) now e local_sessions of
        (sent, d) \<Rightarrow> log_sent e sent (c\<lparr> cn_deliveries := keep_delivery d (cn_deliveries c) \<rparr>))"
| "consumer_step (Delivery_Goes_On k answer) now c =
     (if k < length (cn_deliveries c)
      then (case resume_delivery (cn_sessions c) now answer (cn_deliveries c ! k) of
              (sent, d) \<Rightarrow> log_sent (dl_event (cn_deliveries c ! k)) sent
                 (c\<lparr> cn_deliveries := keep_delivery d (without_delivery k (cn_deliveries c)) \<rparr>))
      else c)"
| "consumer_step (State_Read_Fails k) now c =
     (if k < length (cn_deliveries c) \<and> dl_loaded (cn_deliveries c ! k) = None
      then c\<lparr> cn_deliveries := without_delivery k (cn_deliveries c) \<rparr>
      else c)"
| "consumer_step (Session_Changes i session) now c = c\<lparr> cn_sessions := (cn_sessions c)(i := session) \<rparr>"

definition consumer_run :: "(string \<Rightarrow> session) \<Rightarrow> (consumer_event \<times> rat) list \<Rightarrow> consumer_state" where
  "consumer_run S es =
     fold (\<lambda>(e, now). consumer_step e now) es \<lparr> cn_sessions = S, cn_deliveries = [], cn_sent = [] \<rparr>"

subsection \<open>Nobody hears of a room they are not in\<close>

lemma recipient_of_member_event:
  "is_event_recipient session e \<Longrightarrow> is_room_event_recipient session (room_of_event e)"
  by (simp add: is_event_recipient_def)

lemma no_member_message: "create_member_message e = None \<longleftrightarrow> member_of_event e = None"
  by (cases e) simp_all

lemma deltas_sent:
  assumes "deliver_deltas S e message is = (sent, rest)"
  shows "list_all (\<lambda>(i, m). m = message \<and> is_event_recipient (S i) e \<and> supports_incremental_member_events (S i)) sent"
  using assms by (induction "is" arbitrary: sent) (auto split: if_splits prod.splits)

lemma resumed_sent:
  assumes "resume_delivery S now answer d = (sent, d')"
  shows "list_all (\<lambda>(i, m). is_event_recipient (S i) (dl_event d)
    \<and> (create_member_message (dl_event d) = Some m \<and> supports_incremental_member_events (S i) \<or> (\<exists>state. m = state_message state now))) sent"
proof (cases "create_member_message (dl_event d)")
  case None
  then have "is_event_recipient session (dl_event d)"
    if "is_room_event_recipient session (room_of_event (dl_event d))" for session
    using that by (simp add: is_event_recipient_def no_member_message)
  then show ?thesis using assms None by (auto simp: resume_delivery_def list_all_iff split: option.splits)
next
  case (Some message)
  obtain others rest where d: "deliver_deltas S (dl_event d) message (tl (dl_rest d)) = (others, rest)" by fastforce
  show ?thesis
    using assms deltas_sent [OF d] d
    by (auto simp: resume_delivery_def Some Let_def list_all_iff split: option.splits if_splits)
qed

lemma received_sent:
  assumes "receive_room_event S now e local_sessions = (sent, d)"
  shows "list_all (\<lambda>(i, m). is_event_recipient (S i) e
    \<and> (create_member_message e = Some m \<and> supports_incremental_member_events (S i) \<or> (\<exists>state. m = state_message state now))) sent"
proof (cases "create_member_message e")
  case None
  then have "is_event_recipient session e" if "is_room_event_recipient session (room_of_event e)" for session
    using that by (simp add: is_event_recipient_def no_member_message)
  then show ?thesis using assms None by (auto simp: receive_room_event_def Let_def list_all_iff split: if_splits)
next
  case (Some message)
  obtain others rest where d: "deliver_deltas S e message local_sessions = (others, rest)" by fastforce
  show ?thesis using assms deltas_sent [OF d] d by (auto simp: receive_room_event_def Some list_all_iff)
qed

lemma consumer_run_snoc: "consumer_run S (es @ [(e, now)]) = consumer_step e now (consumer_run S es)"
  by (simp add: consumer_run_def)

text \<open>
  C6. Nobody hears of a room they are not in. Whatever events arrive, however long their states take to read, and whoever
  joins, leaves, reconnects or disconnects meanwhile: at the moment something is sent for an event, the receiver is attached and
  in the room of the event, is not the member the event is about, and gets the bare change of membership only if its client
  understands it; everything else is a whole state with its age taken at that moment.
\<close>

theorem only_members_hear_of_a_room:
  "\<exists>sent. cn_sent (consumer_run S (es @ [(x, now)])) = cn_sent (consumer_run S es) @ sent
    \<and> list_all (\<lambda>(i, e, message).
        let session = cn_sessions (consumer_run S es) i
        in has_attached_socket session \<and> s_room_code session = Some (room_of_event e)
           \<and> (case member_of_event e of None \<Rightarrow> True | Some m \<Rightarrow> s_member_id session \<noteq> Some m)
           \<and> (create_member_message e = Some message \<and> supports_incremental_member_events session
              \<or> (\<exists>state. message = state_message state now))) sent"
proof -
  let ?c = "consumer_run S es"
  let ?right = "\<lambda>e (i, m). is_event_recipient (cn_sessions ?c i) e
    \<and> (create_member_message e = Some m \<and> supports_incremental_member_events (cn_sessions ?c i) \<or> (\<exists>state. m = state_message state now))"
  have logged: "\<exists>e' sent'. sent = map (\<lambda>(i, m). (i, e', m)) sent' \<and> list_all (?right e') sent' \<Longrightarrow>
    cn_sent (consumer_step x now ?c) = cn_sent ?c @ sent \<Longrightarrow> ?thesis" for sent
    unfolding consumer_run_snoc
    by (rule exI [of _ sent]) (fastforce simp: list_all_iff Let_def is_event_recipient_def is_room_event_recipient_def)
  show ?thesis
  proof (cases x)
    case (Event_Arrives e local_sessions)
    obtain sent d where r: "receive_room_event (cn_sessions ?c) now e local_sessions = (sent, d)" by fastforce
    show ?thesis
      by (rule logged [of "map (\<lambda>(i, m). (i, e, m)) sent"])
        (use received_sent [OF r] r in \<open>auto simp: Event_Arrives log_sent_def\<close>)
  next
    case (Delivery_Goes_On k answer)
    let ?d = "cn_deliveries ?c ! k"
    obtain sent d where r: "resume_delivery (cn_sessions ?c) now answer ?d = (sent, d)" by fastforce
    show ?thesis
    proof (cases "k < length (cn_deliveries ?c)")
      case True
      show ?thesis
        by (rule logged [of "map (\<lambda>(i, m). (i, dl_event ?d, m)) sent"])
          (use resumed_sent [OF r] r True in \<open>auto simp: Delivery_Goes_On log_sent_def\<close>)
    next
      case False
      show ?thesis by (rule logged [of "[]"]) (use False in \<open>auto simp: Delivery_Goes_On\<close>)
    qed
  next
    case (State_Read_Fails k)
    show ?thesis by (rule logged [of "[]"]) (auto simp: State_Read_Fails)
  next
    case (Session_Changes i session)
    show ?thesis by (rule logged [of "[]"]) (auto simp: Session_Changes)
  qed
qed

subsection \<open>Everybody in the room hears of it\<close>

text \<open>An event handled to its end, the state being read at the first of the moments and the sessions standing still.\<close>

fun settle_delivery ::
    "(string \<Rightarrow> session) \<Rightarrow> room_state option \<Rightarrow> rat list \<Rightarrow> delivery option \<Rightarrow> (string \<times> server_message) list \<times> delivery option" where
  "settle_delivery S answer ts None = ([], None)"
| "settle_delivery S answer [] (Some d) = ([], Some d)"
| "settle_delivery S answer (t # ts) (Some d) =
     (case resume_delivery S t answer d of
        (sent, d') \<Rightarrow> (case settle_delivery S answer ts d' of (others, d'') \<Rightarrow> (sent @ others, d'')))"

definition handle_room_event ::
    "(string \<Rightarrow> session) \<Rightarrow> room_state option \<Rightarrow> rat \<Rightarrow> rat list \<Rightarrow> room_event \<Rightarrow> string list
     \<Rightarrow> (string \<times> server_message) list \<times> delivery option" where
  "handle_room_event S answer now ts e local_sessions =
     (case receive_room_event S now e local_sessions of
        (sent, d) \<Rightarrow> (case settle_delivery S answer ts d of (others, d') \<Rightarrow> (sent @ others, d')))"

text \<open>What one recipient is owed.\<close>

definition owed_message :: "session \<Rightarrow> room_event \<Rightarrow> room_state \<Rightarrow> rat set \<Rightarrow> server_message \<Rightarrow> bool" where
  "owed_message session e state moments message =
     (case create_member_message e of
        Some delta \<Rightarrow>
          if supports_incremental_member_events session then message = delta
          else \<exists>t \<in> moments. message = state_message state t
      | None \<Rightarrow>
          \<exists>t \<in> moments. message = state_message (if e = Room_Deleted (room_of_event e) then deleted_room_state (room_of_event e) else state) t)"

lemma deltas_split:
  assumes "deliver_deltas S e message is = (sent, rest)"
  shows "\<exists>front. is = front @ rest \<and> map fst sent = filter (\<lambda>i. is_event_recipient (S i) e) front
    \<and> (rest \<noteq> [] \<longrightarrow> is_event_recipient (S (hd rest)) e \<and> \<not> supports_incremental_member_events (S (hd rest)))"
  using assms
proof (induction "is" arbitrary: sent)
  case Nil
  then show ?case by simp
next
  case (Cons i "is")
  show ?case
  proof (cases "is_event_recipient (S i) e \<and> \<not> supports_incremental_member_events (S i)")
    case True
    then show ?thesis using Cons.prems by (intro exI [of _ "[]"]) auto
  next
    case False
    obtain others where others: "deliver_deltas S e message is = (others, rest)"
      "sent = (if is_event_recipient (S i) e then (i, message) # others else others)"
      using False Cons.prems by (auto split: if_splits prod.splits)
    obtain front where f: "is = front @ rest" "map fst others = filter (\<lambda>i. is_event_recipient (S i) e) front"
      "rest \<noteq> [] \<longrightarrow> is_event_recipient (S (hd rest)) e \<and> \<not> supports_incremental_member_events (S (hd rest))"
      using Cons.IH [OF others(1)] by blast
    then show ?thesis using others(2) False by (intro exI [of _ "i # front"]) auto
  qed
qed

lemma owed_more: "owed_message s e state A m \<Longrightarrow> A \<subseteq> B \<Longrightarrow> owed_message s e state B m"
  by (auto simp: owed_message_def split: option.splits if_splits)

lemma deltas_owed:
  assumes "deliver_deltas S e message is = (sent, rest)" and "create_member_message e = Some message"
  shows "list_all (\<lambda>(i, m). owed_message (S i) e state moments m) sent"
  using deltas_sent [OF assms(1)] assms(2) by (auto simp: list_all_iff owed_message_def)

lemma settled_deltas:
  assumes "create_member_message e = Some message" and "length rest \<le> length ts"
    and "rest \<noteq> [] \<longrightarrow> is_event_recipient (S (hd rest)) e \<and> \<not> supports_incremental_member_events (S (hd rest))"
    and "loaded = None \<or> loaded = Some (Some state)"
  shows "\<exists>sent. settle_delivery S (Some state) ts (suspended e loaded rest) = (sent, None)
    \<and> map fst sent = filter (\<lambda>i. is_event_recipient (S i) e) rest
    \<and> list_all (\<lambda>(i, m). owed_message (S i) e state (set ts) m) sent"
  using assms(2-)
proof (induction ts arbitrary: rest loaded)
  case Nil
  then show ?case by (simp add: suspended_def)
next
  case (Cons t ts)
  show ?case
  proof (cases rest)
    case Nil
    then show ?thesis by (simp add: suspended_def)
  next
    case (Cons i others)
    have head: "is_event_recipient (S i) e" "\<not> supports_incremental_member_events (S i)"
      using Cons.prems(2) \<open>rest = i # others\<close> by simp_all
    obtain sent rest' where d: "deliver_deltas S e message others = (sent, rest')" by fastforce
    obtain front where f: "others = front @ rest'" "map fst sent = filter (\<lambda>i. is_event_recipient (S i) e) front"
      "rest' \<noteq> [] \<longrightarrow> is_event_recipient (S (hd rest')) e \<and> \<not> supports_incremental_member_events (S (hd rest'))"
      using deltas_split [OF d] by blast
    have "length rest' \<le> length ts" using Cons.prems(1) f(1) \<open>rest = i # others\<close> by simp
    then obtain sent' where s': "settle_delivery S (Some state) ts (suspended e (Some (Some state)) rest') = (sent', None)"
      "map fst sent' = filter (\<lambda>i. is_event_recipient (S i) e) rest'"
      "list_all (\<lambda>(i, m). owed_message (S i) e state (set ts) m) sent'"
      using Cons.IH [of rest' "Some (Some state)"] f(3) by auto
    have resumed: "resume_delivery S t (Some state) \<lparr> dl_event = e, dl_rest = rest, dl_loaded = loaded \<rparr>
        = ((i, state_message state t) # sent, suspended e (Some (Some state)) rest')"
      using Cons.prems(3) head(1) assms(1) d \<open>rest = i # others\<close> by (auto simp: resume_delivery_def Let_def)
    have "list_all (\<lambda>(i, m). owed_message (S i) e state (set (t # ts)) m) sent'"
      using s'(3) by (auto simp: list_all_iff intro: owed_more)
    moreover have "list_all (\<lambda>(i, m). owed_message (S i) e state (set (t # ts)) m) sent"
      by (rule deltas_owed [OF d assms(1)])
    moreover have "owed_message (S i) e state (set (t # ts)) (state_message state t)"
      using head(2) assms(1) by (simp add: owed_message_def)
    ultimately show ?thesis
      using resumed s'(1,2) f(1,2) head(1) \<open>rest = i # others\<close> by (simp add: suspended_def)
  qed
qed

text \<open>
  C7. Everybody in the room hears of it. An event whose state can be read is handled to its end, and if sessions
  stand still exactly the members it is for hear of it, each once, in the order of the store: those who understand
  changes of membership get the change, all others the state of the room, the empty one once it is deleted.
\<close>

theorem every_member_hears_of_an_event:
  assumes "length local_sessions \<le> length ts"
  shows "\<exists>sent. handle_room_event S (Some state) now ts e local_sessions = (sent, None)
    \<and> map fst sent = filter (\<lambda>i. is_event_recipient (S i) e) local_sessions
    \<and> list_all (\<lambda>(i, message). owed_message (S i) e state (set (now # ts)) message) sent"
proof (cases "create_member_message e")
  case (Some message)
  obtain sent rest where d: "deliver_deltas S e message local_sessions = (sent, rest)" by fastforce
  obtain front where f: "local_sessions = front @ rest" "map fst sent = filter (\<lambda>i. is_event_recipient (S i) e) front"
    "rest \<noteq> [] \<longrightarrow> is_event_recipient (S (hd rest)) e \<and> \<not> supports_incremental_member_events (S (hd rest))"
    using deltas_split [OF d] by blast
  obtain others where m: "settle_delivery S (Some state) ts (suspended e None rest) = (others, None)"
    "map fst others = filter (\<lambda>i. is_event_recipient (S i) e) rest"
    "list_all (\<lambda>(i, m). owed_message (S i) e state (set ts) m) others"
    using settled_deltas [OF Some, of rest ts S None state] assms f(1,3) by auto
  have "list_all (\<lambda>(i, m). owed_message (S i) e state (set (now # ts)) m) others"
    using m(3) by (auto simp: list_all_iff intro: owed_more)
  moreover have "handle_room_event S (Some state) now ts e local_sessions = (sent @ others, None)"
    using m(1) d by (simp add: handle_room_event_def receive_room_event_def Some)
  moreover have "map fst (sent @ others) = filter (\<lambda>i. is_event_recipient (S i) e) local_sessions" using m(2) f(2) by (simp add: f(1))
  moreover have "list_all (\<lambda>(i, m). owed_message (S i) e state (set (now # ts)) m) sent" by (rule deltas_owed [OF d Some])
  ultimately show ?thesis by (intro exI [of _ "sent @ others"]) simp
next
  case None
  have same: "is_event_recipient session e = is_room_event_recipient session (room_of_event e)" for session
    using None by (simp add: is_event_recipient_def no_member_message)
  let ?rs = "filter (\<lambda>i. is_room_event_recipient (S i) (room_of_event e)) local_sessions"
  show ?thesis
  proof (cases "e = Room_Deleted (room_of_event e)")
    case True
    then show ?thesis
      using None by (auto simp: handle_room_event_def receive_room_event_def Let_def same list_all_iff owed_message_def comp_def)
  next
    case False
    show ?thesis
    proof (cases "?rs = []")
      case True
      then show ?thesis using None False by (simp add: handle_room_event_def receive_room_event_def suspended_def same)
    next
      case some: False
      then obtain t ts' where ts: "ts = t # ts'" using assms by (cases ts) auto
      have "resume_delivery S t (Some state) \<lparr> dl_event = e, dl_rest = ?rs, dl_loaded = None \<rparr>
          = (map (\<lambda>i. (i, state_message state t)) ?rs, None)"
        using None by (simp add: resume_delivery_def)
      then have "handle_room_event S (Some state) now ts e local_sessions = (map (\<lambda>i. (i, state_message state t)) ?rs, None)"
        using None False some by (simp add: handle_room_event_def receive_room_event_def suspended_def ts)
      then show ?thesis using None False ts by (auto simp: same list_all_iff owed_message_def comp_def)
    qed
  qed
qed

definition member_session :: "string \<Rightarrow> rat option \<Rightarrow> session" where
  "member_session i version = (empty_session i)\<lparr> s_room_code := Some ''ROOM01'', s_member_id := Some i,
     s_protocol_version := version, s_attached := True \<rparr>"

definition three_members :: "string \<Rightarrow> session" where
  "three_members i = (if i = ''a'' then member_session i (Some 2) else if i = ''b'' then member_session i None
     else if i = ''c'' then member_session i (Some 3) else empty_session i)"

theorem every_member_hears_of_an_event_witness:
  "\<exists>sent. handle_room_event three_members (Some (deleted_room_state ''ROOM01'')) 0 [1, 2, 3, 4]
      (Member_Joined ''ROOM01'' ''c'' ''Cleo'') [''a'', ''b'', ''c'', ''d''] = (sent, None)
    \<and> map fst sent = [''a'', ''b'']"
proof -
  let ?e = "Member_Joined ''ROOM01'' ''c'' ''Cleo''" let ?ids = "[''a'', ''b'', ''c'', ''d'']"
  have "length ?ids \<le> length [1, 2, 3, 4 :: rat]" by simp
  note handled = every_member_hears_of_an_event [OF this, of three_members "deleted_room_state ''ROOM01''" 0 ?e]
  have "filter (\<lambda>i. is_event_recipient (three_members i) ?e) ?ids = [''a'', ''b'']" by code_simp
  then show ?thesis using handled by (elim exE conjE) (intro exI conjI, assumption, simp)
qed

end
