(* ===== verification/Resync_Queue.thy ===== *)
theory Resync_Queue
  imports Prelude
begin

text \<open>
  \<open>server/src/pending-resync-queue.ts\<close> on \<open>retry-pacer.ts\<close>: at-least-once delivery of the
  full-state broadcasts that nothing else repeats. A record per room drives one publish at a
  time until the bus takes it; a bounded number of slots, handed over in order of arrival, paces
  the publishes of all rooms; \<open>stopRetrying\<close> ends it at shutdown.

  Each record is a coroutine, and \<open>pq_phase\<close> is where it is suspended; the code between two
  suspensions is one function here. What happens next (a request, an answer of the bus, a timer)
  is the environment's choice and one rule of \<open>queue_step\<close>. \<open>rq_log\<close> records the requests and
  the accepted publishes, each with the number of publishes started before it, and exists only to
  be spoken about. The pauses between two attempts are timers and have no length here, except
  \<open>delay_for\<close>, which is their schedule.
\<close>

subsection \<open>State\<close>

text \<open>
  \<open>Slot_Taken\<close> and \<open>Slot_Handed\<close> hold a slot and have not published yet: the first was free,
  the second came from a publish that finished. \<open>Attempting i\<close> waits for call \<open>i\<close> under the
  attempt's cap, \<open>Awaits_Call\<close> for a call that outlived it.
\<close>

datatype phase = Awaits_Slot | Slot_Taken | Slot_Handed | Attempting nat | Backing_Off | Awaits_Call

record pending_record =
  pq_pending :: bool
  pq_attempt :: nat
  pq_in_flight :: "nat option"
  pq_phase :: phase

datatype queue_log = Asked string nat | Accepted string nat

record resync_queue =
  rq_records :: "(string, pending_record) js_map"
  rq_active :: nat
  rq_waiters :: "string list"
  rq_stopped :: bool
  rq_calls :: "(nat, string) js_map"
  rq_next_call :: nat
  rq_log :: "queue_log list"

definition empty_queue :: resync_queue where
  "empty_queue = \<lparr> rq_records = [], rq_active = 0, rq_waiters = [], rq_stopped = False,
     rq_calls = [], rq_next_call = 0, rq_log = [] \<rparr>"

definition put_record :: "string \<Rightarrow> pending_record \<Rightarrow> resync_queue \<Rightarrow> resync_queue" where
  "put_record code r q = q\<lparr> rq_records := js_set code r (rq_records q) \<rparr>"

definition drop_record :: "string \<Rightarrow> resync_queue \<Rightarrow> resync_queue" where
  "drop_record code q = q\<lparr> rq_records := js_delete code (rq_records q) \<rparr>"

subsection \<open>Pacing\<close>

definition delay_for :: "rat \<Rightarrow> rat \<Rightarrow> nat \<Rightarrow> rat" where
  "delay_for initial_delay_ms max_delay_ms attempt = min (initial_delay_ms * 2 ^ (attempt - 1)) max_delay_ms"

text \<open>A slot that is handed over stays counted.\<close>

definition release_publish_slot :: "resync_queue \<Rightarrow> resync_queue" where
  "release_publish_slot q = (case rq_waiters q of
     [] \<Rightarrow> q\<lparr> rq_active := rq_active q - 1 \<rparr>
   | code # rest \<Rightarrow>
       (case js_get (rq_records q) code of
          None \<Rightarrow> q\<lparr> rq_waiters := rest \<rparr>
        | Some r \<Rightarrow> put_record code (r\<lparr> pq_phase := Slot_Handed \<rparr>) (q\<lparr> rq_waiters := rest \<rparr>)))"

text \<open>
  \<open>acquireSlot\<close> up to its first suspension. When the queue is stopping the publish is given up,
  the attempt fails, and the record ends.
\<close>

definition acquire_slot :: "nat \<Rightarrow> string \<Rightarrow> pending_record \<Rightarrow> resync_queue \<Rightarrow> resync_queue" where
  "acquire_slot limit code r q =
     (if rq_stopped q then drop_record code q
      else if rq_active q < limit
      then put_record code (r\<lparr> pq_phase := Slot_Taken \<rparr>) (q\<lparr> rq_active := rq_active q + 1 \<rparr>)
      else put_record code (r\<lparr> pq_phase := Awaits_Slot \<rparr>) (q\<lparr> rq_waiters := rq_waiters q @ [code] \<rparr>))"

subsection \<open>Driving a record\<close>

text \<open>The start of an attempt: no second publish of a room while one is unanswered.\<close>

definition start_attempt :: "nat \<Rightarrow> string \<Rightarrow> pending_record \<Rightarrow> resync_queue \<Rightarrow> resync_queue" where
  "start_attempt limit code r q =
     (if pq_in_flight r = None then acquire_slot limit code r q
      else if rq_stopped q then drop_record code q
      else put_record code (r\<lparr> pq_phase := Awaits_Call \<rparr>) q)"

text \<open>The head of the outer loop: a request that came meanwhile owes another publish.\<close>

definition drive_on :: "nat \<Rightarrow> string \<Rightarrow> pending_record \<Rightarrow> resync_queue \<Rightarrow> resync_queue" where
  "drive_on limit code r q =
     (if pq_pending r \<and> \<not> rq_stopped q
      then start_attempt limit code (r\<lparr> pq_pending := False, pq_attempt := 1 \<rparr>) q
      else drop_record code q)"

definition fail_attempt :: "string \<Rightarrow> pending_record \<Rightarrow> resync_queue \<Rightarrow> resync_queue" where
  "fail_attempt code r q =
     (if rq_stopped q then drop_record code q else put_record code (r\<lparr> pq_phase := Backing_Off \<rparr>) q)"

definition backoff_over :: "nat \<Rightarrow> string \<Rightarrow> pending_record \<Rightarrow> resync_queue \<Rightarrow> resync_queue" where
  "backoff_over limit code r q =
     (if rq_stopped q then drop_record code q
      else start_attempt limit code (r\<lparr> pq_attempt := pq_attempt r + 1 \<rparr>) q)"

definition publish_now :: "string \<Rightarrow> pending_record \<Rightarrow> resync_queue \<Rightarrow> resync_queue" where
  "publish_now code r q =
     (let i = rq_next_call q
      in put_record code (r\<lparr> pq_in_flight := Some i, pq_phase := Attempting i \<rparr>)
           (q\<lparr> rq_calls := js_set i code (rq_calls q), rq_next_call := i + 1 \<rparr>))"

text \<open>After a wait for its slot the record looks again whether the queue is stopping.\<close>

definition slot_granted :: "string \<Rightarrow> pending_record \<Rightarrow> resync_queue \<Rightarrow> resync_queue" where
  "slot_granted code r q =
     (if pq_phase r = Slot_Handed \<and> rq_stopped q then drop_record code (release_publish_slot q)
      else publish_now code r q)"

text \<open>The bus has answered call \<open>i\<close>: the record that waited for it resumes.\<close>

definition after_call :: "nat \<Rightarrow> nat \<Rightarrow> string \<Rightarrow> bool \<Rightarrow> resync_queue \<Rightarrow> resync_queue" where
  "after_call limit i code ok q = (case js_get (rq_records q) code of
           None \<Rightarrow> q
         | Some r \<Rightarrow>
             if pq_in_flight r \<noteq> Some i then q
             else
               let r' = r\<lparr> pq_in_flight := None \<rparr>
               in if pq_phase r = Attempting i
                  then (if ok then drive_on limit code r' q else fail_attempt code r' q)
                  else if pq_phase r = Awaits_Call then acquire_slot limit code r' q
                  else put_record code r' q)"

text \<open>Its slot goes on first.\<close>

definition call_settled :: "nat \<Rightarrow> nat \<Rightarrow> string \<Rightarrow> bool \<Rightarrow> resync_queue \<Rightarrow> resync_queue" where
  "call_settled limit i code ok q = after_call limit i code ok (release_publish_slot
     (q\<lparr> rq_calls := js_delete i (rq_calls q),
         rq_log := (if ok then rq_log q @ [Accepted code i] else rq_log q) \<rparr>))"

subsection \<open>The interface\<close>

definition request :: "nat \<Rightarrow> string \<Rightarrow> resync_queue \<Rightarrow> resync_queue" where
  "request limit code q0 =
     (let q = q0\<lparr> rq_log := rq_log q0 @ [Asked code (rq_next_call q0)] \<rparr>
      in case js_get (rq_records q) code of
           Some r \<Rightarrow> put_record code (r\<lparr> pq_pending := True \<rparr>) q
         | None \<Rightarrow> drive_on limit code
             \<lparr> pq_pending = True, pq_attempt = 0, pq_in_flight = None, pq_phase = Backing_Off \<rparr> q)"

text \<open>Whoever is parked on a slot, a pause or an unanswered call ends; a publish under way does not.\<close>

definition outlives_stop :: "phase \<Rightarrow> bool" where
  "outlives_stop p = (p \<noteq> Awaits_Slot \<and> p \<noteq> Backing_Off \<and> p \<noteq> Awaits_Call)"

definition stop_retrying :: "resync_queue \<Rightarrow> resync_queue" where
  "stop_retrying q = q\<lparr> rq_stopped := True, rq_waiters := [],
     rq_records := filter (\<lambda>(_, r). outlives_stop (pq_phase r)) (rq_records q) \<rparr>"

definition queue_size :: "resync_queue \<Rightarrow> nat" where
  "queue_size q = length (rq_records q)"

datatype queue_event =
    Ask string | Stop | Slot_Granted string | Call_Answered nat bool | Attempt_Timed_Out string | Backoff_Ended string

inductive queue_step :: "nat \<Rightarrow> resync_queue \<Rightarrow> queue_event \<Rightarrow> resync_queue \<Rightarrow> bool" for limit where
  asks: "queue_step limit q (Ask code) (request limit code q)"
| stops: "queue_step limit q Stop (stop_retrying q)"
| granted: "js_get (rq_records q) code = Some r \<Longrightarrow> pq_phase r = Slot_Taken \<or> pq_phase r = Slot_Handed \<Longrightarrow>
    queue_step limit q (Slot_Granted code) (slot_granted code r q)"
| answered: "js_get (rq_calls q) i = Some code \<Longrightarrow>
    queue_step limit q (Call_Answered i ok) (call_settled limit i code ok q)"
| timed_out: "js_get (rq_records q) code = Some r \<Longrightarrow> pq_phase r = Attempting i \<Longrightarrow>
    queue_step limit q (Attempt_Timed_Out code) (fail_attempt code r q)"
| backed_off: "js_get (rq_records q) code = Some r \<Longrightarrow> pq_phase r = Backing_Off \<Longrightarrow>
    queue_step limit q (Backoff_Ended code) (backoff_over limit code r q)"

inductive queue_run :: "nat \<Rightarrow> resync_queue \<Rightarrow> queue_event list \<Rightarrow> resync_queue \<Rightarrow> bool" for limit where
  stays: "queue_run limit q [] q"
| moves: "queue_run limit q es q' \<Longrightarrow> queue_step limit q' e q'' \<Longrightarrow> queue_run limit q (es @ [e]) q''"

inductive_cases queue_stepE: "queue_step limit q e q'"

subsection \<open>Accounting for slots and calls\<close>

definition holds_slot :: "pending_record \<Rightarrow> bool" where
  "holds_slot r = (pq_phase r = Slot_Taken \<or> pq_phase r = Slot_Handed)"

definition holders :: "resync_queue \<Rightarrow> string set" where
  "holders q = {c. \<exists>r. js_get (rq_records q) c = Some r \<and> holds_slot r}"

definition record_ok :: "resync_queue \<Rightarrow> string \<Rightarrow> pending_record \<Rightarrow> bool" where
  "record_ok q c r = ((\<forall>i. pq_in_flight r = Some i \<longrightarrow> js_get (rq_calls q) i = Some c)
     \<and> (\<forall>i. pq_phase r = Attempting i \<longrightarrow> pq_in_flight r = Some i)
     \<and> (pq_phase r = Awaits_Call \<longrightarrow> pq_in_flight r \<noteq> None)
     \<and> (holds_slot r \<or> pq_phase r = Awaits_Slot \<longrightarrow> pq_in_flight r = None))"

text \<open>
  \<open>k\<close> slots are counted beyond those held: one while a finished publish has not yet passed its
  slot on, otherwise none.
\<close>

definition slots_ok :: "nat \<Rightarrow> nat \<Rightarrow> resync_queue \<Rightarrow> bool" where
  "slots_ok k limit q = (rq_active q = card (dom (js_get (rq_calls q))) + card (holders q) + k \<and> rq_active q \<le> limit)"

definition waiters_ok :: "nat \<Rightarrow> resync_queue \<Rightarrow> bool" where
  "waiters_ok limit q = (distinct (rq_waiters q)
     \<and> (rq_waiters q \<noteq> [] \<longrightarrow> rq_active q = limit \<and> \<not> rq_stopped q)
     \<and> (\<forall>c. c \<in> set (rq_waiters q) \<longleftrightarrow> (\<exists>r. js_get (rq_records q) c = Some r \<and> pq_phase r = Awaits_Slot)))"

definition calls_ok :: "resync_queue \<Rightarrow> bool" where
  "calls_ok q = (\<forall>i c. js_get (rq_calls q) i = Some c \<longrightarrow> i < rq_next_call q
     \<and> (js_get (rq_records q) c = None \<longrightarrow> rq_stopped q)
     \<and> (\<forall>r. js_get (rq_records q) c = Some r \<longrightarrow> pq_in_flight r = Some i)
     \<and> (\<forall>j. js_get (rq_calls q) j = Some c \<longrightarrow> j = i))"

definition records_ok :: "resync_queue \<Rightarrow> bool" where
  "records_ok q = (\<forall>c r. js_get (rq_records q) c = Some r \<longrightarrow>
     record_ok q c r \<and> (rq_stopped q \<longrightarrow> outlives_stop (pq_phase r)))"

definition queue_ok :: "nat \<Rightarrow> nat \<Rightarrow> resync_queue \<Rightarrow> bool" where
  "queue_ok k limit q = (slots_ok k limit q \<and> waiters_ok limit q \<and> calls_ok q \<and> records_ok q)"

lemma queue_okI:
  "slots_ok k limit q \<Longrightarrow> waiters_ok limit q \<Longrightarrow> calls_ok q \<Longrightarrow> records_ok q \<Longrightarrow> queue_ok k limit q"
  by (simp add: queue_ok_def)

lemma queue_okD:
  "queue_ok k limit q \<Longrightarrow> slots_ok k limit q" "queue_ok k limit q \<Longrightarrow> waiters_ok limit q"
  "queue_ok k limit q \<Longrightarrow> calls_ok q" "queue_ok k limit q \<Longrightarrow> records_ok q"
  by (simp_all add: queue_ok_def)

lemma finite_holders [simp]: "finite (holders q)"
proof -
  have "holders q \<subseteq> dom (js_get (rq_records q))" by (auto simp: holders_def)
  then show ?thesis by (rule finite_subset) (rule finite_dom_map_of)
qed

lemma finite_calls [simp]: "finite (dom (js_get m))"
  by (rule finite_dom_map_of)

lemma put_frame [simp]:
  "js_get (rq_records (put_record c r q)) d = (if d = c then Some r else js_get (rq_records q) d)"
  "rq_active (put_record c r q) = rq_active q" "rq_waiters (put_record c r q) = rq_waiters q"
  "rq_stopped (put_record c r q) = rq_stopped q" "rq_calls (put_record c r q) = rq_calls q"
  "rq_next_call (put_record c r q) = rq_next_call q" "rq_log (put_record c r q) = rq_log q"
  by (simp_all add: put_record_def)

lemma drop_frame [simp]:
  "js_get (rq_records (drop_record c q)) d = (if d = c then None else js_get (rq_records q) d)"
  "rq_active (drop_record c q) = rq_active q" "rq_waiters (drop_record c q) = rq_waiters q"
  "rq_stopped (drop_record c q) = rq_stopped q" "rq_calls (drop_record c q) = rq_calls q"
  "rq_next_call (drop_record c q) = rq_next_call q" "rq_log (drop_record c q) = rq_log q"
  by (simp_all add: drop_record_def)

lemma holders_put [simp]:
  "holders (put_record c r q) = (if holds_slot r then insert c (holders q) else holders q - {c})"
  by (auto simp: holders_def)

lemma holders_drop [simp]: "holders (drop_record c q) = holders q - {c}"
  by (auto simp: holders_def)

lemma holders_frame [simp]:
  "holders (q\<lparr> rq_active := n \<rparr>) = holders q" "holders (q\<lparr> rq_waiters := ws \<rparr>) = holders q"
  "holders (q\<lparr> rq_calls := cs \<rparr>) = holders q" "holders (q\<lparr> rq_next_call := m \<rparr>) = holders q"
  "holders (q\<lparr> rq_log := l \<rparr>) = holders q"
  by (simp_all add: holders_def)

lemma queue_ok_log [simp]: "queue_ok k limit (q\<lparr> rq_log := l \<rparr>) = queue_ok k limit q"
  by (simp add: queue_ok_def slots_ok_def waiters_ok_def calls_ok_def records_ok_def record_ok_def)

lemma empty_queue_ok: "queue_ok 0 limit empty_queue"
  by (simp add: queue_ok_def slots_ok_def waiters_ok_def calls_ok_def records_ok_def empty_queue_def holders_def)

text \<open>A room that no slot, waiter or call speaks of.\<close>

definition idle :: "string \<Rightarrow> resync_queue \<Rightarrow> bool" where
  "idle c q = (c \<notin> set (rq_waiters q) \<and> c \<notin> holders q \<and> (\<forall>i. js_get (rq_calls q) i \<noteq> Some c))"

lemma drop_ok:
  assumes "queue_ok k limit q" and "c \<notin> set (rq_waiters q)" and "c \<notin> holders q"
    and "rq_stopped q \<or> (\<forall>i. js_get (rq_calls q) i \<noteq> Some c)"
  shows "queue_ok k limit (drop_record c q)"
proof (rule queue_okI)
  note ok = queue_okD [OF assms(1)]
  show "slots_ok k limit (drop_record c q)" using ok(1) assms(3) by (simp add: slots_ok_def)
  show "waiters_ok limit (drop_record c q)" using ok(2) assms(2) by (auto simp: waiters_ok_def)
  show "calls_ok (drop_record c q)" using ok(3) assms(4) by (auto simp: calls_ok_def)
  show "records_ok (drop_record c q)" using ok(4) by (auto simp: records_ok_def record_ok_def)
qed

text \<open>A record of an idle room may change as long as it neither holds a slot nor waits for one.\<close>

lemma put_ok:
  assumes "queue_ok k limit q" and "c \<notin> set (rq_waiters q)" and "c \<notin> holders q"
    and "\<not> holds_slot r" and "pq_phase r \<noteq> Awaits_Slot" and "record_ok q c r"
    and "rq_stopped q \<longrightarrow> outlives_stop (pq_phase r)"
    and "\<And>i. js_get (rq_calls q) i = Some c \<Longrightarrow> pq_in_flight r = Some i"
  shows "queue_ok k limit (put_record c r q)"
proof (rule queue_okI)
  note ok = queue_okD [OF assms(1)]
  show "slots_ok k limit (put_record c r q)" using ok(1) assms(3,4) by (simp add: slots_ok_def)
  show "waiters_ok limit (put_record c r q)" using ok(2) assms(2,5) by (auto simp: waiters_ok_def)
  show "calls_ok (put_record c r q)" using ok(3) assms(8) by (auto simp: calls_ok_def)
  show "records_ok (put_record c r q)" using ok(4) assms(6,7) by (auto simp: records_ok_def record_ok_def)
qed

lemma acquire_ok:
  assumes "queue_ok 0 limit q" and "idle c q" and "pq_in_flight r = None"
  shows "queue_ok 0 limit (acquire_slot limit c r q)"
proof -
  note ok = queue_okD [OF assms(1)]
  have apart: "c \<notin> set (rq_waiters q)" "c \<notin> holders q" "\<And>i. js_get (rq_calls q) i \<noteq> Some c"
    using assms(2) by (simp_all add: idle_def)
  consider (stopped) "rq_stopped q" | (free) "\<not> rq_stopped q" "rq_active q < limit"
    | (full) "\<not> rq_stopped q" "\<not> rq_active q < limit" by blast
  then show ?thesis
  proof cases
    case stopped
    then show ?thesis using assms(1) apart by (simp add: acquire_slot_def drop_ok)
  next
    case free
    let ?q = "put_record c (r\<lparr> pq_phase := Slot_Taken \<rparr>) (q\<lparr> rq_active := rq_active q + 1 \<rparr>)"
    have none: "rq_waiters q = []" using ok(2) free by (auto simp: waiters_ok_def)
    have "queue_ok 0 limit ?q"
    proof (rule queue_okI)
      show "slots_ok 0 limit ?q" using ok(1) free apart(2) by (simp add: slots_ok_def holds_slot_def)
      show "waiters_ok limit ?q" using ok(2) none by (auto simp: waiters_ok_def)
      show "calls_ok ?q" using ok(3) apart(3) by (auto simp: calls_ok_def)
      show "records_ok ?q" using ok(4) assms(3) free by (auto simp: records_ok_def record_ok_def)
    qed
    then show ?thesis using free by (simp add: acquire_slot_def)
  next
    case full
    let ?q = "put_record c (r\<lparr> pq_phase := Awaits_Slot \<rparr>) (q\<lparr> rq_waiters := rq_waiters q @ [c] \<rparr>)"
    have "queue_ok 0 limit ?q"
    proof (rule queue_okI)
      show "slots_ok 0 limit ?q" using ok(1) apart(2) by (simp add: slots_ok_def holds_slot_def)
      show "waiters_ok limit ?q"
        using ok(1,2) apart(1) full by (auto simp: waiters_ok_def slots_ok_def)
      show "calls_ok ?q" using ok(3) apart(3) by (auto simp: calls_ok_def)
      show "records_ok ?q" using ok(4) assms(3) full by (auto simp: records_ok_def record_ok_def)
    qed
    then show ?thesis using full by (simp add: acquire_slot_def)
  qed
qed

lemma start_ok:
  assumes "queue_ok 0 limit q" and "c \<notin> set (rq_waiters q)" and "c \<notin> holders q"
    and "\<And>i. pq_in_flight r = Some i \<Longrightarrow> js_get (rq_calls q) i = Some c"
    and "\<And>i. js_get (rq_calls q) i = Some c \<Longrightarrow> pq_in_flight r = Some i"
  shows "queue_ok 0 limit (start_attempt limit c r q)"
proof (cases "pq_in_flight r")
  case None
  then have "idle c q" using assms(2,3,5) by (auto simp: idle_def)
  then show ?thesis using assms(1) None by (simp add: start_attempt_def acquire_ok)
next
  case (Some i)
  show ?thesis
  proof (cases "rq_stopped q")
    case True
    then have "queue_ok 0 limit (drop_record c q)" using assms(1,2,3) by (intro drop_ok) simp_all
    then show ?thesis using Some True by (simp add: start_attempt_def)
  next
    case False
    have "queue_ok 0 limit (put_record c (r\<lparr> pq_phase := Awaits_Call \<rparr>) q)"
    proof (rule put_ok [OF assms(1,2,3)])
      show "record_ok q c (r\<lparr> pq_phase := Awaits_Call \<rparr>)"
        using assms(4) Some by (simp add: record_ok_def holds_slot_def)
      show "pq_in_flight (r\<lparr> pq_phase := Awaits_Call \<rparr>) = Some j" if "js_get (rq_calls q) j = Some c" for j
        using assms(5) [OF that] by simp
    qed (simp_all add: holds_slot_def False)
    then show ?thesis using Some False by (simp add: start_attempt_def)
  qed
qed

lemma drive_ok:
  assumes "queue_ok 0 limit q" and "idle c q" and "pq_in_flight r = None"
  shows "queue_ok 0 limit (drive_on limit c r q)"
proof (cases "pq_pending r \<and> \<not> rq_stopped q")
  case True
  have "queue_ok 0 limit (start_attempt limit c (r\<lparr> pq_pending := False, pq_attempt := 1 \<rparr>) q)"
    by (rule start_ok) (use assms in \<open>auto simp: idle_def\<close>)
  then show ?thesis using True by (simp add: drive_on_def)
next
  case False
  then show ?thesis using assms by (auto simp: drive_on_def idle_def drop_ok)
qed

text \<open>A finished publish passes its slot to the first waiter or gives it back.\<close>

lemma release_ok:
  assumes "queue_ok 1 limit q"
  shows "queue_ok 0 limit (release_publish_slot q)"
proof (cases "rq_waiters q")
  case Nil
  note ok = queue_okD [OF assms]
  have "queue_ok 0 limit (q\<lparr> rq_active := rq_active q - 1 \<rparr>)"
  proof (rule queue_okI)
    show "slots_ok 0 limit (q\<lparr> rq_active := rq_active q - 1 \<rparr>)" using ok(1) by (simp add: slots_ok_def)
    show "waiters_ok limit (q\<lparr> rq_active := rq_active q - 1 \<rparr>)" using ok(2) Nil by (simp add: waiters_ok_def)
    show "calls_ok (q\<lparr> rq_active := rq_active q - 1 \<rparr>)" using ok(3) by (simp add: calls_ok_def)
    show "records_ok (q\<lparr> rq_active := rq_active q - 1 \<rparr>)" using ok(4) by (simp add: records_ok_def record_ok_def)
  qed
  then show ?thesis using Nil by (simp add: release_publish_slot_def)
next
  case (Cons c rest)
  note ok = queue_okD [OF assms]
  obtain r where r: "js_get (rq_records q) c = Some r" "pq_phase r = Awaits_Slot"
    using ok(2) Cons by (auto simp: waiters_ok_def)
  have rok: "record_ok q c r" "\<not> rq_stopped q" "rq_active q = limit"
    using ok(2,4) r Cons by (auto simp: records_ok_def waiters_ok_def)
  have free: "c \<notin> holders q" using r by (simp add: holders_def holds_slot_def)
  let ?q = "put_record c (r\<lparr> pq_phase := Slot_Handed \<rparr>) (q\<lparr> rq_waiters := rest \<rparr>)"
  have "queue_ok 0 limit ?q"
  proof (rule queue_okI)
    show "slots_ok 0 limit ?q" using ok(1) free by (simp add: slots_ok_def holds_slot_def)
    show "waiters_ok limit ?q" using ok(2) Cons r rok by (auto simp: waiters_ok_def)
    show "calls_ok ?q" using ok(3) r by (auto simp: calls_ok_def)
    show "records_ok ?q" using ok(4) rok r by (auto simp: records_ok_def record_ok_def holds_slot_def)
  qed
  then show ?thesis using Cons r by (simp add: release_publish_slot_def)
qed

lemma release_frame [simp]:
  "rq_calls (release_publish_slot q) = rq_calls q" "rq_stopped (release_publish_slot q) = rq_stopped q"
  "rq_log (release_publish_slot q) = rq_log q" "rq_next_call (release_publish_slot q) = rq_next_call q"
  by (simp_all add: release_publish_slot_def split: list.split option.split)

text \<open>It only touches a record that waits for a slot.\<close>

lemma release_other:
  assumes "queue_ok k limit q" and "\<not> (\<exists>r. js_get (rq_records q) c = Some r \<and> pq_phase r = Awaits_Slot)"
  shows "js_get (rq_records (release_publish_slot q)) c = js_get (rq_records q) c"
    and "c \<notin> set (rq_waiters (release_publish_slot q))"
    and "c \<in> holders (release_publish_slot q) \<longleftrightarrow> c \<in> holders q"
proof -
  have "c \<notin> set (rq_waiters q)" using queue_okD(2) [OF assms(1)] assms(2) by (simp add: waiters_ok_def)
  then show same: "js_get (rq_records (release_publish_slot q)) c = js_get (rq_records q) c"
    "c \<notin> set (rq_waiters (release_publish_slot q))"
    by (auto simp: release_publish_slot_def split: list.split option.split)
  show "c \<in> holders (release_publish_slot q) \<longleftrightarrow> c \<in> holders q" by (simp add: holders_def same(1))
qed

text \<open>What the invariant looks at.\<close>

definition same_queue :: "resync_queue \<Rightarrow> resync_queue \<Rightarrow> bool" where
  "same_queue q q' = (js_get (rq_records q') = js_get (rq_records q) \<and> rq_active q' = rq_active q
     \<and> rq_waiters q' = rq_waiters q \<and> rq_stopped q' = rq_stopped q \<and> rq_calls q' = rq_calls q
     \<and> rq_next_call q' = rq_next_call q \<and> rq_log q' = rq_log q)"

lemma same_queue_ok: "same_queue q q' \<Longrightarrow> queue_ok k limit q' = queue_ok k limit q"
  by (simp add: same_queue_def queue_ok_def slots_ok_def waiters_ok_def calls_ok_def records_ok_def
      record_ok_def holders_def)

text \<open>Two queues that agree but for one room's record agree once that record is rewritten.\<close>

definition same_but :: "string \<Rightarrow> resync_queue \<Rightarrow> resync_queue \<Rightarrow> bool" where
  "same_but c q q' = same_queue (drop_record c q) (drop_record c q')"

lemma same_but_steps:
  assumes "same_but c q q'"
  shows "same_queue (put_record c r q) (put_record c r q')" "same_queue (drop_record c q) (drop_record c q')"
    "same_queue (acquire_slot limit c r q) (acquire_slot limit c r q')"
    "same_queue (start_attempt limit c r q) (start_attempt limit c r q')"
    "same_queue (drive_on limit c r q) (drive_on limit c r q')"
    "same_queue (fail_attempt c r q) (fail_attempt c r q')"
proof -
  have eq: "js_get (rq_records q') d = js_get (rq_records q) d" if "d \<noteq> c" for d
    using assms that by (auto simp: same_but_def same_queue_def fun_eq_iff split: if_splits dest!: spec [of _ d])
  have rest: "rq_active q' = rq_active q" "rq_waiters q' = rq_waiters q" "rq_stopped q' = rq_stopped q"
    "rq_calls q' = rq_calls q" "rq_next_call q' = rq_next_call q" "rq_log q' = rq_log q"
    using assms by (simp_all add: same_but_def same_queue_def)
  show put: "same_queue (put_record c r q) (put_record c r q')" for r
    using eq rest by (simp add: same_queue_def fun_eq_iff)
  show drop: "same_queue (drop_record c q) (drop_record c q')"
    using eq rest by (simp add: same_queue_def fun_eq_iff)
  show acquire: "same_queue (acquire_slot limit c r q) (acquire_slot limit c r q')" for r
    using eq rest by (simp add: acquire_slot_def same_queue_def fun_eq_iff)
  show start: "same_queue (start_attempt limit c r q) (start_attempt limit c r q')" for r
    using acquire put drop rest by (simp add: start_attempt_def)
  show "same_queue (drive_on limit c r q) (drive_on limit c r q')"
    using start drop rest by (simp add: drive_on_def)
  show "same_queue (fail_attempt c r q) (fail_attempt c r q')"
    using put drop rest by (simp add: fail_attempt_def)
qed

lemma call_removed:
  assumes "queue_ok 0 limit q" and "js_get (rq_calls q) i = Some c"
  shows "queue_ok 1 limit (drop_record c (q\<lparr> rq_calls := js_delete i (rq_calls q) \<rparr>))"
    and "c \<notin> set (rq_waiters q)" "c \<notin> holders q"
proof -
  note ok = queue_okD [OF assms(1)]
  have flight: "pq_in_flight r = Some i" if "js_get (rq_records q) c = Some r" for r
    using ok(3) assms(2) that by (simp add: calls_ok_def)
  show waits: "c \<notin> set (rq_waiters q)" and holds: "c \<notin> holders q"
    using ok(2,4) flight by (auto simp: waiters_ok_def records_ok_def record_ok_def holders_def)
  let ?q = "drop_record c (q\<lparr> rq_calls := js_delete i (rq_calls q) \<rparr>)"
  have "dom (js_get (rq_calls ?q)) = dom (js_get (rq_calls q)) - {i}" by (auto split: if_splits)
  moreover have "i \<in> dom (js_get (rq_calls q))" using assms(2) by auto
  ultimately have card: "card (dom (js_get (rq_calls q))) = Suc (card (dom (js_get (rq_calls ?q))))"
    by (metis card_Suc_Diff1 finite_calls)
  show "queue_ok 1 limit ?q"
  proof (rule queue_okI)
    show "slots_ok 1 limit ?q" using ok(1) card holds by (simp add: slots_ok_def)
    show "waiters_ok limit ?q" using ok(2) waits by (auto simp: waiters_ok_def)
    show "calls_ok ?q" using ok(3) assms(2) by (auto simp: calls_ok_def)
    have "pq_in_flight r \<noteq> Some i" if "js_get (rq_records q) d = Some r" "d \<noteq> c" for d r
      using ok(4) that assms(2) by (force simp: records_ok_def record_ok_def)
    then show "records_ok ?q" using ok(4) by (auto simp: records_ok_def record_ok_def)
  qed
qed

lemma settled_ok:
  assumes "queue_ok 0 limit q" and "js_get (rq_calls q) i = Some c"
  shows "queue_ok 0 limit (call_settled limit i c ok q)"
proof -
  define log where "log = (if ok then rq_log q @ [Accepted c i] else rq_log q)"
  define q1 where "q1 = q\<lparr> rq_calls := js_delete i (rq_calls q), rq_log := log \<rparr>"
  note removed = call_removed [OF assms]
  have base1: "queue_ok 1 limit (drop_record c q1)"
  proof -
    have "drop_record c q1 = (drop_record c (q\<lparr> rq_calls := js_delete i (rq_calls q) \<rparr>))\<lparr> rq_log := log \<rparr>"
      by (simp add: q1_def drop_record_def)
    then show ?thesis using removed(1) by simp
  qed
  let ?base = "release_publish_slot (drop_record c q1)" and ?q = "release_publish_slot q1"
  have base: "queue_ok 0 limit ?base" using base1 by (rule release_ok)
  have same: "same_but c ?base ?q"
    using removed(2)
    by (auto simp: same_but_def same_queue_def fun_eq_iff release_publish_slot_def q1_def
        split: list.split option.split)
  have out: "c \<notin> set (rq_waiters ?base)" "c \<notin> holders ?base"
    using release_other(2,3) [OF base1, of c] by simp_all
  have "js_get (rq_calls ?base) j \<noteq> Some c" for j
    using queue_okD(3) [OF assms(1)] assms(2) by (auto simp: calls_ok_def q1_def)
  then have idle: "idle c ?base" using out by (simp add: idle_def)
  have rec: "js_get (rq_records ?q) c = js_get (rq_records q) c"
    using removed(2) by (auto simp: release_publish_slot_def q1_def split: list.split option.split)
  have result: "call_settled limit i c ok q = (case js_get (rq_records ?q) c of
           None \<Rightarrow> ?q
         | Some r \<Rightarrow>
             if pq_in_flight r \<noteq> Some i then ?q
             else let r' = r\<lparr> pq_in_flight := None \<rparr>
               in if pq_phase r = Attempting i
                  then (if ok then drive_on limit c r' ?q else fail_attempt c r' ?q)
                  else if pq_phase r = Awaits_Call then acquire_slot limit c r' ?q
                  else put_record c r' ?q)"
    unfolding call_settled_def after_call_def q1_def log_def Let_def by (rule refl)
  show ?thesis
  proof (cases "js_get (rq_records q) c")
    case None
    then have "same_queue (drop_record c ?base) ?q"
      using same rec by (simp add: same_but_def same_queue_def fun_eq_iff) metis
    moreover have "queue_ok 0 limit (drop_record c ?base)"
      using base out idle by (intro drop_ok) (auto simp: idle_def)
    ultimately show ?thesis using None rec result same_queue_ok by auto
  next
    case (Some r)
    let ?r = "r\<lparr> pq_in_flight := None \<rparr>"
    have flight: "pq_in_flight r = Some i"
      using queue_okD(3) [OF assms(1)] assms(2) Some by (simp add: calls_ok_def)
    have rok: "record_ok q c r" "rq_stopped q \<longrightarrow> outlives_stop (pq_phase r)"
      using queue_okD(4) [OF assms(1)] Some by (auto simp: records_ok_def)
    have phase: "\<not> holds_slot r" "pq_phase r \<noteq> Awaits_Slot" using rok(1) flight by (auto simp: record_ok_def)
    note steps = same_but_steps [OF same]
    have fine: "queue_ok 0 limit (drive_on limit c ?r ?base)" "queue_ok 0 limit (acquire_slot limit c ?r ?base)"
      using base idle by (simp_all add: drive_ok acquire_ok)
    have put: "queue_ok 0 limit (put_record c s ?base)"
      if "pq_in_flight s = None" "\<not> holds_slot s" "pq_phase s \<noteq> Awaits_Slot" "pq_phase s \<noteq> Awaits_Call"
        "\<forall>j. pq_phase s \<noteq> Attempting j" "rq_stopped q \<longrightarrow> outlives_stop (pq_phase s)" for s
      using base out idle that
      by (intro put_ok) (auto simp: record_ok_def idle_def q1_def)
    have fail: "queue_ok 0 limit (fail_attempt c ?r ?base)"
      using put [of "?r\<lparr> pq_phase := Backing_Off \<rparr>"] base out idle
      by (auto simp: fail_attempt_def holds_slot_def q1_def idle_def intro!: drop_ok)
    have "queue_ok 0 limit (put_record c ?r ?base)"
      if "pq_phase r \<noteq> Attempting i" "pq_phase r \<noteq> Awaits_Call"
      using that phase rok flight by (intro put) (auto simp: holds_slot_def record_ok_def)
    then show ?thesis
      using Some rec flight fine fail same_queue_ok [OF steps(5)] same_queue_ok [OF steps(3)]
        same_queue_ok [OF steps(6)] same_queue_ok [OF steps(1)]
      by (simp add: result Let_def)
  qed
qed


lemma publish_ok:
  assumes "queue_ok 0 limit q" and "js_get (rq_records q) c = Some r" and "holds_slot r"
  shows "queue_ok 0 limit (publish_now c r q)"
proof (rule queue_okI)
  note ok = queue_okD [OF assms(1)]
  have rok: "record_ok q c r" using ok(4) assms(2) by (simp add: records_ok_def)
  have none: "js_get (rq_calls q) i \<noteq> Some c" for i
    using ok(3) rok assms by (auto simp: calls_ok_def record_ok_def)
  have new: "rq_next_call q \<notin> dom (js_get (rq_calls q))" using ok(3) by (auto simp: calls_ok_def)
  have holds: "c \<in> holders q" using assms by (simp add: holders_def)
  let ?q = "publish_now c r q"
  have calls: "dom (js_get (rq_calls ?q)) = insert (rq_next_call q) (dom (js_get (rq_calls q)))"
    by (auto simp: publish_now_def Let_def split: if_splits)
  have held: "holders ?q = holders q - {c}" by (simp add: publish_now_def Let_def holds_slot_def)
  have "card (holders q) = Suc (card (holders ?q))" using holds held by (metis card_Suc_Diff1 finite_holders)
  moreover have "card (dom (js_get (rq_calls ?q))) = Suc (card (dom (js_get (rq_calls q))))"
    using calls new by simp
  moreover have "rq_active ?q = rq_active q" by (simp add: publish_now_def Let_def)
  ultimately show "slots_ok 0 limit ?q" using ok(1) by (simp add: slots_ok_def)
  show "waiters_ok limit ?q" using ok(2) assms(2,3) by (auto simp: waiters_ok_def publish_now_def Let_def holds_slot_def)
  show "calls_ok ?q" using ok(3) none by (auto simp: calls_ok_def publish_now_def Let_def less_Suc_eq)
  have "js_get (rq_calls q) i = Some d \<Longrightarrow> i \<noteq> rq_next_call q" for i d using new by auto
  then show "records_ok ?q"
    using ok(4) by (auto simp: records_ok_def record_ok_def publish_now_def Let_def holds_slot_def outlives_stop_def)
qed

lemma granted_ok:
  assumes "queue_ok 0 limit q" and "js_get (rq_records q) c = Some r" and "holds_slot r"
  shows "queue_ok 0 limit (slot_granted c r q)"
proof (cases "pq_phase r = Slot_Handed \<and> rq_stopped q")
  case False
  then show ?thesis using assms by (simp only: slot_granted_def if_False publish_ok)
next
  case True
  note ok = queue_okD [OF assms(1)]
  have none: "rq_waiters q = []" using ok(2) True by (auto simp: waiters_ok_def)
  have "c \<in> holders q" using assms by (simp add: holders_def)
  then have card: "card (holders q) = Suc (card (holders q - {c}))" by (metis card_Suc_Diff1 finite_holders)
  have "queue_ok 1 limit (drop_record c q)"
  proof (rule queue_okI)
    show "slots_ok 1 limit (drop_record c q)" using ok(1) card by (simp add: slots_ok_def)
    show "waiters_ok limit (drop_record c q)" using ok(2) assms(2,3) none by (auto simp: waiters_ok_def holds_slot_def)
    show "calls_ok (drop_record c q)" using ok(3) True by (auto simp: calls_ok_def)
    show "records_ok (drop_record c q)" using ok(4) by (auto simp: records_ok_def record_ok_def)
  qed
  then have "queue_ok 0 limit (release_publish_slot (drop_record c q))" by (rule release_ok)
  moreover have "release_publish_slot (drop_record c q) = drop_record c (release_publish_slot q)"
    using none by (simp add: release_publish_slot_def drop_record_def)
  ultimately show ?thesis using True by (simp add: slot_granted_def)
qed

lemma unslotted:
  assumes "queue_ok k limit q" and "js_get (rq_records q) c = Some r"
    and "\<not> holds_slot r" and "pq_phase r \<noteq> Awaits_Slot"
  shows "c \<notin> set (rq_waiters q)" "c \<notin> holders q"
    "pq_in_flight r = Some i \<Longrightarrow> js_get (rq_calls q) i = Some c"
    "js_get (rq_calls q) i = Some c \<Longrightarrow> pq_in_flight r = Some i"
proof -
  note ok = queue_okD(2-4) [OF assms(1)]
  show "c \<notin> set (rq_waiters q)" using ok(1) assms(2,4) by (simp add: waiters_ok_def)
  show "c \<notin> holders q" using assms(2,3) by (simp add: holders_def)
  show "js_get (rq_calls q) i = Some c" if "pq_in_flight r = Some i"
    using ok(3) assms(2) that by (simp add: records_ok_def record_ok_def)
  show "pq_in_flight r = Some i" if "js_get (rq_calls q) i = Some c"
    using ok(2) assms(2) that by (simp add: calls_ok_def)
qed

lemma timed_out_ok:
  assumes "queue_ok 0 limit q" and "js_get (rq_records q) c = Some r" and "pq_phase r = Attempting i"
  shows "queue_ok 0 limit (fail_attempt c r q)"
proof -
  have "\<not> holds_slot r" "pq_phase r \<noteq> Awaits_Slot" using assms(3) by (simp_all add: holds_slot_def)
  note apart = unslotted [OF assms(1,2) this]
  show ?thesis
  proof (cases "rq_stopped q")
    case True
    then show ?thesis using drop_ok [OF assms(1) apart(1,2)] by (simp add: fail_attempt_def)
  next
    case False
    have "queue_ok 0 limit (put_record c (r\<lparr> pq_phase := Backing_Off \<rparr>) q)"
    proof (rule put_ok [OF assms(1) apart(1,2)])
      show "record_ok q c (r\<lparr> pq_phase := Backing_Off \<rparr>)" using apart(3) by (simp add: record_ok_def holds_slot_def)
      show "pq_in_flight (r\<lparr> pq_phase := Backing_Off \<rparr>) = Some j" if "js_get (rq_calls q) j = Some c" for j
        using apart(4) [OF that] by simp
    qed (simp_all add: holds_slot_def False)
    then show ?thesis using False by (simp add: fail_attempt_def)
  qed
qed

lemma backoff_ok:
  assumes "queue_ok 0 limit q" and "js_get (rq_records q) c = Some r" and "pq_phase r = Backing_Off"
  shows "queue_ok 0 limit (backoff_over limit c r q)"
proof -
  have "\<not> holds_slot r" "pq_phase r \<noteq> Awaits_Slot" using assms(3) by (simp_all add: holds_slot_def)
  note apart = unslotted [OF assms(1,2) this]
  have "\<not> rq_stopped q" using queue_okD(4) [OF assms(1)] assms(2,3) by (auto simp: records_ok_def outlives_stop_def)
  moreover have "queue_ok 0 limit (start_attempt limit c (r\<lparr> pq_attempt := n \<rparr>) q)" for n
  proof (rule start_ok [OF assms(1) apart(1,2)])
    show "js_get (rq_calls q) j = Some c" if "pq_in_flight (r\<lparr> pq_attempt := n \<rparr>) = Some j" for j
      using apart(3) that by simp
    show "pq_in_flight (r\<lparr> pq_attempt := n \<rparr>) = Some j" if "js_get (rq_calls q) j = Some c" for j
      using apart(4) [OF that] by simp
  qed
  ultimately show ?thesis by (simp add: backoff_over_def)
qed

lemma request_ok:
  assumes "queue_ok 0 limit q" shows "queue_ok 0 limit (request limit c q)"
proof -
  let ?q = "q\<lparr> rq_log := rq_log q @ [Asked c (rq_next_call q)] \<rparr>"
  note ok = queue_okD [OF assms]
  show ?thesis
  proof (cases "js_get (rq_records q) c")
    case None
    have no_call: "rq_stopped q \<or> (\<forall>i. js_get (rq_calls q) i \<noteq> Some c)"
      using ok(3) None by (auto simp: calls_ok_def)
    have out: "c \<notin> set (rq_waiters q)" "c \<notin> holders q" using ok(2) None by (auto simp: waiters_ok_def holders_def)
    have "queue_ok 0 limit (drop_record c ?q)" using assms out no_call by (intro drop_ok) (simp_all add: holders_def)
    moreover have "queue_ok 0 limit (drive_on limit c s ?q)" if "\<not> rq_stopped q" "pq_in_flight s = None" for s
      using assms out no_call that by (intro drive_ok) (simp_all add: idle_def)
    ultimately show ?thesis
      using None by (cases "rq_stopped q") (simp_all add: request_def Let_def, simp add: drive_on_def)
  next
    case (Some r)
    have same: "holders (put_record c (r\<lparr> pq_pending := True \<rparr>) ?q) = holders q"
      using Some by (auto simp: holders_def holds_slot_def)
    have "queue_ok 0 limit (put_record c (r\<lparr> pq_pending := True \<rparr>) ?q)"
    proof (rule queue_okI)
      show "slots_ok 0 limit (put_record c (r\<lparr> pq_pending := True \<rparr>) ?q)" unfolding slots_ok_def same using ok(1) by (simp add: slots_ok_def)
      show "waiters_ok limit (put_record c (r\<lparr> pq_pending := True \<rparr>) ?q)" using ok(2) Some by (auto simp: waiters_ok_def)
      show "calls_ok (put_record c (r\<lparr> pq_pending := True \<rparr>) ?q)" using ok(3) Some by (auto simp: calls_ok_def)
      show "records_ok (put_record c (r\<lparr> pq_pending := True \<rparr>) ?q)"
        using ok(4) Some by (auto simp: records_ok_def record_ok_def holds_slot_def)
    qed
    then show ?thesis using Some by (simp add: request_def Let_def)
  qed
qed

subsection \<open>Every room has one record\<close>

definition well_keyed :: "resync_queue \<Rightarrow> bool" where
  "well_keyed q = (js_wf (rq_records q) \<and> js_wf (rq_calls q))"

lemma well_keyed_put [intro]: "well_keyed q \<Longrightarrow> well_keyed (put_record c r q)"
  by (simp add: well_keyed_def put_record_def)

lemma well_keyed_drop [intro]: "well_keyed q \<Longrightarrow> well_keyed (drop_record c q)"
  by (simp add: well_keyed_def drop_record_def)

lemma well_keyed_start:
  assumes "well_keyed q"
  shows "well_keyed (acquire_slot limit c r q)" "well_keyed (start_attempt limit c r q)"
    "well_keyed (drive_on limit c r q)" "well_keyed (fail_attempt c r q)" "well_keyed (release_publish_slot q)"
  using assms
  by (simp_all add: well_keyed_def acquire_slot_def start_attempt_def drive_on_def fail_attempt_def
      release_publish_slot_def put_record_def drop_record_def split: list.split option.split)

lemma well_keyed_settled:
  assumes "well_keyed q" shows "well_keyed (call_settled limit i c ok q)"
proof -
  have "well_keyed (release_publish_slot (q\<lparr> rq_calls := js_delete i (rq_calls q), rq_log := l \<rparr>))" for l
    using assms by (intro well_keyed_start) (simp add: well_keyed_def)
  moreover have "well_keyed (release_publish_slot (q\<lparr> rq_calls := js_delete i (rq_calls q) \<rparr>))"
    using assms by (intro well_keyed_start) (simp add: well_keyed_def)
  ultimately show ?thesis
    by (simp add: call_settled_def after_call_def Let_def well_keyed_put well_keyed_start split: option.split)
qed

lemma well_keyed_step: "queue_step limit q e q' \<Longrightarrow> well_keyed q \<Longrightarrow> well_keyed q'"
proof (induction rule: queue_step.induct)
  case (asks q code)
  have "well_keyed (q\<lparr> rq_log := l \<rparr>)" for l using asks by (simp add: well_keyed_def)
  then show ?case by (simp add: request_def Let_def well_keyed_put well_keyed_start split: option.split)
next
  case (granted q code r)
  then show ?case
    using well_keyed_drop [OF well_keyed_start(5) [of q]]
    by (auto simp: slot_granted_def publish_now_def Let_def well_keyed_def put_record_def)
qed (simp_all add: well_keyed_settled well_keyed_start backoff_over_def well_keyed_drop,
    simp add: well_keyed_def stop_retrying_def)

lemma stop_ok:
  assumes "queue_ok 0 limit q" and "well_keyed q" shows "queue_ok 0 limit (stop_retrying q)"
proof -
  note ok = queue_okD [OF assms(1)]
  let ?q = "stop_retrying q"
  have left: "js_get (rq_records ?q) c = Some r \<longleftrightarrow> js_get (rq_records q) c = Some r \<and> outlives_stop (pq_phase r)" for c r
    using assms(2) by (auto simp: well_keyed_def stop_retrying_def js_get_filter split: option.split)
  have rest: "rq_active ?q = rq_active q" "rq_waiters ?q = []" "rq_stopped ?q" "rq_calls ?q = rq_calls q"
    "rq_next_call ?q = rq_next_call q"
    by (simp_all add: stop_retrying_def)
  have same: "holders ?q = holders q" by (auto simp: holders_def left holds_slot_def outlives_stop_def)
  show ?thesis
  proof (rule queue_okI)
    show "slots_ok 0 limit ?q" using ok(1) by (simp add: slots_ok_def rest same)
    show "waiters_ok limit ?q" by (auto simp: waiters_ok_def rest left outlives_stop_def)
    show "calls_ok ?q" using ok(3) by (simp add: calls_ok_def rest left)
    have "record_ok ?q c r = record_ok q c r" for c r by (simp add: record_ok_def rest)
    then show "records_ok ?q" using ok(4) by (auto simp: records_ok_def left)
  qed
qed

subsection \<open>The invariant of every run\<close>

lemma step_ok:
  assumes "queue_step limit q e q'" and "queue_ok 0 limit q" and "well_keyed q"
  shows "queue_ok 0 limit q'"
  using assms
  by (induction rule: queue_step.induct)
    (simp_all add: request_ok stop_ok granted_ok holds_slot_def settled_ok timed_out_ok backoff_ok)

lemma run_ok:
  "queue_run limit q es q' \<Longrightarrow> queue_ok 0 limit q \<Longrightarrow> well_keyed q \<Longrightarrow> queue_ok 0 limit q' \<and> well_keyed q'"
  by (induction rule: queue_run.induct) (auto dest: step_ok well_keyed_step)

lemma empty_well_keyed [simp]: "well_keyed empty_queue"
  by (simp add: well_keyed_def empty_queue_def)

lemmas reachable_ok = run_ok [OF _ empty_queue_ok empty_well_keyed]

lemma card_calls: "js_wf m \<Longrightarrow> card (dom (js_get m)) = length m"
  by (simp add: js_wf_def dom_map_of_conv_image_fst distinct_card flip: set_map)

lemma card_holders:
  assumes "well_keyed q" shows "card (holders q) = length (filter (\<lambda>(_, r). holds_slot r) (rq_records q))"
proof -
  let ?m = "filter (\<lambda>(_, r). holds_slot r) (rq_records q)"
  have "holders q = dom (js_get ?m)"
    using assms by (auto simp: holders_def well_keyed_def js_get_filter split: option.splits if_splits)
  then show ?thesis using assms by (simp add: well_keyed_def card_calls)
qed

lemma one_call_per_room:
  assumes "calls_ok q" and "js_wf (rq_calls q)" shows "distinct (map snd (rq_calls q))"
proof -
  have "distinct (rq_calls q)" using assms(2) by (simp add: js_wf_def distinct_map)
  moreover have "x = y" if "x \<in> set (rq_calls q)" "y \<in> set (rq_calls q)" "snd x = snd y" for x y
    using assms that by (cases x; cases y) (auto simp: js_get_in_set calls_ok_def)
  ultimately show ?thesis by (auto simp: distinct_map inj_on_def)
qed

text \<open>
  C8. Whatever is requested and however the bus and the timers behave: the publishes that are
  unanswered together with the slots about to publish never exceed the limit, a room never has
  two unanswered publishes, and no publish waits for a slot while one is free.
\<close>

theorem publishes_stay_paced:
  assumes "queue_run limit empty_queue es q"
  shows "length (rq_calls q) + length (filter (\<lambda>(_, r). holds_slot r) (rq_records q)) \<le> limit
    \<and> distinct (map snd (rq_calls q)) \<and> (rq_active q < limit \<longrightarrow> rq_waiters q = [])"
proof -
  note ok = reachable_ok [OF assms]
  then have "slots_ok 0 limit q" "waiters_ok limit q" "calls_ok q" "js_wf (rq_calls q)"
    by (simp_all add: queue_ok_def well_keyed_def)
  moreover have "card (dom (js_get (rq_calls q))) = length (rq_calls q)"
    using \<open>js_wf (rq_calls q)\<close> by (rule card_calls)
  ultimately show ?thesis using card_holders [OF conjunct2 [OF ok]]
    by (auto simp: slots_ok_def waiters_ok_def one_call_per_room)
qed

theorem publishes_stay_paced_witness:
  "length (rq_calls (request 1 ''ABC123'' empty_queue))
     + length (filter (\<lambda>(_, r). holds_slot r) (rq_records (request 1 ''ABC123'' empty_queue))) \<le> 1
   \<and> distinct (map snd (rq_calls (request 1 ''ABC123'' empty_queue)))
   \<and> \<not> rq_active (request 1 ''ABC123'' empty_queue) < 1"
proof -
  have "queue_run 1 empty_queue ([] @ [Ask ''ABC123'']) (request 1 ''ABC123'' empty_queue)"
    by (rule moves [OF stays asks])
  moreover have "rq_active (request 1 ''ABC123'' empty_queue) = 1" by code_simp
  ultimately show ?thesis using publishes_stay_paced by fastforce
qed

end
