(* ===== verification/Resync_Delivery.thy ===== *)
theory Resync_Delivery
  imports Resync_Queue
begin

text \<open>
  What \<open>pending-resync-queue.ts\<close> promises its callers: a request survives until a publish started
  after it is accepted. \<open>promised\<close> is the safety half, an invariant of every run; the liveness
  half bounds the steps the queue can take with a bus that accepts every publish in time
  (\<open>cooperative\<close> events) by a measure of the backlog and shows that nothing is left when it halts.
\<close>

subsection \<open>No request is forgotten\<close>

text \<open>A record still answers a request made before call \<open>s\<close> if its next accepted publish is not older.\<close>

definition owes :: "pending_record \<Rightarrow> nat \<Rightarrow> bool" where
  "owes r s = (pq_pending r \<or> (\<forall>i. pq_phase r = Attempting i \<longrightarrow> s \<le> i))"

definition answered_by :: "resync_queue \<Rightarrow> string \<Rightarrow> nat \<Rightarrow> bool" where
  "answered_by q c s = (\<exists>i\<ge>s. Accepted c i \<in> set (rq_log q))"

definition kept :: "resync_queue \<Rightarrow> string \<Rightarrow> nat \<Rightarrow> bool" where
  "kept q c s = (rq_stopped q \<or> answered_by q c s \<or> (\<exists>r. js_get (rq_records q) c = Some r \<and> owes r s))"

definition promised :: "resync_queue \<Rightarrow> bool" where
  "promised q = (\<forall>c s. Asked c s \<in> set (rq_log q) \<longrightarrow> s \<le> rq_next_call q \<and> kept q c s)"

lemma owes_idle: "(\<And>i. pq_phase r \<noteq> Attempting i) \<Longrightarrow> owes r s"
  by (simp add: owes_def)

lemma kept_frame:
  "kept q c s \<Longrightarrow> set (rq_log q) \<subseteq> set (rq_log q') \<Longrightarrow> (rq_stopped q \<Longrightarrow> rq_stopped q') \<Longrightarrow>
   (\<And>r. js_get (rq_records q) c = Some r \<Longrightarrow> owes r s \<Longrightarrow>
      rq_stopped q' \<or> answered_by q' c s \<or> (\<exists>r'. js_get (rq_records q') c = Some r' \<and> owes r' s)) \<Longrightarrow>
   kept q' c s"
  by (auto simp: kept_def answered_by_def)

text \<open>Where the code between two suspensions leaves the record it drives.\<close>

lemma started_log [simp]:
  "rq_log (acquire_slot limit c r q) = rq_log q" "rq_log (start_attempt limit c r q) = rq_log q"
  "rq_log (drive_on limit c r q) = rq_log q" "rq_log (fail_attempt c r q) = rq_log q"
  "rq_next_call (acquire_slot limit c r q) = rq_next_call q" "rq_next_call (start_attempt limit c r q) = rq_next_call q"
  "rq_next_call (drive_on limit c r q) = rq_next_call q" "rq_next_call (fail_attempt c r q) = rq_next_call q"
  "rq_stopped (acquire_slot limit c r q) = rq_stopped q" "rq_stopped (start_attempt limit c r q) = rq_stopped q"
  "rq_stopped (drive_on limit c r q) = rq_stopped q" "rq_stopped (fail_attempt c r q) = rq_stopped q"
  by (simp_all add: acquire_slot_def start_attempt_def drive_on_def fail_attempt_def)

lemma started_other [simp]:
  assumes "d \<noteq> c"
  shows "js_get (rq_records (acquire_slot limit c r q)) d = js_get (rq_records q) d"
    "js_get (rq_records (start_attempt limit c r q)) d = js_get (rq_records q) d"
    "js_get (rq_records (drive_on limit c r q)) d = js_get (rq_records q) d"
    "js_get (rq_records (fail_attempt c r q)) d = js_get (rq_records q) d"
  using assms by (simp_all add: acquire_slot_def start_attempt_def drive_on_def fail_attempt_def)

lemma started_waits:
  assumes "\<not> rq_stopped q"
  shows "\<exists>r'. js_get (rq_records (acquire_slot limit c r q)) c = Some r' \<and> owes r' s"
    "\<exists>r'. js_get (rq_records (start_attempt limit c r q)) c = Some r' \<and> owes r' s"
    "\<exists>r'. js_get (rq_records (fail_attempt c r q)) c = Some r' \<and> owes r' s"
    "pq_pending r \<Longrightarrow> \<exists>r'. js_get (rq_records (drive_on limit c r q)) c = Some r' \<and> owes r' s"
  using assms by (simp_all add: acquire_slot_def start_attempt_def drive_on_def fail_attempt_def owes_def)

lemma release_owes:
  assumes "js_get (rq_records q) c = Some r" and "owes r s"
    and "c \<in> set (rq_waiters q) \<Longrightarrow> pq_phase r = Awaits_Slot"
  shows "\<exists>r'. js_get (rq_records (release_publish_slot q)) c = Some r' \<and> owes r' s"
  using assms by (auto simp: release_publish_slot_def owes_def split: list.split option.split)

lemma kept_request:
  assumes "kept q c s \<or> c = code" shows "kept (request limit code q) c s"
proof (cases "rq_stopped q")
  case True
  then show ?thesis by (simp add: kept_def request_def Let_def split: option.split)
next
  case False
  let ?q = "q\<lparr> rq_log := rq_log q @ [Asked code (rq_next_call q)] \<rparr>"
  have log: "set (rq_log q) \<subseteq> set (rq_log (request limit code q))"
    by (auto simp: request_def Let_def split: option.split)
  have new: "\<exists>r'. js_get (rq_records (request limit code q)) code = Some r' \<and> owes r' s"
  proof (cases "js_get (rq_records q) code")
    case None
    then show ?thesis using started_waits(4) [of ?q] False by (simp add: request_def Let_def)
  next
    case (Some r)
    then show ?thesis by (simp add: request_def Let_def owes_def)
  qed
  have old: "js_get (rq_records (request limit code q)) d = js_get (rq_records q) d" if "d \<noteq> code" for d
    using that by (simp add: request_def Let_def split: option.split)
  show ?thesis
  proof (cases "c = code")
    case True
    then show ?thesis using new by (simp add: kept_def)
  next
    case neq: False
    then have "kept q c s" using assms by simp
    then show ?thesis by (rule kept_frame) (use log old neq False in auto)
  qed
qed

lemma after_call_frame [simp]:
  "rq_log (after_call limit i code ok q) = rq_log q" "rq_stopped (after_call limit i code ok q) = rq_stopped q"
  "rq_next_call (after_call limit i code ok q) = rq_next_call q"
  "c \<noteq> code \<Longrightarrow> js_get (rq_records (after_call limit i code ok q)) c = js_get (rq_records q) c"
  by (simp_all add: after_call_def Let_def split: option.split)

text \<open>The record whose call is answered: what it owed is accepted, or it still owes it.\<close>

lemma after_call_owes:
  assumes "js_get (rq_records q) code = Some r" and "pq_in_flight r = Some i" and "owes r s"
    and "\<And>j. pq_phase r = Attempting j \<Longrightarrow> j = i" and "\<not> rq_stopped q"
  shows "ok \<and> s \<le> i \<or> (\<exists>r'. js_get (rq_records (after_call limit i code ok q)) code = Some r' \<and> owes r' s)"
proof -
  have eq: "after_call limit i code ok' q =
      (let r' = r\<lparr> pq_in_flight := None \<rparr>
       in if pq_phase r = Attempting i then (if ok' then drive_on limit code r' q else fail_attempt code r' q)
          else if pq_phase r = Awaits_Call then acquire_slot limit code r' q else put_record code r' q)" for ok'
    using assms(1,2) by (simp add: after_call_def)
  consider (accepted) "pq_phase r = Attempting i" "ok" "\<not> pq_pending r" | (again) "pq_phase r = Attempting i" "ok" "pq_pending r"
    | (failed) "pq_phase r = Attempting i" "\<not> ok" | (parked) "pq_phase r = Awaits_Call"
    | (other) "\<And>j. pq_phase r \<noteq> Attempting j" "pq_phase r \<noteq> Awaits_Call" using assms(4) by blast
  then show ?thesis
  proof cases
    case accepted
    then show ?thesis using assms(3) by (simp add: owes_def)
  qed (use started_waits [OF assms(5)] in \<open>simp_all add: eq Let_def owes_idle\<close>)
qed

lemma kept_settled:
  assumes "queue_ok 0 limit q" and "js_get (rq_calls q) i = Some code" and "kept q c s"
  shows "kept (call_settled limit i code ok q) c s"
proof (cases "rq_stopped q")
  case True
  then show ?thesis by (simp add: kept_def call_settled_def)
next
  case up: False
  note inv = queue_okD [OF assms(1)]
  define log where "log = (if ok then rq_log q @ [Accepted code i] else rq_log q)"
  define q1 where "q1 = q\<lparr> rq_calls := js_delete i (rq_calls q), rq_log := log \<rparr>"
  let ?p = "release_publish_slot q1" and ?q' = "call_settled limit i code ok q"
  have result: "?q' = after_call limit i code ok ?p"
    unfolding call_settled_def q1_def log_def by (rule refl)
  have log': "rq_log ?q' = log" by (simp add: result q1_def)
  have waits: "d \<in> set (rq_waiters q1) \<Longrightarrow> js_get (rq_records q1) d = Some r \<Longrightarrow> pq_phase r = Awaits_Slot" for d r
    using inv(2) by (auto simp: waiters_ok_def q1_def)
  show ?thesis
  proof (rule kept_frame [OF assms(3)])
    show "set (rq_log q) \<subseteq> set (rq_log ?q')" by (auto simp: log' log_def)
    show "rq_stopped q \<Longrightarrow> rq_stopped ?q'" using up by simp
    fix r assume r: "js_get (rq_records q) c = Some r" "owes r s"
    show "rq_stopped ?q' \<or> answered_by ?q' c s \<or> (\<exists>r'. js_get (rq_records ?q') c = Some r' \<and> owes r' s)"
    proof (cases "c = code")
      case False
      then show ?thesis using release_owes [of q1 c r s] r waits by (auto simp: result q1_def)
    next
      case True
      have flight: "pq_in_flight r = Some i" using inv(3) assms(2) r True by (simp add: calls_ok_def)
      have rok: "record_ok q c r" using inv(4) r by (simp add: records_ok_def)
      then have "code \<notin> set (rq_waiters q1)" using waits r flight True by (auto simp: record_ok_def q1_def)
      then have same: "js_get (rq_records ?p) code = Some r"
        using r True by (auto simp: release_publish_slot_def q1_def split: list.split option.split)
      have own: "pq_phase r = Attempting j \<Longrightarrow> j = i" for j using rok flight by (simp add: record_ok_def)
      have down: "\<not> rq_stopped ?p" using up by (simp add: q1_def)
      have "answered_by ?q' code s" if "ok" "s \<le> i"
        using that unfolding answered_by_def log' log_def by auto
      then show ?thesis
        using after_call_owes [OF same flight r(2) own down, of ok limit] True unfolding result by auto
    qed
  qed
qed

lemma kept_granted:
  assumes "js_get (rq_records q) code = Some r" and "kept q c s" and "s \<le> rq_next_call q"
  shows "kept (slot_granted code r q) c s"
proof (cases "rq_stopped q")
  case True
  then show ?thesis by (simp add: kept_def slot_granted_def publish_now_def Let_def)
next
  case False
  then have "slot_granted code r q = publish_now code r q" by (simp add: slot_granted_def)
  then show ?thesis
    by (intro kept_frame [OF assms(2)]) (use assms(3) in \<open>auto simp: publish_now_def Let_def owes_def\<close>)
qed

lemma kept_started:
  assumes "kept q c s"
  shows "kept (fail_attempt code r q) c s" "kept (start_attempt limit code r q) c s"
proof -
  show "kept (fail_attempt code r q) c s"
  proof (rule kept_frame [OF assms])
    fix r' assume "js_get (rq_records q) c = Some r'" "owes r' s"
    then show "rq_stopped (fail_attempt code r q) \<or> answered_by (fail_attempt code r q) c s
      \<or> (\<exists>r''. js_get (rq_records (fail_attempt code r q)) c = Some r'' \<and> owes r'' s)"
      using started_waits(3) [of q code r s] by (cases "c = code") auto
  qed simp_all
  show "kept (start_attempt limit code r q) c s"
  proof (rule kept_frame [OF assms])
    fix r' assume "js_get (rq_records q) c = Some r'" "owes r' s"
    then show "rq_stopped (start_attempt limit code r q) \<or> answered_by (start_attempt limit code r q) c s
      \<or> (\<exists>r''. js_get (rq_records (start_attempt limit code r q)) c = Some r'' \<and> owes r'' s)"
      using started_waits(2) [of q limit code r s] by (cases "c = code") auto
  qed simp_all
qed

lemma promised_step:
  "queue_step limit q e q' \<Longrightarrow> queue_ok 0 limit q \<Longrightarrow> promised q \<Longrightarrow> promised q'"
proof (induction rule: queue_step.induct)
  case (asks q code)
  have "Asked c s \<in> set (rq_log (request limit code q)) \<Longrightarrow>
      Asked c s \<in> set (rq_log q) \<or> c = code \<and> s = rq_next_call q" for c s
    by (auto simp: request_def Let_def split: option.splits)
  moreover have "rq_next_call (request limit code q) = rq_next_call q"
    by (simp add: request_def Let_def split: option.split)
  ultimately show ?case using asks(2) kept_request unfolding promised_def by fastforce
next
  case (stops q)
  then show ?case by (simp add: promised_def kept_def stop_retrying_def)
next
  case (granted q code r)
  have "rq_log (slot_granted code r q) = rq_log q" "rq_next_call q \<le> rq_next_call (slot_granted code r q)"
    by (simp_all add: slot_granted_def publish_now_def Let_def)
  then show ?case using granted kept_granted unfolding promised_def by fastforce
next
  case (answered q i code ok)
  have "Asked c s \<in> set (rq_log (call_settled limit i code ok q)) \<Longrightarrow> Asked c s \<in> set (rq_log q)" for c s
    by (simp add: call_settled_def split: if_splits)
  moreover have "rq_next_call (call_settled limit i code ok q) = rq_next_call q"
    by (simp add: call_settled_def)
  ultimately show ?case using answered kept_settled unfolding promised_def by fastforce
next
  case (timed_out q code r i)
  then show ?case by (simp add: promised_def kept_started)
next
  case (backed_off q code r)
  have "kept (backoff_over limit code r q) c s" if "kept q c s" for c s
    using kept_started(2) [OF that] by (cases "rq_stopped q") (simp_all add: backoff_over_def, simp add: kept_def)
  moreover have "rq_log (backoff_over limit code r q) = rq_log q" "rq_next_call (backoff_over limit code r q) = rq_next_call q"
    by (simp_all add: backoff_over_def)
  ultimately show ?case using backed_off by (simp add: promised_def)
qed

lemma promised_run:
  "queue_run limit q es q' \<Longrightarrow> queue_ok 0 limit q \<Longrightarrow> well_keyed q \<Longrightarrow> promised q \<Longrightarrow> promised q'"
proof (induction rule: queue_run.induct)
  case (moves q es q' e q'')
  then show ?case using run_ok [OF moves(1)] promised_step [OF moves(2)] by blast
qed

lemma empty_promised: "promised empty_queue"
  by (simp add: promised_def empty_queue_def)

subsection \<open>A bus that accepts every publish in time\<close>

definition cooperative :: "queue_event \<Rightarrow> bool" where
  "cooperative e = (case e of Slot_Granted _ \<Rightarrow> True | Call_Answered _ ok \<Rightarrow> ok | Backoff_Ended _ \<Rightarrow> True | _ \<Rightarrow> False)"

definition halted :: "nat \<Rightarrow> resync_queue \<Rightarrow> bool" where
  "halted limit q = (\<forall>e q'. queue_step limit q e q' \<longrightarrow> \<not> cooperative e)"

lemma halted_empty:
  assumes "halted limit q" and "queue_ok 0 limit q" and "0 < limit" and "\<not> rq_stopped q"
  shows "rq_records q = []"
proof -
  note ok = queue_okD [OF assms(2)]
  have blocked: "\<And>e q'. queue_step limit q e q' \<Longrightarrow> \<not> cooperative e" using assms(1) unfolding halted_def by blast
  have no_call: "js_get (rq_calls q) i = None" for i
    using blocked [OF answered [of q i _ limit True]] by (cases "js_get (rq_calls q) i") (auto simp: cooperative_def)
  have no_holder: "\<not> holds_slot r" if "js_get (rq_records q) c = Some r" for c r
    using blocked [OF granted [OF that]] by (auto simp: cooperative_def holds_slot_def)
  have "rq_calls q = []" using no_call by (simp add: js_get_Nil_iff)
  moreover have "holders q = {}" using no_holder by (auto simp: holders_def)
  ultimately have "rq_active q = 0" using ok(1) by (simp add: slots_ok_def)
  then have no_waiter: "rq_waiters q = []" using ok(2) assms(3) by (auto simp: waiters_ok_def)
  have "js_get (rq_records q) c = None" for c
  proof (rule ccontr)
    assume "js_get (rq_records q) c \<noteq> None"
    then obtain r where r: "js_get (rq_records q) c = Some r" by blast
    have rok: "record_ok q c r" using ok(4) r by (simp add: records_ok_def)
    then have "pq_in_flight r = None" using no_call by (cases "pq_in_flight r") (auto simp: record_ok_def)
    moreover have "pq_phase r \<noteq> Awaits_Slot" using ok(2) no_waiter r by (auto simp: waiters_ok_def)
    moreover have "pq_phase r \<noteq> Backing_Off" using blocked [OF backed_off [OF r]] by (auto simp: cooperative_def)
    ultimately show False using rok no_holder [OF r] by (cases "pq_phase r") (auto simp: record_ok_def holds_slot_def)
  qed
  then show ?thesis by (simp add: js_get_Nil_iff)
qed

subsection \<open>What is left to do\<close>

fun phase_work :: "phase \<Rightarrow> nat" where
  "phase_work (Attempting _) = 1"
| "phase_work Backing_Off = 4"
| "phase_work _ = 3"

definition record_work :: "pending_record \<Rightarrow> nat" where
  "record_work r = phase_work (pq_phase r) + (if pq_pending r then 3 else 0)"

definition records_work :: "(string, pending_record) js_map \<Rightarrow> nat" where
  "records_work m = sum_list (map (\<lambda>(_, r). record_work r) m)"

definition room_work :: "string \<Rightarrow> resync_queue \<Rightarrow> nat" where
  "room_work c q = (case js_get (rq_records q) c of None \<Rightarrow> 0 | Some r \<Rightarrow> record_work r)"

definition queue_work :: "resync_queue \<Rightarrow> nat" where
  "queue_work q = records_work (rq_records q) + length (rq_calls q)"

lemma records_work_set:
  "records_work (js_set c r m) + (case js_get m c of None \<Rightarrow> 0 | Some r' \<Rightarrow> record_work r') = records_work m + record_work r"
  by (induction m) (auto simp: records_work_def split: option.splits)

lemma records_work_delete:
  "js_wf m \<Longrightarrow> records_work (js_delete c m) + (case js_get m c of None \<Rightarrow> 0 | Some r' \<Rightarrow> record_work r') = records_work m"
proof (induction m)
  case (Cons x m)
  have "js_delete c m = m \<and> js_get m c = None" if "fst x = c"
    using Cons.prems that by (auto simp: js_wf_def map_of_eq_None_iff delete_conv intro!: filter_True)
  then show ?case using Cons by (cases x) (auto simp: records_work_def js_wf_def)
qed (simp add: records_work_def)

lemma put_work: "queue_work (put_record c r q) + room_work c q = queue_work q + record_work r"
  using records_work_set [of c r "rq_records q"] by (simp add: queue_work_def room_work_def put_record_def)

lemma drop_work: "well_keyed q \<Longrightarrow> queue_work (drop_record c q) + room_work c q = queue_work q"
  using records_work_delete [of "rq_records q" c] by (simp add: queue_work_def room_work_def drop_record_def well_keyed_def)

lemma work_frame [simp]:
  "queue_work (q\<lparr> rq_waiters := ws \<rparr>) = queue_work q" "queue_work (q\<lparr> rq_active := n \<rparr>) = queue_work q"
  "queue_work (q\<lparr> rq_log := l \<rparr>) = queue_work q" "queue_work (q\<lparr> rq_next_call := m \<rparr>) = queue_work q"
  "room_work c (q\<lparr> rq_waiters := ws \<rparr>) = room_work c q" "room_work c (q\<lparr> rq_active := n \<rparr>) = room_work c q"
  "room_work c (q\<lparr> rq_log := l \<rparr>) = room_work c q" "room_work c (q\<lparr> rq_next_call := m \<rparr>) = room_work c q"
  "room_work c (q\<lparr> rq_calls := cs \<rparr>) = room_work c q"
  by (simp_all add: queue_work_def room_work_def)

lemma start_work:
  assumes "well_keyed q"
  shows "queue_work (acquire_slot limit c r q) + room_work c q \<le> queue_work q + (if pq_pending r then 6 else 3)"
    "queue_work (start_attempt limit c r q) + room_work c q \<le> queue_work q + (if pq_pending r then 6 else 3)"
    "queue_work (drive_on limit c r q) + room_work c q \<le> queue_work q + (if pq_pending r then 3 else 0)"
proof -
  show acquire: "queue_work (acquire_slot limit c r q) + room_work c q \<le> queue_work q + (if pq_pending r then 6 else 3)" for r
    using put_work [of c "r\<lparr> pq_phase := Slot_Taken \<rparr>" "q\<lparr> rq_active := rq_active q + 1 \<rparr>"]
      put_work [of c "r\<lparr> pq_phase := Awaits_Slot \<rparr>" "q\<lparr> rq_waiters := rq_waiters q @ [c] \<rparr>"] drop_work [OF assms, of c]
    by (simp add: acquire_slot_def record_work_def split: if_splits)
  show start: "queue_work (start_attempt limit c r q) + room_work c q \<le> queue_work q + (if pq_pending r then 6 else 3)" for r
    using acquire [of r] put_work [of c "r\<lparr> pq_phase := Awaits_Call \<rparr>" q] drop_work [OF assms, of c]
    by (simp add: start_attempt_def record_work_def split: if_splits)
  show "queue_work (drive_on limit c r q) + room_work c q \<le> queue_work q + (if pq_pending r then 3 else 0)"
    using start [of "r\<lparr> pq_pending := False, pq_attempt := 1 \<rparr>"] drop_work [OF assms, of c]
    by (simp add: drive_on_def)
qed

lemma release_work:
  assumes "waiters_ok limit q" shows "queue_work (release_publish_slot q) = queue_work q"
proof (cases "rq_waiters q")
  case Nil
  then show ?thesis by (simp add: release_publish_slot_def)
next
  case (Cons c rest)
  then obtain r where r: "js_get (rq_records q) c = Some r" "pq_phase r = Awaits_Slot"
    using assms by (auto simp: waiters_ok_def)
  then show ?thesis
    using put_work [of c "r\<lparr> pq_phase := Slot_Handed \<rparr>" "q\<lparr> rq_waiters := rest \<rparr>"] Cons
    by (simp add: release_publish_slot_def record_work_def room_work_def)
qed

lemma after_call_work:
  assumes "well_keyed q" shows "queue_work (after_call limit i code True q) \<le> queue_work q"
proof (cases "js_get (rq_records q) code")
  case None
  then show ?thesis by (simp add: after_call_def)
next
  case (Some r)
  let ?r = "r\<lparr> pq_in_flight := None \<rparr>"
  have room: "room_work code q = record_work r" using Some by (simp add: room_work_def)
  have "queue_work (drive_on limit code ?r q) \<le> queue_work q" if "pq_phase r = Attempting i"
    using start_work(3) [OF assms, of limit code ?r] that by (simp add: room record_work_def split: if_splits)
  moreover have "queue_work (acquire_slot limit code ?r q) \<le> queue_work q" if "pq_phase r = Awaits_Call"
    using start_work(1) [OF assms, of limit code ?r] that by (simp add: room record_work_def split: if_splits)
  moreover have "queue_work (put_record code ?r q) = queue_work q"
    using put_work [of code ?r q] by (simp add: room record_work_def)
  ultimately show ?thesis using Some by (simp add: after_call_def Let_def)
qed

lemma length_delete: "js_wf m \<Longrightarrow> js_get m k = Some v \<Longrightarrow> Suc (length (js_delete k m)) = length m"
proof (induction m)
  case (Cons x m)
  have "js_delete k m = m" if "fst x = k"
    using Cons.prems that by (auto simp: js_wf_def delete_conv intro!: filter_True)
  then show ?case using Cons by (cases x) (auto simp: js_wf_def)
qed simp

lemma settled_work:
  assumes "queue_ok 0 limit q" and "well_keyed q" and "js_get (rq_calls q) i = Some code"
  shows "queue_work (call_settled limit i code True q) < queue_work q"
proof -
  let ?q = "q\<lparr> rq_calls := js_delete i (rq_calls q), rq_log := rq_log q @ [Accepted code i] \<rparr>"
  have wk: "well_keyed ?q" using assms(2) by (simp add: well_keyed_def)
  have "waiters_ok limit ?q" using queue_okD(2) [OF assms(1)] by (simp add: waiters_ok_def)
  then have "queue_work (release_publish_slot ?q) = queue_work ?q" by (rule release_work)
  moreover have "Suc (queue_work ?q) = queue_work q"
    using length_delete [of "rq_calls q" i code] assms(2,3) by (simp add: queue_work_def well_keyed_def)
  moreover have "queue_work (after_call limit i code True (release_publish_slot ?q)) \<le> queue_work (release_publish_slot ?q)"
    using wk by (intro after_call_work well_keyed_start)
  ultimately show ?thesis by (simp add: call_settled_def)
qed

lemma cooperative_step_work:
  assumes "queue_step limit q e q'" and "cooperative e" and "queue_ok 0 limit q" and "well_keyed q" and "\<not> rq_stopped q"
  shows "queue_work q' < queue_work q \<and> \<not> rq_stopped q'"
  using assms
proof (induction rule: queue_step.induct)
  case (granted q code r)
  let ?q = "q\<lparr> rq_calls := js_set (rq_next_call q) code (rq_calls q), rq_next_call := rq_next_call q + 1 \<rparr>"
  have "js_get (rq_calls q) (rq_next_call q) = None"
    using queue_okD(3) [OF granted(4)] by (cases "js_get (rq_calls q) (rq_next_call q)") (auto simp: calls_ok_def)
  then have "queue_work ?q = Suc (queue_work q)" by (simp add: queue_work_def js_length_set)
  moreover have "room_work code ?q = record_work r" using granted(1) by (simp add: room_work_def)
  ultimately have "queue_work (publish_now code r q) < queue_work q"
    using granted(2) put_work [of code "r\<lparr> pq_in_flight := Some (rq_next_call q), pq_phase := Attempting (rq_next_call q) \<rparr>" ?q]
    by (auto simp: publish_now_def Let_def record_work_def split: if_splits)
  then show ?case using granted(6) by (simp add: slot_granted_def publish_now_def Let_def)
next
  case (answered q i code ok)
  then show ?case using settled_work [of limit q i code] by (simp add: cooperative_def call_settled_def)
next
  case (backed_off q code r)
  let ?r = "r\<lparr> pq_attempt := pq_attempt r + 1 \<rparr>"
  have "room_work code q = record_work r" using backed_off(1) by (simp add: room_work_def)
  then have "queue_work (start_attempt limit code ?r q) < queue_work q"
    using start_work(2) [OF backed_off(5), of limit code ?r] backed_off(2) by (simp add: record_work_def split: if_splits)
  then show ?case using backed_off(6) by (simp add: backoff_over_def)
qed (simp_all add: cooperative_def)

lemma cooperative_run_work:
  "queue_run limit q es q' \<Longrightarrow> list_all cooperative es \<Longrightarrow> queue_ok 0 limit q \<Longrightarrow> well_keyed q \<Longrightarrow> \<not> rq_stopped q \<Longrightarrow>
   length es + queue_work q' \<le> queue_work q \<and> \<not> rq_stopped q'"
proof (induction rule: queue_run.induct)
  case (moves q es q' e q'')
  then have "queue_ok 0 limit q'" "well_keyed q'" using run_ok by blast+
  moreover have "length es + queue_work q' \<le> queue_work q" "\<not> rq_stopped q'" "cooperative e"
    using moves by simp_all
  ultimately show ?case using cooperative_step_work [OF moves(2)] by simp
qed simp

lemma queue_work_bound:
  assumes "queue_ok 0 limit q" and "well_keyed q" and "\<not> rq_stopped q"
  shows "queue_work q \<le> 8 * queue_size q"
proof -
  have one: "record_work r \<le> 7" for r by (cases "pq_phase r") (simp_all add: record_work_def)
  have "records_work m \<le> 7 * length m" for m
    by (induction m) (auto simp: records_work_def intro!: add_mono one)
  from this [of "rq_records q"] have "records_work (rq_records q) \<le> 7 * queue_size q" by (simp add: queue_size_def)
  moreover have "length (rq_calls q) \<le> length (rq_records q)"
  proof -
    have sub: "snd ` set (rq_calls q) \<subseteq> fst ` set (rq_records q)"
    proof
      fix c assume "c \<in> snd ` set (rq_calls q)"
      then obtain i where "js_get (rq_calls q) i = Some c"
        using assms(2) by (force simp: well_keyed_def js_get_in_set)
      then have "js_get (rq_records q) c \<noteq> None" using queue_okD(3) [OF assms(1)] assms(3) by (auto simp: calls_ok_def)
      then show "c \<in> fst ` set (rq_records q)" by (simp add: map_of_eq_None_iff)
    qed
    have "length (rq_calls q) = card (snd ` set (rq_calls q))"
      using one_call_per_room [OF queue_okD(3) [OF assms(1)]] assms(2) distinct_card [of "map snd (rq_calls q)"]
      by (simp add: well_keyed_def)
    also have "\<dots> \<le> card (fst ` set (rq_records q))" using sub by (intro card_mono) simp_all
    also have "\<dots> \<le> length (rq_records q)" by (metis card_length length_map list.set_map)
    finally show ?thesis .
  qed
  ultimately show ?thesis by (simp add: queue_work_def queue_size_def)
qed

lemma log_grows: "queue_run limit q es q' \<Longrightarrow> set (rq_log q) \<subseteq> set (rq_log q')"
proof (induction rule: queue_run.induct)
  case (moves q es q' e q'')
  from moves(2) have "set (rq_log q') \<subseteq> set (rq_log q'')"
    by (cases rule: queue_step.cases)
      (auto simp: request_def stop_retrying_def slot_granted_def publish_now_def call_settled_def backoff_over_def
        Let_def split: option.splits)
  then show ?case using moves(3) by blast
qed simp

subsection \<open>Delivery\<close>

text \<open>
  C39. Once the bus accepts every publish in time, the queue does a bounded amount of work: at
  most eight steps per outstanding room, whatever happened before.
\<close>

theorem backlog_drains_in_bounded_steps:
  assumes "queue_run limit empty_queue es q" and "\<not> rq_stopped q"
    and "queue_run limit q es' q'" and "list_all cooperative es'"
  shows "length es' \<le> 8 * queue_size q"
proof -
  have ok: "queue_ok 0 limit q" "well_keyed q" using reachable_ok [OF assms(1)] by blast+
  have "length es' \<le> queue_work q" using cooperative_run_work [OF assms(3,4) ok assms(2)] by simp
  then show ?thesis using queue_work_bound [OF ok assms(2)] by simp
qed

text \<open>
  C3. At-least-once delivery: with a bus that accepts every publish in time the queue cannot
  halt before every request ever made has an accepted publish that was started after it.
\<close>

theorem requests_are_delivered:
  assumes "0 < limit" and "queue_run limit empty_queue es q" and "\<not> rq_stopped q"
    and "Asked c s \<in> set (rq_log q)"
    and "queue_run limit q es' q'" and "list_all cooperative es'" and "halted limit q'"
  shows "queue_size q' = 0 \<and> (\<exists>i\<ge>s. Accepted c i \<in> set (rq_log q'))"
proof -
  have ok: "queue_ok 0 limit q" "well_keyed q" using reachable_ok [OF assms(2)] by blast+
  have ok': "queue_ok 0 limit q'" using run_ok [OF assms(5) ok] by blast
  have up: "\<not> rq_stopped q'" using cooperative_run_work [OF assms(5,6) ok assms(3)] by simp
  have none: "rq_records q' = []" by (rule halted_empty [OF assms(7) ok' assms(1) up])
  have "promised q" by (rule promised_run [OF assms(2) empty_queue_ok empty_well_keyed empty_promised])
  then have "promised q'" by (rule promised_run [OF assms(5) ok])
  moreover have "Asked c s \<in> set (rq_log q')" using log_grows [OF assms(5)] assms(4) by blast
  ultimately have "kept q' c s" by (simp add: promised_def)
  then show ?thesis using up none by (simp add: kept_def answered_by_def queue_size_def)
qed

subsection \<open>A room asked for twice\<close>

definition asked_twice :: resync_queue where
  "asked_twice = (let q = request 1 ''ABC123'' empty_queue in
     case js_get (rq_records q) ''ABC123'' of None \<Rightarrow> q
     | Some r \<Rightarrow> request 1 ''ABC123'' (slot_granted ''ABC123'' r q))"

definition answered_once :: resync_queue where
  "answered_once = call_settled 1 0 ''ABC123'' True asked_twice"

definition answered_twice :: resync_queue where
  "answered_twice = (case js_get (rq_records answered_once) ''ABC123'' of None \<Rightarrow> answered_once
     | Some r \<Rightarrow> call_settled 1 1 ''ABC123'' True (slot_granted ''ABC123'' r answered_once))"

lemma asked_twice_run:
  "queue_run 1 empty_queue [Ask ''ABC123'', Slot_Granted ''ABC123'', Ask ''ABC123''] asked_twice"
proof -
  let ?q1 = "request 1 ''ABC123'' empty_queue"
  let ?r = "\<lparr> pq_pending = False, pq_attempt = 1, pq_in_flight = None, pq_phase = Slot_Taken \<rparr>"
  have r: "js_get (rq_records ?q1) ''ABC123'' = Some ?r" by code_simp
  have "queue_run 1 empty_queue [Ask ''ABC123''] ?q1" using moves [OF stays asks] by simp
  then have "queue_run 1 empty_queue [Ask ''ABC123'', Slot_Granted ''ABC123''] (slot_granted ''ABC123'' ?r ?q1)"
    using moves [of 1 _ "[Ask ''ABC123'']", OF _ granted [OF r]] by simp
  then have "queue_run 1 empty_queue [Ask ''ABC123'', Slot_Granted ''ABC123'', Ask ''ABC123'']
      (request 1 ''ABC123'' (slot_granted ''ABC123'' ?r ?q1))"
    using moves [of 1 _ "[Ask ''ABC123'', Slot_Granted ''ABC123'']", OF _ asks] by simp
  then show ?thesis using r by (simp add: asked_twice_def)
qed

lemma answered_twice_run:
  "queue_run 1 asked_twice [Call_Answered 0 True, Slot_Granted ''ABC123'', Call_Answered 1 True] answered_twice"
proof -
  let ?r = "\<lparr> pq_pending = False, pq_attempt = 1, pq_in_flight = None, pq_phase = Slot_Taken \<rparr>"
  have c0: "js_get (rq_calls asked_twice) 0 = Some ''ABC123''" by code_simp
  have r: "js_get (rq_records answered_once) ''ABC123'' = Some ?r" by code_simp
  have c1: "js_get (rq_calls (slot_granted ''ABC123'' ?r answered_once)) 1 = Some ''ABC123''" by code_simp
  have "queue_run 1 asked_twice [Call_Answered 0 True] answered_once"
    using moves [OF stays answered [OF c0]] by (simp add: answered_once_def)
  then have "queue_run 1 asked_twice [Call_Answered 0 True, Slot_Granted ''ABC123''] (slot_granted ''ABC123'' ?r answered_once)"
    using moves [of 1 _ "[Call_Answered 0 True]", OF _ granted [OF r]] by simp
  then have "queue_run 1 asked_twice [Call_Answered 0 True, Slot_Granted ''ABC123'', Call_Answered 1 True]
      (call_settled 1 1 ''ABC123'' True (slot_granted ''ABC123'' ?r answered_once))"
    using moves [of 1 _ "[Call_Answered 0 True, Slot_Granted ''ABC123'']", OF _ answered [OF c1]] by simp
  then show ?thesis using r by (simp add: answered_twice_def)
qed

lemma answered_twice_halted: "halted 1 answered_twice"
proof -
  have "rq_records answered_twice = []" "rq_calls answered_twice = []" by code_simp+
  then show ?thesis by (auto simp: halted_def cooperative_def elim!: queue_stepE)
qed

theorem backlog_drains_in_bounded_steps_witness:
  "length [Call_Answered 0 True, Slot_Granted ''ABC123'', Call_Answered 1 True] \<le> 8 * queue_size asked_twice"
proof (rule backlog_drains_in_bounded_steps [OF asked_twice_run _ answered_twice_run])
  show "\<not> rq_stopped asked_twice" by code_simp
qed (simp add: cooperative_def)

theorem requests_are_delivered_witness:
  "queue_size answered_twice = 0 \<and> (\<exists>i\<ge>1. Accepted ''ABC123'' i \<in> set (rq_log answered_twice))"
proof (rule requests_are_delivered [OF _ asked_twice_run _ _ answered_twice_run _ answered_twice_halted])
  show "\<not> rq_stopped asked_twice" by code_simp
  show "Asked ''ABC123'' 1 \<in> set (rq_log asked_twice)" by code_simp
qed (simp_all add: cooperative_def)

end
