(* ===== verification/Admin_Login.thy ===== *)
theory Admin_Login
  imports Rate_Limit
begin

text \<open>
  The login of operators: \<open>admin/login-rate-limit.ts\<close>, \<open>admin/auth-service.ts\<close> on the store of
  \<open>admin/auth-store.ts\<close>, \<open>admin/csrf.ts\<close> and \<open>admin/routes/auth-routes.ts\<close>. The hash functions and encodings of
  \<open>node:crypto\<close> and \<open>Buffer\<close> are parameters (\<open>crypto\<close>), and so are the random token and identifier of a login, which
  its event brings. The store acts when it is called; what awaits its answer is a task, so other requests come between.
  A refused login awaits nothing but its own rejection and is one step. Bounded lengths of the inputs and the JSON of
  the body are left out. \<open>ad_log\<close> records what was decided and exists only to be spoken about.
\<close>

subsection \<open>The limiter\<close>

record login_counter =
  lc_window_start :: rat
  lc_count :: nat
  lc_last_seen_at :: rat

record login_limit_config =
  failures_per_ip_per_minute :: nat
  failures_per_username_per_minute :: nat

record login_limiter =
  ll_ip :: "(string, login_counter) js_map"
  ll_username :: "(string, login_counter) js_map"
  ll_sweep_tick :: nat

datatype limit_dimension = By_Ip | By_Username

definition login_window_ttl_ms :: rat where "login_window_ttl_ms = 10 * window_minute_ms"
definition login_sweep_interval :: nat where "login_sweep_interval = 64"

definition create_admin_login_rate_limiter :: login_limiter where
  "create_admin_login_rate_limiter = \<lparr> ll_ip = [], ll_username = [], ll_sweep_tick = 0 \<rparr>"

definition refresh_if_expired :: "rat \<Rightarrow> rat \<Rightarrow> login_counter \<Rightarrow> login_counter" where
  "refresh_if_expired window_ms now e =
     (if window_ms \<le> now - lc_window_start e then e\<lparr> lc_window_start := now, lc_count := 0 \<rparr> else e)"

text \<open>The time to wait, if the limit is exceeded.\<close>

definition is_exceeded :: "login_counter option \<Rightarrow> nat \<Rightarrow> rat \<Rightarrow> rat \<Rightarrow> rat option" where
  "is_exceeded entry limit window_ms now =
     (case entry of
        None \<Rightarrow> None
      | Some e \<Rightarrow>
          if window_ms \<le> now - lc_window_start e then None
          else if lc_count e < limit then None
          else Some (max 0 (window_ms - (now - lc_window_start e))))"

definition touch_counter :: "login_counter option \<Rightarrow> rat \<Rightarrow> login_counter" where
  "touch_counter existing now =
     (case existing of
        Some e \<Rightarrow> e\<lparr> lc_last_seen_at := now \<rparr>
      | None \<Rightarrow> \<lparr> lc_window_start = now, lc_count = 0, lc_last_seen_at = now \<rparr>)"

definition count_login_failure :: "string \<Rightarrow> rat \<Rightarrow> (string, login_counter) js_map \<Rightarrow> (string, login_counter) js_map" where
  "count_login_failure key now m =
     (let e = refresh_if_expired window_minute_ms now (touch_counter (js_get m key) now)
      in js_set key (e\<lparr> lc_count := lc_count e + 1 \<rparr>) m)"

definition sweep_login_counters :: "rat \<Rightarrow> (string, login_counter) js_map \<Rightarrow> (string, login_counter) js_map" where
  "sweep_login_counters now m = filter (\<lambda>(key, e). \<not> login_window_ttl_ms \<le> now - lc_last_seen_at e) m"

definition maybe_sweep_logins :: "rat \<Rightarrow> login_limiter \<Rightarrow> login_limiter" where
  "maybe_sweep_logins now l0 =
     (let l = l0\<lparr> ll_sweep_tick := ll_sweep_tick l0 + 1 \<rparr>
      in if ll_sweep_tick l mod login_sweep_interval \<noteq> 0 then l
         else l\<lparr> ll_ip := sweep_login_counters now (ll_ip l), ll_username := sweep_login_counters now (ll_username l) \<rparr>)"

text \<open>\<open>toLowerCase\<close> on code units up to 255.\<close>

definition js_lower_char :: "char \<Rightarrow> char" where
  "js_lower_char c =
     (let n = of_char c :: nat
      in if (65 \<le> n \<and> n \<le> 90) \<or> (192 \<le> n \<and> n \<le> 222 \<and> n \<noteq> 215) then char_of (n + 32) else c)"

definition normalize_username :: "string \<Rightarrow> string" where
  "normalize_username username = map js_lower_char (js_trim username)"

definition login_verdict ::
    "login_limit_config \<Rightarrow> string \<Rightarrow> string \<Rightarrow> rat \<Rightarrow> login_limiter \<Rightarrow> (limit_dimension \<times> rat) option" where
  "login_verdict C ip_key username now l =
     (case is_exceeded (js_get (ll_ip l) ip_key) (failures_per_ip_per_minute C) window_minute_ms now of
        Some wait \<Rightarrow> Some (By_Ip, wait)
      | None \<Rightarrow>
          let name = normalize_username username
          in if name = [] then None
             else map_option (Pair By_Username)
               (is_exceeded (js_get (ll_username l) name) (failures_per_username_per_minute C) window_minute_ms now))"

definition check_login ::
    "login_limit_config \<Rightarrow> string \<Rightarrow> string \<Rightarrow> rat \<Rightarrow> login_limiter \<Rightarrow> (limit_dimension \<times> rat) option \<times> login_limiter" where
  "check_login C ip_key username now l0 =
     (let l = maybe_sweep_logins now l0 in (login_verdict C ip_key username now l, l))"

definition register_failure :: "string \<Rightarrow> string \<Rightarrow> rat \<Rightarrow> login_limiter \<Rightarrow> login_limiter" where
  "register_failure ip_key username now l0 =
     (let l = l0\<lparr> ll_ip := count_login_failure ip_key now (ll_ip l0) \<rparr>;
          name = normalize_username username
      in if name = [] then l else l\<lparr> ll_username := count_login_failure name now (ll_username l) \<rparr>)"

definition register_success :: "string \<Rightarrow> string \<Rightarrow> login_limiter \<Rightarrow> login_limiter" where
  "register_success ip_key username l0 =
     (let l = l0\<lparr> ll_ip := js_delete ip_key (ll_ip l0) \<rparr>;
          name = normalize_username username
      in if name = [] then l else l\<lparr> ll_username := js_delete name (ll_username l) \<rparr>)"

subsection \<open>Passwords and sessions\<close>

record crypto =
  sha256 :: "string \<Rightarrow> string"
  scrypt :: "string \<Rightarrow> string \<Rightarrow> nat \<Rightarrow> string"
  hex_of :: "string \<Rightarrow> string"
  from_hex :: "string \<Rightarrow> string"
  from_base64url :: "string \<Rightarrow> string"

datatype admin_role = Viewer | Operator | Admin

record admin_auth_config =
  aa_username :: string
  aa_password_hash :: string
  aa_session_secret :: string
  aa_session_ttl_ms :: rat
  aa_role :: admin_role

record admin_session =
  adm_id :: string
  adm_admin_id :: string
  adm_username :: string
  adm_role :: admin_role
  adm_created_at :: rat
  adm_expires_at :: rat
  adm_last_seen_at :: rat

definition verify_password :: "crypto \<Rightarrow> string \<Rightarrow> string \<Rightarrow> bool" where
  "verify_password X password password_hash =
     (case strip_prefix ''sha256:'' password_hash of
        Some rest \<Rightarrow> sha256 X password = from_hex X rest
      | None \<Rightarrow>
          (case strip_prefix ''scrypt:'' password_hash of
             None \<Rightarrow> False
           | Some _ \<Rightarrow>
               (case split_on CHR '':'' password_hash of
                  _ # salt # hash # _ \<Rightarrow>
                    salt \<noteq> [] \<and> hash \<noteq> []
                    \<and> scrypt X password salt (length (from_base64url X hash)) = from_base64url X hash
                | _ \<Rightarrow> False)))"

definition token_id_of :: "crypto \<Rightarrow> string \<Rightarrow> string \<Rightarrow> string" where
  "token_id_of X secret token = hex_of X (sha256 X (secret @ '':'' @ token))"

definition credentials_match :: "crypto \<Rightarrow> admin_auth_config \<Rightarrow> string \<Rightarrow> string \<Rightarrow> bool" where
  "credentials_match X A username password =
     (username = aa_username A \<and> verify_password X password (aa_password_hash A))"

definition new_admin_session :: "admin_auth_config \<Rightarrow> string \<Rightarrow> rat \<Rightarrow> admin_session" where
  "new_admin_session A session_id now =
     \<lparr> adm_id = session_id, adm_admin_id = ''admin-1'', adm_username = aa_username A, adm_role = aa_role A,
       adm_created_at = now, adm_expires_at = now + aa_session_ttl_ms A, adm_last_seen_at = now \<rparr>"

definition role_rank :: "admin_role \<Rightarrow> nat" where
  "role_rank role = (case role of Viewer \<Rightarrow> 1 | Operator \<Rightarrow> 2 | Admin \<Rightarrow> 3)"

definition require_role :: "admin_session \<Rightarrow> admin_role \<Rightarrow> bool" where
  "require_role session role = (\<not> role_rank (adm_role session) < role_rank role)"

subsection \<open>Where a write may come from\<close>

record admin_http_request =
  hr_origin :: "string option"
  hr_host :: "string option"
  hr_forwarded_proto :: "string option"
  hr_encrypted :: bool

datatype origin_check = Write_Origin_Ok | Write_Origin_Missing | Write_Origin_Not_Allowed

definition get_request_scheme :: "admin_http_request \<Rightarrow> string" where
  "get_request_scheme r =
     (if truthy (hr_forwarded_proto r)
      then (let first = js_trim (hd (split_on CHR '','' (the (hr_forwarded_proto r))))
            in if first = [] then ''http'' else first)
      else if hr_encrypted r then ''https'' else ''http'')"

definition same_origin_from_request :: "admin_http_request \<Rightarrow> string option" where
  "same_origin_from_request r =
     (if truthy (hr_host r) then Some (get_request_scheme r @ ''://'' @ the (hr_host r)) else None)"

definition evaluate_admin_write_origin :: "admin_http_request \<Rightarrow> string list \<Rightarrow> origin_check" where
  "evaluate_admin_write_origin r allowed =
     (if \<not> truthy (hr_origin r) then Write_Origin_Missing
      else if same_origin_from_request r = hr_origin r then Write_Origin_Ok
      else if the (hr_origin r) \<in> set allowed then Write_Origin_Ok
      else Write_Origin_Not_Allowed)"

subsection \<open>Requests\<close>

datatype admin_task =
    Login_Saved string string
  | Session_Got string "admin_session option"

datatype admin_note =
    Password_Checked string bool
  | Login_Limited string
  | Authenticated string admin_session rat
  | Not_Authenticated string

record admin_state =
  ad_limiter :: login_limiter
  ad_sessions :: "(string, admin_session) js_map"
  ad_tasks :: "admin_task list"
  ad_log :: "admin_note list"

record admin_config =
  ac_limits :: login_limit_config
  ac_auth :: admin_auth_config
  ac_origins :: "string list"

definition admin_start :: admin_state where
  "admin_start = \<lparr> ad_limiter = create_admin_login_rate_limiter, ad_sessions = [], ad_tasks = [], ad_log = [] \<rparr>"

definition log_note :: "admin_note \<Rightarrow> admin_state \<Rightarrow> admin_state" where
  "log_note n s = s\<lparr> ad_log := ad_log s @ [n] \<rparr>"

text \<open>\<open>login\<close> up to the answer of the store, or its refusal.\<close>

definition login_credentials ::
    "crypto \<Rightarrow> admin_config \<Rightarrow> string \<Rightarrow> string \<Rightarrow> string \<Rightarrow> string \<Rightarrow> string \<Rightarrow> rat \<Rightarrow> admin_state \<Rightarrow> admin_state" where
  "login_credentials X C ip_key username password token session_id now s =
     (if credentials_match X (ac_auth C) username password
      then log_note (Password_Checked ip_key True)
             (s\<lparr> ad_sessions := js_set (token_id_of X (aa_session_secret (ac_auth C)) token)
                                  (new_admin_session (ac_auth C) session_id now) (ad_sessions s),
                 ad_tasks := ad_tasks s @ [Login_Saved ip_key username] \<rparr>)
      else log_note (Password_Checked ip_key False)
             (s\<lparr> ad_limiter := register_failure ip_key username now (ad_limiter s) \<rparr>))"

definition login_request ::
    "crypto \<Rightarrow> admin_config \<Rightarrow> admin_http_request \<Rightarrow> string \<Rightarrow> string \<Rightarrow> string \<Rightarrow> string \<Rightarrow> string \<Rightarrow> rat
     \<Rightarrow> admin_state \<Rightarrow> admin_state" where
  "login_request X C r ip_key username0 password token session_id now s =
     (if evaluate_admin_write_origin r (ac_origins C) \<noteq> Write_Origin_Ok then s
      else
        let username = js_trim username0;
            (limited, l) = check_login (ac_limits C) ip_key username now (ad_limiter s);
            s1 = s\<lparr> ad_limiter := l \<rparr>
        in if limited \<noteq> None then log_note (Login_Limited ip_key) s1
           else login_credentials X C ip_key username password token session_id now s1)"

definition logout_request :: "crypto \<Rightarrow> admin_config \<Rightarrow> admin_http_request \<Rightarrow> string option \<Rightarrow> admin_state \<Rightarrow> admin_state" where
  "logout_request X C r token s =
     (if evaluate_admin_write_origin r (ac_origins C) \<noteq> Write_Origin_Ok \<or> \<not> truthy token then s
      else s\<lparr> ad_sessions := js_delete (token_id_of X (aa_session_secret (ac_auth C)) (the token)) (ad_sessions s) \<rparr>)"

text \<open>\<open>requireAdmin\<close>, which every other request of an operator starts with, up to the answer of the store.\<close>

definition require_admin :: "crypto \<Rightarrow> admin_config \<Rightarrow> string option \<Rightarrow> admin_state \<Rightarrow> admin_state" where
  "require_admin X C token s =
     (if \<not> truthy token then s
      else let token_id = token_id_of X (aa_session_secret (ac_auth C)) (the token)
           in s\<lparr> ad_tasks := ad_tasks s @ [Session_Got token_id (js_get (ad_sessions s) token_id)] \<rparr>)"

definition authenticate_got :: "string \<Rightarrow> admin_session option \<Rightarrow> rat \<Rightarrow> admin_state \<Rightarrow> admin_state" where
  "authenticate_got token_id session now s =
     (case session of
        None \<Rightarrow> log_note (Not_Authenticated token_id) s
      | Some found \<Rightarrow>
          if adm_expires_at found \<le> now
          then log_note (Not_Authenticated token_id) (s\<lparr> ad_sessions := js_delete token_id (ad_sessions s) \<rparr>)
          else let next_session = found\<lparr> adm_last_seen_at := now \<rparr>
               in log_note (Authenticated token_id next_session now)
                    (s\<lparr> ad_sessions := js_set token_id next_session (ad_sessions s) \<rparr>))"

fun admin_goes_on :: "admin_task \<Rightarrow> rat \<Rightarrow> admin_state \<Rightarrow> admin_state" where
  "admin_goes_on (Login_Saved ip_key username) now s =
     s\<lparr> ad_limiter := register_success ip_key username (ad_limiter s) \<rparr>"
| "admin_goes_on (Session_Got token_id session) now s = authenticate_got token_id session now s"

datatype admin_event =
    Login_Request admin_http_request string string string string string
  | Logout_Request admin_http_request "string option"
  | Admin_Request "string option"
  | Admin_Goes_On nat

fun admin_step :: "crypto \<Rightarrow> admin_config \<Rightarrow> admin_event \<Rightarrow> rat \<Rightarrow> admin_state \<Rightarrow> admin_state" where
  "admin_step X C (Login_Request r ip_key username password token session_id) now s =
     login_request X C r ip_key username password token session_id now s"
| "admin_step X C (Logout_Request r token) now s = logout_request X C r token s"
| "admin_step X C (Admin_Request token) now s = require_admin X C token s"
| "admin_step X C (Admin_Goes_On i) now s =
     (if i < length (ad_tasks s)
      then admin_goes_on (ad_tasks s ! i) now (s\<lparr> ad_tasks := take i (ad_tasks s) @ drop (i + 1) (ad_tasks s) \<rparr>)
      else s)"

definition admin_run :: "crypto \<Rightarrow> admin_config \<Rightarrow> (admin_event \<times> rat) list \<Rightarrow> admin_state" where
  "admin_run X C es = fold (\<lambda>(e, now). admin_step X C e now) es admin_start"

subsection \<open>The sweep cannot be seen\<close>

datatype limiter_call = Check_Login string string | Login_Failure string string | Login_Success string string

text \<open>The limiter, and the limiter that never drops a counter, which is what it means to be.\<close>

fun limiter_step ::
    "login_limit_config \<Rightarrow> limiter_call \<Rightarrow> rat \<Rightarrow> login_limiter \<Rightarrow> (limit_dimension \<times> rat) option \<times> login_limiter" where
  "limiter_step C (Check_Login ip name) now l = check_login C ip name now l"
| "limiter_step C (Login_Failure ip name) now l = (None, register_failure ip name now l)"
| "limiter_step C (Login_Success ip name) now l = (None, register_success ip name l)"

fun unswept_step ::
    "login_limit_config \<Rightarrow> limiter_call \<Rightarrow> rat \<Rightarrow> login_limiter \<Rightarrow> (limit_dimension \<times> rat) option \<times> login_limiter" where
  "unswept_step C (Check_Login ip name) now l = (login_verdict C ip name now l, l)"
| "unswept_step C (Login_Failure ip name) now l = (None, register_failure ip name now l)"
| "unswept_step C (Login_Success ip name) now l = (None, register_success ip name l)"

fun limiter_answers ::
    "(limiter_call \<Rightarrow> rat \<Rightarrow> login_limiter \<Rightarrow> (limit_dimension \<times> rat) option \<times> login_limiter)
     \<Rightarrow> (limiter_call \<times> rat) list \<Rightarrow> login_limiter \<Rightarrow> (limit_dimension \<times> rat) option list" where
  "limiter_answers step [] l = []"
| "limiter_answers step ((call, now) # calls) l =
     (case step call now l of (answer, l') \<Rightarrow> answer # limiter_answers step calls l')"

definition counters_ok :: "(string, login_counter) js_map \<Rightarrow> rat \<Rightarrow> bool" where
  "counters_ok m t = (js_wf m \<and> (\<forall>k e. js_get m k = Some e \<longrightarrow> lc_window_start e \<le> lc_last_seen_at e \<and> lc_last_seen_at e \<le> t))"

text \<open>A counter that is missing on the left has a window on the right that is over.\<close>

definition as_if_unswept :: "(string, login_counter) js_map \<Rightarrow> (string, login_counter) js_map \<Rightarrow> rat \<Rightarrow> bool" where
  "as_if_unswept m m' t =
     (counters_ok m t \<and> (\<forall>k. js_get m k = js_get m' k
        \<or> (js_get m k = None \<and> (\<exists>e. js_get m' k = Some e \<and> window_minute_ms \<le> t - lc_window_start e))))"

lemma minute_is_positive: "0 < window_minute_ms"
  by (simp add: window_minute_ms_def)

lemma counters_later: "counters_ok m t \<Longrightarrow> t \<le> t' \<Longrightarrow> counters_ok m t'"
  by (force simp: counters_ok_def)

lemma counters_count: "counters_ok m t \<Longrightarrow> counters_ok (count_login_failure key t m) t"
  by (auto simp: counters_ok_def count_login_failure_def Let_def refresh_if_expired_def touch_counter_def split: option.split)
     (meson order_trans)

lemma counters_delete: "counters_ok m t \<Longrightarrow> counters_ok (js_delete key m) t"
  by (auto simp: counters_ok_def)

lemma counters_sweep: "counters_ok m t \<Longrightarrow> counters_ok (sweep_login_counters t m) t"
  by (auto simp: counters_ok_def sweep_login_counters_def js_get_filter split: option.splits if_splits)

lemma unswept_later:
  assumes "as_if_unswept m m' t" and "t \<le> t'"
  shows "as_if_unswept m m' t'"
proof -
  have "window_minute_ms \<le> t' - lc_window_start e" if "window_minute_ms \<le> t - lc_window_start e" for e
    using that assms(2) by linarith
  then show ?thesis using assms counters_later unfolding as_if_unswept_def by meson
qed

lemma unswept_delete: "as_if_unswept m m' t \<Longrightarrow> as_if_unswept (js_delete key m) (js_delete key m') t"
  by (auto simp: as_if_unswept_def counters_delete)

lemma unswept_count:
  assumes "as_if_unswept m m' t"
  shows "as_if_unswept (count_login_failure key t m) (count_login_failure key t m') t"
proof -
  have "js_get (count_login_failure key t m) key = js_get (count_login_failure key t m') key"
  proof (cases "js_get m key = js_get m' key")
    case True
    then show ?thesis by (simp add: count_login_failure_def Let_def)
  next
    case False
    then obtain e where "js_get m key = None" "js_get m' key = Some e" "window_minute_ms \<le> t - lc_window_start e"
      using assms unfolding as_if_unswept_def by metis
    then show ?thesis
      using minute_is_positive by (simp add: count_login_failure_def Let_def refresh_if_expired_def touch_counter_def)
  qed
  moreover have "js_get (count_login_failure key t n) k = js_get n k" if "k \<noteq> key" for k and n :: "(string, login_counter) js_map"
    using that by (simp add: count_login_failure_def Let_def)
  ultimately show ?thesis
    using assms counters_count unfolding as_if_unswept_def by metis
qed

lemma unswept_sweep:
  assumes a: "as_if_unswept m m' t"
  shows "as_if_unswept (sweep_login_counters t m) m' t"
proof -
  have ok: "counters_ok m t" using a by (simp add: as_if_unswept_def)
  have get: "js_get (sweep_login_counters t m) k
      = (case js_get m k of None \<Rightarrow> None | Some e \<Rightarrow> if login_window_ttl_ms \<le> t - lc_last_seen_at e then None else Some e)" for k
    using ok by (simp add: sweep_login_counters_def counters_ok_def js_get_filter split: option.split)
  have over: "window_minute_ms \<le> t - lc_window_start e"
    if "js_get m k = Some e" "login_window_ttl_ms \<le> t - lc_last_seen_at e" for k e
    using ok that by (force simp: counters_ok_def login_window_ttl_ms_def window_minute_ms_def)
  have "js_get (sweep_login_counters t m) k = js_get m' k
      \<or> (js_get (sweep_login_counters t m) k = None
         \<and> (\<exists>e. js_get m' k = Some e \<and> window_minute_ms \<le> t - lc_window_start e))" for k
  proof (cases "js_get m k")
    case None
    then show ?thesis using a [unfolded as_if_unswept_def, THEN conjunct2, THEN spec, of k] by (simp add: get)
  next
    case (Some e)
    then have "js_get m' k = Some e" using a [unfolded as_if_unswept_def, THEN conjunct2, THEN spec, of k] by simp
    then show ?thesis using over [OF Some] by (simp add: get Some)
  qed
  then show ?thesis using counters_sweep [OF ok] by (simp add: as_if_unswept_def)
qed

lemma unswept_exceeded:
  assumes "as_if_unswept m m' t"
  shows "is_exceeded (js_get m k) limit window_minute_ms t = is_exceeded (js_get m' k) limit window_minute_ms t"
  using assms [unfolded as_if_unswept_def, THEN conjunct2, THEN spec, of k] by (auto simp: is_exceeded_def)

definition limiter_as_unswept :: "login_limiter \<Rightarrow> login_limiter \<Rightarrow> rat \<Rightarrow> bool" where
  "limiter_as_unswept l r t = (as_if_unswept (ll_ip l) (ll_ip r) t \<and> as_if_unswept (ll_username l) (ll_username r) t)"

lemma limiter_step_unswept:
  assumes "limiter_as_unswept l r t"
  shows "fst (limiter_step C call t l) = fst (unswept_step C call t r)"
    "limiter_as_unswept (snd (limiter_step C call t l)) (snd (unswept_step C call t r)) t"
proof -
  have swept: "limiter_as_unswept (maybe_sweep_logins t l) r t"
    using assms by (auto simp: limiter_as_unswept_def maybe_sweep_logins_def Let_def unswept_sweep)
  have "login_verdict C ip name t (maybe_sweep_logins t l) = login_verdict C ip name t r" for ip name
    using swept by (auto simp: limiter_as_unswept_def login_verdict_def Let_def unswept_exceeded split: option.split)
  then show "fst (limiter_step C call t l) = fst (unswept_step C call t r)"
    by (cases call) (simp_all add: check_login_def Let_def)
  show "limiter_as_unswept (snd (limiter_step C call t l)) (snd (unswept_step C call t r)) t"
    using assms swept
    by (cases call) (auto simp: check_login_def Let_def limiter_as_unswept_def register_failure_def register_success_def
        unswept_count unswept_delete)
qed

lemma answers_unswept:
  assumes "limiter_as_unswept l r t" and "sorted (t # map snd calls)"
  shows "limiter_answers (limiter_step C) calls l = limiter_answers (unswept_step C) calls r"
  using assms
proof (induction calls arbitrary: l r t)
  case (Cons c calls)
  obtain call now where c: "c = (call, now)" by fastforce
  have now: "limiter_as_unswept l r now"
    using Cons.prems c by (auto simp: limiter_as_unswept_def intro: unswept_later)
  show ?case
    using limiter_step_unswept [OF now, of C call] Cons.IH [of _ _ now] Cons.prems(2)
    by (auto simp: c split: prod.split)
qed simp

text \<open>
  C29. Dropping idle counters cannot be seen. Whatever logins are checked, failed and succeeded, from whatever addresses
  and with whatever names, on a clock that does not run backwards, every verdict of the limiter, with the time it asks the
  client to wait, is that of a limiter that never drops a counter.
\<close>

theorem login_sweep_is_invisible:
  assumes "sorted (map snd calls)"
  shows "limiter_answers (limiter_step C) calls create_admin_login_rate_limiter
    = limiter_answers (unswept_step C) calls create_admin_login_rate_limiter"
proof (cases calls)
  case (Cons c rest)
  have "limiter_as_unswept create_admin_login_rate_limiter create_admin_login_rate_limiter (snd c)"
    by (simp add: limiter_as_unswept_def as_if_unswept_def counters_ok_def create_admin_login_rate_limiter_def)
  then show ?thesis by (rule answers_unswept) (use assms Cons in auto)
qed simp

theorem login_sweep_is_invisible_witness:
  "let C = \<lparr> failures_per_ip_per_minute = 1, failures_per_username_per_minute = 3 \<rparr>;
       calls = (Login_Failure ''10.0.0.1'' ''Root '', 0) # (Check_Login ''10.0.0.1'' ''x'', 59000)
         # replicate 63 (Check_Login ''10.0.0.2'' ''root'', 700000) @ [(Check_Login ''10.0.0.1'' ''root'', 700000)]
   in limiter_answers (limiter_step C) calls create_admin_login_rate_limiter
      = limiter_answers (unswept_step C) calls create_admin_login_rate_limiter
    \<and> fst (limiter_step C (Check_Login ''10.0.0.1'' ''x'') 59000
        (snd (limiter_step C (Login_Failure ''10.0.0.1'' ''Root '') 0 create_admin_login_rate_limiter))) = Some (By_Ip, 1000)"
  unfolding Let_def
proof (rule conjI)
  let ?calls = "(Login_Failure ''10.0.0.1'' ''Root '', 0) # (Check_Login ''10.0.0.1'' ''x'', 59000)
         # replicate 63 (Check_Login ''10.0.0.2'' ''root'', 700000) @ [(Check_Login ''10.0.0.1'' ''root'', 700000)]"
  have "sorted (map snd ?calls :: rat list)" by (simp add: sorted_append)
  then show "limiter_answers (limiter_step \<lparr> failures_per_ip_per_minute = 1, failures_per_username_per_minute = 3 \<rparr>) ?calls
      create_admin_login_rate_limiter
    = limiter_answers (unswept_step \<lparr> failures_per_ip_per_minute = 1, failures_per_username_per_minute = 3 \<rparr>) ?calls
        create_admin_login_rate_limiter"
    by (rule login_sweep_is_invisible)
next
  show "fst (limiter_step \<lparr> failures_per_ip_per_minute = 1, failures_per_username_per_minute = 3 \<rparr>
      (Check_Login ''10.0.0.1'' ''x'') 59000
        (snd (limiter_step \<lparr> failures_per_ip_per_minute = 1, failures_per_username_per_minute = 3 \<rparr>
          (Login_Failure ''10.0.0.1'' ''Root '') 0 create_admin_login_rate_limiter))) = Some (By_Ip, 1000)"
    by (code_simp)
qed

subsection \<open>Where sessions come from\<close>

definition opened_by ::
    "crypto \<Rightarrow> admin_config \<Rightarrow> (admin_event \<times> rat) list \<Rightarrow> string \<Rightarrow> admin_session \<Rightarrow> bool" where
  "opened_by X C es token_id session =
     (\<exists>r ip username password token session_id t0 seen.
        (Login_Request r ip username password token session_id, t0) \<in> set es
        \<and> evaluate_admin_write_origin r (ac_origins C) = Write_Origin_Ok
        \<and> credentials_match X (ac_auth C) (js_trim username) password
        \<and> token_id_of X (aa_session_secret (ac_auth C)) token = token_id
        \<and> session = (new_admin_session (ac_auth C) session_id t0)\<lparr> adm_last_seen_at := seen \<rparr>)"

definition sessions_opened :: "crypto \<Rightarrow> admin_config \<Rightarrow> (admin_event \<times> rat) list \<Rightarrow> admin_state \<Rightarrow> bool" where
  "sessions_opened X C es s =
     ((\<forall>k v. js_get (ad_sessions s) k = Some v \<longrightarrow> opened_by X C es k v)
      \<and> (\<forall>k v. Session_Got k (Some v) \<in> set (ad_tasks s) \<longrightarrow> opened_by X C es k v)
      \<and> (\<forall>k v t. Authenticated k v t \<in> set (ad_log s) \<longrightarrow>
           opened_by X C es k v \<and> adm_last_seen_at v = t \<and> t < adm_expires_at v))"

lemma opened_by_more: "opened_by X C es k v \<Longrightarrow> opened_by X C (es @ es') k v"
  unfolding opened_by_def by (auto simp del: split_paired_Ex) blast

lemma opened_by_seen: "opened_by X C es k v \<Longrightarrow> opened_by X C es k (v\<lparr> adm_last_seen_at := t \<rparr>)"
  unfolding opened_by_def by (elim exE conjE) (intro exI conjI, auto)

lemma sessions_opened_more: "sessions_opened X C es s \<Longrightarrow> sessions_opened X C (es @ es') s"
  unfolding sessions_opened_def using opened_by_more by blast

lemma opened_login_fresh:
  assumes "credentials_match X (ac_auth C) (js_trim username) password"
    and "evaluate_admin_write_origin r (ac_origins C) = Write_Origin_Ok"
  shows "opened_by X C (es @ [(Login_Request r ip username password token session_id, now)])
    (token_id_of X (aa_session_secret (ac_auth C)) token) (new_admin_session (ac_auth C) session_id now)"
proof -
  have "new_admin_session (ac_auth C) session_id now
      = (new_admin_session (ac_auth C) session_id now)\<lparr> adm_last_seen_at := now \<rparr>"
    by (simp add: new_admin_session_def)
  then show ?thesis unfolding opened_by_def using assms by (intro exI conjI) auto
qed

lemma sessions_opened_frame:
  assumes "sessions_opened X C es s" and "ad_sessions s' = ad_sessions s" and "set (ad_tasks s') \<subseteq> set (ad_tasks s)"
    and "ad_log s' = ad_log s"
  shows "sessions_opened X C es s'"
  using assms unfolding sessions_opened_def by auto

lemma opened_login:
  assumes s: "sessions_opened X C es s"
  shows "sessions_opened X C (es @ [(Login_Request r ip username password token session_id, now)])
    (login_request X C r ip username password token session_id now s)"
proof -
  let ?es = "es @ [(Login_Request r ip username password token session_id, now)]"
  have more: "sessions_opened X C ?es s" by (rule sessions_opened_more [OF s])
  have credentials: "sessions_opened X C ?es (login_credentials X C ip (js_trim username) password token session_id now s1)"
    if "sessions_opened X C ?es s1" "evaluate_admin_write_origin r (ac_origins C) = Write_Origin_Ok" for s1
    using that opened_login_fresh [OF _ that(2), of X username password es ip token session_id now]
    by (auto simp: login_credentials_def log_note_def sessions_opened_def)
  have limited: "sessions_opened X C ?es (s\<lparr> ad_limiter := l \<rparr>)" for l
    using more by (simp add: sessions_opened_def)
  have noted: "sessions_opened X C ?es (log_note (Login_Limited ip) (s\<lparr> ad_limiter := l \<rparr>))" for l
    using more by (simp add: sessions_opened_def log_note_def)
  show ?thesis
    unfolding login_request_def Let_def using more credentials [OF limited] noted by (auto split: prod.split)
qed

lemma opened_got:
  assumes s: "sessions_opened X C es s" and got: "\<And>v. session = Some v \<Longrightarrow> opened_by X C es token_id v"
  shows "sessions_opened X C es (authenticate_got token_id session now s)"
proof (cases session)
  case None
  then show ?thesis using s by (simp add: authenticate_got_def sessions_opened_def log_note_def)
next
  case (Some v)
  show ?thesis
    using s opened_by_seen [OF got [OF Some], of now]
    by (auto simp: authenticate_got_def Some Let_def sessions_opened_def log_note_def)
qed

lemma opened_step:
  assumes s: "sessions_opened X C es s"
  shows "sessions_opened X C (es @ [(e, now)]) (admin_step X C e now s)"
proof (cases e)
  case (Login_Request r ip username password token session_id)
  then show ?thesis using opened_login [OF s] by simp
next
  case (Logout_Request r token)
  then show ?thesis using sessions_opened_more [OF s] by (auto simp: logout_request_def sessions_opened_def)
next
  case (Admin_Request token)
  then show ?thesis using sessions_opened_more [OF s] by (auto simp: require_admin_def Let_def sessions_opened_def)
next
  case (Admin_Goes_On i)
  define s1 where "s1 = s\<lparr> ad_tasks := take i (ad_tasks s) @ drop (i + 1) (ad_tasks s) \<rparr>"
  have more: "sessions_opened X C (es @ [(e, now)]) s" by (rule sessions_opened_more [OF s])
  have s1: "sessions_opened X C (es @ [(e, now)]) s1"
    by (rule sessions_opened_frame [OF more]) (auto simp: s1_def dest: in_set_takeD in_set_dropD)
  show ?thesis
  proof (cases "i < length (ad_tasks s)")
    case False
    then show ?thesis using more Admin_Goes_On by simp
  next
    case True
    have task: "ad_tasks s ! i \<in> set (ad_tasks s)" using True by simp
    have "sessions_opened X C (es @ [(e, now)]) (admin_goes_on (ad_tasks s ! i) now s1)"
    proof (cases "ad_tasks s ! i")
      case (Login_Saved ip name)
      then show ?thesis using s1 by (simp add: sessions_opened_def)
    next
      case (Session_Got token_id session)
      have "opened_by X C (es @ [(e, now)]) token_id v" if "session = Some v" for v
        using more task Session_Got that unfolding sessions_opened_def by metis
      then show ?thesis unfolding Session_Got using opened_got [OF s1] by simp
    qed
    then show ?thesis using True Admin_Goes_On by (simp add: s1_def)
  qed
qed

lemma admin_run_snoc: "admin_run X C (es @ [(e, now)]) = admin_step X C e now (admin_run X C es)"
  by (simp add: admin_run_def)

lemma opened_run: "sessions_opened X C es (admin_run X C es)"
proof (induction es rule: rev_induct)
  case Nil
  show ?case by (simp add: admin_run_def admin_start_def sessions_opened_def)
next
  case (snoc x es)
  then show ?case by (cases x) (simp add: admin_run_snoc opened_step)
qed

text \<open>
  C27. Nobody is an operator without having logged in. Whoever is let through at a moment, in whatever order requests and
  the session store answer, holds the token of a login of this run that came from an allowed origin with the configured
  name and a password that fits the configured hash; the session is the one that login opened, with its role, and
  its lifetime is not over.
\<close>

theorem operators_have_logged_in:
  assumes "Authenticated token_id session t \<in> set (ad_log (admin_run X C es))"
  shows "\<exists>r ip username password token session_id t0.
    (Login_Request r ip username password token session_id, t0) \<in> set es
    \<and> evaluate_admin_write_origin r (ac_origins C) = Write_Origin_Ok
    \<and> credentials_match X (ac_auth C) (js_trim username) password
    \<and> token_id_of X (aa_session_secret (ac_auth C)) token = token_id
    \<and> session = (new_admin_session (ac_auth C) session_id t0)\<lparr> adm_last_seen_at := t \<rparr>
    \<and> t < t0 + aa_session_ttl_ms (ac_auth C)"
proof -
  have o: "opened_by X C es token_id session" "adm_last_seen_at session = t" "t < adm_expires_at session"
    using opened_run [of X C es] assms by (auto simp: sessions_opened_def)
  then show ?thesis
    unfolding opened_by_def by (elim exE conjE) (intro exI conjI, assumption+, auto simp: new_admin_session_def)
qed

subsection \<open>A login, and a logout that comes too early\<close>

definition sample_crypto :: crypto where
  "sample_crypto = \<lparr> sha256 = rev, scrypt = (\<lambda>p s n. take n (p @ s)), hex_of = (\<lambda>b. b), from_hex = (\<lambda>b. b), from_base64url = (\<lambda>b. b) \<rparr>"

definition sample_admin :: admin_config where
  "sample_admin = \<lparr> ac_limits = \<lparr> failures_per_ip_per_minute = 5, failures_per_username_per_minute = 5 \<rparr>,
     ac_auth = \<lparr> aa_username = ''root'', aa_password_hash = ''sha256:terces'', aa_session_secret = ''k'',
       aa_session_ttl_ms = 3600000, aa_role = Operator \<rparr>,
     ac_origins = [''https://admin.example''] \<rparr>"

definition sample_http :: admin_http_request where
  "sample_http = \<lparr> hr_origin = Some ''https://admin.example'', hr_host = Some ''sync.example'', hr_forwarded_proto = None, hr_encrypted = True \<rparr>"

definition early_logout :: "(admin_event \<times> rat) list" where
  "early_logout =
     [(Login_Request sample_http ''10.0.0.1'' '' root'' ''secret'' ''t1'' ''s1'', 0), (Admin_Goes_On 0, 1),
      (Admin_Request (Some ''t1''), 2), (Logout_Request sample_http (Some ''t1''), 3), (Admin_Goes_On 0, 4),
      (Admin_Request (Some ''t1''), 1000), (Admin_Goes_On 0, 1001)]"

text \<open>
  A request that is being authenticated while its session is logged out writes the session back when it goes on, and
  the token that was logged out is accepted again afterwards.
\<close>

lemma logout_is_undone:
  "ad_log (admin_run sample_crypto sample_admin early_logout)
     = [Password_Checked ''10.0.0.1'' True,
        Authenticated ''1t:k'' ((new_admin_session (ac_auth sample_admin) ''s1'' 0)\<lparr> adm_last_seen_at := 4 \<rparr>) 4,
        Authenticated ''1t:k'' ((new_admin_session (ac_auth sample_admin) ''s1'' 0)\<lparr> adm_last_seen_at := 1001 \<rparr>) 1001]"
  by code_simp

theorem operators_have_logged_in_witness:
  "\<exists>r ip username password token session_id t0.
    (Login_Request r ip username password token session_id, t0) \<in> set early_logout
    \<and> evaluate_admin_write_origin r (ac_origins sample_admin) = Write_Origin_Ok
    \<and> credentials_match sample_crypto (ac_auth sample_admin) (js_trim username) password
    \<and> token_id_of sample_crypto (aa_session_secret (ac_auth sample_admin)) token = ''1t:k''
    \<and> (new_admin_session (ac_auth sample_admin) ''s1'' 0)\<lparr> adm_last_seen_at := 1001 \<rparr>
        = (new_admin_session (ac_auth sample_admin) session_id t0)\<lparr> adm_last_seen_at := 1001 \<rparr>
    \<and> 1001 < t0 + aa_session_ttl_ms (ac_auth sample_admin)"
  by (rule operators_have_logged_in) (simp add: logout_is_undone)

subsection \<open>How often an address may guess\<close>

text \<open>A limit of zero still lets one guess per window through, since only a counter that exists is looked at.\<close>

definition guess_limit :: "admin_config \<Rightarrow> nat" where
  "guess_limit C = max 1 (failures_per_ip_per_minute (ac_limits C))"

definition window_of :: "login_counter \<Rightarrow> window_counter" where
  "window_of e = \<lparr> window_start = lc_window_start e, counted = lc_count e \<rparr>"

definition guesses_left :: "nat \<Rightarrow> string \<Rightarrow> (string, login_counter) js_map \<Rightarrow> rat \<Rightarrow> rat" where
  "guesses_left limit ip m t = (case js_get m ip of
     None \<Rightarrow> of_nat limit | Some e \<Rightarrow> window_potential limit window_minute_ms (window_of e) t)"

definition guesses_ok :: "nat \<Rightarrow> (string, login_counter) js_map \<Rightarrow> rat \<Rightarrow> bool" where
  "guesses_ok limit m t = (counters_ok m t \<and> (\<forall>k e. js_get m k = Some e \<longrightarrow> 1 \<le> lc_count e \<and> lc_count e \<le> limit))"

lemma guesses_window:
  assumes "guesses_ok limit m t" and "js_get m k = Some e"
  shows "window_ok limit window_minute_ms (window_of e) t"
proof -
  have "lc_window_start e \<le> t" using assms order_trans by (fastforce simp: guesses_ok_def counters_ok_def)
  then show ?thesis using assms minute_is_positive by (auto simp: window_ok_def window_of_def guesses_ok_def)
qed

lemma exceeded_iff:
  "is_exceeded (Some e) limit window_minute_ms t = None \<longleftrightarrow> window_minute_ms \<le> t - lc_window_start e \<or> lc_count e < limit"
  by (simp add: is_exceeded_def)

text \<open>A failure that was let through is one unit of the fixed window.\<close>

lemma failure_is_consumed:
  assumes "is_exceeded (Some e) limit window_minute_ms t = None" and "1 \<le> lc_count e"
  shows "consume_fixed_window (window_of e) (max 1 limit) window_minute_ms t
    = (True, window_of (let e' = refresh_if_expired window_minute_ms t (e\<lparr> lc_last_seen_at := t \<rparr>) in e'\<lparr> lc_count := lc_count e' + 1 \<rparr>))"
  using assms unfolding exceeded_iff
  by (auto simp: consume_fixed_window_def refresh_if_expired_def window_of_def Let_def)

lemma failure_pays:
  assumes ok: "guesses_ok (max 1 limit) m t" and free: "is_exceeded (js_get m k) limit window_minute_ms t = None"
  shows "guesses_ok (max 1 limit) (count_login_failure k t m) t"
    "guesses_left (max 1 limit) ip (count_login_failure k t m) t + (if ip = k then 1 else 0) \<le> guesses_left (max 1 limit) ip m t"
proof -
  define e where "e = (let e' = refresh_if_expired window_minute_ms t (touch_counter (js_get m k) t) in e'\<lparr> lc_count := lc_count e' + 1 \<rparr>)"
  have get: "js_get (count_login_failure k t m) k' = (if k' = k then Some e else js_get m k')" for k'
    by (simp add: count_login_failure_def e_def Let_def)
  have e: "1 \<le> lc_count e \<and> lc_count e \<le> max 1 limit
      \<and> window_potential (max 1 limit) window_minute_ms (window_of e) t + 1 \<le> guesses_left (max 1 limit) k m t"
  proof (cases "js_get m k")
    case None
    then show ?thesis
      using minute_is_positive
      by (simp add: e_def touch_counter_def refresh_if_expired_def Let_def guesses_left_def window_potential_def window_of_def)
  next
    case (Some e0)
    have w: "window_ok (max 1 limit) window_minute_ms (window_of e0) t" by (rule guesses_window [OF ok Some])
    have c: "consume_fixed_window (window_of e0) (max 1 limit) window_minute_ms t = (True, window_of e)"
      unfolding e_def Some touch_counter_def option.case
      by (rule failure_is_consumed) (use ok free Some in \<open>auto simp: guesses_ok_def\<close>)
    have "counted (window_of e) \<le> max 1 limit" using fixed_window.take_ok [OF w c] by (simp add: window_ok_def)
    then show ?thesis
      using fixed_window.take_pays [OF w c] Some by (simp add: guesses_left_def window_of_def e_def Let_def)
  qed
  show "guesses_ok (max 1 limit) (count_login_failure k t m) t"
    using ok e counters_count [of m t k] by (auto simp: guesses_ok_def get)
  show "guesses_left (max 1 limit) ip (count_login_failure k t m) t + (if ip = k then 1 else 0) \<le> guesses_left (max 1 limit) ip m t"
    using e by (auto simp: guesses_left_def get)
qed

lemma sweep_gives_nothing:
  assumes ok: "guesses_ok limit m t"
  shows "guesses_ok limit (sweep_login_counters t m) t"
    "guesses_left limit ip (sweep_login_counters t m) t \<le> guesses_left limit ip m t"
proof -
  have get: "js_get (sweep_login_counters t m) k
      = (case js_get m k of None \<Rightarrow> None | Some e \<Rightarrow> if login_window_ttl_ms \<le> t - lc_last_seen_at e then None else Some e)" for k
    using ok by (simp add: sweep_login_counters_def guesses_ok_def counters_ok_def js_get_filter split: option.split)
  show "guesses_ok limit (sweep_login_counters t m) t"
    using ok counters_sweep [of m t] by (auto simp: guesses_ok_def get split: option.splits if_splits)
  have "of_nat limit \<le> window_potential limit window_minute_ms (window_of e) t"
    if e: "js_get m ip = Some e" "login_window_ttl_ms \<le> t - lc_last_seen_at e" for e
  proof -
    have "window_minute_ms \<le> t - lc_window_start e"
      using ok e by (force simp: guesses_ok_def counters_ok_def login_window_ttl_ms_def window_minute_ms_def)
    then have "of_nat limit \<le> window_rate limit window_minute_ms * (t - lc_window_start e)"
      by (intro window_full_share minute_is_positive)
    moreover have "of_nat (lc_count e) \<le> (of_nat limit :: rat)" using ok e(1) by (simp add: guesses_ok_def)
    ultimately show ?thesis by (simp add: window_potential_def window_of_def)
  qed
  then show "guesses_left limit ip (sweep_login_counters t m) t \<le> guesses_left limit ip m t"
    by (auto simp: guesses_left_def get split: option.split)
qed

subsection \<open>The limiter as one guessing address sees it\<close>

text \<open>An address that never gets a password right, in the requests to come and in the answers still awaited.\<close>

definition always_wrong :: "crypto \<Rightarrow> admin_config \<Rightarrow> string \<Rightarrow> admin_event \<Rightarrow> bool" where
  "always_wrong X C ip e = (case e of
     Login_Request r ip_key username password token session_id \<Rightarrow>
       ip_key = ip \<longrightarrow> \<not> credentials_match X (ac_auth C) (js_trim username) password
   | _ \<Rightarrow> True)"

definition guess_of ::
    "crypto \<Rightarrow> admin_config \<Rightarrow> string \<Rightarrow> admin_state \<times> admin_event list \<Rightarrow> rat \<Rightarrow> bool \<times> (admin_state \<times> admin_event list)" where
  "guess_of X C ip s t = (case snd s of
       [] \<Rightarrow> (False, s)
     | e # es \<Rightarrow> (let s' = admin_step X C e t (fst s)
                 in (ad_log s' = ad_log (fst s) @ [Password_Checked ip False], (s', es))))"

definition guessing :: "crypto \<Rightarrow> admin_config \<Rightarrow> string \<Rightarrow> admin_state \<times> admin_event list \<Rightarrow> rat \<Rightarrow> bool" where
  "guessing X C ip s t =
     (guesses_ok (guess_limit C) (ll_ip (ad_limiter (fst s))) t \<and> list_all (always_wrong X C ip) (snd s)
      \<and> (\<forall>name. Login_Saved ip name \<notin> set (ad_tasks (fst s))))"

abbreviation guesses_of :: "admin_config \<Rightarrow> string \<Rightarrow> admin_state \<Rightarrow> rat \<Rightarrow> rat" where
  "guesses_of C ip s t \<equiv> guesses_left (guess_limit C) ip (ll_ip (ad_limiter s)) t"

lemma guesses_delete: "guesses_ok limit m t \<Longrightarrow> guesses_ok limit (js_delete k m) t"
  by (auto simp: guesses_ok_def counters_delete)

lemma swept_guesses:
  assumes "guesses_ok limit (ll_ip l) t"
  shows "guesses_ok limit (ll_ip (maybe_sweep_logins t l)) t"
    "guesses_left limit ip (ll_ip (maybe_sweep_logins t l)) t \<le> guesses_left limit ip (ll_ip l) t"
  using sweep_gives_nothing [OF assms] assms by (auto simp: maybe_sweep_logins_def Let_def)

lemma login_guesses:
  assumes ok: "guesses_ok (guess_limit C) (ll_ip (ad_limiter s)) t"
    and wrong: "always_wrong X C ip (Login_Request r k name password token session_id)"
  defines "s' \<equiv> login_request X C r k name password token session_id t s"
  shows "guesses_ok (guess_limit C) (ll_ip (ad_limiter s')) t"
    "guesses_of C ip s' t + (if ad_log s' = ad_log s @ [Password_Checked ip False] then 1 else 0) \<le> guesses_of C ip s t"
    "(\<forall>n. Login_Saved ip n \<notin> set (ad_tasks s)) \<longrightarrow> (\<forall>n. Login_Saved ip n \<notin> set (ad_tasks s'))"
proof -
  let ?l = "maybe_sweep_logins t (ad_limiter s)"
  note swept = swept_guesses [OF ok]
  have failed: "guesses_ok (guess_limit C) (ll_ip (register_failure k n t ?l)) t"
    "guesses_left (guess_limit C) ip (ll_ip (register_failure k n t ?l)) t + (if ip = k then 1 else 0)
      \<le> guesses_left (guess_limit C) ip (ll_ip ?l) t"
    if "login_verdict (ac_limits C) k n t ?l = None" for n
  proof -
    have free: "is_exceeded (js_get (ll_ip ?l) k) (failures_per_ip_per_minute (ac_limits C)) window_minute_ms t = None"
      using that by (simp add: login_verdict_def split: option.splits)
    have ip: "ll_ip (register_failure k n t ?l) = count_login_failure k t (ll_ip ?l)"
      by (simp add: register_failure_def Let_def)
    show "guesses_ok (guess_limit C) (ll_ip (register_failure k n t ?l)) t"
      "guesses_left (guess_limit C) ip (ll_ip (register_failure k n t ?l)) t + (if ip = k then 1 else 0)
        \<le> guesses_left (guess_limit C) ip (ll_ip ?l) t"
      using failure_pays [OF swept(1) [unfolded guess_limit_def] free] unfolding ip guess_limit_def by auto
  qed
  show "guesses_ok (guess_limit C) (ll_ip (ad_limiter s')) t"
    using ok swept(1) failed(1)
    by (cases "login_verdict (ac_limits C) k (js_trim name) t ?l") (auto simp: s'_def login_request_def Let_def check_login_def login_credentials_def log_note_def)
  show "guesses_of C ip s' t + (if ad_log s' = ad_log s @ [Password_Checked ip False] then 1 else 0) \<le> guesses_of C ip s t"
    using swept(2) [of ip] failed(2) [of "js_trim name"]
    by (cases "login_verdict (ac_limits C) k (js_trim name) t ?l")
      (auto simp: s'_def login_request_def Let_def check_login_def login_credentials_def log_note_def)
  show "(\<forall>n. Login_Saved ip n \<notin> set (ad_tasks s)) \<longrightarrow> (\<forall>n. Login_Saved ip n \<notin> set (ad_tasks s'))"
    using wrong by (auto simp: s'_def login_request_def Let_def check_login_def login_credentials_def log_note_def always_wrong_def)
qed

lemma other_guesses:
  assumes ok: "guesses_ok (guess_limit C) (ll_ip (ad_limiter s)) t" and none: "\<forall>n. Login_Saved ip n \<notin> set (ad_tasks s)"
    and e: "\<forall>r k name password token session_id. e \<noteq> Login_Request r k name password token session_id"
  shows "guesses_ok (guess_limit C) (ll_ip (ad_limiter (admin_step X C e t s))) t"
    "guesses_of C ip (admin_step X C e t s) t = guesses_of C ip s t"
    "ad_log (admin_step X C e t s) \<noteq> ad_log s @ [Password_Checked ip False]"
    "\<forall>n. Login_Saved ip n \<notin> set (ad_tasks (admin_step X C e t s))"
proof -
  have "guesses_ok (guess_limit C) (ll_ip (ad_limiter (admin_step X C e t s))) t
    \<and> guesses_of C ip (admin_step X C e t s) t = guesses_of C ip s t
    \<and> ad_log (admin_step X C e t s) \<noteq> ad_log s @ [Password_Checked ip False]
    \<and> (\<forall>n. Login_Saved ip n \<notin> set (ad_tasks (admin_step X C e t s)))"
  proof (cases e)
    case (Login_Request r k name password token session_id)
    then show ?thesis using e by blast
  next
    case (Logout_Request r token)
    then show ?thesis using ok none by (simp add: logout_request_def)
  next
    case (Admin_Request token)
    then show ?thesis using ok none by (simp add: require_admin_def Let_def)
  next
    case (Admin_Goes_On i)
    define s1 where "s1 = s\<lparr> ad_tasks := take i (ad_tasks s) @ drop (i + 1) (ad_tasks s) \<rparr>"
    have s1: "ad_limiter s1 = ad_limiter s" "ad_log s1 = ad_log s" "\<forall>n. Login_Saved ip n \<notin> set (ad_tasks s1)"
      using none by (auto simp: s1_def dest: in_set_takeD in_set_dropD)
    show ?thesis
    proof (cases "i < length (ad_tasks s)")
      case False
      then show ?thesis using ok none Admin_Goes_On by simp
    next
      case True
      then have task: "ad_tasks s ! i \<in> set (ad_tasks s)" by simp
      have step: "admin_step X C e t s = admin_goes_on (ad_tasks s ! i) t s1" using True Admin_Goes_On by (simp add: s1_def)
      show ?thesis
      proof (cases "ad_tasks s ! i")
        case (Login_Saved k name)
        then have "k \<noteq> ip" using task none by metis
        then show ?thesis
          unfolding step Login_Saved
          using ok s1 by (auto simp: register_success_def Let_def guesses_delete guesses_left_def)
      next
        case (Session_Got token_id session)
        then show ?thesis
          unfolding step Session_Got
          using ok s1 by (auto simp: authenticate_got_def log_note_def Let_def split: option.split)
      qed
    qed
  qed
  then show "guesses_ok (guess_limit C) (ll_ip (ad_limiter (admin_step X C e t s))) t"
    "guesses_of C ip (admin_step X C e t s) t = guesses_of C ip s t"
    "ad_log (admin_step X C e t s) \<noteq> ad_log s @ [Password_Checked ip False]"
    "\<forall>n. Login_Saved ip n \<notin> set (ad_tasks (admin_step X C e t s))" by blast+
qed

lemma guess_step:
  assumes ok: "guessing X C ip s t" and step: "guess_of X C ip s t = (granted, s')"
  shows "guessing X C ip s' t"
    "guesses_of C ip (fst s') t + (if granted then 1 else 0) \<le> guesses_of C ip (fst s) t"
proof -
  have "guessing X C ip s' t
    \<and> guesses_of C ip (fst s') t + (if granted then 1 else 0) \<le> guesses_of C ip (fst s) t"
  proof (cases "snd s")
    case Nil
    then show ?thesis using ok step by (auto simp: guess_of_def)
  next
    case (Cons e es)
    have s': "s' = (admin_step X C e t (fst s), es)"
      "granted = (ad_log (admin_step X C e t (fst s)) = ad_log (fst s) @ [Password_Checked ip False])"
      using step Cons by (auto simp: guess_of_def Let_def)
    have g: "guesses_ok (guess_limit C) (ll_ip (ad_limiter (fst s))) t" "always_wrong X C ip e"
      "list_all (always_wrong X C ip) es" "\<forall>n. Login_Saved ip n \<notin> set (ad_tasks (fst s))"
      using ok Cons by (auto simp: guessing_def)
    show ?thesis
    proof (cases "\<exists>r k name password token session_id. e = Login_Request r k name password token session_id")
      case True
      then obtain r k name password token session_id where e: "e = Login_Request r k name password token session_id" by blast
      show ?thesis using login_guesses [OF g(1) g(2) [unfolded e]] g(3,4) unfolding guessing_def s' e by simp
    next
      case False
      then show ?thesis using other_guesses [OF g(1,4), of e] g(3) unfolding guessing_def s' by auto
    qed
  qed
  then show "guessing X C ip s' t"
    "guesses_of C ip (fst s') t + (if granted then 1 else 0) \<le> guesses_of C ip (fst s) t" by blast+
qed

interpretation guesses: metered
  "guess_of X C ip"
  "\<lambda>s t. guesses_of C ip (fst s) t"
  "window_rate (guess_limit C) window_minute_ms"
  "guessing X C ip"
  for X C ip
proof
  fix s :: "admin_state \<times> admin_event list" and t t' :: rat and granted :: bool and s' :: "admin_state \<times> admin_event list"
  show rate: "0 \<le> window_rate (guess_limit C) window_minute_ms" by (rule window_rate_nonneg)
  have window: "window_ok (guess_limit C) window_minute_ms (window_of e) t"
    if "guessing X C ip s t" "js_get (ll_ip (ad_limiter (fst s))) ip = Some e" for e
    by (rule guesses_window) (use that in \<open>auto simp: guessing_def\<close>)
  show "0 \<le> guesses_of C ip (fst s) t" if ok: "guessing X C ip s t"
    using fixed_window.potential_nonneg [OF window [OF ok]] by (simp add: guesses_left_def split: option.split)
  show "guesses_of C ip (fst s) t' \<le> guesses_of C ip (fst s) t + window_rate (guess_limit C) window_minute_ms * (t' - t)"
    if ok: "guessing X C ip s t" and le: "t \<le> t'"
    using fixed_window.potential_grows [OF window [OF ok] le] rate le by (auto simp: guesses_left_def split: option.split)
  show "guesses_of C ip (fst s') t + (if granted then 1 else 0) \<le> guesses_of C ip (fst s) t"
    if "guessing X C ip s t" "guess_of X C ip s t = (granted, s')"
    by (rule guess_step(2) [OF that])
  show "guessing X C ip s' t" if "guessing X C ip s t" "guess_of X C ip s t = (granted, s')"
    by (rule guess_step(1) [OF that])
  show "guessing X C ip s t'" if "guessing X C ip s t" "t \<le> t'"
    using that counters_later by (auto simp: guessing_def guesses_ok_def)
qed


definition wrong_guess :: admin_event where
  "wrong_guess = Login_Request sample_http ''10.0.0.9'' ''root'' ''guess'' ''t9'' ''s9''"


end
