(* ===== verification/Connection_Security.thy ===== *)
theory Connection_Security
  imports Server_Types
begin

text \<open>
  \<open>server/src/security.ts\<close> on \<open>origin.ts\<close>: who may open a WebSocket. An upgrade request is
  admitted when its address has attempts left in its window, its origin is allowed and the
  address has connections left; \<open>x-forwarded-for\<close> names the address only behind a trusted proxy.

  \<open>isIP\<close> and \<open>new URL\<close> belong to the platform and are the parameters \<open>is_ip\<close> and
  \<open>parse_origin\<close> (the protocol and host the source reads). Headers are Latin-1, so a \<open>char\<close> is
  one code unit of theirs.
\<close>

subsection \<open>Text\<close>

definition is_lower_hex :: "char \<Rightarrow> bool" where
  "is_lower_hex c = (is_digit c \<or> CHR ''a'' \<le> c \<and> c \<le> CHR ''f'')"

subsection \<open>Origins\<close>

record origin_url =
  url_protocol :: string
  url_host :: string

datatype bare_origin_check =
    Bare string string string
  | Empty_Origin | Wildcard | Invalid_Url | No_Host
  | Unsupported_Scheme string
  | Not_Bare string

definition check_bare_origin ::
    "(string \<Rightarrow> origin_url option) \<Rightarrow> string \<Rightarrow> string list \<Rightarrow> bare_origin_check" where
  "check_bare_origin parse_origin org allowed_schemes =
     (if org = [] then Empty_Origin
      else if CHR ''*'' \<in> set org then Wildcard
      else case parse_origin org of
        None \<Rightarrow> Invalid_Url
      | Some parsed \<Rightarrow>
          if url_protocol parsed \<notin> set allowed_schemes then Unsupported_Scheme (url_protocol parsed)
          else if url_host parsed = [] then No_Host
          else
            let canonical = url_protocol parsed @ ''//'' @ url_host parsed
            in if org \<noteq> canonical then Not_Bare canonical
               else Bare canonical (url_protocol parsed) (url_host parsed))"

definition firefox_extension_uuid :: "string \<Rightarrow> bool" where
  "firefox_extension_uuid s =
     (map length (split_on CHR ''-'' s) = [8, 4, 4, 4, 12]
      \<and> list_all (list_all is_lower_hex) (split_on CHR ''-'' s))"

definition is_bare_moz_extension_origin :: "(string \<Rightarrow> origin_url option) \<Rightarrow> string option \<Rightarrow> bool" where
  "is_bare_moz_extension_origin parse_origin org =
     (case org of
        None \<Rightarrow> False
      | Some t \<Rightarrow>
          (case check_bare_origin parse_origin t [''moz-extension:''] of
             Bare _ _ host \<Rightarrow> firefox_extension_uuid host
           | _ \<Rightarrow> False))"

datatype origin_verdict = Origin_Ok | Origin_Refused string

definition is_origin_allowed ::
    "(string \<Rightarrow> origin_url option) \<Rightarrow> security_config \<Rightarrow> string option \<Rightarrow> origin_verdict" where
  "is_origin_allowed parse_origin config org =
     (case org of
        Some t \<Rightarrow>
          if t = [] then
            (if allow_missing_origin_in_dev config then Origin_Ok else Origin_Refused ''origin_missing'')
          else if t \<in> set (allowed_origins config) then Origin_Ok
          else if allow_any_firefox_extension_origin config \<and> is_bare_moz_extension_origin parse_origin (Some t)
          then Origin_Ok
          else Origin_Refused ''origin_not_allowed''
      | None \<Rightarrow>
          if allow_missing_origin_in_dev config then Origin_Ok else Origin_Refused ''origin_missing'')"

subsection \<open>Addresses\<close>

text \<open>\<open>(\d+\.\d+\.\d+\.\d+)\<close> after a case-insensitive \<open>::ffff:\<close>.\<close>

definition mapped_ipv4 :: "string \<Rightarrow> string option" where
  "mapped_ipv4 s =
     (if map to_lower (take 7 s) = ''::ffff:'' \<and> length (split_on CHR ''.'' (drop 7 s)) = 4
         \<and> list_all all_digits (split_on CHR ''.'' (drop 7 s))
      then Some (drop 7 s) else None)"

definition normalize_ip_address :: "(string \<Rightarrow> nat) \<Rightarrow> string \<Rightarrow> string option" where
  "normalize_ip_address is_ip v =
     (let trimmed = js_trim v
      in if trimmed = [] then None
         else
           let unwrapped = (if hd trimmed = CHR ''['' \<and> last trimmed = CHR '']''
                            then butlast (tl trimmed) else trimmed)
           in if is_ip unwrapped = 0 then None
              else case mapped_ipv4 unwrapped of
                Some v4 \<Rightarrow> if is_ip v4 = 4 then Some v4 else Some unwrapped
              | None \<Rightarrow> Some unwrapped)"

fun all_some :: "'a option list \<Rightarrow> 'a list option" where
  "all_some [] = Some []"
| "all_some (None # xs) = None"
| "all_some (Some x # xs) = map_option ((#) x) (all_some xs)"

definition parse_forwarded_chain :: "(string \<Rightarrow> nat) \<Rightarrow> string \<Rightarrow> string list option" where
  "parse_forwarded_chain is_ip forwarded =
     (let parts = map js_trim (split_on CHR '','' forwarded)
      in if parts = [] \<or> [] \<in> set parts then None
         else all_some (map (normalize_ip_address is_ip) parts))"

definition trusted_addresses :: "(string \<Rightarrow> nat) \<Rightarrow> security_config \<Rightarrow> string list" where
  "trusted_addresses is_ip config =
     List.map_filter (normalize_ip_address is_ip) (trusted_proxy_addresses config)"

text \<open>From the last hop backwards, the first address that is no trusted proxy.\<close>

definition get_trusted_forwarded_address ::
    "(string \<Rightarrow> nat) \<Rightarrow> security_config \<Rightarrow> string \<Rightarrow> string option" where
  "get_trusted_forwarded_address is_ip config forwarded =
     (case parse_forwarded_chain is_ip forwarded of
        None \<Rightarrow> None
      | Some chain \<Rightarrow> List.find (\<lambda>a. a \<notin> set (trusted_addresses is_ip config)) (rev chain))"

datatype header_value = Absent | One string | Several "string list"

record upgrade_request =
  rq_remote_address :: "string option"
  rq_forwarded_for :: header_value
  rq_origin :: header_value

definition get_remote_address :: "(string \<Rightarrow> nat) \<Rightarrow> security_config \<Rightarrow> upgrade_request \<Rightarrow> string option" where
  "get_remote_address is_ip config request =
     (let socket_remote_address =
            normalize_ip_address is_ip (case rq_remote_address request of None \<Rightarrow> [] | Some a \<Rightarrow> a)
      in case (socket_remote_address, rq_forwarded_for request) of
           (Some a, One forwarded) \<Rightarrow>
             if a \<in> set (trusted_addresses is_ip config) \<and> js_trim forwarded \<noteq> []
             then (case get_trusted_forwarded_address is_ip config forwarded of
                     Some client \<Rightarrow> Some client | None \<Rightarrow> Some a)
             else Some a
         | _ \<Rightarrow> socket_remote_address)"

subsection \<open>Attempts and connections\<close>

record attempt_window_entry =
  aw_counter :: window_counter
  aw_last_seen_at :: rat

record security_state =
  sec_attempts :: "(string, attempt_window_entry) js_map"
  sec_connections :: "(string, nat) js_map"
  sec_evaluate_count :: nat

definition empty_security_state :: security_state where
  "empty_security_state = \<lparr> sec_attempts = [], sec_connections = [], sec_evaluate_count = 0 \<rparr>"

definition attempt_window_ttl_ms :: rat where "attempt_window_ttl_ms = 10 * window_minute_ms"
definition attempt_window_sweep_interval :: nat where "attempt_window_sweep_interval = 64"

definition connection_count :: "security_state \<Rightarrow> string \<Rightarrow> nat" where
  "connection_count st ip = (case js_get (sec_connections st) ip of None \<Rightarrow> 0 | Some n \<Rightarrow> n)"

definition increment_connection_count :: "string option \<Rightarrow> security_state \<Rightarrow> security_state" where
  "increment_connection_count remote_address st =
     (if truthy remote_address
      then st\<lparr> sec_connections := js_set (the remote_address)
                 (connection_count st (the remote_address) + 1) (sec_connections st) \<rparr>
      else st)"

definition decrement_connection_count :: "string option \<Rightarrow> security_state \<Rightarrow> security_state" where
  "decrement_connection_count remote_address st =
     (if truthy remote_address
      then
        let ip = the remote_address;
            next_value = (case js_get (sec_connections st) ip of None \<Rightarrow> 1 | Some n \<Rightarrow> int n) - 1
        in if next_value \<le> 0 then st\<lparr> sec_connections := js_delete ip (sec_connections st) \<rparr>
           else st\<lparr> sec_connections := js_set ip (nat next_value) (sec_connections st) \<rparr>
      else st)"

text \<open>The entry of an address, touched or new.\<close>

definition get_attempt_window :: "string \<Rightarrow> rat \<Rightarrow> security_state \<Rightarrow> security_state" where
  "get_attempt_window ip_key current_time st =
     (let entry = (case js_get (sec_attempts st) ip_key of
                     Some existing \<Rightarrow> existing\<lparr> aw_last_seen_at := current_time \<rparr>
                   | None \<Rightarrow> \<lparr> aw_counter = create_window_counter current_time, aw_last_seen_at = current_time \<rparr>)
      in st\<lparr> sec_attempts := js_set ip_key entry (sec_attempts st) \<rparr>)"

definition maybe_sweep_attempt_windows :: "rat \<Rightarrow> security_state \<Rightarrow> security_state" where
  "maybe_sweep_attempt_windows current_time st0 =
     (let st = st0\<lparr> sec_evaluate_count := sec_evaluate_count st0 + 1 \<rparr>
      in if sec_evaluate_count st mod attempt_window_sweep_interval \<noteq> 0 then st
         else st\<lparr> sec_attempts := filter (\<lambda>(ip, entry).
                \<not> (attempt_window_ttl_ms \<le> current_time - aw_last_seen_at entry \<and> connection_count st ip = 0))
                (sec_attempts st) \<rparr>)"

text \<open>\<open>consumeFixedWindow\<close> on the counter the map holds; the sweep never drops the entry just touched.\<close>

definition consume_attempt :: "security_config \<Rightarrow> string \<Rightarrow> rat \<Rightarrow> security_state \<Rightarrow> bool \<times> security_state" where
  "consume_attempt config ip_key current_time st =
     (case js_get (sec_attempts st) ip_key of
        None \<Rightarrow> (fst (consume_fixed_window (create_window_counter current_time)
                   (connection_attempts_per_minute config) window_minute_ms current_time), st)
      | Some entry \<Rightarrow>
          (case consume_fixed_window (aw_counter entry) (connection_attempts_per_minute config)
                  window_minute_ms current_time of
             (granted, counter) \<Rightarrow>
               (granted, st\<lparr> sec_attempts := js_set ip_key (entry\<lparr> aw_counter := counter \<rparr>) (sec_attempts st) \<rparr>)))"

record upgrade_context =
  uc_remote_address :: "string option"
  uc_origin :: "string option"

datatype upgrade_decision =
    Admit upgrade_context
  | Reject nat string upgrade_context string

definition ip_key_of :: "string option \<Rightarrow> string" where
  "ip_key_of remote_address = (case remote_address of None \<Rightarrow> ''unknown'' | Some a \<Rightarrow> a)"

definition evaluate_upgrade ::
    "(string \<Rightarrow> nat) \<Rightarrow> (string \<Rightarrow> origin_url option) \<Rightarrow> security_config \<Rightarrow> rat \<Rightarrow> upgrade_request
     \<Rightarrow> security_state \<Rightarrow> upgrade_decision \<times> security_state" where
  "evaluate_upgrade is_ip parse_origin config current_time request st0 =
     (let org = (case rq_origin request of One t \<Rightarrow> Some t | _ \<Rightarrow> None);
          remote_address = get_remote_address is_ip config request;
          ctx = \<lparr> uc_remote_address = remote_address, uc_origin = org \<rparr>;
          ip_key = ip_key_of remote_address;
          st1 = maybe_sweep_attempt_windows current_time (get_attempt_window ip_key current_time st0)
      in case consume_attempt config ip_key current_time st1 of
           (granted, st) \<Rightarrow>
             if \<not> granted then (Reject 429 ''Too Many Requests'' ctx ''connection_attempt_rate_limited'', st)
             else case is_origin_allowed parse_origin config org of
               Origin_Refused reason \<Rightarrow> (Reject 403 ''Forbidden'' ctx reason, st)
             | Origin_Ok \<Rightarrow>
                 if max_connections_per_ip config \<le> connection_count st ip_key
                 then (Reject 429 ''Too Many Requests'' ctx ''connection_count_limited'', st)
                 else (Admit ctx, st))"

end
