(* ===== verification/Upgrade_Limits.thy ===== *)
theory Upgrade_Limits
  imports Connection_Security
begin

text \<open>
  What \<open>security.ts\<close> guarantees: the attempts an address gets through are bounded over any run of
  upgrade requests, sweeps of idle windows included (the policy as seen by one address is another
  interpretation of \<open>metered\<close>), and an address taken from \<open>x-forwarded-for\<close> is the one the
  trusted proxies saw.
\<close>

subsection \<open>The windows of a policy\<close>

definition windows_ok :: "nat \<Rightarrow> security_state \<Rightarrow> rat \<Rightarrow> bool" where
  "windows_ok limit st t = (js_wf (sec_attempts st)
     \<and> (\<forall>k e. js_get (sec_attempts st) k = Some e \<longrightarrow>
          window_ok limit window_minute_ms (aw_counter e) (aw_last_seen_at e) \<and> aw_last_seen_at e \<le> t))"

definition attempts_left :: "nat \<Rightarrow> string \<Rightarrow> security_state \<Rightarrow> rat \<Rightarrow> rat" where
  "attempts_left limit ip st t = (case js_get (sec_attempts st) ip of
     None \<Rightarrow> of_nat limit | Some e \<Rightarrow> window_potential limit window_minute_ms (aw_counter e) t)"

lemma windows_okD:
  assumes "windows_ok limit st t" and "js_get (sec_attempts st) k = Some e"
  shows "window_ok limit window_minute_ms (aw_counter e) t"
    "window_ok limit window_minute_ms (aw_counter e) (aw_last_seen_at e)" "aw_last_seen_at e \<le> t"
proof -
  show *: "window_ok limit window_minute_ms (aw_counter e) (aw_last_seen_at e)" "aw_last_seen_at e \<le> t"
    using assms by (auto simp: windows_ok_def)
  then show "window_ok limit window_minute_ms (aw_counter e) t" by (rule fixed_window.ok_later)
qed

lemma fresh_window: "0 < window_ms \<Longrightarrow> window_ok limit window_ms (create_window_counter t) t"
  by (simp add: window_ok_def create_window_counter_def)

lemma minute_pos [simp]: "0 < window_minute_ms"
  by (simp add: window_minute_ms_def)

text \<open>Touching an entry costs nothing.\<close>

lemma touch_window:
  assumes "windows_ok limit st t"
  shows "windows_ok limit (get_attempt_window ip t st) t"
    "attempts_left limit k (get_attempt_window ip t st) t = attempts_left limit k st t"
proof -
  have "window_ok limit window_minute_ms (aw_counter e) t" if "js_get (sec_attempts st) ip = Some e" for e
    using windows_okD(1) [OF assms that] .
  moreover have "window_ok limit window_minute_ms (create_window_counter t) t" by (rule fresh_window) simp
  ultimately show "windows_ok limit (get_attempt_window ip t st) t"
    using assms by (auto simp: windows_ok_def get_attempt_window_def Let_def split: option.split)
  show "attempts_left limit k (get_attempt_window ip t st) t = attempts_left limit k st t"
    by (auto simp: attempts_left_def get_attempt_window_def window_potential_def create_window_counter_def Let_def
        split: option.split)
qed

text \<open>A window is only dropped when the address has its whole budget back.\<close>

lemma idle_window_is_full:
  assumes "window_ok limit window_minute_ms c seen" and "attempt_window_ttl_ms \<le> t - seen"
  shows "of_nat limit \<le> window_potential limit window_minute_ms c t"
proof -
  have "2 * window_minute_ms \<le> t - window_start c"
    using assms by (simp add: window_ok_def attempt_window_ttl_ms_def window_minute_ms_def)
  then have "window_minute_ms \<le> t - window_start c" by (simp add: window_minute_ms_def)
  then have "of_nat limit \<le> window_rate limit window_minute_ms * (t - window_start c)"
    by (intro window_full_share) simp_all
  moreover have "of_nat (counted c) \<le> (of_nat limit :: rat)" using assms(1) by (simp add: window_ok_def)
  ultimately show ?thesis by (simp add: window_potential_def)
qed

lemma sweep_windows:
  assumes "windows_ok limit st t"
  shows "windows_ok limit (maybe_sweep_attempt_windows t st) t"
    "attempts_left limit k (maybe_sweep_attempt_windows t st) t \<le> attempts_left limit k st t"
proof -
  have wf: "js_wf (sec_attempts st)" using assms by (simp add: windows_ok_def)
  show "windows_ok limit (maybe_sweep_attempt_windows t st) t"
    using assms by (auto simp: windows_ok_def maybe_sweep_attempt_windows_def Let_def js_get_filter split: option.splits if_splits)
  show "attempts_left limit k (maybe_sweep_attempt_windows t st) t \<le> attempts_left limit k st t"
    using idle_window_is_full [OF windows_okD(2) [OF assms]]
    by (auto simp: attempts_left_def maybe_sweep_attempt_windows_def Let_def js_get_filter [OF wf] split: option.split)
qed

lemma consume_window:
  assumes "windows_ok limit st t" and "js_get (sec_attempts st) ip \<noteq> None"
    and "connection_attempts_per_minute config = limit" and "consume_attempt config ip t st = (granted, st')"
    and "\<And>e. js_get (sec_attempts st) ip = Some e \<Longrightarrow> aw_last_seen_at e = t"
  shows "windows_ok limit st' t"
    "attempts_left limit ip st' t + (if granted then 1 else 0) \<le> attempts_left limit ip st t"
    "k \<noteq> ip \<Longrightarrow> attempts_left limit k st' t = attempts_left limit k st t"
proof -
  obtain e where e: "js_get (sec_attempts st) ip = Some e" using assms(2) by blast
  obtain c where c: "consume_fixed_window (aw_counter e) limit window_minute_ms t = (granted, c)"
    and st': "st' = st\<lparr> sec_attempts := js_set ip (e\<lparr> aw_counter := c \<rparr>) (sec_attempts st) \<rparr>"
    using assms(3,4) e by (auto simp: consume_attempt_def split: prod.splits)
  note ok = windows_okD(1) [OF assms(1) e]
  have "window_ok limit window_minute_ms c t" by (rule fixed_window.take_ok [OF ok c])
  then show "windows_ok limit st' t" using assms(1) assms(5) [OF e] by (auto simp: windows_ok_def st')
  show "attempts_left limit ip st' t + (if granted then 1 else 0) \<le> attempts_left limit ip st t"
    using fixed_window.take_pays [OF ok c] e by (simp add: attempts_left_def st')
  show "k \<noteq> ip \<Longrightarrow> attempts_left limit k st' t = attempts_left limit k st t"
    by (simp add: attempts_left_def st')
qed

subsection \<open>One upgrade\<close>

fun passes_limiter :: "upgrade_decision \<Rightarrow> bool" where
  "passes_limiter (Admit _) = True"
| "passes_limiter (Reject _ _ _ reason) = (reason \<noteq> ''connection_attempt_rate_limited'')"

lemma refusals_differ: "is_origin_allowed p config org = Origin_Refused reason \<Longrightarrow> reason \<noteq> ''connection_attempt_rate_limited''"
  by (auto simp: is_origin_allowed_def split: option.splits if_splits)

definition prepared_windows :: "string \<Rightarrow> rat \<Rightarrow> security_state \<Rightarrow> security_state" where
  "prepared_windows ip t st = maybe_sweep_attempt_windows t (get_attempt_window ip t st)"

lemma evaluate_consumes:
  assumes "evaluate_upgrade is_ip p config t r st = (d, st')"
  defines "ip \<equiv> ip_key_of (get_remote_address is_ip config r)"
  shows "consume_attempt config ip t (prepared_windows ip t st) = (passes_limiter d, st')"
proof -
  obtain granted st2 where c: "consume_attempt config ip t (prepared_windows ip t st) = (granted, st2)" by fastforce
  have "passes_limiter d = granted" "st' = st2"
    using assms(1) c unfolding ip_def evaluate_upgrade_def Let_def prepared_windows_def [symmetric]
    by (auto dest: refusals_differ split: if_splits origin_verdict.splits)
  then show ?thesis using c by simp
qed

lemma prepared_window:
  assumes "windows_ok limit st t"
  shows "windows_ok limit (prepared_windows ip t st) t"
    "attempts_left limit k (prepared_windows ip t st) t \<le> attempts_left limit k st t"
    "js_get (sec_attempts (prepared_windows ip t st)) ip \<noteq> None"
    "js_get (sec_attempts (prepared_windows ip t st)) ip = Some e \<Longrightarrow> aw_last_seen_at e = t"
proof -
  note touched = touch_window [OF assms]
  show "windows_ok limit (prepared_windows ip t st) t"
    unfolding prepared_windows_def by (rule sweep_windows(1) [OF touched(1)])
  show "attempts_left limit k (prepared_windows ip t st) t \<le> attempts_left limit k st t"
    unfolding prepared_windows_def using sweep_windows(2) [OF touched(1)] touched(2) by simp
  have wf: "js_wf (sec_attempts (get_attempt_window ip t st))" using touched(1) by (simp add: windows_ok_def)
  obtain f where f: "js_get (sec_attempts (get_attempt_window ip t st)) ip = Some f" "aw_last_seen_at f = t"
    by (cases "js_get (sec_attempts st) ip") (auto simp: get_attempt_window_def Let_def)
  have "\<not> attempt_window_ttl_ms \<le> t - t" by (simp add: attempt_window_ttl_ms_def window_minute_ms_def)
  then have get: "js_get (sec_attempts (prepared_windows ip t st)) ip = Some f"
    using f by (simp add: prepared_windows_def maybe_sweep_attempt_windows_def Let_def js_get_filter [OF wf])
  then show "js_get (sec_attempts (prepared_windows ip t st)) ip \<noteq> None" by simp
  show "js_get (sec_attempts (prepared_windows ip t st)) ip = Some e \<Longrightarrow> aw_last_seen_at e = t"
    using get f(2) by simp
qed

lemma evaluate_windows:
  assumes "windows_ok (connection_attempts_per_minute config) st t"
    and "evaluate_upgrade is_ip p config t r st = (d, st')"
  defines "limit \<equiv> connection_attempts_per_minute config" and "ip \<equiv> ip_key_of (get_remote_address is_ip config r)"
  shows "windows_ok limit st' t"
    "attempts_left limit k st' t + (if k = ip \<and> passes_limiter d then 1 else 0) \<le> attempts_left limit k st t"
proof -
  note ready = prepared_window [OF assms(1), where ip = ip]
  note consumed = consume_window [OF ready(1) ready(3) refl evaluate_consumes [OF assms(2), folded ip_def] ready(4)]
  show "windows_ok limit st' t" unfolding limit_def by (rule consumed(1))
  show "attempts_left limit k st' t + (if k = ip \<and> passes_limiter d then 1 else 0) \<le> attempts_left limit k st t"
    using consumed(2) consumed(3) [of k] ready(2) [of k] unfolding limit_def by (cases "k = ip") auto
qed

subsection \<open>The policy as one address sees it\<close>

text \<open>The requests still to come are part of the state, so that an attempt is only a moment.\<close>

definition attempt_of ::
    "(string \<Rightarrow> nat) \<Rightarrow> (string \<Rightarrow> origin_url option) \<Rightarrow> security_config \<Rightarrow> string
     \<Rightarrow> security_state \<times> upgrade_request list \<Rightarrow> rat \<Rightarrow> bool \<times> (security_state \<times> upgrade_request list)" where
  "attempt_of is_ip p config k s t = (case snd s of
       [] \<Rightarrow> (False, s)
     | r # rs \<Rightarrow> (case evaluate_upgrade is_ip p config t r (fst s) of
         (d, st') \<Rightarrow> (ip_key_of (get_remote_address is_ip config r) = k \<and> passes_limiter d, (st', rs))))"

lemma attempt_ofE:
  assumes "attempt_of is_ip p config k s t = (granted, s')"
  obtains "granted = False" "s' = s"
  | r rs d st' where "snd s = r # rs" "evaluate_upgrade is_ip p config t r (fst s) = (d, st')" "s' = (st', rs)"
      "granted = (k = ip_key_of (get_remote_address is_ip config r) \<and> passes_limiter d)"
  using assms by (auto simp: attempt_of_def split: list.splits prod.splits)

lemma windows_ok_later: "windows_ok limit st t \<Longrightarrow> t \<le> t' \<Longrightarrow> windows_ok limit st t'"
  by (force simp: windows_ok_def)

interpretation upgrades: metered
  "attempt_of is_ip p config k"
  "\<lambda>s t. attempts_left (connection_attempts_per_minute config) k (fst s) t"
  "window_rate (connection_attempts_per_minute config) window_minute_ms"
  "\<lambda>s t. windows_ok (connection_attempts_per_minute config) (fst s) t"
  for is_ip p config k
proof
  let ?limit = "connection_attempts_per_minute config" let ?rate = "window_rate ?limit window_minute_ms"
  fix s :: "security_state \<times> upgrade_request list" and t t' :: rat and granted :: bool
    and s' :: "security_state \<times> upgrade_request list"
  show rate: "0 \<le> ?rate" by (rule window_rate_nonneg)
  show "windows_ok ?limit (fst s) t'" if "windows_ok ?limit (fst s) t" "t \<le> t'"
    using that by (rule windows_ok_later)
  show "0 \<le> attempts_left ?limit k (fst s) t" if "windows_ok ?limit (fst s) t"
    using fixed_window.potential_nonneg [OF windows_okD(1) [OF that]] by (simp add: attempts_left_def split: option.split)
  show "attempts_left ?limit k (fst s) t' \<le> attempts_left ?limit k (fst s) t + ?rate * (t' - t)"
    if ok: "windows_ok ?limit (fst s) t" and le: "t \<le> t'"
    using fixed_window.potential_grows [OF windows_okD(1) [OF ok] le] rate le
    by (auto simp: attempts_left_def split: option.split)
  show "windows_ok ?limit (fst s') t" if ok: "windows_ok ?limit (fst s) t"
    and step: "attempt_of is_ip p config k s t = (granted, s')"
    using step by (rule attempt_ofE) (use ok evaluate_windows(1) [OF ok] in auto)
  show "attempts_left ?limit k (fst s') t + (if granted then 1 else 0) \<le> attempts_left ?limit k (fst s) t"
    if ok: "windows_ok ?limit (fst s) t" and step: "attempt_of is_ip p config k s t = (granted, s')"
    using step by (rule attempt_ofE) (use ok evaluate_windows(2) [OF ok] in auto)
qed

text \<open>
  The policy lets an address through its limiter at most \<open>limit * (1 + elapsed minutes)\<close>
  times, whatever it and all the others send and whenever idle windows are swept.
\<close>

theorem attempts_per_address_are_bounded:
  assumes "sorted (t0 # ts)" and "\<forall>t \<in> set ts. t \<le> t1" and "t0 \<le> t1"
  shows "of_nat (granted_count (attempt_of is_ip parse_origin config ip) (empty_security_state, requests) ts)
    \<le> of_nat (connection_attempts_per_minute config) * (1 + (t1 - t0) / 60000)"
proof -
  have "windows_ok (connection_attempts_per_minute config) (fst (empty_security_state, requests)) t0"
    by (simp add: windows_ok_def empty_security_state_def)
  from upgrades.granted_bound [OF this assms] show ?thesis
    by (simp add: attempts_left_def empty_security_state_def window_rate_def window_minute_ms_def algebra_simps)
qed

subsection \<open>Forwarded addresses\<close>

definition socket_address :: "(string \<Rightarrow> nat) \<Rightarrow> upgrade_request \<Rightarrow> string option" where
  "socket_address is_ip r = normalize_ip_address is_ip (case rq_remote_address r of None \<Rightarrow> [] | Some a \<Rightarrow> a)"

lemma all_some_append: "all_some (xs @ ys) =
  (case all_some xs of None \<Rightarrow> None | Some a \<Rightarrow> map_option ((@) a) (all_some ys))"
  by (cases "all_some ys"; induction xs rule: all_some.induct) (auto split: option.split)

lemma chain_append:
  assumes "parse_forwarded_chain is_ip seen = Some hops" and "parse_forwarded_chain is_ip (claimed @ CHR '','' # seen) = Some chain"
  shows "\<exists>front. chain = front @ hops"
  using assms
  by (auto simp: parse_forwarded_chain_def Let_def split_on_append all_some_append split: if_splits option.splits)

lemma find_last_untrusted:
  assumes "c \<notin> T" and "set hops \<subseteq> T"
  shows "List.find (\<lambda>a. a \<notin> T) (rev (front @ c # hops)) = Some c"
proof -
  have "List.find (\<lambda>a. a \<notin> T) (xs @ c # ys) = Some c" if "set xs \<subseteq> T" for xs ys
    using that assms(1) by (induction xs) auto
  then show ?thesis using assms(2) by simp
qed

text \<open>
  What a client writes into \<open>x-forwarded-for\<close> does not choose its address: whatever it
  puts in front of the hops its proxies recorded, the request counts for the address the
  outermost trusted proxy saw or for the socket's own address, and for the former only if the
  socket is a trusted proxy.
\<close>

theorem forwarded_address_is_not_chosen:
  assumes "rq_forwarded_for r = One (claimed @ '','' @ seen)"
    and "parse_forwarded_chain is_ip seen = Some (c # hops)"
    and "c \<notin> set (trusted_addresses is_ip config)" and "set hops \<subseteq> set (trusted_addresses is_ip config)"
  shows "get_remote_address is_ip config r = socket_address is_ip r
    \<or> get_remote_address is_ip config r = Some c
      \<and> (\<exists>proxy \<in> set (trusted_addresses is_ip config). socket_address is_ip r = Some proxy)"
proof (cases "socket_address is_ip r")
  case None
  then show ?thesis by (simp add: get_remote_address_def socket_address_def)
next
  case (Some a)
  let ?header = "claimed @ '','' @ seen"
  have "get_trusted_forwarded_address is_ip config ?header \<in> {None, Some c}"
  proof (cases "parse_forwarded_chain is_ip ?header")
    case None
    then show ?thesis by (simp add: get_trusted_forwarded_address_def)
  next
    case (Some chain)
    then obtain front where "chain = front @ c # hops" using chain_append [OF assms(2), of claimed chain] by auto
    then show ?thesis
      using Some find_last_untrusted [OF assms(3,4), of front] by (simp add: get_trusted_forwarded_address_def)
  qed
  then show ?thesis
    using Some assms(1)
    by (auto simp: get_remote_address_def socket_address_def Let_def split: option.splits)
qed

subsection \<open>Behind two proxies\<close>

definition dotted_quad :: "string \<Rightarrow> nat" where
  "dotted_quad s = (if length (split_on CHR ''.'' s) = 4 \<and> list_all all_digits (split_on CHR ''.'' s) then 4 else 0)"

definition two_proxies :: security_config where
  "two_proxies = \<lparr> allowed_origins = [''https://sync.example''], allow_missing_origin_in_dev = False,
     allow_any_firefox_extension_origin = True, trusted_proxy_addresses = [''10.0.0.1'', ''10.0.0.2''],
     max_connections_per_ip = 2, connection_attempts_per_minute = 1, max_members_per_room = 8,
     max_message_bytes = 8192, invalid_message_close_threshold = 3, ws_heartbeat_enabled = True,
     ws_heartbeat_interval_ms = 30000, metrics_token = None,
     rate_limits = \<lparr> room_create_per_minute = 3, room_join_per_minute = 10, video_share_per_10_seconds = 3,
       playback_update_per_second = 8, playback_update_burst = 12, sync_request_per_10_seconds = 6,
       sync_ping_per_second = 1, sync_ping_burst = 2, admin_login_failures_per_ip_per_minute = 10,
       admin_login_failures_per_username_per_minute = 5 \<rparr> \<rparr>"

definition proxied_request :: upgrade_request where
  "proxied_request = \<lparr> rq_remote_address = Some ''::ffff:10.0.0.1'',
     rq_forwarded_for = One (''10.0.0.2, 1.2.3.4'' @ '','' @ '' 203.0.113.9 ,10.0.0.2''),
     rq_origin = One ''https://sync.example'' \<rparr>"

definition any_ip :: "string \<Rightarrow> nat" where
  "any_ip s = (if take 7 s = ''::ffff:'' then 6 else dotted_quad s)"

theorem attempts_per_address_are_bounded_witness:
  "granted_count (attempt_of any_ip (\<lambda>_. None) two_proxies ''203.0.113.9'')
      (empty_security_state, replicate 4 proxied_request) [0, 1000, 30000, 60000] = 2
   \<and> (2::rat) \<le> 1 * (1 + (60000 - 0) / 60000)"
proof -
  have *: "granted_count (attempt_of any_ip (\<lambda>_. None) two_proxies ''203.0.113.9'')
      (empty_security_state, replicate 4 proxied_request) [0, 1000, 30000, 60000] = 2" by code_simp
  have "sorted [0, 0, 1000, 30000, 60000 :: rat]" by simp
  from attempts_per_address_are_bounded [OF this, of 60000 any_ip "\<lambda>_. None" two_proxies "''203.0.113.9''"
      "replicate 4 proxied_request"] show ?thesis
    unfolding * by (simp add: two_proxies_def)
qed

theorem forwarded_address_is_not_chosen_witness:
  "(get_remote_address any_ip two_proxies proxied_request = socket_address any_ip proxied_request
    \<or> get_remote_address any_ip two_proxies proxied_request = Some ''203.0.113.9''
      \<and> (\<exists>proxy. proxy \<in> set (trusted_addresses any_ip two_proxies) \<and> socket_address any_ip proxied_request = Some proxy))
   \<and> get_remote_address any_ip two_proxies proxied_request = Some ''203.0.113.9''"
proof -
  have head: "rq_forwarded_for proxied_request = One (''10.0.0.2, 1.2.3.4'' @ '','' @ '' 203.0.113.9 ,10.0.0.2'')"
    by (simp add: proxied_request_def)
  have seen: "parse_forwarded_chain any_ip '' 203.0.113.9 ,10.0.0.2'' = Some [''203.0.113.9'', ''10.0.0.2'']" by code_simp
  have trusted: "trusted_addresses any_ip two_proxies = [''10.0.0.1'', ''10.0.0.2'']" by code_simp
  have "get_remote_address any_ip two_proxies proxied_request = Some ''203.0.113.9''" by code_simp
  then show ?thesis
    using forwarded_address_is_not_chosen [OF head seen, of two_proxies] by (auto simp: trusted)
qed

end
