(* ===== verification/Socket_Sessions.thy ===== *)
theory Socket_Sessions
  imports Handler_Replies Connection_Security
begin

text \<open>
  \<open>server/src/ws-session-handler.ts\<close>, between the sockets and the message handler: an upgrade
  request becomes a session or is refused, every text of a socket is parsed, guarded and handled
  in the order it came, and a closed socket's session leaves its room and gives its connection
  back. The gateway is the whole of what these handlers touch.

  \<open>JSON.parse\<close> is the parameter \<open>parse_json\<close>. \<open>ws\<close> either completes a handshake and calls
  back at once, or drops it. The closure of a connection keeps its session object; \<open>gw_live\<close>
  holds the context of every session whose close has not been cleaned up, since nothing assigns
  a session's address or origin afterwards. What a socket does with a message after its close
  (nothing) is the socket's business.
\<close>

definition close_code_policy_violation :: nat where "close_code_policy_violation = 1008"

subsection \<open>A text from the socket\<close>

definition count_invalid_message :: "handler_options \<Rightarrow> string \<Rightarrow> unit hio" where
  "count_invalid_message opt sid =
     bindE (liftE (update_session sid (\<lambda>s. s\<lparr> s_invalid_message_count := s_invalid_message_count s + 1 \<rparr>))) (\<lambda>_.
     bindE (session_now sid) (\<lambda>s.
       if invalid_message_close_threshold (so_config (ho_service opt)) \<le> s_invalid_message_count s
          \<and> has_attached_socket s
       then emit (Close_Socket close_code_policy_violation) else returnE ()))"

definition refuse_text :: "handler_options \<Rightarrow> string \<Rightarrow> unit hio" where
  "refuse_text opt sid = bindE (emit (Send_Error Invalid_Message)) (\<lambda>_. count_invalid_message opt sid)"

definition receive_text :: "handler_options \<Rightarrow> (string \<Rightarrow> js_value option) \<Rightarrow> string \<Rightarrow> string \<Rightarrow> unit hio" where
  "receive_text opt parse_json sid raw =
     (case parse_json raw of
        None \<Rightarrow> refuse_text opt sid
      | Some parsed \<Rightarrow>
          if \<not> is_client_message (so_url_parser (ho_service opt)) parsed then refuse_text opt sid
          else case read_client_message parsed of
            None \<Rightarrow> returnE ()
          | Some message \<Rightarrow>
              tryE (handle_client_message opt sid message) (\<lambda>_. emit (Send_Error Internal_Error)) returnE)"

text \<open>The message queue of a socket: one text after the other.\<close>

primrec receive_texts ::
    "handler_options \<Rightarrow> (string \<Rightarrow> js_value option) \<Rightarrow> string \<Rightarrow> string list \<Rightarrow> unit hio" where
  "receive_texts opt parse_json sid [] = returnE ()"
| "receive_texts opt parse_json sid (raw # raws) =
     bindE (receive_text opt parse_json sid raw) (\<lambda>_. receive_texts opt parse_json sid raws)"

subsection \<open>The gateway\<close>

record gateway =
  gw_handler :: handler_state
  gw_security :: security_state
  gw_live :: "(string, upgrade_context) js_map"
  gw_shutting_down :: bool

record gateway_options =
  go_handler :: handler_options
  go_is_ip :: "string \<Rightarrow> nat"
  go_parse_origin :: "string \<Rightarrow> origin_url option"
  go_parse_json :: "string \<Rightarrow> js_value option"
  go_instance_id :: string

abbreviation go_config :: "gateway_options \<Rightarrow> security_config" where
  "go_config go \<equiv> so_config (ho_service (go_handler go))"

definition gateway_now :: "gateway \<Rightarrow> rat" where
  "gateway_now g = w_now (hs_world (gw_handler g))"

definition change_runtime :: "(runtime_store \<Rightarrow> runtime_store) \<Rightarrow> gateway \<Rightarrow> gateway" where
  "change_runtime f g = g\<lparr> gw_handler := (gw_handler g)\<lparr> hs_world := (hs_world (gw_handler g))\<lparr>
     w_runtime := f (w_runtime (hs_world (gw_handler g))) \<rparr> \<rparr> \<rparr>"

definition new_session :: "gateway_options \<Rightarrow> string \<Rightarrow> string \<Rightarrow> upgrade_context \<Rightarrow> rat \<Rightarrow> session" where
  "new_session go sid guest_name ctx now =
     \<lparr> s_id = sid, s_instance_id = Some (go_instance_id go), s_remote_address = uc_remote_address ctx,
       s_origin = uc_origin ctx, s_room_code = None, s_member_id = None, s_display_name = guest_name,
       s_member_token = None, s_protocol_version = None, s_joined_at = None, s_invalid_message_count = 0,
       s_rate_limit_state = create_session_rate_limit_state (go_config go) now, s_attached = True \<rparr>"

definition connect :: "gateway_options \<Rightarrow> string \<Rightarrow> string \<Rightarrow> upgrade_context \<Rightarrow> gateway \<Rightarrow> gateway" where
  "connect go sid guest_name ctx g =
     (let s = new_session go sid guest_name ctx (gateway_now g)
      in change_runtime (\<lambda>rt. register_session sid (put_session s rt))
           (g\<lparr> gw_security := increment_connection_count (uc_remote_address ctx) (gw_security g),
               gw_live := js_set sid ctx (gw_live g) \<rparr>))"

datatype upgrade_outcome = Refused nat string | Handshake_Dropped | Connected

definition handle_upgrade ::
    "gateway_options \<Rightarrow> upgrade_request \<Rightarrow> string \<Rightarrow> string \<Rightarrow> bool \<Rightarrow> gateway \<Rightarrow> upgrade_outcome \<times> gateway" where
  "handle_upgrade go request sid guest_name completes g =
     (if gw_shutting_down g then (Refused 503 ''Service Unavailable'', g)
      else case evaluate_upgrade (go_is_ip go) (go_parse_origin go) (go_config go) (gateway_now g) request
                  (gw_security g) of
             (Reject status text _ _, st) \<Rightarrow> (Refused status text, g\<lparr> gw_security := st \<rparr>)
           | (Admit ctx, st) \<Rightarrow>
               if completes then (Connected, connect go sid guest_name ctx (g\<lparr> gw_security := st \<rparr>))
               else (Handshake_Dropped, g\<lparr> gw_security := st \<rparr>))"

text \<open>Whatever leaving the room comes to, the session goes and its connection is given back.\<close>

definition cleanup_session_after_close :: "gateway_options \<Rightarrow> string \<Rightarrow> gateway \<Rightarrow> gateway" where
  "cleanup_session_after_close go sid g =
     (case js_get (gw_live g) sid of
        None \<Rightarrow> g
      | Some ctx \<Rightarrow>
          let g1 = g\<lparr> gw_handler := snd (leave_room (go_handler go) sid Disconnect (gw_handler g)) \<rparr>;
              g2 = change_runtime (unregister_session sid) g1
          in g2\<lparr> gw_security := decrement_connection_count (uc_remote_address ctx) (gw_security g2),
                 gw_live := js_delete sid (gw_live g2) \<rparr>)"

definition on_text :: "gateway_options \<Rightarrow> string \<Rightarrow> string \<Rightarrow> gateway \<Rightarrow> gateway" where
  "on_text go sid raw g =
     g\<lparr> gw_handler := snd (receive_text (go_handler go) (go_parse_json go) sid raw (gw_handler g)) \<rparr>"

datatype gateway_event =
    Upgrade_Requested upgrade_request string string bool
  | Text_Received string string
  | Socket_Closed string
  | Others_Act "env_event list"
  | Shutdown_Started

text \<open>\<open>randomUUID\<close> does not hand out the id of a session that is still there.\<close>

inductive gateway_step :: "gateway_options \<Rightarrow> gateway \<Rightarrow> gateway_event \<Rightarrow> gateway \<Rightarrow> bool" for go where
  upgrade: "js_get (gw_live g) sid = None \<Longrightarrow>
    gateway_step go g (Upgrade_Requested request sid name completes)
      (snd (handle_upgrade go request sid name completes g))"
| message: "gateway_step go g (Text_Received sid raw) (on_text go sid raw g)"
| closed: "gateway_step go g (Socket_Closed sid) (cleanup_session_after_close go sid g)"
| others: "gateway_step go g (Others_Act es) (g\<lparr> gw_handler := (gw_handler g)\<lparr> hs_world :=
    fold env_step es (hs_world (gw_handler g)) \<rparr> \<rparr>)"
| shutdown: "gateway_step go g Shutdown_Started (g\<lparr> gw_shutting_down := True \<rparr>)"

inductive gateway_run :: "gateway_options \<Rightarrow> gateway \<Rightarrow> gateway_event list \<Rightarrow> gateway \<Rightarrow> bool" for go where
  idle: "gateway_run go g [] g"
| acts: "gateway_run go g es g' \<Longrightarrow> gateway_step go g' e g'' \<Longrightarrow> gateway_run go g (es @ [e]) g''"

definition empty_gateway :: "handler_state \<Rightarrow> gateway" where
  "empty_gateway h = \<lparr> gw_handler = h, gw_security = empty_security_state, gw_live = [], gw_shutting_down = False \<rparr>"

subsection \<open>Every text is answered\<close>

definition message_of :: "handler_options \<Rightarrow> (string \<Rightarrow> js_value option) \<Rightarrow> string \<Rightarrow> client_message option" where
  "message_of opt parse_json raw =
     (case parse_json raw of
        None \<Rightarrow> None
      | Some v \<Rightarrow> if is_client_message (so_url_parser (ho_service opt)) v then read_client_message v else None)"

definition answered_once :: "client_message \<Rightarrow> handler_state \<Rightarrow> handler_state \<Rightarrow> bool" where
  "answered_once m h h' = (said (answers_to m) h' \<in>
     {said (answers_to m) h + (if must_be_answered m then 1 else 0), said (answers_to m) h + 1})"

definition refusal_of_text :: "handler_options \<Rightarrow> session \<Rightarrow> outgoing list" where
  "refusal_of_text opt s = Send_Error Invalid_Message #
     (if invalid_message_close_threshold (so_config (ho_service opt)) \<le> s_invalid_message_count s + 1 \<and> has_attached_socket s
      then [Close_Socket close_code_policy_violation] else [])"

lemma the_session_updated:
  "the_session sid (snd (update_session sid f w)) = f (the_session sid w)"
  by (simp add: update_session_def putE_def the_session_def session_object_def)

lemma refuse_text_runs:
  "refuse_text opt sid h = (Inr (), h\<lparr> hs_world := snd (update_session sid
       (\<lambda>s. s\<lparr> s_invalid_message_count := s_invalid_message_count s + 1 \<rparr>) (hs_world h)),
     hs_out := hs_out h @ refusal_of_text opt (the_session sid (hs_world h)) \<rparr>)"
proof -
  have "fst (update_session sid f w) = Inr ()" for f w by (simp add: update_session_def putE_def)
  then have step: "liftE (update_session sid f) h1 = (Inr (), h1\<lparr> hs_world := snd (update_session sid f (hs_world h1)) \<rparr>)" for f h1
    by (simp add: liftE_def split: prod.split) (metis fst_conv)
  show ?thesis
    by (simp add: refuse_text_def count_invalid_message_def bindE_def emit_def putE_def returnE_def session_now_def getE_def
        step the_session_updated refusal_of_text_def has_attached_socket_def)
qed

text \<open>The reader never fails on what the guard lets through.\<close>

lemma guarded_reads: "is_client_message U v \<Longrightarrow> \<exists>m. read_client_message v = Some m"
  by (auto simp: guard_exact reads_as_def split: option.splits)

lemma handled_text:
  "\<exists>h'. tryE (handle_client_message opt sid m) (\<lambda>_. emit (Send_Error Internal_Error)) returnE h = (Inr (), h')
     \<and> answered_once m h h'"
  using message_answered_once [where opt = opt and sid = sid and message = m and h = h]
  by (auto simp: tryE_def emit_def putE_def returnE_def answered_once_def said_def split: prod.splits sum.splits)

text \<open>
  C5. Every text is answered. Whatever a client sends, and whatever the service, the bus and the
  other requests do, its handling ends normally. A text that is no well-formed message gets
  exactly one error, and the socket is closed from the configured number of such texts on; a
  message that asks for an answer (create, join, state) gets exactly one, of its kind or an
  error; any other message at most one.
\<close>

theorem every_text_is_answered:
  "fst (receive_text opt parse_json sid raw h) = Inr ()
   \<and> (case message_of opt parse_json raw of
        None \<Rightarrow> hs_out (snd (receive_text opt parse_json sid raw h))
          = hs_out h @ refusal_of_text opt (the_session sid (hs_world h))
      | Some m \<Rightarrow> answered_once m h (snd (receive_text opt parse_json sid raw h)))"
proof (cases "parse_json raw")
  case None
  then show ?thesis by (simp add: receive_text_def message_of_def refuse_text_runs)
next
  case (Some v)
  show ?thesis
  proof (cases "is_client_message (so_url_parser (ho_service opt)) v")
    case False
    then show ?thesis using Some by (simp add: receive_text_def message_of_def refuse_text_runs)
  next
    case True
    then obtain m where "read_client_message v = Some m" using guarded_reads by blast
    then show ?thesis
      using Some True handled_text [of opt sid m h] by (auto simp: receive_text_def message_of_def)
  qed
qed

subsection \<open>Connections are counted exactly\<close>

definition connections_from :: "gateway \<Rightarrow> string \<Rightarrow> nat" where
  "connections_from g a = length (filter (\<lambda>(_, ctx). uc_remote_address ctx = Some a) (gw_live g))"

lemma evaluate_decision:
  assumes "evaluate_upgrade is_ip p config t r st = (d, st')"
  shows "sec_connections st' = sec_connections st"
    "d = Admit ctx \<Longrightarrow> uc_remote_address ctx = get_remote_address is_ip config r
       \<and> is_origin_allowed p config (uc_origin ctx) = Origin_Ok
       \<and> connection_count st (ip_key_of (uc_remote_address ctx)) < max_connections_per_ip config"
proof -
  have touch: "sec_connections (maybe_sweep_attempt_windows t (get_attempt_window k t st)) = sec_connections st" for k
    by (simp add: maybe_sweep_attempt_windows_def get_attempt_window_def Let_def)
  have consume: "consume_attempt config k t s = (b, s') \<Longrightarrow> sec_connections s' = sec_connections s" for k s b s'
    by (auto simp: consume_attempt_def split: option.splits prod.splits)
  show "sec_connections st' = sec_connections st"
    using assms consume touch unfolding evaluate_upgrade_def Let_def
    by (fastforce split: prod.splits if_splits origin_verdict.splits)
  show "uc_remote_address ctx = get_remote_address is_ip config r
       \<and> is_origin_allowed p config (uc_origin ctx) = Origin_Ok
       \<and> connection_count st (ip_key_of (uc_remote_address ctx)) < max_connections_per_ip config" if "d = Admit ctx"
    using assms that consume touch unfolding evaluate_upgrade_def Let_def connection_count_def
    by (fastforce split: prod.splits if_splits origin_verdict.splits)
qed

lemma count_incremented:
  "connection_count (increment_connection_count r st) a = connection_count st a + (if truthy r \<and> r = Some a then 1 else 0)"
  by (auto simp: increment_connection_count_def connection_count_def elim!: truthyE)

lemma count_decremented:
  "connection_count (decrement_connection_count r st) a = connection_count st a - (if truthy r \<and> r = Some a then 1 else 0)"
  by (auto simp: decrement_connection_count_def connection_count_def Let_def nat_diff_distrib elim!: truthyE split: option.split)

definition gateway_ok :: "gateway_options \<Rightarrow> gateway \<Rightarrow> bool" where
  "gateway_ok go g = (js_wf (gw_live g)
     \<and> (\<forall>a. a \<noteq> [] \<longrightarrow> connection_count (gw_security g) a = connections_from g a
                       \<and> connections_from g a \<le> max_connections_per_ip (go_config go))
     \<and> (\<forall>(_, ctx) \<in> set (gw_live g). is_origin_allowed (go_parse_origin go) (go_config go) (uc_origin ctx) = Origin_Ok))"

lemma live_frame [simp]:
  "gw_live (change_runtime f g) = gw_live g" "gw_security (change_runtime f g) = gw_security g"
  by (simp_all add: change_runtime_def)

lemma js_set_new: "js_get m k = None \<Longrightarrow> js_set k v m = m @ [(k, v)]"
  by (induction m) (auto split: if_splits)

lemma set_js_delete: "set (js_delete k m) \<subseteq> set m"
  by (auto simp: js_delete_eq_filter)

lemma filter_delete_length:
  assumes "js_wf m" and "js_get m k = Some v"
  shows "length (filter P (js_delete k m)) = length (filter P m) - (if P (k, v) then 1 else 0)"
  using assms
proof (induction m)
  case (Cons x m)
  have "js_delete k m = m" if "fst x = k"
    using Cons.prems that by (auto simp: js_wf_def delete_conv intro!: filter_True)
  moreover have "P (k, v) \<Longrightarrow> (k, v) \<in> set m \<Longrightarrow> 0 < length (filter P m)" by (auto simp: filter_empty_conv)
  ultimately show ?case using Cons by (cases x) (auto simp: js_wf_def dest!: map_of_SomeD)
qed simp

lemma connected_ok:
  assumes "gateway_ok go g" and "js_get (gw_live g) sid = None"
    and "is_origin_allowed (go_parse_origin go) (go_config go) (uc_origin ctx) = Origin_Ok"
    and "connection_count (gw_security g) (ip_key_of (uc_remote_address ctx)) < max_connections_per_ip (go_config go)"
  shows "gateway_ok go (connect go sid name ctx g)"
proof -
  let ?g = "connect go sid name ctx g"
  have live: "gw_live ?g = js_set sid ctx (gw_live g)" by (simp add: connect_def Let_def)
  have sec: "gw_security ?g = increment_connection_count (uc_remote_address ctx) (gw_security g)"
    by (simp add: connect_def Let_def)
  have from': "connections_from ?g a = connections_from g a + (if uc_remote_address ctx = Some a then 1 else 0)" for a
    by (simp add: connections_from_def live js_set_new [OF assms(2)])
  show ?thesis
    unfolding gateway_ok_def
  proof (intro conjI allI impI)
    show "js_wf (gw_live ?g)" using assms(1) by (simp add: gateway_ok_def live)
    show "\<forall>(_, ctx) \<in> set (gw_live ?g). is_origin_allowed (go_parse_origin go) (go_config go) (uc_origin ctx) = Origin_Ok"
      using assms(1,3) by (auto simp: gateway_ok_def live js_set_new [OF assms(2)])
    fix a :: string assume a: "a \<noteq> []"
    then have old: "connection_count (gw_security g) a = connections_from g a"
      "connections_from g a \<le> max_connections_per_ip (go_config go)"
      using assms(1) by (auto simp: gateway_ok_def)
    show "connection_count (gw_security ?g) a = connections_from ?g a" using old a by (simp add: sec from' count_incremented)
    show "connections_from ?g a \<le> max_connections_per_ip (go_config go)"
      using old assms(4) by (auto simp: from' ip_key_of_def)
  qed
qed

lemma cleaned_ok:
  assumes "gateway_ok go g" shows "gateway_ok go (cleanup_session_after_close go sid g)"
proof (cases "js_get (gw_live g) sid")
  case None
  then show ?thesis using assms by (simp add: cleanup_session_after_close_def)
next
  case (Some ctx)
  let ?g = "cleanup_session_after_close go sid g"
  have live: "gw_live ?g = js_delete sid (gw_live g)"
    using Some by (simp add: cleanup_session_after_close_def Let_def)
  have sec: "gw_security ?g = decrement_connection_count (uc_remote_address ctx) (gw_security g)"
    using Some by (simp add: cleanup_session_after_close_def Let_def)
  have wf: "js_wf (gw_live g)" using assms by (simp add: gateway_ok_def)
  have from': "connections_from ?g a = connections_from g a - (if uc_remote_address ctx = Some a then 1 else 0)" for a
    by (simp add: connections_from_def live filter_delete_length [OF wf Some])
  show ?thesis
    unfolding gateway_ok_def
  proof (intro conjI allI impI)
    show "js_wf (gw_live ?g)" using wf by (simp add: live)
    show "\<forall>(_, ctx) \<in> set (gw_live ?g). is_origin_allowed (go_parse_origin go) (go_config go) (uc_origin ctx) = Origin_Ok"
      using assms set_js_delete [of sid "gw_live g"] by (auto simp: gateway_ok_def live)
    fix a :: string assume a: "a \<noteq> []"
    then have old: "connection_count (gw_security g) a = connections_from g a"
      "connections_from g a \<le> max_connections_per_ip (go_config go)"
      using assms by (auto simp: gateway_ok_def)
    show "connection_count (gw_security ?g) a = connections_from ?g a" using old a by (simp add: sec from' count_decremented)
    show "connections_from ?g a \<le> max_connections_per_ip (go_config go)" using old by (simp add: from')
  qed
qed

lemma security_replaced:
  "gateway_ok go g \<Longrightarrow> sec_connections st = sec_connections (gw_security g) \<Longrightarrow> gateway_ok go (g\<lparr> gw_security := st \<rparr>)"
  by (simp add: gateway_ok_def connection_count_def connections_from_def)

lemma upgraded_ok:
  assumes "gateway_ok go g" and "js_get (gw_live g) sid = None"
  shows "gateway_ok go (snd (handle_upgrade go request sid name completes g))"
proof -
  obtain d st where e: "evaluate_upgrade (go_is_ip go) (go_parse_origin go) (go_config go) (gateway_now g) request
      (gw_security g) = (d, st)" by fastforce
  have ok: "gateway_ok go (g\<lparr> gw_security := st \<rparr>)"
    using assms(1) evaluate_decision(1) [OF e] by (rule security_replaced)
  show ?thesis
  proof (cases d)
    case (Admit ctx)
    note decided = evaluate_decision(2) [OF e Admit]
    have "gateway_ok go (connect go sid name ctx (g\<lparr> gw_security := st \<rparr>))"
    proof (rule connected_ok [OF ok _ conjunct1 [OF conjunct2 [OF decided]]])
      show "js_get (gw_live (g\<lparr> gw_security := st \<rparr>)) sid = None" using assms(2) by simp
      show "connection_count (gw_security (g\<lparr> gw_security := st \<rparr>)) (ip_key_of (uc_remote_address ctx))
          < max_connections_per_ip (go_config go)"
        using conjunct2 [OF conjunct2 [OF decided]] evaluate_decision(1) [OF e] by (simp add: connection_count_def)
    qed
    then show ?thesis using assms(1) ok e Admit by (simp add: handle_upgrade_def)
  next
    case (Reject status words ctx reason)
    then show ?thesis using assms(1) ok e by (simp add: handle_upgrade_def)
  qed
qed

lemma gateway_step_ok: "gateway_step go g e g' \<Longrightarrow> gateway_ok go g \<Longrightarrow> gateway_ok go g'"
proof (induction rule: gateway_step.induct)
  case (upgrade g sid request name completes)
  then show ?case by (intro upgraded_ok)
next
  case (closed g sid)
  then show ?case by (rule cleaned_ok)
qed (simp_all add: gateway_ok_def connections_from_def on_text_def)

lemma gateway_run_ok: "gateway_run go g es g' \<Longrightarrow> gateway_ok go g \<Longrightarrow> gateway_ok go g'"
  by (induction rule: gateway_run.induct) (auto intro: gateway_step_ok)

text \<open>
  C4. However upgrades, messages, closes and the rest of the server interleave: the connections
  counted for an address are exactly its sessions that have not been cleaned up, an address never
  has more of them than the limit, and every session came with an allowed origin.
\<close>

theorem connections_are_counted_exactly:
  assumes "gateway_run go (empty_gateway h) es g" and "a \<noteq> []"
  shows "connection_count (gw_security g) a = connections_from g a
    \<and> connections_from g a \<le> max_connections_per_ip (go_config go)
    \<and> list_all (\<lambda>(_, ctx). is_origin_allowed (go_parse_origin go) (go_config go) (uc_origin ctx) = Origin_Ok) (gw_live g)"
proof -
  have "gateway_ok go (empty_gateway h)"
    by (simp add: gateway_ok_def empty_gateway_def empty_security_state_def connection_count_def connections_from_def)
  then have "gateway_ok go g" by (rule gateway_run_ok [OF assms(1)])
  then show ?thesis using assms(2) by (simp add: gateway_ok_def list_all_iff)
qed

definition shop_gateway :: gateway_options where
  "shop_gateway = \<lparr> go_handler = sample_handler\<lparr> ho_service := sample_options\<lparr> so_config :=
       sample_config\<lparr> allowed_origins := [''https://sync.example''], max_connections_per_ip := 1 \<rparr> \<rparr> \<rparr>,
     go_is_ip = (\<lambda>_. 4), go_parse_origin = (\<lambda>_. None), go_parse_json = (\<lambda>_. None), go_instance_id = ''node-1'' \<rparr>"

definition quiet_handler :: handler_state where
  "quiet_handler = \<lparr> hs_world = \<lparr> w_now = 100, w_fresh = 0, w_rooms = \<lparr> st_rooms = [], st_announcement = None \<rparr>,
       w_runtime = empty_runtime_store, w_authority = [], w_last_sweep = 0, w_closing = False, w_debts = [],
       w_expired_deleted = 0, w_closed_sockets = [], w_faults = [], w_sched = [], w_trace = [] \<rparr>,
     hs_out = [], hs_pending = 0, hs_looks = [], hs_wakes = [], hs_socket_open = True \<rparr>"

definition shop_request :: upgrade_request where
  "shop_request = \<lparr> rq_remote_address = Some ''192.0.2.7'', rq_forwarded_for = Absent,
     rq_origin = One ''https://sync.example'' \<rparr>"

definition one_visitor :: gateway where
  "one_visitor = snd (handle_upgrade shop_gateway shop_request ''v1'' ''Guest-101'' True (empty_gateway quiet_handler))"

theorem connections_are_counted_exactly_witness:
  "connection_count (gw_security one_visitor) ''192.0.2.7'' = connections_from one_visitor ''192.0.2.7''
    \<and> connections_from one_visitor ''192.0.2.7'' \<le> 1 \<and> connections_from one_visitor ''192.0.2.7'' = 1"
proof -
  note run_simps = handle_upgrade_def empty_gateway_def shop_gateway_def shop_request_def quiet_handler_def
    evaluate_upgrade_def Let_def get_remote_address_def normalize_ip_address_def mapped_ipv4_def is_origin_allowed_def
    empty_security_state_def get_attempt_window_def maybe_sweep_attempt_windows_def attempt_window_sweep_interval_def
    consume_attempt_def consume_fixed_window_def create_window_counter_def ip_key_of_def connect_def gateway_now_def
    connection_count_def sample_handler_def sample_options_def sample_config_def window_minute_ms_def
    js_trim_def js_space_def to_lower_def is_upper_def increment_connection_count_def
  have one: "gw_live one_visitor = [(''v1'', \<lparr> uc_remote_address = Some ''192.0.2.7'', uc_origin = Some ''https://sync.example'' \<rparr>)]"
    by (simp add: one_visitor_def run_simps)
  have "js_get (gw_live (empty_gateway quiet_handler)) ''v1'' = None" by (simp add: empty_gateway_def)
  from acts [OF idle upgrade [OF this]]
  have run: "gateway_run shop_gateway (empty_gateway quiet_handler) [Upgrade_Requested shop_request ''v1'' ''Guest-101'' True] one_visitor"
    by (simp add: one_visitor_def)
  have limit: "max_connections_per_ip (go_config shop_gateway) = 1" by (simp add: shop_gateway_def)
  have "connections_from one_visitor ''192.0.2.7'' = 1" by (simp add: connections_from_def one)
  then show ?thesis using connections_are_counted_exactly [OF run, of "''192.0.2.7''"] limit by simp
qed

end
