(* ===== verification/Clock_Sync.thy ===== *)
theory Clock_Sync
  imports Protocol
begin

text \<open>
  \<open>extension/src/background/clock-sync.ts\<close> and \<open>clock-controller.ts\<close>: how the extension
  measures the server's clock, and how it advances a playing snapshot to the present. The offset
  is an estimate for display: the median of the samples whose round trip competes with the
  fastest one, published only when it moved by more than a deadband. Positions are advanced by
  locally measured time since the snapshot was current (its anchor), never by comparing clocks.

  \<open>Math.round\<close> is \<open>js_round\<close> of \<open>Prelude\<close>. Building the check addresses from the socket's address, the timer
  and the log are left out; \<open>number_string\<close> is how a number prints.
\<close>

subsection \<open>The offset estimate\<close>

definition clock_sync_interval_ms :: rat where "clock_sync_interval_ms = 15000"
definition clock_sample_window_size :: nat where "clock_sample_window_size = 8"
definition clock_sample_max_age_ms :: rat where "clock_sample_max_age_ms = 150000"
definition clock_sample_rtt_tolerance_ms :: rat where "clock_sample_rtt_tolerance_ms = 20"
definition clock_sample_min_trusted_size :: nat where "clock_sample_min_trusted_size = 3"
definition clock_offset_deadband_ms :: rat where "clock_offset_deadband_ms = 120"

record clock_sample =
  cs_offset_ms :: rat
  cs_rtt_ms :: rat
  cs_at :: rat

definition median :: "rat list \<Rightarrow> rat" where
  "median values =
     (let sorted = sort values; middle = length sorted div 2
      in if length sorted mod 2 = 1 then sorted ! middle
         else (sorted ! (middle - 1) + sorted ! middle) / 2)"

definition usable_samples :: "clock_sample list \<Rightarrow> clock_sample list" where
  "usable_samples samples = filter (\<lambda>s. 0 \<le> cs_rtt_ms s) samples"

definition fastest_rtt :: "clock_sample list \<Rightarrow> rat" where
  "fastest_rtt samples = Min (set (map cs_rtt_ms samples))"

definition competing_samples :: "clock_sample list \<Rightarrow> clock_sample list" where
  "competing_samples usable =
     filter (\<lambda>s. cs_rtt_ms s \<le> fastest_rtt usable + clock_sample_rtt_tolerance_ms) usable"

definition estimate_offset_ms :: "clock_sample list \<Rightarrow> (rat \<times> nat) option" where
  "estimate_offset_ms samples =
     (let usable = usable_samples samples
      in if usable = [] then None
         else Some (median (map cs_offset_ms (competing_samples usable)), length usable))"

record ping_times =
  pt_client_send :: rat
  pt_server_receive :: rat
  pt_server_send :: rat
  pt_now :: rat

definition sample_of :: "ping_times \<Rightarrow> clock_sample" where
  "sample_of p =
     (let outbound_ms = pt_server_receive p - pt_client_send p; inbound_ms = pt_server_send p - pt_now p
      in \<lparr> cs_offset_ms = (outbound_ms + inbound_ms) / 2, cs_rtt_ms = outbound_ms - inbound_ms, cs_at = pt_now p \<rparr>)"

definition last_samples :: "nat \<Rightarrow> clock_sample list \<Rightarrow> clock_sample list" where
  "last_samples n xs = drop (length xs - n) xs"

definition sample_window :: "ping_times \<Rightarrow> clock_sample list \<Rightarrow> clock_sample list" where
  "sample_window p previous = last_samples clock_sample_window_size
     (filter (\<lambda>s. pt_now p - cs_at s \<le> clock_sample_max_age_ms) previous @ [sample_of p])"

record clock_state =
  ck_rtt_ms :: "rat option"
  ck_clock_offset_ms :: "rat option"
  ck_samples :: "clock_sample list"

definition published_offset :: "rat option \<Rightarrow> (rat \<times> nat) option \<Rightarrow> rat option" where
  "published_offset previous estimate =
     (case estimate of
        None \<Rightarrow> previous
      | Some (offset_ms, usable_count) \<Rightarrow>
          (case previous of
             None \<Rightarrow> Some (js_round offset_ms)
           | Some prev \<Rightarrow>
               if usable_count < clock_sample_min_trusted_size \<or> clock_offset_deadband_ms < \<bar>offset_ms - prev\<bar>
               then Some (js_round offset_ms) else Some prev))"

definition update_clock_offset :: "ping_times \<Rightarrow> clock_state \<Rightarrow> clock_state" where
  "update_clock_offset p ck =
     (let samples = sample_window p (ck_samples ck); sample_rtt = cs_rtt_ms (sample_of p)
      in \<lparr> ck_rtt_ms = Some (case ck_rtt_ms ck of
              None \<Rightarrow> sample_rtt | Some prev \<Rightarrow> js_round (prev * (7 / 10) + sample_rtt * (3 / 10))),
           ck_clock_offset_ms = published_offset (ck_clock_offset_ms ck) (estimate_offset_ms samples),
           ck_samples = samples \<rparr>)"

definition empty_clock :: clock_state where
  "empty_clock = \<lparr> ck_rtt_ms = None, ck_clock_offset_ms = None, ck_samples = [] \<rparr>"

subsection \<open>Anchoring a snapshot\<close>

definition max_trusted_playback_age_ms :: rat where "max_trusted_playback_age_ms = 10000"

definition resolve_playback_anchor_at_ms :: "rat \<Rightarrow> js_number option \<Rightarrow> rat" where
  "resolve_playback_anchor_at_ms received_at_ms playback_age_ms =
     (case playback_age_ms of
        Some (Finite age) \<Rightarrow>
          if age \<le> 0 \<or> max_trusted_playback_age_ms < age then received_at_ms else received_at_ms - age
      | _ \<Rightarrow> received_at_ms)"

definition extrapolate_playing_room_state :: "room_state \<Rightarrow> rat \<Rightarrow> room_state" where
  "extrapolate_playing_room_state state elapsed_ms =
     (case rs_playback state of
        None \<Rightarrow> state
      | Some playback \<Rightarrow>
          if pb_play_state playback \<noteq> Playing then state
          else
            let advance_ms = max 0 elapsed_ms
            in state\<lparr> rs_playback := Some (playback\<lparr> pb_current_time :=
                 pb_current_time playback + (advance_ms / 1000) * pb_playback_rate playback \<rparr>) \<rparr>)"

fun play_state_string :: "play_state \<Rightarrow> string" where
  "play_state_string Playing = ''playing''"
| "play_state_string Paused = ''paused''"
| "play_state_string Buffering = ''buffering''"

fun joined_with :: "char \<Rightarrow> string list \<Rightarrow> string" where
  "joined_with d [] = []"
| "joined_with d [s] = s"
| "joined_with d (s # t # ts) = s @ d # joined_with d (t # ts)"

definition playback_snapshot_key :: "(rat \<Rightarrow> string) \<Rightarrow> playback_state \<Rightarrow> string" where
  "playback_snapshot_key number_string p = joined_with CHR ''|''
     [pb_actor_id p, number_string (pb_seq p), number_string (pb_server_time p),
      play_state_string (pb_play_state p), pb_url p, number_string (pb_current_time p),
      number_string (pb_playback_rate p)]"

type_synonym playback_anchor = "(string \<times> rat) option"

definition mark_playback_arrival ::
    "(rat \<Rightarrow> string) \<Rightarrow> playback_state option \<Rightarrow> rat \<Rightarrow> playback_anchor \<Rightarrow> playback_anchor" where
  "mark_playback_arrival number_string playback at_ms anchor =
     (case playback of
        None \<Rightarrow> None
      | Some p \<Rightarrow>
          if pb_play_state p \<noteq> Playing then None
          else
            let key = playback_snapshot_key number_string p
            in case anchor of
                 None \<Rightarrow> Some (key, at_ms)
               | Some (k, since) \<Rightarrow>
                   if k \<noteq> key then Some (key, at_ms)
                   else if at_ms < since then Some (key, at_ms) else anchor)"

definition compensate_room_state ::
    "(rat \<Rightarrow> string) \<Rightarrow> rat \<Rightarrow> room_state \<Rightarrow> rat option \<Rightarrow> playback_anchor \<Rightarrow> room_state \<times> playback_anchor" where
  "compensate_room_state number_string now state anchor_at_ms anchor =
     (case rs_playback state of
        None \<Rightarrow> (state, None)
      | Some p \<Rightarrow>
          if pb_play_state p \<noteq> Playing then (state, None)
          else
            let anchor' = mark_playback_arrival number_string (Some p)
                            (case anchor_at_ms of None \<Rightarrow> now | Some t \<Rightarrow> t) anchor
            in case anchor' of
                 None \<Rightarrow> (state, None)
               | Some (_, since) \<Rightarrow> (extrapolate_playing_room_state state (now - since), anchor'))"

subsection \<open>Medians\<close>

lemma median_between:
  assumes "values \<noteq> []" and "\<And>v. v \<in> set values \<Longrightarrow> a \<le> v \<and> v \<le> b"
  shows "a \<le> median values" "median values \<le> b"
proof -
  let ?s = "sort values" and ?m = "length (sort values) div 2"
  have len: "0 < length ?s" using assms(1) by simp
  then have "?m < length ?s" "?m - 1 < length ?s" by linarith+
  then have "?s ! ?m \<in> set values" "?s ! (?m - 1) \<in> set values" by (metis nth_mem set_sort)+
  then have "a \<le> ?s ! ?m" "?s ! ?m \<le> b" "a \<le> ?s ! (?m - 1)" "?s ! (?m - 1) \<le> b" using assms(2) by blast+
  then show "a \<le> median values" "median values \<le> b" by (auto simp: median_def Let_def)
qed

subsection \<open>How far the published offset can be off\<close>

text \<open>
  A sample is honest for an offset when its two one-way delays are not negative: the clocks
  differ by \<open>theta\<close> while the ping travels.
\<close>

definition honest_sample :: "rat \<Rightarrow> clock_sample \<Rightarrow> bool" where
  "honest_sample theta s = (\<bar>cs_offset_ms s - theta\<bar> \<le> cs_rtt_ms s / 2)"

lemma ping_is_honest:
  assumes "pt_client_send p + theta \<le> pt_server_receive p" and "pt_server_send p \<le> pt_now p + theta"
  shows "honest_sample theta (sample_of p)"
  using assms by (auto simp: honest_sample_def sample_of_def Let_def abs_le_iff field_simps)

lemma honest_estimate:
  assumes "\<forall>s \<in> set samples. honest_sample theta s" and "estimate_offset_ms samples = Some (offset_ms, n)"
  shows "\<bar>offset_ms - theta\<bar> \<le> (fastest_rtt (usable_samples samples) + clock_sample_rtt_tolerance_ms) / 2"
proof -
  let ?usable = "usable_samples samples" and ?bound = "(fastest_rtt (usable_samples samples) + clock_sample_rtt_tolerance_ms) / 2"
  let ?offsets = "map cs_offset_ms (competing_samples ?usable)"
  have usable: "?usable \<noteq> []" and offset: "offset_ms = median ?offsets"
    using assms(2) by (auto simp: estimate_offset_ms_def Let_def split: if_splits)
  have "fastest_rtt ?usable \<in> set (map cs_rtt_ms ?usable)"
    unfolding fastest_rtt_def using usable by (intro Min_in) auto
  then obtain f where f: "f \<in> set ?usable" "cs_rtt_ms f = fastest_rtt ?usable" by auto
  then have "f \<in> set (competing_samples ?usable)"
    by (simp add: competing_samples_def clock_sample_rtt_tolerance_ms_def)
  then have nonempty: "?offsets \<noteq> []" by auto
  have near: "\<bar>cs_offset_ms s - theta\<bar> \<le> ?bound" if "s \<in> set (competing_samples ?usable)" for s
  proof -
    have "\<bar>cs_offset_ms s - theta\<bar> \<le> cs_rtt_ms s / 2" "cs_rtt_ms s / 2 \<le> ?bound"
      using that assms(1) by (auto simp: competing_samples_def usable_samples_def honest_sample_def field_simps)
    then show ?thesis by linarith
  qed
  have each: "theta - ?bound \<le> v \<and> v \<le> theta + ?bound" if v: "v \<in> set ?offsets" for v
  proof -
    obtain x where "x \<in> set (competing_samples ?usable)" "v = cs_offset_ms x" using v by auto
    then have "\<bar>v - theta\<bar> \<le> ?bound" using near by simp
    then show ?thesis by linarith
  qed
  have "theta - ?bound \<le> median ?offsets" "median ?offsets \<le> theta + ?bound"
    using median_between [OF nonempty each] by blast+
  then show ?thesis unfolding offset abs_le_iff by linarith
qed



subsection \<open>Positions\<close>

definition presents :: "(rat \<Rightarrow> string) \<Rightarrow> string \<Rightarrow> playback_state option \<Rightarrow> bool" where
  "presents number_string k playback =
     (case playback of None \<Rightarrow> False
      | Some p \<Rightarrow> pb_play_state p = Playing \<and> playback_snapshot_key number_string p = k)"

definition not_anchored :: "string \<Rightarrow> playback_anchor \<Rightarrow> bool" where
  "not_anchored k anchor = (\<forall>t. anchor \<noteq> Some (k, t))"

lemma mark_presented:
  assumes "presents number_string k playback"
  shows "mark_playback_arrival number_string playback t anchor =
    (case anchor of Some (k', since) \<Rightarrow> if k' = k then Some (k, min since t) else Some (k, t) | None \<Rightarrow> Some (k, t))"
  using assms
  by (cases playback) (auto simp: presents_def mark_playback_arrival_def Let_def min_def split: option.split prod.split)

text \<open>However often one snapshot is presented, its anchor is the earliest evidence of it.\<close>

lemma marked_run:
  assumes "\<forall>(playback, t) \<in> set run. presents number_string k playback"
  shows "fold (\<lambda>(playback, t). mark_playback_arrival number_string playback t) run (Some (k, since))
    = Some (k, Min (insert since (snd ` set run)))"
  using assms
proof (induction run arbitrary: since)
  case (Cons x run)
  obtain playback t where x: "x = (playback, t)" by fastforce
  have "mark_playback_arrival number_string playback t (Some (k, since)) = Some (k, min since t)"
    using Cons.prems x by (simp add: mark_presented [of number_string k])
  then have "fold (\<lambda>(playback, t). mark_playback_arrival number_string playback t) (x # run) (Some (k, since))
      = Some (k, Min (insert (min since t) (snd ` set run)))"
    using Cons x by simp
  also have "Min (insert (min since t) (snd ` set run)) = Min (insert since (snd ` set (x # run)))"
    by (cases "run = []") (simp_all add: x min.assoc insert_commute)
  finally show ?case .
qed simp

lemma marked_fresh_run:
  assumes "run \<noteq> []" and "\<forall>(playback, t) \<in> set run. presents number_string k playback" and "not_anchored k anchor"
  shows "fold (\<lambda>(playback, t). mark_playback_arrival number_string playback t) run anchor = Some (k, Min (snd ` set run))"
proof -
  obtain playback t rest where run: "run = (playback, t) # rest" using assms(1) by (cases run) auto
  have "mark_playback_arrival number_string playback t anchor = Some (k, t)"
    using assms(2,3) run by (auto simp: mark_presented [of number_string k] not_anchored_def split: option.split prod.split)
  then show ?thesis using marked_run [of rest number_string k t] assms(2) run by simp
qed

lemma compensated_position:
  assumes "rs_playback state = Some p" and "pb_play_state p = Playing" and "since \<le> now"
  shows "rs_playback (fst (compensate_room_state number_string now state None (Some (playback_snapshot_key number_string p, since))))
    = Some (p\<lparr> pb_current_time := pb_current_time p + (now - since) / 1000 * pb_playback_rate p \<rparr>)"
  using assms
  by (simp add: compensate_room_state_def mark_playback_arrival_def extrapolate_playing_room_state_def Let_def)

text \<open>The server sends a snapshot it stamped at \<open>stamped\<close>, and says how old it is; it arrives after \<open>delay\<close>.\<close>

definition delivery :: "playback_state \<Rightarrow> rat \<Rightarrow> rat \<Rightarrow> rat \<times> rat \<Rightarrow> playback_state option \<times> rat" where
  "delivery p stamped beta = (\<lambda>(sent, delay).
     (Some p, resolve_playback_anchor_at_ms (sent + delay + beta) (Some (Finite (sent - stamped)))))"

text \<open>
  C33. Following a playing room needs no common clock. A snapshot stamped at one moment on the
  server's clock, delivered any number of times within ten seconds of it, is shown at any later
  moment at the position the room has then, less what it plays in the shortest of the delivery
  delays: how far the two clocks are apart (\<open>beta\<close>) and which delivery came first do not matter.
\<close>

theorem room_position_without_common_clock:
  assumes "rs_playback state = Some p" and "pb_play_state p = Playing"
    and "not_anchored (playback_snapshot_key number_string p) anchor" and "deliveries \<noteq> []"
    and "\<forall>(sent, delay) \<in> set deliveries. stamped \<le> sent \<and> sent \<le> stamped + 10000 \<and> 0 \<le> delay \<and> sent + delay \<le> t"
  shows "rs_playback (fst (compensate_room_state number_string (t + beta) state None
      (fold (\<lambda>(playback, ms). mark_playback_arrival number_string playback ms) (map (delivery p stamped beta) deliveries) anchor)))
    = Some (p\<lparr> pb_current_time := pb_current_time p
        + (t - stamped - Min (snd ` set deliveries)) / 1000 * pb_playback_rate p \<rparr>)"
proof -
  let ?k = "playback_snapshot_key number_string p" and ?run = "map (delivery p stamped beta) deliveries"
  let ?delay = "Min (snd ` set deliveries)"
  have arrived: "snd (delivery p stamped beta d) = (stamped + beta) + snd d" if "d \<in> set deliveries" for d
    using assms(5) that
    by (cases d) (auto simp: delivery_def resolve_playback_anchor_at_ms_def max_trusted_playback_age_ms_def)
  have "snd ` set ?run = (\<lambda>d. (stamped + beta) + d) ` (snd ` set deliveries)"
    using arrived by (force simp: image_image)
  moreover have "mono (\<lambda>d. (stamped + beta) + d)" by (simp add: mono_def)
  ultimately have "Min (snd ` set ?run) = stamped + beta + ?delay"
    using assms(4) by (simp add: mono_Min_commute [symmetric])
  have anchored: "fold (\<lambda>(playback, ms). mark_playback_arrival number_string playback ms) ?run anchor
      = Some (?k, stamped + beta + ?delay)"
  proof -
    have "\<forall>(playback, ms) \<in> set ?run. presents number_string ?k playback"
      using assms(2) by (auto simp: presents_def delivery_def)
    moreover have "?run \<noteq> []" using assms(4) by simp
    ultimately show ?thesis using marked_fresh_run assms(3) \<open>Min (snd ` set ?run) = stamped + beta + ?delay\<close> by metis
  qed
  obtain sent delay where first: "(sent, delay) \<in> set deliveries" using assms(4) by (cases deliveries) auto
  then have "?delay \<le> delay" by (intro Min_le) force+
  moreover have "stamped \<le> sent" "sent + delay \<le> t" using first assms(5) by auto
  ultimately have late: "stamped + beta + ?delay \<le> t + beta" by linarith
  show ?thesis
    unfolding anchored using compensated_position [OF assms(1,2) late] by (simp add: algebra_simps)
qed

definition room_playing :: room_state where
  "room_playing = \<lparr> rs_room_code = ''ABC234'', rs_shared_video = None, rs_playback = Some
     \<lparr> pb_url = ''https://www.bilibili.com/video/BV1'', pb_current_time = 40, pb_play_state = Playing,
       pb_sync_intent = None, pb_user_initiated = None, pb_natural_end = None, pb_playback_rate = 2,
       pb_updated_at = 0, pb_server_time = 5000, pb_actor_id = ''alice'', pb_seq = 7 \<rparr>, rs_members = [] \<rparr>"

theorem room_position_without_common_clock_witness:
  "map_option pb_current_time (rs_playback (fst (compensate_room_state (\<lambda>_. ''1'') (9000 + (- 700000)) room_playing None
      (fold (\<lambda>(playback, ms). mark_playback_arrival (\<lambda>_. ''1'') playback ms)
        (map (delivery (the (rs_playback room_playing)) 5000 (- 700000)) [(5000, 300), (7000, 100)]) None))))
    = Some (40 + (9000 - 5000 - 100) / 1000 * 2)"
proof -
  have p: "rs_playback room_playing = Some (the (rs_playback room_playing))"
    "pb_play_state (the (rs_playback room_playing)) = Playing"
    by (simp_all add: room_playing_def)
  have all: "\<forall>(sent, delay) \<in> set [(5000, 300), (7000, 100)]. (5000::rat) \<le> sent \<and> sent \<le> 5000 + 10000 \<and> 0 \<le> delay \<and> sent + delay \<le> (9000::rat)"
    by simp
  have fields: "pb_current_time (the (rs_playback room_playing)) = 40" "pb_playback_rate (the (rs_playback room_playing)) = 2"
    by (simp_all add: room_playing_def)
  show ?thesis
    using room_position_without_common_clock [OF p _ _ all, of "\<lambda>_. ''1''" None "- 700000"]
    by (simp add: not_anchored_def fields)
qed

end
