(* ===== verification/Content_State.thy ===== *)
theory Content_State
  imports Protocol
begin

text \<open>
  \<open>extension/src/content/runtime-state.ts\<close>: the state the content script keeps for one page, the
  media element of the page and the closure variables of the controllers that work on it.

  The record \<open>content_runtime_state\<close> has the fields of \<open>ContentRuntimeState\<close> that playback
  synchronisation reads or writes (the festival snapshot belongs to the page bridge); \<open>content\<close>
  extends it with what \<open>sync-controller.ts\<close>, \<open>soft-apply-controller.ts\<close>,
  \<open>room-state-apply-controller.ts\<close> and \<open>index.ts\<close> keep in variables, and with the page: the
  element and the video the page resolves to. A timer is the time it is due.

  Times are readings of the monotonic clock. \<open>GESTURE_NEVER_AT\<close> is \<open>None\<close>, which is older than
  every window.
\<close>

subsection \<open>Data\<close>

datatype event_source =
    On_Play | On_Pause | On_Waiting | On_Stalled | On_Loadedmetadata | On_Canplay | On_Playing
  | On_Seeking | On_Seeked | On_Ratechange | On_Timeupdate | Manual

datatype action_kind = Act_Play | Act_Pause | Act_Seek | Act_Ratechange

record explicit_user_action =
  ea_kind :: action_kind
  ea_at :: rat

record explicit_playback_action =
  ep_play_state :: play_state
  ep_at :: rat

record suppressed_remote_playback =
  sr_until :: rat
  sr_url :: string
  sr_play_state :: play_state
  sr_current_time :: rat
  sr_playback_rate :: rat

record recent_remote_playing_intent =
  ri_until :: rat
  ri_url :: string
  ri_current_time :: rat

record playback_signature =
  sg_url :: string
  sg_play_state :: play_state
  sg_current_time :: rat
  sg_playback_rate :: rat

datatype apply_scope = Scope_All | Scope_Ratechange

datatype override_kind = Override_Seek | Override_Ratechange

record pending_local_override =
  po_kind :: override_kind
  po_url :: string
  po_seq :: rat
  po_expires_at :: rat
  po_target_time :: "rat option"
  po_playback_rate :: "rat option"

record playback_version =
  v_server_time :: rat
  v_seq :: rat

definition since_gesture :: "rat \<Rightarrow> rat option \<Rightarrow> rat \<Rightarrow> bool" where
  "since_gesture now gesture_at ms = (case gesture_at of None \<Rightarrow> True | Some t \<Rightarrow> ms \<le> now - t)"

subsection \<open>The state\<close>

record content_runtime_state =
  local_member_id :: "string option"
  content_rtt_ms :: "rat option"
  last_local_playback_version :: "playback_version option"
  pending_local_playback_override :: "pending_local_override option"
  active_shared_url :: "string option"
  active_shared_by_member_id :: "string option"
  active_room_code :: "string option"
  hydration_ready :: bool
  has_received_initial_room_state :: bool
  pending_room_state_hydration :: bool
  playback_context_generation :: nat
  player_session_generation :: nat
  intended_play_state :: play_state
  intended_playback_rate :: rat
  last_local_intent_at :: rat
  last_local_intent_play_state :: "play_state option"
  last_user_gesture_at :: "rat option"
  last_user_gesture_in_player_at :: "rat option"
  last_rate_control_gesture_at :: "rat option"
  last_explicit_playback_action :: "explicit_playback_action option"
  explicit_non_shared_playback_url :: "string option"
  suppressed_local_end_pause_url :: "string option"
  suppressed_local_end_pause_until :: rat
  non_sharer_autoplay_hold_url :: "string option"
  pending_auto_share_target_url :: "string option"
  resolved_shared_video_url :: "string option"
  last_forced_pause_at :: rat
  pause_hold_until :: rat
  pending_playback_application :: "playback_state option"
  programmatic_apply_until :: rat
  programmatic_apply_at :: rat
  programmatic_apply_scope :: apply_scope
  programmatic_apply_signature :: "playback_signature option"
  soft_apply_cooldown_until :: rat
  soft_apply_cooldown_url :: "string option"
  remote_follow_playing_until :: rat
  remote_follow_playing_url :: "string option"
  suppressed_remote :: "suppressed_remote_playback option"
  recent_remote_playing :: "recent_remote_playing_intent option"
  last_explicit_user_action :: "explicit_user_action option"
  explicit_seek_origin_play_state :: "play_state option"
  last_non_shared_guard_url :: "string option"
  post_navigation_anchor_shared_url :: "string option"
  post_navigation_anchor_set_at :: rat
  sharer_ended_suppression_url :: "string option"
  sharer_ended_suppression_until :: rat
  sharer_ended_suppression_armed_at :: rat
  shared_video_natural_end_url :: "string option"
  shared_video_natural_end_at :: rat
  last_buffer_signal_at :: rat
  last_video_element_bound_at :: rat
  pause_started_at :: rat
  pause_classified_as_buffer :: bool
  deferred_remote_paused_state :: "room_state option"
  deferred_remote_paused_due :: "rat option"

text \<open>
  The media element: what the code reads and writes of \<open>HTMLVideoElement\<close>. \<open>play()\<close> starts the
  element when the browser's autoplay policy lets it (\<open>vd_may_play\<close>); its promise is ignored.
\<close>

record video =
  vd_id :: nat
  vd_paused :: bool
  vd_current_time :: rat
  vd_playback_rate :: rat
  vd_default_playback_rate :: rat
  vd_ready_state :: nat
  vd_has_duration :: bool
  vd_may_play :: bool

record soft_apply_session =
  sa_url :: string
  sa_target_time :: rat
  sa_restore_rate :: rat
  sa_deadline_at :: rat
  sa_arm_cooldown :: bool
  sa_relative_drift :: bool
  sa_started_at :: rat

record confirmed_broadcast =
  cb_url :: "string option"
  cb_play_state :: play_state
  cb_sync_intent :: "sync_intent option"
  cb_user_initiated :: bool
  cb_natural_end :: bool
  cb_current_time :: rat
  cb_playback_rate :: rat
  cb_at :: rat

record content = content_runtime_state +
  the_video :: "video option"
  page_video :: "shared_video option"
  extension_pauses :: "nat \<Rightarrow> (rat \<times> nat) option"
  active_soft_apply :: "soft_apply_session option"
  soft_apply_due :: "rat option"
  applied_versions :: "string \<Rightarrow> playback_version option"
  room_confirmed_broadcast :: "confirmed_broadcast option"
  hydrate_retry_due :: "rat option"
  hydrate_retry_attempt :: nat
  bound_video_attempt :: nat
  sync_destroyed :: bool
  content_seq :: nat
  last_broadcast_at :: rat

subsection \<open>Generations\<close>

definition invalidate_playback_context :: "content \<Rightarrow> content" where
  "invalidate_playback_context c = c\<lparr> playback_context_generation := playback_context_generation c + 1 \<rparr>"

definition invalidate_player_session :: "content \<Rightarrow> content" where
  "invalidate_player_session c = c\<lparr> player_session_generation := player_session_generation c + 1,
     last_buffer_signal_at := 0, pause_started_at := 0, pause_classified_as_buffer := False \<rparr>"

definition reset_user_gesture_state :: "content \<Rightarrow> content" where
  "reset_user_gesture_state c = (invalidate_player_session (invalidate_playback_context c))
     \<lparr> last_user_gesture_at := None, last_user_gesture_in_player_at := None,
        last_rate_control_gesture_at := None, last_explicit_playback_action := None,
        last_explicit_user_action := None, explicit_seek_origin_play_state := None,
        last_non_shared_guard_url := None, last_forced_pause_at := 0,
        suppressed_local_end_pause_url := None, suppressed_local_end_pause_until := 0,
        non_sharer_autoplay_hold_url := None \<rparr>"

definition set_room_membership :: "string option \<Rightarrow> string option \<Rightarrow> content \<Rightarrow> content" where
  "set_room_membership room_code member_id c =
     (let room_changed = active_room_code c \<noteq> room_code;
          c' = c\<lparr> active_room_code := room_code, local_member_id := member_id \<rparr>
      in if room_changed then invalidate_player_session c' else c')"

definition initial_content :: content where
  "initial_content =
     \<lparr> local_member_id = None, content_rtt_ms = None, last_local_playback_version = None,
       pending_local_playback_override = None, active_shared_url = None, active_shared_by_member_id = None,
       active_room_code = None, hydration_ready = False, has_received_initial_room_state = False,
       pending_room_state_hydration = True, playback_context_generation = 0, player_session_generation = 0,
       intended_play_state = Paused, intended_playback_rate = 1, last_local_intent_at = 0,
       last_local_intent_play_state = None, last_user_gesture_at = None,
       last_user_gesture_in_player_at = None, last_rate_control_gesture_at = None,
       last_explicit_playback_action = None, explicit_non_shared_playback_url = None,
       suppressed_local_end_pause_url = None, suppressed_local_end_pause_until = 0,
       non_sharer_autoplay_hold_url = None, pending_auto_share_target_url = None,
       resolved_shared_video_url = None, last_forced_pause_at = 0, pause_hold_until = 0,
       pending_playback_application = None, programmatic_apply_until = 0, programmatic_apply_at = 0,
       programmatic_apply_scope = Scope_All, programmatic_apply_signature = None,
       soft_apply_cooldown_until = 0, soft_apply_cooldown_url = None, remote_follow_playing_until = 0,
       remote_follow_playing_url = None, suppressed_remote = None, recent_remote_playing = None,
       last_explicit_user_action = None, explicit_seek_origin_play_state = None,
       last_non_shared_guard_url = None, post_navigation_anchor_shared_url = None,
       post_navigation_anchor_set_at = 0, sharer_ended_suppression_url = None,
       sharer_ended_suppression_until = 0, sharer_ended_suppression_armed_at = 0,
       shared_video_natural_end_url = None, shared_video_natural_end_at = 0, last_buffer_signal_at = 0,
       last_video_element_bound_at = 0, pause_started_at = 0, pause_classified_as_buffer = False,
       deferred_remote_paused_state = None, deferred_remote_paused_due = None,
       the_video = None, page_video = None, extension_pauses = (\<lambda>_. None), active_soft_apply = None,
       soft_apply_due = None, applied_versions = (\<lambda>_. None), room_confirmed_broadcast = None,
       hydrate_retry_due = None, hydrate_retry_attempt = 0, bound_video_attempt = 0,
       sync_destroyed = False, content_seq = 0, last_broadcast_at = 0 \<rparr>"

subsection \<open>The windows wired in \<open>index.ts\<close>\<close>

definition local_intent_guard_ms :: rat where "local_intent_guard_ms = 1200"
definition pause_hold_ms :: rat where "pause_hold_ms = 1200"
definition initial_room_state_pause_hold_ms :: rat where "initial_room_state_pause_hold_ms = 3000"
definition remote_echo_suppression_ms :: rat where "remote_echo_suppression_ms = 700"
definition remote_play_transition_guard_ms :: rat where "remote_play_transition_guard_ms = 1800"
definition remote_follow_playing_window_ms :: rat where "remote_follow_playing_window_ms = 3000"
definition programmatic_apply_window_ms :: rat where "programmatic_apply_window_ms = 700"
definition user_gesture_grace_ms :: rat where "user_gesture_grace_ms = 1200"
definition buffer_pause_upgrade_ms :: rat where "buffer_pause_upgrade_ms = 1500"
definition remote_pause_debounce_ms :: rat where "remote_pause_debounce_ms = 250"
definition duplicate_broadcast_window_ms :: rat where "duplicate_broadcast_window_ms = 1000"

lemmas content_windows = local_intent_guard_ms_def pause_hold_ms_def initial_room_state_pause_hold_ms_def
  remote_echo_suppression_ms_def remote_play_transition_guard_ms_def remote_follow_playing_window_ms_def
  programmatic_apply_window_ms_def user_gesture_grace_ms_def buffer_pause_upgrade_ms_def
  remote_pause_debounce_ms_def duplicate_broadcast_window_ms_def

end
