(* ===== verification/Playback_Rules.thy ===== *)
theory Playback_Rules
  imports Content_State
begin

text \<open>
  The decisions of the content script that depend on nothing but their inputs:
  \<open>playback-reconcile.ts\<close> (how far the player is from the room and what to do about it),
  \<open>playback-apply.ts\<close> with the part of \<open>video-identity.ts\<close> it uses (whether a room state is
  applied at all) and \<open>playback-broadcast.ts\<close> (what a local event says to the room). Play
  positions are in seconds, times in milliseconds.
\<close>

subsection \<open>Reconciling a position\<close>

datatype reconcile_mode = Mode_Ignore | Mode_Rate_Only | Mode_Soft_Apply | Mode_Hard_Seek

datatype reconcile_reason =
    Within_Threshold | Paused_Or_Buffering | Buffering_Not_Authoritative | Playing_Rate_Adjust
  | Playing_Soft_Drift | Playing_Hard_Drift | Reason_Explicit_Seek

record reconcile_decision =
  rc_mode :: reconcile_mode
  rc_delta :: rat
  rc_reason :: reconcile_reason

definition paused_hard_seek_threshold_seconds :: rat where "paused_hard_seek_threshold_seconds = 15 / 100"
definition playing_ignore_threshold_seconds :: rat where "playing_ignore_threshold_seconds = 45 / 100"
definition playing_catch_up_ignore_threshold_seconds :: rat where
  "playing_catch_up_ignore_threshold_seconds = 5 / 100"
definition playing_rate_only_threshold_seconds :: rat where "playing_rate_only_threshold_seconds = 9 / 10"
definition playing_soft_apply_threshold_seconds :: rat where "playing_soft_apply_threshold_seconds = 12 / 10"

lemmas reconcile_thresholds = paused_hard_seek_threshold_seconds_def playing_ignore_threshold_seconds_def
  playing_catch_up_ignore_threshold_seconds_def playing_rate_only_threshold_seconds_def
  playing_soft_apply_threshold_seconds_def

definition get_playback_rate_multiplier :: "rat option \<Rightarrow> rat" where
  "get_playback_rate_multiplier playback_rate = max 1 (case playback_rate of None \<Rightarrow> 1 | Some r \<Rightarrow> r)"

record playing_thresholds =
  th_ignore :: rat
  th_rate_only :: rat
  th_soft_apply :: rat

definition get_adaptive_playing_thresholds :: "rat option \<Rightarrow> bool \<Rightarrow> playing_thresholds" where
  "get_adaptive_playing_thresholds playback_rate has_active_catch_up =
     (let extra_rate = get_playback_rate_multiplier playback_rate - 1;
          base_ignore_threshold =
            (if has_active_catch_up then playing_catch_up_ignore_threshold_seconds
             else playing_ignore_threshold_seconds)
      in \<lparr> th_ignore = base_ignore_threshold * (1 + extra_rate * (35 / 100)),
           th_rate_only = playing_rate_only_threshold_seconds * (1 + extra_rate * (7 / 10)),
           th_soft_apply = playing_soft_apply_threshold_seconds * (1 + extra_rate * (55 / 100)) \<rparr>)"

definition should_treat_as_explicit_seek :: "sync_intent option \<Rightarrow> play_state \<Rightarrow> bool" where
  "should_treat_as_explicit_seek intent play_state = (play_state = Playing \<and> intent = Some Explicit_Seek)"

definition decide_playback_reconcile_mode ::
    "rat \<Rightarrow> rat \<Rightarrow> play_state \<Rightarrow> bool \<Rightarrow> rat option \<Rightarrow> bool \<Rightarrow> reconcile_decision" where
  "decide_playback_reconcile_mode local_time target_time play_state is_explicit_seek playback_rate has_active_catch_up =
     (let delta = \<bar>target_time - local_time\<bar>
      in if play_state = Buffering \<and> target_time < local_time then
           \<lparr> rc_mode = Mode_Ignore, rc_delta = delta, rc_reason = Buffering_Not_Authoritative \<rparr>
         else if play_state \<noteq> Playing then
           (if paused_hard_seek_threshold_seconds < delta
            then \<lparr> rc_mode = Mode_Hard_Seek, rc_delta = delta, rc_reason = Paused_Or_Buffering \<rparr>
            else \<lparr> rc_mode = Mode_Ignore, rc_delta = delta, rc_reason = Within_Threshold \<rparr>)
         else if is_explicit_seek then
           \<lparr> rc_mode = Mode_Hard_Seek, rc_delta = delta, rc_reason = Reason_Explicit_Seek \<rparr>
         else
           let th = get_adaptive_playing_thresholds playback_rate has_active_catch_up
           in if delta \<le> th_ignore th then
                \<lparr> rc_mode = Mode_Ignore, rc_delta = delta, rc_reason = Within_Threshold \<rparr>
              else if delta \<le> th_rate_only th then
                \<lparr> rc_mode = Mode_Rate_Only, rc_delta = delta, rc_reason = Playing_Rate_Adjust \<rparr>
              else if delta \<le> th_soft_apply th then
                \<lparr> rc_mode = Mode_Soft_Apply, rc_delta = delta, rc_reason = Playing_Soft_Drift \<rparr>
              else \<lparr> rc_mode = Mode_Hard_Seek, rc_delta = delta, rc_reason = Playing_Hard_Drift \<rparr>)"

subsection \<open>Whether a room state is applied\<close>

definition is_season_id :: "string \<Rightarrow> bool" where
  "is_season_id video_id =
     (case strip_prefix ''ss'' (map to_lower video_id) of
        None \<Rightarrow> False
      | Some rest \<Rightarrow>
          let digits = takeWhile is_digit rest; tail = dropWhile is_digit rest
          in digits \<noteq> [] \<and> (tail = [] \<or> (case strip_prefix '':p'' tail of
               None \<Rightarrow> False | Some page \<Rightarrow> positive_digits page)))"

definition has_stable_shared_video_identity :: "shared_video option \<Rightarrow> bool" where
  "has_stable_shared_video_identity video =
     (case video of
        None \<Rightarrow> False
      | Some v \<Rightarrow> \<not> (strip_prefix ''/festival/'' (sv_video_id v) \<noteq> None \<or> is_season_id (sv_video_id v)))"

definition is_confirmed_different_shared_video ::
    "shared_video option \<Rightarrow> shared_video option \<Rightarrow> string option \<Rightarrow> string option \<Rightarrow> bool" where
  "is_confirmed_different_shared_video current shared normalized_current_url normalized_shared_url =
     (case (current, shared) of
        (Some c, Some s) \<Rightarrow>
          if sv_video_id c = sv_video_id s then False
          else if \<not> has_stable_shared_video_identity current \<or> \<not> has_stable_shared_video_identity shared
            \<or> \<not> truthy normalized_current_url \<or> \<not> truthy normalized_shared_url then False
          else normalized_current_url \<noteq> normalized_shared_url
      | _ \<Rightarrow> False)"

record apply_input =
  ai_room_state :: room_state
  ai_current_video :: "shared_video option"
  ai_normalized_shared_url :: "string option"
  ai_normalized_current_url :: "string option"
  ai_normalized_playback_url :: "string option"
  ai_pending_hydration :: bool
  ai_now :: rat
  ai_last_local_intent_at :: rat
  ai_last_local_intent_play_state :: "play_state option"
  ai_last_applied_version :: "playback_version option"
  ai_last_local_playback_version :: "playback_version option"
  ai_local_member_id :: "string option"

datatype apply_decision =
    Empty_Room bool
  | No_Current_Video
  | Ignore_Non_Shared bool bool
  | Ignore_Local_Guard
  | Ignore_Stale_Playback
  | Ignore_Self_Playback_Version
  | Apply_Playback bool playback_state

text \<open>The version order: the server's time, then the sequence number.\<close>

definition version_of :: "playback_state \<Rightarrow> playback_version" where
  "version_of p = \<lparr> v_server_time = pb_server_time p, v_seq = pb_seq p \<rparr>"

definition version_less :: "playback_version \<Rightarrow> playback_version \<Rightarrow> bool" where
  "version_less a b =
     (v_server_time a < v_server_time b \<or> (v_server_time a = v_server_time b \<and> v_seq a < v_seq b))"

definition stale_playback :: "playback_version option \<Rightarrow> playback_state \<Rightarrow> bool" where
  "stale_playback applied p =
     (case applied of
        None \<Rightarrow> False
      | Some v \<Rightarrow> pb_server_time p < v_server_time v \<or> (pb_server_time p = v_server_time v \<and> pb_seq p \<le> v_seq v))"

definition own_playback :: "string option \<Rightarrow> playback_state \<Rightarrow> bool" where
  "own_playback member_id p = (truthy member_id \<and> member_id = Some (pb_actor_id p))"

definition decide_playback_application :: "apply_input \<Rightarrow> apply_decision" where
  "decide_playback_application i =
     (case (rs_shared_video (ai_room_state i), rs_playback (ai_room_state i)) of
        (Some shared, Some playback) \<Rightarrow>
          if ai_current_video i = None then No_Current_Video
          else if \<not> truthy (ai_normalized_shared_url i)
            \<or> ai_normalized_current_url i \<noteq> ai_normalized_shared_url i
            \<or> ai_normalized_playback_url i \<noteq> ai_normalized_shared_url i then
            Ignore_Non_Shared (ai_pending_hydration i)
              (ai_pending_hydration i \<and> (pb_play_state playback = Paused \<or> pb_play_state playback = Buffering)
               \<and> \<not> is_confirmed_different_shared_video (ai_current_video i) (Some shared)
                     (ai_normalized_current_url i) (ai_normalized_shared_url i))
          else if ai_last_local_intent_play_state i \<noteq> None
            \<and> ai_now i - ai_last_local_intent_at i < local_intent_guard_ms
            \<and> (ai_last_local_intent_play_state i = Some Paused \<or> ai_last_local_intent_play_state i = Some Buffering)
            \<and> pb_play_state playback = Playing then Ignore_Local_Guard
          else if stale_playback (ai_last_applied_version i) playback then Ignore_Stale_Playback
          else if own_playback (ai_local_member_id i) playback
            \<and> (case ai_last_local_playback_version i of None \<Rightarrow> False | Some v \<Rightarrow> pb_seq playback \<le> v_seq v)
            then Ignore_Self_Playback_Version
          else Apply_Playback (own_playback (ai_local_member_id i) playback) playback
      | _ \<Rightarrow> Empty_Room (ai_pending_hydration i))"

subsection \<open>What a local event says to the room\<close>

definition explicit_seek_broadcast_grace_ms :: rat where "explicit_seek_broadcast_grace_ms = 2500"

definition should_skip_broadcast_while_hydrating :: "bool \<Rightarrow> rat \<Rightarrow> rat option \<Rightarrow> bool" where
  "should_skip_broadcast_while_hydrating pending_hydration now last_gesture_at =
     (if \<not> pending_hydration then False else since_gesture now last_gesture_at user_gesture_grace_ms)"

definition should_pause_for_non_shared_broadcast ::
    "string option \<Rightarrow> string option \<Rightarrow> string option \<Rightarrow> string option \<Rightarrow> play_state
      \<Rightarrow> explicit_playback_action option \<Rightarrow> rat \<Rightarrow> bool" where
  "should_pause_for_non_shared_broadcast room_code shared_url current_url explicit_non_shared_url play_state action now =
     (if \<not> truthy room_code \<or> \<not> truthy shared_url \<or> current_url = shared_url then False
      else if play_state \<noteq> Playing \<or> explicit_non_shared_url = current_url then False
      else \<not> (case action of None \<Rightarrow> False
               | Some a \<Rightarrow> ep_play_state a = Playing \<and> now - ep_at a < user_gesture_grace_ms))"

definition set_flag :: "bool \<Rightarrow> bool option" where
  "set_flag b = (if b then Some True else None)"

definition create_playback_broadcast_payload ::
    "shared_video \<Rightarrow> rat \<Rightarrow> play_state \<Rightarrow> sync_intent option \<Rightarrow> bool \<Rightarrow> bool \<Rightarrow> rat \<Rightarrow> string \<Rightarrow> rat \<Rightarrow> rat \<Rightarrow> playback_state" where
  "create_playback_broadcast_payload current_video current_time play_state intent user_initiated natural_end
      playback_rate actor_id sequence updated_at =
     \<lparr> pb_url = sv_url current_video, pb_current_time = current_time, pb_play_state = play_state,
       pb_sync_intent = intent, pb_user_initiated = set_flag user_initiated, pb_natural_end = set_flag natural_end,
       pb_playback_rate = playback_rate, pb_updated_at = updated_at, pb_server_time = 0,
       pb_actor_id = actor_id, pb_seq = sequence \<rparr>"

text \<open>
  The user acted with kind \<open>kind\<close> after the last pause the extension forced, less than
  \<open>grace\<close> ago.
\<close>

definition acted_since_forced_pause :: "action_kind \<Rightarrow> explicit_user_action option \<Rightarrow> rat \<Rightarrow> rat \<Rightarrow> rat \<Rightarrow> bool" where
  "acted_since_forced_pause kind action forced_pause_at now grace =
     (case action of None \<Rightarrow> False
      | Some a \<Rightarrow> ea_kind a = kind \<and> forced_pause_at < ea_at a \<and> now - ea_at a < grace)"

definition derive_user_initiated_pause ::
    "event_source \<Rightarrow> play_state \<Rightarrow> explicit_user_action option \<Rightarrow> rat \<Rightarrow> rat \<Rightarrow> play_state option \<Rightarrow> rat \<Rightarrow> bool" where
  "derive_user_initiated_pause event play_state action forced_pause_at programmatic_until programmatic_play_state now =
     (if event \<noteq> On_Pause \<or> play_state \<noteq> Paused then False
      else if \<not> acted_since_forced_pause Act_Pause action forced_pause_at now user_gesture_grace_ms then False
      else if programmatic_play_state = Some Paused \<and> now < programmatic_until then False
      else True)"

definition derive_playback_sync_intent ::
    "event_source \<Rightarrow> explicit_user_action option \<Rightarrow> rat \<Rightarrow> rat \<Rightarrow> sync_intent option" where
  "derive_playback_sync_intent event action forced_pause_at now =
     (if event = On_Ratechange
        \<and> acted_since_forced_pause Act_Ratechange action forced_pause_at now user_gesture_grace_ms
      then Some Explicit_Ratechange
      else if event \<notin> {On_Seeking, On_Seeked, On_Play, On_Playing, On_Canplay}
        \<or> \<not> acted_since_forced_pause Act_Seek action forced_pause_at now
              (max user_gesture_grace_ms explicit_seek_broadcast_grace_ms)
      then None
      else Some Explicit_Seek)"

end
