(* ===== verification/Sync_Guards.thy ===== *)
theory Sync_Guards
  imports Playback_Rules
begin

text \<open>
  \<open>extension/src/content/sync-guards.ts\<close>: the guards between the player and the room. Each is a
  function of the state it is handed; those that end a window of the state return its next value.
\<close>

definition recently :: "action_kind option \<Rightarrow> explicit_user_action option \<Rightarrow> rat \<Rightarrow> bool" where
  "recently kind action now =
     (case (kind, action) of
        (Some k, Some a) \<Rightarrow> ea_kind a = k \<and> now - ea_at a < user_gesture_grace_ms
      | _ \<Rightarrow> False)"

definition is_remote_state_compatible_for_local_echo :: "play_state \<Rightarrow> play_state \<Rightarrow> bool" where
  "is_remote_state_compatible_for_local_echo local_state remote_state =
     (local_state = remote_state \<or> (local_state = Buffering \<and> remote_state = Playing))"

definition is_programmatic_playback_state_compatible :: "play_state \<Rightarrow> play_state \<Rightarrow> bool" where
  "is_programmatic_playback_state_compatible event_state signature_state =
     (event_state = signature_state \<or> (event_state = Buffering \<and> signature_state = Playing)
      \<or> (event_state = Paused \<and> signature_state = Buffering))"

definition get_programmatic_event_threshold :: "event_source \<Rightarrow> play_state \<Rightarrow> rat" where
  "get_programmatic_event_threshold event play_state =
     (if event = On_Seeking \<or> event = On_Seeked then 6 / 10
      else if event = On_Loadedmetadata \<or> event = On_Canplay then 6 / 10
      else if event = On_Timeupdate then 1
      else if event = On_Ratechange then 12 / 10
      else if play_state = Playing then 9 / 10 else 25 / 100)"

fun map_event_source_to_explicit_action :: "event_source \<Rightarrow> action_kind option" where
  "map_event_source_to_explicit_action On_Play = Some Act_Play"
| "map_event_source_to_explicit_action On_Playing = Some Act_Play"
| "map_event_source_to_explicit_action On_Pause = Some Act_Pause"
| "map_event_source_to_explicit_action On_Seeking = Some Act_Seek"
| "map_event_source_to_explicit_action On_Seeked = Some Act_Seek"
| "map_event_source_to_explicit_action On_Ratechange = Some Act_Ratechange"
| "map_event_source_to_explicit_action _ = None"

definition should_force_pause_while_waiting_for_initial_room_state :: "string option \<Rightarrow> bool \<Rightarrow> bool \<Rightarrow> bool" where
  "should_force_pause_while_waiting_for_initial_room_state room_code pending_hydration video_paused =
     (truthy room_code \<and> pending_hydration \<and> \<not> video_paused)"

definition evaluate_non_shared_page_guard ::
    "string option \<Rightarrow> string option \<Rightarrow> string option \<Rightarrow> bool \<Rightarrow> string option \<Rightarrow> explicit_playback_action option \<Rightarrow> rat
      \<Rightarrow> bool \<times> string option" where
  "evaluate_non_shared_page_guard room_code shared_url current_url video_paused explicit_url action now =
     (if \<not> truthy room_code \<or> \<not> truthy shared_url then (False, explicit_url)
      else if \<not> truthy current_url \<or> current_url = shared_url then (False, None)
      else if video_paused then (True, explicit_url)
      else if explicit_url = current_url then (False, explicit_url)
      else if (case action of None \<Rightarrow> False
               | Some a \<Rightarrow> ep_play_state a = Playing \<and> now - ep_at a < user_gesture_grace_ms)
        then (False, current_url)
      else (True, explicit_url))"

definition remember_remote_playback ::
    "playback_state \<Rightarrow> string option \<Rightarrow> rat \<Rightarrow> suppressed_remote_playback option \<times> recent_remote_playing_intent option" where
  "remember_remote_playback playback normalized_url now =
     (case normalized_url of
        None \<Rightarrow> (None, None)
      | Some u \<Rightarrow>
          if u = [] then (None, None)
          else
            (Some \<lparr> sr_until = now + remote_echo_suppression_ms, sr_url = u,
                    sr_play_state = pb_play_state playback, sr_current_time = pb_current_time playback,
                    sr_playback_rate = pb_playback_rate playback \<rparr>,
             if pb_play_state playback = Playing
             then Some \<lparr> ri_until = now + remote_play_transition_guard_ms, ri_url = u,
                         ri_current_time = pb_current_time playback \<rparr>
             else None))"

definition should_suppress_local_echo ::
    "suppressed_remote_playback option \<Rightarrow> string option \<Rightarrow> play_state \<Rightarrow> rat \<Rightarrow> rat \<Rightarrow> rat
      \<Rightarrow> bool \<times> suppressed_remote_playback option" where
  "should_suppress_local_echo suppressed current_url play_state current_time playback_rate now =
     (case suppressed of
        None \<Rightarrow> (False, None)
      | Some s \<Rightarrow>
          if sr_until s \<le> now then (False, None)
          else if current_url \<noteq> Some (sr_url s)
            \<or> \<not> is_remote_state_compatible_for_local_echo play_state (sr_play_state s)
            \<or> 1 / 100 < \<bar>playback_rate - sr_playback_rate s\<bar> then (False, Some s)
          else (\<bar>current_time - sr_current_time s\<bar>
                  \<le> (if play_state = Playing \<and> sr_play_state s = Playing then 9 / 10 else 2 / 10), Some s))"

record programmatic_window =
  pw_until :: rat
  pw_at :: rat
  pw_scope :: apply_scope
  pw_signature :: "playback_signature option"

definition should_suppress_programmatic_event ::
    "programmatic_window \<Rightarrow> string option \<Rightarrow> play_state \<Rightarrow> rat \<Rightarrow> rat \<Rightarrow> event_source
      \<Rightarrow> explicit_user_action option \<Rightarrow> rat \<Rightarrow> bool \<times> rat \<times> playback_signature option" where
  "should_suppress_programmatic_event w current_url play_state current_time playback_rate event action now =
     (case pw_signature w of
        None \<Rightarrow> (False, 0, None)
      | Some sig \<Rightarrow>
          if pw_until w \<le> now then (False, 0, None)
          else if \<not> truthy current_url \<or> current_url \<noteq> Some (sg_url sig) then (False, pw_until w, Some sig)
          else if pw_scope w = Scope_Ratechange \<and> event \<noteq> On_Ratechange then (False, pw_until w, Some sig)
          else if recently (map_event_source_to_explicit_action event) action now
            \<and> (case action of None \<Rightarrow> False | Some a \<Rightarrow> pw_at w \<le> ea_at a) then (False, pw_until w, Some sig)
          else if \<not> is_programmatic_playback_state_compatible play_state (sg_play_state sig)
            \<or> 1 / 100 < \<bar>playback_rate - sg_playback_rate sig\<bar> then (False, pw_until w, Some sig)
          else (\<bar>current_time - sg_current_time sig\<bar> \<le> get_programmatic_event_threshold event play_state,
                pw_until w, Some sig))"

definition should_suppress_remote_followup_broadcast ::
    "rat \<Rightarrow> string option \<Rightarrow> string option \<Rightarrow> play_state \<Rightarrow> event_source \<Rightarrow> explicit_user_action option \<Rightarrow> rat
      \<Rightarrow> bool \<times> rat \<times> string option" where
  "should_suppress_remote_followup_broadcast follow_until follow_url current_url play_state event action now =
     (if \<not> truthy follow_url \<or> follow_until \<le> 0 then (False, 0, None)
      else if follow_until \<le> now then (False, 0, None)
      else if \<not> truthy current_url \<or> current_url \<noteq> follow_url then (False, 0, None)
      else if play_state = Paused then (False, 0, None)
      else if play_state = Buffering then (event = On_Waiting \<or> event = On_Stalled, follow_until, follow_url)
      else if recently (map_event_source_to_explicit_action event) action now
        \<or> (recently (Some Act_Seek) action now \<and> (event = On_Play \<or> event = On_Playing \<or> event = On_Canplay))
        then (False, follow_until, follow_url)
      else (True, follow_until, follow_url))"

definition has_recent_remote_stop_intent ::
    "rat \<Rightarrow> rat \<Rightarrow> string option \<Rightarrow> string option \<Rightarrow> play_state \<Rightarrow> suppressed_remote_playback option \<Rightarrow> bool" where
  "has_recent_remote_stop_intent now hold_until current_url shared_url intended suppressed =
     (if hold_until \<le> now \<or> \<not> truthy current_url then False
      else if truthy shared_url \<and> current_url \<noteq> shared_url then False
      else if intended = Paused then True
      else (case suppressed of None \<Rightarrow> False
            | Some s \<Rightarrow> current_url = Some (sr_url s) \<and> sr_play_state s = Paused))"

definition should_suppress_remote_play_transition ::
    "recent_remote_playing_intent option \<Rightarrow> string option \<Rightarrow> play_state \<Rightarrow> rat \<Rightarrow> explicit_playback_action option \<Rightarrow> rat
      \<Rightarrow> bool \<times> recent_remote_playing_intent option" where
  "should_suppress_remote_play_transition intent current_url play_state current_time action now =
     (case intent of
        None \<Rightarrow> (False, None)
      | Some r \<Rightarrow>
          if ri_until r \<le> now then (False, None)
          else if current_url \<noteq> Some (ri_url r) \<or> play_state = Playing then (False, Some r)
          else if (case action of None \<Rightarrow> False
                   | Some a \<Rightarrow> ep_play_state a = Paused \<and> play_state = Paused \<and> now - ep_at a < user_gesture_grace_ms)
            then (False, Some r)
          else (\<bar>current_time - ri_current_time r\<bar> \<le> 15 / 10, Some r))"

definition should_apply_self_playback :: "bool \<Rightarrow> rat \<Rightarrow> rat \<Rightarrow> playback_state \<Rightarrow> bool" where
  "should_apply_self_playback video_paused video_current_time video_playback_rate playback =
     (if (pb_play_state playback = Paused \<or> pb_play_state playback = Buffering) \<and> \<not> video_paused then True
      else if pb_play_state playback = Playing \<and> video_paused then True
      else 6 / 10 < \<bar>video_current_time - pb_current_time playback\<bar>
         \<or> 1 / 100 < \<bar>video_playback_rate - pb_playback_rate playback\<bar>)"

end
