(* ===== verification/Player_Binding.thy ===== *)
theory Player_Binding
  imports Sync_Guards
begin

text \<open>
  \<open>extension/src/content/player-binding.ts\<close>: what the extension reads off the media element and
  how it moves it. A correction either seeks, steps and bends the speed (soft apply), bends the
  speed only (a catch-up), or leaves the position alone.
\<close>

subsection \<open>The element\<close>

definition set_video_playback_rate :: "rat \<Rightarrow> video \<Rightarrow> video" where
  "set_video_playback_rate rate v = v\<lparr> vd_default_playback_rate := rate, vd_playback_rate := rate \<rparr>"

definition play_video :: "video \<Rightarrow> video" where
  "play_video v = (if vd_may_play v then v\<lparr> vd_paused := False \<rparr> else v)"

definition pause_video :: "video \<Rightarrow> video" where
  "pause_video v = v\<lparr> vd_paused := True \<rparr>"

definition can_apply_playback_immediately :: "video \<Rightarrow> bool" where
  "can_apply_playback_immediately v = (vd_has_duration v \<and> 1 \<le> vd_ready_state v)"

definition element_play_state :: "video \<Rightarrow> play_state" where
  "element_play_state v =
     (if \<not> vd_paused v \<and> vd_ready_state v < 3 then Buffering else if vd_paused v then Paused else Playing)"

definition is_inside_buffer_pause_window :: "bool \<Rightarrow> rat \<Rightarrow> rat \<Rightarrow> bool" where
  "is_inside_buffer_pause_window classified started_at now =
     (classified \<and> 0 < started_at \<and> now - started_at < buffer_pause_upgrade_ms)"

definition get_reported_play_state :: "video \<Rightarrow> bool \<Rightarrow> rat \<Rightarrow> rat \<Rightarrow> play_state" where
  "get_reported_play_state v classified started_at now =
     (let play_state = element_play_state v
      in if play_state \<noteq> Paused then play_state
         else if is_inside_buffer_pause_window classified started_at now then Buffering else Paused)"

definition reported_play_state :: "video \<Rightarrow> rat \<Rightarrow> content \<Rightarrow> play_state" where
  "reported_play_state v now c = get_reported_play_state v (pause_classified_as_buffer c) (pause_started_at c) now"

definition force_pause_video :: "video \<Rightarrow> rat \<Rightarrow> content \<Rightarrow> content" where
  "force_pause_video v now c = c\<lparr>
     extension_pauses := (extension_pauses c)(vd_id v := Some (now, player_session_generation c)),
     last_forced_pause_at := now, pause_started_at := now, pause_classified_as_buffer := False,
     the_video := Some (pause_video v) \<rparr>"

definition is_extension_owned_active_pause :: "video \<Rightarrow> content \<Rightarrow> bool" where
  "is_extension_owned_active_pause v c =
     (case extension_pauses c (vd_id v) of
        None \<Rightarrow> False
      | Some (started_at, generation) \<Rightarrow>
          0 < pause_started_at c \<and> started_at = pause_started_at c \<and> generation = player_session_generation c)"

definition clear_extension_pause_ownership :: "video \<Rightarrow> content \<Rightarrow> content" where
  "clear_extension_pause_ownership v c = c\<lparr> extension_pauses := (extension_pauses c)(vd_id v := None) \<rparr>"

definition create_programmatic_playback_signature :: "playback_state \<Rightarrow> playback_signature" where
  "create_programmatic_playback_signature p =
     \<lparr> sg_url = pb_url p, sg_play_state = pb_play_state p, sg_current_time = pb_current_time p,
       sg_playback_rate = pb_playback_rate p \<rparr>"

subsection \<open>How strongly to correct\<close>

definition soft_apply_step_seconds :: rat where "soft_apply_step_seconds = 22 / 100"
definition soft_apply_max_step_seconds :: rat where "soft_apply_max_step_seconds = 4 / 10"
definition soft_apply_rate_offset :: rat where "soft_apply_rate_offset = 16 / 100"

definition clamp :: "rat \<Rightarrow> rat \<Rightarrow> rat \<Rightarrow> rat" where
  "clamp v low high = min (max v low) high"

record adjustment_tuning =
  tu_rate_offset_limit :: rat
  tu_min_playback_rate :: rat
  tu_max_playback_rate :: rat
  tu_min_step_seconds :: rat
  tu_max_step_seconds :: rat
  tu_step_scale :: rat

definition get_playback_adjustment_tuning :: "rat \<Rightarrow> adjustment_tuning" where
  "get_playback_adjustment_tuning base_rate =
     (let extra_rate = max 1 base_rate - 1;
          rate_offset_limit = min (26 / 100) (soft_apply_rate_offset + extra_rate * (1 / 10))
      in \<lparr> tu_rate_offset_limit = rate_offset_limit,
           tu_min_playback_rate = max (1 / 10) (base_rate - rate_offset_limit),
           tu_max_playback_rate = base_rate + rate_offset_limit,
           tu_min_step_seconds = max (16 / 100) (soft_apply_step_seconds - extra_rate * (3 / 100)),
           tu_max_step_seconds = max (28 / 100) (soft_apply_max_step_seconds - extra_rate * (8 / 100)),
           tu_step_scale = max (3 / 10) (45 / 100 - extra_rate * (8 / 100)) \<rparr>)"

definition get_rate_adjusted_playback_rate :: "rat \<Rightarrow> rat \<Rightarrow> rat \<Rightarrow> rat" where
  "get_rate_adjusted_playback_rate local_time target_time base_rate =
     (let tuning = get_playback_adjustment_tuning base_rate; drift = target_time - local_time;
          rate_offset = clamp (drift * (3 / 10)) (- tu_rate_offset_limit tuning) (tu_rate_offset_limit tuning)
      in clamp (base_rate + rate_offset) (tu_min_playback_rate tuning) (tu_max_playback_rate tuning))"

definition soft_apply_signature :: "rat \<Rightarrow> rat \<Rightarrow> rat \<Rightarrow> rat \<times> rat" where
  "soft_apply_signature local_time target_time base_rate =
     (let tuning = get_playback_adjustment_tuning base_rate;
          playback_rate = get_rate_adjusted_playback_rate local_time target_time base_rate;
          drift = target_time - local_time;
          step_limit = min (tu_max_step_seconds tuning) (max (tu_min_step_seconds tuning) (\<bar>drift\<bar> * tu_step_scale tuning))
      in (local_time + clamp drift (- step_limit) step_limit, playback_rate))"

subsection \<open>Moving the element\<close>

record playback_adjustment =
  ad_mode :: reconcile_mode
  ad_reason :: reconcile_reason
  ad_delta :: rat
  ad_current_time :: rat
  ad_playback_rate :: rat
  ad_target_time :: rat
  ad_restore_rate :: rat
  ad_did_write_time :: bool
  ad_did_write_rate :: bool
  ad_did_change :: bool

definition rates_differ :: "rat \<Rightarrow> rat \<Rightarrow> bool" where
  "rates_differ a b = (1 / 100 < \<bar>a - b\<bar>)"

definition write_rate_if :: "bool \<Rightarrow> rat \<Rightarrow> video \<Rightarrow> video" where
  "write_rate_if b rate v = (if b then set_video_playback_rate rate v else v)"

definition sync_playback_position ::
    "rat \<Rightarrow> play_state \<Rightarrow> sync_intent option \<Rightarrow> rat \<Rightarrow> bool \<Rightarrow> bool \<Rightarrow> video \<Rightarrow> video \<times> playback_adjustment" where
  "sync_playback_position target_time play_state intent playback_rate has_active_catch_up has_active_session v =
     (let previous = vd_current_time v;
          decision = decide_playback_reconcile_mode previous target_time play_state
            (should_treat_as_explicit_seek intent play_state) (Some playback_rate) has_active_catch_up
      in case rc_mode decision of
           Mode_Hard_Seek \<Rightarrow>
             let write_rate = rates_differ (vd_playback_rate v) playback_rate;
                 moved = 1 / 100 < \<bar>previous - target_time\<bar>
             in (write_rate_if write_rate playback_rate (v\<lparr> vd_current_time := target_time \<rparr>),
                 \<lparr> ad_mode = Mode_Hard_Seek, ad_reason = rc_reason decision, ad_delta = rc_delta decision,
                   ad_current_time = target_time, ad_playback_rate = playback_rate, ad_target_time = target_time,
                   ad_restore_rate = playback_rate, ad_did_write_time = moved, ad_did_write_rate = write_rate,
                   ad_did_change = (moved \<or> write_rate) \<rparr>)
         | Mode_Soft_Apply \<Rightarrow>
             let (time, rate) = soft_apply_signature previous target_time playback_rate;
                 write_time = (1 / 100 < \<bar>previous - time\<bar>);
                 write_rate = rates_differ (vd_playback_rate v) rate
             in (write_rate_if write_rate rate (if write_time then v\<lparr> vd_current_time := time \<rparr> else v),
                 \<lparr> ad_mode = Mode_Soft_Apply, ad_reason = rc_reason decision, ad_delta = rc_delta decision,
                   ad_current_time = time, ad_playback_rate = rate, ad_target_time = target_time,
                   ad_restore_rate = playback_rate, ad_did_write_time = write_time, ad_did_write_rate = write_rate,
                   ad_did_change = (write_time \<or> write_rate) \<rparr>)
         | Mode_Rate_Only \<Rightarrow>
             let rate = get_rate_adjusted_playback_rate previous target_time playback_rate;
                 write_rate = rates_differ (vd_playback_rate v) rate
             in (write_rate_if write_rate rate v,
                 \<lparr> ad_mode = Mode_Rate_Only, ad_reason = rc_reason decision, ad_delta = rc_delta decision,
                   ad_current_time = previous, ad_playback_rate = rate, ad_target_time = target_time,
                   ad_restore_rate = playback_rate, ad_did_write_time = False, ad_did_write_rate = write_rate,
                   ad_did_change = write_rate \<rparr>)
         | Mode_Ignore \<Rightarrow>
             let is_buffering_noop = (rc_reason decision = Buffering_Not_Authoritative \<and> has_active_session
                   \<and> intent \<noteq> Some Explicit_Ratechange);
                 write_rate = (\<not> is_buffering_noop \<and> rates_differ (vd_playback_rate v) playback_rate)
             in (write_rate_if write_rate playback_rate v,
                 \<lparr> ad_mode = Mode_Ignore, ad_reason = rc_reason decision, ad_delta = rc_delta decision,
                   ad_current_time = previous, ad_playback_rate = playback_rate, ad_target_time = target_time,
                   ad_restore_rate = playback_rate, ad_did_write_time = False, ad_did_write_rate = write_rate,
                   ad_did_change = write_rate \<rparr>))"

definition set_play_state :: "play_state \<Rightarrow> video \<Rightarrow> video" where
  "set_play_state play_state v =
     (case play_state of
        Playing \<Rightarrow> play_video v
      | Buffering \<Rightarrow> v
      | Paused \<Rightarrow> if \<not> vd_paused v then pause_video v else v)"

end
