(* ===== verification/Soft_Apply.thy ===== *)
theory Soft_Apply
  imports Player_Binding
begin

text \<open>
  \<open>extension/src/content/soft-apply-controller.ts\<close>: the correction session. While the player
  closes a drift its speed is not the room's; the session remembers the room's speed, when to
  give it back, and whether a cooldown follows. \<open>armProgrammaticApplyWindow\<close> of
  \<open>sync-controller.ts\<close>, which the session calls, is here too. \<open>norm_url\<close> is the injected
  \<open>normalizeUrl\<close>; \<open>now\<close> is the clock reading of the call.
\<close>

datatype cancel_reason =
    User_Ratechange | Converged | Apply_Mode reconcile_mode | Drift_Closed | Timed_Out
  | Missing_Playback | Url_Changed | Play_State_Changed | Explicit_Seek_Arrived | Rate_Changed | Target_Shifted
  | Buffer_Interrupt | Sync_Reset | Room_Is_Empty | No_Page_Video | Non_Shared_Page | User_Action

definition soft_apply_recovery_threshold_seconds :: rat where "soft_apply_recovery_threshold_seconds = 2 / 10"
definition soft_apply_min_timeout_ms :: rat where "soft_apply_min_timeout_ms = 2000"
definition soft_apply_max_timeout_ms :: rat where "soft_apply_max_timeout_ms = 4500"
definition soft_apply_timeout_per_second_ms :: rat where "soft_apply_timeout_per_second_ms = 900"
definition soft_apply_rtt_timeout_factor :: rat where "soft_apply_rtt_timeout_factor = 25 / 10"
definition soft_apply_target_shift_cancel_threshold_seconds :: rat where
  "soft_apply_target_shift_cancel_threshold_seconds = 6 / 10"
definition soft_apply_cooldown_ms :: rat where "soft_apply_cooldown_ms = 2500"
definition rate_only_min_restore_ms :: rat where "rate_only_min_restore_ms = 600"
definition rate_only_max_restore_ms :: rat where "rate_only_max_restore_ms = 8000"

lemmas soft_apply_limits = soft_apply_recovery_threshold_seconds_def soft_apply_min_timeout_ms_def
  soft_apply_max_timeout_ms_def soft_apply_timeout_per_second_ms_def soft_apply_rtt_timeout_factor_def
  soft_apply_target_shift_cancel_threshold_seconds_def soft_apply_cooldown_ms_def
  rate_only_min_restore_ms_def rate_only_max_restore_ms_def

definition norm_or :: "(string \<Rightarrow> string option) \<Rightarrow> string \<Rightarrow> string" where
  "norm_or norm_url url = (case norm_url url of None \<Rightarrow> url | Some u \<Rightarrow> u)"

definition arm_programmatic_apply_window ::
    "(string \<Rightarrow> string option) \<Rightarrow> playback_signature \<Rightarrow> apply_scope \<Rightarrow> rat \<Rightarrow> content \<Rightarrow> content" where
  "arm_programmatic_apply_window norm_url sig scope now c = c\<lparr>
     programmatic_apply_signature := Some (sig\<lparr> sg_url := norm_or norm_url (sg_url sig) \<rparr>),
     programmatic_apply_at := now, programmatic_apply_scope := scope,
     programmatic_apply_until := now + programmatic_apply_window_ms \<rparr>"

definition clear_active_soft_apply_state :: "content \<Rightarrow> content" where
  "clear_active_soft_apply_state c = c\<lparr> active_soft_apply := None, soft_apply_due := None \<rparr>"

definition arm_soft_apply_cooldown :: "string \<Rightarrow> rat \<Rightarrow> content \<Rightarrow> content" where
  "arm_soft_apply_cooldown url now c = c\<lparr> soft_apply_cooldown_url := Some url,
     soft_apply_cooldown_until := now + soft_apply_cooldown_ms \<rparr>"

definition clear_soft_apply_cooldown :: "content \<Rightarrow> content" where
  "clear_soft_apply_cooldown c = c\<lparr> soft_apply_cooldown_until := 0, soft_apply_cooldown_url := None \<rparr>"

definition compute_soft_apply_timeout_ms :: "rat \<Rightarrow> content \<Rightarrow> rat" where
  "compute_soft_apply_timeout_ms remaining_drift_seconds c =
     (let network_allowance_ms =
            (case content_rtt_ms c of None \<Rightarrow> 0 | Some rtt \<Rightarrow> js_round (rtt * soft_apply_rtt_timeout_factor))
      in min soft_apply_max_timeout_ms
           (max soft_apply_min_timeout_ms
             (js_round (soft_apply_min_timeout_ms + network_allowance_ms
               + max 0 (remaining_drift_seconds - soft_apply_recovery_threshold_seconds)
                   * soft_apply_timeout_per_second_ms))))"

definition compute_relative_drift_close_ms :: "rat \<Rightarrow> rat \<Rightarrow> rat" where
  "compute_relative_drift_close_ms drift_seconds rate_offset_seconds =
     (let offset = max (1 / 100) \<bar>rate_offset_seconds\<bar>; close_ms = (\<bar>drift_seconds\<bar> / offset) * 1000
      in min rate_only_max_restore_ms (max rate_only_min_restore_ms (js_round close_ms)))"

definition cancel_restore :: "(string \<Rightarrow> string option) \<Rightarrow> cancel_reason \<Rightarrow> soft_apply_session \<Rightarrow> rat \<Rightarrow> content \<Rightarrow> content" where
  "cancel_restore norm_url reason session now c =
     (case the_video c of
        None \<Rightarrow> c
      | Some v \<Rightarrow>
          if reason \<noteq> User_Ratechange
            \<and> (rates_differ (vd_playback_rate v) (sa_restore_rate session)
               \<or> rates_differ (vd_default_playback_rate v) (sa_restore_rate session)) then
            let v' = set_video_playback_rate (sa_restore_rate session) v
            in arm_programmatic_apply_window norm_url
                 \<lparr> sg_url = sa_url session, sg_play_state = reported_play_state v' now c,
                   sg_current_time = vd_current_time v', sg_playback_rate = sa_restore_rate session \<rparr>
                 Scope_Ratechange now (c\<lparr> the_video := Some v' \<rparr>)
          else c)"

definition cancel_cooldown :: "cancel_reason \<Rightarrow> soft_apply_session \<Rightarrow> rat \<Rightarrow> content \<Rightarrow> content" where
  "cancel_cooldown reason session now c =
     (if sa_arm_cooldown session
        \<and> (reason = Converged \<or> reason = Apply_Mode Mode_Hard_Seek \<or> reason = Drift_Closed)
      then arm_soft_apply_cooldown (sa_url session) now c
      else if soft_apply_cooldown_url c = Some (sa_url session) then clear_soft_apply_cooldown c
      else c)"

definition cancel_active_soft_apply ::
    "(string \<Rightarrow> string option) \<Rightarrow> cancel_reason \<Rightarrow> rat \<Rightarrow> content \<Rightarrow> content" where
  "cancel_active_soft_apply norm_url reason now c =
     (case active_soft_apply c of
        None \<Rightarrow> c
      | Some session \<Rightarrow>
          cancel_cooldown reason session now
            (cancel_restore norm_url reason session now (clear_active_soft_apply_state c)))"

definition schedule_active_soft_apply_timeout :: "rat \<Rightarrow> content \<Rightarrow> content" where
  "schedule_active_soft_apply_timeout now c =
     (case active_soft_apply c of
        None \<Rightarrow> c
      | Some session \<Rightarrow> c\<lparr> soft_apply_due := Some (now + max 0 (sa_deadline_at session - now)) \<rparr>)"

definition session_end_reason :: "soft_apply_session \<Rightarrow> cancel_reason" where
  "session_end_reason session = (if sa_relative_drift session then Drift_Closed else Timed_Out)"

definition soft_apply_timer_fires :: "(string \<Rightarrow> string option) \<Rightarrow> rat \<Rightarrow> content \<Rightarrow> content" where
  "soft_apply_timer_fires norm_url now c =
     (case soft_apply_due c of
        None \<Rightarrow> c
      | Some due \<Rightarrow>
          if now < due then c
          else
            let c' = c\<lparr> soft_apply_due := None \<rparr>
            in case active_soft_apply c' of
                 None \<Rightarrow> c'
               | Some session \<Rightarrow> cancel_active_soft_apply norm_url (session_end_reason session) now c')"

definition upsert_active_soft_apply ::
    "(string \<Rightarrow> string option) \<Rightarrow> playback_state \<Rightarrow> rat \<Rightarrow> bool \<Rightarrow> (rat \<times> rat) option \<Rightarrow> rat \<Rightarrow> content \<Rightarrow> content" where
  "upsert_active_soft_apply norm_url playback remaining_drift_seconds arm_cooldown relative_drift_close now c =
     (case norm_url (pb_url playback) of
        None \<Rightarrow> clear_active_soft_apply_state c
      | Some url \<Rightarrow>
          if url = [] then clear_active_soft_apply_state c
          else
            let timeout_ms = (case relative_drift_close of
                  Some (drift, offset) \<Rightarrow> compute_relative_drift_close_ms drift offset
                | None \<Rightarrow> compute_soft_apply_timeout_ms remaining_drift_seconds c);
                same_session = (case active_soft_apply c of
                  Some s \<Rightarrow> if sa_url s = url then Some s else None | None \<Rightarrow> None)
            in schedule_active_soft_apply_timeout now (c\<lparr> active_soft_apply := Some
                 \<lparr> sa_url = url, sa_target_time = pb_current_time playback,
                   sa_restore_rate = (case same_session of
                     Some s \<Rightarrow> sa_restore_rate s | None \<Rightarrow> pb_playback_rate playback),
                   sa_deadline_at = now + timeout_ms,
                   sa_arm_cooldown = ((case same_session of Some s \<Rightarrow> sa_arm_cooldown s | None \<Rightarrow> False) \<or> arm_cooldown),
                   sa_relative_drift = (relative_drift_close \<noteq> None),
                   sa_started_at = now \<rparr> \<rparr>))"

definition should_cancel_active_soft_apply_for_playback ::
    "(string \<Rightarrow> string option) \<Rightarrow> playback_state option \<Rightarrow> rat \<Rightarrow> content \<Rightarrow> cancel_reason option" where
  "should_cancel_active_soft_apply_for_playback norm_url playback now c =
     (case active_soft_apply c of
        None \<Rightarrow> None
      | Some s \<Rightarrow>
          (case playback of
             None \<Rightarrow> Some Missing_Playback
           | Some p \<Rightarrow>
               if \<not> truthy (norm_url (pb_url p)) \<or> norm_url (pb_url p) \<noteq> Some (sa_url s) then Some Url_Changed
               else if pb_play_state p = Paused then Some Play_State_Changed
               else if should_treat_as_explicit_seek (pb_sync_intent p) (pb_play_state p) then Some Explicit_Seek_Arrived
               else if rates_differ (pb_playback_rate p) (sa_restore_rate s) then Some Rate_Changed
               else if pb_play_state p = Buffering then None
               else if soft_apply_target_shift_cancel_threshold_seconds
                      < \<bar>pb_current_time p - (sa_target_time s + max 0 ((now - sa_started_at s) / 1000) * sa_restore_rate s)\<bar>
                 then Some Target_Shifted
               else None))"

definition maintain_active_soft_apply :: "(string \<Rightarrow> string option) \<Rightarrow> rat \<Rightarrow> content \<Rightarrow> content" where
  "maintain_active_soft_apply norm_url now c =
     (case (active_soft_apply c, the_video c) of
        (Some s, Some v) \<Rightarrow>
          if sa_deadline_at s \<le> now then cancel_active_soft_apply norm_url (session_end_reason s) now c
          else if sa_relative_drift s then c
          else if \<bar>vd_current_time v - sa_target_time s\<bar> \<le> soft_apply_recovery_threshold_seconds
            then cancel_active_soft_apply norm_url Converged now c
          else c
      | _ \<Rightarrow> c)"

definition matches_active_session :: "string option \<Rightarrow> content \<Rightarrow> bool" where
  "matches_active_session url c =
     (case (active_soft_apply c, url) of
        (Some s, Some u) \<Rightarrow>
          u = sa_url s
          \<or> (Some u = resolved_shared_video_url c \<and> Some (sa_url s) = active_shared_url c)
      | _ \<Rightarrow> False)"

definition should_suppress_active_soft_apply_broadcast :: "string option \<Rightarrow> rat \<Rightarrow> content \<Rightarrow> bool" where
  "should_suppress_active_soft_apply_broadcast current_url now c =
     (case active_soft_apply c of
        None \<Rightarrow> False
      | Some s \<Rightarrow>
          if sa_deadline_at s \<le> now \<or> \<not> matches_active_session current_url c then False
          else \<not> (case last_explicit_user_action c of None \<Rightarrow> False
                   | Some a \<Rightarrow> now - ea_at a < user_gesture_grace_ms))"

definition is_active_rate_only_catch_up :: "string option \<Rightarrow> content \<Rightarrow> bool" where
  "is_active_rate_only_catch_up url c =
     (case active_soft_apply c of
        None \<Rightarrow> False
      | Some s \<Rightarrow> sa_relative_drift s \<and> \<not> sa_arm_cooldown s \<and> matches_active_session url c)"

definition get_active_correction_base_rate :: "string option \<Rightarrow> content \<Rightarrow> rat option" where
  "get_active_correction_base_rate url c =
     (if matches_active_session url c then map_option sa_restore_rate (active_soft_apply c) else None)"

definition has_active_correction_session :: "string option \<Rightarrow> content \<Rightarrow> bool" where
  "has_active_correction_session url c = (get_active_correction_base_rate url c \<noteq> None)"

definition should_suppress_by_cooldown ::
    "(string \<Rightarrow> string option) \<Rightarrow> video \<Rightarrow> playback_state \<Rightarrow> rat \<Rightarrow> content \<Rightarrow> bool" where
  "should_suppress_by_cooldown norm_url v playback now c =
     (if soft_apply_cooldown_until c \<le> now \<or> \<not> truthy (soft_apply_cooldown_url c) then False
      else if \<not> truthy (norm_url (pb_url playback)) \<or> norm_url (pb_url playback) \<noteq> soft_apply_cooldown_url c
        \<or> vd_paused v \<or> pb_play_state playback \<noteq> Playing
        \<or> pb_sync_intent playback = Some Explicit_Seek \<or> pb_sync_intent playback = Some Explicit_Ratechange then False
      else rc_mode (decide_playback_reconcile_mode (vd_current_time v) (pb_current_time playback) (pb_play_state playback)
             (should_treat_as_explicit_seek (pb_sync_intent playback) (pb_play_state playback))
             (Some (pb_playback_rate playback)) False) \<in> {Mode_Rate_Only, Mode_Soft_Apply})"

end
