(* ===== verification/Sync_Apply.thy ===== *)
theory Sync_Apply
  imports Soft_Apply
begin

text \<open>
  From the room to the player: \<open>pending-local-override.ts\<close>, \<open>room-state-apply-controller.ts\<close> and
  the parts of \<open>sync-controller.ts\<close> and \<open>room-state-controller.ts\<close> it calls or is called by. One
  call runs to its end without a suspension, at one reading \<open>now\<close> of the clock. A room state ends
  in an \<open>apply_outcome\<close>, which names the branch the code takes (the \<open>result\<close> it logs).

  Left out: notices to the user and the log.
\<close>

definition norm_opt :: "(string \<Rightarrow> string option) \<Rightarrow> string option \<Rightarrow> string option" where
  "norm_opt norm_url url = (case url of None \<Rightarrow> None | Some u \<Rightarrow> norm_url u)"

subsection \<open>The pending local override\<close>

definition pending_local_explicit_seek_guard_ms :: rat where "pending_local_explicit_seek_guard_ms = 5000"
definition pending_local_explicit_seek_settle_threshold_seconds :: rat where
  "pending_local_explicit_seek_settle_threshold_seconds = 35 / 100"
definition pending_local_explicit_ratechange_guard_ms :: rat where "pending_local_explicit_ratechange_guard_ms = 5000"
definition pending_local_explicit_ratechange_settle_threshold :: rat where
  "pending_local_explicit_ratechange_settle_threshold = 1 / 100"

lemmas override_limits = pending_local_explicit_seek_guard_ms_def
  pending_local_explicit_seek_settle_threshold_seconds_def pending_local_explicit_ratechange_guard_ms_def
  pending_local_explicit_ratechange_settle_threshold_def

definition clear_pending_local_override :: "content \<Rightarrow> content" where
  "clear_pending_local_override c = c\<lparr> pending_local_playback_override := None \<rparr>"

definition pending_local_seek_decision :: "playback_state \<Rightarrow> pending_local_override \<Rightarrow> content \<Rightarrow> bool \<times> content" where
  "pending_local_seek_decision p pending c =
     (case po_target_time pending of
        None \<Rightarrow> (False, c)
      | Some target \<Rightarrow>
          if \<bar>pb_current_time p - target\<bar> \<le> pending_local_explicit_seek_settle_threshold_seconds
          then (False, clear_pending_local_override c)
          else (True, c))"

definition pending_local_rate_decision :: "playback_state \<Rightarrow> pending_local_override \<Rightarrow> content \<Rightarrow> bool \<times> content" where
  "pending_local_rate_decision p pending c =
     (case po_playback_rate pending of
        None \<Rightarrow> (False, c)
      | Some rate \<Rightarrow>
          if pb_play_state p \<noteq> Playing then (False, c)
          else if \<bar>pb_playback_rate p - rate\<bar> \<le> pending_local_explicit_ratechange_settle_threshold
          then (False, clear_pending_local_override c)
          else (True, c))"

definition get_pending_local_override_decision ::
    "(string \<Rightarrow> string option) \<Rightarrow> playback_state \<Rightarrow> rat \<Rightarrow> content \<Rightarrow> bool \<times> content" where
  "get_pending_local_override_decision norm_url p now c =
     (case pending_local_playback_override c of
        None \<Rightarrow> (False, c)
      | Some pending \<Rightarrow>
          if po_expires_at pending \<le> now then (False, clear_pending_local_override c)
          else if \<not> truthy (norm_url (pb_url p)) \<or> norm_url (pb_url p) \<noteq> Some (po_url pending) then (False, c)
          else if own_playback (local_member_id c) p \<and> po_seq pending \<le> pb_seq p
            then (False, clear_pending_local_override c)
          else (case po_kind pending of
                  Override_Seek \<Rightarrow> pending_local_seek_decision p pending c
                | Override_Ratechange \<Rightarrow> pending_local_rate_decision p pending c))"

definition remember_pending_local_override ::
    "(string \<Rightarrow> string option) \<Rightarrow> playback_state \<Rightarrow> rat \<Rightarrow> content \<Rightarrow> content" where
  "remember_pending_local_override norm_url p now c =
     (if pb_sync_intent p = Some Explicit_Seek then
        c\<lparr> pending_local_playback_override := Some
             \<lparr> po_kind = Override_Seek, po_url = norm_or norm_url (pb_url p), po_seq = pb_seq p,
               po_expires_at = now + pending_local_explicit_seek_guard_ms,
               po_target_time = Some (pb_current_time p), po_playback_rate = None \<rparr> \<rparr>
      else if recently (Some Act_Ratechange) (last_explicit_user_action c) now then
        c\<lparr> pending_local_playback_override := Some
             \<lparr> po_kind = Override_Ratechange, po_url = norm_or norm_url (pb_url p), po_seq = pb_seq p,
               po_expires_at = now + pending_local_explicit_ratechange_guard_ms,
               po_target_time = None, po_playback_rate = Some (pb_playback_rate p) \<rparr> \<rparr>
      else c)"

subsection \<open>Windows\<close>

definition activate_pause_hold :: "rat \<Rightarrow> rat \<Rightarrow> content \<Rightarrow> content" where
  "activate_pause_hold duration_ms now c = c\<lparr> pause_hold_until := now + duration_ms \<rparr>"

definition clear_remote_follow_playing_window :: "content \<Rightarrow> content" where
  "clear_remote_follow_playing_window c = c\<lparr> remote_follow_playing_until := 0, remote_follow_playing_url := None \<rparr>"

definition remember_remote_follow_playing_window ::
    "(string \<Rightarrow> string option) \<Rightarrow> playback_state \<Rightarrow> rat \<Rightarrow> content \<Rightarrow> content" where
  "remember_remote_follow_playing_window norm_url p now c =
     (if pb_play_state p \<noteq> Playing then clear_remote_follow_playing_window c
      else c\<lparr> remote_follow_playing_until := now + remote_follow_playing_window_ms,
              remote_follow_playing_url := norm_url (pb_url p) \<rparr>)"

definition remember_remote_for_suppression ::
    "(string \<Rightarrow> string option) \<Rightarrow> playback_state \<Rightarrow> rat \<Rightarrow> content \<Rightarrow> content" where
  "remember_remote_for_suppression norm_url p now c =
     (let (suppressed, intent) = remember_remote_playback p (norm_url (pb_url p)) now
      in c\<lparr> suppressed_remote := suppressed, recent_remote_playing := intent \<rparr>)"

definition accept_initial_room_state_hydration :: "content \<Rightarrow> content" where
  "accept_initial_room_state_hydration c =
     c\<lparr> pending_room_state_hydration := False, has_received_initial_room_state := True \<rparr>"

definition accept_initial_if_pending :: "content \<Rightarrow> content" where
  "accept_initial_if_pending c =
     (if pending_room_state_hydration c then accept_initial_room_state_hydration c else c)"

definition mark_initial_room_state_received :: "content \<Rightarrow> content" where
  "mark_initial_room_state_received c = c\<lparr> has_received_initial_room_state := True \<rparr>"

definition intend :: "playback_state \<Rightarrow> content \<Rightarrow> content" where
  "intend p c = c\<lparr> intended_play_state := pb_play_state p, intended_playback_rate := pb_playback_rate p \<rparr>"

definition reset_playback_sync_state :: "(string \<Rightarrow> string option) \<Rightarrow> rat \<Rightarrow> content \<Rightarrow> content" where
  "reset_playback_sync_state norm_url now c =
     (let c1 = cancel_active_soft_apply norm_url Sync_Reset now (invalidate_playback_context c);
          c2 = clear_soft_apply_cooldown (clear_pending_local_override (clear_remote_follow_playing_window
                 (c1\<lparr> applied_versions := (\<lambda>_. None) \<rparr>)));
          c3 = c2\<lparr> suppressed_remote := None, recent_remote_playing := None, pending_playback_application := None,
                  programmatic_apply_until := 0, programmatic_apply_at := 0, programmatic_apply_scope := Scope_All,
                  programmatic_apply_signature := None, last_local_playback_version := None,
                  intended_playback_rate := 1, room_confirmed_broadcast := None,
                  last_non_shared_guard_url := None, last_explicit_playback_action := None \<rparr>;
          current_url = norm_opt norm_url (map_option sv_url (page_video c3));
          keep = (current_url \<noteq> None \<and> current_url = explicit_non_shared_playback_url c3);
          c4 = (if keep then c3
                else c3\<lparr> explicit_non_shared_playback_url := None, non_sharer_autoplay_hold_url := None \<rparr>)
      in c4\<lparr> suppressed_local_end_pause_url := None, suppressed_local_end_pause_until := 0,
             post_navigation_anchor_shared_url := None, post_navigation_anchor_set_at := 0,
             sharer_ended_suppression_url := None, sharer_ended_suppression_until := 0,
             sharer_ended_suppression_armed_at := 0, shared_video_natural_end_url := None,
             shared_video_natural_end_at := 0 \<rparr>)"

subsection \<open>Handing a snapshot to the player\<close>

text \<open>What \<open>sync-controller.ts\<close> does when the element was adjusted (\<open>onPlaybackAdjusted\<close>).\<close>

definition on_playback_adjusted ::
    "(string \<Rightarrow> string option) \<Rightarrow> playback_adjustment \<Rightarrow> playback_state \<Rightarrow> rat \<Rightarrow> content \<Rightarrow> content" where
  "on_playback_adjusted norm_url ad p now c =
     (let self_restoring = (ad_mode ad = Mode_Soft_Apply
            \<or> (ad_mode ad = Mode_Rate_Only \<and> rates_differ (ad_playback_rate ad) (ad_restore_rate ad)));
          buffering_apply = (ad_reason ad = Buffering_Not_Authoritative);
          c1 = (if \<not> self_restoring \<and> \<not> (buffering_apply \<and> \<not> ad_did_change ad)
                then clear_soft_apply_cooldown c else c)
      in if buffering_apply then c1
         else if self_restoring then
           let drift = \<bar>ad_target_time ad - ad_current_time ad\<bar>; soft = (ad_mode ad = Mode_Soft_Apply)
           in upsert_active_soft_apply norm_url p drift soft
                (if soft then None else Some (drift, ad_playback_rate ad - ad_restore_rate ad)) now c1
         else cancel_active_soft_apply norm_url (Apply_Mode (ad_mode ad)) now c1)"

definition apply_pending_playback_application :: "(string \<Rightarrow> string option) \<Rightarrow> rat \<Rightarrow> content \<Rightarrow> content" where
  "apply_pending_playback_application norm_url now c =
     (case (pending_playback_application c, the_video c) of
        (Some p, Some v) \<Rightarrow>
          if \<not> can_apply_playback_immediately v then c
          else
            let url = norm_url (pb_url p);
                (v1, ad) = sync_playback_position (pb_current_time p) (pb_play_state p) (pb_sync_intent p)
                  (pb_playback_rate p) (is_active_rate_only_catch_up url c) (has_active_correction_session url c) v;
                c1 = on_playback_adjusted norm_url ad p now
                       (c\<lparr> pending_playback_application := None, the_video := Some v1 \<rparr>);
                needs_change = ((pb_play_state p = Playing \<and> vd_paused v) \<or> (pb_play_state p = Paused \<and> \<not> vd_paused v));
                c2 = (if ad_did_change ad \<or> needs_change
                      then arm_programmatic_apply_window norm_url (create_programmatic_playback_signature
                             (p\<lparr> pb_current_time := ad_current_time ad, pb_playback_rate := ad_playback_rate ad \<rparr>))
                             Scope_All now c1
                      else c1)
            in c2\<lparr> the_video := map_option (set_play_state (pb_play_state p)) (the_video c2) \<rparr>
      | _ \<Rightarrow> c)"

definition should_ignore_remote_playback_apply :: "video \<Rightarrow> playback_state \<Rightarrow> bool \<Rightarrow> bool" where
  "should_ignore_remote_playback_apply v p is_self =
     (if is_self \<or> pb_play_state p \<noteq> Playing \<or> vd_paused v then False
      else if rates_differ (vd_playback_rate v) (pb_playback_rate p) then False
      else rc_mode (decide_playback_reconcile_mode (vd_current_time v) (pb_current_time p) (pb_play_state p)
             (should_treat_as_explicit_seek (pb_sync_intent p) (pb_play_state p)) None False) = Mode_Ignore)"

end
