(* ===== verification/Corrections.thy ===== *)
theory Corrections
  imports Sync_Apply
begin

text \<open>
  What a correction does to the player: it never overshoots, its strength follows the drift, and
  a catch-up ends with the drift closed and the room's speed back.
\<close>

subsection \<open>The strength of a correction\<close>

lemma threshold_order:
  "th_ignore (get_adaptive_playing_thresholds rate active) < th_rate_only (get_adaptive_playing_thresholds rate active)
   \<and> th_rate_only (get_adaptive_playing_thresholds rate active) < th_soft_apply (get_adaptive_playing_thresholds rate active)"
proof -
  have "1 \<le> get_playback_rate_multiplier rate" by (simp add: get_playback_rate_multiplier_def)
  then show ?thesis
    by (auto simp: get_adaptive_playing_thresholds_def Let_def reconcile_thresholds field_simps)
qed

lemma clamp_between: "low \<le> high \<Longrightarrow> low \<le> clamp v low high \<and> clamp v low high \<le> high"
  by (auto simp: clamp_def)

lemma clamp_id: "low \<le> v \<Longrightarrow> v \<le> high \<Longrightarrow> clamp v low high = v"
  by (simp add: clamp_def)

lemma rate_offset_limit_bounds:
  "16 / 100 \<le> tu_rate_offset_limit (get_playback_adjustment_tuning rate)
   \<and> tu_rate_offset_limit (get_playback_adjustment_tuning rate) \<le> 26 / 100"
  unfolding get_playback_adjustment_tuning_def Let_def soft_apply_rate_offset_def adjustment_tuning.simps
  by (intro conjI min.boundedI min.cobounded1) auto

lemma abs_clamp: "0 \<le> s \<Longrightarrow> \<bar>clamp d (- s) s\<bar> = min \<bar>d\<bar> s"
  by (auto simp: clamp_def min_def max_def abs_if)

lemma clamp_towards_zero:
  assumes "0 \<le> s"
  shows "(0 \<le> clamp d (- s) s \<and> clamp d (- s) s \<le> d) \<or> (d \<le> clamp d (- s) s \<and> clamp d (- s) s \<le> 0)"
  using assms by (auto simp: clamp_def min_def max_def)

text \<open>The speed a correction asks for is bent towards the target, by at most 0.26.\<close>

lemma adjusted_rate:
  assumes "1 / 10 \<le> rate"
  shows "\<bar>get_rate_adjusted_playback_rate t target rate - rate\<bar> \<le> 26 / 100
    \<and> 0 \<le> (get_rate_adjusted_playback_rate t target rate - rate) * (target - t)"
proof -
  let ?lim = "tu_rate_offset_limit (get_playback_adjustment_tuning rate)"
  let ?o = "clamp ((target - t) * (3 / 10)) (- ?lim) ?lim"
  let ?r = "get_rate_adjusted_playback_rate t target rate"
  have lim: "0 \<le> ?lim" "?lim \<le> 26 / 100" using rate_offset_limit_bounds [of rate] by auto
  have o: "\<bar>?o\<bar> \<le> ?lim" using clamp_between [of "- ?lim" ?lim "(target - t) * (3 / 10)"] lim by auto
  have "?r = clamp (rate + ?o) (max (1 / 10) (rate - ?lim)) (rate + ?lim)"
    by (simp add: get_rate_adjusted_playback_rate_def get_playback_adjustment_tuning_def Let_def)
  then have r: "?r = max (rate + ?o) (max (1 / 10) (rate - ?lim))"
    using o lim assms by (auto simp: clamp_def)
  have sign: "(0 \<le> target - t \<and> 0 \<le> ?o) \<or> (target - t \<le> 0 \<and> ?o \<le> 0)"
    using lim by (auto simp: clamp_def max_def min_def)
  have "\<bar>?r - rate\<bar> \<le> ?lim" using r o assms by auto
  moreover have "(0 \<le> target - t \<and> 0 \<le> ?r - rate) \<or> (target - t \<le> 0 \<and> ?r - rate \<le> 0)"
    using sign r assms lim by auto
  ultimately show ?thesis using lim by (auto intro: mult_nonneg_nonneg mult_nonpos_nonpos)
qed

lemma soft_step:
  "case soft_apply_signature t target rate of (t', rate') \<Rightarrow>
     ((t \<le> t' \<and> t' \<le> target) \<or> (target \<le> t' \<and> t' \<le> t)) \<and> rate' = get_rate_adjusted_playback_rate t target rate"
proof -
  let ?tu = "get_playback_adjustment_tuning rate"
  obtain step where step: "step = min (tu_max_step_seconds ?tu) (max (tu_min_step_seconds ?tu) (\<bar>target - t\<bar> * tu_step_scale ?tu))"
    by blast
  have "0 \<le> tu_max_step_seconds ?tu" "0 \<le> tu_min_step_seconds ?tu"
    unfolding get_playback_adjustment_tuning_def Let_def adjustment_tuning.simps by linarith+
  then have "0 \<le> step" unfolding step by simp
  then show ?thesis
    using clamp_towards_zero [of step "target - t"]
    by (auto simp: soft_apply_signature_def Let_def step [symmetric])
qed

text \<open>
  C32. A correction never overshoots: wherever the element is and whatever the snapshot says, the
  position written lies between the element's and the room's, and a new speed is at most 0.26 away
  from the room's, on the side that closes the drift.
\<close>

theorem corrections_never_overshoot:
  assumes "1 / 10 \<le> rate"
  shows "case sync_playback_position target play_state intent rate catch_up session v of (v', ad) \<Rightarrow>
    ((vd_current_time v \<le> vd_current_time v' \<and> vd_current_time v' \<le> target)
      \<or> (target \<le> vd_current_time v' \<and> vd_current_time v' \<le> vd_current_time v) \<or> vd_current_time v' = vd_current_time v)
    \<and> (vd_playback_rate v' = vd_playback_rate v
       \<or> (\<bar>vd_playback_rate v' - rate\<bar> \<le> 26 / 100 \<and> 0 \<le> (vd_playback_rate v' - rate) * (target - vd_current_time v)))"
proof -
  let ?d = "decide_playback_reconcile_mode (vd_current_time v) target play_state
    (should_treat_as_explicit_seek intent play_state) (Some rate) catch_up"
  note rate = adjusted_rate [OF assms, of "vd_current_time v" target]
  show ?thesis
  proof (cases "rc_mode ?d")
    case Mode_Soft_Apply
    obtain time r where sig: "soft_apply_signature (vd_current_time v) target rate = (time, r)" by fastforce
    then show ?thesis
      using Mode_Soft_Apply soft_step [of "vd_current_time v" target rate] rate
      by (auto simp: sync_playback_position_def Let_def write_rate_if_def set_video_playback_rate_def)
  next
    case Mode_Rate_Only
    then show ?thesis
      using rate by (auto simp: sync_playback_position_def Let_def write_rate_if_def set_video_playback_rate_def)
  qed (auto simp: sync_playback_position_def Let_def write_rate_if_def set_video_playback_rate_def)
qed

definition playing_video :: video where
  "playing_video = \<lparr> vd_id = 1, vd_paused = False, vd_current_time = 100, vd_playback_rate = 1,
     vd_default_playback_rate = 1, vd_ready_state = 4, vd_has_duration = True, vd_may_play = True \<rparr>"

theorem corrections_never_overshoot_witness:
  "case sync_playback_position 101 Playing None 1 False False playing_video of (v', ad) \<Rightarrow>
    (100 \<le> vd_current_time v' \<and> vd_current_time v' \<le> 101) \<and> vd_playback_rate v' = 1 + 16 / 100"
proof -
  have rate: "(1 / 10 :: rat) \<le> 1" by simp
  note claim = corrections_never_overshoot [OF rate, where v = playing_video and target = 101 and play_state = Playing
      and intent = None and catch_up = False and session = False]
  show ?thesis
    using claim
    by (simp add: sync_playback_position_def Let_def decide_playback_reconcile_mode_def should_treat_as_explicit_seek_def
        get_adaptive_playing_thresholds_def get_playback_rate_multiplier_def reconcile_thresholds playing_video_def
        soft_apply_signature_def get_playback_adjustment_tuning_def soft_apply_step_seconds_def
        soft_apply_max_step_seconds_def soft_apply_rate_offset_def get_rate_adjusted_playback_rate_def clamp_def
        rates_differ_def write_rate_if_def set_video_playback_rate_def)
qed

subsection \<open>A catch-up\<close>

text \<open>
  A catch-up within the speed-only band: its speed offset, and how long it lasts. The bounds of
  the restore window are not reached for the speeds the player offers.
\<close>

definition catch_up_drift :: "rat \<Rightarrow> rat \<Rightarrow> bool" where
  "catch_up_drift rate d =
     (th_ignore (get_adaptive_playing_thresholds (Some rate) False) < \<bar>d\<bar>
      \<and> \<bar>d\<bar> \<le> th_rate_only (get_adaptive_playing_thresholds (Some rate) False))"

lemma catch_up_offset:
  assumes "1 / 2 \<le> rate" "rate \<le> 2" and "catch_up_drift rate (target - t)"
  shows "\<exists>offset. get_rate_adjusted_playback_rate t target rate = rate + offset
    \<and> 1 / 10 \<le> \<bar>offset\<bar> \<and> \<bar>offset\<bar> \<le> 26 / 100 \<and> 0 \<le> offset * (target - t)
    \<and> (10 / 3) * \<bar>offset\<bar> \<le> \<bar>target - t\<bar> \<and> \<bar>target - t\<bar> \<le> 7 * \<bar>offset\<bar>"
proof -
  let ?lim = "tu_rate_offset_limit (get_playback_adjustment_tuning rate)"
  obtain e where e_def: "e = max 1 rate - 1" by blast
  then have e: "e = max 1 rate - 1" "0 \<le> e" "e \<le> 1" using assms(2) by linarith+
  have lim: "?lim = 16 / 100 + e * (1 / 10)"
    using e by (simp add: get_playback_adjustment_tuning_def Let_def soft_apply_rate_offset_def)
  have d: "45 / 100 < \<bar>target - t\<bar>" "\<bar>target - t\<bar> \<le> 9 / 10 + e * (63 / 100)"
    using assms(3) e unfolding catch_up_drift_def
    by (auto simp: get_adaptive_playing_thresholds_def get_playback_rate_multiplier_def Let_def reconcile_thresholds field_simps)
  obtain o' where o': "o' = clamp ((target - t) * (3 / 10)) (- ?lim) ?lim" by blast
  have "get_rate_adjusted_playback_rate t target rate = clamp (rate + o') (max (1 / 10) (rate - ?lim)) (rate + ?lim)"
    by (simp add: o' get_rate_adjusted_playback_rate_def get_playback_adjustment_tuning_def Let_def)
  also have "\<dots> = rate + o'"
  proof (rule clamp_id)
    have "0 \<le> ?lim" "?lim \<le> 26 / 100" using lim e by auto
    then have "- ?lim \<le> o'" "o' \<le> ?lim" "1 / 10 \<le> rate - ?lim"
      using clamp_between [of "- ?lim" ?lim "(target - t) * (3 / 10)"] assms(1) by (auto simp: o')
    then show "max (1 / 10) (rate - ?lim) \<le> rate + o'" "rate + o' \<le> rate + ?lim" by auto
  qed
  finally have "get_rate_adjusted_playback_rate t target rate = rate + o'" .
  moreover have "\<bar>(target - t) * (3 / 10)\<bar> = 3 / 10 * \<bar>target - t\<bar>" unfolding abs_mult by simp
  then have abs_o: "\<bar>o'\<bar> = min (3 / 10 * \<bar>target - t\<bar>) (16 / 100 + e * (1 / 10))"
    using abs_clamp [of ?lim "(target - t) * (3 / 10)"] e(2) unfolding o' lim by (simp only:)
  moreover have "1 / 10 \<le> \<bar>o'\<bar>" "\<bar>o'\<bar> \<le> 26 / 100" "(10 / 3) * \<bar>o'\<bar> \<le> \<bar>target - t\<bar>"
    unfolding abs_o using d e(2,3) by (auto simp: min_def)
  moreover have "\<bar>target - t\<bar> \<le> 7 * \<bar>o'\<bar>"
    unfolding abs_o using d e(2,3) by (cases "3 / 10 * \<bar>target - t\<bar> \<le> 16 / 100 + e * (1 / 10)") (simp_all add: min_def)
  moreover have "0 \<le> o' * (target - t)"
    using clamp_towards_zero [of ?lim "(target - t) * (3 / 10)"] lim e unfolding o'
    by (auto intro: mult_nonneg_nonneg mult_nonpos_nonpos)
  ultimately show ?thesis by blast
qed

lemma catch_up_lasts:
  assumes "1 / 10 \<le> \<bar>offset\<bar>" and "(10 / 3) * \<bar>offset\<bar> \<le> \<bar>d\<bar>" and "\<bar>d\<bar> \<le> 7 * \<bar>offset\<bar>"
  shows "compute_relative_drift_close_ms \<bar>d\<bar> offset = js_round (\<bar>d\<bar> / \<bar>offset\<bar> * 1000)
    \<and> 600 \<le> compute_relative_drift_close_ms \<bar>d\<bar> offset \<and> compute_relative_drift_close_ms \<bar>d\<bar> offset \<le> 8000"
proof -
  have "10 / 3 \<le> \<bar>d\<bar> / \<bar>offset\<bar>" "\<bar>d\<bar> / \<bar>offset\<bar> \<le> 7"
    using assms by (auto simp: field_simps)
  then have "600 \<le> js_round (\<bar>d\<bar> / \<bar>offset\<bar> * 1000)" "js_round (\<bar>d\<bar> / \<bar>offset\<bar> * 1000) \<le> 8000"
    using js_round_error [of "\<bar>d\<bar> / \<bar>offset\<bar> * 1000"] by linarith+
  then show ?thesis
    using assms(1) by (simp add: compute_relative_drift_close_ms_def Let_def soft_apply_limits)
qed

lemma catch_up_applied:
  assumes "1 / 2 \<le> rate" "rate \<le> 2" and "catch_up_drift rate (target - vd_current_time v)"
    and "intent \<noteq> Some Explicit_Seek" and "vd_playback_rate v = rate"
  obtains offset ad where
    "sync_playback_position target Playing intent rate False False v = (set_video_playback_rate (rate + offset) v, ad)"
    and "ad_mode ad = Mode_Rate_Only" "ad_reason ad = Playing_Rate_Adjust" "ad_did_change ad"
    and "ad_target_time ad = target" "ad_current_time ad = vd_current_time v"
    and "ad_playback_rate ad = rate + offset" "ad_restore_rate ad = rate"
    and "1 / 10 \<le> \<bar>offset\<bar>" "\<bar>offset\<bar> \<le> 26 / 100" "0 \<le> offset * (target - vd_current_time v)"
    and "(10 / 3) * \<bar>offset\<bar> \<le> \<bar>target - vd_current_time v\<bar>" "\<bar>target - vd_current_time v\<bar> \<le> 7 * \<bar>offset\<bar>"
proof -
  obtain offset where offset: "get_rate_adjusted_playback_rate (vd_current_time v) target rate = rate + offset"
    "1 / 10 \<le> \<bar>offset\<bar>" "\<bar>offset\<bar> \<le> 26 / 100" "0 \<le> offset * (target - vd_current_time v)"
    "(10 / 3) * \<bar>offset\<bar> \<le> \<bar>target - vd_current_time v\<bar>" "\<bar>target - vd_current_time v\<bar> \<le> 7 * \<bar>offset\<bar>"
    using catch_up_offset [OF assms(1-3)] by blast
  have "should_treat_as_explicit_seek intent Playing = False" using assms(4) by (simp add: should_treat_as_explicit_seek_def)
  moreover have "rates_differ rate (rate + offset)" using offset(2) by (simp add: rates_differ_def)
  ultimately show thesis
    using that offset assms(3,5)
    by (simp add: sync_playback_position_def Let_def decide_playback_reconcile_mode_def catch_up_drift_def write_rate_if_def)
qed

lemma no_session_to_match [simp]: "active_soft_apply c = None \<Longrightarrow> \<not> matches_active_session url c"
  by (simp add: matches_active_session_def split: option.split)

definition play_for :: "rat \<Rightarrow> video \<Rightarrow> video" where
  "play_for ms v = v\<lparr> vd_current_time := vd_current_time v + ms / 1000 * vd_playback_rate v \<rparr>"

lemma drift_closed:
  fixes d offset :: rat
  assumes "1 / 10 \<le> \<bar>offset\<bar>" and "\<bar>offset\<bar> \<le> 26 / 100" and "0 \<le> offset * d"
  shows "\<bar>d - js_round (\<bar>d\<bar> / \<bar>offset\<bar> * 1000) / 1000 * offset\<bar> \<le> 1 / 1000"
proof -
  obtain e where e: "js_round (\<bar>d\<bar> / \<bar>offset\<bar> * 1000) = \<bar>d\<bar> / \<bar>offset\<bar> * 1000 + e" "\<bar>e\<bar> \<le> 1 / 2"
    using js_round_error [of "\<bar>d\<bar> / \<bar>offset\<bar> * 1000"] by (metis add.commute diff_add_cancel)
  have "\<bar>d\<bar> / \<bar>offset\<bar> * offset = d"
    using assms(1,3) by (cases "0 \<le> d"; cases "0 \<le> offset") (auto simp: mult_le_0_iff zero_le_mult_iff abs_if)
  then have "d - js_round (\<bar>d\<bar> / \<bar>offset\<bar> * 1000) / 1000 * offset = - (e / 1000 * offset)"
    unfolding e(1) by (simp only: add_divide_distrib distrib_right) simp
  moreover have "\<bar>e / 1000 * offset\<bar> \<le> (1 / 2 / 1000) * (26 / 100)"
    unfolding abs_mult using e(2) assms(2) by (intro mult_mono) auto
  ultimately show ?thesis by simp
qed


definition half_a_second_ahead :: playback_state where
  "half_a_second_ahead = \<lparr> pb_url = ''BV1'', pb_current_time = 100 + 1 / 2, pb_play_state = Playing,
     pb_sync_intent = None, pb_user_initiated = None, pb_natural_end = None, pb_playback_rate = 1,
     pb_updated_at = 0, pb_server_time = 5, pb_actor_id = ''alice'', pb_seq = 3 \<rparr>"


end
