(* ===== verification/Room_State_Apply.thy ===== *)
theory Room_State_Apply
  imports Sync_Apply
begin

text \<open>
  \<open>room-state-apply-controller.ts\<close>: a room state reaches the page. Remote pauses wait out the
  debounce, everything older than what was applied is dropped, and a page that cannot apply a
  state yet retries its hydration with a growing delay.
\<close>

subsection \<open>Protecting a page that loads paused\<close>

definition clear_deferred_remote_paused :: "content \<Rightarrow> content" where
  "clear_deferred_remote_paused c = c\<lparr> deferred_remote_paused_due := None, deferred_remote_paused_state := None \<rparr>"

definition should_preserve_initial_pause_protection ::
    "shared_video option \<Rightarrow> playback_state option \<Rightarrow> string option \<Rightarrow> string option \<Rightarrow> string option \<Rightarrow> bool" where
  "should_preserve_initial_pause_protection current playback shared_url current_url playback_url =
     (case playback of
        None \<Rightarrow> False
      | Some p \<Rightarrow>
          if \<not> (pb_play_state p = Paused \<or> pb_play_state p = Buffering) \<or> \<not> truthy shared_url
            \<or> playback_url \<noteq> shared_url then False
          else current = None \<or> \<not> truthy current_url \<or> current_url = shared_url)"

definition switch_active_shared_url_with_reset ::
    "(string \<Rightarrow> string option) \<Rightarrow> string option \<Rightarrow> string option \<Rightarrow> rat \<Rightarrow> content \<Rightarrow> content" where
  "switch_active_shared_url_with_reset norm_url shared_url shared_by now c =
     (let c1 = c\<lparr> active_shared_by_member_id := shared_by \<rparr>;
          c2 = (if shared_by \<noteq> active_shared_by_member_id c then c1\<lparr> resolved_shared_video_url := None \<rparr> else c1);
          c3 = (if pending_auto_share_target_url c2 \<noteq> None
                  \<and> (shared_url = pending_auto_share_target_url c2 \<or> shared_by \<noteq> local_member_id c2)
                then c2\<lparr> pending_auto_share_target_url := None \<rparr> else c2)
      in if active_shared_url c3 = shared_url then c3
         else (reset_playback_sync_state norm_url now
                 (c3\<lparr> active_shared_url := shared_url, resolved_shared_video_url := None \<rparr>))
              \<lparr> intended_play_state := Paused, intended_playback_rate := 1 \<rparr>)"

definition force_pause_if_playing :: "rat \<Rightarrow> content \<Rightarrow> content" where
  "force_pause_if_playing now c =
     (case the_video c of None \<Rightarrow> c | Some v \<Rightarrow> if \<not> vd_paused v then force_pause_video v now c else c)"

definition activate_initial_pause_protection ::
    "(string \<Rightarrow> string option) \<Rightarrow> playback_state \<Rightarrow> string option \<Rightarrow> string option \<Rightarrow> rat \<Rightarrow> content \<Rightarrow> content" where
  "activate_initial_pause_protection norm_url p shared_url shared_by now c =
     force_pause_if_playing now
       (activate_pause_hold initial_room_state_pause_hold_ms now
         (intend p (switch_active_shared_url_with_reset norm_url shared_url shared_by now c)))"

definition maybe_suppress_autoplay_for_empty_room :: "rat \<Rightarrow> content \<Rightarrow> content" where
  "maybe_suppress_autoplay_for_empty_room now c =
     (if intended_play_state c = Playing then c
      else
        let c1 = activate_pause_hold initial_room_state_pause_hold_ms now (c\<lparr> intended_play_state := Paused \<rparr>)
        in if since_gesture now (last_user_gesture_at c1) user_gesture_grace_ms
           then force_pause_if_playing now c1 else c1)"

subsection \<open>The hydration retry\<close>

definition hydration_retry_max_delay_ms :: rat where "hydration_retry_max_delay_ms = 10000"
definition bound_video_hydration_delay_ms :: rat where "bound_video_hydration_delay_ms = 50"

definition backed_off_delay_ms :: "rat \<Rightarrow> nat \<Rightarrow> rat" where
  "backed_off_delay_ms base_delay_ms attempt = min (base_delay_ms * 2 ^ attempt) hydration_retry_max_delay_ms"

definition clear_hydration_retry_timer :: "content \<Rightarrow> content" where
  "clear_hydration_retry_timer c = c\<lparr> hydrate_retry_due := None \<rparr>"

definition arm_hydration_retry :: "rat \<Rightarrow> nat \<Rightarrow> rat \<Rightarrow> content \<Rightarrow> bool \<times> content" where
  "arm_hydration_retry base_delay_ms attempt now c =
     (if sync_destroyed c \<or> hydrate_retry_due c \<noteq> None then (False, c)
      else (True, c\<lparr> hydrate_retry_due := Some (now + backed_off_delay_ms base_delay_ms attempt) \<rparr>))"

definition preempt_hydration_retry :: "rat \<Rightarrow> nat \<Rightarrow> rat \<Rightarrow> content \<Rightarrow> bool \<times> content" where
  "preempt_hydration_retry base_delay_ms attempt now c =
     (if sync_destroyed c then (False, c)
      else (case hydrate_retry_due c of
         None \<Rightarrow> (False, c)
       | Some deadline \<Rightarrow>
           if deadline \<le> now + backed_off_delay_ms base_delay_ms attempt then (False, c)
           else arm_hydration_retry base_delay_ms attempt now (clear_hydration_retry_timer c)))"

definition schedule_hydration_retry :: "rat \<Rightarrow> rat \<Rightarrow> content \<Rightarrow> content" where
  "schedule_hydration_retry delay_ms now c =
     (let (armed, c') = arm_hydration_retry delay_ms (hydrate_retry_attempt c) now c
      in if armed then c'\<lparr> hydrate_retry_attempt := hydrate_retry_attempt c + 1 \<rparr> else c')"

definition notify_video_element_bound :: "rat \<Rightarrow> content \<Rightarrow> content" where
  "notify_video_element_bound now c =
     (if sync_destroyed c \<or> hydrate_retry_due c = None then c
      else
        let attempt = bound_video_attempt c;
            (won, c') = preempt_hydration_retry bound_video_hydration_delay_ms attempt now
                          (c\<lparr> bound_video_attempt := attempt + 1 \<rparr>)
        in if won then c'\<lparr> hydrate_retry_attempt := 0 \<rparr> else c')"

definition reset_hydration_retry :: "content \<Rightarrow> content" where
  "reset_hydration_retry c =
     (clear_hydration_retry_timer c)\<lparr> hydrate_retry_attempt := 0, bound_video_attempt := 0 \<rparr>"

subsection \<open>Applying a room state\<close>

datatype apply_outcome =
    Deferred_Pause | Dropped_Older | Room_Emptied | Page_Unresolved | Not_Shared | No_Video_Element
  | Local_Guard | Pending_Override | Stale | Own_Version | Self_Noop | Within_Threshold_Noop | Cooldown_Suppress
  | Applied playback_state

definition is_matching_flicker :: "(string \<Rightarrow> string option) \<Rightarrow> playback_state \<Rightarrow> playback_state \<Rightarrow> bool" where
  "is_matching_flicker norm_url p deferred =
     (pb_play_state p = Playing \<and> norm_url (pb_url p) = norm_url (pb_url deferred)
      \<and> \<bar>pb_current_time p - pb_current_time deferred\<bar> < 5 / 10)"

definition drop_superseded_pause :: "(string \<Rightarrow> string option) \<Rightarrow> room_state \<Rightarrow> content \<Rightarrow> content" where
  "drop_superseded_pause norm_url state c =
     (case deferred_remote_paused_state c of
        None \<Rightarrow> c
      | Some deferred \<Rightarrow>
          (case rs_playback deferred of
             None \<Rightarrow> c
           | Some dp \<Rightarrow>
               (case rs_playback state of
                  None \<Rightarrow> clear_deferred_remote_paused c
                | Some p \<Rightarrow>
                    if is_matching_flicker norm_url p dp then clear_deferred_remote_paused c
                    else if version_less (version_of dp) (version_of p) then clear_deferred_remote_paused c
                    else c)))"

definition apply_input_of :: "(string \<Rightarrow> string option) \<Rightarrow> room_state \<Rightarrow> rat \<Rightarrow> content \<Rightarrow> apply_input" where
  "apply_input_of norm_url state now c =
     \<lparr> ai_room_state = state, ai_current_video = page_video c,
       ai_normalized_shared_url = norm_opt norm_url (map_option sv_url (rs_shared_video state)),
       ai_normalized_current_url = norm_opt norm_url (map_option sv_url (page_video c)),
       ai_normalized_playback_url = norm_opt norm_url (map_option pb_url (rs_playback state)),
       ai_pending_hydration = pending_room_state_hydration c, ai_now = now,
       ai_last_local_intent_at = last_local_intent_at c,
       ai_last_local_intent_play_state = last_local_intent_play_state c,
       ai_last_applied_version = (case rs_playback state of
          None \<Rightarrow> None | Some p \<Rightarrow> applied_versions c (pb_actor_id p)),
       ai_last_local_playback_version = last_local_playback_version c,
       ai_local_member_id = local_member_id c \<rparr>"

definition from_other_member :: "playback_state \<Rightarrow> content \<Rightarrow> bool" where
  "from_other_member p c = (local_member_id c \<noteq> None \<and> Some (pb_actor_id p) \<noteq> local_member_id c)"

fun is_apply :: "apply_decision \<Rightarrow> bool" where
  "is_apply (Apply_Playback self p) = True"
| "is_apply _ = False"

text \<open>The pause is deferred, or dropped when an older one than the deferred pause arrives.\<close>

definition waits_out_debounce :: "room_state \<Rightarrow> apply_decision \<Rightarrow> content \<Rightarrow> bool" where
  "waits_out_debounce state decision c =
     (case rs_playback state of
        None \<Rightarrow> False
      | Some p \<Rightarrow>
          let user_initiated = (pb_play_state p = Paused \<and> pb_user_initiated p = Some True
                 \<and> from_other_member p c \<and> deferred_remote_paused_state c = None)
          in \<not> user_initiated \<and> 0 < remote_pause_debounce_ms \<and> pb_play_state p = Paused
             \<and> is_apply decision \<and> from_other_member p c)"

definition defer_pause :: "room_state \<Rightarrow> rat \<Rightarrow> content \<Rightarrow> content \<times> apply_outcome" where
  "defer_pause state now c =
     (let existing = (case deferred_remote_paused_state c of None \<Rightarrow> None | Some d \<Rightarrow> rs_playback d)
      in case (existing, rs_playback state) of
           (Some dp, Some p) \<Rightarrow>
             if version_less (version_of p) (version_of dp) then (c, Dropped_Older)
             else (mark_initial_room_state_received (c\<lparr> deferred_remote_paused_state := Some state,
                     deferred_remote_paused_due := Some (now + remote_pause_debounce_ms) \<rparr>), Deferred_Pause)
         | _ \<Rightarrow> (mark_initial_room_state_received (c\<lparr> deferred_remote_paused_state := Some state,
                     deferred_remote_paused_due := Some (now + remote_pause_debounce_ms) \<rparr>), Deferred_Pause))"

definition lift_settle_anchor :: "string option \<Rightarrow> content \<Rightarrow> content" where
  "lift_settle_anchor shared_url c =
     (if truthy (post_navigation_anchor_shared_url c) \<and> post_navigation_anchor_shared_url c \<noteq> shared_url
      then c\<lparr> post_navigation_anchor_shared_url := None, post_navigation_anchor_set_at := 0 \<rparr> else c)"

definition empty_room_applied :: "(string \<Rightarrow> string option) \<Rightarrow> bool \<Rightarrow> rat \<Rightarrow> content \<Rightarrow> content" where
  "empty_room_applied norm_url accepted now c =
     (let c1 = clear_remote_follow_playing_window ((cancel_active_soft_apply norm_url Room_Is_Empty now c)
            \<lparr> active_shared_url := None, active_shared_by_member_id := None, pending_auto_share_target_url := None,
               resolved_shared_video_url := None, suppressed_local_end_pause_url := None,
               suppressed_local_end_pause_until := 0, non_sharer_autoplay_hold_url := None \<rparr>)
      in if accepted then accept_initial_room_state_hydration (maybe_suppress_autoplay_for_empty_room now c1) else c1)"

definition unresolved_page_applied ::
    "(string \<Rightarrow> string option) \<Rightarrow> room_state \<Rightarrow> string option \<Rightarrow> string option \<Rightarrow> rat \<Rightarrow> content \<Rightarrow> content" where
  "unresolved_page_applied norm_url state shared_url shared_by now c =
     (let c1 = switch_active_shared_url_with_reset norm_url shared_url shared_by now
                 (cancel_active_soft_apply norm_url No_Page_Video now c)
      in case rs_playback state of
           None \<Rightarrow> c1
         | Some p \<Rightarrow>
             if pending_room_state_hydration c1 \<and> truthy shared_url
               \<and> should_preserve_initial_pause_protection (page_video c) (Some p) shared_url
                   (norm_opt norm_url (map_option sv_url (page_video c))) (norm_url (pb_url p))
             then schedule_hydration_retry 350 now
                    (activate_initial_pause_protection norm_url p shared_url shared_by now c1)
             else c1)"

definition not_shared_applied ::
    "(string \<Rightarrow> string option) \<Rightarrow> bool \<Rightarrow> bool \<Rightarrow> playback_state option \<Rightarrow> rat \<Rightarrow> content \<Rightarrow> content" where
  "not_shared_applied norm_url accepted should_pause playback now c =
     (let c1 = cancel_active_soft_apply norm_url Non_Shared_Page now c;
          c2 = (case playback of
                  None \<Rightarrow> c1
                | Some p \<Rightarrow>
                    if should_pause
                    then force_pause_if_playing now (activate_pause_hold initial_room_state_pause_hold_ms now
                           (c1\<lparr> intended_play_state := pb_play_state p \<rparr>))
                    else c1)
      in if accepted then accept_initial_room_state_hydration c2 else c2)"

definition hand_to_player ::
    "(string \<Rightarrow> string option) \<Rightarrow> bool \<Rightarrow> playback_state \<Rightarrow> video \<Rightarrow> rat \<Rightarrow> content \<Rightarrow> content" where
  "hand_to_player norm_url is_self p v now c =
     (let c1 = remember_remote_for_suppression norm_url p now c;
          c2 = (if pb_play_state p = Paused \<or> pb_play_state p = Buffering
                then activate_pause_hold
                       (if pending_room_state_hydration c1 \<or> \<not> has_received_initial_room_state c1
                        then initial_room_state_pause_hold_ms else pause_hold_ms) now
                       (clear_remote_follow_playing_window c1)
                else if \<not> is_self then remember_remote_follow_playing_window norm_url p now c1 else c1);
          c3 = (intend p c2)\<lparr> pending_playback_application := Some p \<rparr>;
          c4 = (if can_apply_playback_immediately v then apply_pending_playback_application norm_url now c3
                else arm_programmatic_apply_window norm_url (create_programmatic_playback_signature p) Scope_All now c3)
      in accept_initial_room_state_hydration c4)"

definition apply_accepted_playback ::
    "(string \<Rightarrow> string option) \<Rightarrow> bool \<Rightarrow> playback_state \<Rightarrow> rat \<Rightarrow> content \<Rightarrow> content \<times> apply_outcome" where
  "apply_accepted_playback norm_url is_self p now c =
     (let c1 = (case should_cancel_active_soft_apply_for_playback norm_url (Some p) now c of
                  None \<Rightarrow> c | Some reason \<Rightarrow> cancel_active_soft_apply norm_url reason now c);
          c2 = c1\<lparr> applied_versions := (applied_versions c1)(pb_actor_id p := Some (version_of p)) \<rparr>
      in case the_video c2 of
           None \<Rightarrow> (c2, No_Video_Element)
         | Some v \<Rightarrow>
             if is_self \<and> \<not> should_apply_self_playback (vd_paused v) (vd_current_time v) (vd_playback_rate v) p
             then (c2, Self_Noop)
             else if should_ignore_remote_playback_apply v p is_self
             then (intend p (remember_remote_follow_playing_window norm_url p now (accept_initial_if_pending c2)),
                   Within_Threshold_Noop)
             else if should_suppress_by_cooldown norm_url v p now c2
             then (intend p (accept_initial_if_pending c2), Cooldown_Suppress)
             else (hand_to_player norm_url is_self p v now c2, Applied p))"

definition apply_on_shared_page ::
    "(string \<Rightarrow> string option) \<Rightarrow> apply_decision \<Rightarrow> playback_state \<Rightarrow> rat \<Rightarrow> content \<Rightarrow> content \<times> apply_outcome" where
  "apply_on_shared_page norm_url decision p now c =
     (case the_video c of
        None \<Rightarrow> (schedule_hydration_retry 350 now c, No_Video_Element)
      | Some v \<Rightarrow>
          if decision = Ignore_Local_Guard then (accept_initial_if_pending c, Local_Guard)
          else
            let (ignored, c1) = get_pending_local_override_decision norm_url p now c
            in if ignored then (accept_initial_if_pending c1, Pending_Override)
               else (case decision of
                  Apply_Playback is_self _ \<Rightarrow> apply_accepted_playback norm_url is_self p now c1
                | Ignore_Self_Playback_Version \<Rightarrow> (accept_initial_if_pending c1, Own_Version)
                | _ \<Rightarrow> (accept_initial_if_pending c1, Stale)))"

definition apply_room_state ::
    "(string \<Rightarrow> string option) \<Rightarrow> bool \<Rightarrow> room_state \<Rightarrow> rat \<Rightarrow> content \<Rightarrow> content \<times> apply_outcome" where
  "apply_room_state norm_url from_debounce state now c =
     (let shared_url = norm_opt norm_url (map_option sv_url (rs_shared_video state));
          shared_by = (case rs_shared_video state of None \<Rightarrow> None | Some s \<Rightarrow> sv_shared_by_member_id s);
          decision = decide_playback_application (apply_input_of norm_url state now c);
          c1 = (if from_debounce then c else drop_superseded_pause norm_url state c)
      in if \<not> from_debounce \<and> waits_out_debounce state decision c1 then defer_pause state now c1
         else
           let c2 = lift_settle_anchor shared_url c1
           in case decision of
                Empty_Room accepted \<Rightarrow> (empty_room_applied norm_url accepted now c2, Room_Emptied)
              | No_Current_Video \<Rightarrow> (unresolved_page_applied norm_url state shared_url shared_by now c2, Page_Unresolved)
              | _ \<Rightarrow>
                  let c3 = switch_active_shared_url_with_reset norm_url shared_url shared_by now c2
                  in case decision of
                       Ignore_Non_Shared accepted should_pause \<Rightarrow>
                         (not_shared_applied norm_url accepted should_pause (rs_playback state) now c3, Not_Shared)
                     | _ \<Rightarrow> (case rs_playback state of
                              None \<Rightarrow> (c3, Room_Emptied)
                            | Some p \<Rightarrow> apply_on_shared_page norm_url decision p now c3))"

definition deferred_pause_fires :: "(string \<Rightarrow> string option) \<Rightarrow> rat \<Rightarrow> content \<Rightarrow> content \<times> apply_outcome option" where
  "deferred_pause_fires norm_url now c =
     (case deferred_remote_paused_due c of
        None \<Rightarrow> (c, None)
      | Some due \<Rightarrow>
          if now < due then (c, None)
          else
            let c1 = clear_deferred_remote_paused c
            in case deferred_remote_paused_state c of
                 None \<Rightarrow> (c1, None)
               | Some pending \<Rightarrow>
                   if sync_destroyed c then (c1, None)
                   else if (case rs_playback pending of None \<Rightarrow> False
                            | Some p \<Rightarrow> stale_playback (applied_versions c1 (pb_actor_id p)) p) then (c1, None)
                   else let (c2, outcome) = apply_room_state norm_url True pending now c1 in (c2, Some outcome))"

text \<open>
  What \<open>sync-controller.ts\<close> exports as \<open>applyRoomState\<close>: a playback that is the member's own says
  that the room holds it.
\<close>

definition record_room_confirmed_broadcast :: "(string \<Rightarrow> string option) \<Rightarrow> room_state \<Rightarrow> rat \<Rightarrow> content \<Rightarrow> content" where
  "record_room_confirmed_broadcast norm_url state now c =
     (case rs_playback state of
        None \<Rightarrow> c
      | Some p \<Rightarrow>
          if own_playback (local_member_id c) p
          then c\<lparr> room_confirmed_broadcast := Some
                 \<lparr> cb_url = norm_url (pb_url p), cb_play_state = pb_play_state p, cb_sync_intent = pb_sync_intent p,
                   cb_user_initiated = (pb_user_initiated p = Some True), cb_natural_end = (pb_natural_end p = Some True),
                   cb_current_time = pb_current_time p, cb_playback_rate = pb_playback_rate p, cb_at = now \<rparr> \<rparr>
          else c)"

definition receive_room_state :: "(string \<Rightarrow> string option) \<Rightarrow> room_state \<Rightarrow> rat \<Rightarrow> content \<Rightarrow> content \<times> apply_outcome" where
  "receive_room_state norm_url state now c =
     apply_room_state norm_url False state now (record_room_confirmed_broadcast norm_url state now c)"

subsection \<open>Hydration\<close>

record hydration_response =
  hr_ok :: bool
  hr_room_code :: "string option"
  hr_member_id :: "string option"
  hr_room_state :: "room_state option"

definition hydrate_initial_pause ::
    "(string \<Rightarrow> string option) \<Rightarrow> room_state \<Rightarrow> rat \<Rightarrow> content \<Rightarrow> content" where
  "hydrate_initial_pause norm_url state now c =
     (let shared_url = norm_opt norm_url (map_option sv_url (rs_shared_video state));
          shared_by = (case rs_shared_video state of None \<Rightarrow> None | Some s \<Rightarrow> sv_shared_by_member_id s);
          preserve = should_preserve_initial_pause_protection (page_video c) (rs_playback state) shared_url
            (norm_opt norm_url (map_option sv_url (page_video c)))
            (norm_opt norm_url (map_option pb_url (rs_playback state)))
      in case rs_playback state of
           None \<Rightarrow> c
         | Some p \<Rightarrow>
             let c1 = (if truthy shared_url \<and> preserve
                  then activate_pause_hold initial_room_state_pause_hold_ms now
                         (intend p (switch_active_shared_url_with_reset norm_url shared_url shared_by now c))
                  else c)
             in case the_video c1 of
                  None \<Rightarrow> c1
                | Some v \<Rightarrow>
                    if \<not> vd_paused v \<and> preserve \<and> since_gesture now (last_user_gesture_at c1) user_gesture_grace_ms
                    then force_pause_video v now (c1\<lparr> intended_play_state := pb_play_state p \<rparr>) else c1)"

definition hydration_cycle ::
    "(string \<Rightarrow> string option) \<Rightarrow> hydration_response option \<Rightarrow> rat \<Rightarrow> content \<Rightarrow> content" where
  "hydration_cycle norm_url response now c =
     (case response of
        None \<Rightarrow> if \<not> sync_destroyed c then c\<lparr> hydration_ready := True \<rparr> else c
      | Some r \<Rightarrow>
          if sync_destroyed c then c
          else
            let c1 = set_room_membership
                       (case hr_room_code r of None \<Rightarrow> active_room_code c | Some code \<Rightarrow> Some code) (hr_member_id r) c
            in case (hr_ok r, hr_room_state r) of
                 (True, Some state) \<Rightarrow>
                   (fst (apply_room_state norm_url False state now (hydrate_initial_pause norm_url state now c1)))
                     \<lparr> hydration_ready := True \<rparr>
               | _ \<Rightarrow>
                   let c2 = (if \<not> truthy (hr_room_code r) then c1\<lparr> pending_room_state_hydration := False \<rparr> else c1)
                   in if \<not> truthy (hr_member_id r) then c2\<lparr> hydration_ready := True \<rparr>
                      else schedule_hydration_retry 1500 now c2)"

definition hydration_answered ::
    "(string \<Rightarrow> string option) \<Rightarrow> hydration_response option \<Rightarrow> rat \<Rightarrow> content \<Rightarrow> content" where
  "hydration_answered norm_url response now c =
     (let c' = hydration_cycle norm_url response now c
      in if \<not> sync_destroyed c' \<and> hydrate_retry_due c' = None
         then c'\<lparr> hydrate_retry_attempt := 0, bound_video_attempt := 0 \<rparr> else c')"

text \<open>A hydration begins (\<open>hydrateRoomState\<close>), or its timer fires; \<open>True\<close> is a request to the background.\<close>

definition hydrate_room_state :: "content \<Rightarrow> bool \<times> content" where
  "hydrate_room_state c =
     (if sync_destroyed c then (False, c) else (True, clear_hydration_retry_timer (reset_hydration_retry c)))"

definition hydration_timer_fires :: "rat \<Rightarrow> content \<Rightarrow> bool \<times> content" where
  "hydration_timer_fires now c =
     (case hydrate_retry_due c of
        None \<Rightarrow> (False, c)
      | Some due \<Rightarrow>
          if now < due then (False, c)
          else (\<not> sync_destroyed c, clear_hydration_retry_timer c))"

definition destroy_room_state_apply :: "content \<Rightarrow> content" where
  "destroy_room_state_apply c =
     clear_deferred_remote_paused (clear_hydration_retry_timer
       (c\<lparr> sync_destroyed := True, hydrate_retry_attempt := 0, bound_video_attempt := 0 \<rparr>))"

subsection \<open>The room the page is in\<close>

text \<open>\<open>handleSyncStatus\<close> of \<open>room-state-controller.ts\<close>.\<close>

definition clear_room_scoped_shared_video_state :: "content \<Rightarrow> content" where
  "clear_room_scoped_shared_video_state c = c\<lparr>
     active_shared_url := None, active_shared_by_member_id := None, pending_auto_share_target_url := None,
     resolved_shared_video_url := None, explicit_non_shared_playback_url := None,
     suppressed_local_end_pause_url := None, suppressed_local_end_pause_until := 0,
     shared_video_natural_end_url := None, shared_video_natural_end_at := 0, non_sharer_autoplay_hold_url := None,
     last_non_shared_guard_url := None, post_navigation_anchor_shared_url := None, post_navigation_anchor_set_at := 0 \<rparr>"

definition handle_sync_status ::
    "(string \<Rightarrow> string option) \<Rightarrow> string option \<Rightarrow> string option \<Rightarrow> rat option \<Rightarrow> rat \<Rightarrow> content \<Rightarrow> content" where
  "handle_sync_status norm_url room_code member_id rtt_ms now c =
     (let previous = active_room_code c;
          c1 = (set_room_membership room_code member_id c)\<lparr> content_rtt_ms := rtt_ms \<rparr>;
          room_changed = (truthy previous \<and> truthy room_code \<and> previous \<noteq> room_code);
          c2 = (if room_changed
                then clear_room_scoped_shared_video_state
                       ((reset_hydration_retry (reset_playback_sync_state norm_url now c1))
                          \<lparr> has_received_initial_room_state := False, pending_room_state_hydration := True \<rparr>)
                else c1);
          c3 = (if truthy room_code \<and> \<not> has_received_initial_room_state c2
                then schedule_hydration_retry 150 now
                       (c2\<lparr> pending_room_state_hydration := True, hydration_ready := False \<rparr>)
                else c2)
      in if truthy room_code then c3
         else
           let c4 = (if truthy previous then reset_playback_sync_state norm_url now c3 else c3)
           in (clear_room_scoped_shared_video_state (reset_hydration_retry c4))
                \<lparr> pending_room_state_hydration := False, has_received_initial_room_state := False,
                   hydration_ready := False \<rparr>)"

end
