(* ===== verification/Apply_Order.thy ===== *)
theory Apply_Order
  imports Room_State_Apply
begin

text \<open>
  The order in which snapshots reach the player: however room states arrive, whatever the
  debounce holds back, no snapshot of a member is applied twice or after a newer one of theirs,
  and a pause that was held back is applied only if nothing newer came in the meantime.
\<close>

subsection \<open>What the helpers leave alone\<close>

definition kept :: "content \<Rightarrow> content \<Rightarrow> bool" where
  "kept c c' = (applied_versions c' = applied_versions c \<and> active_shared_url c' = active_shared_url c
     \<and> deferred_remote_paused_state c' = deferred_remote_paused_state c
     \<and> deferred_remote_paused_due c' = deferred_remote_paused_due c)"

lemma kept_refl [simp]: "kept c c"
  by (simp add: kept_def)

lemma kept_trans [trans]: "kept a b \<Longrightarrow> kept b c \<Longrightarrow> kept a c"
  by (simp add: kept_def)

lemma kept_windows [frame_simps]:
  "kept c (clear_pending_local_override d) = kept c d" "kept c (activate_pause_hold ms now d) = kept c d"
  "kept c (clear_remote_follow_playing_window d) = kept c d" "kept c (accept_initial_room_state_hydration d) = kept c d"
  "kept c (mark_initial_room_state_received d) = kept c d" "kept c (intend p d) = kept c d"
  "kept c (clear_soft_apply_cooldown d) = kept c d" "kept c (arm_soft_apply_cooldown url now d) = kept c d"
  "kept c (arm_programmatic_apply_window norm_url sig scope now d) = kept c d"
  "kept c (clear_active_soft_apply_state d) = kept c d" "kept c (force_pause_video v now d) = kept c d"
  "kept c (invalidate_playback_context d) = kept c d"
  by (simp_all add: kept_def clear_pending_local_override_def activate_pause_hold_def clear_remote_follow_playing_window_def
      accept_initial_room_state_hydration_def mark_initial_room_state_received_def intend_def
      clear_soft_apply_cooldown_def arm_soft_apply_cooldown_def arm_programmatic_apply_window_def
      clear_active_soft_apply_state_def force_pause_video_def invalidate_playback_context_def)

lemma kept_updates [frame_simps]:
  "kept c (d\<lparr> the_video := x1 \<rparr>) = kept c d" "kept c (d\<lparr> pending_playback_application := x2 \<rparr>) = kept c d"
  "kept c (d\<lparr> intended_play_state := x3 \<rparr>) = kept c d" "kept c (d\<lparr> soft_apply_due := x4 \<rparr>) = kept c d"
  "kept c (d\<lparr> active_soft_apply := x5 \<rparr>) = kept c d" "kept c (d\<lparr> suppressed_remote := x6 \<rparr>) = kept c d"
  "kept c (d\<lparr> recent_remote_playing := x7 \<rparr>) = kept c d" "kept c (d\<lparr> hydrate_retry_due := x8 \<rparr>) = kept c d"
  "kept c (d\<lparr> hydrate_retry_attempt := x9 \<rparr>) = kept c d" "kept c (d\<lparr> remote_follow_playing_until := x10 \<rparr>) = kept c d"
  "kept c (d\<lparr> remote_follow_playing_url := x11 \<rparr>) = kept c d" "kept c (d\<lparr> room_confirmed_broadcast := x12 \<rparr>) = kept c d"
  "kept c (d\<lparr> post_navigation_anchor_shared_url := x13 \<rparr>) = kept c d"
  "kept c (d\<lparr> post_navigation_anchor_set_at := x14 \<rparr>) = kept c d"
  "kept c (d\<lparr> active_shared_by_member_id := x15 \<rparr>) = kept c d" "kept c (d\<lparr> resolved_shared_video_url := x16 \<rparr>) = kept c d"
  "kept c (d\<lparr> pending_auto_share_target_url := x17 \<rparr>) = kept c d"
  by (simp_all add: kept_def)

lemma kept_schedule_timeout [frame_simps]: "kept c (schedule_active_soft_apply_timeout now d) = kept c d"
  by (simp add: schedule_active_soft_apply_timeout_def frame_simps split: option.split)

lemma kept_cancel [frame_simps]: "kept c (cancel_active_soft_apply norm_url reason now d) = kept c d"
  by (simp add: cancel_active_soft_apply_def cancel_restore_def cancel_cooldown_def Let_def frame_simps split: option.split)

lemma kept_upsert [frame_simps]: "kept c (upsert_active_soft_apply norm_url p drift arm close now d) = kept c d"
  by (simp add: upsert_active_soft_apply_def Let_def frame_simps split: option.split)

lemma kept_adjusted [frame_simps]: "kept c (on_playback_adjusted norm_url ad p now d) = kept c d"
  by (simp add: on_playback_adjusted_def Let_def frame_simps)

lemma kept_apply_pending [frame_simps]: "kept c (apply_pending_playback_application norm_url now d) = kept c d"
  by (simp add: apply_pending_playback_application_def Let_def frame_simps split: option.split prod.split)

lemma kept_remember [frame_simps]:
  "kept c (remember_remote_for_suppression norm_url p now d) = kept c d"
  "kept c (remember_remote_follow_playing_window norm_url p now d) = kept c d"
  by (simp_all add: remember_remote_for_suppression_def remember_remote_follow_playing_window_def frame_simps split: prod.split)

lemma kept_accept [frame_simps]: "kept c (accept_initial_if_pending d) = kept c d"
  by (simp add: accept_initial_if_pending_def frame_simps)

lemma kept_pause [frame_simps]: "kept c (force_pause_if_playing now d) = kept c d"
  by (simp add: force_pause_if_playing_def frame_simps split: option.split)

lemma kept_schedule_retry [frame_simps]: "kept c (schedule_hydration_retry delay now d) = kept c d"
  by (simp add: schedule_hydration_retry_def arm_hydration_retry_def Let_def frame_simps)

lemma kept_anchor [frame_simps]: "kept c (lift_settle_anchor url d) = kept c d"
  by (simp add: lift_settle_anchor_def frame_simps)

lemma kept_record [frame_simps]: "kept c (record_room_confirmed_broadcast norm_url state now d) = kept c d"
  by (simp add: record_room_confirmed_broadcast_def frame_simps split: option.split)

lemma kept_override:
  "get_pending_local_override_decision norm_url p now d = (ignored, d') \<Longrightarrow> kept c d' = kept c d"
  by (auto simp: get_pending_local_override_decision_def pending_local_seek_decision_def pending_local_rate_decision_def
      frame_simps split: option.splits if_splits override_kind.splits)

lemma kept_hand_to_player [frame_simps]: "kept c (hand_to_player norm_url is_self p v now d) = kept c d"
  by (simp add: hand_to_player_def Let_def frame_simps)

lemma kept_not_shared [frame_simps]: "kept c (not_shared_applied norm_url accepted pause playback now d) = kept c d"
  by (simp add: not_shared_applied_def Let_def frame_simps split: option.split)

lemma kept_same_share:
  "active_shared_url d = shared_url \<Longrightarrow> kept c (switch_active_shared_url_with_reset norm_url shared_url shared_by now d) = kept c d"
  by (simp add: switch_active_shared_url_with_reset_def Let_def frame_simps)

lemma kept_unresolved:
  assumes "active_shared_url d = url"
  shows "kept d (unresolved_page_applied norm_url state url shared_by now d)"
proof -
  have cancelled: "kept d (cancel_active_soft_apply norm_url No_Page_Video now d)" by (simp add: frame_simps)
  let ?c1 = "switch_active_shared_url_with_reset norm_url url shared_by now (cancel_active_soft_apply norm_url No_Page_Video now d)"
  have c1: "kept d ?c1" using cancelled assms by (subst kept_same_share) (simp_all add: kept_def)
  then have "kept d (switch_active_shared_url_with_reset norm_url url shared_by now ?c1)"
    using assms by (subst kept_same_share) (simp_all add: kept_def)
  then show ?thesis
    using c1 by (simp add: unresolved_page_applied_def Let_def activate_initial_pause_protection_def frame_simps split: option.split)
qed

text \<open>A switch of the shared video clears the versions; it never touches the pause held back.\<close>

definition same_pause :: "content \<Rightarrow> content \<Rightarrow> bool" where
  "same_pause c c' = (deferred_remote_paused_state c' = deferred_remote_paused_state c
     \<and> deferred_remote_paused_due c' = deferred_remote_paused_due c)"

lemma kept_same_pause: "kept c c' \<Longrightarrow> same_pause c c'"
  by (simp add: kept_def same_pause_def)

lemma same_pause_trans: "same_pause a b \<Longrightarrow> same_pause b c \<Longrightarrow> same_pause a c"
  by (simp add: same_pause_def)

lemma same_pause_reset: "same_pause d (reset_playback_sync_state norm_url now d)"
proof -
  have "same_pause d (cancel_active_soft_apply norm_url Sync_Reset now (invalidate_playback_context d))"
    by (intro kept_same_pause) (simp add: frame_simps)
  then show ?thesis
    by (simp add: reset_playback_sync_state_def Let_def same_pause_def clear_soft_apply_cooldown_def
        clear_pending_local_override_def clear_remote_follow_playing_window_def)
qed

lemma same_pause_switch: "same_pause d (switch_active_shared_url_with_reset norm_url url shared_by now d)"
  using same_pause_reset [of _ norm_url now]
  by (simp add: switch_active_shared_url_with_reset_def Let_def same_pause_def)

lemma same_pause_empty: "same_pause d (empty_room_applied norm_url accepted now d)"
proof -
  have "kept d (cancel_active_soft_apply norm_url Room_Is_Empty now d)" by (simp add: frame_simps)
  then have "same_pause d (clear_remote_follow_playing_window ((cancel_active_soft_apply norm_url Room_Is_Empty now d)
      \<lparr> active_shared_url := None, active_shared_by_member_id := None, pending_auto_share_target_url := None,
         resolved_shared_video_url := None, suppressed_local_end_pause_url := None,
         suppressed_local_end_pause_until := 0, non_sharer_autoplay_hold_url := None \<rparr>))" (is "same_pause d ?c1")
    by (simp add: kept_def same_pause_def clear_remote_follow_playing_window_def)
  moreover have "same_pause ?c1 (accept_initial_room_state_hydration (maybe_suppress_autoplay_for_empty_room now ?c1))"
    by (intro kept_same_pause) (simp add: maybe_suppress_autoplay_for_empty_room_def Let_def frame_simps)
  ultimately show ?thesis
    unfolding empty_room_applied_def Let_def by (auto intro: same_pause_trans)
qed

lemma same_pause_unresolved: "same_pause d (unresolved_page_applied norm_url state url shared_by now d)"
proof -
  let ?c1 = "switch_active_shared_url_with_reset norm_url url shared_by now (cancel_active_soft_apply norm_url No_Page_Video now d)"
  have c1: "same_pause d ?c1"
    by (rule same_pause_trans [OF kept_same_pause same_pause_switch]) (simp add: frame_simps)
  have "same_pause ?c1 (schedule_hydration_retry 350 now (activate_initial_pause_protection norm_url p url shared_by now ?c1))" for p
  proof -
    have "same_pause ?c1 (switch_active_shared_url_with_reset norm_url url shared_by now ?c1)" by (rule same_pause_switch)
    moreover have "kept (switch_active_shared_url_with_reset norm_url url shared_by now ?c1)
        (schedule_hydration_retry 350 now (activate_initial_pause_protection norm_url p url shared_by now ?c1))"
      by (simp add: activate_initial_pause_protection_def frame_simps)
    ultimately show ?thesis by (blast intro: same_pause_trans kept_same_pause)
  qed
  then show ?thesis
    unfolding unresolved_page_applied_def Let_def
    using c1 by (auto intro: same_pause_trans split: option.split)
qed

subsection \<open>One room state\<close>

lemma version_less_irrefl [simp]: "\<not> version_less v v"
  by (simp add: version_less_def)

lemma version_less_trans [trans]: "version_less a b \<Longrightarrow> version_less b c \<Longrightarrow> version_less a c"
  by (auto simp: version_less_def)

lemma stale_iff: "stale_playback (Some v) p = (\<not> version_less v (version_of p))"
  by (auto simp: stale_playback_def version_less_def version_of_def)

lemma applied_is_fresh:
  assumes "decide_playback_application (apply_input_of norm_url state now c) = Apply_Playback is_self q"
  obtains p where "rs_playback state = Some p" "q = p" "\<not> stale_playback (applied_versions c (pb_actor_id p)) p"
  using assms
  by (auto simp: decide_playback_application_def apply_input_of_def split: option.splits if_splits)

lemma accepted_playback:
  assumes "apply_accepted_playback norm_url is_self p now c = (c', outcome)"
  shows "applied_versions c' = (applied_versions c)(pb_actor_id p := Some (version_of p))
    \<and> active_shared_url c' = active_shared_url c \<and> same_pause c c'
    \<and> (\<forall>q. outcome = Applied q \<longrightarrow> q = p)"
proof -
  let ?c1 = "case should_cancel_active_soft_apply_for_playback norm_url (Some p) now c of
      None \<Rightarrow> c | Some reason \<Rightarrow> cancel_active_soft_apply norm_url reason now c"
  let ?c2 = "?c1\<lparr> applied_versions := (applied_versions ?c1)(pb_actor_id p := Some (version_of p)) \<rparr>"
  have c1: "kept c ?c1" by (simp add: frame_simps split: option.split)
  have c2: "applied_versions ?c2 = (applied_versions c)(pb_actor_id p := Some (version_of p))"
    "active_shared_url ?c2 = active_shared_url c" "same_pause c ?c2"
    using c1 by (simp_all add: kept_def same_pause_def)
  have "kept ?c2 c' \<and> (\<forall>q. outcome = Applied q \<longrightarrow> q = p)"
    using assms unfolding apply_accepted_playback_def Let_def
    by (auto simp: frame_simps split: option.splits if_splits)
  then show ?thesis using c2 by (auto simp: kept_def same_pause_def)
qed

lemma shared_page_step:
  assumes "apply_on_shared_page norm_url decision p now c = (c', outcome)"
  shows "active_shared_url c' = active_shared_url c \<and> same_pause c c'
    \<and> (applied_versions c' = applied_versions c \<or>
       (is_apply decision \<and> applied_versions c' = (applied_versions c)(pb_actor_id p := Some (version_of p))))
    \<and> (\<forall>q. outcome = Applied q \<longrightarrow> q = p \<and> is_apply decision \<and> applied_versions c' (pb_actor_id p) = Some (version_of p))"
proof -
  obtain ignored c1 where o: "get_pending_local_override_decision norm_url p now c = (ignored, c1)" by fastforce
  have c1: "kept c c1" using kept_override [OF o, of c] by simp
  have kept_case: "kept c c' \<and> (\<forall>q. outcome \<noteq> Applied q) \<or>
      (\<exists>is_self q. decision = Apply_Playback is_self q \<and> apply_accepted_playback norm_url is_self p now c1 = (c', outcome))"
    using assms o c1 unfolding apply_on_shared_page_def Let_def
    by (auto simp: frame_simps split: option.splits if_splits apply_decision.splits)
  then show ?thesis
  proof
    assume "kept c c' \<and> (\<forall>q. outcome \<noteq> Applied q)"
    then show ?thesis by (auto simp: kept_def same_pause_def)
  next
    assume "\<exists>is_self q. decision = Apply_Playback is_self q \<and> apply_accepted_playback norm_url is_self p now c1 = (c', outcome)"
    then obtain is_self q where "decision = Apply_Playback is_self q"
      "apply_accepted_playback norm_url is_self p now c1 = (c', outcome)" by blast
    then show ?thesis using accepted_playback [of norm_url is_self p now c1 c' outcome] c1
      by (auto simp: kept_def same_pause_def)
  qed
qed

text \<open>
  One room state on a page that follows the share \<open>url\<close>, with the share unchanged: the versions
  only move forward, and what is applied is newer than what was.
\<close>

definition same_share :: "(string \<Rightarrow> string option) \<Rightarrow> string \<Rightarrow> room_state \<Rightarrow> bool" where
  "same_share norm_url url state =
     (rs_playback state \<noteq> None \<and> norm_opt norm_url (map_option sv_url (rs_shared_video state)) = Some url)"

definition versions_advance :: "content \<Rightarrow> content \<Rightarrow> bool" where
  "versions_advance c c' =
     (\<forall>a v. applied_versions c a = Some v \<longrightarrow>
        (\<exists>v'. applied_versions c' a = Some v' \<and> (v' = v \<or> version_less v v')))"

definition newer_than_applied :: "content \<Rightarrow> playback_state \<Rightarrow> bool" where
  "newer_than_applied c p = (\<forall>v. applied_versions c (pb_actor_id p) = Some v \<longrightarrow> version_less v (version_of p))"

definition in_version_order :: "playback_state \<Rightarrow> playback_state \<Rightarrow> bool" where
  "in_version_order p q = (pb_actor_id p = pb_actor_id q \<longrightarrow> version_less (version_of p) (version_of q))"

definition newly_applied :: "content \<Rightarrow> content \<Rightarrow> playback_state \<Rightarrow> bool" where
  "newly_applied c c' p = (newer_than_applied c p \<and> applied_versions c' (pb_actor_id p) = Some (version_of p))"

lemma versions_advance_refl [simp]: "applied_versions c' = applied_versions c \<Longrightarrow> versions_advance c c'"
  by (simp add: versions_advance_def)

lemma versions_advance_trans: "versions_advance a b \<Longrightarrow> versions_advance b c \<Longrightarrow> versions_advance a c"
  unfolding versions_advance_def by (fast intro: version_less_trans)

lemma dropped_pause_keeps:
  "active_shared_url (drop_superseded_pause norm_url state c) = active_shared_url c
   \<and> applied_versions (drop_superseded_pause norm_url state c) = applied_versions c"
  by (simp add: drop_superseded_pause_def clear_deferred_remote_paused_def split: option.split)

lemma deferring_keeps:
  "defer_pause state now c = (c', outcome) \<Longrightarrow> active_shared_url c' = active_shared_url c
   \<and> applied_versions c' = applied_versions c \<and> (\<forall>q. outcome \<noteq> Applied q)"
  by (auto simp: defer_pause_def Let_def mark_initial_room_state_received_def split: option.splits if_splits)

lemma fresh_when_applied:
  assumes "is_apply (decide_playback_application (apply_input_of norm_url state now c))"
    and "rs_playback state = Some p" and "applied_versions c (pb_actor_id p) = Some v"
  shows "version_less v (version_of p)"
proof -
  obtain is_self q where "decide_playback_application (apply_input_of norm_url state now c) = Apply_Playback is_self q"
    using assms(1) by (cases "decide_playback_application (apply_input_of norm_url state now c)") auto
  from applied_is_fresh [OF this] show ?thesis using assms(2,3) by (auto simp: stale_iff)
qed

lemma never_empty:
  assumes "rs_playback state = Some p" and "norm_opt norm_url (map_option sv_url (rs_shared_video state)) = Some url"
  shows "decide_playback_application (apply_input_of norm_url state now c) \<noteq> Empty_Room accepted"
proof -
  obtain s where "rs_shared_video state = Some s"
    using assms(2) by (cases "rs_shared_video state") (auto simp: norm_opt_def)
  then show ?thesis using assms(1) by (simp add: decide_playback_application_def apply_input_of_def)
qed

lemma room_state_step:
  assumes "apply_room_state norm_url debounced state now c = (c', outcome)"
    and "same_share norm_url url state" and "active_shared_url c = Some url"
  shows "active_shared_url c' = Some url \<and> versions_advance c c'
    \<and> (\<forall>p. outcome = Applied p \<longrightarrow> rs_playback state = Some p \<and> newly_applied c c' p)"
proof -
  let ?decision = "decide_playback_application (apply_input_of norm_url state now c)"
  let ?by = "case rs_shared_video state of None \<Rightarrow> None | Some s \<Rightarrow> sv_shared_by_member_id s"
  obtain c1 where c1_def: "c1 = (if debounced then c else drop_superseded_pause norm_url state c)" by blast
  obtain c2 where c2_def: "c2 = lift_settle_anchor (Some url) c1" by blast
  obtain c3 where c3_def: "c3 = switch_active_shared_url_with_reset norm_url (Some url) ?by now c2" by blast
  obtain p where p: "rs_playback state = Some p" and url: "norm_opt norm_url (map_option sv_url (rs_shared_video state)) = Some url"
    using assms(2) by (auto simp: same_share_def)
  have c1: "active_shared_url c1 = Some url" "applied_versions c1 = applied_versions c"
    using assms(3) dropped_pause_keeps [of norm_url state c] by (auto simp: c1_def)
  have c2: "active_shared_url c2 = Some url" "applied_versions c2 = applied_versions c"
    using c1 kept_anchor [of c1 "Some url" c1] by (simp_all add: c2_def kept_def)
  have c3: "active_shared_url c3 = Some url" "applied_versions c3 = applied_versions c"
    using c2 kept_same_share [of c2 "Some url" c2 norm_url ?by now] by (simp_all add: c3_def kept_def)
  have unchanged: ?thesis if "kept d c'" "active_shared_url d = Some url" "applied_versions d = applied_versions c"
      "\<forall>q. outcome \<noteq> Applied q" for d
    using that by (simp add: kept_def)
  have body: "(if \<not> debounced \<and> waits_out_debounce state ?decision c1 then defer_pause state now c1
      else case ?decision of
        Empty_Room accepted \<Rightarrow> (empty_room_applied norm_url accepted now c2, Room_Emptied)
      | No_Current_Video \<Rightarrow> (unresolved_page_applied norm_url state (Some url) ?by now c2, Page_Unresolved)
      | Ignore_Non_Shared accepted pause \<Rightarrow> (not_shared_applied norm_url accepted pause (Some p) now c3, Not_Shared)
      | _ \<Rightarrow> apply_on_shared_page norm_url ?decision p now c3) = (c', outcome)"
    using assms(1) unfolding apply_room_state_def Let_def c1_def c2_def c3_def p url option.case
    by (cases ?decision) (simp_all only: apply_decision.case)
  show ?thesis
  proof (cases "\<not> debounced \<and> waits_out_debounce state ?decision c1")
    case True
    then have "defer_pause state now c1 = (c', outcome)" using body by simp
    then show ?thesis using deferring_keeps [of state now c1 c' outcome] c1 by simp
  next
    case False
    then have step: "(case ?decision of
        Empty_Room accepted \<Rightarrow> (empty_room_applied norm_url accepted now c2, Room_Emptied)
      | No_Current_Video \<Rightarrow> (unresolved_page_applied norm_url state (Some url) ?by now c2, Page_Unresolved)
      | Ignore_Non_Shared accepted pause \<Rightarrow> (not_shared_applied norm_url accepted pause (Some p) now c3, Not_Shared)
      | _ \<Rightarrow> apply_on_shared_page norm_url ?decision p now c3) = (c', outcome)"
      using body by (simp only: if_False)
    have shared: ?thesis if "apply_on_shared_page norm_url ?decision p now c3 = (c', outcome)"
      using shared_page_step [OF that] c3 p fresh_when_applied [of norm_url state now c p]
      by (simp add: versions_advance_def newly_applied_def newer_than_applied_def) auto
    show ?thesis
    proof (cases ?decision)
      case No_Current_Video
      then have "c' = unresolved_page_applied norm_url state (Some url) ?by now c2" "outcome = Page_Unresolved"
        using step by auto
      then show ?thesis using kept_unresolved [OF c2(1)] c2 by (intro unchanged [of c2]) auto
    next
      case (Ignore_Non_Shared accepted pause)
      then have "c' = not_shared_applied norm_url accepted pause (Some p) now c3" "outcome = Not_Shared"
        using step by auto
      then show ?thesis using c3 by (intro unchanged [of c3]) (auto simp: frame_simps)
    qed (use step shared never_empty [OF p url, of now c] in auto)
  qed
qed

subsection \<open>Runs\<close>

datatype room_event = Room_State_Arrives room_state | Debounce_Ends

definition room_event_step ::
    "(string \<Rightarrow> string option) \<Rightarrow> room_event \<times> rat \<Rightarrow> content \<Rightarrow> content \<times> apply_outcome option" where
  "room_event_step norm_url = (\<lambda>(event, now) c.
     (case event of
        Room_State_Arrives state \<Rightarrow> (let (c', outcome) = receive_room_state norm_url state now c in (c', Some outcome))
      | Debounce_Ends \<Rightarrow> deferred_pause_fires norm_url now c))"

fun applied_by :: "apply_outcome option \<Rightarrow> playback_state list" where
  "applied_by (Some (Applied p)) = [p]"
| "applied_by _ = []"

fun room_event_run ::
    "(string \<Rightarrow> string option) \<Rightarrow> (room_event \<times> rat) list \<Rightarrow> content \<Rightarrow> content \<times> playback_state list" where
  "room_event_run norm_url [] c = (c, [])"
| "room_event_run norm_url (e # es) c =
     (let (c1, outcome) = room_event_step norm_url e c; (c2, later) = room_event_run norm_url es c1
      in (c2, applied_by outcome @ later))"

definition follows_share :: "(string \<Rightarrow> string option) \<Rightarrow> string \<Rightarrow> content \<Rightarrow> bool" where
  "follows_share norm_url url c =
     (active_shared_url c = Some url
      \<and> (case deferred_remote_paused_state c of None \<Rightarrow> True | Some d \<Rightarrow> same_share norm_url url d))"

fun event_of_share :: "(string \<Rightarrow> string option) \<Rightarrow> string \<Rightarrow> room_event \<Rightarrow> bool" where
  "event_of_share norm_url url (Room_State_Arrives state) = same_share norm_url url state"
| "event_of_share norm_url url Debounce_Ends = True"

text \<open>What a step does to the pause that is held back.\<close>

lemma pause_after_apply:
  assumes "apply_room_state norm_url debounced state now c = (c', outcome)"
  shows "same_pause (if debounced then c else drop_superseded_pause norm_url state c) c'
    \<or> (\<not> debounced \<and> deferred_remote_paused_state c' = Some state
       \<and> deferred_remote_paused_due c' = Some (now + remote_pause_debounce_ms) \<and> (\<forall>q. outcome \<noteq> Applied q)
       \<and> rs_playback state \<noteq> None)"
proof -
  let ?decision = "decide_playback_application (apply_input_of norm_url state now c)"
  let ?url = "norm_opt norm_url (map_option sv_url (rs_shared_video state))"
  let ?by = "case rs_shared_video state of None \<Rightarrow> None | Some s \<Rightarrow> sv_shared_by_member_id s"
  obtain c1 where c1_def: "c1 = (if debounced then c else drop_superseded_pause norm_url state c)" by blast
  obtain c2 where c2_def: "c2 = lift_settle_anchor ?url c1" by blast
  obtain c3 where c3_def: "c3 = switch_active_shared_url_with_reset norm_url ?url ?by now c2" by blast
  have c2: "same_pause c1 c2" unfolding c2_def by (intro kept_same_pause) (simp add: frame_simps)
  have c3: "same_pause c1 c3" unfolding c3_def using c2 same_pause_switch by (rule same_pause_trans)
  have body: "(if \<not> debounced \<and> waits_out_debounce state ?decision c1 then defer_pause state now c1
      else case ?decision of
        Empty_Room accepted \<Rightarrow> (empty_room_applied norm_url accepted now c2, Room_Emptied)
      | No_Current_Video \<Rightarrow> (unresolved_page_applied norm_url state ?url ?by now c2, Page_Unresolved)
      | Ignore_Non_Shared accepted pause \<Rightarrow> (not_shared_applied norm_url accepted pause (rs_playback state) now c3, Not_Shared)
      | _ \<Rightarrow> (case rs_playback state of None \<Rightarrow> (c3, Room_Emptied)
          | Some p \<Rightarrow> apply_on_shared_page norm_url ?decision p now c3)) = (c', outcome)"
    using assms unfolding apply_room_state_def Let_def c1_def c2_def c3_def
    by (cases ?decision) (simp_all only: apply_decision.case)
  have shared: "same_pause c1 c'" if "apply_on_shared_page norm_url ?decision p now c3 = (c', outcome)" for p
    using shared_page_step [OF that] c3 same_pause_trans by blast
  show ?thesis
  proof (cases "\<not> debounced \<and> waits_out_debounce state ?decision c1")
    case True
    then have "defer_pause state now c1 = (c', outcome)" "rs_playback state \<noteq> None"
      using body by (auto simp: waits_out_debounce_def split: option.splits)
    then show ?thesis using True
      by (auto simp: defer_pause_def Let_def mark_initial_room_state_received_def c1_def same_pause_def
          split: option.splits if_splits)
  next
    case False
    have "same_pause c1 c'"
      using body False c2 c3 shared same_pause_trans [OF c2 same_pause_empty] same_pause_trans [OF c2 same_pause_unresolved]
        same_pause_trans [OF c3 kept_same_pause [of c3 "not_shared_applied norm_url accepted pause (rs_playback state) now c3" for accepted pause]]
      by (cases ?decision) (auto simp: frame_simps split: option.splits)
    then show ?thesis by (simp add: c1_def)
  qed
qed

lemma dropped_pause:
  "deferred_remote_paused_state (drop_superseded_pause norm_url state c) = None
   \<or> drop_superseded_pause norm_url state c = c"
  by (simp add: drop_superseded_pause_def clear_deferred_remote_paused_def split: option.split)

lemma kept_versions_advance: "kept c d \<Longrightarrow> versions_advance d e \<Longrightarrow> versions_advance c e"
  by (simp add: kept_def versions_advance_def)

lemma kept_newly_applied: "kept c d \<Longrightarrow> newly_applied d e p \<Longrightarrow> newly_applied c e p"
  by (simp add: kept_def newly_applied_def newer_than_applied_def)

lemma fired_pause:
  assumes "deferred_pause_fires norm_url now c = (c', outcome)"
  shows "(outcome = None \<and> (c' = c \<or> c' = clear_deferred_remote_paused c))
    \<or> (\<exists>pending due o'. deferred_remote_paused_state c = Some pending \<and> deferred_remote_paused_due c = Some due
         \<and> due \<le> now \<and> outcome = Some o' \<and> apply_room_state norm_url True pending now (clear_deferred_remote_paused c) = (c', o'))"
  using assms by (auto simp: deferred_pause_fires_def Let_def split: option.splits if_splits prod.splits)

lemma event_step:
  assumes "room_event_step norm_url (event, now) c = (c', outcome)"
    and "follows_share norm_url url c" and "event_of_share norm_url url event"
  shows "follows_share norm_url url c' \<and> versions_advance c c' \<and> (\<forall>p \<in> set (applied_by outcome). newly_applied c c' p)"
proof (cases event)
  case (Room_State_Arrives state)
  obtain d where d_def: "d = record_room_confirmed_broadcast norm_url state now c" by blast
  have d: "kept c d" unfolding d_def by (simp add: frame_simps)
  obtain o' where step: "apply_room_state norm_url False state now d = (c', o')" "outcome = Some o'"
    using assms(1) Room_State_Arrives by (auto simp: room_event_step_def receive_room_state_def d_def split: prod.splits)
  have share: "same_share norm_url url state" using assms(3) Room_State_Arrives by simp
  have "active_shared_url d = Some url" using assms(2) d by (simp add: follows_share_def kept_def)
  note applied = room_state_step [OF step(1) share this]
  have "case deferred_remote_paused_state c' of None \<Rightarrow> True | Some x \<Rightarrow> same_share norm_url url x"
    using pause_after_apply [OF step(1)] dropped_pause [of norm_url state d] share assms(2) d
    by (auto simp: same_pause_def follows_share_def kept_def split: option.splits)
  then have "follows_share norm_url url c'" using applied by (simp add: follows_share_def)
  moreover have "versions_advance c c'" using applied d by (blast intro: kept_versions_advance)
  moreover have "\<forall>p \<in> set (applied_by outcome). newly_applied c c' p"
    using applied kept_newly_applied [OF d] step(2) by (cases o') auto
  ultimately show ?thesis by blast
next
  case Debounce_Ends
  have fires: "deferred_pause_fires norm_url now c = (c', outcome)"
    using assms(1) Debounce_Ends by (simp add: room_event_step_def)
  from fired_pause [OF this] show ?thesis
  proof
    assume "outcome = None \<and> (c' = c \<or> c' = clear_deferred_remote_paused c)"
    then show ?thesis using assms(2) by (auto simp: follows_share_def clear_deferred_remote_paused_def)
  next
    assume "\<exists>pending due o'. deferred_remote_paused_state c = Some pending \<and> deferred_remote_paused_due c = Some due
         \<and> due \<le> now \<and> outcome = Some o' \<and> apply_room_state norm_url True pending now (clear_deferred_remote_paused c) = (c', o')"
    then obtain pending o' where pending: "deferred_remote_paused_state c = Some pending" "outcome = Some o'"
      "apply_room_state norm_url True pending now (clear_deferred_remote_paused c) = (c', o')" by blast
    have share: "same_share norm_url url pending" "active_shared_url (clear_deferred_remote_paused c) = Some url"
      using assms(2) pending(1) by (simp_all add: follows_share_def clear_deferred_remote_paused_def)
    note applied = room_state_step [OF pending(3) share]
    have "deferred_remote_paused_state c' = None"
      using pause_after_apply [OF pending(3)] by (simp add: same_pause_def clear_deferred_remote_paused_def)
    then have "follows_share norm_url url c'" using applied by (simp add: follows_share_def)
    moreover have "versions_advance c c'" using applied by (simp add: versions_advance_def clear_deferred_remote_paused_def)
    moreover have "\<forall>p \<in> set (applied_by outcome). newly_applied c c' p"
      using applied pending(2) by (cases o') (auto simp: newly_applied_def newer_than_applied_def clear_deferred_remote_paused_def)
    ultimately show ?thesis by blast
  qed
qed


definition shared_bv :: shared_video where
  "shared_bv = \<lparr> sv_video_id = ''BV1'', sv_url = ''BV1'', sv_title = [], sv_shared_by_member_id = None,
     sv_shared_by_display_name = None \<rparr>"

definition snapshot_at :: "rat \<Rightarrow> rat \<Rightarrow> play_state \<Rightarrow> rat \<Rightarrow> playback_state" where
  "snapshot_at server_time sequence play_state position =
     \<lparr> pb_url = ''BV1'', pb_current_time = position, pb_play_state = play_state, pb_sync_intent = None,
       pb_user_initiated = None, pb_natural_end = None, pb_playback_rate = 1, pb_updated_at = 0,
       pb_server_time = server_time, pb_actor_id = ''alice'', pb_seq = sequence \<rparr>"

definition state_with :: "playback_state \<Rightarrow> room_state" where
  "state_with p = \<lparr> rs_room_code = ''ABC234'', rs_shared_video = Some shared_bv, rs_playback = Some p, rs_members = [] \<rparr>"

definition following_page :: content where
  "following_page = initial_content\<lparr> local_member_id := Some ''bob'', active_room_code := Some ''ABC234'',
     active_shared_url := Some ''BV1'', page_video := Some shared_bv, hydration_ready := True,
     pending_room_state_hydration := False, has_received_initial_room_state := True,
     the_video := Some \<lparr> vd_id = 1, vd_paused = False, vd_current_time = 100, vd_playback_rate = 1,
       vd_default_playback_rate = 1, vd_ready_state = 4, vd_has_duration = True, vd_may_play = True \<rparr> \<rparr>"

text \<open>Evaluation of one room state on a concrete page.\<close>

lemmas apply_eval = receive_room_state_def record_room_confirmed_broadcast_def apply_room_state_def apply_input_of_def
  decide_playback_application_def drop_superseded_pause_def waits_out_debounce_def lift_settle_anchor_def switch_active_shared_url_with_reset_def
  apply_on_shared_page_def get_pending_local_override_decision_def apply_accepted_playback_def should_cancel_active_soft_apply_for_playback_def
  should_ignore_remote_playback_apply_def should_suppress_by_cooldown_def hand_to_player_def remember_remote_for_suppression_def remember_remote_playback_def
  remember_remote_follow_playing_window_def intend_def can_apply_playback_immediately_def apply_pending_playback_application_def sync_playback_position_def
  decide_playback_reconcile_mode_def on_playback_adjusted_def accept_initial_room_state_hydration_def cancel_active_soft_apply_def clear_soft_apply_cooldown_def
  arm_programmatic_apply_window_def set_play_state_def rates_differ_def norm_opt_def own_playback_def stale_playback_def create_programmatic_playback_signature_def
  is_active_rate_only_catch_up_def has_active_correction_session_def get_active_correction_base_rate_def matches_active_session_def should_treat_as_explicit_seek_def
  get_adaptive_playing_thresholds_def get_playback_rate_multiplier_def reconcile_thresholds content_windows write_rate_if_def play_video_def norm_or_def version_of_def

lemmas page_eval = following_page_def initial_content_def state_with_def shared_bv_def snapshot_at_def

definition late_and_repeated :: "(room_event \<times> rat) list" where
  "late_and_repeated =
     [(Room_State_Arrives (state_with (snapshot_at 5 2 Playing 200)), 1000),
      (Room_State_Arrives (state_with (snapshot_at 5 1 Playing 300)), 1100),
      (Room_State_Arrives (state_with (snapshot_at 6 3 Playing 150)), 1200),
      (Room_State_Arrives (state_with (snapshot_at 6 3 Playing 150)), 1700)]"


subsection \<open>Pauses that are held back\<close>

fun nothing_newer :: "room_state \<Rightarrow> room_event \<Rightarrow> bool" where
  "nothing_newer held (Room_State_Arrives state) =
     (case (rs_playback held, rs_playback state) of
        (Some p, Some q) \<Rightarrow> \<not> version_less (version_of p) (version_of q)
      | _ \<Rightarrow> False)"
| "nothing_newer held Debounce_Ends = True"

definition held_since :: "(room_event \<times> rat) list \<Rightarrow> room_state \<Rightarrow> rat \<Rightarrow> bool" where
  "held_since es held due =
     (rs_playback held \<noteq> None
      \<and> (\<exists>xs t ys. es = xs @ (Room_State_Arrives held, t) # ys \<and> due = t + remote_pause_debounce_ms
           \<and> list_all (nothing_newer held \<circ> fst) ys))"

lemma held_since_snoc: "held_since es held due \<Longrightarrow> nothing_newer held (fst e) \<Longrightarrow> held_since (es @ [e]) held due"
  unfolding held_since_def by force

lemma held_since_now: "rs_playback held \<noteq> None \<Longrightarrow> held_since (es @ [(Room_State_Arrives held, now)]) held (now + remote_pause_debounce_ms)"
  unfolding held_since_def by force

definition holds_back :: "(room_event \<times> rat) list \<Rightarrow> content \<Rightarrow> bool" where
  "holds_back es c =
     (case deferred_remote_paused_state c of
        None \<Rightarrow> True
      | Some held \<Rightarrow> (case deferred_remote_paused_due c of None \<Rightarrow> False | Some due \<Rightarrow> held_since es held due))"

lemma holds_back_same: "same_pause c c' \<Longrightarrow> holds_back es c' = holds_back es c"
  unfolding same_pause_def holds_back_def by (elim conjE) (simp only:)

lemma run_snoc:
  "fst (room_event_run norm_url (es @ [e]) c) = fst (room_event_step norm_url e (fst (room_event_run norm_url es c)))"
  by (induction es arbitrary: c) (simp_all add: Let_def case_prod_beta)

lemma pause_survives:
  "deferred_remote_paused_state (drop_superseded_pause norm_url state c) = None
   \<or> (drop_superseded_pause norm_url state c = c
      \<and> (\<forall>held. deferred_remote_paused_state c = Some held \<and> rs_playback held \<noteq> None
            \<longrightarrow> nothing_newer held (Room_State_Arrives state)))"
  by (auto simp: drop_superseded_pause_def clear_deferred_remote_paused_def split: option.split)

lemma superseded_pause:
  assumes "holds_back es c"
  shows "holds_back (es @ [(Room_State_Arrives state, now)]) (drop_superseded_pause norm_url state c)"
proof -
  have "rs_playback held \<noteq> None" if "deferred_remote_paused_state c = Some held" for held
    using assms that by (auto simp: holds_back_def held_since_def split: option.splits)
  then show ?thesis
    using pause_survives [of norm_url state c] assms held_since_snoc [of es _ _ "(Room_State_Arrives state, now)"]
    by (auto simp: holds_back_def split: option.splits)
qed

lemma holds_back_step:
  assumes "holds_back es c"
  shows "holds_back (es @ [e]) (fst (room_event_step norm_url e c))"
proof -
  obtain event now where e: "e = (event, now)" by fastforce
  show ?thesis
  proof (cases event)
    case (Room_State_Arrives state)
    obtain d where d_def: "d = record_room_confirmed_broadcast norm_url state now c" by blast
    have "kept c d" unfolding d_def by (simp add: frame_simps)
    then have "holds_back es d" using assms holds_back_same [OF kept_same_pause] by blast
    obtain c' o' where step: "apply_room_state norm_url False state now d = (c', o')" by fastforce
    have "fst (room_event_step norm_url e c) = c'"
      using step by (simp add: e Room_State_Arrives room_event_step_def receive_room_state_def d_def)
    moreover have "holds_back (es @ [(Room_State_Arrives state, now)]) c'"
      using pause_after_apply [OF step] holds_back_same [of "drop_superseded_pause norm_url state d" c']
        superseded_pause [OF \<open>holds_back es d\<close>, of state now norm_url] held_since_now [of state es now]
      by (auto simp: holds_back_def)
    ultimately show ?thesis by (simp add: e Room_State_Arrives)
  next
    case Debounce_Ends
    obtain c' outcome where fires: "deferred_pause_fires norm_url now c = (c', outcome)" by fastforce
    have "deferred_remote_paused_state c' = None \<or> c' = c"
      using fired_pause [OF fires]
    proof
      assume "\<exists>pending due o'. deferred_remote_paused_state c = Some pending \<and> deferred_remote_paused_due c = Some due
         \<and> due \<le> now \<and> outcome = Some o' \<and> apply_room_state norm_url True pending now (clear_deferred_remote_paused c) = (c', o')"
      then obtain pending o' where "apply_room_state norm_url True pending now (clear_deferred_remote_paused c) = (c', o')" by blast
      from pause_after_apply [OF this] show ?thesis by (simp add: same_pause_def clear_deferred_remote_paused_def)
    qed (auto simp: clear_deferred_remote_paused_def)
    moreover have "holds_back (es @ [e]) c"
      using assms held_since_snoc [of es _ _ e] by (auto simp: e Debounce_Ends holds_back_def split: option.splits)
    moreover have "fst (room_event_step norm_url e c) = c'" using fires by (simp add: e Debounce_Ends room_event_step_def)
    moreover have "holds_back (es @ [e]) c'" if "deferred_remote_paused_state c' = None" using that by (simp add: holds_back_def)
    ultimately show ?thesis by metis
  qed
qed

lemma holds_back_run:
  assumes "deferred_remote_paused_state c = None"
  shows "holds_back es (fst (room_event_run norm_url es c))"
proof (induction es rule: rev_induct)
  case Nil
  then show ?case using assms by (simp add: holds_back_def)
next
  case (snoc e es)
  then show ?case unfolding run_snoc by (rule holds_back_step)
qed

text \<open>
  A remote pause that was held back takes effect only if it is still the newest word: what
  the debounce hands over when it ends arrived at least 250 ms before, the room was not emptied
  since, and no state that arrived after it is newer, whoever sent it.
\<close>

theorem held_back_pause_is_the_newest:
  assumes "deferred_remote_paused_state c = None"
    and "snd (room_event_step norm_url (Debounce_Ends, now) (fst (room_event_run norm_url es c))) = Some outcome"
  shows "\<exists>held due. held_since es held due \<and> due \<le> now
    \<and> apply_room_state norm_url True held now (clear_deferred_remote_paused (fst (room_event_run norm_url es c)))
      = (fst (room_event_step norm_url (Debounce_Ends, now) (fst (room_event_run norm_url es c))), outcome)"
proof -
  let ?c = "fst (room_event_run norm_url es c)"
  obtain c' where fires: "deferred_pause_fires norm_url now ?c = (c', Some outcome)"
    using assms(2) by (auto simp: room_event_step_def) (metis prod.collapse)
  obtain held due where held: "deferred_remote_paused_state ?c = Some held" "deferred_remote_paused_due ?c = Some due"
    "due \<le> now" "apply_room_state norm_url True held now (clear_deferred_remote_paused ?c) = (c', outcome)"
    using fired_pause [OF fires] by auto
  have "held_since es held due"
    using holds_back_run [OF assms(1), of es norm_url] held(1,2) by (simp add: holds_back_def)
  then show ?thesis using held(3,4) fires by (auto simp: room_event_step_def)
qed

theorem held_back_pause_is_the_newest_witness:
  "\<exists>held due. held_since [(Room_State_Arrives (state_with (snapshot_at 6 3 Paused 101)), 1000)] held due \<and> due \<le> 1300"
proof -
  let ?es = "[(Room_State_Arrives (state_with (snapshot_at 6 3 Paused 101)), 1000)]"
  have none: "deferred_remote_paused_state following_page = None" by (simp add: page_eval)
  have "snd (room_event_step Some (Debounce_Ends, 1300) (fst (room_event_run Some ?es following_page)))
      = Some (Applied (snapshot_at 6 3 Paused 101))"
    by (simp add: room_event_step_def deferred_pause_fires_def defer_pause_def mark_initial_room_state_received_def
        from_other_member_def clear_deferred_remote_paused_def activate_pause_hold_def clear_remote_follow_playing_window_def
        apply_eval page_eval Let_def)
  from held_back_pause_is_the_newest [OF none this] show ?thesis by blast
qed

end
