(* ===== verification/Page_Identity.thy ===== *)
theory Page_Identity
  imports Player_Binding Video_Ref
begin

text \<open>
  What the content script knows about the page besides the player: which addresses name a video
  for good and which do not (\<open>content/video-identity.ts\<close>), the cache around the normalized address
  (\<open>shared/url.ts\<close>), and what the user does (\<open>content/gesture-tracker.ts\<close>, \<open>content/index.ts\<close>).
\<close>

subsection \<open>Addresses\<close>

definition pathname_of :: "url_parser \<Rightarrow> string \<Rightarrow> string option" where
  "pathname_of parse_url url = map_option pathname (parse_url url)"

definition is_address_bar_opaque_video_url :: "url_parser \<Rightarrow> string option \<Rightarrow> bool" where
  "is_address_bar_opaque_video_url parse_url url =
     (case url of
        None \<Rightarrow> False
      | Some s \<Rightarrow>
          if s = [] then False
          else (case pathname_of parse_url s of
                  None \<Rightarrow> False | Some path \<Rightarrow> strip_prefix ''/festival/'' path \<noteq> None))"

definition is_unstable_shared_video_url :: "url_parser \<Rightarrow> string option \<Rightarrow> bool" where
  "is_unstable_shared_video_url parse_url url =
     (case url of
        None \<Rightarrow> False
      | Some s \<Rightarrow>
          if s = [] then False
          else (case pathname_of parse_url s of
                  None \<Rightarrow> False
                | Some path \<Rightarrow>
                    strip_prefix ''/festival/'' path \<noteq> None
                    \<or> (case strip_prefix ''/bangumi/play/ss'' (map to_lower (strip_trailing_slashes path)) of
                         None \<Rightarrow> False | Some digits \<Rightarrow> all_digits digits)))"

definition read_address_bar_episode_id :: "string \<Rightarrow> string option" where
  "read_address_bar_episode_id path =
     (case strip_prefix ''/bangumi/play/ep'' (map to_lower (strip_trailing_slashes path)) of
        None \<Rightarrow> None
      | Some digits \<Rightarrow> if all_digits digits then Some (''ep'' @ digits) else None)"

definition lacks_address_bar_episode_confirmation :: "string \<Rightarrow> string option \<Rightarrow> bool" where
  "lacks_address_bar_episode_confirmation path episode_id =
     (case read_address_bar_episode_id path of
        None \<Rightarrow> False
      | Some episode \<Rightarrow> map_option (map to_lower) episode_id \<noteq> Some episode)"

definition contradicts_address_bar_episode :: "string \<Rightarrow> string option \<Rightarrow> bool" where
  "contradicts_address_bar_episode path episode_id =
     (truthy episode_id \<and> lacks_address_bar_episode_confirmation path episode_id)"

text \<open>A contradiction is proof, the lack of a confirmation only doubt.\<close>

lemma contradiction_is_stronger:
  "contradicts_address_bar_episode path episode_id \<Longrightarrow> lacks_address_bar_episode_confirmation path episode_id"
  by (simp add: contradicts_address_bar_episode_def)

subsection \<open>The cache of normalized addresses\<close>

text \<open>A \<open>Map\<close> from address to result, in insertion order: a hit moves to the end, the first one makes room.\<close>

type_synonym normalize_cache = "(string \<times> string option) list"

definition normalize_cache_capacity :: nat where "normalize_cache_capacity = 16"

definition normalize_shared_video_url ::
    "url_parser \<Rightarrow> string option \<Rightarrow> normalize_cache \<Rightarrow> string option \<times> normalize_cache" where
  "normalize_shared_video_url parse_url url cache =
     (case url of
        None \<Rightarrow> (None, cache)
      | Some s \<Rightarrow>
          if s = [] then (None, cache)
          else (case map_of cache s of
                  Some cached \<Rightarrow> (cached, AList.delete s cache @ [(s, cached)])
                | None \<Rightarrow>
                    let result = normalize_bilibili_url parse_url (Some s);
                        kept = (if normalize_cache_capacity \<le> length cache then tl cache else cache)
                    in (result, kept @ [(s, result)])))"

definition are_shared_video_urls_equal ::
    "url_parser \<Rightarrow> string option \<Rightarrow> string option \<Rightarrow> normalize_cache \<Rightarrow> bool \<times> normalize_cache" where
  "are_shared_video_urls_equal parse_url left right cache =
     (let (l, cache1) = normalize_shared_video_url parse_url left cache;
          (r, cache2) = normalize_shared_video_url parse_url right cache1
      in (l \<noteq> None \<and> l = r, cache2))"

definition normalize_all :: "url_parser \<Rightarrow> string option list \<Rightarrow> normalize_cache \<Rightarrow> string option list \<times> normalize_cache" where
  "normalize_all parse_url urls cache = fold (\<lambda>url (results, cache).
     let (r, cache') = normalize_shared_video_url parse_url url cache in (results @ [r], cache')) urls ([], cache)"

definition sound_cache :: "url_parser \<Rightarrow> normalize_cache \<Rightarrow> bool" where
  "sound_cache parse_url cache =
     (distinct (map fst cache) \<and> length cache \<le> normalize_cache_capacity
      \<and> list_all (\<lambda>(s, r). r = normalize_bilibili_url parse_url (Some s)) cache)"

lemma normalize_empty: "normalize_bilibili_url parse_url (Some []) = None"
  by (simp add: normalize_bilibili_url_def parse_bilibili_video_ref_def)

lemma normalize_none: "normalize_bilibili_url parse_url None = None"
  by (simp add: normalize_bilibili_url_def parse_bilibili_video_ref_def)

lemma cached_normalization:
  assumes "sound_cache parse_url cache"
  shows "fst (normalize_shared_video_url parse_url url cache) = normalize_bilibili_url parse_url url
    \<and> sound_cache parse_url (snd (normalize_shared_video_url parse_url url cache))"
proof (cases url)
  case None
  then show ?thesis using assms by (simp add: normalize_shared_video_url_def normalize_none)
next
  case (Some s)
  show ?thesis
  proof (cases "s = []")
    case True
    then show ?thesis using assms Some by (simp add: normalize_shared_video_url_def normalize_empty)
  next
    case nonempty: False
    show ?thesis
    proof (cases "map_of cache s")
      case None
      have fresh: "s \<notin> fst ` set cache" using None by (simp add: map_of_eq_None_iff)
      have tails: "set (tl cache) \<subseteq> set cache" by (cases cache) auto
      let ?kept = "if normalize_cache_capacity \<le> length cache then tl cache else cache"
      have "set ?kept \<subseteq> set cache" using tails by simp
      moreover have "distinct (map fst ?kept)" using assms by (auto simp: sound_cache_def map_tl distinct_tl)
      moreover have "length ?kept < normalize_cache_capacity"
        using assms by (auto simp: sound_cache_def normalize_cache_capacity_def)
      ultimately show ?thesis
        using assms fresh Some nonempty None
        by (auto simp: normalize_shared_video_url_def Let_def sound_cache_def list_all_iff)
    next
      case (Some cached)
      have "(s, cached) \<in> set cache" using Some by (rule map_of_SomeD)
      then have hit: "cached = normalize_bilibili_url parse_url (Some s)" and member: "s \<in> set (map fst cache)"
        using assms by (auto simp: sound_cache_def list_all_iff image_iff intro: rev_bexI)
      have "length (removeAll s (map fst cache)) < length (map fst cache)"
        using member by (rule length_removeAll_less)
      then have len: "length (AList.delete s cache) < length cache"
        by (simp flip: delete_keys)
      show ?thesis
        using assms \<open>url = Some s\<close> nonempty Some hit len
        by (auto simp: normalize_shared_video_url_def sound_cache_def list_all_iff AList.delete_eq distinct_map_filter)
    qed
  qed
qed

text \<open>
  The cache is invisible: however many addresses are normalized, in whatever order and however
  often, every answer is that of the normalization itself, and the cache never holds more than
  sixteen.
\<close>

theorem cache_is_transparent:
  "fst (normalize_all parse_url urls []) = map (normalize_bilibili_url parse_url) urls
    \<and> length (snd (normalize_all parse_url urls [])) \<le> 16"
proof -
  have "fst (fold (\<lambda>url (results, cache).
          let (r, cache') = normalize_shared_video_url parse_url url cache in (results @ [r], cache')) urls (out, cache))
      = out @ map (normalize_bilibili_url parse_url) urls
    \<and> sound_cache parse_url (snd (fold (\<lambda>url (results, cache).
          let (r, cache') = normalize_shared_video_url parse_url url cache in (results @ [r], cache')) urls (out, cache)))"
    if "sound_cache parse_url cache" for out cache
    using that
  proof (induction urls arbitrary: out cache)
    case (Cons url urls)
    then show ?case
      using cached_normalization [OF Cons.prems, of url] by (auto simp: Let_def split: prod.split)
  qed simp
  from this [of "[]" "[]"] show ?thesis
    by (simp add: normalize_all_def sound_cache_def normalize_cache_capacity_def)
qed

subsection \<open>Gestures\<close>

text \<open>What the listeners read of an input event and its target.\<close>

datatype input_kind = Pointerdown | Mousedown | Mouse_Click | Touchstart | Keydown | Popstate

record input_event =
  ie_kind :: input_kind
  ie_on_element :: bool
  ie_editable :: bool
  ie_in_player :: bool
  ie_key :: string
  ie_code :: string
  ie_shift :: bool
  ie_repeat :: bool

definition play_toggle_keys :: "string list" where
  "play_toggle_keys = ['' '', ''Spacebar'', ''k'', ''K'']"

definition is_rate_control_gesture :: "input_event \<Rightarrow> bool" where
  "is_rate_control_gesture e =
     (if ie_kind e \<noteq> Keydown \<or> (ie_on_element e \<and> ie_editable e) then False
      else ie_shift e \<and> (ie_code e = ''Digit1'' \<or> ie_code e = ''Digit2''))"

definition is_gesture_inside_player :: "input_event \<Rightarrow> bool" where
  "is_gesture_inside_player e =
     (if \<not> ie_on_element e \<or> ie_editable e then False
      else if ie_kind e = Keydown then \<not> ie_repeat e \<and> ie_key e \<in> set play_toggle_keys
      else ie_in_player e)"

definition gesture_of :: "input_event \<Rightarrow> bool \<times> bool" where
  "gesture_of e =
     (if ie_kind e = Popstate then (False, False)
      else (is_gesture_inside_player e, is_rate_control_gesture e))"

text \<open>What \<open>index.ts\<close> does with a gesture.\<close>

definition on_gesture :: "input_event \<Rightarrow> rat \<Rightarrow> content \<Rightarrow> content" where
  "on_gesture e now c =
     (let (inside_player, rate_control) = gesture_of e;
          c1 = c\<lparr> last_user_gesture_at := Some now \<rparr>;
          c2 = (if inside_player then c1\<lparr> last_user_gesture_in_player_at := Some now \<rparr> else c1)
      in if rate_control then c2\<lparr> last_rate_control_gesture_at := Some now \<rparr> else c2)"

definition recent_at :: "rat \<Rightarrow> rat option \<Rightarrow> bool" where
  "recent_at now gesture_at = (\<not> since_gesture now gesture_at user_gesture_grace_ms)"

definition gesture_after :: "rat \<Rightarrow> rat option \<Rightarrow> bool" where
  "gesture_after t gesture_at = (case gesture_at of None \<Rightarrow> False | Some g \<Rightarrow> t < g)"

end
