(* ===== verification/Sync_Broadcast.thy ===== *)
theory Sync_Broadcast
  imports Room_State_Apply
begin

text \<open>
  From the player to the room: \<open>broadcastPlayback\<close> of \<open>sync-controller.ts\<close>. A broadcast has two
  suspensions, so it is three functions: the gate before the page's video is looked up, the body
  that runs when it is known (\<open>broadcast_resume\<close>) and the acknowledgement. The body either sends a
  \<open>playback:update\<close>, ends at one of its guards, or ends at the hold of a remote stop, whose queued
  pause is \<open>remote_stop_hold_fires\<close>. Traces and the log are left out.
\<close>

subsection \<open>What is reported\<close>

definition get_broadcast_play_state :: "video \<Rightarrow> event_source \<Rightarrow> rat \<Rightarrow> content \<Rightarrow> play_state" where
  "get_broadcast_play_state v event now c =
     (let has_recent_explicit_seek = (case last_explicit_user_action c of
            None \<Rightarrow> False
          | Some a \<Rightarrow> ea_kind a = Act_Seek \<and> last_forced_pause_at c < ea_at a \<and> programmatic_apply_at c \<le> ea_at a
              \<and> now - ea_at a < user_gesture_grace_ms);
          seek_origin = (if has_recent_explicit_seek then explicit_seek_origin_play_state c else None)
      in if has_recent_explicit_seek \<and> seek_origin \<noteq> Some Paused \<and> (event = On_Seeking \<or> event = On_Seeked) then Playing
         else if has_recent_explicit_seek \<and> seek_origin \<noteq> Some Buffering \<and> intended_play_state c = Playing
           \<and> (event = On_Pause \<or> event = On_Waiting \<or> event = On_Stalled) then Playing
         else reported_play_state v now c)"

definition should_suppress_unexpected_playback_rate_broadcast :: "rat \<Rightarrow> event_source \<Rightarrow> rat \<Rightarrow> content \<Rightarrow> bool" where
  "should_suppress_unexpected_playback_rate_broadcast playback_rate event now c =
     (let action = last_explicit_user_action c;
          recent_action = (case action of None \<Rightarrow> False | Some a \<Rightarrow> now - ea_at a < user_gesture_grace_ms)
      in if recently (Some Act_Ratechange) action now
           \<or> (recent_action \<and> (event = On_Play \<or> event = On_Playing \<or> event = On_Ratechange)) then False
         else \<not> \<bar>playback_rate - intended_playback_rate c\<bar> \<le> 1 / 100)"

subsection \<open>The guards that keep a window of the state\<close>

definition sharer_ended_gate :: "string option \<Rightarrow> rat \<Rightarrow> content \<Rightarrow> bool \<times> content" where
  "sharer_ended_gate current_url now c =
     (if \<not> truthy (sharer_ended_suppression_url c) then (False, c)
      else
        let expired = (sharer_ended_suppression_until c \<le> now);
            moved_on = (current_url \<noteq> sharer_ended_suppression_url c);
            user_replayed = (case last_user_gesture_at c of None \<Rightarrow> False
              | Some t \<Rightarrow> now - t < user_gesture_grace_ms \<and> sharer_ended_suppression_armed_at c < t);
            ownership_lost = (\<not> truthy (local_member_id c) \<or> active_shared_by_member_id c \<noteq> local_member_id c)
        in if \<not> expired \<and> \<not> moved_on \<and> \<not> user_replayed \<and> \<not> ownership_lost then (True, c)
           else (False, c\<lparr> sharer_ended_suppression_url := None, sharer_ended_suppression_until := 0,
                           sharer_ended_suppression_armed_at := 0 \<rparr>))"

definition clear_settle_anchor :: "content \<Rightarrow> content" where
  "clear_settle_anchor c = c\<lparr> post_navigation_anchor_shared_url := None, post_navigation_anchor_set_at := 0 \<rparr>"

definition settle_gate :: "bool \<Rightarrow> string option \<Rightarrow> rat \<Rightarrow> content \<Rightarrow> bool \<times> content" where
  "settle_gate confirmed current_url now c =
     (if \<not> truthy (post_navigation_anchor_shared_url c) \<or> confirmed then (False, c)
      else
        let anchor_age = (if 0 < post_navigation_anchor_set_at c then now - post_navigation_anchor_set_at c else 0)
        in if initial_room_state_pause_hold_ms \<le> anchor_age then (False, clear_settle_anchor c)
           else if current_url = None \<or> current_url = post_navigation_anchor_shared_url c then (True, c)
           else (False, clear_settle_anchor c))"

definition on_non_shared_page :: "string option \<Rightarrow> content \<Rightarrow> bool" where
  "on_non_shared_page current_url c =
     (truthy (active_room_code c) \<and> truthy (active_shared_url c) \<and> current_url \<noteq> active_shared_url c)"

definition note_non_shared_page :: "string option \<Rightarrow> content \<Rightarrow> content" where
  "note_non_shared_page current_url c =
     (if current_url \<noteq> last_non_shared_guard_url c \<and> current_url \<noteq> None
      then c\<lparr> last_non_shared_guard_url := current_url, last_explicit_playback_action := None \<rparr> else c)"

definition acted_after_forced_pause :: "rat \<Rightarrow> content \<Rightarrow> bool" where
  "acted_after_forced_pause now c =
     (case last_explicit_user_action c of
        None \<Rightarrow> False
      | Some a \<Rightarrow> last_forced_pause_at c < ea_at a \<and> now - ea_at a < user_gesture_grace_ms)"

definition end_pause_gate :: "event_source \<Rightarrow> play_state \<Rightarrow> string option \<Rightarrow> rat \<Rightarrow> content \<Rightarrow> bool \<times> content" where
  "end_pause_gate event play_state current_url now c =
     (if event = On_Pause \<and> play_state = Paused \<and> truthy (suppressed_local_end_pause_url c)
        \<and> now < suppressed_local_end_pause_until c \<and> current_url = suppressed_local_end_pause_url c
        \<and> \<not> acted_after_forced_pause now c then (True, c)
      else if truthy (suppressed_local_end_pause_url c) \<and> suppressed_local_end_pause_until c \<le> now
      then (False, c\<lparr> suppressed_local_end_pause_url := None, suppressed_local_end_pause_until := 0 \<rparr>)
      else (False, c))"

definition programmatic_gate ::
    "event_source \<Rightarrow> play_state \<Rightarrow> string option \<Rightarrow> video \<Rightarrow> rat \<Rightarrow> content \<Rightarrow> bool \<times> content" where
  "programmatic_gate event play_state current_url v now c =
     (let (suppress, next_until, next_signature) = should_suppress_programmatic_event
            \<lparr> pw_until = programmatic_apply_until c, pw_at = programmatic_apply_at c,
              pw_scope = programmatic_apply_scope c, pw_signature = programmatic_apply_signature c \<rparr>
            current_url play_state (vd_current_time v) (vd_playback_rate v) event (last_explicit_user_action c) now
      in (suppress, c\<lparr> programmatic_apply_until := next_until, programmatic_apply_signature := next_signature \<rparr>))"

definition followup_gate :: "event_source \<Rightarrow> play_state \<Rightarrow> string option \<Rightarrow> rat \<Rightarrow> content \<Rightarrow> bool \<times> content" where
  "followup_gate event play_state current_url now c =
     (let (suppress, next_until, next_url) = should_suppress_remote_followup_broadcast
            (remote_follow_playing_until c) (remote_follow_playing_url c) current_url play_state event
            (last_explicit_user_action c) now
      in (suppress, c\<lparr> remote_follow_playing_until := next_until, remote_follow_playing_url := next_url \<rparr>))"

definition echo_gate :: "play_state \<Rightarrow> string option \<Rightarrow> video \<Rightarrow> rat \<Rightarrow> content \<Rightarrow> bool \<times> content" where
  "echo_gate play_state current_url v now c =
     (let (suppress, next) = should_suppress_local_echo (suppressed_remote c) current_url play_state
            (vd_current_time v) (vd_playback_rate v) now
      in (suppress, if next = None then c\<lparr> suppressed_remote := None \<rparr> else c))"

definition transition_gate :: "play_state \<Rightarrow> string option \<Rightarrow> video \<Rightarrow> rat \<Rightarrow> content \<Rightarrow> bool \<times> content" where
  "transition_gate play_state current_url v now c =
     (let (suppress, next) = should_suppress_remote_play_transition (recent_remote_playing c) current_url play_state
            (vd_current_time v) (last_explicit_playback_action c) now
      in (suppress, c\<lparr> recent_remote_playing := next \<rparr>))"

definition duplicate_broadcast_time_epsilon_seconds :: rat where "duplicate_broadcast_time_epsilon_seconds = 5 / 100"

definition is_duplicate_broadcast ::
    "string option \<Rightarrow> play_state \<Rightarrow> sync_intent option \<Rightarrow> bool \<Rightarrow> bool \<Rightarrow> rat \<Rightarrow> rat \<Rightarrow> rat \<Rightarrow> content \<Rightarrow> bool" where
  "is_duplicate_broadcast current_url play_state intent user_initiated natural_end current_time rate now c =
     (case room_confirmed_broadcast c of
        None \<Rightarrow> False
      | Some d \<Rightarrow>
          now - cb_at d < duplicate_broadcast_window_ms \<and> cb_url d = current_url \<and> cb_play_state d = play_state
          \<and> cb_sync_intent d = intent \<and> cb_user_initiated d = user_initiated \<and> cb_natural_end d = natural_end
          \<and> \<bar>cb_current_time d - current_time\<bar> \<le> duplicate_broadcast_time_epsilon_seconds
          \<and> \<bar>cb_playback_rate d - rate\<bar> \<le> 1 / 100 \<and> intended_play_state c = play_state
          \<and> \<bar>intended_playback_rate c - rate\<bar> \<le> 1 / 100)"

subsection \<open>A broadcast\<close>

datatype skip_reason =
    Skip_Stale_Context | Skip_No_Video | Skip_Sharer_Ended | Skip_Stale_Url | Skip_Non_Shared | Skip_End_Pause
  | Skip_Programmatic | Skip_Soft_Apply | Skip_Unexpected_Rate | Skip_Remote_Follow | Skip_Local_Echo
  | Skip_Play_Transition | Skip_Duplicate

text \<open>What the queued pause of a remote stop compares when it runs.\<close>

record remote_stop_hold =
  rh_generation :: nat
  rh_video_id :: nat
  rh_room_code :: "string option"
  rh_url :: "string option"
  rh_video_url :: string
  rh_gesture_at :: "rat option"

datatype broadcast_outcome = Skipped skip_reason | Held remote_stop_hold | Sent playback_state

record broadcast_context =
  bc_generation :: nat
  bc_video_id :: nat
  bc_event :: event_source
  bc_natural_end :: bool
  bc_confirmed :: bool

definition broadcast_gate :: "rat \<Rightarrow> content \<Rightarrow> bool" where
  "broadcast_gate now c =
     (hydration_ready c
      \<and> (pending_room_state_hydration c \<longrightarrow>
           \<not> should_skip_broadcast_while_hydrating (pending_room_state_hydration c) now (last_user_gesture_at c)))"

definition same_playback_context :: "nat \<Rightarrow> nat \<Rightarrow> content \<Rightarrow> bool" where
  "same_playback_context generation video_id c =
     (playback_context_generation c = generation \<and> map_option vd_id (the_video c) = Some video_id)"

definition has_recent_explicit_resume_intent :: "rat \<Rightarrow> content \<Rightarrow> bool" where
  "has_recent_explicit_resume_intent now c =
     (recently (Some Act_Play) (last_explicit_user_action c) now \<or> recently (Some Act_Seek) (last_explicit_user_action c) now)"

definition send_playback ::
    "(string \<Rightarrow> string option) \<Rightarrow> broadcast_context \<Rightarrow> shared_video \<Rightarrow> video \<Rightarrow> play_state \<Rightarrow> rat \<Rightarrow> rat \<Rightarrow> rat \<Rightarrow> content
      \<Rightarrow> content \<times> broadcast_outcome" where
  "send_playback norm_url b current_video v play_state rate now updated_at c =
     (let event = bc_event b; current_url = norm_url (sv_url current_video);
          intent = derive_playback_sync_intent event (last_explicit_user_action c) (last_forced_pause_at c) now;
          user_initiated = derive_user_initiated_pause event play_state (last_explicit_user_action c)
            (last_forced_pause_at c) (programmatic_apply_until c)
            (if programmatic_apply_scope c = Scope_All
             then map_option sg_play_state (programmatic_apply_signature c) else None) now
      in if is_duplicate_broadcast current_url play_state intent user_initiated (bc_natural_end b)
              (vd_current_time v) rate now c
         then (c\<lparr> last_local_intent_at := now, last_local_intent_play_state := Some play_state \<rparr>, Skipped Skip_Duplicate)
         else
           let payload = create_playback_broadcast_payload current_video (vd_current_time v) play_state intent
                 user_initiated (bc_natural_end b) rate
                 (case local_member_id c of None \<Rightarrow> ''local'' | Some m \<Rightarrow> m) (of_nat (content_seq c)) updated_at;
               c1 = c\<lparr> last_broadcast_at := now, intended_play_state := play_state, intended_playback_rate := rate,
                       last_local_intent_at := now, last_local_intent_play_state := Some play_state,
                       content_seq := content_seq c + 1 \<rparr>
           in (remember_pending_local_override norm_url payload now c1, Sent payload))"

definition broadcast_unsuppressed ::
    "(string \<Rightarrow> string option) \<Rightarrow> broadcast_context \<Rightarrow> shared_video \<Rightarrow> play_state \<Rightarrow> rat \<Rightarrow> rat \<Rightarrow> content
      \<Rightarrow> content \<times> broadcast_outcome" where
  "broadcast_unsuppressed norm_url b current_video play_state now updated_at c =
     (case the_video c of
        None \<Rightarrow> (c, Skipped Skip_Stale_Context)
      | Some v \<Rightarrow>
          let event = bc_event b; current_url = norm_url (sv_url current_video);
              rate = (case get_active_correction_base_rate current_url c of
                        Some base \<Rightarrow> base | None \<Rightarrow> vd_playback_rate v)
          in if should_suppress_unexpected_playback_rate_broadcast rate event now c then (c, Skipped Skip_Unexpected_Rate)
             else
               let (following, c1) = followup_gate event play_state current_url now c
               in if following then (c1, Skipped Skip_Remote_Follow)
                  else if play_state = Playing
                    \<and> has_recent_remote_stop_intent now (pause_hold_until c1) current_url (active_shared_url c1)
                        (intended_play_state c1) (suppressed_remote c1)
                    \<and> \<not> has_recent_explicit_resume_intent now c1
                    \<and> since_gesture now (last_user_gesture_at c1) user_gesture_grace_ms
                  then (c1\<lparr> intended_play_state := Paused \<rparr>, Held
                          \<lparr> rh_generation = bc_generation b, rh_video_id = bc_video_id b,
                            rh_room_code = active_room_code c1, rh_url = current_url,
                            rh_video_url = sv_url current_video, rh_gesture_at = last_user_gesture_at c1 \<rparr>)
                  else
                    let (echo, c2) = echo_gate play_state current_url v now c1
                    in if echo then (c2, Skipped Skip_Local_Echo)
                       else
                         let (transition, c3) = transition_gate play_state current_url v now c2
                         in if transition then (c3, Skipped Skip_Play_Transition)
                            else send_playback norm_url b current_video v play_state rate now updated_at c3)"

definition broadcast_shared ::
    "(string \<Rightarrow> string option) \<Rightarrow> broadcast_context \<Rightarrow> shared_video \<Rightarrow> video \<Rightarrow> rat \<Rightarrow> rat \<Rightarrow> content
      \<Rightarrow> content \<times> broadcast_outcome" where
  "broadcast_shared norm_url b current_video v now updated_at c =
     (let event = bc_event b; current_url = norm_url (sv_url current_video);
          play_state = get_broadcast_play_state v event now c;
          (end_pause, c1) = end_pause_gate event play_state current_url now c
      in if end_pause then (c1, Skipped Skip_End_Pause)
         else
           let (programmatic, c2) = programmatic_gate event play_state current_url v now c1
           in if programmatic then (c2, Skipped Skip_Programmatic)
              else
                let c3 = (if play_state \<noteq> Playing \<and> is_active_rate_only_catch_up current_url c2
                          then clear_remote_follow_playing_window
                                 (cancel_active_soft_apply norm_url Buffer_Interrupt now c2)
                          else c2)
                in if should_suppress_active_soft_apply_broadcast current_url now c3 then (c3, Skipped Skip_Soft_Apply)
                   else broadcast_unsuppressed norm_url b current_video play_state now updated_at c3)"

definition broadcast_resume ::
    "(string \<Rightarrow> string option) \<Rightarrow> broadcast_context \<Rightarrow> shared_video option \<Rightarrow> rat \<Rightarrow> rat \<Rightarrow> content
      \<Rightarrow> content \<times> broadcast_outcome" where
  "broadcast_resume norm_url b page_identity now updated_at c =
     (case the_video c of
        None \<Rightarrow> (c, Skipped Skip_Stale_Context)
      | Some v \<Rightarrow>
          if \<not> same_playback_context (bc_generation b) (bc_video_id b) c then (c, Skipped Skip_Stale_Context)
          else (case page_identity of
             None \<Rightarrow> (c, Skipped Skip_No_Video)
           | Some current_video \<Rightarrow>
               let current_url = norm_url (sv_url current_video);
                   (ended, c1) = sharer_ended_gate current_url now c
               in if ended then (c1, Skipped Skip_Sharer_Ended)
                  else
                    let (stale, c2) = settle_gate (bc_confirmed b) current_url now c1
                    in if stale then (c2, Skipped Skip_Stale_Url)
                       else if on_non_shared_page current_url c2
                       then (note_non_shared_page current_url c2, Skipped Skip_Non_Shared)
                       else broadcast_shared norm_url b current_video v now updated_at
                              (c2\<lparr> last_non_shared_guard_url := None \<rparr>)))"

definition remote_stop_hold_fires ::
    "(string \<Rightarrow> string option) \<Rightarrow> remote_stop_hold \<Rightarrow> rat \<Rightarrow> content \<Rightarrow> content" where
  "remote_stop_hold_fires norm_url h now c =
     (case the_video c of
        None \<Rightarrow> c
      | Some v \<Rightarrow>
          if \<not> same_playback_context (rh_generation h) (rh_video_id h) c
            \<or> active_room_code c \<noteq> rh_room_code h
            \<or> norm_opt norm_url (map_option sv_url (page_video c)) \<noteq> rh_url h
            \<or> last_user_gesture_at c \<noteq> rh_gesture_at h
            \<or> intended_play_state c \<noteq> Paused
            \<or> \<not> has_recent_remote_stop_intent now (pause_hold_until c) (norm_url (rh_video_url h)) (active_shared_url c)
                  (intended_play_state c) (suppressed_remote c)
            \<or> vd_paused v then c
          else force_pause_video v now c)"

definition playback_update_acknowledged :: "nat \<Rightarrow> nat \<Rightarrow> playback_state \<Rightarrow> bool \<Rightarrow> content \<Rightarrow> content" where
  "playback_update_acknowledged generation video_id payload answered c =
     (if \<not> answered then c
      else if \<not> same_playback_context generation video_id c
        \<or> (case last_local_playback_version c of None \<Rightarrow> False | Some v \<Rightarrow> pb_seq payload < v_seq v) then c
      else c\<lparr> last_local_playback_version := Some (version_of payload) \<rparr>)"

end
