(* ===== verification/Playback_Binding.thy ===== *)
theory Playback_Binding
  imports Page_Identity Sync_Broadcast
begin

text \<open>
  \<open>content/playback-binding-controller.ts\<close>: the listeners on the media element. They decide what an
  event means (the user's action, a stall, the echo of what was just applied, the end of the
  video), hold the element back where the room wants it paused, and start broadcasts.

  Listeners run to their end; what they leave for later (a queued pause, a broadcast that waits for
  the page's identity, a follow-up, a read of the identity at a natural end) is a task of the page,
  which runs when it is picked, and the two timers that are ever cancelled are fields. \<open>norm_url\<close> is
  the normalized address, \<open>pu\<close> the URL parser.
\<close>

subsection \<open>The page\<close>

datatype pause_premise =
    Waiting_For_Room "string option"
  | Seek_Autoplay "string option" "rat option"
  | Held_At_End
  | Remote_Stop "string option" "rat option"
  | Unconfirmed_Page

record upgrade_timer =
  ut_due :: rat
  ut_session :: nat
  ut_video :: nat
  ut_pause_started_at :: rat

record flush_timer =
  ft_due :: rat
  ft_url :: string
  ft_armed_at :: rat
  ft_video :: nat
  ft_identity :: shared_video

record natural_end_context =
  ne_video :: nat
  ne_context_generation :: nat
  ne_session :: nat
  ne_room_code :: "string option"
  ne_shared_url :: "string option"
  ne_shared_by :: "string option"
  ne_member :: "string option"

datatype page_task =
    Pause_Task nat nat pause_premise
  | Load_Pause_Task nat nat string
  | Broadcast_Task broadcast_context
  | Follow_Up_Task nat nat event_source rat
  | Stop_Hold_Task remote_stop_hold
  | Ack_Task nat nat playback_state
  | Natural_End_Task nat natural_end_context rat "shared_video option list"

record page =
  pg_content :: content
  pg_href :: string
  pg_ended :: bool
  pg_bound :: "nat list"
  pg_upgrade :: "upgrade_timer option"
  pg_flush :: "flush_timer option"
  pg_pending_end :: "nat option"
  pg_next_read :: nat
  pg_tasks :: "page_task list"
  pg_sent :: "playback_state list"
  pg_binding_destroyed :: bool

definition on_content :: "(content \<Rightarrow> content) \<Rightarrow> page \<Rightarrow> page" where
  "on_content f p = p\<lparr> pg_content := f (pg_content p) \<rparr>"

definition add_task :: "page_task \<Rightarrow> page \<Rightarrow> page" where
  "add_task t p = p\<lparr> pg_tasks := pg_tasks p @ [t] \<rparr>"

definition page_element :: "page \<Rightarrow> video option" where
  "page_element p = the_video (pg_content p)"

definition element_id :: "content \<Rightarrow> nat option" where
  "element_id c = map_option vd_id (the_video c)"

definition current_url :: "(string \<Rightarrow> string option) \<Rightarrow> content \<Rightarrow> string option" where
  "current_url norm_url c = norm_opt norm_url (map_option sv_url (page_video c))"

subsection \<open>What an event means\<close>

definition has_recent_user_gesture :: "rat \<Rightarrow> content \<Rightarrow> bool" where
  "has_recent_user_gesture now c = recent_at now (last_user_gesture_at c)"

definition has_recent_user_gesture_in_player :: "rat \<Rightarrow> content \<Rightarrow> bool" where
  "has_recent_user_gesture_in_player now c = recent_at now (last_user_gesture_in_player_at c)"

definition has_recent_rate_control_gesture :: "rat \<Rightarrow> content \<Rightarrow> bool" where
  "has_recent_rate_control_gesture now c = recent_at now (last_rate_control_gesture_at c)"

definition has_fresh_in_player_play_intent :: "rat \<Rightarrow> content \<Rightarrow> bool" where
  "has_fresh_in_player_play_intent now c =
     (has_recent_user_gesture_in_player now c
      \<and> gesture_after (last_forced_pause_at c) (last_user_gesture_in_player_at c))"

definition acts_for_user :: "rat \<Rightarrow> content \<Rightarrow> bool" where
  "acts_for_user now c =
     (has_recent_user_gesture now c \<and> gesture_after (last_forced_pause_at c) (last_user_gesture_at c))"

text \<open>The action is a recent seek, and no gesture came after it.\<close>

definition seek_without_new_gesture :: "rat \<Rightarrow> content \<Rightarrow> bool" where
  "seek_without_new_gesture now c =
     (recently (Some Act_Seek) (last_explicit_user_action c) now
      \<and> (case last_explicit_user_action c of
           None \<Rightarrow> False | Some a \<Rightarrow> \<not> gesture_after (ea_at a) (last_user_gesture_at c)))"

definition is_programmatic_event_echo :: "action_kind \<Rightarrow> rat \<Rightarrow> content \<Rightarrow> bool" where
  "is_programmatic_event_echo kind now c =
     (if programmatic_apply_scope c = Scope_Ratechange \<and> kind \<noteq> Act_Ratechange then False
      else now < programmatic_apply_until c
        \<and> (case last_user_gesture_in_player_at c of None \<Rightarrow> True | Some g \<Rightarrow> g < programmatic_apply_at c))"

definition remember_explicit_playback_action :: "play_state \<Rightarrow> rat \<Rightarrow> content \<Rightarrow> content" where
  "remember_explicit_playback_action play_state now c =
     (if is_programmatic_event_echo (if play_state = Playing then Act_Play else Act_Pause) now c then c
      else if acts_for_user now c
      then c\<lparr> last_explicit_playback_action := Some \<lparr> ep_play_state = play_state, ep_at = now \<rparr> \<rparr>
      else c)"

definition continues_in_flight_seek :: "rat \<Rightarrow> content \<Rightarrow> bool" where
  "continues_in_flight_seek now c =
     (case last_explicit_user_action c of
        None \<Rightarrow> False
      | Some a \<Rightarrow> ea_kind a = Act_Seek \<and> last_forced_pause_at c < ea_at a \<and> now - ea_at a < user_gesture_grace_ms)"

definition remember_explicit_user_action :: "action_kind \<Rightarrow> rat \<Rightarrow> content \<Rightarrow> content" where
  "remember_explicit_user_action kind now c =
     (if is_programmatic_event_echo kind now c then c
      else if \<not> acts_for_user now c then c
      else if kind = Act_Play \<and> seek_without_new_gesture now c then c
      else c\<lparr> last_explicit_user_action := Some \<lparr> ea_kind = kind, ea_at = now \<rparr>,
              explicit_seek_origin_play_state :=
                (if kind \<noteq> Act_Seek then None
                 else if continues_in_flight_seek now c then explicit_seek_origin_play_state c
                 else Some (intended_play_state c)) \<rparr>)"

definition is_inside_programmatic_paused_window :: "(string \<Rightarrow> string option) \<Rightarrow> rat \<Rightarrow> content \<Rightarrow> bool" where
  "is_inside_programmatic_paused_window norm_url now c =
     (case programmatic_apply_signature c of
        None \<Rightarrow> False
      | Some sig \<Rightarrow>
          programmatic_apply_scope c = Scope_All \<and> sg_play_state sig = Paused \<and> now < programmatic_apply_until c
          \<and> current_url norm_url c = Some (sg_url sig))"

definition should_treat_rate_change_as_programmatic :: "(string \<Rightarrow> string option) \<Rightarrow> video \<Rightarrow> rat \<Rightarrow> content \<Rightarrow> bool" where
  "should_treat_rate_change_as_programmatic norm_url v now c =
     (case programmatic_apply_signature c of
        None \<Rightarrow> False
      | Some sig \<Rightarrow>
          now < programmatic_apply_until c \<and> truthy (current_url norm_url c)
          \<and> current_url norm_url c = Some (sg_url sig)
          \<and> \<bar>vd_playback_rate v - sg_playback_rate sig\<bar> \<le> 1 / 100)"

subsection \<open>Pauses and what they are\<close>

definition clear_buffer_upgrade_timer :: "page \<Rightarrow> page" where
  "clear_buffer_upgrade_timer p = p\<lparr> pg_upgrade := None \<rparr>"

definition clear_sharer_ended_flush_timer :: "page \<Rightarrow> page" where
  "clear_sharer_ended_flush_timer p = p\<lparr> pg_flush := None \<rparr>"

definition clear_active_pause_classification :: "video \<Rightarrow> page \<Rightarrow> page" where
  "clear_active_pause_classification v p = clear_buffer_upgrade_timer (on_content (\<lambda>c.
     (clear_extension_pause_ownership v c)\<lparr> pause_started_at := 0, pause_classified_as_buffer := False \<rparr>) p)"

definition arm_buffer_pause_upgrade :: "video \<Rightarrow> rat \<Rightarrow> page \<Rightarrow> page" where
  "arm_buffer_pause_upgrade v now p = p\<lparr> pg_upgrade := Some
     \<lparr> ut_due = now + buffer_pause_upgrade_ms, ut_session = player_session_generation (pg_content p),
       ut_video = vd_id v, ut_pause_started_at = pause_started_at (pg_content p) \<rparr> \<rparr>"

text \<open>A paused element that never said \<open>pause\<close>.\<close>

definition classify_unobserved_pause_as_buffer :: "(string \<Rightarrow> string option) \<Rightarrow> video \<Rightarrow> rat \<Rightarrow> page \<Rightarrow> page" where
  "classify_unobserved_pause_as_buffer norm_url v now p =
     (let c = pg_content p
      in if \<not> vd_paused v then clear_active_pause_classification v p
         else if 0 < pause_started_at c \<or> intended_play_state c \<noteq> Playing \<or> has_recent_user_gesture now c
           \<or> is_inside_programmatic_paused_window norm_url now c then p
         else arm_buffer_pause_upgrade v now
                (on_content (\<lambda>c. c\<lparr> pause_started_at := now, pause_classified_as_buffer := True \<rparr>) p))"

subsection \<open>Broadcasts\<close>

text \<open>
  A broadcast runs up to the question which video the page shows, and goes on when that is
  answered; one that already knows the video does not wait.
\<close>

definition broadcast_outcome_on_page :: "nat \<Rightarrow> nat \<Rightarrow> content \<times> broadcast_outcome \<Rightarrow> page \<Rightarrow> page" where
  "broadcast_outcome_on_page generation video_id result p =
     (let (c, outcome) = result; p1 = p\<lparr> pg_content := c \<rparr>
      in case outcome of
           Skipped _ \<Rightarrow> p1
         | Held hold \<Rightarrow> add_task (Stop_Hold_Task hold) p1
         | Sent payload \<Rightarrow> add_task (Ack_Task generation video_id payload) (p1\<lparr> pg_sent := pg_sent p1 @ [payload] \<rparr>))"

definition broadcast_playback :: "event_source \<Rightarrow> rat \<Rightarrow> page \<Rightarrow> page" where
  "broadcast_playback event now p =
     (let c = pg_content p
      in case the_video c of
           None \<Rightarrow> p
         | Some v \<Rightarrow>
             if broadcast_gate now c
             then add_task (Broadcast_Task \<lparr> bc_generation = playback_context_generation c, bc_video_id = vd_id v,
                    bc_event = event, bc_natural_end = False, bc_confirmed = False \<rparr>) p
             else p)"

definition broadcast_confirmed_playback ::
    "(string \<Rightarrow> string option) \<Rightarrow> shared_video \<Rightarrow> event_source \<Rightarrow> bool \<Rightarrow> rat \<Rightarrow> rat \<Rightarrow> page \<Rightarrow> page" where
  "broadcast_confirmed_playback norm_url identity event natural_end now wall p =
     (let c = pg_content p
      in case the_video c of
           None \<Rightarrow> p
         | Some v \<Rightarrow>
             if broadcast_gate now c
             then broadcast_outcome_on_page (playback_context_generation c) (vd_id v)
                    (broadcast_resume norm_url \<lparr> bc_generation = playback_context_generation c, bc_video_id = vd_id v,
                       bc_event = event, bc_natural_end = natural_end, bc_confirmed = True \<rparr> (Some identity) now wall c) p
             else p)"

definition schedule_broadcast ::
    "(string \<Rightarrow> string option) \<Rightarrow> video \<Rightarrow> event_source \<Rightarrow> rat option \<Rightarrow> rat \<Rightarrow> page \<Rightarrow> page" where
  "schedule_broadcast norm_url v event follow_up now p =
     (let p1 = broadcast_playback event now (classify_unobserved_pause_as_buffer norm_url v now p)
      in case follow_up of
           None \<Rightarrow> p1
         | Some ms \<Rightarrow> add_task (Follow_Up_Task (player_session_generation (pg_content p1)) (vd_id v) event (now + ms)) p1)"

definition buffer_pause_upgrade_fires :: "rat \<Rightarrow> page \<Rightarrow> page" where
  "buffer_pause_upgrade_fires now p =
     (case pg_upgrade p of
        None \<Rightarrow> p
      | Some t \<Rightarrow>
          if now < ut_due t then p
          else
            let p1 = clear_buffer_upgrade_timer p; c = pg_content p
            in case the_video c of
                 None \<Rightarrow> p1
               | Some v \<Rightarrow>
                   if ut_session t \<noteq> player_session_generation c \<or> vd_id v \<noteq> ut_video t \<or> \<not> vd_paused v
                     \<or> \<not> pause_classified_as_buffer c \<or> pause_started_at c \<noteq> ut_pause_started_at t then p1
                   else broadcast_playback On_Pause now
                          (on_content (\<lambda>c. c\<lparr> pause_classified_as_buffer := False \<rparr>) p1))"

subsection \<open>Videos the room does not share\<close>

definition is_current_video_shared :: "(string \<Rightarrow> string option) \<Rightarrow> shared_video option \<Rightarrow> content \<Rightarrow> bool" where
  "is_current_video_shared norm_url video c =
     (case video of
        None \<Rightarrow> False
      | Some s \<Rightarrow> truthy (active_shared_url c) \<and> norm_url (sv_url s) = active_shared_url c)"

definition is_known_non_shared_video ::
    "(string \<Rightarrow> string option) \<Rightarrow> url_parser \<Rightarrow> shared_video option \<Rightarrow> content \<Rightarrow> bool" where
  "is_known_non_shared_video norm_url pu video c =
     (video \<noteq> None \<and> has_stable_shared_video_identity video \<and> truthy (active_shared_url c)
      \<and> \<not> is_unstable_shared_video_url pu (active_shared_url c) \<and> \<not> is_current_video_shared norm_url video c)"

definition has_unconfirmed_shared_video_context :: "url_parser \<Rightarrow> shared_video option \<Rightarrow> content \<Rightarrow> bool" where
  "has_unconfirmed_shared_video_context pu video c =
     (video = None \<or> \<not> has_stable_shared_video_identity video \<or> is_unstable_shared_video_url pu (active_shared_url c))"

definition should_pre_record_non_shared_explicit_play ::
    "(string \<Rightarrow> string option) \<Rightarrow> url_parser \<Rightarrow> rat \<Rightarrow> content \<Rightarrow> bool" where
  "should_pre_record_non_shared_explicit_play norm_url pu now c =
     (has_fresh_in_player_play_intent now c \<and> is_known_non_shared_video norm_url pu (page_video c) c
      \<and> \<not> seek_without_new_gesture now c)"

definition pre_authorize_explicit_non_shared_play ::
    "(string \<Rightarrow> string option) \<Rightarrow> url_parser \<Rightarrow> rat \<Rightarrow> content \<Rightarrow> content" where
  "pre_authorize_explicit_non_shared_play norm_url pu now c =
     (let url = current_url norm_url c
      in if \<not> truthy url \<or> \<not> is_known_non_shared_video norm_url pu (page_video c) c then c
         else
           let c1 = (remember_explicit_playback_action Playing now c)\<lparr> explicit_non_shared_playback_url := url \<rparr>;
               c2 = (if non_sharer_autoplay_hold_url c1 = url then c1\<lparr> non_sharer_autoplay_hold_url := None \<rparr> else c1)
           in c2\<lparr> pause_hold_until := 0 \<rparr>)"

definition enforce_non_shared_load_pause ::
    "(string \<Rightarrow> string option) \<Rightarrow> url_parser \<Rightarrow> rat \<Rightarrow> page \<Rightarrow> page" where
  "enforce_non_shared_load_pause norm_url pu now p =
     (let c = pg_content p; url = current_url norm_url c
      in case the_video c of
           None \<Rightarrow> p
         | Some v \<Rightarrow>
             if vd_paused v \<or> \<not> truthy (active_room_code c) \<or> \<not> truthy (active_shared_url c) then p
             else if \<not> is_known_non_shared_video norm_url pu (page_video c) c then p
             else if url = None \<or> explicit_non_shared_playback_url c = url then p
             else if should_pre_record_non_shared_explicit_play norm_url pu now c
             then on_content (pre_authorize_explicit_non_shared_play norm_url pu now) p
             else add_task (Load_Pause_Task (playback_context_generation c) (vd_id v) (the url))
                    (on_content (\<lambda>c. activate_pause_hold initial_room_state_pause_hold_ms now
                       (c\<lparr> intended_play_state := Paused, non_sharer_autoplay_hold_url := url \<rparr>)) p))"

definition load_pause_fires :: "nat \<Rightarrow> nat \<Rightarrow> string \<Rightarrow> rat \<Rightarrow> content \<Rightarrow> content" where
  "load_pause_fires generation video_id url now c =
     (case the_video c of
        None \<Rightarrow> c
      | Some v \<Rightarrow>
          if explicit_non_shared_playback_url c = Some url then c
          else if playback_context_generation c \<noteq> generation \<or> vd_id v \<noteq> video_id
            \<or> non_sharer_autoplay_hold_url c \<noteq> Some url then c
          else force_pause_video v now c)"

text \<open>The result says whether the page is held; the page's guard fields move on.\<close>

definition force_pause_on_non_shared_page ::
    "(string \<Rightarrow> string option) \<Rightarrow> url_parser \<Rightarrow> video \<Rightarrow> rat \<Rightarrow> content \<Rightarrow> bool \<times> content" where
  "force_pause_on_non_shared_page norm_url pu v now c =
     (let url = current_url norm_url c; shared_url = active_shared_url c;
          cleared = c\<lparr> explicit_non_shared_playback_url := None, last_non_shared_guard_url := None \<rparr>
      in if \<not> truthy (active_room_code c) \<or> \<not> truthy shared_url then (False, c)
         else if is_unstable_shared_video_url pu shared_url then (False, cleared)
         else if page_video c = None then (False, c)
         else if \<not> has_stable_shared_video_identity (page_video c) then (False, cleared)
         else
           let c1 = (if truthy url \<and> url \<noteq> shared_url \<and> url \<noteq> last_non_shared_guard_url c
                     then c\<lparr> last_non_shared_guard_url := url, last_explicit_playback_action := None \<rparr>
                     else if \<not> truthy url \<or> url = shared_url then c\<lparr> last_non_shared_guard_url := None \<rparr> else c);
               (pause, next_url) = evaluate_non_shared_page_guard (active_room_code c) shared_url url (vd_paused v)
                 (explicit_non_shared_playback_url c1) (last_explicit_playback_action c1) now
           in if \<not> truthy url \<or> url = shared_url then (False, c1\<lparr> explicit_non_shared_playback_url := None \<rparr>)
              else (pause, c1\<lparr> explicit_non_shared_playback_url := next_url \<rparr>))"

subsection \<open>Pauses that are queued\<close>

definition waits_for_room :: "(string \<Rightarrow> string option) \<Rightarrow> url_parser \<Rightarrow> video \<Rightarrow> content \<Rightarrow> bool" where
  "waits_for_room norm_url pu v c =
     (\<not> is_known_non_shared_video norm_url pu (page_video c) c
      \<and> should_force_pause_while_waiting_for_initial_room_state (active_room_code c) (pending_room_state_hydration c)
            (vd_paused v))"

definition holds_after_shared_video_end :: "(string \<Rightarrow> string option) \<Rightarrow> video \<Rightarrow> rat \<Rightarrow> content \<Rightarrow> bool" where
  "holds_after_shared_video_end norm_url v now c =
     (is_current_video_shared norm_url (page_video c) c \<and> intended_play_state c \<noteq> Playing
      \<and> suppressed_local_end_pause_url c \<noteq> None \<and> now < suppressed_local_end_pause_until c
      \<and> current_url norm_url c = suppressed_local_end_pause_url c
      \<and> \<not> has_recent_user_gesture now c \<and> \<not> vd_paused v)"

definition remote_stop_intent_on_page :: "(string \<Rightarrow> string option) \<Rightarrow> rat \<Rightarrow> content \<Rightarrow> bool" where
  "remote_stop_intent_on_page norm_url now c =
     has_recent_remote_stop_intent now (pause_hold_until c) (current_url norm_url c) (active_shared_url c)
       (intended_play_state c) (suppressed_remote c)"

definition reapplies_hold_for_unconfirmed_page :: "url_parser \<Rightarrow> rat \<Rightarrow> content \<Rightarrow> bool" where
  "reapplies_hold_for_unconfirmed_page pu now c =
     (truthy (active_room_code c) \<and> truthy (active_shared_url c) \<and> now < pause_hold_until c
      \<and> (intended_play_state c = Paused \<or> intended_play_state c = Buffering)
      \<and> has_unconfirmed_shared_video_context pu (page_video c) c)"

fun still_pauses ::
    "(string \<Rightarrow> string option) \<Rightarrow> url_parser \<Rightarrow> pause_premise \<Rightarrow> video \<Rightarrow> rat \<Rightarrow> content \<Rightarrow> bool" where
  "still_pauses norm_url pu (Waiting_For_Room code) v now c =
     (active_room_code c = code \<and> waits_for_room norm_url pu v c)"
| "still_pauses norm_url pu (Seek_Autoplay url gesture_at) v now c =
     (url \<noteq> None \<and> intended_play_state c \<noteq> Playing \<and> last_user_gesture_at c = gesture_at
      \<and> is_current_video_shared norm_url (page_video c) c \<and> current_url norm_url c = url)"
| "still_pauses norm_url pu Held_At_End v now c = holds_after_shared_video_end norm_url v now c"
| "still_pauses norm_url pu (Remote_Stop url gesture_at) v now c =
     (url \<noteq> None \<and> intended_play_state c \<noteq> Playing \<and> last_user_gesture_at c = gesture_at
      \<and> is_current_video_shared norm_url (page_video c) c \<and> current_url norm_url c = url
      \<and> remote_stop_intent_on_page norm_url now c)"
| "still_pauses norm_url pu Unconfirmed_Page v now c = reapplies_hold_for_unconfirmed_page pu now c"

definition queue_pause_if_current :: "video \<Rightarrow> pause_premise \<Rightarrow> page \<Rightarrow> page" where
  "queue_pause_if_current v premise p =
     add_task (Pause_Task (playback_context_generation (pg_content p)) (vd_id v) premise) p"

definition queued_pause_fires ::
    "(string \<Rightarrow> string option) \<Rightarrow> url_parser \<Rightarrow> nat \<Rightarrow> nat \<Rightarrow> pause_premise \<Rightarrow> rat \<Rightarrow> content \<Rightarrow> content" where
  "queued_pause_fires norm_url pu generation video_id premise now c =
     (case the_video c of
        None \<Rightarrow> c
      | Some v \<Rightarrow>
          if playback_context_generation c \<noteq> generation \<or> vd_id v \<noteq> video_id \<or> vd_paused v
            \<or> \<not> still_pauses norm_url pu premise v now c then c
          else force_pause_video v now c)"

definition force_pause_while_waiting_for_initial_room_state ::
    "(string \<Rightarrow> string option) \<Rightarrow> url_parser \<Rightarrow> video \<Rightarrow> page \<Rightarrow> bool \<times> page" where
  "force_pause_while_waiting_for_initial_room_state norm_url pu v p =
     (if \<not> waits_for_room norm_url pu v (pg_content p) then (False, p)
      else (True, queue_pause_if_current v (Waiting_For_Room (active_room_code (pg_content p)))
              (on_content (\<lambda>c. c\<lparr> intended_play_state := Paused \<rparr>) p)))"

definition guard_unexpected_resume ::
    "(string \<Rightarrow> string option) \<Rightarrow> url_parser \<Rightarrow> video \<Rightarrow> rat \<Rightarrow> page \<Rightarrow> bool \<times> page" where
  "guard_unexpected_resume norm_url pu v now p =
     (let c = pg_content p; shown = is_current_video_shared norm_url (page_video c) c; url = current_url norm_url c
      in if shown \<and> intended_play_state c \<noteq> Playing \<and> seek_without_new_gesture now c
         then (True, queue_pause_if_current v (Seek_Autoplay url (last_user_gesture_at c))
                (on_content (\<lambda>c. c\<lparr> last_explicit_user_action := None, explicit_seek_origin_play_state := None,
                   last_explicit_playback_action := None \<rparr>) p))
         else if holds_after_shared_video_end norm_url v now c then (True, queue_pause_if_current v Held_At_End p)
         else if shown \<and> remote_stop_intent_on_page norm_url now c \<and> intended_play_state c \<noteq> Playing
           \<and> \<not> has_recent_user_gesture now c
         then (True, queue_pause_if_current v (Remote_Stop url (last_user_gesture_at c)) p)
         else if reapplies_hold_for_unconfirmed_page pu now c
         then (True, queue_pause_if_current v Unconfirmed_Page
                (on_content (\<lambda>c. c\<lparr> explicit_non_shared_playback_url := None, last_non_shared_guard_url := None \<rparr>) p))
         else
           let (held, c1) = force_pause_on_non_shared_page norm_url pu v now c; p1 = p\<lparr> pg_content := c1 \<rparr>
           in if held then (True, enforce_non_shared_load_pause norm_url pu now p1)
              else force_pause_while_waiting_for_initial_room_state norm_url pu v p1)"

subsection \<open>The end of the video\<close>

datatype natural_end_outcome = Handled | Unsuppressed | Stale_End

definition has_synchronous_natural_end_identity :: "url_parser \<Rightarrow> page \<Rightarrow> bool" where
  "has_synchronous_natural_end_identity pu p =
     (let video = page_video (pg_content p)
      in has_stable_shared_video_identity video \<and> \<not> is_unstable_shared_video_url pu (Some (pg_href p))
         \<and> \<not> is_unstable_shared_video_url pu (map_option sv_url video))"

definition mark_shared_video_natural_end ::
    "(string \<Rightarrow> string option) \<Rightarrow> shared_video option \<Rightarrow> rat \<Rightarrow> content \<Rightarrow> content" where
  "mark_shared_video_natural_end norm_url video ended_at c =
     (if \<not> truthy (active_room_code c) \<or> \<not> truthy (active_shared_url c)
        \<or> \<not> is_current_video_shared norm_url video c then c
      else c\<lparr> shared_video_natural_end_url := active_shared_url c, shared_video_natural_end_at := ended_at \<rparr>)"

definition is_local_shared_source :: "content \<Rightarrow> bool" where
  "is_local_shared_source c =
     (truthy (local_member_id c) \<and> truthy (active_shared_by_member_id c)
      \<and> local_member_id c = active_shared_by_member_id c)"

definition should_hold_non_sharer_at_shared_video_end ::
    "(string \<Rightarrow> string option) \<Rightarrow> shared_video option \<Rightarrow> content \<Rightarrow> bool" where
  "should_hold_non_sharer_at_shared_video_end norm_url video c =
     (truthy (active_room_code c) \<and> truthy (active_shared_url c) \<and> truthy (local_member_id c)
      \<and> truthy (active_shared_by_member_id c) \<and> \<not> is_local_shared_source c \<and> is_current_video_shared norm_url video c)"

definition hold_non_sharer_at_shared_video_end :: "video \<Rightarrow> rat \<Rightarrow> content \<Rightarrow> content" where
  "hold_non_sharer_at_shared_video_end v now c =
     force_pause_video v now (activate_pause_hold initial_room_state_pause_hold_ms now
       (c\<lparr> intended_play_state := Paused, suppressed_local_end_pause_url := active_shared_url c,
          suppressed_local_end_pause_until := now + initial_room_state_pause_hold_ms \<rparr>))"

definition arm_sharer_shared_video_end_suppression ::
    "(string \<Rightarrow> string option) \<Rightarrow> video \<Rightarrow> shared_video option \<Rightarrow> rat \<Rightarrow> rat \<Rightarrow> page \<Rightarrow> bool \<times> page" where
  "arm_sharer_shared_video_end_suppression norm_url v video ended_at now p =
     (let c = pg_content p
      in case (video, active_shared_url c) of
           (Some identity, Some armed_url) \<Rightarrow>
             if \<not> truthy (active_room_code c) \<or> \<not> is_local_shared_source c
               \<or> \<not> is_current_video_shared norm_url video c then (False, p)
             else
               let suppression_until = ended_at + initial_room_state_pause_hold_ms
               in (True, (on_content (\<lambda>c. c\<lparr> sharer_ended_suppression_url := Some armed_url,
                     sharer_ended_suppression_until := suppression_until,
                     sharer_ended_suppression_armed_at := ended_at \<rparr>) p)
                   \<lparr> pg_flush := Some \<lparr> ft_due = now + max 0 (suppression_until - now), ft_url = armed_url,
                        ft_armed_at = ended_at, ft_video = vd_id v, ft_identity = identity \<rparr> \<rparr>)
         | _ \<Rightarrow> (False, p))"

definition apply_shared_video_natural_end ::
    "(string \<Rightarrow> string option) \<Rightarrow> video \<Rightarrow> shared_video option \<Rightarrow> rat \<Rightarrow> rat \<Rightarrow> page \<Rightarrow> natural_end_outcome \<times> page" where
  "apply_shared_video_natural_end norm_url v video ended_at now p =
     (let p1 = on_content (mark_shared_video_natural_end norm_url video ended_at) p
      in if should_hold_non_sharer_at_shared_video_end norm_url video (pg_content p1)
         then (Handled, on_content (hold_non_sharer_at_shared_video_end v now) p1)
         else
           let (armed, p2) = arm_sharer_shared_video_end_suppression norm_url v video ended_at now p1
           in (if armed then Handled else Unsuppressed, p2))"

definition capture_natural_end_context :: "video \<Rightarrow> content \<Rightarrow> natural_end_context option" where
  "capture_natural_end_context v c =
     (if \<not> truthy (active_room_code c) \<or> \<not> truthy (active_shared_url c) then None
      else Some \<lparr> ne_video = vd_id v, ne_context_generation = playback_context_generation c,
             ne_session = player_session_generation c, ne_room_code = active_room_code c,
             ne_shared_url = active_shared_url c, ne_shared_by = active_shared_by_member_id c,
             ne_member = local_member_id c \<rparr>)"

definition is_natural_end_context_structurally_current :: "natural_end_context \<Rightarrow> page \<Rightarrow> bool" where
  "is_natural_end_context_structurally_current x p =
     (let c = pg_content p
      in \<not> pg_binding_destroyed p \<and> ne_context_generation x = playback_context_generation c
         \<and> ne_session x = player_session_generation c \<and> element_id c = Some (ne_video x)
         \<and> active_room_code c = ne_room_code x \<and> active_shared_url c = ne_shared_url x
         \<and> active_shared_by_member_id c = ne_shared_by x \<and> local_member_id c = ne_member x)"

text \<open>The read of the identity that is under way for an end, and a pause that waits for it.\<close>

definition pending_end_for :: "natural_end_context \<Rightarrow> page \<Rightarrow> nat option" where
  "pending_end_for x p =
     (case pg_pending_end p of
        None \<Rightarrow> None
      | Some i \<Rightarrow>
          if list_ex (\<lambda>t. case t of Natural_End_Task j y ended_at waiting \<Rightarrow> j = i \<and> y = x | _ \<Rightarrow> False) (pg_tasks p)
          then Some i else None)"

definition wait_for_end :: "nat \<Rightarrow> shared_video option list \<Rightarrow> page \<Rightarrow> page" where
  "wait_for_end i pauses p = p\<lparr> pg_tasks := map (\<lambda>t. case t of
       Natural_End_Task j x ended_at waiting \<Rightarrow>
         if j = i then Natural_End_Task j x ended_at (waiting @ pauses) else t
     | _ \<Rightarrow> t) (pg_tasks p) \<rparr>"

definition read_natural_end :: "natural_end_context \<Rightarrow> rat \<Rightarrow> shared_video option list \<Rightarrow> page \<Rightarrow> page" where
  "read_natural_end x ended_at pauses p =
     add_task (Natural_End_Task (pg_next_read p) x ended_at pauses)
       (p\<lparr> pg_pending_end := Some (pg_next_read p), pg_next_read := pg_next_read p + 1 \<rparr>)"

text \<open>\<open>Inr\<close> is an outcome that is known at once; otherwise the pauses wait for the read.\<close>

definition handle_shared_video_natural_end ::
    "(string \<Rightarrow> string option) \<Rightarrow> url_parser \<Rightarrow> video \<Rightarrow> shared_video option list \<Rightarrow> rat \<Rightarrow> page
      \<Rightarrow> natural_end_outcome option \<times> page" where
  "handle_shared_video_natural_end norm_url pu v pauses now p =
     (let c = pg_content p; video = page_video c
      in case capture_natural_end_context v c of
           None \<Rightarrow> map_prod Some id (apply_shared_video_natural_end norm_url v video now now p)
         | Some x \<Rightarrow>
             (case pending_end_for x p of
                Some i \<Rightarrow> (None, wait_for_end i pauses p)
              | None \<Rightarrow>
                  if has_synchronous_natural_end_identity pu p
                  then map_prod Some id (apply_shared_video_natural_end norm_url v video now now p)
                  else (None, read_natural_end x now pauses p)))"

definition settle_sharer_ended_suppression ::
    "(string \<Rightarrow> string option) \<Rightarrow> flush_timer \<Rightarrow> rat \<Rightarrow> rat \<Rightarrow> page \<Rightarrow> page" where
  "settle_sharer_ended_suppression norm_url t now wall p =
     (let c = pg_content p
      in if sharer_ended_suppression_url c \<noteq> Some (ft_url t) \<or> sharer_ended_suppression_armed_at c \<noteq> ft_armed_at t then p
         else
           let terminal = (element_id c = Some (ft_video t) \<and> pg_ended p \<and> is_local_shared_source c
                 \<and> is_current_video_shared norm_url (Some (ft_identity t)) c
                 \<and> norm_url (sv_url (ft_identity t)) = Some (ft_url t));
               p1 = on_content (\<lambda>c. c\<lparr> sharer_ended_suppression_url := None, sharer_ended_suppression_until := 0,
                      sharer_ended_suppression_armed_at := 0 \<rparr>) p
           in if \<not> terminal then p1
              else broadcast_confirmed_playback norm_url (ft_identity t) On_Pause True now wall p1)"

definition sharer_ended_flush_fires :: "(string \<Rightarrow> string option) \<Rightarrow> rat \<Rightarrow> rat \<Rightarrow> page \<Rightarrow> page" where
  "sharer_ended_flush_fires norm_url now wall p =
     (case pg_flush p of
        None \<Rightarrow> p
      | Some t \<Rightarrow>
          if now < ft_due t then p
          else settle_sharer_ended_suppression norm_url t now wall (clear_sharer_ended_flush_timer p))"

subsection \<open>The listeners\<close>

definition buffer_signal_window_ms :: rat where "buffer_signal_window_ms = 300"
definition video_rebind_buffer_signal_ms :: rat where "video_rebind_buffer_signal_ms = 1000"
definition video_bind_interval_ms :: rat where "video_bind_interval_ms = 250"

definition with_element :: "(video \<Rightarrow> page \<Rightarrow> page) \<Rightarrow> page \<Rightarrow> page" where
  "with_element f p = (case page_element p of None \<Rightarrow> p | Some v \<Rightarrow> f v p)"

definition start_playing :: "(string \<Rightarrow> string option) \<Rightarrow> url_parser \<Rightarrow> event_source \<Rightarrow> video \<Rightarrow> rat \<Rightarrow> page \<Rightarrow> page" where
  "start_playing norm_url pu event v now p =
     (let p1 = (if should_pre_record_non_shared_explicit_play norm_url pu now (pg_content p)
                then on_content (pre_authorize_explicit_non_shared_play norm_url pu now) p else p);
          (held, p2) = guard_unexpected_resume norm_url pu v now p1
      in if held then p2
         else schedule_broadcast norm_url v event (Some 180) now
                (on_content (remember_explicit_user_action Act_Play now \<circ> remember_explicit_playback_action Playing now)
                   (clear_active_pause_classification v p2)))"

definition pause_is_buffer_induced :: "(string \<Rightarrow> string option) \<Rightarrow> video \<Rightarrow> rat \<Rightarrow> content \<Rightarrow> bool" where
  "pause_is_buffer_induced norm_url v now c =
     (let recent_buffer_signal = (0 < last_buffer_signal_at c \<and> now - last_buffer_signal_at c < buffer_signal_window_ms);
          recent_rebind = (0 < last_video_element_bound_at c
            \<and> now - last_video_element_bound_at c < video_rebind_buffer_signal_ms)
      in \<not> is_inside_programmatic_paused_window norm_url now c \<and> (recent_buffer_signal \<or> recent_rebind)
         \<and> \<not> is_extension_owned_active_pause v c \<and> \<not> acts_for_user now c)"

definition continue_ordinary_pause :: "(string \<Rightarrow> string option) \<Rightarrow> shared_video option \<Rightarrow> video \<Rightarrow> rat \<Rightarrow> page \<Rightarrow> page" where
  "continue_ordinary_pause norm_url video v now p =
     (let p1 = (if has_recent_user_gesture now (pg_content p)
                then on_content (cancel_active_soft_apply norm_url User_Action now) p else p);
          buffer_induced = pause_is_buffer_induced norm_url v now (pg_content p1);
          owned = is_extension_owned_active_pause v (pg_content p1);
          p2 = clear_buffer_upgrade_timer (on_content (\<lambda>c. c\<lparr>
                 pause_started_at := (if owned then pause_started_at c else now),
                 pause_classified_as_buffer := buffer_induced \<rparr>) p1);
          p3 = (if buffer_induced then arm_buffer_pause_upgrade v now p2 else p2);
          p4 = on_content (remember_explicit_user_action Act_Pause now \<circ> remember_explicit_playback_action Paused now) p3;
          p5 = (if \<not> pg_ended p4 \<and> video \<noteq> None
                  \<and> norm_opt norm_url (map_option sv_url video) = explicit_non_shared_playback_url (pg_content p4)
                then on_content (\<lambda>c. c\<lparr> explicit_non_shared_playback_url := None \<rparr>) p4 else p4)
      in with_element (\<lambda>v. schedule_broadcast norm_url v On_Pause (Some 120) now) p5)"

definition on_pause :: "(string \<Rightarrow> string option) \<Rightarrow> url_parser \<Rightarrow> video \<Rightarrow> rat \<Rightarrow> page \<Rightarrow> page" where
  "on_pause norm_url pu v now p =
     (let video = page_video (pg_content p)
      in if \<not> pg_ended p then continue_ordinary_pause norm_url video v now p
         else
           let (outcome, p1) = handle_shared_video_natural_end norm_url pu v [video] now p
           in if outcome = Some Unsuppressed
              then with_element (\<lambda>v. continue_ordinary_pause norm_url video v now) p1 else p1)"

definition on_seeking :: "(string \<Rightarrow> string option) \<Rightarrow> rat \<Rightarrow> page \<Rightarrow> page" where
  "on_seeking norm_url now p =
     (let p1 = (if has_recent_user_gesture now (pg_content p)
                then on_content (cancel_active_soft_apply norm_url User_Action now) p else p);
          p2 = on_content (remember_explicit_user_action Act_Seek now) p1
      in with_element (\<lambda>v. schedule_broadcast norm_url v On_Seeking None now) p2)"

definition on_seeked :: "(string \<Rightarrow> string option) \<Rightarrow> rat \<Rightarrow> page \<Rightarrow> page" where
  "on_seeked norm_url now p =
     (let p1 = (if has_recent_user_gesture now (pg_content p)
                then on_content (cancel_active_soft_apply norm_url User_Action now) p else p);
          renew = (case last_explicit_user_action (pg_content p1) of
                     None \<Rightarrow> False
                   | Some a \<Rightarrow> ea_kind a = Act_Seek \<and> last_forced_pause_at (pg_content p1) < ea_at a);
          p2 = (if renew then on_content (remember_explicit_user_action Act_Seek now) p1 else p1)
      in with_element (\<lambda>v. schedule_broadcast norm_url v On_Seeked (Some 120) now) p2)"

definition on_rate_change :: "(string \<Rightarrow> string option) \<Rightarrow> video \<Rightarrow> rat \<Rightarrow> page \<Rightarrow> page" where
  "on_rate_change norm_url v now p =
     (let c = pg_content p;
          taken_over = (has_recent_user_gesture_in_player now c \<or> has_recent_rate_control_gesture now c);
          p1 = (if should_treat_rate_change_as_programmatic norm_url v now c then p
                else on_content (\<lambda>c. let c1 = remember_explicit_user_action Act_Ratechange now c
                       in if taken_over then cancel_active_soft_apply norm_url User_Ratechange now c1 else c1) p)
      in with_element (\<lambda>v. schedule_broadcast norm_url v On_Ratechange (Some 120) now) p1)"

definition apply_unless_waiting_for_room :: "(string \<Rightarrow> string option) \<Rightarrow> url_parser \<Rightarrow> video \<Rightarrow> rat \<Rightarrow> page \<Rightarrow> page" where
  "apply_unless_waiting_for_room norm_url pu v now p =
     (let (held, p1) = force_pause_while_waiting_for_initial_room_state norm_url pu v p
      in if held then p1 else on_content (apply_pending_playback_application norm_url now) p1)"

definition on_time_update :: "(string \<Rightarrow> string option) \<Rightarrow> video \<Rightarrow> rat \<Rightarrow> page \<Rightarrow> page" where
  "on_time_update norm_url v now p =
     (let p1 = (if vd_paused v then p else clear_active_pause_classification v p);
          p2 = on_content (maintain_active_soft_apply norm_url now) p1
      in if 2000 < now - last_broadcast_at (pg_content p2) \<and> \<not> vd_paused v
         then broadcast_playback On_Timeupdate now p2 else p2)"

datatype media_event =
    Ev_Play | Ev_Pause | Ev_Waiting | Ev_Stalled | Ev_Loadedmetadata | Ev_Canplay | Ev_Playing
  | Ev_Seeking | Ev_Seeked | Ev_Ratechange | Ev_Timeupdate | Ev_Ended

definition note_buffer_signal :: "rat \<Rightarrow> content \<Rightarrow> content" where
  "note_buffer_signal now c = c\<lparr> last_buffer_signal_at := now \<rparr>"

fun listener :: "(string \<Rightarrow> string option) \<Rightarrow> url_parser \<Rightarrow> media_event \<Rightarrow> video \<Rightarrow> rat \<Rightarrow> page \<Rightarrow> page" where
  "listener norm_url pu Ev_Play v now p = start_playing norm_url pu On_Play v now p"
| "listener norm_url pu Ev_Playing v now p = start_playing norm_url pu On_Playing v now p"
| "listener norm_url pu Ev_Pause v now p = on_pause norm_url pu v now p"
| "listener norm_url pu Ev_Waiting v now p =
     schedule_broadcast norm_url v On_Waiting None now (on_content (note_buffer_signal now) p)"
| "listener norm_url pu Ev_Stalled v now p =
     schedule_broadcast norm_url v On_Stalled None now (on_content (note_buffer_signal now) p)"
| "listener norm_url pu Ev_Loadedmetadata v now p = apply_unless_waiting_for_room norm_url pu v now p"
| "listener norm_url pu Ev_Canplay v now p =
     with_element (\<lambda>v. schedule_broadcast norm_url v On_Canplay (Some 120) now)
       (apply_unless_waiting_for_room norm_url pu v now p)"
| "listener norm_url pu Ev_Seeking v now p = on_seeking norm_url now p"
| "listener norm_url pu Ev_Seeked v now p = on_seeked norm_url now p"
| "listener norm_url pu Ev_Ratechange v now p = on_rate_change norm_url v now p"
| "listener norm_url pu Ev_Timeupdate v now p = on_time_update norm_url v now p"
| "listener norm_url pu Ev_Ended v now p = snd (handle_shared_video_natural_end norm_url pu v [] now p)"

subsection \<open>What was left for later\<close>

definition natural_end_resolved ::
    "(string \<Rightarrow> string option) \<Rightarrow> nat \<Rightarrow> natural_end_context \<Rightarrow> rat \<Rightarrow> shared_video option list \<Rightarrow> shared_video option
      \<Rightarrow> rat \<Rightarrow> page \<Rightarrow> page" where
  "natural_end_resolved norm_url i x ended_at pauses identity now p =
     (let settled = (\<lambda>p. if pg_pending_end p = Some i then p\<lparr> pg_pending_end := None \<rparr> else p)
      in case page_element p of
           None \<Rightarrow> settled p
         | Some v \<Rightarrow>
             if \<not> is_natural_end_context_structurally_current x p then settled p
             else
               let (outcome, p1) = apply_shared_video_natural_end norm_url v identity ended_at now p; p2 = settled p1
               in if outcome \<noteq> Unsuppressed then p2
                  else fold (\<lambda>video. with_element (\<lambda>v. continue_ordinary_pause norm_url video v now)) pauses p2)"

text \<open>
  \<open>identity\<close> answers the question which video the page shows, \<open>answered\<close> says whether the update was
  taken; a task that is not due stays.
\<close>

fun run_task ::
    "(string \<Rightarrow> string option) \<Rightarrow> url_parser \<Rightarrow> page_task \<Rightarrow> shared_video option \<Rightarrow> bool \<Rightarrow> rat \<Rightarrow> rat \<Rightarrow> page \<Rightarrow> page" where
  "run_task norm_url pu (Pause_Task generation video_id premise) identity answered now wall p =
     on_content (queued_pause_fires norm_url pu generation video_id premise now) p"
| "run_task norm_url pu (Load_Pause_Task generation video_id url) identity answered now wall p =
     on_content (load_pause_fires generation video_id url now) p"
| "run_task norm_url pu (Broadcast_Task b) identity answered now wall p =
     broadcast_outcome_on_page (bc_generation b) (bc_video_id b)
       (broadcast_resume norm_url b identity now wall (pg_content p)) p"
| "run_task norm_url pu (Follow_Up_Task session video_id event due) identity answered now wall p =
     (if now < due then add_task (Follow_Up_Task session video_id event due) p
      else if session \<noteq> player_session_generation (pg_content p) \<or> element_id (pg_content p) \<noteq> Some video_id then p
      else broadcast_playback event now p)"
| "run_task norm_url pu (Stop_Hold_Task hold) identity answered now wall p =
     on_content (remote_stop_hold_fires norm_url hold now) p"
| "run_task norm_url pu (Ack_Task generation video_id payload) identity answered now wall p =
     on_content (playback_update_acknowledged generation video_id payload answered) p"
| "run_task norm_url pu (Natural_End_Task i x ended_at pauses) identity answered now wall p =
     natural_end_resolved norm_url i x ended_at pauses identity now p"

definition task_runs ::
    "(string \<Rightarrow> string option) \<Rightarrow> url_parser \<Rightarrow> nat \<Rightarrow> shared_video option \<Rightarrow> bool \<Rightarrow> rat \<Rightarrow> rat \<Rightarrow> page \<Rightarrow> page" where
  "task_runs norm_url pu i identity answered now wall p =
     (if i < length (pg_tasks p)
      then run_task norm_url pu (pg_tasks p ! i) identity answered now wall
             (p\<lparr> pg_tasks := take i (pg_tasks p) @ drop (i + 1) (pg_tasks p) \<rparr>)
      else p)"

subsection \<open>The element\<close>

definition attach_playback_listeners :: "rat \<Rightarrow> page \<Rightarrow> page" where
  "attach_playback_listeners now p =
     with_element (\<lambda>v p.
       if vd_id v \<in> set (pg_bound p) then p
       else
         let c = pg_content p; p1 = p\<lparr> pg_bound := vd_id v # pg_bound p \<rparr>;
             p2 = (if \<not> vd_paused v \<or> (0 < pause_started_at c \<and> \<not> is_extension_owned_active_pause v c)
                   then clear_active_pause_classification v p1 else p1)
         in on_content (\<lambda>c. notify_video_element_bound now (c\<lparr> last_video_element_bound_at := now \<rparr>)) p2) p"

definition binding_tick :: "(string \<Rightarrow> string option) \<Rightarrow> url_parser \<Rightarrow> rat \<Rightarrow> page \<Rightarrow> page" where
  "binding_tick norm_url pu now p = enforce_non_shared_load_pause norm_url pu now (attach_playback_listeners now p)"

text \<open>The browser dispatches an event; the element reads \<open>v\<close> then. A listener of a replaced element does nothing.\<close>

definition media_event_dispatched ::
    "(string \<Rightarrow> string option) \<Rightarrow> url_parser \<Rightarrow> media_event \<Rightarrow> video \<Rightarrow> bool \<Rightarrow> rat \<Rightarrow> page \<Rightarrow> page" where
  "media_event_dispatched norm_url pu event v ended now p =
     (if element_id (pg_content p) = Some (vd_id v)
      then
        let p1 = (on_content (\<lambda>c. c\<lparr> the_video := Some v \<rparr>) p)\<lparr> pg_ended := ended \<rparr>
        in if vd_id v \<in> set (pg_bound p) then listener norm_url pu event v now p1 else p1
      else p)"

definition destroy_playback_binding :: "page \<Rightarrow> page" where
  "destroy_playback_binding p =
     clear_sharer_ended_flush_timer (clear_buffer_upgrade_timer
       (p\<lparr> pg_binding_destroyed := True, pg_pending_end := None \<rparr>))"

end
