(* ===== verification/Page_Events.thy ===== *)
theory Page_Events
  imports Playback_Binding
begin

text \<open>
  The content script of one page as a machine: every event it can be woken by, in any order, and
  what it does then. The media element and the page belong to the browser, so an event brings their
  state along; a task that was left for later runs when the environment picks it.
\<close>

datatype page_event =
    Element_Event media_event video bool
  | Element_Becomes "video option" bool
  | Page_Shows "shared_video option" string
  | Bind_Tick
  | Task_Runs nat "shared_video option" bool
  | Upgrade_Timer
  | Flush_Timer
  | Correction_Timer
  | Input input_event
  | Room_State_Arrives room_state
  | Pause_Debounce_Ends
  | Hydration_Timer
  | Hydration_Answer "hydration_response option"
  | Room_Status "string option" "string option" "rat option"

fun page_step ::
    "(string \<Rightarrow> string option) \<Rightarrow> url_parser \<Rightarrow> page_event \<Rightarrow> rat \<Rightarrow> rat \<Rightarrow> page \<Rightarrow> page" where
  "page_step norm_url pu (Element_Event event v ended) now wall p = media_event_dispatched norm_url pu event v ended now p"
| "page_step norm_url pu (Element_Becomes v ended) now wall p =
     (on_content (\<lambda>c. c\<lparr> the_video := v \<rparr>) p)\<lparr> pg_ended := ended \<rparr>"
| "page_step norm_url pu (Page_Shows video href) now wall p =
     (on_content (\<lambda>c. c\<lparr> page_video := video \<rparr>) p)\<lparr> pg_href := href \<rparr>"
| "page_step norm_url pu Bind_Tick now wall p =
     (if pg_binding_destroyed p then p else binding_tick norm_url pu now p)"
| "page_step norm_url pu (Task_Runs i identity answered) now wall p = task_runs norm_url pu i identity answered now wall p"
| "page_step norm_url pu Upgrade_Timer now wall p = buffer_pause_upgrade_fires now p"
| "page_step norm_url pu Flush_Timer now wall p = sharer_ended_flush_fires norm_url now wall p"
| "page_step norm_url pu Correction_Timer now wall p = on_content (soft_apply_timer_fires norm_url now) p"
| "page_step norm_url pu (Input e) now wall p = on_content (on_gesture e now) p"
| "page_step norm_url pu (Room_State_Arrives state) now wall p =
     on_content (\<lambda>c. fst (receive_room_state norm_url state now c)) p"
| "page_step norm_url pu Pause_Debounce_Ends now wall p = on_content (\<lambda>c. fst (deferred_pause_fires norm_url now c)) p"
| "page_step norm_url pu Hydration_Timer now wall p = on_content (\<lambda>c. snd (hydration_timer_fires now c)) p"
| "page_step norm_url pu (Hydration_Answer response) now wall p = on_content (hydration_answered norm_url response now) p"
| "page_step norm_url pu (Room_Status room_code member_id rtt_ms) now wall p =
     on_content (handle_sync_status norm_url room_code member_id rtt_ms now) p"

definition page_run ::
    "(string \<Rightarrow> string option) \<Rightarrow> url_parser \<Rightarrow> (page_event \<times> rat \<times> rat) list \<Rightarrow> page \<Rightarrow> page" where
  "page_run norm_url pu es p = fold (\<lambda>(e, now, wall). page_step norm_url pu e now wall) es p"

lemma page_run_simps [simp]:
  "page_run norm_url pu [] p = p"
  "page_run norm_url pu ((e, now, wall) # es) p = page_run norm_url pu es (page_step norm_url pu e now wall p)"
  by (simp_all add: page_run_def)

definition initial_page :: "string \<Rightarrow> page" where
  "initial_page href =
     \<lparr> pg_content = initial_content, pg_href = href, pg_ended = False, pg_bound = [], pg_upgrade = None, pg_flush = None,
       pg_pending_end = None, pg_next_read = 0, pg_tasks = [], pg_sent = [], pg_binding_destroyed = False \<rparr>"

text \<open>What a listener unfolds to, for the witnesses and the single steps.\<close>

lemmas listener_eval = media_event_dispatched_def on_pause_def continue_ordinary_pause_def pause_is_buffer_induced_def
  has_recent_user_gesture_def recent_at_def since_gesture_def is_extension_owned_active_pause_def acts_for_user_def
  gesture_after_def on_content_def clear_buffer_upgrade_timer_def arm_buffer_pause_upgrade_def add_task_def
  remember_explicit_user_action_def remember_explicit_playback_action_def is_programmatic_event_echo_def with_element_def
  page_element_def schedule_broadcast_def classify_unobserved_pause_as_buffer_def clear_active_pause_classification_def
  clear_extension_pause_ownership_def broadcast_playback_def broadcast_gate_def element_id_def norm_opt_def
  is_inside_programmatic_paused_window_def current_url_def

end
