(* ===== verification/Broadcast_Safety.thy ===== *)
theory Broadcast_Safety
  imports Sync_Broadcast
begin

text \<open>
  What a page tells the room: only what it plays of the shared video, at the room's speed, and never
  the echo of what it just applied.
\<close>

subsection \<open>What the guards leave alone\<close>

text \<open>The fields that no guard before the sending changes.\<close>

definition untouched :: "content \<Rightarrow> content \<Rightarrow> bool" where
  "untouched c c' =
     (the_video c' = the_video c \<and> active_shared_url c' = active_shared_url c \<and> active_room_code c' = active_room_code c
      \<and> content_seq c' = content_seq c \<and> local_member_id c' = local_member_id c
      \<and> last_explicit_user_action c' = last_explicit_user_action c \<and> last_forced_pause_at c' = last_forced_pause_at c
      \<and> last_explicit_playback_action c' = last_explicit_playback_action c
      \<and> active_soft_apply c' = active_soft_apply c \<and> resolved_shared_video_url c' = resolved_shared_video_url c
      \<and> intended_play_state c' = intended_play_state c \<and> intended_playback_rate c' = intended_playback_rate c
      \<and> pause_classified_as_buffer c' = pause_classified_as_buffer c \<and> pause_started_at c' = pause_started_at c
      \<and> explicit_seek_origin_play_state c' = explicit_seek_origin_play_state c
      \<and> programmatic_apply_at c' = programmatic_apply_at c \<and> programmatic_apply_scope c' = programmatic_apply_scope c
      \<and> room_confirmed_broadcast c' = room_confirmed_broadcast c
      \<and> pending_playback_application c' = pending_playback_application c
      \<and> last_user_gesture_at c' = last_user_gesture_at c
      \<and> last_user_gesture_in_player_at c' = last_user_gesture_in_player_at c)"

definition same_window :: "content \<Rightarrow> content \<Rightarrow> bool" where
  "same_window c c' =
     (programmatic_apply_at c' = programmatic_apply_at c \<and> programmatic_apply_scope c' = programmatic_apply_scope c
      \<and> programmatic_apply_until c' = programmatic_apply_until c
      \<and> programmatic_apply_signature c' = programmatic_apply_signature c)"

lemma untouched_refl [simp]: "untouched c c" and same_window_refl [simp]: "same_window c c"
  by (simp_all add: untouched_def same_window_def)

lemma untouched_trans: "untouched a b \<Longrightarrow> untouched b c \<Longrightarrow> untouched a c"
  by (simp add: untouched_def)

lemma same_window_trans: "same_window a b \<Longrightarrow> same_window b c \<Longrightarrow> same_window a c"
  by (simp add: same_window_def)

lemma sharer_ended_gate_untouched: "sharer_ended_gate url now c = (stop, c') \<Longrightarrow> untouched c c' \<and> same_window c c'"
  by (auto simp: sharer_ended_gate_def Let_def untouched_def same_window_def split: if_splits option.splits)

lemma settle_gate_untouched: "settle_gate confirmed url now c = (stop, c') \<Longrightarrow> untouched c c' \<and> same_window c c'"
  by (auto simp: settle_gate_def clear_settle_anchor_def Let_def untouched_def same_window_def split: if_splits)

lemma end_pause_gate_untouched: "end_pause_gate event play_state url now c = (stop, c') \<Longrightarrow> untouched c c' \<and> same_window c c'"
  by (auto simp: end_pause_gate_def untouched_def same_window_def split: if_splits)

lemma programmatic_gate_untouched: "programmatic_gate event play_state url v now c = (stop, c') \<Longrightarrow> untouched c c'"
  by (auto simp: programmatic_gate_def untouched_def split: prod.splits)

lemma followup_gate_untouched: "followup_gate event play_state url now c = (stop, c') \<Longrightarrow> untouched c c' \<and> same_window c c'"
  by (auto simp: followup_gate_def untouched_def same_window_def split: prod.splits)

lemma echo_gate_untouched: "echo_gate play_state url v now c = (stop, c') \<Longrightarrow> untouched c c' \<and> same_window c c'"
  by (auto simp: echo_gate_def untouched_def same_window_def split: prod.splits if_splits)

lemma transition_gate_untouched: "transition_gate play_state url v now c = (stop, c') \<Longrightarrow> untouched c c' \<and> same_window c c'"
  by (auto simp: transition_gate_def untouched_def same_window_def split: prod.splits)

lemma untouched_play_state:
  "untouched c c' \<Longrightarrow> get_broadcast_play_state v event now c' = get_broadcast_play_state v event now c"
  unfolding untouched_def get_broadcast_play_state_def reported_play_state_def by (elim conjE) (simp only:)

lemma untouched_base_rate:
  "untouched c c' \<Longrightarrow> get_active_correction_base_rate url c' = get_active_correction_base_rate url c"
  unfolding untouched_def get_active_correction_base_rate_def matches_active_session_def by (elim conjE) (simp only:)

text \<open>The first guards, as one step: the page shows the shared video and nothing holds it back.\<close>

lemma resumed:
  assumes "broadcast_resume norm_url b page now updated_at c = (c', outcome)"
  obtains (skipped) reason where "outcome = Skipped reason"
      "reason \<in> {Skip_Stale_Context, Skip_No_Video, Skip_Sharer_Ended, Skip_Stale_Url, Skip_Non_Shared}"
  | (shared) current v d where "page = Some current" "the_video c = Some v" "untouched c d" "same_window c d"
      "same_playback_context (bc_generation b) (bc_video_id b) c"
      "\<not> on_non_shared_page (norm_url (sv_url current)) c"
      "broadcast_shared norm_url b current v now updated_at d = (c', outcome)"
proof (cases "the_video c")
  case None
  then show thesis using assms skipped by (auto simp: broadcast_resume_def)
next
  case (Some v)
  show thesis
  proof (cases "same_playback_context (bc_generation b) (bc_video_id b) c \<and> page \<noteq> None")
    case False
    then show thesis using assms Some skipped by (auto simp: broadcast_resume_def split: if_splits)
  next
    case True
    then obtain current where current: "page = Some current" by auto
    let ?url = "norm_url (sv_url current)"
    obtain ended c1 where ended: "sharer_ended_gate ?url now c = (ended, c1)" by fastforce
    obtain stale c2 where stale: "settle_gate (bc_confirmed b) ?url now c1 = (stale, c2)" by fastforce
    have kept: "untouched c c2" "same_window c c2"
      using sharer_ended_gate_untouched [OF ended] settle_gate_untouched [OF stale] untouched_trans same_window_trans by blast+
    have page: "on_non_shared_page ?url c2 = on_non_shared_page ?url c"
      using kept(1) by (simp add: on_non_shared_page_def untouched_def)
    have body: "(if ended then (c1, Skipped Skip_Sharer_Ended)
        else if stale then (c2, Skipped Skip_Stale_Url)
        else if on_non_shared_page ?url c2 then (note_non_shared_page ?url c2, Skipped Skip_Non_Shared)
        else broadcast_shared norm_url b current v now updated_at (c2\<lparr> last_non_shared_guard_url := None \<rparr>)) = (c', outcome)"
      using assms Some True current ended stale by (simp add: broadcast_resume_def Let_def split: if_splits)
    have d: "untouched c (c2\<lparr> last_non_shared_guard_url := None \<rparr>)" "same_window c (c2\<lparr> last_non_shared_guard_url := None \<rparr>)"
      using kept by (simp_all add: untouched_def same_window_def)
    have "(\<exists>reason \<in> {Skip_Stale_Context, Skip_No_Video, Skip_Sharer_Ended, Skip_Stale_Url, Skip_Non_Shared}. outcome = Skipped reason)
        \<or> (\<not> on_non_shared_page ?url c2
            \<and> broadcast_shared norm_url b current v now updated_at (c2\<lparr> last_non_shared_guard_url := None \<rparr>) = (c', outcome))"
      using body by (auto split: if_splits)
    then show thesis
      using skipped shared [OF current Some d] True page by blast
  qed
qed

lemma send_playback_sent:
  assumes "send_playback norm_url b current v play_state rate now updated_at d = (c', Sent payload)"
  shows "pb_url payload = sv_url current \<and> pb_play_state payload = play_state \<and> pb_playback_rate payload = rate
    \<and> pb_current_time payload = vd_current_time v
    \<and> pb_actor_id payload = (case local_member_id d of None \<Rightarrow> ''local'' | Some m \<Rightarrow> m)
    \<and> pb_seq payload = of_nat (content_seq d) \<and> content_seq c' = content_seq d + 1
    \<and> the_video c' = the_video d \<and> active_soft_apply c' = active_soft_apply d
    \<and> resolved_shared_video_url c' = resolved_shared_video_url d \<and> active_shared_url c' = active_shared_url d
    \<and> intended_play_state c' = play_state \<and> intended_playback_rate c' = rate"
proof -
  let ?c1 = "d\<lparr> last_broadcast_at := now, intended_play_state := play_state, intended_playback_rate := rate,
      last_local_intent_at := now, last_local_intent_play_state := Some play_state, content_seq := content_seq d + 1 \<rparr>"
  have "payload = create_playback_broadcast_payload current (vd_current_time v) play_state
        (derive_playback_sync_intent (bc_event b) (last_explicit_user_action d) (last_forced_pause_at d) now)
        (derive_user_initiated_pause (bc_event b) play_state (last_explicit_user_action d) (last_forced_pause_at d)
          (programmatic_apply_until d)
          (if programmatic_apply_scope d = Scope_All then map_option sg_play_state (programmatic_apply_signature d) else None) now)
        (bc_natural_end b) rate (case local_member_id d of None \<Rightarrow> ''local'' | Some m \<Rightarrow> m) (of_nat (content_seq d)) updated_at"
    and "c' = remember_pending_local_override norm_url payload now ?c1"
    using assms by (auto simp: send_playback_def Let_def split: if_splits)
  then show ?thesis
    by (auto simp: create_playback_broadcast_payload_def remember_pending_local_override_def)
qed

definition room_rate :: "string option \<Rightarrow> video \<Rightarrow> content \<Rightarrow> rat" where
  "room_rate url v c = (case get_active_correction_base_rate url c of Some base \<Rightarrow> base | None \<Rightarrow> vd_playback_rate v)"

text \<open>The guards after the speed is known.\<close>

lemma unsuppressed:
  assumes "broadcast_unsuppressed norm_url b current play_state now updated_at c = (c', outcome)"
    and "the_video c = Some v"
  obtains (skipped) reason where "outcome = Skipped reason" | (held) hold where "outcome = Held hold"
  | (sending) d where "untouched c d" "same_window c d"
      "\<not> should_suppress_unexpected_playback_rate_broadcast (room_rate (norm_url (sv_url current)) v c) (bc_event b) now c"
      "send_playback norm_url b current v play_state (room_rate (norm_url (sv_url current)) v c) now updated_at d = (c', outcome)"
proof -
  let ?url = "norm_url (sv_url current)"
  let ?rate = "room_rate ?url v c"
  obtain following c1 where g1: "followup_gate (bc_event b) play_state ?url now c = (following, c1)" by fastforce
  obtain echo c2 where g2: "echo_gate play_state ?url v now c1 = (echo, c2)" by fastforce
  obtain transition c3 where g3: "transition_gate play_state ?url v now c2 = (transition, c3)" by fastforce
  have kept: "untouched c c3" "same_window c c3"
    using followup_gate_untouched [OF g1] echo_gate_untouched [OF g2] transition_gate_untouched [OF g3]
      untouched_trans same_window_trans by blast+
  have "(\<exists>reason. outcome = Skipped reason) \<or> (\<exists>hold. outcome = Held hold)
    \<or> (\<not> should_suppress_unexpected_playback_rate_broadcast ?rate (bc_event b) now c
        \<and> send_playback norm_url b current v play_state ?rate now updated_at c3 = (c', outcome))"
    using assms unfolding broadcast_unsuppressed_def Let_def room_rate_def
    by (auto simp: g1 g2 g3 split: if_splits)
  then show thesis using skipped held sending [OF kept] by blast
qed

text \<open>The guards before it: the reported state, the programmatic window, the correction session.\<close>

definition after_interrupt :: "(string \<Rightarrow> string option) \<Rightarrow> play_state \<Rightarrow> string option \<Rightarrow> rat \<Rightarrow> content \<Rightarrow> content" where
  "after_interrupt norm_url play_state url now c =
     (if play_state \<noteq> Playing \<and> is_active_rate_only_catch_up url c
      then clear_remote_follow_playing_window (cancel_active_soft_apply norm_url Buffer_Interrupt now c) else c)"

lemma shared_page:
  assumes "broadcast_shared norm_url b current v now updated_at c = (c', outcome)"
  obtains (skipped) reason where "outcome = Skipped reason"
  | (through) c1 c2 where "untouched c c1" "same_window c c1" "untouched c c2"
      "end_pause_gate (bc_event b) (get_broadcast_play_state v (bc_event b) now c) (norm_url (sv_url current)) now c = (False, c1)"
      "programmatic_gate (bc_event b) (get_broadcast_play_state v (bc_event b) now c) (norm_url (sv_url current)) v now c1 = (False, c2)"
      "broadcast_unsuppressed norm_url b current (get_broadcast_play_state v (bc_event b) now c) now updated_at
         (after_interrupt norm_url (get_broadcast_play_state v (bc_event b) now c) (norm_url (sv_url current)) now c2) = (c', outcome)"
proof -
  let ?url = "norm_url (sv_url current)" and ?ps = "get_broadcast_play_state v (bc_event b) now c"
  obtain end_pause c1 where g1: "end_pause_gate (bc_event b) ?ps ?url now c = (end_pause, c1)" by fastforce
  obtain programmatic c2 where g2: "programmatic_gate (bc_event b) ?ps ?url v now c1 = (programmatic, c2)" by fastforce
  have kept: "untouched c c1" "same_window c c1" "untouched c c2"
    using end_pause_gate_untouched [OF g1] programmatic_gate_untouched [OF g2] untouched_trans by blast+
  have "(\<exists>reason. outcome = Skipped reason) \<or> (\<not> end_pause \<and> \<not> programmatic
      \<and> broadcast_unsuppressed norm_url b current ?ps now updated_at (after_interrupt norm_url ?ps ?url now c2) = (c', outcome))"
    using assms unfolding broadcast_shared_def Let_def after_interrupt_def
    by (auto simp: g1 g2 split: if_splits)
  then show thesis using skipped through [OF kept] g1 g2 by auto
qed

lemma after_interrupt_keeps:
  "content_seq (after_interrupt norm_url ps url now c) = content_seq c
   \<and> local_member_id (after_interrupt norm_url ps url now c) = local_member_id c
   \<and> last_explicit_user_action (after_interrupt norm_url ps url now c) = last_explicit_user_action c
   \<and> last_explicit_playback_action (after_interrupt norm_url ps url now c) = last_explicit_playback_action c
   \<and> last_forced_pause_at (after_interrupt norm_url ps url now c) = last_forced_pause_at c
   \<and> intended_playback_rate (after_interrupt norm_url ps url now c) = intended_playback_rate c
   \<and> room_confirmed_broadcast (after_interrupt norm_url ps url now c) = room_confirmed_broadcast c
   \<and> suppressed_remote (after_interrupt norm_url ps url now c) = suppressed_remote c
   \<and> (the_video (after_interrupt norm_url ps url now c) = None) = (the_video c = None)"
  by (simp add: after_interrupt_def clear_remote_follow_playing_window_def cancel_active_soft_apply_def
      clear_active_soft_apply_state_def cancel_restore_def cancel_cooldown_def clear_soft_apply_cooldown_def
      arm_soft_apply_cooldown_def arm_programmatic_apply_window_def Let_def split: option.split)

text \<open>
  C12. What a page sends is what it plays of the room's video: the page and the element are the
  ones the broadcast was started for, inside a room the video is the shared one, the position is
  the element's, the sequence number is fresh, and the speed is the room's: during a correction it
  is the speed the correction gives back, never the one it plays at.
\<close>

theorem sent_updates_speak_for_the_room:
  assumes "broadcast_resume norm_url b page now updated_at c = (c', Sent payload)"
  shows "\<exists>current v. page = Some current \<and> the_video c' = Some v
    \<and> same_playback_context (bc_generation b) (bc_video_id b) c
    \<and> \<not> on_non_shared_page (norm_url (sv_url current)) c
    \<and> pb_url payload = sv_url current \<and> pb_current_time payload = vd_current_time v
    \<and> pb_playback_rate payload = room_rate (norm_url (sv_url current)) v c'
    \<and> pb_actor_id payload = (case local_member_id c of None \<Rightarrow> ''local'' | Some m \<Rightarrow> m)
    \<and> pb_seq payload = of_nat (content_seq c) \<and> content_seq c' = content_seq c + 1"
  using assms
proof (cases rule: resumed)
  case (shared current v d)
  let ?url = "norm_url (sv_url current)"
  from shared(7) show ?thesis
  proof (cases rule: shared_page)
    case (through c1 c2)
    let ?ps = "get_broadcast_play_state v (bc_event b) now d"
    let ?c3 = "after_interrupt norm_url ?ps ?url now c2"
    have same: "content_seq c2 = content_seq c" "local_member_id c2 = local_member_id c" "the_video c2 \<noteq> None"
      using shared(2,3) through(3) by (simp_all add: untouched_def)
    then obtain w where w: "the_video ?c3 = Some w" using after_interrupt_keeps [of norm_url ?ps ?url now c2] by auto
    from through(6) w show ?thesis
    proof (cases rule: unsuppressed)
      case (sending e)
      note sent = send_playback_sent [OF sending(4)]
      have "the_video c' = Some w" using sent sending(1) w by (simp add: untouched_def)
      moreover have "room_rate ?url w c' = room_rate ?url w ?c3"
      proof -
        have "get_active_correction_base_rate ?url c' = get_active_correction_base_rate ?url e"
          using sent unfolding get_active_correction_base_rate_def matches_active_session_def by (elim conjE) (simp only:)
        then show ?thesis using untouched_base_rate [OF sending(1)] by (simp only: room_rate_def)
      qed
      moreover have "content_seq e = content_seq c" "local_member_id e = local_member_id c"
        using sending(1) same after_interrupt_keeps [of norm_url ?ps ?url now c2] by (simp_all add: untouched_def)
      ultimately show ?thesis
        using shared(1,5,6) sent by (intro exI [of _ current] exI [of _ w]) (simp only: simp_thms)
    qed simp_all
  qed simp
qed simp

definition playing_bv :: video where
  "playing_bv = \<lparr> vd_id = 1, vd_paused = False, vd_current_time = 100, vd_playback_rate = 11 / 10,
     vd_default_playback_rate = 11 / 10, vd_ready_state = 4, vd_has_duration = True, vd_may_play = True \<rparr>"

definition shown_bv :: shared_video where
  "shown_bv = \<lparr> sv_video_id = ''BV1'', sv_url = ''BV1'', sv_title = [], sv_shared_by_member_id = None,
     sv_shared_by_display_name = None \<rparr>"

text \<open>A page that is catching up at 1.1 in a room that plays at 1; its member acts.\<close>

definition page_with :: "video \<Rightarrow> explicit_user_action option \<Rightarrow> content" where
  "page_with v action = initial_content\<lparr> local_member_id := Some ''bob'', active_room_code := Some ''ABC234'',
     active_shared_url := Some ''BV1'', page_video := Some shown_bv, hydration_ready := True,
     pending_room_state_hydration := False, has_received_initial_room_state := True, the_video := Some v,
     content_seq := 7, last_explicit_user_action := action,
     active_soft_apply := Some \<lparr> sa_url = ''BV1'', sa_target_time = 101, sa_restore_rate = 1, sa_deadline_at = 9000,
       sa_arm_cooldown = False, sa_relative_drift = True, sa_started_at = 4000 \<rparr> \<rparr>"

definition started_on :: "event_source \<Rightarrow> broadcast_context" where
  "started_on event = \<lparr> bc_generation = 0, bc_video_id = 1, bc_event = event, bc_natural_end = False, bc_confirmed = False \<rparr>"

lemmas broadcast_eval = broadcast_resume_def broadcast_shared_def broadcast_unsuppressed_def send_playback_def
  same_playback_context_def sharer_ended_gate_def settle_gate_def on_non_shared_page_def get_broadcast_play_state_def
  end_pause_gate_def programmatic_gate_def should_suppress_programmatic_event_def is_active_rate_only_catch_up_def
  matches_active_session_def should_suppress_active_soft_apply_broadcast_def get_active_correction_base_rate_def
  should_suppress_unexpected_playback_rate_broadcast_def recently_def followup_gate_def
  should_suppress_remote_followup_broadcast_def has_recent_remote_stop_intent_def echo_gate_def
  should_suppress_local_echo_def transition_gate_def should_suppress_remote_play_transition_def
  is_duplicate_broadcast_def reported_play_state_def get_reported_play_state_def element_play_state_def
  derive_playback_sync_intent_def acted_since_forced_pause_def user_gesture_grace_ms_def
  derive_user_initiated_pause_def create_playback_broadcast_payload_def remember_pending_local_override_def
  cancel_active_soft_apply_def cancel_restore_def cancel_cooldown_def clear_active_soft_apply_state_def
  clear_soft_apply_cooldown_def clear_remote_follow_playing_window_def arm_programmatic_apply_window_def
  set_video_playback_rate_def rates_differ_def norm_or_def acted_after_forced_pause_def

theorem sent_updates_speak_for_the_room_witness:
  "\<exists>c' payload. broadcast_resume Some (started_on On_Play) (Some shown_bv) 5000 0
       (page_with playing_bv (Some \<lparr> ea_kind = Act_Play, ea_at = 4900 \<rparr>)) = (c', Sent payload)
     \<and> pb_url payload = ''BV1'' \<and> pb_playback_rate payload = 1 \<and> pb_seq payload = 7"
proof -
  let ?c = "page_with playing_bv (Some \<lparr> ea_kind = Act_Play, ea_at = 4900 \<rparr>)"
  obtain c' payload where sent: "broadcast_resume Some (started_on On_Play) (Some shown_bv) 5000 0 ?c = (c', Sent payload)"
      "pb_playback_rate payload = 1"
    by (simp add: broadcast_eval page_with_def initial_content_def playing_bv_def shown_bv_def started_on_def Let_def)
  from sent_updates_speak_for_the_room [OF sent(1)] show ?thesis
    using sent by (auto simp: shown_bv_def page_with_def initial_content_def)
qed

subsection \<open>Echoes\<close>

lemma cancel_window:
  "(same_window c (cancel_active_soft_apply norm_url reason now c))
   \<or> programmatic_apply_scope (cancel_active_soft_apply norm_url reason now c) = Scope_Ratechange"
  by (simp add: cancel_active_soft_apply_def cancel_restore_def cancel_cooldown_def clear_active_soft_apply_state_def
      arm_soft_apply_cooldown_def clear_soft_apply_cooldown_def arm_programmatic_apply_window_def same_window_def Let_def
      split: option.split)

lemma upsert_window: "same_window c (upsert_active_soft_apply norm_url p drift arm close now c)"
  by (simp add: upsert_active_soft_apply_def clear_active_soft_apply_state_def schedule_active_soft_apply_timeout_def
      same_window_def Let_def split: option.split)

lemma cooldown_window: "same_window c (clear_soft_apply_cooldown c)"
  by (simp add: clear_soft_apply_cooldown_def same_window_def)

lemma adjusted_window:
  "same_window c (on_playback_adjusted norm_url ad p now c)
   \<or> programmatic_apply_scope (on_playback_adjusted norm_url ad p now c) = Scope_Ratechange"
proof -
  define c1 where "c1 = (if \<not> (ad_mode ad = Mode_Soft_Apply
            \<or> (ad_mode ad = Mode_Rate_Only \<and> rates_differ (ad_playback_rate ad) (ad_restore_rate ad)))
          \<and> \<not> (ad_reason ad = Buffering_Not_Authoritative \<and> \<not> ad_did_change ad)
        then clear_soft_apply_cooldown c else c)"
  have kept: "same_window c c1" by (simp add: c1_def cooldown_window)
  show ?thesis
    unfolding on_playback_adjusted_def Let_def c1_def [symmetric]
    using kept cancel_window [of c1 norm_url "Apply_Mode (ad_mode ad)" now] same_window_trans [OF kept upsert_window]
      same_window_trans [OF kept]
    by auto
qed

text \<open>An apply that opened a window at \<open>t\<close> signed it with the snapshot's video and state.\<close>

lemma applying_opens_window:
  assumes "pending_playback_application c = Some p" and "the_video c = Some v" and "can_apply_playback_immediately v"
    and "programmatic_apply_at c < t" and "programmatic_apply_at (apply_pending_playback_application norm_url t c) = t"
    and "programmatic_apply_scope (apply_pending_playback_application norm_url t c) = Scope_All"
  shows "\<exists>sig. programmatic_apply_signature (apply_pending_playback_application norm_url t c) = Some sig
    \<and> sg_url sig = norm_or norm_url (pb_url p) \<and> sg_play_state sig = pb_play_state p
    \<and> programmatic_apply_until (apply_pending_playback_application norm_url t c) = t + programmatic_apply_window_ms"
proof -
  let ?url = "norm_url (pb_url p)"
  obtain v1 ad where sync: "sync_playback_position (pb_current_time p) (pb_play_state p) (pb_sync_intent p)
      (pb_playback_rate p) (is_active_rate_only_catch_up ?url c) (has_active_correction_session ?url c) v = (v1, ad)" by fastforce
  let ?c1 = "on_playback_adjusted norm_url ad p t (c\<lparr> pending_playback_application := None, the_video := Some v1 \<rparr>)"
  let ?changed = "ad_did_change ad \<or> (pb_play_state p = Playing \<and> vd_paused v) \<or> (pb_play_state p = Paused \<and> \<not> vd_paused v)"
  have result: "same_window (if ?changed then arm_programmatic_apply_window norm_url
        (create_programmatic_playback_signature (p\<lparr> pb_current_time := ad_current_time ad, pb_playback_rate := ad_playback_rate ad \<rparr>))
        Scope_All t ?c1 else ?c1) (apply_pending_playback_application norm_url t c)"
    using assms(1-3) by (auto simp: apply_pending_playback_application_def sync Let_def same_window_def)
  have ?changed
  proof (rule ccontr)
    assume "\<not> ?changed"
    then have "same_window ?c1 (apply_pending_playback_application norm_url t c)" using result by (simp only: if_False)
    then show False
      using assms(4-6) adjusted_window [of "c\<lparr> pending_playback_application := None, the_video := Some v1 \<rparr>" norm_url ad p t]
      by (auto simp: same_window_def)
  qed
  then show ?thesis
    using result by (auto simp: same_window_def arm_programmatic_apply_window_def create_programmatic_playback_signature_def)
qed

definition near_signature :: "video \<Rightarrow> playback_signature \<Rightarrow> bool" where
  "near_signature v sig =
     (\<bar>vd_current_time v - sg_current_time sig\<bar> \<le> 1 / 4 \<and> \<bar>vd_playback_rate v - sg_playback_rate sig\<bar> \<le> 1 / 100)"

definition idle_since :: "rat \<Rightarrow> content \<Rightarrow> bool" where
  "idle_since t c = (case last_explicit_user_action c of None \<Rightarrow> True | Some a \<Rightarrow> ea_at a < t)"

lemma idle_play_state:
  assumes "idle_since (programmatic_apply_at c) c"
  shows "get_broadcast_play_state v event now c = reported_play_state v now c"
  using assms by (auto simp: get_broadcast_play_state_def idle_since_def split: option.splits)

lemma programmatic_gate_closes:
  assumes "programmatic_apply_signature c = Some sig" and "now < programmatic_apply_until c"
    and "programmatic_apply_scope c = Scope_All" and "idle_since (programmatic_apply_at c) c"
    and "url = Some (sg_url sig)" and "sg_url sig \<noteq> []" and "near_signature v sig"
    and "is_programmatic_playback_state_compatible play_state (sg_play_state sig)"
  shows "fst (programmatic_gate event play_state url v now c)"
proof -
  have "1 / 4 \<le> get_programmatic_event_threshold event play_state"
    by (auto simp: get_programmatic_event_threshold_def)
  then have "\<bar>vd_current_time v - sg_current_time sig\<bar> \<le> get_programmatic_event_threshold event play_state"
    using assms(7) by (simp add: near_signature_def)
  then show ?thesis
    using assms
    by (cases "last_explicit_user_action c")
      (auto simp: programmatic_gate_def should_suppress_programmatic_event_def near_signature_def idle_since_def
        split: prod.split)
qed

text \<open>While a window is open and the element is where the signature says, nothing is sent.\<close>

lemma window_silences:
  assumes "programmatic_apply_signature c = Some sig" and "now < programmatic_apply_until c"
    and "programmatic_apply_scope c = Scope_All" and idle: "idle_since (programmatic_apply_at c) c"
    and "truthy (active_room_code c)" and "active_shared_url c = Some (sg_url sig)" and "sg_url sig \<noteq> []"
    and "the_video c = Some v" and near: "near_signature v sig"
    and "is_programmatic_playback_state_compatible (reported_play_state v now c) (sg_play_state sig)"
  shows "broadcast_resume norm_url b page now updated_at c \<noteq> (c', Sent payload)"
proof
  assume resume: "broadcast_resume norm_url b page now updated_at c = (c', Sent payload)"
  then show False
  proof (cases rule: resumed)
    case (shared current w d)
    let ?url = "norm_url (sv_url current)"
    have on_share: "?url = Some (sg_url sig)" using shared(6) assms(5-7) by (auto simp: on_non_shared_page_def)
    have w: "w = v" using shared(2) assms(8) by simp
    have idle_d: "idle_since (programmatic_apply_at d) d"
      using idle shared(3) unfolding idle_since_def untouched_def by (elim conjE) (simp only:)
    from shared(7) show False
    proof (cases rule: shared_page)
      case (through c1 c2)
      let ?ps = "get_broadcast_play_state w (bc_event b) now d"
      have "?ps = reported_play_state v now c"
        using idle_play_state [OF idle_d] shared(3) w by (simp add: reported_play_state_def untouched_def)
      then have compatible: "is_programmatic_playback_state_compatible ?ps (sg_play_state sig)" using assms(10) by simp
      have kept: "same_window c c1" "untouched c c1"
        using shared(3,4) through(1,2) by (blast intro: same_window_trans untouched_trans)+
      have window: "programmatic_apply_signature c1 = Some sig" "now < programmatic_apply_until c1"
          "programmatic_apply_scope c1 = Scope_All"
        using kept(1) assms(1-3) by (simp_all add: same_window_def)
      have idle1: "idle_since (programmatic_apply_at c1) c1"
        using kept(2) idle unfolding untouched_def idle_since_def by (elim conjE) (simp only:)
      have "fst (programmatic_gate (bc_event b) ?ps ?url w now c1)"
        using programmatic_gate_closes [OF window idle1 on_share assms(7) _ compatible] near w by simp
      then show False using through(5) by simp
    qed simp
  qed simp
qed

text \<open>
  Following the room does not talk back to it. From the moment a snapshot was written to the
  player until the window it opened closes 700 ms later, no event of the element leads to an
  update, whichever event it is and whatever page is looked up, as long as the element stays near
  where it was put and the user has not acted since.
\<close>

theorem applied_state_does_not_echo:
  assumes "pending_playback_application c0 = Some p" and "the_video c0 = Some v0" and "can_apply_playback_immediately v0"
    and "programmatic_apply_at c0 < t" and "programmatic_apply_at (apply_pending_playback_application norm_url t c0) = t"
    and "programmatic_apply_scope (apply_pending_playback_application norm_url t c0) = Scope_All"
    and "same_window (apply_pending_playback_application norm_url t c0) c" and "now < t + 700" and "idle_since t c"
    and "truthy (active_room_code c)" and "truthy (active_shared_url c)" and "norm_url (pb_url p) = active_shared_url c"
    and "the_video c = Some v" and "near_signature v (the (programmatic_apply_signature c))"
    and "is_programmatic_playback_state_compatible (reported_play_state v now c) (pb_play_state p)"
  shows "snd (broadcast_resume norm_url b page now updated_at c) \<noteq> Sent payload"
proof
  assume sent: "snd (broadcast_resume norm_url b page now updated_at c) = Sent payload"
  obtain c' where resume: "broadcast_resume norm_url b page now updated_at c = (c', Sent payload)"
    using sent by (metis prod.collapse)
  obtain sig where sig: "programmatic_apply_signature c = Some sig" "sg_url sig = norm_or norm_url (pb_url p)"
      "sg_play_state sig = pb_play_state p" "programmatic_apply_until c = t + programmatic_apply_window_ms"
      "programmatic_apply_at c = t" "programmatic_apply_scope c = Scope_All"
    using applying_opens_window [OF assms(1-6)] assms(5-7) by (auto simp: same_window_def)
  obtain url where url: "active_shared_url c = Some url" "url \<noteq> []" using assms(11) by auto
  have "sg_url sig = url" using sig(2) assms(12) url by (simp add: norm_or_def)
  then show False
    using window_silences [OF sig(1) _ sig(6) _ assms(10) _ _ assms(13), of now norm_url b page updated_at c' payload]
      sig url assms(8,9,14,15) resume
    by (simp add: programmatic_apply_window_ms_def)
qed

text \<open>A page that plays when the room's pause at the same place arrives.\<close>

definition room_pause_bv :: playback_state where
  "room_pause_bv = \<lparr> pb_url = ''BV1'', pb_current_time = 100, pb_play_state = Paused,
     pb_sync_intent = None, pb_user_initiated = None, pb_natural_end = None, pb_playback_rate = 1, pb_updated_at = 0, pb_server_time = 0,
     pb_actor_id = ''alice'', pb_seq = 3 \<rparr>"

definition paused_bv :: video where
  "paused_bv = playing_bv\<lparr> vd_playback_rate := 1, vd_default_playback_rate := 1, vd_paused := True \<rparr>"

definition told_to_pause :: content where
  "told_to_pause = (page_with (playing_bv\<lparr> vd_playback_rate := 1, vd_default_playback_rate := 1 \<rparr>) None)
     \<lparr> active_soft_apply := None, pending_playback_application := Some room_pause_bv \<rparr>"

lemmas adjust_eval = apply_pending_playback_application_def sync_playback_position_def decide_playback_reconcile_mode_def
  on_playback_adjusted_def can_apply_playback_immediately_def should_treat_as_explicit_seek_def set_play_state_def
  pause_video_def create_programmatic_playback_signature_def has_active_correction_session_def write_rate_if_def
  reconcile_thresholds content_windows

theorem applied_state_does_not_echo_witness:
  "\<nexists>payload. snd (broadcast_resume Some (started_on On_Pause) (Some shown_bv) 5100 0
     (apply_pending_playback_application Some 5000 told_to_pause)) = Sent payload"
proof -
  let ?c = "apply_pending_playback_application Some 5000 told_to_pause"
  have "snd (broadcast_resume Some (started_on On_Pause) (Some shown_bv) 5100 0 ?c) \<noteq> Sent payload" for payload
    by (rule applied_state_does_not_echo [where ?c0.0 = told_to_pause and t = 5000 and p = room_pause_bv
          and ?v0.0 = "playing_bv\<lparr> vd_playback_rate := 1, vd_default_playback_rate := 1 \<rparr>"
          and v = "playing_bv\<lparr> vd_playback_rate := 1, vd_default_playback_rate := 1, vd_paused := True \<rparr>"])
      (simp_all add: told_to_pause_def page_with_def initial_content_def playing_bv_def room_pause_bv_def
        adjust_eval broadcast_eval near_signature_def idle_since_def is_programmatic_playback_state_compatible_def is_inside_buffer_pause_window_def
        Let_def)
  then show ?thesis by blast
qed

end
