(* ===== verification/Page_Silence.thy ===== *)
theory Page_Silence
  imports Page_Events Broadcast_Safety
begin

text \<open>
  A page that follows the room is silent: after a snapshot was written to the player, whatever the
  browser dispatches because of it, and whatever was queued before, the room hears nothing.
\<close>

lemma adjusted_takes_pending:
  "pending_playback_application (on_playback_adjusted norm_url ad q now c) = pending_playback_application c"
  by (simp add: on_playback_adjusted_def cancel_active_soft_apply_def cancel_restore_def cancel_cooldown_def
      upsert_active_soft_apply_def schedule_active_soft_apply_timeout_def clear_active_soft_apply_state_def
      clear_soft_apply_cooldown_def arm_soft_apply_cooldown_def arm_programmatic_apply_window_def Let_def split: option.split)

lemma applied_is_taken:
  assumes "pending_playback_application c = Some q" and "the_video c = Some v" and "can_apply_playback_immediately v"
  shows "pending_playback_application (apply_pending_playback_application norm_url now c) = None"
  using assms
  by (simp add: apply_pending_playback_application_def adjusted_takes_pending arm_programmatic_apply_window_def Let_def
      split: prod.split)

subsection \<open>A window that is open and nobody's action\<close>

definition no_gesture_in_player_since :: "rat \<Rightarrow> content \<Rightarrow> bool" where
  "no_gesture_in_player_since t c = (case last_user_gesture_in_player_at c of None \<Rightarrow> True | Some g \<Rightarrow> g < t)"

definition calm :: "rat \<Rightarrow> playback_signature \<Rightarrow> content \<Rightarrow> bool" where
  "calm t sig c =
     (programmatic_apply_signature c = Some sig \<and> programmatic_apply_until c = t + 700
      \<and> programmatic_apply_scope c = Scope_All \<and> programmatic_apply_at c = t
      \<and> idle_since t c \<and> no_gesture_in_player_since t c
      \<and> pending_playback_application c = None \<and> active_soft_apply c = None
      \<and> truthy (active_room_code c) \<and> active_shared_url c = Some (sg_url sig) \<and> sg_url sig \<noteq> [])"

definition silent :: "rat \<Rightarrow> playback_signature \<Rightarrow> playback_state list \<Rightarrow> page \<Rightarrow> bool" where
  "silent t sig sent p = (calm t sig (pg_content p) \<and> pg_sent p = sent)"

lemmas calm_simps = calm_def idle_since_def no_gesture_in_player_since_def

lemma silent_on_content:
  "silent t sig sent p \<Longrightarrow> (\<And>c. calm t sig c \<Longrightarrow> calm t sig (f c)) \<Longrightarrow> silent t sig sent (on_content f p)"
  by (simp add: silent_def on_content_def)

lemma silent_add_task [simp]: "silent t sig sent (add_task task p) = silent t sig sent p"
  by (simp add: silent_def add_task_def)

lemma calm_echo:
  assumes "calm t sig c" and "now < t + 700"
  shows "remember_explicit_user_action kind now c = c" and "remember_explicit_playback_action play_state now c = c"
proof -
  have "is_programmatic_event_echo k now c" for k
    using assms by (auto simp: is_programmatic_event_echo_def calm_simps split: option.splits)
  then show "remember_explicit_user_action kind now c = c" "remember_explicit_playback_action play_state now c = c"
    by (simp_all add: remember_explicit_user_action_def remember_explicit_playback_action_def)
qed

lemma calm_no_session:
  assumes "calm t sig c"
  shows "cancel_active_soft_apply norm_url reason now c = c" and "maintain_active_soft_apply norm_url now c = c"
    and "apply_pending_playback_application norm_url now c = c"
  using assms
  by (simp_all add: calm_def cancel_active_soft_apply_def maintain_active_soft_apply_def apply_pending_playback_application_def)

lemma calm_force_pause: "calm t sig c \<Longrightarrow> calm t sig (force_pause_video v now c)"
  unfolding force_pause_video_def by (simp add: calm_simps)

lemma calm_hold: "calm t sig c \<Longrightarrow> calm t sig (activate_pause_hold ms now c)"
  by (simp add: calm_simps activate_pause_hold_def)

lemma calm_pre_authorize:
  "calm t sig c \<Longrightarrow> now < t + 700 \<Longrightarrow> calm t sig (pre_authorize_explicit_non_shared_play norm_url pu now c)"
  by (simp add: pre_authorize_explicit_non_shared_play_def calm_echo Let_def) (simp add: calm_simps)

lemma calm_non_shared_page:
  assumes "calm t sig c"
  shows "calm t sig (snd (force_pause_on_non_shared_page norm_url pu v now c))"
  using assms
  by (simp add: force_pause_on_non_shared_page_def Let_def calm_simps split: prod.split)

lemma calm_queued_pause: "calm t sig c \<Longrightarrow> calm t sig (queued_pause_fires norm_url pu generation video_id premise now c)"
  by (simp add: queued_pause_fires_def calm_force_pause split: option.split)

lemma calm_load_pause: "calm t sig c \<Longrightarrow> calm t sig (load_pause_fires generation video_id url now c)"
  by (simp add: load_pause_fires_def calm_force_pause split: option.split)

lemma calm_stop_hold: "calm t sig c \<Longrightarrow> calm t sig (remote_stop_hold_fires norm_url h now c)"
  by (simp add: remote_stop_hold_fires_def calm_force_pause split: option.split)

lemma calm_ack: "calm t sig c \<Longrightarrow> calm t sig (playback_update_acknowledged generation video_id payload answered c)"
  by (simp add: playback_update_acknowledged_def calm_simps)

lemma calm_mark_end: "calm t sig c \<Longrightarrow> calm t sig (mark_shared_video_natural_end norm_url video ended_at c)"
  by (simp add: mark_shared_video_natural_end_def calm_simps)

lemma calm_hold_at_end: "calm t sig c \<Longrightarrow> calm t sig (hold_non_sharer_at_shared_video_end v now c)"
  unfolding hold_non_sharer_at_shared_video_end_def
  by (intro calm_force_pause calm_hold) (simp add: calm_simps)

lemma calm_arm_retry: "calm t sig c \<Longrightarrow> calm t sig (snd (arm_hydration_retry delay attempt now c))"
  by (simp add: arm_hydration_retry_def calm_simps)

lemma calm_preempt: "calm t sig c \<Longrightarrow> calm t sig (snd (preempt_hydration_retry delay attempt now c))"
  unfolding preempt_hydration_retry_def
  by (auto split: option.split intro!: calm_arm_retry) (auto simp: clear_hydration_retry_timer_def calm_simps)

lemma calm_bound:
  assumes "calm t sig c"
  shows "calm t sig (notify_video_element_bound now c)"
proof -
  let ?c = "c\<lparr> bound_video_attempt := bound_video_attempt c + 1 \<rparr>"
  obtain won c' where preempt:
    "preempt_hydration_retry bound_video_hydration_delay_ms (bound_video_attempt c) now ?c = (won, c')" by fastforce
  have "calm t sig ?c" using assms by (simp add: calm_simps)
  then have "calm t sig c'" using calm_preempt [of t sig ?c] preempt by (metis snd_conv)
  then have "calm t sig (c'\<lparr> hydrate_retry_attempt := 0 \<rparr>)" by (simp add: calm_simps)
  then show ?thesis
    using assms \<open>calm t sig c'\<close> by (simp add: notify_video_element_bound_def Let_def preempt [simplified])
qed

lemma calm_gesture: "calm t sig c \<Longrightarrow> \<not> is_gesture_inside_player e \<Longrightarrow> calm t sig (on_gesture e now c)"
  by (auto simp: on_gesture_def gesture_of_def calm_simps Let_def)

lemma calm_hydration_timer: "calm t sig c \<Longrightarrow> calm t sig (snd (hydration_timer_fires now c))"
  by (simp add: hydration_timer_fires_def clear_hydration_retry_timer_def calm_simps split: option.split)

lemma calm_correction_timer: "calm t sig c \<Longrightarrow> calm t sig (soft_apply_timer_fires norm_url now c)"
  by (simp add: soft_apply_timer_fires_def calm_simps split: option.split)

subsection \<open>Listeners and tasks\<close>

definition in_place :: "playback_signature \<Rightarrow> rat \<Rightarrow> content \<Rightarrow> bool" where
  "in_place sig now c =
     (case the_video c of
        None \<Rightarrow> True
      | Some v \<Rightarrow> near_signature v sig \<and> is_programmatic_playback_state_compatible (reported_play_state v now c) (sg_play_state sig))"

lemma silent_cleared: "silent t sig sent p \<Longrightarrow> silent t sig sent (clear_active_pause_classification v p)"
  by (simp add: silent_def clear_active_pause_classification_def clear_buffer_upgrade_timer_def on_content_def
      clear_extension_pause_ownership_def calm_simps)

lemma silent_classify:
  assumes "silent t sig sent p"
  shows "silent t sig sent (classify_unobserved_pause_as_buffer norm_url v now p)"
proof -
  have "silent t sig sent (arm_buffer_pause_upgrade v now
      (on_content (\<lambda>c. c\<lparr> pause_started_at := now, pause_classified_as_buffer := True \<rparr>) p))"
    using assms by (simp add: silent_def arm_buffer_pause_upgrade_def on_content_def calm_simps)
  then show ?thesis using assms silent_cleared by (simp add: classify_unobserved_pause_as_buffer_def Let_def)
qed

lemma silent_broadcast: "silent t sig sent p \<Longrightarrow> silent t sig sent (broadcast_playback event now p)"
  by (simp add: broadcast_playback_def Let_def split: option.split)

lemma silent_schedule: "silent t sig sent p \<Longrightarrow> silent t sig sent (schedule_broadcast norm_url v event follow_up now p)"
  by (simp add: schedule_broadcast_def Let_def silent_broadcast silent_classify split: option.split)

lemma silent_enforce:
  assumes "silent t sig sent p" and "now < t + 700"
  shows "silent t sig sent (enforce_non_shared_load_pause norm_url pu now p)"
proof -
  have "silent t sig sent (on_content (pre_authorize_explicit_non_shared_play norm_url pu now) p)"
    using assms by (blast intro: silent_on_content calm_pre_authorize)
  moreover have "silent t sig sent (on_content (\<lambda>c. activate_pause_hold ms now
      (c\<lparr> intended_play_state := s, non_sharer_autoplay_hold_url := url \<rparr>)) p)" for ms s url
    by (rule silent_on_content [OF assms(1)], rule calm_hold) (simp add: calm_simps)
  ultimately show ?thesis using assms(1) by (simp add: enforce_non_shared_load_pause_def Let_def split: option.split)
qed

lemma silent_waiting:
  assumes "silent t sig sent p"
  shows "silent t sig sent (snd (force_pause_while_waiting_for_initial_room_state norm_url pu v p))"
proof -
  have "silent t sig sent (on_content (\<lambda>c. c\<lparr> intended_play_state := Paused \<rparr>) p)"
    by (rule silent_on_content [OF assms]) (simp add: calm_simps)
  then show ?thesis
    using assms by (simp add: force_pause_while_waiting_for_initial_room_state_def queue_pause_if_current_def)
qed

lemma silent_guard:
  assumes "silent t sig sent p" and "now < t + 700"
  shows "silent t sig sent (snd (guard_unexpected_resume norm_url pu v now p))"
proof -
  have forgot: "silent t sig sent (on_content (\<lambda>c. c\<lparr> last_explicit_user_action := None,
      explicit_seek_origin_play_state := None, last_explicit_playback_action := None \<rparr>) p)"
    by (rule silent_on_content [OF assms(1)]) (simp add: calm_simps)
  have unconfirmed: "silent t sig sent (on_content (\<lambda>c. c\<lparr> explicit_non_shared_playback_url := None,
      last_non_shared_guard_url := None \<rparr>) p)"
    by (rule silent_on_content [OF assms(1)]) (simp add: calm_simps)
  obtain held c1 where page: "force_pause_on_non_shared_page norm_url pu v now (pg_content p) = (held, c1)" by fastforce
  then have "silent t sig sent (p\<lparr> pg_content := c1 \<rparr>)"
    using calm_non_shared_page [of t sig "pg_content p" norm_url pu v now] assms(1) by (simp add: silent_def)
  then show ?thesis
    using forgot unconfirmed assms silent_waiting silent_enforce
    by (simp add: guard_unexpected_resume_def Let_def queue_pause_if_current_def page)
qed

lemma silent_playing:
  assumes "silent t sig sent p" and "now < t + 700"
  shows "silent t sig sent (start_playing norm_url pu event v now p)"
proof -
  let ?p1 = "if should_pre_record_non_shared_explicit_play norm_url pu now (pg_content p)
             then on_content (pre_authorize_explicit_non_shared_play norm_url pu now) p else p"
  have one: "silent t sig sent ?p1"
    using assms by (auto intro: silent_on_content calm_pre_authorize)
  obtain held p2 where guard: "guard_unexpected_resume norm_url pu v now ?p1 = (held, p2)" by fastforce
  then have two: "silent t sig sent p2" using silent_guard [OF one assms(2), of norm_url pu v] by simp
  then have "silent t sig sent (on_content
      (remember_explicit_user_action Act_Play now \<circ> remember_explicit_playback_action Playing now)
      (clear_active_pause_classification v p2))"
    using assms(2) by (intro silent_on_content silent_cleared) (simp_all add: calm_echo)
  then show ?thesis using two silent_schedule by (simp add: start_playing_def Let_def guard)
qed

lemma silent_with_element:
  "silent t sig sent p \<Longrightarrow> (\<And>v. silent t sig sent (f v p)) \<Longrightarrow> silent t sig sent (with_element f p)"
  by (simp add: with_element_def split: option.split)

lemma silent_pause:
  assumes "silent t sig sent p" and "now < t + 700"
  shows "silent t sig sent (continue_ordinary_pause norm_url video v now p)"
proof -
  let ?p1 = "if has_recent_user_gesture now (pg_content p)
             then on_content (cancel_active_soft_apply norm_url User_Action now) p else p"
  have one: "silent t sig sent ?p1"
    using assms by (auto intro: silent_on_content simp: calm_no_session)
  have two: "silent t sig sent (clear_buffer_upgrade_timer (on_content (\<lambda>c. c\<lparr> pause_started_at := f c,
      pause_classified_as_buffer := buffer \<rparr>) ?p1))" for f buffer
    using silent_on_content [OF one, of "\<lambda>c. c\<lparr> pause_started_at := f c, pause_classified_as_buffer := buffer \<rparr>"]
    by (simp add: silent_def clear_buffer_upgrade_timer_def calm_simps)
  have armed: "silent t sig sent q \<Longrightarrow> silent t sig sent (arm_buffer_pause_upgrade v now q)" for q
    by (simp add: silent_def arm_buffer_pause_upgrade_def)
  have echoes: "silent t sig sent q \<Longrightarrow> silent t sig sent (on_content
      (remember_explicit_user_action Act_Pause now \<circ> remember_explicit_playback_action Paused now) q)" for q
    using assms(2) by (rule_tac silent_on_content) (simp_all add: calm_echo)
  have revoked: "silent t sig sent q \<Longrightarrow> silent t sig sent (on_content
      (\<lambda>c. c\<lparr> explicit_non_shared_playback_url := None \<rparr>) q)" for q
    by (rule silent_on_content) (simp_all add: calm_simps)
  show ?thesis
    unfolding continue_ordinary_pause_def Let_def
    by (intro silent_with_element silent_schedule) (simp_all add: two armed echoes revoked)
qed

lemma silent_natural_end:
  assumes "silent t sig sent p"
  shows "silent t sig sent (snd (apply_shared_video_natural_end norm_url v video ended_at now p))"
proof -
  let ?p1 = "on_content (mark_shared_video_natural_end norm_url video ended_at) p"
  have marked: "silent t sig sent ?p1" using assms by (blast intro: silent_on_content calm_mark_end)
  have "silent t sig sent (snd (arm_sharer_shared_video_end_suppression norm_url v video ended_at now ?p1))"
    using marked
    by (auto simp: arm_sharer_shared_video_end_suppression_def Let_def silent_def on_content_def calm_simps
        split: option.split)
  then show ?thesis
    using marked silent_on_content [OF marked, of "hold_non_sharer_at_shared_video_end v now"] calm_hold_at_end
    by (auto simp: apply_shared_video_natural_end_def Let_def split: prod.splits)
qed

lemma silent_handle_end:
  assumes "silent t sig sent p"
  shows "silent t sig sent (snd (handle_shared_video_natural_end norm_url pu v pauses now p))"
  using assms silent_natural_end [OF assms]
  by (simp add: handle_shared_video_natural_end_def Let_def silent_def wait_for_end_def read_natural_end_def add_task_def
      split: option.split)

lemma silent_on_pause:
  assumes "silent t sig sent p" and "now < t + 700"
  shows "silent t sig sent (on_pause norm_url pu v now p)"
proof -
  obtain outcome p1 where "handle_shared_video_natural_end norm_url pu v [page_video (pg_content p)] now p = (outcome, p1)"
    by fastforce
  then show ?thesis
    using assms silent_handle_end [OF assms(1), of norm_url pu v "[page_video (pg_content p)]" now]
    by (auto simp: on_pause_def Let_def intro: silent_pause silent_with_element)
qed

lemma silent_listener:
  assumes "silent t sig sent p" and "now < t + 700"
  shows "silent t sig sent (listener norm_url pu event v now p)"
proof -
  have noted: "silent t sig sent (on_content (note_buffer_signal now) p)"
    by (rule silent_on_content [OF assms(1)]) (simp add: note_buffer_signal_def calm_simps)
  have cancelled: "silent t sig sent (if has_recent_user_gesture now (pg_content p)
      then on_content (cancel_active_soft_apply norm_url User_Action now) p else p)"
    using assms by (auto intro: silent_on_content simp: calm_no_session)
  have sought: "silent t sig sent q \<Longrightarrow> silent t sig sent (on_content (remember_explicit_user_action Act_Seek now) q)" for q
    using assms(2) by (rule_tac silent_on_content) (simp_all add: calm_echo)
  have rated: "silent t sig sent (on_content (\<lambda>c. let c1 = remember_explicit_user_action Act_Ratechange now c
      in if over then cancel_active_soft_apply norm_url User_Ratechange now c1 else c1) p)" for over
    using assms by (rule_tac silent_on_content) (simp_all add: calm_echo calm_no_session Let_def)
  have waiting: "silent t sig sent (apply_unless_waiting_for_room norm_url pu v now p)"
    using silent_waiting [OF assms(1), of norm_url pu v] silent_on_content [of t sig sent _ "apply_pending_playback_application norm_url now"]
    by (auto simp: apply_unless_waiting_for_room_def Let_def calm_no_session split: prod.split)
  show ?thesis
  proof (cases event)
    case Ev_Seeking
    show ?thesis using cancelled sought unfolding Ev_Seeking listener.simps on_seeking_def Let_def
      by (intro silent_with_element silent_schedule) (simp_all split: option.split)
  next
    case Ev_Seeked
    show ?thesis using cancelled sought unfolding Ev_Seeked listener.simps on_seeked_def Let_def
      by (intro silent_with_element silent_schedule) (simp_all split: option.split)
  next
    case Ev_Ratechange
    show ?thesis using rated assms(1) unfolding Ev_Ratechange listener.simps on_rate_change_def Let_def
      by (intro silent_with_element silent_schedule) (simp_all split: option.split)
  next
    case Ev_Timeupdate
    have "silent t sig sent (if vd_paused v then p else clear_active_pause_classification v p)"
      using assms(1) silent_cleared by simp
    then have "silent t sig sent (on_content (maintain_active_soft_apply norm_url now)
        (if vd_paused v then p else clear_active_pause_classification v p))"
      by (rule silent_on_content) (simp add: calm_no_session)
    then show ?thesis unfolding Ev_Timeupdate listener.simps on_time_update_def Let_def
      by (auto intro: silent_broadcast split: if_splits)
  qed (use assms noted waiting in \<open>auto intro: silent_playing silent_on_pause silent_schedule silent_handle_end silent_with_element\<close>)
qed

subsection \<open>Broadcasts\<close>

lemma calm_frame:
  assumes "untouched c c'" and "same_window c c'" and "calm t sig c"
  shows "calm t sig c'"
proof -
  have "idle_since t c'" "no_gesture_in_player_since t c'"
    using assms(1,3) unfolding calm_def untouched_def idle_since_def no_gesture_in_player_since_def
    by (elim conjE, simp only:)+
  then show ?thesis using assms unfolding calm_def untouched_def same_window_def by simp
qed

lemma closed_gate_window:
  assumes "programmatic_gate event play_state url v now c = (True, c')"
  shows "same_window c c'"
  using assms
  by (auto simp: programmatic_gate_def should_suppress_programmatic_event_def same_window_def
      split: prod.splits option.splits if_splits)

lemma calm_gate_closes:
  assumes "calm t sig c" and "now < t + 700" and "url = active_shared_url c"
    and "near_signature v sig" and "is_programmatic_playback_state_compatible ps (sg_play_state sig)"
  obtains c' where "programmatic_gate event ps url v now c = (True, c')"
      "untouched c c'" "same_window c c'"
proof -
  obtain stop c' where gate: "programmatic_gate event ps url v now c = (stop, c')" by fastforce
  have facts: "programmatic_apply_signature c = Some sig" "now < programmatic_apply_until c"
      "programmatic_apply_scope c = Scope_All" "idle_since (programmatic_apply_at c) c"
      "url = Some (sg_url sig)" "sg_url sig \<noteq> []"
    using assms(1-3) by (simp_all add: calm_def)
  have stop using programmatic_gate_closes [OF facts assms(4,5), of event] gate by simp
  then have "programmatic_gate event ps url v now c = (True, c')" using gate by simp
  then show thesis using that programmatic_gate_untouched closed_gate_window by blast
qed

lemma calm_broadcast_shared:
  assumes "calm t sig d" and "now < t + 700" and "norm_url (sv_url current) = active_shared_url d"
    and "near_signature v sig" and "is_programmatic_playback_state_compatible (reported_play_state v now d) (sg_play_state sig)"
  shows "\<exists>reason d'. broadcast_shared norm_url b current v now updated_at d = (d', Skipped reason) \<and> calm t sig d'"
proof -
  let ?url = "norm_url (sv_url current)" and ?ps = "get_broadcast_play_state v (bc_event b) now d"
  have "idle_since (programmatic_apply_at d) d" using assms(1) by (simp add: calm_def)
  then have ps: "is_programmatic_playback_state_compatible ?ps (sg_play_state sig)"
    using assms(5) idle_play_state by simp
  obtain end_pause d1 where ended: "end_pause_gate (bc_event b) ?ps ?url now d = (end_pause, d1)" by fastforce
  have kept: "untouched d d1" "same_window d d1" using end_pause_gate_untouched [OF ended] by simp_all
  then have one: "calm t sig d1" using calm_frame assms(1) by blast
  have url: "?url = active_shared_url d1" using assms(3) kept(1) by (simp add: untouched_def)
  obtain d2 where gate: "programmatic_gate (bc_event b) ?ps ?url v now d1 = (True, d2)" "untouched d1 d2" "same_window d1 d2"
    using calm_gate_closes [OF one assms(2) url assms(4) ps] by blast
  then have "calm t sig d2" using calm_frame one by blast
  then show ?thesis using one by (simp add: broadcast_shared_def Let_def ended gate(1))
qed

lemma calm_resume:
  assumes "calm t sig c" and "now < t + 700" and "in_place sig now c"
  shows "\<exists>reason c'. broadcast_resume norm_url b page now updated_at c = (c', Skipped reason) \<and> calm t sig c'"
proof (cases "the_video c = None \<or> \<not> same_playback_context (bc_generation b) (bc_video_id b) c \<or> page = None")
  case True
  then show ?thesis using assms(1) by (auto simp: broadcast_resume_def split: option.split)
next
  case False
  then obtain v current where v: "the_video c = Some v" "page = Some current" by auto
  let ?url = "norm_url (sv_url current)"
  obtain ended c1 where ended: "sharer_ended_gate ?url now c = (ended, c1)" by fastforce
  obtain stale c2 where stale: "settle_gate (bc_confirmed b) ?url now c1 = (stale, c2)" by fastforce
  let ?d = "c2\<lparr> last_non_shared_guard_url := None \<rparr>"
  have kept: "untouched c c1" "same_window c c1" "untouched c c2" "same_window c c2"
    using sharer_ended_gate_untouched [OF ended] settle_gate_untouched [OF stale] untouched_trans same_window_trans by blast+
  then have calm: "calm t sig c1" "calm t sig c2" using calm_frame assms(1) by blast+
  have noted: "calm t sig (note_non_shared_page ?url c2)" and calm_d: "calm t sig ?d"
    using calm(2) by (simp_all add: note_non_shared_page_def calm_simps)
  have near: "near_signature v sig" "is_programmatic_playback_state_compatible (reported_play_state v now ?d) (sg_play_state sig)"
    using assms(3) v(1) kept(3) by (simp_all add: in_place_def reported_play_state_def untouched_def)
  have shared: "\<exists>reason c'. broadcast_shared norm_url b current v now updated_at ?d = (c', Skipped reason) \<and> calm t sig c'"
    if "\<not> on_non_shared_page ?url c2"
  proof -
    have "?url = active_shared_url ?d" using that calm(2) by (auto simp: on_non_shared_page_def calm_def)
    then show ?thesis using calm_broadcast_shared [OF calm_d assms(2) _ near] by blast
  qed
  have "broadcast_resume norm_url b page now updated_at c = (if ended then (c1, Skipped Skip_Sharer_Ended)
      else if stale then (c2, Skipped Skip_Stale_Url)
      else if on_non_shared_page ?url c2 then (note_non_shared_page ?url c2, Skipped Skip_Non_Shared)
      else broadcast_shared norm_url b current v now updated_at ?d)"
    using False v by (simp add: broadcast_resume_def Let_def ended stale)
  then show ?thesis using calm noted shared by auto
qed

lemma silent_outcome:
  assumes "silent t sig sent p" and "now < t + 700" and "in_place sig now (pg_content p)"
  shows "silent t sig sent (broadcast_outcome_on_page generation video_id
    (broadcast_resume norm_url b identity now wall (pg_content p)) p)"
proof -
  obtain reason c' where "broadcast_resume norm_url b identity now wall (pg_content p) = (c', Skipped reason)" "calm t sig c'"
    using calm_resume assms unfolding silent_def by blast
  then show ?thesis using assms(1) by (simp add: broadcast_outcome_on_page_def silent_def)
qed

lemma silent_resolved_end:
  assumes "silent t sig sent p" and "now < t + 700"
  shows "silent t sig sent (natural_end_resolved norm_url i x ended_at pauses identity now p)"
proof -
  have settled: "silent t sig sent (if pg_pending_end q = Some i then q\<lparr> pg_pending_end := None \<rparr> else q)"
    if "silent t sig sent q" for q
    using that by (simp add: silent_def)
  have waiting: "silent t sig sent (fold (\<lambda>video. with_element (\<lambda>v. continue_ordinary_pause norm_url video v now)) pauses q)"
    if "silent t sig sent q" for q
    using that assms(2) by (induction pauses arbitrary: q) (simp_all add: silent_with_element silent_pause)
  show ?thesis
  proof (cases "page_element p")
    case None
    then show ?thesis using settled assms(1) by (simp add: natural_end_resolved_def)
  next
    case (Some v)
    obtain outcome p1 where applied: "apply_shared_video_natural_end norm_url v identity ended_at now p = (outcome, p1)"
      by fastforce
    then have "silent t sig sent p1" using silent_natural_end [OF assms(1), of norm_url v identity ended_at now] by simp
    then show ?thesis
      using settled [of p1] settled [of p] waiting assms(1) Some applied
      by (simp add: natural_end_resolved_def Let_def)
  qed
qed

lemma silent_task:
  assumes "silent t sig sent p" and "now < t + 700" and "in_place sig now (pg_content p)"
  shows "silent t sig sent (run_task norm_url pu task identity answered now wall p)"
  by (cases task)
    (simp_all add: assms silent_outcome silent_broadcast silent_resolved_end silent_on_content calm_queued_pause
      calm_load_pause calm_stop_hold calm_ack)

lemma silent_tick:
  assumes "silent t sig sent p" and "now < t + 700"
  shows "silent t sig sent (binding_tick norm_url pu now p)"
proof -
  have bound: "silent t sig sent (on_content (\<lambda>c. notify_video_element_bound now (c\<lparr> last_video_element_bound_at := now \<rparr>)) q)"
    if "silent t sig sent q" for q
    by (rule silent_on_content [OF that], rule calm_bound) (simp add: calm_simps)
  have listening: "silent t sig sent (p\<lparr> pg_bound := vs \<rparr>)" for vs using assms(1) by (simp add: silent_def)
  have "silent t sig sent (attach_playback_listeners now p)"
    unfolding attach_playback_listeners_def Let_def
    by (rule silent_with_element [OF assms(1)]) (simp add: assms(1) bound listening silent_cleared)
  then show ?thesis using assms(2) by (simp add: binding_tick_def silent_enforce)
qed

lemma silent_flush:
  assumes "silent t sig sent p" and "now < t + 700" and "in_place sig now (pg_content p)"
  shows "silent t sig sent (sharer_ended_flush_fires norm_url now wall p)"
proof -
  have quiet: "silent t sig sent (p\<lparr> pg_flush := None \<rparr>)" using assms(1) by (simp add: silent_def)
  define q where "q = on_content (\<lambda>c. c\<lparr> sharer_ended_suppression_url := None, sharer_ended_suppression_until := 0,
                sharer_ended_suppression_armed_at := 0 \<rparr>) (p\<lparr> pg_flush := None \<rparr>)"
  have silent_q: "silent t sig sent q"
    unfolding q_def by (rule silent_on_content [OF quiet]) (simp add: calm_simps)
  have "in_place sig now (pg_content q)"
    using assms(3) by (simp add: q_def in_place_def on_content_def reported_play_state_def split: option.splits)
  then have "silent t sig sent (broadcast_confirmed_playback norm_url identity On_Pause True now wall q)" for identity
    using silent_outcome [OF silent_q assms(2)] silent_q
    by (simp add: broadcast_confirmed_playback_def Let_def split: option.split)
  then show ?thesis
    using assms(1) quiet silent_q unfolding q_def
    by (simp add: sharer_ended_flush_fires_def settle_sharer_ended_suppression_def clear_sharer_ended_flush_timer_def Let_def
        split: option.split)
qed

text \<open>What may happen: everything but a gesture inside the player and word from the room.\<close>

fun no_takeover :: "page_event \<Rightarrow> bool" where
  "no_takeover (Input e) = (\<not> is_gesture_inside_player e)"
| "no_takeover (Room_State_Arrives state) = False"
| "no_takeover Pause_Debounce_Ends = False"
| "no_takeover (Hydration_Answer response) = False"
| "no_takeover (Room_Status room_code member_id rtt_ms) = False"
| "no_takeover _ = True"

fun undisturbed ::
    "(string \<Rightarrow> string option) \<Rightarrow> url_parser \<Rightarrow> rat \<Rightarrow> playback_signature \<Rightarrow> (page_event \<times> rat \<times> rat) list \<Rightarrow> page \<Rightarrow> bool" where
  "undisturbed norm_url pu until sig [] p = True"
| "undisturbed norm_url pu until sig ((e, now, wall) # es) p =
     (no_takeover e \<and> now < until \<and> in_place sig now (pg_content p)
      \<and> undisturbed norm_url pu until sig es (page_step norm_url pu e now wall p))"

lemma silent_step:
  assumes "silent t sig sent p" and "now < t + 700" and "no_takeover e" and "in_place sig now (pg_content p)"
  shows "silent t sig sent (page_step norm_url pu e now wall p)"
proof -
  have put: "silent t sig sent ((on_content (\<lambda>c. c\<lparr> the_video := v \<rparr>) p)\<lparr> pg_ended := ended \<rparr>)" for ended v
    using assms(1) by (simp add: silent_def on_content_def calm_simps)
  show ?thesis
  proof (cases e)
    case (Element_Event event v ended)
    then show ?thesis
      using put [where v = "Some v"] assms(1,2) silent_listener by (simp add: media_event_dispatched_def Let_def)
  next
    case (Element_Becomes v ended)
    then show ?thesis using put by simp
  next
    case (Page_Shows video href)
    then show ?thesis using assms(1) by (simp add: silent_def on_content_def calm_simps)
  next
    case Bind_Tick
    then show ?thesis using assms(1,2) silent_tick by simp
  next
    case (Task_Runs i identity answered)
    have "silent t sig sent (p\<lparr> pg_tasks := ts \<rparr>)" for ts using assms(1) by (simp add: silent_def)
    then show ?thesis
      using Task_Runs assms silent_task [of t sig sent "p\<lparr> pg_tasks := _ \<rparr>" now] by (simp add: task_runs_def)
  next
    case Upgrade_Timer
    have "silent t sig sent (clear_buffer_upgrade_timer p)"
      using assms(1) by (simp add: silent_def clear_buffer_upgrade_timer_def)
    moreover have "silent t sig sent (on_content (\<lambda>c. c\<lparr> pause_classified_as_buffer := False \<rparr>) q)"
      if "silent t sig sent q" for q
      by (rule silent_on_content [OF that]) (simp add: calm_simps)
    ultimately show ?thesis
      using Upgrade_Timer assms(1) by (simp add: buffer_pause_upgrade_fires_def Let_def silent_broadcast split: option.split)
  next
    case Flush_Timer
    then show ?thesis using assms silent_flush by simp
  qed (use assms in \<open>auto intro!: silent_on_content calm_correction_timer calm_gesture calm_hydration_timer\<close>)
qed

lemma silent_run:
  assumes "undisturbed norm_url pu (t + 700) sig es p" and "silent t sig sent p"
  shows "silent t sig sent (page_run norm_url pu es p)"
  using assms
proof (induction es arbitrary: p)
  case (Cons e es)
  obtain event now wall where "e = (event, now, wall)" by (cases e) auto
  then show ?case using Cons silent_step by simp
qed simp

text \<open>
  C13. A page that follows does not talk back. For 700 ms after a snapshot was written to the player
  without a correction session, the room hears nothing of it: whatever the element dispatches,
  whatever tasks and timers run, whatever the page shows and wherever else on the page the user
  clicks, as long as nobody takes over inside the player, no word comes from the room, and the
  element stays near where it was put.
\<close>

theorem following_is_silent:
  assumes "pending_playback_application c = Some q" and "the_video c = Some v" and "can_apply_playback_immediately v"
    and "programmatic_apply_at c < t" and "pg_content p = apply_pending_playback_application norm_url t c"
    and "programmatic_apply_at (pg_content p) = t" and "programmatic_apply_scope (pg_content p) = Scope_All"
    and "programmatic_apply_signature (pg_content p) = Some sig" and "active_soft_apply (pg_content p) = None"
    and "idle_since t (pg_content p)" and "no_gesture_in_player_since t (pg_content p)"
    and "truthy (active_room_code (pg_content p))" and "truthy (active_shared_url (pg_content p))"
    and "norm_url (pb_url q) = active_shared_url (pg_content p)"
    and "undisturbed norm_url pu (t + 700) sig es p"
  shows "pg_sent (page_run norm_url pu es p) = pg_sent p"
proof -
  have window: "sg_url sig = norm_or norm_url (pb_url q)" "programmatic_apply_until (pg_content p) = t + 700"
    using applying_opens_window [OF assms(1-4), of norm_url] assms(5-8)
    by (auto simp: programmatic_apply_window_ms_def)
  obtain url where url: "active_shared_url (pg_content p) = Some url" "url \<noteq> []" using assms(13) by auto
  have "pending_playback_application (pg_content p) = None"
    using assms(1-3,5) applied_is_taken by simp
  then have "silent t sig (pg_sent p) p"
    using assms(6-12,14) window url by (simp add: silent_def calm_def norm_or_def)
  then have "silent t sig (pg_sent p) (page_run norm_url pu es p)" using silent_run assms(15) by blast
  then show ?thesis by (simp add: silent_def)
qed

text \<open>
  The page of \<open>told_to_pause\<close> after it obeyed, with a broadcast that was queued before: the element
  dispatches its pause, then the queue runs.
\<close>

definition obeyed_pause :: page where
  "obeyed_pause = (initial_page ''BV1'')\<lparr> pg_content := apply_pending_playback_application Some 5000 told_to_pause,
     pg_bound := [1], pg_tasks := [Broadcast_Task (started_on On_Timeupdate)] \<rparr>"

definition after_the_pause :: "(page_event \<times> rat \<times> rat) list" where
  "after_the_pause = [(Element_Event Ev_Pause paused_bv False, 5010, 0), (Task_Runs 0 (Some shown_bv) True, 5020, 0)]"

lemma obeyed_pause_content:
  "pg_content obeyed_pause = told_to_pause\<lparr> pending_playback_application := None, the_video := Some paused_bv,
     programmatic_apply_at := 5000, programmatic_apply_until := 5700, programmatic_apply_scope := Scope_All,
     programmatic_apply_signature := Some (create_programmatic_playback_signature room_pause_bv) \<rparr>"
  by (simp add: obeyed_pause_def told_to_pause_def page_with_def initial_content_def playing_bv_def room_pause_bv_def
      adjust_eval broadcast_eval paused_bv_def Let_def)

lemma obeyed_pause_page:
  "obeyed_pause = (initial_page ''BV1'')\<lparr> pg_content := told_to_pause\<lparr> pending_playback_application := None,
     the_video := Some paused_bv, programmatic_apply_at := 5000, programmatic_apply_until := 5700,
     programmatic_apply_scope := Scope_All,
     programmatic_apply_signature := Some (create_programmatic_playback_signature room_pause_bv) \<rparr>,
     pg_bound := [1], pg_tasks := [Broadcast_Task (started_on On_Timeupdate)] \<rparr>"
  using obeyed_pause_content by (simp add: obeyed_pause_def)

lemma obeyed_pause_undisturbed:
  "undisturbed Some (\<lambda>_. None) 5700 (create_programmatic_playback_signature room_pause_bv) after_the_pause obeyed_pause"
proof -
  let ?sig = "create_programmatic_playback_signature room_pause_bv"
  let ?q = "page_step Some (\<lambda>_. None) (Element_Event Ev_Pause paused_bv False) 5010 0 obeyed_pause"
  have first: "in_place ?sig 5010 (pg_content obeyed_pause)"
    by (simp add: in_place_def obeyed_pause_content near_signature_def told_to_pause_def page_with_def initial_content_def
        paused_bv_def playing_bv_def room_pause_bv_def create_programmatic_playback_signature_def broadcast_eval
        is_programmatic_playback_state_compatible_def is_inside_buffer_pause_window_def Let_def)
  have "the_video (pg_content ?q) = Some paused_bv \<and> pause_classified_as_buffer (pg_content ?q) = False"
    by (simp add: listener_eval obeyed_pause_page initial_page_def told_to_pause_def
        page_with_def initial_content_def paused_bv_def playing_bv_def room_pause_bv_def shown_bv_def
        create_programmatic_playback_signature_def user_gesture_grace_ms_def Let_def)
  then have "in_place ?sig 5020 (pg_content ?q)"
    by (simp add: in_place_def near_signature_def paused_bv_def playing_bv_def room_pause_bv_def
        create_programmatic_playback_signature_def reported_play_state_def get_reported_play_state_def
        element_play_state_def is_inside_buffer_pause_window_def is_programmatic_playback_state_compatible_def Let_def)
  then show ?thesis using first by (simp add: after_the_pause_def)
qed

theorem following_is_silent_witness:
  "pg_sent (page_run Some (\<lambda>_. None) after_the_pause obeyed_pause) = []"
proof -
  have "pg_sent (page_run Some (\<lambda>_. None) after_the_pause obeyed_pause) = pg_sent obeyed_pause"
  proof (rule following_is_silent [where t = 5000 and c = told_to_pause and q = room_pause_bv
      and v = "playing_bv\<lparr> vd_playback_rate := 1, vd_default_playback_rate := 1 \<rparr>"
      and sig = "create_programmatic_playback_signature room_pause_bv"])
    show "undisturbed Some (\<lambda>_. None) (5000 + 700) (create_programmatic_playback_signature room_pause_bv)
        after_the_pause obeyed_pause"
      using obeyed_pause_undisturbed by simp
    show "pg_content obeyed_pause = apply_pending_playback_application Some 5000 told_to_pause"
      by (simp add: obeyed_pause_def)
    show "programmatic_apply_signature (pg_content obeyed_pause) = Some (create_programmatic_playback_signature room_pause_bv)"
      by (simp add: obeyed_pause_content)
  qed (simp_all add: obeyed_pause_content told_to_pause_def page_with_def initial_content_def idle_since_def
      no_gesture_in_player_since_def can_apply_playback_immediately_def playing_bv_def room_pause_bv_def)
  then show ?thesis by (simp add: obeyed_pause_def initial_page_def)
qed

end
