(* ===== verification/Page_Actions.thy ===== *)
theory Page_Actions
  imports Page_Events Broadcast_Safety
begin

text \<open>
  What a pause of the element means to the room: the user's goes out at once and marked as the
  user's, a stall goes out as a stall.
\<close>

subsection \<open>The user pauses\<close>

text \<open>Nothing holds the page back: no hydration, no hand-over, no window, no correction; it plays with the room.\<close>

definition plays_with_room :: "rat \<Rightarrow> content \<Rightarrow> bool" where
  "plays_with_room now c =
     (hydration_ready c \<and> \<not> pending_room_state_hydration c \<and> truthy (active_room_code c) \<and> truthy (active_shared_url c)
      \<and> sharer_ended_suppression_url c = None \<and> post_navigation_anchor_shared_url c = None
      \<and> programmatic_apply_until c \<le> now \<and> active_soft_apply c = None
      \<and> (case suppressed_remote c of None \<Rightarrow> True | Some s \<Rightarrow> sr_play_state s \<noteq> Paused)
      \<and> (case room_confirmed_broadcast c of None \<Rightarrow> True | Some b \<Rightarrow> cb_play_state b \<noteq> Paused))"

definition paused_by_user :: "rat \<Rightarrow> video \<Rightarrow> content \<Rightarrow> bool" where
  "paused_by_user t v c =
     (the_video c = Some v \<and> vd_paused v \<and> \<not> pause_classified_as_buffer c \<and> last_forced_pause_at c < t
      \<and> last_explicit_user_action c = Some \<lparr> ea_kind = Act_Pause, ea_at = t \<rparr>
      \<and> last_explicit_playback_action c = Some \<lparr> ep_play_state = Paused, ep_at = t \<rparr>)"

text \<open>What each gate says to a user's pause.\<close>

lemma user_pause_state:
  assumes "paused_by_user t v c"
  shows "get_broadcast_play_state v On_Pause now c = Paused"
  using assms by (simp add: paused_by_user_def get_broadcast_play_state_def reported_play_state_def get_reported_play_state_def
      element_play_state_def is_inside_buffer_pause_window_def)

lemma closed_window_gate:
  "programmatic_apply_until c \<le> now \<Longrightarrow> programmatic_gate event play_state url v now c
     = (False, c\<lparr> programmatic_apply_until := 0, programmatic_apply_signature := None \<rparr>)"
  by (simp add: programmatic_gate_def should_suppress_programmatic_event_def split: option.split)

lemma no_correction:
  assumes "active_soft_apply c = None"
  shows "is_active_rate_only_catch_up url c = False" and "should_suppress_active_soft_apply_broadcast url now c = False"
    and "get_active_correction_base_rate url c = None"
  using assms by (simp_all add: is_active_rate_only_catch_up_def should_suppress_active_soft_apply_broadcast_def
      get_active_correction_base_rate_def matches_active_session_def split: option.split)

lemma paused_followup_gate:
  "followup_gate event Paused url now c = (False, c\<lparr> remote_follow_playing_until := 0, remote_follow_playing_url := None \<rparr>)"
  by (simp add: followup_gate_def should_suppress_remote_followup_broadcast_def)

lemma paused_echo_gate:
  "(case suppressed_remote c of None \<Rightarrow> True | Some s \<Rightarrow> sr_play_state s \<noteq> Paused) \<Longrightarrow> \<not> fst (echo_gate Paused url v now c)"
  by (simp add: echo_gate_def should_suppress_local_echo_def is_remote_state_compatible_for_local_echo_def Let_def
      split: option.splits prod.split)

lemma user_pause_transition_gate:
  "last_explicit_playback_action c = Some \<lparr> ep_play_state = Paused, ep_at = t \<rparr> \<Longrightarrow> now < t + 1200
    \<Longrightarrow> \<not> fst (transition_gate Paused url v now c)"
  by (simp add: transition_gate_def should_suppress_remote_play_transition_def user_gesture_grace_ms_def Let_def
      split: option.split prod.split)

lemma user_pause_is_not_duplicate:
  "(case room_confirmed_broadcast c of None \<Rightarrow> True | Some b \<Rightarrow> cb_play_state b \<noteq> Paused)
    \<Longrightarrow> \<not> is_duplicate_broadcast url Paused intent user_initiated natural_end time rate now c"
  by (simp add: is_duplicate_broadcast_def split: option.splits)

lemma user_pause_end_gate:
  assumes "paused_by_user t v c" and "now < t + 1200"
  shows "\<not> fst (end_pause_gate On_Pause Paused url now c)"
  using assms by (simp add: end_pause_gate_def paused_by_user_def acted_after_forced_pause_def user_gesture_grace_ms_def)

lemma user_pause_sends:
  assumes "paused_by_user t v c" and "now < t + 1200" and "bc_event b = On_Pause" and "programmatic_apply_signature c = None"
    and "case room_confirmed_broadcast c of None \<Rightarrow> True | Some x \<Rightarrow> cb_play_state x \<noteq> Paused"
  shows "\<exists>c' payload. send_playback norm_url b current v Paused rate now updated_at c = (c', Sent payload)
    \<and> pb_play_state payload = Paused \<and> pb_user_initiated payload = Some True \<and> pb_playback_rate payload = rate
    \<and> pb_url payload = sv_url current \<and> pb_current_time payload = vd_current_time v"
  using assms user_pause_is_not_duplicate [OF assms(5)]
  by (simp add: send_playback_def Let_def create_playback_broadcast_payload_def paused_by_user_def
      derive_user_initiated_pause_def acted_since_forced_pause_def user_gesture_grace_ms_def set_flag_def)

lemma paused_by_user_frame:
  assumes "untouched c c'" and "paused_by_user t v c"
  shows "paused_by_user t v c'"
  using assms unfolding untouched_def paused_by_user_def by (elim conjE) (simp only: simp_thms)

lemma end_pause_gate_remote: "suppressed_remote (snd (end_pause_gate event ps url now c)) = suppressed_remote c"
  by (simp add: end_pause_gate_def)

lemma user_pause_unsuppressed:
  assumes "paused_by_user t v c" and "now < t + 1200" and "bc_event b = On_Pause" and "programmatic_apply_signature c = None"
    and "active_soft_apply c = None" and "\<bar>vd_playback_rate v - intended_playback_rate c\<bar> \<le> 1 / 100"
    and "case suppressed_remote c of None \<Rightarrow> True | Some s \<Rightarrow> sr_play_state s \<noteq> Paused"
    and "case room_confirmed_broadcast c of None \<Rightarrow> True | Some x \<Rightarrow> cb_play_state x \<noteq> Paused"
  shows "\<exists>c' payload. broadcast_unsuppressed norm_url b current Paused now updated_at c = (c', Sent payload)
    \<and> pb_play_state payload = Paused \<and> pb_user_initiated payload = Some True
    \<and> pb_playback_rate payload = vd_playback_rate v
    \<and> pb_url payload = sv_url current \<and> pb_current_time payload = vd_current_time v"
proof -
  let ?url = "norm_url (sv_url current)"
  let ?c1 = "c\<lparr> remote_follow_playing_until := 0, remote_follow_playing_url := None \<rparr>"
  have v: "the_video c = Some v" using assms(1) by (simp add: paused_by_user_def)
  have expected: "\<not> should_suppress_unexpected_playback_rate_broadcast (vd_playback_rate v) On_Pause now c"
    using assms(6) by (simp add: should_suppress_unexpected_playback_rate_broadcast_def Let_def)
  obtain echo c2 where echo: "echo_gate Paused ?url v now ?c1 = (echo, c2)" by fastforce
  obtain transition c3 where transition: "transition_gate Paused ?url v now c2 = (transition, c3)" by fastforce
  have kept: "untouched c c2" "same_window c c2" "untouched c c3" "same_window c c3"
    using echo_gate_untouched [OF echo] transition_gate_untouched [OF transition] untouched_trans same_window_trans
    by (auto simp: untouched_def same_window_def)
  have user: "paused_by_user t v c2" "paused_by_user t v c3" using paused_by_user_frame kept(1,3) assms(1) by blast+
  have open1: "\<not> echo" using paused_echo_gate [of ?c1 ?url v now] assms(7) echo by simp
  have open2: "\<not> transition"
    using user_pause_transition_gate [of c2 t now ?url v] user(1) assms(2) transition by (simp add: paused_by_user_def)
  have sent: "programmatic_apply_signature c3 = None"
      "case room_confirmed_broadcast c3 of None \<Rightarrow> True | Some x \<Rightarrow> cb_play_state x \<noteq> Paused"
    using kept(3,4) assms(4,8) unfolding untouched_def same_window_def by (simp, elim conjE, simp only:)
  have "broadcast_unsuppressed norm_url b current Paused now updated_at c
      = send_playback norm_url b current v Paused (vd_playback_rate v) now updated_at c3"
    using expected open1 open2 assms(3,5)
    by (simp add: broadcast_unsuppressed_def Let_def v no_correction paused_followup_gate echo transition)
  then show ?thesis using user_pause_sends [OF user(2) assms(2,3) sent] by simp
qed

lemma user_pause_is_sent:
  assumes "plays_with_room t c" and "paused_by_user t v c" and "\<bar>vd_playback_rate v - intended_playback_rate c\<bar> \<le> 1 / 100"
    and "norm_url (sv_url current) = active_shared_url c" and "t \<le> now" and "now < t + 1200"
    and "same_playback_context (bc_generation b) (bc_video_id b) c" and "bc_event b = On_Pause"
  shows "\<exists>c' payload. broadcast_resume norm_url b (Some current) now updated_at c = (c', Sent payload)
    \<and> pb_play_state payload = Paused \<and> pb_user_initiated payload = Some True
    \<and> pb_playback_rate payload = vd_playback_rate v
    \<and> pb_url payload = sv_url current \<and> pb_current_time payload = vd_current_time v"
proof -
  let ?url = "norm_url (sv_url current)" and ?d = "c\<lparr> last_non_shared_guard_url := None \<rparr>"
  have user: "paused_by_user t v ?d" using assms(2) by (simp add: paused_by_user_def)
  have v: "the_video c = Some v" using assms(2) by (simp add: paused_by_user_def)
  obtain stop d1 where gate: "end_pause_gate On_Pause Paused ?url now ?d = (stop, d1)" by fastforce
  have through: "\<not> stop" using user_pause_end_gate [OF user assms(6), of ?url] gate by simp
  have kept: "untouched ?d d1" "same_window ?d d1" using end_pause_gate_untouched [OF gate] by simp_all
  have remote: "suppressed_remote d1 = suppressed_remote c"
    using end_pause_gate_remote [of On_Pause Paused ?url now ?d] gate by simp
  let ?d2 = "d1\<lparr> programmatic_apply_until := 0, programmatic_apply_signature := None \<rparr>"
  have window: "programmatic_apply_until d1 \<le> now" "active_soft_apply d1 = None"
      "intended_playback_rate d1 = intended_playback_rate c" "room_confirmed_broadcast d1 = room_confirmed_broadcast c"
    using kept assms(1,5) by (simp_all add: untouched_def same_window_def plays_with_room_def)
  have user2: "paused_by_user t v ?d2" using paused_by_user_frame [OF kept(1) user] by (simp add: paused_by_user_def)
  have "broadcast_shared norm_url b current v now updated_at ?d
      = broadcast_unsuppressed norm_url b current Paused now updated_at ?d2"
    using through window assms(8)
    by (simp add: broadcast_shared_def Let_def user_pause_state [OF user] gate closed_window_gate no_correction)
  moreover have "broadcast_resume norm_url b (Some current) now updated_at c
      = broadcast_shared norm_url b current v now updated_at ?d"
    using assms(1,4,7) v by (simp add: broadcast_resume_def sharer_ended_gate_def settle_gate_def plays_with_room_def
        on_non_shared_page_def)
  ultimately show ?thesis
    using user_pause_unsuppressed [OF user2 assms(6,8), of norm_url current updated_at] window remote assms(1,3)
    by (simp add: plays_with_room_def)
qed

text \<open>The listener, one operation at a time.\<close>

definition acting :: "rat \<Rightarrow> video \<Rightarrow> content \<Rightarrow> bool" where
  "acting t v c = (acts_for_user t c \<and> programmatic_apply_until c \<le> t \<and> active_soft_apply c = None
     \<and> the_video c = Some v \<and> vd_paused v \<and> broadcast_gate t c)"

lemma acting_remembers:
  assumes "acts_for_user t c" and "programmatic_apply_until c \<le> t"
  shows "remember_explicit_playback_action ps t c = c\<lparr> last_explicit_playback_action := Some \<lparr> ep_play_state = ps, ep_at = t \<rparr> \<rparr>"
    and "remember_explicit_user_action Act_Pause t c
      = c\<lparr> last_explicit_user_action := Some \<lparr> ea_kind = Act_Pause, ea_at = t \<rparr>, explicit_seek_origin_play_state := None \<rparr>"
  using assms
  by (simp_all add: remember_explicit_playback_action_def remember_explicit_user_action_def is_programmatic_event_echo_def)

lemma acting_schedules:
  assumes "acting t v (pg_content p)"
  shows "with_element (\<lambda>v. schedule_broadcast norm_url v event (Some ms) t) p
    = add_task (Follow_Up_Task (player_session_generation (pg_content p)) (vd_id v) event (t + ms))
        (add_task (Broadcast_Task \<lparr> bc_generation = playback_context_generation (pg_content p), bc_video_id = vd_id v,
           bc_event = event, bc_natural_end = False, bc_confirmed = False \<rparr>) p)"
proof -
  have "classify_unobserved_pause_as_buffer norm_url v t p = p"
    using assms by (simp add: classify_unobserved_pause_as_buffer_def acting_def acts_for_user_def Let_def)
  then show ?thesis
    using assms by (simp add: with_element_def page_element_def acting_def schedule_broadcast_def broadcast_playback_def
        add_task_def Let_def)
qed

definition user_paused :: "rat \<Rightarrow> video \<Rightarrow> content \<Rightarrow> content" where
  "user_paused t v c = c\<lparr>
     pause_started_at := (if is_extension_owned_active_pause v c then pause_started_at c else t),
     pause_classified_as_buffer := False,
     last_explicit_playback_action := Some \<lparr> ep_play_state = Paused, ep_at = t \<rparr>,
     last_explicit_user_action := Some \<lparr> ea_kind = Act_Pause, ea_at = t \<rparr>, explicit_seek_origin_play_state := None \<rparr>"

lemma acting_classified:
  assumes "acting t v (pg_content p)"
  defines "q \<equiv> clear_buffer_upgrade_timer (on_content (\<lambda>c. c\<lparr>
                 pause_started_at := (if is_extension_owned_active_pause v (pg_content p) then pause_started_at c else t),
                 pause_classified_as_buffer := False \<rparr>) p)"
  shows "on_content (remember_explicit_user_action Act_Pause t \<circ> remember_explicit_playback_action Paused t) q
    = p\<lparr> pg_content := user_paused t v (pg_content p), pg_upgrade := None \<rparr>"
proof -
  have q: "acts_for_user t (pg_content q)" "programmatic_apply_until (pg_content q) \<le> t"
    using assms(1) by (simp_all add: acting_def acts_for_user_def has_recent_user_gesture_def q_def
        clear_buffer_upgrade_timer_def on_content_def)
  have "acts_for_user t (remember_explicit_playback_action Paused t (pg_content q))"
      "programmatic_apply_until (remember_explicit_playback_action Paused t (pg_content q)) \<le> t"
    using q by (simp_all add: acting_remembers(1) acts_for_user_def has_recent_user_gesture_def)
  then show ?thesis
    using q by (simp add: on_content_def acting_remembers) (simp add: q_def on_content_def clear_buffer_upgrade_timer_def user_paused_def)
qed

lemma continue_ordinary_pause_steps:
  assumes "p1 = (if has_recent_user_gesture t (pg_content p) then on_content (cancel_active_soft_apply norm_url User_Action t) p else p)"
    and "induced = pause_is_buffer_induced norm_url v t (pg_content p1)"
    and "p2 = clear_buffer_upgrade_timer (on_content (\<lambda>c. c\<lparr>
           pause_started_at := (if is_extension_owned_active_pause v (pg_content p1) then pause_started_at c else t),
           pause_classified_as_buffer := induced \<rparr>) p1)"
    and "p3 = (if induced then arm_buffer_pause_upgrade v t p2 else p2)"
    and "p4 = on_content (remember_explicit_user_action Act_Pause t \<circ> remember_explicit_playback_action Paused t) p3"
  shows "continue_ordinary_pause norm_url video v t p
    = with_element (\<lambda>v. schedule_broadcast norm_url v On_Pause (Some 120) t)
        (if \<not> pg_ended p4 \<and> video \<noteq> None
           \<and> norm_opt norm_url (map_option sv_url video) = explicit_non_shared_playback_url (pg_content p4)
         then on_content (\<lambda>c. c\<lparr> explicit_non_shared_playback_url := None \<rparr>) p4 else p4)"
  using assms by (hypsubst, unfold continue_ordinary_pause_def Let_def) (rule refl)

lemma acting_pause:
  assumes "acting t v (pg_content p)" and "\<not> pg_ended p"
  shows "\<exists>c. (c = user_paused t v (pg_content p)
      \<or> c = (user_paused t v (pg_content p))\<lparr> explicit_non_shared_playback_url := None \<rparr>)
    \<and> on_pause norm_url pu v t p
      = add_task (Follow_Up_Task (player_session_generation c) (vd_id v) On_Pause (t + 120))
          (add_task (Broadcast_Task \<lparr> bc_generation = playback_context_generation c, bc_video_id = vd_id v,
             bc_event = On_Pause, bc_natural_end = False, bc_confirmed = False \<rparr>)
             (p\<lparr> pg_content := c, pg_upgrade := None \<rparr>))"
proof -
  let ?q = "p\<lparr> pg_content := user_paused t v (pg_content p), pg_upgrade := None \<rparr>" and ?video = "page_video (pg_content p)"
  have unchanged: "p = (if has_recent_user_gesture t (pg_content p)
      then on_content (cancel_active_soft_apply norm_url User_Action t) p else p)"
    using assms(1) by (simp add: on_content_def cancel_active_soft_apply_def acting_def)
  have users: "False = pause_is_buffer_induced norm_url v t (pg_content p)"
    using assms(1) by (simp add: pause_is_buffer_induced_def acting_def Let_def)
  have quiet: "q2 = (if False then arm_buffer_pause_upgrade v t q2 else q2)" for q2 by simp
  obtain p5 where p5: "p5 = (if \<not> pg_ended ?q \<and> ?video \<noteq> None
      \<and> norm_opt norm_url (map_option sv_url ?video) = explicit_non_shared_playback_url (pg_content ?q)
    then on_content (\<lambda>c. c\<lparr> explicit_non_shared_playback_url := None \<rparr>) ?q else ?q)" by blast
  have "continue_ordinary_pause norm_url ?video v t p = with_element (\<lambda>v. schedule_broadcast norm_url v On_Pause (Some 120) t) p5"
    unfolding p5 by (rule continue_ordinary_pause_steps
      [OF unchanged users refl quiet acting_classified [OF assms(1), symmetric]])
  then have run: "on_pause norm_url pu v t p = with_element (\<lambda>v. schedule_broadcast norm_url v On_Pause (Some 120) t) p5"
    using assms(2) by (simp add: on_pause_def Let_def)
  obtain c where c: "p5 = p\<lparr> pg_content := c, pg_upgrade := None \<rparr>" "c = user_paused t v (pg_content p)
      \<or> c = (user_paused t v (pg_content p))\<lparr> explicit_non_shared_playback_url := None \<rparr>"
  proof (cases "p5 = ?q")
    case True then show ?thesis by (intro that [of "user_paused t v (pg_content p)"]) simp_all
  next
    case False
    then have "p5 = on_content (\<lambda>c. c\<lparr> explicit_non_shared_playback_url := None \<rparr>) ?q" by (simp add: p5 split: if_splits)
    then have "p5 = p\<lparr> pg_content := (user_paused t v (pg_content p))\<lparr> explicit_non_shared_playback_url := None \<rparr>,
        pg_upgrade := None \<rparr>" by (simp add: on_content_def)
    then show ?thesis using that by blast
  qed
  have "acting t v (pg_content p5)"
    using assms(1) c by (auto simp: acting_def user_paused_def acts_for_user_def has_recent_user_gesture_def broadcast_gate_def)
  from acting_schedules [OF this] show ?thesis using c run by auto
qed

text \<open>
  C14. A pause of the user reaches the room. On a page that plays with the room, a pause the element
  dispatches within 1200 ms of a gesture is queued for broadcast at once, and when the page answers
  which video it shows, up to 1200 ms later, the room is sent a pause at the element's position,
  marked as the user's own; every gate between the player and the room lets it through.
\<close>

theorem user_pause_reaches_the_room:
  assumes "element_id (pg_content p) = Some (vd_id v)" and "vd_id v \<in> set (pg_bound p)" and "vd_paused v"
    and "plays_with_room t (pg_content p)" and "acts_for_user t (pg_content p)" and "last_forced_pause_at (pg_content p) < t"
    and "\<bar>vd_playback_rate v - intended_playback_rate (pg_content p)\<bar> \<le> 1 / 100"
    and "norm_url (sv_url current) = active_shared_url (pg_content p)" and "t \<le> now" and "now < t + 1200"
    and "q = page_step norm_url pu (Element_Event Ev_Pause v False) t wall p"
  shows "\<exists>payload. pg_sent (page_step norm_url pu (Task_Runs (length (pg_tasks p)) (Some current) answered) now wall' q)
      = pg_sent p @ [payload]
    \<and> pb_play_state payload = Paused \<and> pb_user_initiated payload = Some True
    \<and> pb_url payload = sv_url current \<and> pb_current_time payload = vd_current_time v
    \<and> pb_playback_rate payload = vd_playback_rate v"
proof -
  let ?p1 = "(on_content (\<lambda>c. c\<lparr> the_video := Some v \<rparr>) p)\<lparr> pg_ended := False \<rparr>"
  have acting: "acting t v (pg_content ?p1)"
    using assms(3-6) by (simp add: acting_def on_content_def acts_for_user_def has_recent_user_gesture_def
        plays_with_room_def broadcast_gate_def)
  obtain c where c: "c = user_paused t v (pg_content ?p1)
      \<or> c = (user_paused t v (pg_content ?p1))\<lparr> explicit_non_shared_playback_url := None \<rparr>"
    and paused: "on_pause norm_url pu v t ?p1
      = add_task (Follow_Up_Task (player_session_generation c) (vd_id v) On_Pause (t + 120))
          (add_task (Broadcast_Task \<lparr> bc_generation = playback_context_generation c, bc_video_id = vd_id v,
             bc_event = On_Pause, bc_natural_end = False, bc_confirmed = False \<rparr>)
             (?p1\<lparr> pg_content := c, pg_upgrade := None \<rparr>))"
    using acting_pause [OF acting, of norm_url pu] by auto
  have q: "q = on_pause norm_url pu v t ?p1"
    using assms(1,2) by (simp add: assms(11) media_event_dispatched_def Let_def on_content_def)
  have plays: "plays_with_room t c" and user: "paused_by_user t v c"
    and kept: "intended_playback_rate c = intended_playback_rate (pg_content p)"
      "active_shared_url c = active_shared_url (pg_content p)"
    using c assms(3,4,6) by (auto simp: plays_with_room_def paused_by_user_def user_paused_def on_content_def)
  let ?b = "\<lparr> bc_generation = playback_context_generation c, bc_video_id = vd_id v,
             bc_event = On_Pause, bc_natural_end = False, bc_confirmed = False \<rparr>"
  have same: "same_playback_context (bc_generation ?b) (bc_video_id ?b) c"
    using user by (simp add: same_playback_context_def paused_by_user_def)
  obtain c' payload where sent: "broadcast_resume norm_url ?b (Some current) now wall' c = (c', Sent payload)"
      "pb_play_state payload = Paused" "pb_user_initiated payload = Some True" "pb_playback_rate payload = vd_playback_rate v"
      "pb_url payload = sv_url current" "pb_current_time payload = vd_current_time v"
    using user_pause_is_sent [OF plays user _ _ assms(9,10) same, of norm_url current wall'] assms(7,8) unfolding kept by auto
  have "pg_sent (page_step norm_url pu (Task_Runs (length (pg_tasks p)) (Some current) answered) now wall' q)
      = pg_sent p @ [payload]"
    unfolding q paused using sent(1) by (simp add: task_runs_def add_task_def on_content_def nth_append broadcast_outcome_on_page_def)
  then show ?thesis using sent by blast
qed

text \<open>A member who plays with the room clicks at 4990 and the element pauses at 5000; the page answers at 5400.\<close>

definition plays_bv :: page where
  "plays_bv = (initial_page ''BV1'')\<lparr> pg_bound := [1],
     pg_content := (page_with (playing_bv\<lparr> vd_playback_rate := 1, vd_default_playback_rate := 1 \<rparr>) None)
       \<lparr> active_soft_apply := None, last_user_gesture_at := Some 4990 \<rparr> \<rparr>"

theorem user_pause_reaches_the_room_witness:
  "\<exists>payload. pg_sent (page_step Some (\<lambda>_. None) (Task_Runs 0 (Some shown_bv) True) 5400 0
     (page_step Some (\<lambda>_. None) (Element_Event Ev_Pause paused_bv False) 5000 0 plays_bv)) = [payload]
   \<and> pb_play_state payload = Paused \<and> pb_user_initiated payload = Some True"
proof -
  let ?q = "page_step Some (\<lambda>_. None) (Element_Event Ev_Pause paused_bv False) 5000 0 plays_bv"
  have "pg_sent plays_bv = []" "pg_tasks plays_bv = []" by (simp_all add: plays_bv_def initial_page_def)
  moreover have "\<exists>payload. pg_sent (page_step Some (\<lambda>_. None)
        (Task_Runs (length (pg_tasks plays_bv)) (Some shown_bv) True) 5400 0 ?q) = pg_sent plays_bv @ [payload]
      \<and> pb_play_state payload = Paused \<and> pb_user_initiated payload = Some True
      \<and> pb_url payload = sv_url shown_bv \<and> pb_current_time payload = vd_current_time paused_bv
      \<and> pb_playback_rate payload = vd_playback_rate paused_bv"
  proof (rule user_pause_reaches_the_room [where t = 5000 and pu = "\<lambda>_. None" and wall = 0])
    show "?q = ?q" by (rule refl)
  qed (simp_all add: plays_bv_def page_with_def initial_content_def playing_bv_def paused_bv_def shown_bv_def element_id_def
      plays_with_room_def acts_for_user_def has_recent_user_gesture_def recent_at_def since_gesture_def gesture_after_def
      user_gesture_grace_ms_def)
  ultimately show ?thesis by auto
qed

end
