(* ===== verification/Auto_Share_Next.thy ===== *)
theory Auto_Share_Next
  imports Page_Identity
begin

text \<open>
  \<open>content/auto-share-next-controller.ts\<close>: the page of the sharer went on to the next video of a list, and asks the
  worker to share it. A request waits out a settle delay, is dropped when the page moved on, is retried while the
  worker cannot act on it, and is abandoned for a newer navigation. What the page shows when the timer fires
  (\<open>page_view\<close>), and what the worker answers, comes from outside. \<open>an_log\<close> records the requests that were sent, and
  \<open>an_deferred\<close> the navigations whose requests the worker deferred; both exist only to be spoken about.
\<close>

subsection \<open>State\<close>

record pending_auto_share =
  pa_previous_shared_url :: string
  pa_target_normalized_url :: string
  pa_attempt :: nat
  pa_generation :: nat

record auto_share_config =
  ac_settle_delay_ms :: rat
  ac_max_attempts :: nat
  ac_retry_delay_ms :: rat

record auto_share_next =
  an_timer :: "(pending_auto_share \<times> rat) option"
  an_pending_normalized_url :: "string option"
  an_pending_previous_shared_url :: "string option"
  an_generation :: nat
  an_sent_chain_targets :: "string list"
  an_in_flight :: "pending_auto_share list"
  an_log :: "(pending_auto_share \<times> string) list"
  an_deferred :: "nat list"

record page_view =
  vw_current_page_url :: string
  vw_current_normalized_url :: "string option"
  vw_resolved_video_url :: "string option"
  vw_active_shared_url :: "string option"

definition default_auto_share_attempts :: nat where "default_auto_share_attempts = 4"

definition create_auto_share_next_controller :: auto_share_next where
  "create_auto_share_next_controller =
     \<lparr> an_timer = None, an_pending_normalized_url = None, an_pending_previous_shared_url = None, an_generation = 0,
       an_sent_chain_targets = [], an_in_flight = [], an_log = [], an_deferred = [] \<rparr>"

subsection \<open>Operations\<close>

definition schedule_request :: "pending_auto_share \<Rightarrow> rat \<Rightarrow> auto_share_next \<Rightarrow> auto_share_next" where
  "schedule_request pending due a =
     a\<lparr> an_timer := Some (pending, due), an_pending_normalized_url := Some (pa_target_normalized_url pending),
        an_pending_previous_shared_url := Some (pa_previous_shared_url pending) \<rparr>"

definition cannot_tell_current_video :: "url_parser \<Rightarrow> page_view \<Rightarrow> bool" where
  "cannot_tell_current_video U v =
     (vw_resolved_video_url v = None \<and> is_address_bar_opaque_video_url U (Some (vw_current_page_url v)))"

definition auto_share_anchor :: "pending_auto_share \<Rightarrow> page_view \<Rightarrow> auto_share_next \<Rightarrow> string" where
  "auto_share_anchor pending v a =
     (case vw_active_shared_url v of
        Some live \<Rightarrow> if live \<in> set (an_sent_chain_targets a) then live else pa_previous_shared_url pending
      | None \<Rightarrow> pa_previous_shared_url pending)"

text \<open>Up to the answer of the worker.\<close>

definition request_auto_share :: "url_parser \<Rightarrow> pending_auto_share \<Rightarrow> page_view \<Rightarrow> auto_share_next \<Rightarrow> auto_share_next" where
  "request_auto_share U pending v a =
     (if \<not> cannot_tell_current_video U v \<and> vw_current_normalized_url v \<noteq> Some (pa_target_normalized_url pending) then a
      else
        let anchor = auto_share_anchor pending v a
        in a\<lparr> an_sent_chain_targets := pa_target_normalized_url pending # an_sent_chain_targets a,
              an_in_flight := an_in_flight a @ [pending], an_log := an_log a @ [(pending, anchor)] \<rparr>)"

definition auto_share_timer_fires :: "url_parser \<Rightarrow> rat \<Rightarrow> page_view \<Rightarrow> auto_share_next \<Rightarrow> auto_share_next" where
  "auto_share_timer_fires U now v a =
     (case an_timer a of
        None \<Rightarrow> a
      | Some (pending, due) \<Rightarrow>
          if now < due then a
          else request_auto_share U pending v
                 (a\<lparr> an_timer := None, an_pending_normalized_url := None, an_pending_previous_shared_url := None \<rparr>))"

datatype auto_share_response = Accepted_Or_Silent | Worker_Deferred | Worker_Not_Ready | Call_Failed

definition auto_share_answered ::
    "auto_share_config \<Rightarrow> rat \<Rightarrow> auto_share_response \<Rightarrow> pending_auto_share \<Rightarrow> auto_share_next \<Rightarrow> auto_share_next" where
  "auto_share_answered C now response pending a =
     (if response = Call_Failed \<or> pa_generation pending \<noteq> an_generation a then a
      else case response of
             Worker_Deferred \<Rightarrow>
               schedule_request pending (now + ac_retry_delay_ms C) (a\<lparr> an_deferred := an_deferred a @ [pa_generation pending] \<rparr>)
           | Worker_Not_Ready \<Rightarrow>
               if pa_attempt pending < ac_max_attempts C
               then schedule_request (pending\<lparr> pa_attempt := pa_attempt pending + 1 \<rparr>) (now + ac_retry_delay_ms C) a
               else a
           | _ \<Rightarrow> a)"

definition schedule_for_navigation ::
    "auto_share_config \<Rightarrow> rat \<Rightarrow> string \<Rightarrow> string \<Rightarrow> bool \<Rightarrow> auto_share_next \<Rightarrow> auto_share_next" where
  "schedule_for_navigation C now previous_shared_url next_normalized_page_url chained a =
     (if previous_shared_url = next_normalized_page_url then a
      else
        let a1 = (if chained then a else a\<lparr> an_sent_chain_targets := [] \<rparr>)
        in if an_pending_normalized_url a1 = Some next_normalized_page_url
              \<and> an_pending_previous_shared_url a1 = Some previous_shared_url
           then a1
           else
             let g = an_generation a1 + 1
             in schedule_request \<lparr> pa_previous_shared_url = previous_shared_url,
                    pa_target_normalized_url = next_normalized_page_url, pa_attempt = 1, pa_generation = g \<rparr>
                  (now + ac_settle_delay_ms C) (a1\<lparr> an_generation := g \<rparr>))"

definition cancel_pending :: "auto_share_next \<Rightarrow> auto_share_next" where
  "cancel_pending a =
     a\<lparr> an_timer := None, an_pending_normalized_url := None, an_pending_previous_shared_url := None,
        an_generation := an_generation a + 1 \<rparr>"

subsection \<open>Runs\<close>

datatype auto_share_event =
    Navigation_Scheduled string string bool
  | Navigation_Cancelled
  | Settle_Timer page_view
  | Worker_Answers nat auto_share_response

fun auto_share_step ::
    "url_parser \<Rightarrow> auto_share_config \<Rightarrow> auto_share_event \<Rightarrow> rat \<Rightarrow> auto_share_next \<Rightarrow> auto_share_next" where
  "auto_share_step U C (Navigation_Scheduled previous target chained) now a = schedule_for_navigation C now previous target chained a"
| "auto_share_step U C Navigation_Cancelled now a = cancel_pending a"
| "auto_share_step U C (Settle_Timer v) now a = auto_share_timer_fires U now v a"
| "auto_share_step U C (Worker_Answers i response) now a =
     (if i < length (an_in_flight a)
      then auto_share_answered C now response (an_in_flight a ! i)
             (a\<lparr> an_in_flight := take i (an_in_flight a) @ drop (i + 1) (an_in_flight a) \<rparr>)
      else a)"

definition auto_share_run :: "url_parser \<Rightarrow> auto_share_config \<Rightarrow> (auto_share_event \<times> rat) list \<Rightarrow> auto_share_next" where
  "auto_share_run U C es = fold (\<lambda>(e, now). auto_share_step U C e now) es create_auto_share_next_controller"

text \<open>The navigation that counts: the last one that leads somewhere, unless it was cancelled since.\<close>

definition navigation_after :: "(string \<times> string) option \<Rightarrow> auto_share_event \<Rightarrow> (string \<times> string) option" where
  "navigation_after nav e =
     (case e of
        Navigation_Scheduled previous target chained \<Rightarrow> if previous = target then nav else Some (previous, target)
      | Navigation_Cancelled \<Rightarrow> None
      | _ \<Rightarrow> nav)"

definition last_navigation :: "(auto_share_event \<times> rat) list \<Rightarrow> (string \<times> string) option" where
  "last_navigation es = fold (\<lambda>(e, now) nav. navigation_after nav e) es None"

lemma auto_share_run_snoc:
  "auto_share_run U C (es @ [(e, now)]) = auto_share_step U C e now (auto_share_run U C es)"
  "last_navigation (es @ [(e, now)]) = navigation_after (last_navigation es) e"
  by (simp_all add: auto_share_run_def last_navigation_def)

subsection \<open>The invariant\<close>

definition requests_of :: "nat \<Rightarrow> auto_share_next \<Rightarrow> nat" where
  "requests_of g a = length (filter (\<lambda>(p, anchor). pa_generation p = g) (an_log a))"

definition deferrals_of :: "nat \<Rightarrow> auto_share_next \<Rightarrow> nat" where
  "deferrals_of g a = length (filter ((=) g) (an_deferred a))"

definition current_in_flight :: "auto_share_next \<Rightarrow> pending_auto_share list" where
  "current_in_flight a = filter (\<lambda>p. pa_generation p = an_generation a) (an_in_flight a)"

definition about :: "(string \<times> string) option \<Rightarrow> pending_auto_share \<Rightarrow> bool" where
  "about nav p = (nav = Some (pa_previous_shared_url p, pa_target_normalized_url p))"

definition waits_well :: "nat \<Rightarrow> (string \<times> string) option \<Rightarrow> auto_share_next \<Rightarrow> bool" where
  "waits_well m nav a =
     (case an_timer a of
        None \<Rightarrow> an_pending_normalized_url a = None \<and> an_pending_previous_shared_url a = None
          \<and> (case current_in_flight a of
                [] \<Rightarrow> True
              | [p] \<Rightarrow> about nav p \<and> pa_attempt p \<le> m \<and> requests_of (an_generation a) a \<le> pa_attempt p + deferrals_of (an_generation a) a
              | _ \<Rightarrow> False)
      | Some (p, due) \<Rightarrow> about nav p \<and> pa_generation p = an_generation a \<and> current_in_flight a = []
          \<and> an_pending_normalized_url a = Some (pa_target_normalized_url p)
          \<and> an_pending_previous_shared_url a = Some (pa_previous_shared_url p)
          \<and> pa_attempt p \<le> m \<and> requests_of (an_generation a) a < pa_attempt p + deferrals_of (an_generation a) a)"

definition counts_well :: "nat \<Rightarrow> auto_share_next \<Rightarrow> bool" where
  "counts_well m a =
     ((\<forall>g. requests_of g a \<le> m + deferrals_of g a) \<and> (\<forall>g. an_generation a < g \<longrightarrow> requests_of g a = 0)
      \<and> (\<forall>p \<in> set (an_in_flight a). pa_generation p \<le> an_generation a))"

definition asks_well :: "nat \<Rightarrow> (string \<times> string) option \<Rightarrow> auto_share_next \<Rightarrow> bool" where
  "asks_well m nav a = (waits_well m nav a \<and> counts_well m a)"

lemma none_newer: "counts_well m a \<Longrightarrow> filter (\<lambda>p. pa_generation p = Suc (an_generation a)) (an_in_flight a) = []"
  by (fastforce simp: counts_well_def filter_empty_conv)

lemma asks_schedule:
  assumes a: "asks_well m nav a" and m: "1 \<le> m"
  shows "asks_well m (navigation_after nav (Navigation_Scheduled previous target chained))
    (schedule_for_navigation C now previous target chained a)"
proof -
  have same: "asks_well m nav' (a\<lparr> an_sent_chain_targets := x \<rparr>) = asks_well m nav' a" for nav' x
    by (simp add: asks_well_def waits_well_def counts_well_def requests_of_def deferrals_of_def current_in_flight_def
        cong: option.case_cong list.case_cong prod.case_cong)
  define a1 where "a1 = (if chained then a else a\<lparr> an_sent_chain_targets := [] \<rparr>)"
  have a1: "asks_well m nav a1" using a same by (simp add: a1_def)
  show ?thesis
  proof (cases "previous = target \<or> (an_pending_normalized_url a1 = Some target \<and> an_pending_previous_shared_url a1 = Some previous)")
    case True
    have "nav = Some (previous, target)" if "an_pending_normalized_url a1 = Some target" "an_pending_previous_shared_url a1 = Some previous"
      using a1 that by (cases "an_timer a1") (auto simp: asks_well_def waits_well_def about_def)
    then show ?thesis using True a a1
      by (auto simp: schedule_for_navigation_def Let_def a1_def [symmetric] navigation_after_def)
  next
    case False
    have "asks_well m (Some (previous, target)) (schedule_request \<lparr> pa_previous_shared_url = previous,
        pa_target_normalized_url = target, pa_attempt = 1, pa_generation = an_generation a1 + 1 \<rparr> due
        (a1\<lparr> an_generation := an_generation a1 + 1 \<rparr>))" for due
      using a1 m none_newer [of m a1]
      by (auto simp: asks_well_def waits_well_def counts_well_def schedule_request_def about_def current_in_flight_def
          requests_of_def deferrals_of_def)
    then show ?thesis using False
      by (auto simp: schedule_for_navigation_def Let_def a1_def [symmetric] navigation_after_def)
  qed
qed

lemma asks_cancel:
  assumes "asks_well m nav a"
  shows "asks_well m None (cancel_pending a)"
  using assms none_newer [of m a]
  by (auto simp: asks_well_def waits_well_def counts_well_def cancel_pending_def current_in_flight_def requests_of_def deferrals_of_def)

lemma asks_request:
  assumes a: "asks_well m nav a" and t: "an_timer a = Some (p, due)"
  shows "asks_well m nav (request_auto_share U p v
    (a\<lparr> an_timer := None, an_pending_normalized_url := None, an_pending_previous_shared_url := None \<rparr>))"
proof -
  have w: "about nav p" "pa_generation p = an_generation a" "current_in_flight a = []" "pa_attempt p \<le> m"
    "requests_of (an_generation a) a < pa_attempt p + deferrals_of (an_generation a) a" and c: "counts_well m a"
    using a t by (simp_all add: asks_well_def waits_well_def)
  have room: "requests_of (an_generation a) a < m + deferrals_of (an_generation a) a" using w(4,5) by linarith
  show ?thesis
    using w c room
    by (auto simp: request_auto_share_def Let_def asks_well_def waits_well_def counts_well_def current_in_flight_def
        requests_of_def deferrals_of_def)
qed

lemma asks_answer:
  assumes a: "asks_well m nav a" and i: "i < length (an_in_flight a)" and m: "m = max 1 (ac_max_attempts C)"
  shows "asks_well m nav (auto_share_answered C now response (an_in_flight a ! i)
             (a\<lparr> an_in_flight := take i (an_in_flight a) @ drop (i + 1) (an_in_flight a) \<rparr>))"
proof -
  let ?p = "an_in_flight a ! i"
  define b where "b = a\<lparr> an_in_flight := take i (an_in_flight a) @ drop (i + 1) (an_in_flight a) \<rparr>"
  have split: "an_in_flight a = take i (an_in_flight a) @ ?p # drop (i + 1) (an_in_flight a)"
    using id_take_nth_drop [OF i] by simp
  have same: "an_timer b = an_timer a" "an_generation b = an_generation a" "requests_of g b = requests_of g a"
    "deferrals_of g b = deferrals_of g a" "an_pending_normalized_url b = an_pending_normalized_url a"
    "an_pending_previous_shared_url b = an_pending_previous_shared_url a" for g
    by (simp_all add: b_def requests_of_def deferrals_of_def)
  have subset: "set (an_in_flight b) \<subseteq> set (an_in_flight a)" by (subst split) (auto simp: b_def)
  have c: "counts_well m b" using a subset by (auto simp: asks_well_def counts_well_def same)
  have flight: "filter (\<lambda>p. pa_generation p = an_generation a) (an_in_flight a)
      = filter (\<lambda>p. pa_generation p = an_generation a) (take i (an_in_flight a))
        @ (if pa_generation ?p = an_generation a then [?p] else [])
        @ filter (\<lambda>p. pa_generation p = an_generation a) (drop (i + 1) (an_in_flight a))"
    by (subst split) simp
  show ?thesis
  proof (cases "pa_generation ?p = an_generation a")
    case False
    then have flies: "current_in_flight b = current_in_flight a" using flight by (simp add: current_in_flight_def b_def)
    have "waits_well m nav b = waits_well m nav a" unfolding waits_well_def same flies by (rule refl)
    then have "asks_well m nav b" using a c by (simp add: asks_well_def)
    then show ?thesis unfolding b_def [symmetric] using False by (simp add: auto_share_answered_def same)
  next
    case True
    then have cur: "current_in_flight a = filter (\<lambda>p. pa_generation p = an_generation a) (take i (an_in_flight a)) @ ?p
        # filter (\<lambda>p. pa_generation p = an_generation a) (drop (i + 1) (an_in_flight a))"
      using flight by (simp add: current_in_flight_def)
    have none: "an_timer a = None" using a cur by (cases "an_timer a") (auto simp: asks_well_def waits_well_def)
    have one: "length (current_in_flight a) \<le> 1"
      using a none by (auto simp: asks_well_def waits_well_def split: list.splits)
    have "filter (\<lambda>p. pa_generation p = an_generation a) (take i (an_in_flight a)) = []"
      "filter (\<lambda>p. pa_generation p = an_generation a) (drop (i + 1) (an_in_flight a)) = []"
      using one unfolding cur by simp_all
    then have alone: "current_in_flight a = [?p]" "current_in_flight b = []"
      unfolding cur by (simp_all add: current_in_flight_def b_def)
    have p: "about nav ?p" "pa_attempt ?p \<le> m" "requests_of (an_generation a) a \<le> pa_attempt ?p + deferrals_of (an_generation a) a"
      and empty: "an_pending_normalized_url a = None" "an_pending_previous_shared_url a = None"
      using a none alone(1) by (simp_all add: asks_well_def waits_well_def)
    have idle: "asks_well m nav b" using c none alone(2) empty by (simp add: asks_well_def waits_well_def same)
    have deferred: "asks_well m nav (schedule_request ?p due (b\<lparr> an_deferred := an_deferred b @ [pa_generation ?p] \<rparr>))" for due
      using c p True alone(2)
      by (auto simp: asks_well_def waits_well_def counts_well_def schedule_request_def about_def current_in_flight_def
          requests_of_def deferrals_of_def same b_def le_Suc_eq)
    have retried: "asks_well m nav (schedule_request (?p\<lparr> pa_attempt := pa_attempt ?p + 1 \<rparr>) due b)"
      if "pa_attempt ?p < ac_max_attempts C" for due
      using c p True alone(2) that m
      by (auto simp: asks_well_def waits_well_def counts_well_def schedule_request_def about_def current_in_flight_def
          requests_of_def deferrals_of_def same b_def)
    show ?thesis
      unfolding b_def [symmetric] using idle deferred retried True by (cases response) (simp_all add: auto_share_answered_def same)
  qed
qed

lemma asks_run: "asks_well (max 1 (ac_max_attempts C)) (last_navigation es) (auto_share_run U C es)"
proof (induction es rule: rev_induct)
  case Nil
  show ?case
    by (simp add: auto_share_run_def last_navigation_def create_auto_share_next_controller_def asks_well_def waits_well_def
        counts_well_def current_in_flight_def requests_of_def deferrals_of_def)
next
  case (snoc x es)
  obtain e now where x: "x = (e, now)" by fastforce
  let ?m = "max 1 (ac_max_attempts C)"
  have "asks_well ?m (navigation_after (last_navigation es) e) (auto_share_step U C e now (auto_share_run U C es))"
  proof (cases e)
    case (Navigation_Scheduled previous target chained)
    then show ?thesis using asks_schedule [OF snoc.IH] by simp
  next
    case Navigation_Cancelled then show ?thesis using asks_cancel [OF snoc.IH] by (simp add: navigation_after_def)
  next
    case (Settle_Timer v)
    then show ?thesis using snoc.IH asks_request [OF snoc.IH]
      by (auto simp: navigation_after_def auto_share_timer_fires_def split: option.split)
  next
    case (Worker_Answers i response)
    then show ?thesis using snoc.IH asks_answer [OF snoc.IH _ refl] by (simp add: navigation_after_def)
  qed
  then show ?case by (simp add: x auto_share_run_snoc)
qed

subsection \<open>What a run can ask for\<close>

lemma log_step:
  "an_log (auto_share_step U C e now a) = an_log a
    \<or> (\<exists>v p due. e = Settle_Timer v \<and> an_timer a = Some (p, due) \<and> due \<le> now
        \<and> an_log (auto_share_step U C e now a) = an_log a @ [(p, auto_share_anchor p v a)]
        \<and> (cannot_tell_current_video U v \<or> vw_current_normalized_url v = Some (pa_target_normalized_url p)))"
proof (cases e)
  case (Navigation_Scheduled previous target chained)
  then show ?thesis by (simp add: schedule_for_navigation_def schedule_request_def Let_def)
next
  case Navigation_Cancelled
  then show ?thesis by (simp add: cancel_pending_def)
next
  case (Settle_Timer v)
  have anchor: "auto_share_anchor p v (a\<lparr> an_timer := t, an_pending_normalized_url := n, an_pending_previous_shared_url := q \<rparr>)
      = auto_share_anchor p v a" for p t n q
    by (simp add: auto_share_anchor_def cong: option.case_cong)
  have sent: "an_log (request_auto_share U p v b) = an_log b \<or> an_log (request_auto_share U p v b) = an_log b @ [(p, auto_share_anchor p v b)]
      \<and> (cannot_tell_current_video U v \<or> vw_current_normalized_url v = Some (pa_target_normalized_url p))" for p b
    by (simp add: request_auto_share_def Let_def)
  show ?thesis
  proof (cases "an_timer a")
    case None
    then show ?thesis by (simp add: Settle_Timer auto_share_timer_fires_def)
  next
    case (Some x)
    obtain p due where x: "x = (p, due)" by fastforce
    let ?b = "a\<lparr> an_timer := None, an_pending_normalized_url := None, an_pending_previous_shared_url := None \<rparr>"
    have "auto_share_step U C e now a = (if now < due then a else request_auto_share U p v ?b)"
      by (simp add: Settle_Timer auto_share_timer_fires_def Some x)
    then show ?thesis using sent [of p ?b] Some x Settle_Timer anchor [of p None None None] by auto
  qed
next
  case (Worker_Answers i response)
  then show ?thesis
    by (cases response) (auto simp: auto_share_answered_def schedule_request_def)
qed

text \<open>
  C19. The page asks for nothing but the navigation that counts. A step of any run sends at most one request, and only
  when a settle timer that is due fires: for the last navigation that led somewhere and was not cancelled since, while
  the page shows its target or cannot tell what it shows, and anchored at the video that navigation left or at one
  this chain has sent itself.
\<close>

theorem only_the_current_navigation_is_asked_for:
  "an_log (auto_share_run U C (es @ [(e, now)])) = an_log (auto_share_run U C es)
    \<or> (\<exists>v p anchor. e = Settle_Timer v
        \<and> an_log (auto_share_run U C (es @ [(e, now)])) = an_log (auto_share_run U C es) @ [(p, anchor)]
        \<and> last_navigation es = Some (pa_previous_shared_url p, pa_target_normalized_url p)
        \<and> pa_generation p = an_generation (auto_share_run U C es)
        \<and> (anchor = pa_previous_shared_url p \<or> anchor \<in> set (an_sent_chain_targets (auto_share_run U C es)))
        \<and> (cannot_tell_current_video U v \<or> vw_current_normalized_url v = Some (pa_target_normalized_url p)))"
proof -
  let ?a = "auto_share_run U C es"
  have w: "about (last_navigation es) p \<and> pa_generation p = an_generation ?a" if "an_timer ?a = Some (p, due)" for p due
    using asks_run [of C es U] that by (simp add: asks_well_def waits_well_def)
  have anchor: "auto_share_anchor p v ?a = pa_previous_shared_url p \<or> auto_share_anchor p v ?a \<in> set (an_sent_chain_targets ?a)" for p v
    by (simp add: auto_share_anchor_def split: option.split)
  show ?thesis
    using log_step [of U C e now ?a] w anchor unfolding auto_share_run_snoc about_def by blast
qed

text \<open>
  The retries are bounded. Whatever the page does and the worker answers, one navigation sends no more requests
  than the attempts it has, not counting those the worker put off because it was not connected: for those alone the page
  goes on asking.
\<close>

theorem requests_are_bounded:
  "requests_of g (auto_share_run U C es) \<le> max 1 (ac_max_attempts C) + deferrals_of g (auto_share_run U C es)"
  using asks_run [of C es U] by (simp add: asks_well_def counts_well_def)

end
