(* ===== verification/Durable_Writes.thy ===== *)
theory Durable_Writes
  imports Prelude
begin

text \<open>
  \<open>server/src/durable-write-queue.ts\<close> on \<open>retry-pacer.ts\<close>: writes behind the in-memory stores, retried, in order
  per key, with an honest answer. A write is a coroutine and \<open>dw_phase\<close> is where it is suspended; the code between two
  suspensions is one function. A command that a timeout gave up on stays out until the store answers it
  (\<open>dw_commands\<close>), which is what \<open>settle\<close> waits for. Which write goes on, and with what answer, is the
  environment's choice. \<open>dq_log\<close> records the attempts that were started and \<open>dq_failures\<close> the failures since the
  last \<open>confirm\<close>; both exist only to be spoken about. Backoffs have no length here, errors no texts.
\<close>

subsection \<open>State\<close>

datatype write_outcome = Confirmed | Refused | Given_Up | Superseded | Dropped

datatype write_phase =
    Write_Queued
  | Write_Running nat
  | Write_Backing_Off nat
  | Write_Settling nat
  | Write_Answered write_outcome
  | Write_Released

record durable_write =
  dw_key :: string
  dw_previous :: "nat option"
  dw_superseded :: bool
  dw_phase :: write_phase
  dw_commands :: nat

record durable_queue =
  dq_writes :: "durable_write list"
  dq_chains :: "string \<Rightarrow> nat option"
  dq_stopped :: bool
  dq_abandoned :: "write_outcome list"
  dq_log :: "(nat \<times> nat) list"
  dq_failures :: "write_outcome list"

definition default_max_attempts :: nat where "default_max_attempts = 5"
definition max_remembered_failures :: nat where "max_remembered_failures = 64"

definition create_durable_write_queue :: durable_queue where
  "create_durable_write_queue =
     \<lparr> dq_writes = [], dq_chains = (\<lambda>_. None), dq_stopped = False, dq_abandoned = [], dq_log = [], dq_failures = [] \<rparr>"

definition update_write :: "nat \<Rightarrow> (durable_write \<Rightarrow> durable_write) \<Rightarrow> durable_queue \<Rightarrow> durable_queue" where
  "update_write i f q = q\<lparr> dq_writes := (dq_writes q)[i := f (dq_writes q ! i)] \<rparr>"

definition set_phase :: "nat \<Rightarrow> write_phase \<Rightarrow> durable_queue \<Rightarrow> durable_queue" where
  "set_phase i ph = update_write i (\<lambda>w. w\<lparr> dw_phase := ph \<rparr>)"

subsection \<open>Operations\<close>

definition enqueue_write :: "string \<Rightarrow> durable_queue \<Rightarrow> durable_queue" where
  "enqueue_write key q =
     (let previous = dq_chains q key;
          q1 = (case previous of None \<Rightarrow> q | Some j \<Rightarrow> update_write j (\<lambda>w. w\<lparr> dw_superseded := True \<rparr>) q)
      in q1\<lparr> dq_writes := dq_writes q1 @ [\<lparr> dw_key = key, dw_previous = previous, dw_superseded = False,
               dw_phase = Write_Queued, dw_commands = 0 \<rparr>],
             dq_chains := (dq_chains q1)(key := Some (length (dq_writes q1))) \<rparr>)"

definition previous_settled :: "durable_queue \<Rightarrow> durable_write \<Rightarrow> bool" where
  "previous_settled q w =
     (case dw_previous w of None \<Rightarrow> True | Some j \<Rightarrow> dw_phase (dq_writes q ! j) = Write_Released)"

definition is_failure :: "write_outcome \<Rightarrow> bool" where
  "is_failure r = (r \<noteq> Confirmed \<and> r \<noteq> Superseded)"

text \<open>The caller is answered; the key is not released yet.\<close>

definition answer_write :: "nat \<Rightarrow> write_outcome \<Rightarrow> durable_queue \<Rightarrow> durable_queue" where
  "answer_write i r q =
     (let q1 = set_phase i (Write_Answered r) q
      in if is_failure r
         then q1\<lparr> dq_abandoned := (if length (dq_abandoned q1) < max_remembered_failures then dq_abandoned q1 @ [r]
                                  else dq_abandoned q1),
                 dq_failures := dq_failures q1 @ [r] \<rparr>
         else q1)"

definition start_write_attempt :: "nat \<Rightarrow> nat \<Rightarrow> durable_queue \<Rightarrow> durable_queue" where
  "start_write_attempt i attempt q =
     (update_write i (\<lambda>w. w\<lparr> dw_phase := Write_Running attempt, dw_commands := dw_commands w + 1 \<rparr>) q)
       \<lparr> dq_log := dq_log q @ [(i, attempt)] \<rparr>"

text \<open>Behind the write that came before it on the same key, or told to stop.\<close>

definition leave_queue :: "nat \<Rightarrow> durable_queue \<Rightarrow> durable_queue" where
  "leave_queue i q =
     (if dq_stopped q then answer_write i Dropped q
      else if previous_settled q (dq_writes q ! i) then start_write_attempt i 1 q
      else q)"

datatype attempt_answer = Write_Succeeds | Write_Refused | Write_Fails

text \<open>At least one attempt is made, whatever is configured.\<close>

definition attempt_fails :: "nat \<Rightarrow> nat \<Rightarrow> nat \<Rightarrow> durable_queue \<Rightarrow> durable_queue" where
  "attempt_fails max_attempts i attempt q =
     (if attempt = max 1 max_attempts \<or> dq_stopped q then answer_write i Given_Up q
      else if dw_superseded (dq_writes q ! i) then answer_write i Superseded q
      else set_phase i (Write_Backing_Off attempt) q)"

text \<open>An attempt ends; \<open>landed\<close> says whether its command was answered by the store.\<close>

definition attempt_ends :: "nat \<Rightarrow> nat \<Rightarrow> nat \<Rightarrow> attempt_answer \<Rightarrow> bool \<Rightarrow> durable_queue \<Rightarrow> durable_queue" where
  "attempt_ends max_attempts i attempt answer landed q =
     (let q1 = (if landed \<or> answer = Write_Succeeds
                then update_write i (\<lambda>w. w\<lparr> dw_commands := dw_commands w - 1 \<rparr>) q else q)
      in case answer of
           Write_Succeeds \<Rightarrow> answer_write i Confirmed q1
         | Write_Refused \<Rightarrow> answer_write i Refused q1
         | Write_Fails \<Rightarrow> attempt_fails max_attempts i attempt q1)"

text \<open>After the backoff, the commands that are still out are waited for, unless the queue stops.\<close>

definition retry_write :: "nat \<Rightarrow> nat \<Rightarrow> durable_queue \<Rightarrow> durable_queue" where
  "retry_write i attempt q =
     (if \<not> dq_stopped q \<and> 0 < dw_commands (dq_writes q ! i) then q
      else if dw_superseded (dq_writes q ! i) then answer_write i Superseded q
      else if dq_stopped q then answer_write i Given_Up q
      else start_write_attempt i (attempt + 1) q)"

definition release_key :: "nat \<Rightarrow> durable_queue \<Rightarrow> durable_queue" where
  "release_key i q =
     (let w = dq_writes q ! i
      in if previous_settled q w \<and> dw_commands w = 0
         then (set_phase i Write_Released q)
                \<lparr> dq_chains := (if dq_chains q (dw_key w) = Some i then (dq_chains q)(dw_key w := None) else dq_chains q) \<rparr>
         else q)"

text \<open>The answer of \<open>confirm\<close>, once the writes it waited for are answered.\<close>

definition confirm_writes :: "durable_queue \<Rightarrow> bool \<times> durable_queue" where
  "confirm_writes q = (dq_abandoned q = [], q\<lparr> dq_abandoned := [], dq_failures := [] \<rparr>)"

definition stop_writes :: "durable_queue \<Rightarrow> durable_queue" where
  "stop_writes q = q\<lparr> dq_stopped := True \<rparr>"

definition durable_queue_size :: "durable_queue \<Rightarrow> nat" where
  "durable_queue_size q = length (filter (\<lambda>w. dw_phase w \<noteq> Write_Released) (dq_writes q))"

subsection \<open>Runs\<close>

datatype write_event =
    Enqueue string
  | Goes_On_Write nat
  | Attempt_Ends nat attempt_answer bool
  | Command_Lands nat
  | Confirm
  | Stop_Writes

definition write_goes_on :: "nat \<Rightarrow> durable_queue \<Rightarrow> durable_queue" where
  "write_goes_on i q =
     (case dw_phase (dq_writes q ! i) of
        Write_Queued \<Rightarrow> leave_queue i q
      | Write_Backing_Off attempt \<Rightarrow> set_phase i (Write_Settling attempt) q
      | Write_Settling attempt \<Rightarrow> retry_write i attempt q
      | Write_Answered r \<Rightarrow> release_key i q
      | _ \<Rightarrow> q)"

definition command_lands :: "nat \<Rightarrow> durable_queue \<Rightarrow> durable_queue" where
  "command_lands i q =
     (case dw_phase (dq_writes q ! i) of
        Write_Running attempt \<Rightarrow> q
      | _ \<Rightarrow> update_write i (\<lambda>w. w\<lparr> dw_commands := dw_commands w - 1 \<rparr>) q)"

fun write_step :: "nat \<Rightarrow> write_event \<Rightarrow> durable_queue \<Rightarrow> durable_queue" where
  "write_step max_attempts (Enqueue key) q = enqueue_write key q"
| "write_step max_attempts (Goes_On_Write i) q = (if i < length (dq_writes q) then write_goes_on i q else q)"
| "write_step max_attempts (Attempt_Ends i answer landed) q =
     (if i < length (dq_writes q)
      then (case dw_phase (dq_writes q ! i) of
              Write_Running attempt \<Rightarrow> attempt_ends max_attempts i attempt answer landed q | _ \<Rightarrow> q)
      else q)"
| "write_step max_attempts (Command_Lands i) q = (if i < length (dq_writes q) then command_lands i q else q)"
| "write_step max_attempts Confirm q = snd (confirm_writes q)"
| "write_step max_attempts Stop_Writes q = stop_writes q"

definition write_run :: "nat \<Rightarrow> write_event list \<Rightarrow> durable_queue" where
  "write_run max_attempts es = fold (write_step max_attempts) es create_durable_write_queue"

subsection \<open>The invariant\<close>

text \<open>Everything enqueued earlier for the key of write \<open>j\<close> has released it.\<close>

definition earlier_released :: "durable_queue \<Rightarrow> nat \<Rightarrow> bool" where
  "earlier_released q j =
     (\<forall>i<j. dw_key (dq_writes q ! i) = dw_key (dq_writes q ! j) \<longrightarrow> dw_phase (dq_writes q ! i) = Write_Released)"

fun under_way :: "write_phase \<Rightarrow> bool" where
  "under_way (Write_Running n) = True"
| "under_way (Write_Backing_Off n) = True"
| "under_way (Write_Settling n) = True"
| "under_way _ = False"

definition attempts_of :: "durable_queue \<Rightarrow> nat \<Rightarrow> nat list" where
  "attempts_of q i = map snd (filter (\<lambda>e. fst e = i) (dq_log q))"

fun attempts_ok :: "nat \<Rightarrow> write_phase \<Rightarrow> nat list \<Rightarrow> bool" where
  "attempts_ok m Write_Queued as = (as = [])"
| "attempts_ok m (Write_Running n) as = (as = [1..<Suc n] \<and> 1 \<le> n \<and> n \<le> m)"
| "attempts_ok m (Write_Backing_Off n) as = (as = [1..<Suc n] \<and> 1 \<le> n \<and> n < m)"
| "attempts_ok m (Write_Settling n) as = (as = [1..<Suc n] \<and> 1 \<le> n \<and> n < m)"
| "attempts_ok m _ as = (length as \<le> m)"

definition writes_ok :: "nat \<Rightarrow> durable_queue \<Rightarrow> bool" where
  "writes_ok m q = (\<forall>j < length (dq_writes q).
     (dw_phase (dq_writes q ! j) = Write_Released \<or> under_way (dw_phase (dq_writes q ! j)) \<or> 0 < dw_commands (dq_writes q ! j)
        \<or> attempts_of q j \<noteq> [] \<longrightarrow> earlier_released q j)
     \<and> dw_commands (dq_writes q ! j) \<le> 1
     \<and> (dw_phase (dq_writes q ! j) = Write_Queued \<or> dw_phase (dq_writes q ! j) = Write_Released \<longrightarrow> dw_commands (dq_writes q ! j) = 0)
     \<and> (\<forall>i<j. dw_key (dq_writes q ! i) = dw_key (dq_writes q ! j) \<longrightarrow> dw_phase (dq_writes q ! i) = Write_Released
          \<or> (\<exists>p<j. dw_previous (dq_writes q ! j) = Some p \<and> i \<le> p \<and> dw_key (dq_writes q ! p) = dw_key (dq_writes q ! j)))
     \<and> attempts_ok m (dw_phase (dq_writes q ! j)) (attempts_of q j))"

definition chains_ok :: "durable_queue \<Rightarrow> bool" where
  "chains_ok q = (\<forall>key. case dq_chains q key of
       None \<Rightarrow> (\<forall>i < length (dq_writes q). dw_key (dq_writes q ! i) = key \<longrightarrow> dw_phase (dq_writes q ! i) = Write_Released)
     | Some c \<Rightarrow> c < length (dq_writes q) \<and> dw_key (dq_writes q ! c) = key
         \<and> (\<forall>i < length (dq_writes q). dw_key (dq_writes q ! i) = key \<longrightarrow> i \<le> c))"

definition log_ok :: "durable_queue \<Rightarrow> bool" where
  "log_ok q =
     ((\<forall>e \<in> set (dq_log q). fst e < length (dq_writes q))
      \<and> sorted_wrt (\<lambda>e e'. dw_key (dq_writes q ! fst e) = dw_key (dq_writes q ! fst e') \<longrightarrow> fst e \<le> fst e') (dq_log q))"

definition failures_ok :: "durable_queue \<Rightarrow> bool" where
  "failures_ok q = (dq_abandoned q = take max_remembered_failures (dq_failures q))"

definition durable :: "nat \<Rightarrow> durable_queue \<Rightarrow> bool" where
  "durable m q = (writes_ok m q \<and> chains_ok q \<and> log_ok q \<and> failures_ok q)"

lemma nth_update: "xs[i := v] ! j = (if i = j \<and> j < length xs then v else xs ! j)"
  by (cases "i = j"; cases "j < length xs") (simp_all add: list_update_beyond)

text \<open>
  Most steps change one write, keep its key and its predecessor, start nothing and release nothing.
\<close>

definition write_moves :: "nat \<Rightarrow> nat \<Rightarrow> durable_queue \<Rightarrow> durable_queue \<Rightarrow> bool" where
  "write_moves m i q q' =
     (i < length (dq_writes q)
      \<and> (\<exists>w. dq_writes q' = (dq_writes q)[i := w] \<and> dw_key w = dw_key (dq_writes q ! i) \<and> dw_previous w = dw_previous (dq_writes q ! i)
          \<and> dw_phase w \<noteq> Write_Released \<and> dw_phase (dq_writes q ! i) \<noteq> Write_Released
          \<and> (under_way (dw_phase w) \<longrightarrow> under_way (dw_phase (dq_writes q ! i)))
          \<and> dw_commands w \<le> dw_commands (dq_writes q ! i)
          \<and> (dw_phase w = Write_Queued \<longrightarrow> dw_phase (dq_writes q ! i) = Write_Queued)
          \<and> attempts_ok m (dw_phase w) (attempts_of q i))
      \<and> dq_chains q' = dq_chains q \<and> dq_log q' = dq_log q \<and> failures_ok q')"

lemma released_after_move:
  assumes "write_moves m i q q'"
  shows "earlier_released q' j = earlier_released q j"
proof -
  have "dw_key (dq_writes q' ! k) = dw_key (dq_writes q ! k)"
    "dw_phase (dq_writes q' ! k) = Write_Released \<longleftrightarrow> dw_phase (dq_writes q ! k) = Write_Released" for k
    using assms by (auto simp: write_moves_def nth_update split: if_splits)
  then show ?thesis by (simp add: earlier_released_def)
qed

lemma durable_moves:
  assumes d: "durable m q" and mv: "write_moves m i q q'"
  shows "durable m q'"
proof -
  obtain w where w: "dq_writes q' = (dq_writes q)[i := w]" "dw_key w = dw_key (dq_writes q ! i)"
    "dw_previous w = dw_previous (dq_writes q ! i)" "dw_phase w \<noteq> Write_Released" "dw_phase (dq_writes q ! i) \<noteq> Write_Released"
    "under_way (dw_phase w) \<longrightarrow> under_way (dw_phase (dq_writes q ! i))" "dw_commands w \<le> dw_commands (dq_writes q ! i)"
    "dw_phase w = Write_Queued \<longrightarrow> dw_phase (dq_writes q ! i) = Write_Queued" "attempts_ok m (dw_phase w) (attempts_of q i)"
    and i: "i < length (dq_writes q)" and same: "dq_chains q' = dq_chains q" "dq_log q' = dq_log q" "failures_ok q'"
    using mv by (auto simp: write_moves_def)
  have key: "dw_key (dq_writes q' ! k) = dw_key (dq_writes q ! k)" and prev: "dw_previous (dq_writes q' ! k) = dw_previous (dq_writes q ! k)"
    and rel: "dw_phase (dq_writes q' ! k) = Write_Released \<longleftrightarrow> dw_phase (dq_writes q ! k) = Write_Released"
    and cmd: "dw_commands (dq_writes q' ! k) \<le> dw_commands (dq_writes q ! k)"
    and way: "under_way (dw_phase (dq_writes q' ! k)) \<Longrightarrow> under_way (dw_phase (dq_writes q ! k))"
    and queued: "dw_phase (dq_writes q' ! k) = Write_Queued \<Longrightarrow> dw_phase (dq_writes q ! k) = Write_Queued" for k
    using w by (auto simp: nth_update split: if_splits)
  have len: "length (dq_writes q') = length (dq_writes q)" by (simp add: w)
  have att: "attempts_of q' k = attempts_of q k" for k by (simp add: attempts_of_def same)
  have "writes_ok m q'"
    unfolding writes_ok_def len key prev rel att released_after_move [OF mv]
  proof (intro allI impI)
    fix j
    assume j: "j < length (dq_writes q)"
    note ok = d [unfolded durable_def writes_ok_def, THEN conjunct1, rule_format, OF j]
    have "attempts_ok m (dw_phase (dq_writes q' ! j)) (attempts_of q j)"
      using ok w(1,9) i by (cases "j = i") (simp_all add: nth_update)
    then show "(dw_phase (dq_writes q ! j) = Write_Released \<or> under_way (dw_phase (dq_writes q' ! j)) \<or> 0 < dw_commands (dq_writes q' ! j)
        \<or> attempts_of q j \<noteq> [] \<longrightarrow> earlier_released q j)
     \<and> dw_commands (dq_writes q' ! j) \<le> 1
     \<and> (dw_phase (dq_writes q' ! j) = Write_Queued \<or> dw_phase (dq_writes q ! j) = Write_Released \<longrightarrow> dw_commands (dq_writes q' ! j) = 0)
     \<and> (\<forall>i<j. dw_key (dq_writes q ! i) = dw_key (dq_writes q ! j) \<longrightarrow> dw_phase (dq_writes q ! i) = Write_Released
          \<or> (\<exists>p<j. dw_previous (dq_writes q ! j) = Some p \<and> i \<le> p \<and> dw_key (dq_writes q ! p) = dw_key (dq_writes q ! j)))
     \<and> attempts_ok m (dw_phase (dq_writes q' ! j)) (attempts_of q j)"
      using ok cmd [of j] way [of j] queued [of j] by auto
  qed
  moreover have "chains_ok q'" using d unfolding durable_def chains_ok_def len key rel same by blast
  moreover have "log_ok q'" using d by (simp add: durable_def log_ok_def len key same)
  ultimately show ?thesis using same by (simp add: durable_def)
qed

lemma durable_same:
  assumes "durable m q" and writes: "dq_writes q' = dq_writes q" and chains: "dq_chains q' = dq_chains q"
    and log: "dq_log q' = dq_log q" and "failures_ok q'"
  shows "durable m q'"
proof -
  have "earlier_released q' = earlier_released q" "attempts_of q' = attempts_of q"
    by (simp_all add: earlier_released_def attempts_of_def fun_eq_iff writes log)
  then have "writes_ok m q' = writes_ok m q" by (simp only: writes_ok_def writes)
  moreover have "chains_ok q' = chains_ok q" "log_ok q' = log_ok q"
    by (simp_all only: chains_ok_def log_ok_def writes chains log)
  ultimately show ?thesis using assms(1,5) by (simp only: durable_def)
qed

lemma failures_answered:
  assumes "failures_ok q"
  shows "failures_ok (answer_write i r q)"
  using assms by (auto simp: failures_ok_def answer_write_def set_phase_def update_write_def Let_def min_def)

text \<open>An answer is a move; so is a phase that starts nothing.\<close>

lemma answer_moves:
  assumes "durable m q" and "i < length (dq_writes q)" and "dw_phase (dq_writes q ! i) \<noteq> Write_Released"
    and "length (attempts_of q i) \<le> m"
  shows "write_moves m i q (answer_write i r q)"
proof -
  have "failures_ok (answer_write i r q)" using assms(1) by (simp add: durable_def failures_answered)
  moreover have "dq_writes (answer_write i r q) = (dq_writes q)[i := (dq_writes q ! i)\<lparr> dw_phase := Write_Answered r \<rparr>]"
    "dq_chains (answer_write i r q) = dq_chains q" "dq_log (answer_write i r q) = dq_log q"
    by (simp_all add: answer_write_def set_phase_def update_write_def Let_def)
  ultimately show ?thesis using assms(2-4) by (auto simp: write_moves_def)
qed

lemma phase_moves:
  assumes "durable m q" and "i < length (dq_writes q)" and "under_way (dw_phase (dq_writes q ! i))" and "under_way ph"
    and "attempts_ok m ph (attempts_of q i)"
  shows "write_moves m i q (set_phase i ph q)"
proof -
  have "dw_phase (dq_writes q ! i) \<noteq> Write_Released" "ph \<noteq> Write_Released" "ph \<noteq> Write_Queued" using assms(3,4) by auto
  then show ?thesis
    using assms by (auto simp: write_moves_def set_phase_def update_write_def durable_def failures_ok_def)
qed

lemma lands_moves:
  assumes "durable m q" and "i < length (dq_writes q)" and "dw_phase (dq_writes q ! i) \<noteq> Write_Released"
  shows "write_moves m i q (update_write i (\<lambda>w. w\<lparr> dw_commands := dw_commands w - 1 \<rparr>) q)"
  using assms by (auto simp: write_moves_def update_write_def durable_def writes_ok_def failures_ok_def)

lemma write_facts:
  assumes "durable m q" and "i < length (dq_writes q)"
  shows "attempts_ok m (dw_phase (dq_writes q ! i)) (attempts_of q i)" and "dw_commands (dq_writes q ! i) \<le> 1"
    and "dw_phase (dq_writes q ! i) = Write_Queued \<or> dw_phase (dq_writes q ! i) = Write_Released \<Longrightarrow> dw_commands (dq_writes q ! i) = 0"
    and "dw_phase (dq_writes q ! i) = Write_Released \<or> under_way (dw_phase (dq_writes q ! i)) \<or> attempts_of q i \<noteq> [] \<Longrightarrow>
      earlier_released q i"
    and "\<forall>k<i. dw_key (dq_writes q ! k) = dw_key (dq_writes q ! i) \<longrightarrow> dw_phase (dq_writes q ! k) = Write_Released
          \<or> (\<exists>p<i. dw_previous (dq_writes q ! i) = Some p \<and> k \<le> p \<and> dw_key (dq_writes q ! p) = dw_key (dq_writes q ! i))"
  using assms(1) [unfolded durable_def writes_ok_def, THEN conjunct1, THEN spec, THEN mp, OF assms(2)] by (blast+)

text \<open>Once its predecessor has released the key, everything earlier has.\<close>

lemma settled_means_released:
  assumes d: "durable m q" and i: "i < length (dq_writes q)" and p: "previous_settled q (dq_writes q ! i)"
  shows "earlier_released q i"
  unfolding earlier_released_def
proof (intro allI impI)
  fix k
  assume k: "k < i" "dw_key (dq_writes q ! k) = dw_key (dq_writes q ! i)"
  show "dw_phase (dq_writes q ! k) = Write_Released"
  proof (rule ccontr)
    assume open_write: "dw_phase (dq_writes q ! k) \<noteq> Write_Released"
    then obtain pr where pr: "pr < i" "dw_previous (dq_writes q ! i) = Some pr" "k \<le> pr"
        "dw_key (dq_writes q ! pr) = dw_key (dq_writes q ! i)"
      using write_facts(5) [OF d i] k by blast
    then have released: "dw_phase (dq_writes q ! pr) = Write_Released" using p by (simp add: previous_settled_def)
    then have "earlier_released q pr" using write_facts(4) [OF d] pr(1) i by (meson order.strict_trans)
    then show False using open_write released pr k by (cases "k = pr") (auto simp: earlier_released_def)
  qed
qed

lemma durable_starts:
  assumes d: "durable m q" and i: "i < length (dq_writes q)" and rel: "earlier_released q i"
    and ph: "dw_phase (dq_writes q ! i) \<noteq> Write_Released" and cmd: "dw_commands (dq_writes q ! i) = 0"
    and att: "attempts_of q i = [1..<attempt]" "1 \<le> attempt" "attempt \<le> m"
  shows "durable m (start_write_attempt i attempt q)"
proof -
  let ?q = "start_write_attempt i attempt q"
  let ?w = "(dq_writes q ! i)\<lparr> dw_phase := Write_Running attempt, dw_commands := 1 \<rparr>"
  have writes: "dq_writes ?q = (dq_writes q)[i := ?w]" and same: "dq_chains ?q = dq_chains q" "dq_log ?q = dq_log q @ [(i, attempt)]"
    "dq_abandoned ?q = dq_abandoned q" "dq_failures ?q = dq_failures q"
    using cmd by (simp_all add: start_write_attempt_def update_write_def)
  have key: "dw_key (dq_writes ?q ! k) = dw_key (dq_writes q ! k)" and prev: "dw_previous (dq_writes ?q ! k) = dw_previous (dq_writes q ! k)"
    and rels: "dw_phase (dq_writes ?q ! k) = Write_Released \<longleftrightarrow> dw_phase (dq_writes q ! k) = Write_Released" for k
    using ph by (auto simp: writes nth_update split: if_splits)
  have len: "length (dq_writes ?q) = length (dq_writes q)" by (simp add: writes)
  have atts: "attempts_of ?q k = (if k = i then attempts_of q i @ [attempt] else attempts_of q k)" for k
    by (simp add: attempts_of_def same)
  have earlier: "earlier_released ?q j = earlier_released q j" for j by (simp add: earlier_released_def key rels)
  have "writes_ok m ?q"
    unfolding writes_ok_def len
  proof (intro allI impI)
    fix j
    assume j: "j < length (dq_writes q)"
    have prevs: "\<forall>k<j. dw_key (dq_writes ?q ! k) = dw_key (dq_writes ?q ! j) \<longrightarrow> dw_phase (dq_writes ?q ! k) = Write_Released
          \<or> (\<exists>p<j. dw_previous (dq_writes ?q ! j) = Some p \<and> k \<le> p \<and> dw_key (dq_writes ?q ! p) = dw_key (dq_writes ?q ! j))"
      using write_facts(5) [OF d j] by (simp add: key prev rels)
    show "(dw_phase (dq_writes ?q ! j) = Write_Released \<or> under_way (dw_phase (dq_writes ?q ! j)) \<or> 0 < dw_commands (dq_writes ?q ! j)
        \<or> attempts_of ?q j \<noteq> [] \<longrightarrow> earlier_released ?q j)
     \<and> dw_commands (dq_writes ?q ! j) \<le> 1
     \<and> (dw_phase (dq_writes ?q ! j) = Write_Queued \<or> dw_phase (dq_writes ?q ! j) = Write_Released \<longrightarrow> dw_commands (dq_writes ?q ! j) = 0)
     \<and> (\<forall>k<j. dw_key (dq_writes ?q ! k) = dw_key (dq_writes ?q ! j) \<longrightarrow> dw_phase (dq_writes ?q ! k) = Write_Released
          \<or> (\<exists>p<j. dw_previous (dq_writes ?q ! j) = Some p \<and> k \<le> p \<and> dw_key (dq_writes ?q ! p) = dw_key (dq_writes ?q ! j)))
     \<and> attempts_ok m (dw_phase (dq_writes ?q ! j)) (attempts_of ?q j)"
    proof (cases "j = i")
      case True
      have w: "dq_writes ?q ! j = ?w" using i True by (simp add: writes)
      have "attempts_of ?q j = [1..<Suc attempt]" using att(1,2) True atts by simp
      then show ?thesis using prevs rel att(2,3) True w by (simp add: earlier)
    next
      case False
      have w: "dq_writes ?q ! j = dq_writes q ! j" "attempts_of ?q j = attempts_of q j" using False by (simp_all add: writes atts)
      show ?thesis
        using d [unfolded durable_def writes_ok_def, THEN conjunct1, THEN spec, THEN mp, OF j] prevs
        unfolding w earlier by blast
    qed
  qed
  moreover have "chains_ok ?q" using d unfolding durable_def chains_ok_def len key rels same by blast
  moreover have "log_ok ?q"
  proof -
    have "fst e \<le> i" if e: "e \<in> set (dq_log q)" "dw_key (dq_writes q ! fst e) = dw_key (dq_writes q ! i)" for e
    proof (rule ccontr)
      assume "\<not> fst e \<le> i"
      have "fst e < length (dq_writes q)" using d e(1) by (auto simp: durable_def log_ok_def)
      moreover have "attempts_of q (fst e) \<noteq> []" using e(1) by (auto simp: attempts_of_def filter_empty_conv)
      ultimately have "earlier_released q (fst e)" using write_facts(4) [OF d] by blast
      then show False using \<open>\<not> fst e \<le> i\<close> e(2) ph by (auto simp: earlier_released_def)
    qed
    then show ?thesis using d i by (auto simp: durable_def log_ok_def len key same sorted_wrt_append)
  qed
  moreover have "failures_ok ?q" using d by (simp add: durable_def failures_ok_def same)
  ultimately show ?thesis by (simp add: durable_def)
qed

lemma durable_releases:
  assumes d: "durable m q" and i: "i < length (dq_writes q)" and ph: "dw_phase (dq_writes q ! i) = Write_Answered r"
  shows "durable m (release_key i q)"
proof (cases "previous_settled q (dq_writes q ! i) \<and> dw_commands (dq_writes q ! i) = 0")
  case False then show ?thesis using d by (simp only: release_key_def Let_def) simp
next
  case True
  let ?q = "release_key i q"
  have rel: "earlier_released q i" using settled_means_released [OF d i] True by blast
  have writes: "dq_writes ?q = (dq_writes q)[i := (dq_writes q ! i)\<lparr> dw_phase := Write_Released \<rparr>]"
    and chains: "dq_chains ?q = (if dq_chains q (dw_key (dq_writes q ! i)) = Some i
        then (dq_chains q)(dw_key (dq_writes q ! i) := None) else dq_chains q)"
    and same: "dq_log ?q = dq_log q" "dq_abandoned ?q = dq_abandoned q" "dq_failures ?q = dq_failures q"
    using True by (simp_all add: release_key_def Let_def set_phase_def update_write_def)
  have key: "dw_key (dq_writes ?q ! k) = dw_key (dq_writes q ! k)" and prev: "dw_previous (dq_writes ?q ! k) = dw_previous (dq_writes q ! k)"
    and cmd: "dw_commands (dq_writes ?q ! k) = dw_commands (dq_writes q ! k)"
    and rels: "dw_phase (dq_writes q ! k) = Write_Released \<Longrightarrow> dw_phase (dq_writes ?q ! k) = Write_Released"
    and other: "k \<noteq> i \<Longrightarrow> dq_writes ?q ! k = dq_writes q ! k" for k
    by (auto simp: writes nth_update split: if_splits)
  have mine: "dw_phase (dq_writes ?q ! i) = Write_Released" using i by (simp add: writes)
  have len: "length (dq_writes ?q) = length (dq_writes q)" by (simp add: writes)
  have att: "attempts_of ?q k = attempts_of q k" for k by (simp add: attempts_of_def same)
  have earlier: "earlier_released q j \<Longrightarrow> earlier_released ?q j" for j using rels by (simp add: earlier_released_def key)
  have "writes_ok m ?q"
    unfolding writes_ok_def len
  proof (intro allI impI)
    fix j
    assume j: "j < length (dq_writes q)"
    have prevs: "\<forall>k<j. dw_key (dq_writes ?q ! k) = dw_key (dq_writes ?q ! j) \<longrightarrow> dw_phase (dq_writes ?q ! k) = Write_Released
          \<or> (\<exists>p<j. dw_previous (dq_writes ?q ! j) = Some p \<and> k \<le> p \<and> dw_key (dq_writes ?q ! p) = dw_key (dq_writes ?q ! j))"
      using write_facts(5) [OF d j] rels by (simp add: key prev) blast
    show "(dw_phase (dq_writes ?q ! j) = Write_Released \<or> under_way (dw_phase (dq_writes ?q ! j)) \<or> 0 < dw_commands (dq_writes ?q ! j)
        \<or> attempts_of ?q j \<noteq> [] \<longrightarrow> earlier_released ?q j)
     \<and> dw_commands (dq_writes ?q ! j) \<le> 1
     \<and> (dw_phase (dq_writes ?q ! j) = Write_Queued \<or> dw_phase (dq_writes ?q ! j) = Write_Released \<longrightarrow> dw_commands (dq_writes ?q ! j) = 0)
     \<and> (\<forall>k<j. dw_key (dq_writes ?q ! k) = dw_key (dq_writes ?q ! j) \<longrightarrow> dw_phase (dq_writes ?q ! k) = Write_Released
          \<or> (\<exists>p<j. dw_previous (dq_writes ?q ! j) = Some p \<and> k \<le> p \<and> dw_key (dq_writes ?q ! p) = dw_key (dq_writes ?q ! j)))
     \<and> attempts_ok m (dw_phase (dq_writes ?q ! j)) (attempts_of ?q j)"
    proof (cases "j = i")
      case True
      then show ?thesis
        using prevs rel mine earlier [OF rel] write_facts(1) [OF d i] \<open>_ \<and> dw_commands (dq_writes q ! i) = 0\<close> ph
        by (simp add: cmd att)
    next
      case False
      show ?thesis
        using d [unfolded durable_def writes_ok_def, THEN conjunct1, THEN spec, THEN mp, OF j] prevs earlier [of j]
        unfolding other [OF False] att by blast
    qed
  qed
  moreover have "chains_ok ?q"
    unfolding chains_ok_def
  proof (intro allI)
    fix k
    have c: "case dq_chains q k of
       None \<Rightarrow> (\<forall>i < length (dq_writes q). dw_key (dq_writes q ! i) = k \<longrightarrow> dw_phase (dq_writes q ! i) = Write_Released)
     | Some c \<Rightarrow> c < length (dq_writes q) \<and> dw_key (dq_writes q ! c) = k
         \<and> (\<forall>i < length (dq_writes q). dw_key (dq_writes q ! i) = k \<longrightarrow> i \<le> c)"
      using d by (simp add: durable_def chains_ok_def)
    show "case dq_chains ?q k of
       None \<Rightarrow> (\<forall>i < length (dq_writes ?q). dw_key (dq_writes ?q ! i) = k \<longrightarrow> dw_phase (dq_writes ?q ! i) = Write_Released)
     | Some c \<Rightarrow> c < length (dq_writes ?q) \<and> dw_key (dq_writes ?q ! c) = k
         \<and> (\<forall>i < length (dq_writes ?q). dw_key (dq_writes ?q ! i) = k \<longrightarrow> i \<le> c)"
    proof (cases "k = dw_key (dq_writes q ! i) \<and> dq_chains q k = Some i")
      case True
      have "\<forall>j < length (dq_writes q). dw_key (dq_writes q ! j) = k \<longrightarrow> j \<le> i"
        using c unfolding conjunct2 [OF True] option.case by blast
      then have "\<forall>j < length (dq_writes q). dw_key (dq_writes q ! j) = k \<longrightarrow> dw_phase (dq_writes ?q ! j) = Write_Released"
        using earlier [OF rel] mine True by (metis earlier_released_def key le_neq_implies_less)
      moreover have "dq_chains ?q k = None" using chains True by auto
      ultimately show ?thesis unfolding key len by simp
    next
      case False
      then have "dq_chains ?q k = dq_chains q k" by (auto simp: chains)
      then show ?thesis using c rels by (simp add: len key split: option.splits)
    qed
  qed
  moreover have "log_ok ?q" using d by (simp add: durable_def log_ok_def len key same)
  moreover have "failures_ok ?q" using d by (simp add: durable_def failures_ok_def same)
  ultimately show ?thesis by (simp add: durable_def)
qed

lemma durable_flags:
  assumes d: "durable m q"
  shows "durable m (update_write i (\<lambda>w. w\<lparr> dw_superseded := True \<rparr>) q)"
proof -
  let ?q = "update_write i (\<lambda>w. w\<lparr> dw_superseded := True \<rparr>) q"
  have same: "dw_key (dq_writes ?q ! k) = dw_key (dq_writes q ! k)" "dw_phase (dq_writes ?q ! k) = dw_phase (dq_writes q ! k)"
    "dw_previous (dq_writes ?q ! k) = dw_previous (dq_writes q ! k)" "dw_commands (dq_writes ?q ! k) = dw_commands (dq_writes q ! k)" for k
    by (auto simp: update_write_def nth_update)
  have rest: "length (dq_writes ?q) = length (dq_writes q)" "dq_chains ?q = dq_chains q" "dq_log ?q = dq_log q"
    "failures_ok ?q = failures_ok q"
    by (simp_all add: update_write_def failures_ok_def)
  have more: "earlier_released ?q = earlier_released q" "attempts_of ?q = attempts_of q"
    by (simp_all add: earlier_released_def attempts_of_def fun_eq_iff same rest)
  show ?thesis using d unfolding durable_def writes_ok_def chains_ok_def log_ok_def same rest more .
qed

lemma durable_appends:
  assumes d: "durable m q"
    and writes: "dq_writes q' = dq_writes q @ [\<lparr> dw_key = key, dw_previous = dq_chains q key, dw_superseded = False,
               dw_phase = Write_Queued, dw_commands = 0 \<rparr>]"
    and chains: "dq_chains q' = (dq_chains q)(key := Some (length (dq_writes q)))"
    and same: "dq_log q' = dq_log q" "dq_abandoned q' = dq_abandoned q" "dq_failures q' = dq_failures q"
  shows "durable m q'"
proof -
  let ?n = "length (dq_writes q)"
  have old: "k < ?n \<Longrightarrow> dq_writes q' ! k = dq_writes q ! k" for k by (simp add: writes nth_append)
  have new: "dq_writes q' ! ?n = \<lparr> dw_key = key, dw_previous = dq_chains q key, dw_superseded = False,
      dw_phase = Write_Queued, dw_commands = 0 \<rparr>" by (simp add: writes)
  have len: "length (dq_writes q') = Suc ?n" by (simp add: writes)
  have att: "attempts_of q' k = attempts_of q k" for k by (simp add: attempts_of_def same)
  have earlier: "j < ?n \<Longrightarrow> earlier_released q' j = earlier_released q j" for j by (simp add: earlier_released_def old)
  have logged: "fst e < ?n" if "e \<in> set (dq_log q)" for e using d that by (auto simp: durable_def log_ok_def)
  then have fresh: "attempts_of q ?n = []" by (fastforce simp: attempts_of_def filter_empty_conv)
  have c: "case dq_chains q key of
       None \<Rightarrow> (\<forall>i < ?n. dw_key (dq_writes q ! i) = key \<longrightarrow> dw_phase (dq_writes q ! i) = Write_Released)
     | Some c \<Rightarrow> c < ?n \<and> dw_key (dq_writes q ! c) = key \<and> (\<forall>i < ?n. dw_key (dq_writes q ! i) = key \<longrightarrow> i \<le> c)" for key
    using d by (simp add: durable_def chains_ok_def)
  have "writes_ok m q'"
    unfolding writes_ok_def len
  proof (intro allI impI)
    fix j
    assume j: "j < Suc ?n"
    show "(dw_phase (dq_writes q' ! j) = Write_Released \<or> under_way (dw_phase (dq_writes q' ! j)) \<or> 0 < dw_commands (dq_writes q' ! j)
        \<or> attempts_of q' j \<noteq> [] \<longrightarrow> earlier_released q' j)
     \<and> dw_commands (dq_writes q' ! j) \<le> 1
     \<and> (dw_phase (dq_writes q' ! j) = Write_Queued \<or> dw_phase (dq_writes q' ! j) = Write_Released \<longrightarrow> dw_commands (dq_writes q' ! j) = 0)
     \<and> (\<forall>k<j. dw_key (dq_writes q' ! k) = dw_key (dq_writes q' ! j) \<longrightarrow> dw_phase (dq_writes q' ! k) = Write_Released
          \<or> (\<exists>p<j. dw_previous (dq_writes q' ! j) = Some p \<and> k \<le> p \<and> dw_key (dq_writes q' ! p) = dw_key (dq_writes q' ! j)))
     \<and> attempts_ok m (dw_phase (dq_writes q' ! j)) (attempts_of q' j)"
    proof (cases "j = ?n")
      case True
      have "\<forall>k<?n. dw_key (dq_writes q ! k) = key \<longrightarrow> dw_phase (dq_writes q ! k) = Write_Released
          \<or> (\<exists>p<?n. dq_chains q key = Some p \<and> k \<le> p \<and> dw_key (dq_writes q ! p) = key)"
        using c [of key] by (cases "dq_chains q key") auto
      then show ?thesis using fresh unfolding True new att by (auto simp: old)
    next
      case False
      then have j: "j < ?n" using j by simp
      have prevs: "\<forall>k<j. dw_key (dq_writes q' ! k) = dw_key (dq_writes q' ! j) \<longrightarrow> dw_phase (dq_writes q' ! k) = Write_Released
          \<or> (\<exists>p<j. dw_previous (dq_writes q' ! j) = Some p \<and> k \<le> p \<and> dw_key (dq_writes q' ! p) = dw_key (dq_writes q' ! j))"
        using write_facts(5) [OF d j] j by (auto simp: old dest: order.strict_trans)
      show ?thesis
        using d [unfolded durable_def writes_ok_def, THEN conjunct1, THEN spec, THEN mp, OF j] prevs
        unfolding old [OF j] att earlier [OF j] by blast
    qed
  qed
  moreover have "chains_ok q'"
    unfolding chains_ok_def
  proof (intro allI)
    fix k
    show "case dq_chains q' k of
       None \<Rightarrow> (\<forall>i < length (dq_writes q'). dw_key (dq_writes q' ! i) = k \<longrightarrow> dw_phase (dq_writes q' ! i) = Write_Released)
     | Some c \<Rightarrow> c < length (dq_writes q') \<and> dw_key (dq_writes q' ! c) = k
         \<and> (\<forall>i < length (dq_writes q'). dw_key (dq_writes q' ! i) = k \<longrightarrow> i \<le> c)"
    proof (cases "k = key")
      case True then show ?thesis by (simp add: chains len new)
    next
      case False
      then have "dq_chains q' k = dq_chains q k" by (simp add: chains)
      then show ?thesis
        using c [of k] False by (cases "dq_chains q k") (auto simp: len old new less_Suc_eq)
    qed
  qed
  moreover have "log_ok q'"
  proof -
    have "sorted_wrt (\<lambda>e e'. dw_key (dq_writes q ! fst e) = dw_key (dq_writes q ! fst e') \<longrightarrow> fst e \<le> fst e') (dq_log q)"
      using d by (simp add: durable_def log_ok_def)
    then have "sorted_wrt (\<lambda>e e'. dw_key (dq_writes q' ! fst e) = dw_key (dq_writes q' ! fst e') \<longrightarrow> fst e \<le> fst e') (dq_log q)"
      by (rule sorted_wrt_mono_rel [rotated]) (simp add: old logged)
    then show ?thesis using logged by (auto simp: log_ok_def same len less_Suc_eq)
  qed
  moreover have "failures_ok q'" using d by (simp add: durable_def failures_ok_def same)
  ultimately show ?thesis by (simp add: durable_def)
qed

lemma durable_enqueues:
  assumes d: "durable m q"
  shows "durable m (enqueue_write key q)"
proof -
  define q1 where "q1 = (case dq_chains q key of None \<Rightarrow> q | Some j \<Rightarrow> update_write j (\<lambda>w. w\<lparr> dw_superseded := True \<rparr>) q)"
  have q1: "durable m q1" "dq_chains q1 = dq_chains q"
    using d durable_flags by (auto simp: q1_def update_write_def split: option.split)
  have "enqueue_write key q = q1\<lparr> dq_writes := dq_writes q1 @ [\<lparr> dw_key = key, dw_previous = dq_chains q1 key, dw_superseded = False,
               dw_phase = Write_Queued, dw_commands = 0 \<rparr>],
             dq_chains := (dq_chains q1)(key := Some (length (dq_writes q1))) \<rparr>"
    by (simp add: enqueue_write_def Let_def q1_def [symmetric] q1(2))
  then show ?thesis using durable_appends [OF q1(1)] by simp
qed

subsection \<open>Every step\<close>

lemma attempts_length: "attempts_ok m ph as \<Longrightarrow> length as \<le> m"
  by (cases "(m, ph, as)" rule: attempts_ok.cases) auto

lemma durable_answers:
  assumes "durable m q" and "i < length (dq_writes q)" and "dw_phase (dq_writes q ! i) \<noteq> Write_Released"
  shows "durable m (answer_write i r q)"
  using durable_moves [OF assms(1) answer_moves [OF assms]] attempts_length [OF write_facts(1) [OF assms(1,2)]] by blast

lemma durable_leaves_queue:
  assumes d: "durable (max 1 m) q" and i: "i < length (dq_writes q)" and ph: "dw_phase (dq_writes q ! i) = Write_Queued"
  shows "durable (max 1 m) (leave_queue i q)"
proof -
  have "durable (max 1 m) (start_write_attempt i 1 q)" if "previous_settled q (dq_writes q ! i)"
    using settled_means_released [OF d i that] write_facts(1,3) [OF d i] ph by (intro durable_starts [OF d i]) auto
  then show ?thesis using d durable_answers [OF d i] ph by (simp add: leave_queue_def)
qed

lemma durable_fails:
  assumes d: "durable (max 1 m) q" and i: "i < length (dq_writes q)" and ph: "dw_phase (dq_writes q ! i) = Write_Running n"
  shows "durable (max 1 m) (attempt_fails m i n q)"
proof -
  have as: "attempts_ok (max 1 m) (Write_Running n) (attempts_of q i)" using write_facts(1) [OF d i] ph by simp
  have "durable (max 1 m) (set_phase i (Write_Backing_Off n) q)" if "n \<noteq> max 1 m"
    using as that ph by (intro durable_moves [OF d phase_moves [OF d i]]) auto
  then show ?thesis using durable_answers [OF d i] ph by (simp add: attempt_fails_def)
qed

lemma durable_ends:
  assumes d: "durable (max 1 m) q" and i: "i < length (dq_writes q)" and ph: "dw_phase (dq_writes q ! i) = Write_Running n"
  shows "durable (max 1 m) (attempt_ends m i n answer landed q)"
proof -
  define q1 where "q1 = (if landed \<or> answer = Write_Succeeds
      then update_write i (\<lambda>w. w\<lparr> dw_commands := dw_commands w - 1 \<rparr>) q else q)"
  have q1: "durable (max 1 m) q1" using d durable_moves [OF d lands_moves [OF d i]] ph by (simp add: q1_def)
  have i1: "i < length (dq_writes q1)" "dw_phase (dq_writes q1 ! i) = Write_Running n"
    using i ph by (auto simp: q1_def update_write_def)
  have "attempt_ends m i n answer landed q = (case answer of
           Write_Succeeds \<Rightarrow> answer_write i Confirmed q1
         | Write_Refused \<Rightarrow> answer_write i Refused q1
         | Write_Fails \<Rightarrow> attempt_fails m i n q1)"
    unfolding attempt_ends_def Let_def q1_def ..
  then show ?thesis
    using durable_answers [OF q1 i1(1)] durable_fails [OF q1 i1] i1(2) by (cases answer) simp_all
qed

lemma durable_retries:
  assumes d: "durable (max 1 m) q" and i: "i < length (dq_writes q)" and ph: "dw_phase (dq_writes q ! i) = Write_Settling n"
  shows "durable (max 1 m) (retry_write i n q)"
proof -
  have as: "attempts_of q i = [1..<Suc n]" "1 \<le> n" "n < max 1 m" using write_facts(1) [OF d i] ph by auto
  have rel: "earlier_released q i" using write_facts(4) [OF d i] ph by simp
  have "durable (max 1 m) (start_write_attempt i (n + 1) q)" if "dw_commands (dq_writes q ! i) = 0"
    using as that ph by (intro durable_starts [OF d i rel]) auto
  then show ?thesis using d durable_answers [OF d i] ph by (simp add: retry_write_def)
qed

lemma durable_step:
  assumes d: "durable (max 1 m) q"
  shows "durable (max 1 m) (write_step m e q)"
proof (cases e)
  case (Enqueue key) then show ?thesis using durable_enqueues [OF d] by simp
next
  case (Goes_On_Write i)
  have "durable (max 1 m) (write_goes_on i q)" if i: "i < length (dq_writes q)"
  proof (cases "dw_phase (dq_writes q ! i)")
    case (Write_Backing_Off n)
    have "write_moves (max 1 m) i q (set_phase i (Write_Settling n) q)"
      using write_facts(1) [OF d i] Write_Backing_Off by (intro phase_moves [OF d i]) simp_all
    then show ?thesis using durable_moves [OF d] Write_Backing_Off by (simp add: write_goes_on_def)
  qed (use d durable_leaves_queue [OF d i] durable_retries [OF d i] durable_releases [OF d i] in \<open>simp_all add: write_goes_on_def\<close>)
  then show ?thesis using d Goes_On_Write by simp
next
  case (Attempt_Ends i answer landed)
  then show ?thesis using d durable_ends [OF d] by (auto split: write_phase.split)
next
  case (Command_Lands i)
  have "durable (max 1 m) (command_lands i q)" if i: "i < length (dq_writes q)"
  proof (cases "dw_phase (dq_writes q ! i) = Write_Released")
    case False
    then show ?thesis using d durable_moves [OF d lands_moves [OF d i]] by (simp add: command_lands_def split: write_phase.split)
  next
    case True
    then have "dw_commands (dq_writes q ! i) = 0" using write_facts(3) [OF d i] by simp
    then have "(dq_writes q ! i)\<lparr> dw_commands := dw_commands (dq_writes q ! i) - 1 \<rparr> = dq_writes q ! i"
      by (cases "dq_writes q ! i") simp
    then have "update_write i (\<lambda>w. w\<lparr> dw_commands := dw_commands w - 1 \<rparr>) q = q" by (simp add: update_write_def del: One_nat_def)
    then show ?thesis using d True by (simp add: command_lands_def)
  qed
  then show ?thesis using d Command_Lands by simp
next
  case Confirm
  have "durable (max 1 m) (q\<lparr> dq_abandoned := [], dq_failures := [] \<rparr>)"
    by (rule durable_same [OF d]) (simp_all add: failures_ok_def)
  then show ?thesis using Confirm by (simp add: confirm_writes_def)
next
  case Stop_Writes
  have "durable (max 1 m) (q\<lparr> dq_stopped := True \<rparr>)"
    using d by (intro durable_same [OF d]) (simp_all add: failures_ok_def durable_def)
  then show ?thesis using Stop_Writes by (simp add: stop_writes_def)
qed

lemma durable_run: "durable (max 1 m) (write_run m es)"
proof -
  have "durable (max 1 m) create_durable_write_queue"
    by (simp add: durable_def writes_ok_def chains_ok_def log_ok_def failures_ok_def create_durable_write_queue_def)
  then have "durable (max 1 m) (fold (write_step m) es create_durable_write_queue)"
    by (induction es rule: rev_induct) (simp_all add: durable_step del: One_nat_def)
  then show ?thesis by (simp add: write_run_def)
qed

subsection \<open>What the queue promises\<close>

lemma one_of_many:
  fixes f :: "'a \<Rightarrow> nat"
  assumes "\<forall>j < length xs. f (xs ! j) \<le> 1 \<and> (0 < f (xs ! j) \<longrightarrow> (\<forall>i<j. f (xs ! i) = 0))"
  shows "sum_list (map f xs) \<le> 1"
  using assms
proof (induction xs rule: rev_induct)
  case (snoc x xs)
  have "\<forall>j < length xs. f (xs ! j) \<le> 1 \<and> (0 < f (xs ! j) \<longrightarrow> (\<forall>i<j. f (xs ! i) = 0))"
    using snoc.prems by (auto simp: nth_append less_Suc_eq)
  then have ih: "sum_list (map f xs) \<le> 1" by (rule snoc.IH)
  have x: "f x \<le> 1" "0 < f x \<Longrightarrow> \<forall>i < length xs. f (xs ! i) = 0"
    using snoc.prems [rule_format, of "length xs"] by (auto simp: nth_append)
  show ?case
  proof (cases "f x = 0")
    case False
    then have "\<forall>y \<in> set xs. f y = 0" using x(2) by (auto simp: in_set_conv_nth)
    then have "sum_list (map f xs) = 0" by (induction xs) simp_all
    then have "sum_list (map f (xs @ [x])) = f x" by (simp only: map_append sum_list_append) simp
    then show ?thesis using x(1) by linarith
  qed (use ih in simp)
qed simp

text \<open>
  C24. Writes of one key never get in each other's way, whatever the store answers, late, out of order or never, whatever is
  enqueued meanwhile and whenever the queue is stopped: at most one command of a key is unanswered at any time, the
  attempts of a key are started in the order in which its writes were enqueued (a retry never overtakes a newer write), and
  a write is attempted at most as often as configured, at least once being the least that can be configured.
\<close>

theorem writes_of_a_key_keep_their_order:
  "sum_list (map dw_commands (filter (\<lambda>w. dw_key w = key) (dq_writes (write_run m es)))) \<le> 1
   \<and> sorted (map fst (filter (\<lambda>(i, attempt). dw_key (dq_writes (write_run m es) ! i) = key) (dq_log (write_run m es))))
   \<and> length (filter (\<lambda>(i, attempt). i = k) (dq_log (write_run m es))) \<le> max 1 m"
proof -
  define q where "q = write_run m es"
  have d: "durable (max 1 m) q" unfolding q_def by (rule durable_run)
  let ?f = "\<lambda>w. if dw_key w = key then dw_commands w else 0"
  have "sum_list (map ?f (dq_writes q)) \<le> 1"
  proof (rule one_of_many, intro allI impI)
    fix j
    assume j: "j < length (dq_writes q)"
    have "?f (dq_writes q ! i) = 0" if "0 < ?f (dq_writes q ! j)" "i < j" for i
    proof -
      have key: "dw_key (dq_writes q ! j) = key" "0 < dw_commands (dq_writes q ! j)" using that(1) by (auto split: if_splits)
      then have "earlier_released q j"
        using d [unfolded durable_def writes_ok_def, THEN conjunct1, THEN spec, THEN mp, OF j] by blast
      then show ?thesis using key(1) that(2) write_facts(3) [OF d, of i] j by (auto simp: earlier_released_def)
    qed
    then show "?f (dq_writes q ! j) \<le> 1 \<and> (0 < ?f (dq_writes q ! j) \<longrightarrow> (\<forall>i<j. ?f (dq_writes q ! i) = 0))"
      using write_facts(2) [OF d j] by auto
  qed
  then have "sum_list (map dw_commands (filter (\<lambda>w. dw_key w = key) (dq_writes q))) \<le> 1"
    by (simp add: sum_list_map_filter')
  moreover have "sorted (map fst (filter (\<lambda>(i, attempt). dw_key (dq_writes q ! i) = key) (dq_log q)))"
  proof -
    have "sorted_wrt (\<lambda>e e'. dw_key (dq_writes q ! fst e) = dw_key (dq_writes q ! fst e') \<longrightarrow> fst e \<le> fst e') (dq_log q)"
      using d by (simp add: durable_def log_ok_def)
    then have "sorted_wrt (\<lambda>e e'. dw_key (dq_writes q ! fst e) = dw_key (dq_writes q ! fst e') \<longrightarrow> fst e \<le> fst e')
        (filter (\<lambda>(i, attempt). dw_key (dq_writes q ! i) = key) (dq_log q))"
      by (rule sorted_wrt_filter)
    then show ?thesis
      unfolding sorted_map by (rule sorted_wrt_mono_rel [rotated]) auto
  qed
  moreover have "length (filter (\<lambda>(i, attempt). i = k) (dq_log q)) \<le> max 1 m"
  proof (cases "k < length (dq_writes q)")
    case True
    have "length (filter (\<lambda>(i, attempt). i = k) (dq_log q)) = length (attempts_of q k)"
      by (simp add: attempts_of_def split_beta')
    then show ?thesis using attempts_length [OF write_facts(1) [OF d True]] by simp
  next
    case False
    then have "filter (\<lambda>(i, attempt). i = k) (dq_log q) = []" using d by (auto simp: durable_def log_ok_def filter_empty_conv)
    then show ?thesis by simp
  qed
  ultimately show ?thesis by (simp add: q_def)
qed

text \<open>
  \<open>confirm\<close> is honest: it reports success exactly when no write answered since it was last asked has failed; a write
  that a newer one of its key took over from is no failure.
\<close>

theorem confirm_is_honest: "fst (confirm_writes (write_run m es)) = (dq_failures (write_run m es) = [])"
  using durable_run [of m es] by (simp add: confirm_writes_def durable_def failures_ok_def max_remembered_failures_def)

text \<open>Once the queue is told to stop, no attempt is started any more.\<close>

lemma stopped_step:
  "dq_stopped q \<Longrightarrow> dq_stopped (write_step m e q) \<and> dq_log (write_step m e q) = dq_log q"
  by (cases e) (auto simp: enqueue_write_def write_goes_on_def leave_queue_def retry_write_def release_key_def attempt_ends_def
      attempt_fails_def answer_write_def set_phase_def update_write_def command_lands_def confirm_writes_def stop_writes_def Let_def
      split: option.split write_phase.split attempt_answer.split)

theorem stop_starts_nothing: "dq_log (write_run m (es @ Stop_Writes # es')) = dq_log (write_run m es)"
proof -
  have "dq_stopped (fold (write_step m) es' q) \<and> dq_log (fold (write_step m) es' q) = dq_log q" if "dq_stopped q" for q
    using that by (induction es' arbitrary: q) (auto simp: stopped_step)
  then show ?thesis by (simp add: write_run_def stop_writes_def)
qed

end
