(* ===== verification/Background_State.thy ===== *)
theory Background_State
  imports Server_Messages Clock_Sync
begin

text \<open>
  The background worker of the extension: its state (\<open>background/runtime-state.ts\<close>, with what the
  controllers keep in their closures) and the decisions that only compute (\<open>room-state.ts\<close>,
  \<open>room-manager.ts\<close>, \<open>socket-manager.ts\<close>, \<open>tab-coordinator.ts\<close>, \<open>connection-error.ts\<close>,
  \<open>server-url.ts\<close>).

  A WebSocket is known by the generation it was opened with; its \<open>readyState\<close> belongs to the
  browser. Room states are compared by identity in the source, so a stored one carries the number of
  the object. What a handler does after an \<open>await\<close> is a task that runs when the environment lets it.
  Texts shown to the user are kept as the reason they give.
\<close>

subsection \<open>The state\<close>

datatype ready_state = Socket_Connecting | Socket_Open | Socket_Closing | Socket_Closed

record socket_info =
  sk_url :: string
  sk_ready :: ready_state
  sk_saw_open :: bool
  sk_reachable :: bool
  sk_closed :: bool

datatype shown_error =
    Invalid_Server_Url | Server_Restarting | Server_Unreachable | Handshake_Rejected
  | Origin_Rejected string | Allowed_Origins_Rejected | Lost_Reconnecting | Websocket_Failed
  | Reported_Error string string | Removed_By_Admin string | Member_Token_Missing | Cannot_Read_Video

record share_toast =
  to_key :: "string \<times> string \<times> rat"
  to_actor_id :: "string option"
  to_title :: string
  to_video_url :: string

record pending_share_toast =
  pt_toast :: share_toast
  pt_room_code :: string
  pt_expires_at :: rat

datatype member_delta = Joined_Delta string room_member | Left_Delta string room_member

fun delta_room :: "member_delta \<Rightarrow> string" where
  "delta_room (Joined_Delta code m) = code"
| "delta_room (Left_Delta code m) = code"

datatype page_message =
    Apply_Room_State nat room_state "share_toast option"
  | Sync_Status "string option" bool "string option" "rat option"

datatype tab_stage = Getting_Tab | Updating_Tab | Querying_Tabs | Activating_Tab | Creating_Tab
datatype probe_stage = Checking | Checking_Health

datatype background_task =
    Established_Task
  | State_Task nat room_state rat room_state
  | Tab_Task tab_stage string nat room_state rat room_state
  | Member_Task nat room_state
  | Delta_Task nat nat room_state
  | Error_Task string string
  | Notify_Task
  | Create_Task
  | Create_Connected_Task "nat option"
  | Join_Task
  | Join_Connected_Task "nat option"
  | Share_Create_Task
  | Share_Create_Connected_Task "nat option"
  | Auto_Share_Task string string "nat option" bool
  | Profile_Task
  | Server_Url_Task
  | Server_Url_Connected_Task "nat option"
  | Probe_Task nat nat string probe_stage bool

record background =
  bg_socket :: "nat option"
  bg_sockets :: "nat \<Rightarrow> socket_info option"
  bg_server_url :: string
  bg_connected :: bool
  bg_last_error :: "shown_error option"
  bg_connect_probe :: "nat option"
  bg_socket_generation :: nat
  bg_connect_epoch :: nat
  bg_reconnect_timer :: "rat option"
  bg_reconnect_attempt :: nat
  bg_reconnect_deadline :: "rat option"
  bg_server_restarting :: bool
  bg_room_code :: "string option"
  bg_join_token :: "string option"
  bg_member_token :: "string option"
  bg_member_id :: "string option"
  bg_display_name :: "string option"
  bg_room_state :: "(nat \<times> room_state) option"
  bg_pending_create_room :: bool
  bg_pending_join_room_code :: "string option"
  bg_pending_join_token :: "string option"
  bg_pending_join_request_sent :: bool
  bg_awaiting_fresh_room_state :: bool
  bg_pending_shared_video :: "shared_video option"
  bg_pending_shared_playback :: "playback_state option"
  bg_shared_tab_id :: "nat option"
  bg_last_opened_shared_url :: "string option"
  bg_opening_shared_url :: "string option"
  bg_pending_local_share_url :: "string option"
  bg_pending_local_share_expires_at :: "rat option"
  bg_pending_local_share_timer :: "rat option"
  bg_pending_local_share_generation :: "nat option"
  bg_pending_local_share_is_auto_share :: bool
  bg_pending_share_toast :: "pending_share_toast option"
  bg_pending_member_deltas :: "member_delta list"
  bg_waiting_for_bootstrap :: bool
  bg_bootstrap_generation :: nat
  bg_bootstrap_timer :: "(nat \<times> rat) option"
  bg_clock :: clock_state
  bg_anchor :: playback_anchor
  bg_next :: nat
  bg_tasks :: "background_task list"
  bg_sent :: "(nat \<times> client_message) list"
  bg_pushed :: "page_message list"

text \<open>
  What lies outside: the URL parser of the platform and the protocol it finds, whether a server address has a connection check and a health address, how a
  number prints, the extension's origin, the server address built in.
\<close>

record background_env =
  be_parse_url :: url_parser
  be_protocol :: "string \<Rightarrow> string option"
  be_has_check :: "string \<Rightarrow> bool"
  be_has_health :: "string \<Rightarrow> bool"
  be_number_string :: "rat \<Rightarrow> string"
  be_extension_origin :: "string option"
  be_default_server_url :: string

definition be_norm_url :: "background_env \<Rightarrow> string \<Rightarrow> string option" where
  "be_norm_url E url = normalize_bilibili_url (be_parse_url E) (Some url)"

definition create_background_runtime_state :: "string \<Rightarrow> background" where
  "create_background_runtime_state default_server_url =
     \<lparr> bg_socket = None, bg_sockets = (\<lambda>_. None), bg_server_url = default_server_url, bg_connected = False,
       bg_last_error = None, bg_connect_probe = None, bg_socket_generation = 0, bg_connect_epoch = 0,
       bg_reconnect_timer = None, bg_reconnect_attempt = 0, bg_reconnect_deadline = None, bg_server_restarting = False,
       bg_room_code = None, bg_join_token = None, bg_member_token = None, bg_member_id = None, bg_display_name = None,
       bg_room_state = None, bg_pending_create_room = False, bg_pending_join_room_code = None,
       bg_pending_join_token = None, bg_pending_join_request_sent = False, bg_awaiting_fresh_room_state = False,
       bg_pending_shared_video = None, bg_pending_shared_playback = None, bg_shared_tab_id = None,
       bg_last_opened_shared_url = None, bg_opening_shared_url = None, bg_pending_local_share_url = None,
       bg_pending_local_share_expires_at = None, bg_pending_local_share_timer = None,
       bg_pending_local_share_generation = None, bg_pending_local_share_is_auto_share = False,
       bg_pending_share_toast = None, bg_pending_member_deltas = [], bg_waiting_for_bootstrap = False,
       bg_bootstrap_generation = 0, bg_bootstrap_timer = None, bg_clock = empty_clock, bg_anchor = None,
       bg_next = 0, bg_tasks = [], bg_sent = [], bg_pushed = [] \<rparr>"

definition share_toast_ttl_ms :: rat where "share_toast_ttl_ms = 8000"
definition pending_local_share_timeout_ms :: rat where "pending_local_share_timeout_ms = 10000"
definition default_bootstrap_room_state_timeout_ms :: rat where "default_bootstrap_room_state_timeout_ms = 5000"

definition later :: "background_task \<Rightarrow> background \<Rightarrow> background" where
  "later task b = b\<lparr> bg_tasks := bg_tasks b @ [task] \<rparr>"

definition known_room_state :: "background \<Rightarrow> room_state option" where
  "known_room_state b = map_option snd (bg_room_state b)"

definition shared_video_of :: "background \<Rightarrow> shared_video option" where
  "shared_video_of b = Option.bind (known_room_state b) rs_shared_video"

definition to_upper :: "char \<Rightarrow> char" where
  "to_upper c = (if is_lower c then char_of (of_char c - 32 :: nat) else c)"

subsection \<open>Decisions about room states and shares\<close>

text \<open>\<open>room-state.ts\<close>\<close>

definition get_active_pending_local_share_url :: "rat \<Rightarrow> background \<Rightarrow> string option" where
  "get_active_pending_local_share_url now b =
     (case (bg_pending_local_share_url b, bg_pending_local_share_expires_at b) of
        (Some url, Some expires_at) \<Rightarrow> if url = [] then None else if now < expires_at then Some url else None
      | _ \<Rightarrow> None)"

definition had_pending_local_share :: "background \<Rightarrow> bool" where
  "had_pending_local_share b =
     (truthy (bg_pending_local_share_url b) \<or> bg_pending_local_share_expires_at b \<noteq> None)"

definition reset_room_lifecycle_transient_state :: "background \<Rightarrow> background" where
  "reset_room_lifecycle_transient_state b =
     (let b1 = (if had_pending_local_share b
                then b\<lparr> bg_pending_local_share_timer := None, bg_pending_local_share_url := None,
                       bg_pending_local_share_expires_at := None \<rparr> else b)
      in b1\<lparr> bg_pending_share_toast := None, bg_pending_shared_video := None, bg_pending_shared_playback := None \<rparr>)"

datatype incoming_decision = Ignore_Stale | Apply_State "string option" bool

definition decide_incoming_room_state ::
    "room_state option \<Rightarrow> string option \<Rightarrow> string option \<Rightarrow> incoming_decision" where
  "decide_incoming_room_state current pending_url incoming_url =
     (if truthy pending_url \<and> incoming_url \<noteq> pending_url then Ignore_Stale
      else Apply_State (map_option sv_url (Option.bind current rs_shared_video))
             (pending_url \<noteq> None \<and> incoming_url = pending_url))"

definition is_shared_video_change :: "string option \<Rightarrow> room_state \<Rightarrow> bool" where
  "is_shared_video_change previous_url state = (previous_url \<noteq> map_option sv_url (rs_shared_video state))"

definition should_clear_pending_local_share_on_server_url_change :: "string \<Rightarrow> background \<Rightarrow> bool" where
  "should_clear_pending_local_share_on_server_url_change next_url b =
     (bg_pending_local_share_url b \<noteq> None \<and> bg_server_url b \<noteq> next_url)"

text \<open>\<open>room-manager.ts\<close>\<close>

definition create_pending_share_toast ::
    "(string \<Rightarrow> string option) \<Rightarrow> rat \<Rightarrow> room_state \<Rightarrow> pending_share_toast option" where
  "create_pending_share_toast norm_url now state =
     (case rs_shared_video state of
        None \<Rightarrow> None
      | Some video \<Rightarrow>
          Some \<lparr> pt_toast = \<lparr> to_key = (rs_room_code state,
                                     (case norm_url (sv_url video) of None \<Rightarrow> sv_url video | Some url \<Rightarrow> url), now),
                           to_actor_id = map_option pb_actor_id (rs_playback state), to_title = sv_title video,
                           to_video_url = sv_url video \<rparr>,
                 pt_room_code = rs_room_code state, pt_expires_at = now + share_toast_ttl_ms \<rparr>)"

definition get_pending_share_toast_for ::
    "(string \<Rightarrow> string option) \<Rightarrow> rat \<Rightarrow> room_state \<Rightarrow> pending_share_toast option
      \<Rightarrow> pending_share_toast option \<times> share_toast option" where
  "get_pending_share_toast_for norm_url now state pending =
     (case pending of
        None \<Rightarrow> (None, None)
      | Some toast \<Rightarrow>
          if pt_expires_at toast \<le> now \<or> pt_room_code toast \<noteq> rs_room_code state then (None, None)
          else if norm_url (to_video_url (pt_toast toast))
                  \<noteq> Option.bind (rs_shared_video state) (\<lambda>video. norm_url (sv_url video))
          then (Some toast, None)
          else (Some toast, Some (pt_toast toast)))"

subsection \<open>Decisions about connections\<close>

text \<open>\<open>socket-manager.ts\<close>\<close>

definition should_reconnect :: "background \<Rightarrow> bool" where
  "should_reconnect b =
     (if bg_connected b \<or> bg_reconnect_timer b \<noteq> None then False
      else truthy (bg_room_code b) \<or> bg_pending_create_room b)"

definition get_reconnect_delay_ms :: "nat \<Rightarrow> rat" where
  "get_reconnect_delay_ms attempt = min (1000 * 2 ^ (attempt - 1)) 30000"

definition socket_ready :: "nat \<Rightarrow> background \<Rightarrow> ready_state option" where
  "socket_ready g b = map_option sk_ready (bg_sockets b g)"

definition is_socket_writable :: "background \<Rightarrow> bool" where
  "is_socket_writable b =
     (case bg_socket b of None \<Rightarrow> False | Some g \<Rightarrow> socket_ready g b = Some Socket_Open)"

text \<open>\<open>connection-error.ts\<close>\<close>

definition get_connection_error_message :: "bool \<Rightarrow> string option \<Rightarrow> string option \<Rightarrow> bool \<Rightarrow> shown_error" where
  "get_connection_error_message reachable extension_origin reason restarting =
     (if \<not> reachable then (if restarting then Server_Restarting else Server_Unreachable)
      else if truthy reason \<and> reason \<noteq> Some ''origin_not_allowed'' \<and> reason \<noteq> Some ''origin_missing''
      then Handshake_Rejected
      else case map_option js_trim extension_origin of
             Some trimmed \<Rightarrow> if trimmed \<noteq> [] then Origin_Rejected trimmed else Allowed_Origins_Rejected
           | None \<Rightarrow> Allowed_Origins_Rejected)"

definition get_socket_error_message :: "bool \<Rightarrow> bool \<Rightarrow> bool \<Rightarrow> shown_error" where
  "get_socket_error_message saw_open reachable restarting =
     (if restarting then Server_Restarting
      else if saw_open then Lost_Reconnecting
      else if \<not> reachable then Server_Unreachable
      else Websocket_Failed)"

text \<open>\<open>server-url.ts\<close>\<close>

definition validate_server_url :: "background_env \<Rightarrow> string \<Rightarrow> string option" where
  "validate_server_url E url =
     (let normalized = (if js_trim url \<noteq> [] then js_trim url else be_default_server_url E)
      in if be_protocol E normalized = Some ''ws:'' \<or> be_protocol E normalized = Some ''wss:'' then Some normalized
         else None)"

text \<open>\<open>tab-coordinator.ts\<close>: which tab speaks for the member.\<close>

definition remember_shared_source :: "nat option \<Rightarrow> string \<Rightarrow> background \<Rightarrow> background" where
  "remember_shared_source tab_id url b =
     b\<lparr> bg_shared_tab_id := (case tab_id of None \<Rightarrow> bg_shared_tab_id b | Some i \<Rightarrow> Some i),
        bg_last_opened_shared_url := Some url \<rparr>"

definition decide_shared_playback_tab ::
    "nat option \<Rightarrow> nat option \<Rightarrow> string option \<Rightarrow> string option \<Rightarrow> bool \<times> nat option" where
  "decide_shared_playback_tab tab_id shared_tab room_url payload_url =
     (let same_url = (truthy room_url \<and> truthy payload_url \<and> room_url = payload_url)
      in case tab_id of
           None \<Rightarrow> (False, shared_tab)
         | Some i \<Rightarrow>
             (case shared_tab of
                None \<Rightarrow> if same_url then (True, Some i) else (False, None)
              | Some s \<Rightarrow> if s = i then (same_url, Some s) else (False, Some s)))"

definition is_active_shared_tab :: "background_env \<Rightarrow> nat option \<Rightarrow> string \<Rightarrow> background \<Rightarrow> bool \<times> background" where
  "is_active_shared_tab E tab_id url b =
     (let (accepted, tab) = decide_shared_playback_tab tab_id (bg_shared_tab_id b)
            (Option.bind (shared_video_of b) (\<lambda>video. be_norm_url E (sv_url video))) (be_norm_url E url)
      in (accepted, b\<lparr> bg_shared_tab_id := tab \<rparr>))"

definition is_remembered_shared_source_tab :: "nat option \<Rightarrow> background \<Rightarrow> bool" where
  "is_remembered_shared_source_tab tab_id b = (tab_id \<noteq> None \<and> bg_shared_tab_id b = tab_id)"

definition can_reclaim_shared_source_tab :: "nat option \<Rightarrow> background \<Rightarrow> bool" where
  "can_reclaim_shared_source_tab tab_id b = (tab_id \<noteq> None \<and> bg_shared_tab_id b = None)"

definition reclaim_shared_source_tab_if_unclaimed :: "nat option \<Rightarrow> background \<Rightarrow> bool \<times> background" where
  "reclaim_shared_source_tab_if_unclaimed tab_id b =
     (if tab_id = None \<or> bg_shared_tab_id b \<noteq> None then (False, b)
      else (True, b\<lparr> bg_shared_tab_id := tab_id \<rparr>))"

subsection \<open>Bounds\<close>

lemma reconnect_delay_bounds: "1000 \<le> get_reconnect_delay_ms n \<and> get_reconnect_delay_ms n \<le> 30000"
proof -
  have "(1::rat) \<le> 2 ^ (n - 1)" by simp
  then show ?thesis by (simp add: get_reconnect_delay_ms_def)
qed

lemma truthy_pending:
  "get_active_pending_local_share_url now b = Some url \<Longrightarrow> url \<noteq> [] \<and> bg_pending_local_share_url b = Some url"
  by (auto simp: get_active_pending_local_share_url_def split: option.splits if_splits)

end
