(* ===== verification/Background_Link.thy ===== *)
theory Background_Link
  imports Background_State
begin

text \<open>
  The connection of the background worker: connecting with its probe and its timers
  (\<open>socket-controller.ts\<close>), taking the socket down (\<open>socket-lifecycle.ts\<close>), sending
  (\<open>outgoing-message-controller.ts\<close>), and the marker of a share that waits for its confirmation
  (\<open>share-controller.ts\<close>). A function does what the source does up to its next \<open>await\<close> and leaves
  the rest as a task. Logs and the clock's own timer are left out.
\<close>

subsection \<open>Telling pages and popup\<close>

definition notify_content_scripts :: "page_message \<Rightarrow> background \<Rightarrow> background" where
  "notify_content_scripts m b = b\<lparr> bg_pushed := bg_pushed b @ [m] \<rparr>"

definition notify_all :: "background \<Rightarrow> background" where
  "notify_all b = notify_content_scripts
     (Sync_Status (bg_room_code b) (bg_connected b) (bg_member_id b) (ck_rtt_ms (bg_clock b))) b"

subsection \<open>The marker of a share that waits for its confirmation\<close>

definition clear_pending_local_share :: "background \<Rightarrow> background" where
  "clear_pending_local_share b =
     (let b1 = b\<lparr> bg_pending_local_share_generation := None, bg_pending_local_share_is_auto_share := False \<rparr>
      in if had_pending_local_share b1
         then b1\<lparr> bg_pending_local_share_timer := None, bg_pending_local_share_url := None,
                  bg_pending_local_share_expires_at := None \<rparr>
         else b1)"

definition expire_pending_local_share_if_needed :: "rat \<Rightarrow> background \<Rightarrow> background" where
  "expire_pending_local_share_if_needed now b =
     (if truthy (bg_pending_local_share_url b) \<and> get_active_pending_local_share_url now b = None
      then clear_pending_local_share b else b)"

definition set_pending_local_share :: "rat \<Rightarrow> string \<Rightarrow> bool \<Rightarrow> background \<Rightarrow> background" where
  "set_pending_local_share now url is_auto_share b =
     b\<lparr> bg_pending_local_share_generation := Some (bg_socket_generation b),
        bg_pending_local_share_is_auto_share := is_auto_share, bg_pending_local_share_url := Some url,
        bg_pending_local_share_expires_at := Some (now + pending_local_share_timeout_ms),
        bg_pending_local_share_timer := Some (now + pending_local_share_timeout_ms) \<rparr>"

definition pending_local_share_timer_fires :: "rat \<Rightarrow> background \<Rightarrow> background" where
  "pending_local_share_timer_fires now b =
     (case bg_pending_local_share_timer b of
        None \<Rightarrow> b
      | Some due \<Rightarrow> if now < due then b else notify_all (expire_pending_local_share_if_needed now b))"

definition has_active_pending_manual_share :: "rat \<Rightarrow> background \<Rightarrow> bool" where
  "has_active_pending_manual_share now b =
     (get_active_pending_local_share_url now b \<noteq> None \<and> \<not> bg_pending_local_share_is_auto_share b)"

subsection \<open>Connecting\<close>

definition clear_reconnect_timer :: "background \<Rightarrow> background" where
  "clear_reconnect_timer b = b\<lparr> bg_reconnect_timer := None, bg_reconnect_deadline := None \<rparr>"

definition reset_reconnect_state :: "background \<Rightarrow> background" where
  "reset_reconnect_state b =
     (clear_reconnect_timer b)\<lparr> bg_reconnect_attempt := 0, bg_server_restarting := False \<rparr>"

definition schedule_reconnect :: "rat \<Rightarrow> background \<Rightarrow> background" where
  "schedule_reconnect now b =
     (if \<not> should_reconnect b then b
      else
        let attempt = bg_reconnect_attempt b + 1; due = now + get_reconnect_delay_ms attempt
        in b\<lparr> bg_reconnect_attempt := attempt, bg_reconnect_deadline := Some due, bg_reconnect_timer := Some due \<rparr>)"

definition get_retry_in_ms :: "rat \<Rightarrow> background \<Rightarrow> rat option" where
  "get_retry_in_ms now b = map_option (\<lambda>deadline. max 0 (deadline - now)) (bg_reconnect_deadline b)"

definition open_socket :: "string \<Rightarrow> bool \<Rightarrow> background \<Rightarrow> background" where
  "open_socket url reachable b =
     (let g = bg_socket_generation b + 1
      in b\<lparr> bg_socket_generation := g,
            bg_sockets := (bg_sockets b)(g := Some \<lparr> sk_url = url, sk_ready = Socket_Connecting, sk_saw_open = False,
              sk_reachable = reachable, sk_closed = False \<rparr>),
            bg_connected := False, bg_socket := Some g \<rparr>)"

definition refuse_server_url :: "background \<Rightarrow> background" where
  "refuse_server_url b = notify_all (b\<lparr> bg_last_error := Some Invalid_Server_Url, bg_connected := False \<rparr>)"

text \<open>Up to the first answer the probe waits for; without an address to ask, the socket opens at once.\<close>

definition open_socket_with_probe :: "background_env \<Rightarrow> string \<Rightarrow> background \<Rightarrow> background \<times> nat option" where
  "open_socket_with_probe E target_url b =
     (case validate_server_url E target_url of
        None \<Rightarrow> (refuse_server_url b, None)
      | Some url \<Rightarrow>
          if be_has_check E url \<or> be_has_health E url
          then
            let probe = bg_next b; stage = (if be_has_check E url then Checking else Checking_Health)
            in (later (Probe_Task probe (bg_connect_epoch b) url stage False)
                  (b\<lparr> bg_next := probe + 1, bg_connect_probe := Some probe \<rparr>), Some probe)
          else (open_socket url False b, None))"

text \<open>With the probe the caller waits for, if it has to wait.\<close>

definition connect_to_server :: "background_env \<Rightarrow> background \<Rightarrow> background \<times> nat option" where
  "connect_to_server E b =
     (if (case bg_socket b of None \<Rightarrow> False
          | Some g \<Rightarrow> socket_ready g b = Some Socket_Open \<or> socket_ready g b = Some Socket_Connecting)
      then (b, None)
      else case bg_connect_probe b of
             Some probe \<Rightarrow> (b, Some probe)
           | None \<Rightarrow>
               (case validate_server_url E (bg_server_url b) of
                  None \<Rightarrow> (refuse_server_url b, None)
                | Some url \<Rightarrow> open_socket_with_probe E url (clear_reconnect_timer b)))"

definition settle_probe :: "nat \<Rightarrow> background \<Rightarrow> background" where
  "settle_probe probe b = (if bg_connect_probe b = Some probe then b\<lparr> bg_connect_probe := None \<rparr> else b)"

definition probe_fails :: "nat \<Rightarrow> shown_error \<Rightarrow> rat \<Rightarrow> background \<Rightarrow> background" where
  "probe_fails probe reason now b =
     settle_probe probe (notify_all (schedule_reconnect now (b\<lparr> bg_last_error := Some reason, bg_connected := False \<rparr>)))"

definition probe_opens :: "nat \<Rightarrow> nat \<Rightarrow> string \<Rightarrow> bool \<Rightarrow> background \<Rightarrow> background" where
  "probe_opens probe epoch url reachable b =
     settle_probe probe (if bg_connect_epoch b \<noteq> epoch then b else open_socket url reachable b)"

definition probe_goes_on :: "background_env \<Rightarrow> nat \<Rightarrow> nat \<Rightarrow> string \<Rightarrow> bool \<Rightarrow> background \<Rightarrow> background" where
  "probe_goes_on E probe epoch url reachable b =
     (if be_has_health E url then later (Probe_Task probe epoch url Checking_Health reachable) b
      else probe_opens probe epoch url reachable b)"

datatype probe_answer =
    Check_Allows | Check_Rejects "string option" | Check_Server_Error | Check_Inconclusive
  | Health_Reached | Health_Unreached

fun probe_answered ::
    "background_env \<Rightarrow> probe_answer \<Rightarrow> nat \<Rightarrow> nat \<Rightarrow> string \<Rightarrow> bool \<Rightarrow> rat \<Rightarrow> background \<Rightarrow> background" where
  "probe_answered E Check_Allows probe epoch url reachable now b =
     (if bg_connect_epoch b \<noteq> epoch then settle_probe probe b else probe_goes_on E probe epoch url True b)"
| "probe_answered E (Check_Rejects reason) probe epoch url reachable now b =
     (if bg_connect_epoch b \<noteq> epoch then settle_probe probe b
      else probe_fails probe (get_connection_error_message True (be_extension_origin E) reason False) now b)"
| "probe_answered E Check_Server_Error probe epoch url reachable now b =
     (if bg_connect_epoch b \<noteq> epoch then settle_probe probe b
      else probe_fails probe (get_connection_error_message False (be_extension_origin E) None (bg_server_restarting b)) now b)"
| "probe_answered E Check_Inconclusive probe epoch url reachable now b = probe_goes_on E probe epoch url reachable b"
| "probe_answered E Health_Reached probe epoch url reachable now b = probe_opens probe epoch url True b"
| "probe_answered E Health_Unreached probe epoch url reachable now b =
     (if bg_connect_epoch b \<noteq> epoch then settle_probe probe b
      else probe_fails probe (get_connection_error_message False (be_extension_origin E) None (bg_server_restarting b)) now b)"

definition answers_stage :: "probe_answer \<Rightarrow> probe_stage \<Rightarrow> bool" where
  "answers_stage answer stage = ((stage = Checking_Health) = (answer = Health_Reached \<or> answer = Health_Unreached))"

definition reconnect_timer_fires :: "background_env \<Rightarrow> rat \<Rightarrow> background \<Rightarrow> background" where
  "reconnect_timer_fires E now b =
     (case bg_reconnect_timer b of
        None \<Rightarrow> b
      | Some due \<Rightarrow> if now < due then b else fst (connect_to_server E (clear_reconnect_timer b)))"

definition send_to_server :: "background_env \<Rightarrow> client_message \<Rightarrow> background \<Rightarrow> background" where
  "send_to_server E m b =
     (case bg_socket b of
        None \<Rightarrow> fst (connect_to_server E b)
      | Some g \<Rightarrow>
          if socket_ready g b = Some Socket_Open then b\<lparr> bg_sent := bg_sent b @ [(g, m)] \<rparr>
          else fst (connect_to_server E b))"

definition close_socket :: "nat \<Rightarrow> background \<Rightarrow> background" where
  "close_socket g b =
     (case bg_sockets b g of
        None \<Rightarrow> b
      | Some info \<Rightarrow>
          if sk_ready info = Socket_Closing \<or> sk_ready info = Socket_Closed then b
          else b\<lparr> bg_sockets := (bg_sockets b)(g := Some (info\<lparr> sk_ready := Socket_Closing \<rparr>)) \<rparr>)"

definition disconnect_socket :: "background \<Rightarrow> background" where
  "disconnect_socket b =
     (let b1 = (clear_pending_local_share (reset_reconnect_state b))\<lparr> bg_member_token := None \<rparr>;
          b2 = b1\<lparr> bg_connect_epoch := bg_connect_epoch b1 + 1, bg_connect_probe := None \<rparr>
      in case bg_socket b2 of
           None \<Rightarrow> b2\<lparr> bg_connected := False \<rparr>
         | Some g \<Rightarrow> close_socket g (b2\<lparr> bg_socket := None, bg_connected := False \<rparr>))"

end
