(* ===== verification/Background_Room.thy ===== *)
theory Background_Room
  imports Background_Link
begin

text \<open>
  The room session of the background worker: \<open>room-session-controller.ts\<close> with the flush of a
  queued share (\<open>room-manager.ts\<close>) and the tab that is opened for the shared video
  (\<open>tab-controller.ts\<close>). The waiting of the popup for the answer to a join is left out.
\<close>

subsection \<open>Member deltas\<close>

fun first_index :: "('a \<Rightarrow> bool) \<Rightarrow> 'a list \<Rightarrow> nat option" where
  "first_index P [] = None"
| "first_index P (x # xs) = (if P x then Some 0 else map_option Suc (first_index P xs))"

fun apply_member_delta :: "member_delta \<Rightarrow> room_state \<Rightarrow> room_state" where
  "apply_member_delta (Left_Delta code member) state =
     (if rs_room_code state \<noteq> code then state
      else state\<lparr> rs_members := filter (\<lambda>m. rm_id m \<noteq> rm_id member) (rs_members state) \<rparr>)"
| "apply_member_delta (Joined_Delta code member) state =
     (if rs_room_code state \<noteq> code then state
      else case first_index (\<lambda>m. rm_id m = rm_id member) (rs_members state) of
             None \<Rightarrow> state\<lparr> rs_members := rs_members state @ [member] \<rparr>
           | Some i \<Rightarrow> state\<lparr> rs_members := (rs_members state)[i := member] \<rparr>)"

definition consume_pending_member_deltas :: "room_state \<Rightarrow> background \<Rightarrow> room_state \<times> background" where
  "consume_pending_member_deltas state b =
     (let here = (\<lambda>d. delta_room d = rs_room_code state)
      in (fold apply_member_delta (filter here (bg_pending_member_deltas b)) state,
          b\<lparr> bg_pending_member_deltas := filter (\<lambda>d. \<not> here d) (bg_pending_member_deltas b) \<rparr>))"

definition clear_pending_member_deltas :: "background \<Rightarrow> background" where
  "clear_pending_member_deltas b = b\<lparr> bg_pending_member_deltas := [] \<rparr>"

definition is_awaiting_room_bootstrap_for :: "string \<Rightarrow> background \<Rightarrow> bool" where
  "is_awaiting_room_bootstrap_for code b =
     (if bg_waiting_for_bootstrap b \<and> bg_room_code b = Some code then True
      else bg_pending_join_request_sent b \<and> (bg_room_code b = Some code \<or> bg_pending_join_room_code b = Some code))"

subsection \<open>Waiting for the first state of a room\<close>

definition stop_waiting_for_bootstrap_room_state :: "background \<Rightarrow> background" where
  "stop_waiting_for_bootstrap_room_state b =
     b\<lparr> bg_waiting_for_bootstrap := False, bg_awaiting_fresh_room_state := False,
        bg_bootstrap_generation := bg_bootstrap_generation b + 1, bg_bootstrap_timer := None \<rparr>"

definition start_waiting_for_bootstrap_room_state :: "rat \<Rightarrow> background \<Rightarrow> background" where
  "start_waiting_for_bootstrap_room_state now b =
     (let b1 = stop_waiting_for_bootstrap_room_state b; g = bg_bootstrap_generation b1 + 1
      in b1\<lparr> bg_waiting_for_bootstrap := True, bg_awaiting_fresh_room_state := True, bg_bootstrap_generation := g,
             bg_bootstrap_timer := Some (g, now + default_bootstrap_room_state_timeout_ms) \<rparr>)"

text \<open>Storing a room state makes an object of its own.\<close>

definition store_room_state :: "room_state \<Rightarrow> background \<Rightarrow> nat \<times> background" where
  "store_room_state state b =
     (bg_next b, b\<lparr> bg_room_state := Some (bg_next b, state), bg_next := bg_next b + 1,
                    bg_room_code := Some (rs_room_code state), bg_last_error := None \<rparr>)"

definition is_current_room_state :: "nat \<Rightarrow> background \<Rightarrow> bool" where
  "is_current_room_state i b = (map_option fst (bg_room_state b) = Some i)"

definition expire_bootstrap_room_state_wait :: "nat \<Rightarrow> background \<Rightarrow> background" where
  "expire_bootstrap_room_state_wait generation b =
     (if \<not> bg_waiting_for_bootstrap b \<or> generation \<noteq> bg_bootstrap_generation b then b
      else
        let b1 = b\<lparr> bg_waiting_for_bootstrap := False, bg_bootstrap_timer := None \<rparr>
        in if \<not> truthy (bg_room_code b1) then clear_pending_member_deltas b1
           else
             let code = the (bg_room_code b1)
             in if \<not> (\<exists>d \<in> set (bg_pending_member_deltas b1). delta_room d = code) then b1
                else
                  (case known_room_state b1 of
                     Some current \<Rightarrow>
                       if rs_room_code current \<noteq> code
                       then b1\<lparr> bg_pending_member_deltas := filter (\<lambda>d. delta_room d \<noteq> code) (bg_pending_member_deltas b1) \<rparr>
                       else
                         let (resolved, b2) = consume_pending_member_deltas current b1;
                             (i, b3) = store_room_state resolved b2
                         in later (Delta_Task generation i resolved) b3
                   | None \<Rightarrow> b1\<lparr> bg_pending_member_deltas := filter (\<lambda>d. delta_room d \<noteq> code) (bg_pending_member_deltas b1) \<rparr>))"

definition bootstrap_timer_fires :: "rat \<Rightarrow> background \<Rightarrow> background" where
  "bootstrap_timer_fires now b =
     (case bg_bootstrap_timer b of
        None \<Rightarrow> b
      | Some (generation, due) \<Rightarrow> if now < due then b else expire_bootstrap_room_state_wait generation b)"

definition compensated :: "background_env \<Rightarrow> rat \<Rightarrow> room_state \<Rightarrow> rat option \<Rightarrow> background \<Rightarrow> room_state \<times> background" where
  "compensated E now state anchor_at b =
     (let (state', anchor) = compensate_room_state (be_number_string E) now state anchor_at (bg_anchor b)
      in (state', b\<lparr> bg_anchor := anchor \<rparr>))"

text \<open>Handing a stored state to the pages; popup and pages hear of the session afterwards.\<close>

definition push_room_state ::
    "background_env \<Rightarrow> rat \<Rightarrow> nat \<Rightarrow> room_state \<Rightarrow> rat option \<Rightarrow> share_toast option \<Rightarrow> background \<Rightarrow> background" where
  "push_room_state E now i state anchor_at toast b =
     (let (state', b1) = compensated E now state anchor_at b
      in later Notify_Task (notify_content_scripts (Apply_Room_State i state' toast) b1))"

definition deltas_persisted :: "background_env \<Rightarrow> rat \<Rightarrow> nat \<Rightarrow> nat \<Rightarrow> room_state \<Rightarrow> background \<Rightarrow> background" where
  "deltas_persisted E now generation i state b =
     (if generation \<noteq> bg_bootstrap_generation b \<or> \<not> is_current_room_state i b then b
      else push_room_state E now i state None None b)"

subsection \<open>Requests\<close>

definition hello_of :: "background \<Rightarrow> client_hello" where
  "hello_of b = \<lparr> ch_display_name = bg_display_name b, ch_protocol_version = Some (of_nat protocol_version) \<rparr>"

definition send_create_request :: "background_env \<Rightarrow> background \<Rightarrow> background" where
  "send_create_request E b = send_to_server E (Room_Create (Some (hello_of b))) b"

definition send_join_request :: "background_env \<Rightarrow> string \<Rightarrow> string \<Rightarrow> background \<Rightarrow> background" where
  "send_join_request E code token b =
     send_to_server E (Room_Join \<lparr> jp_room_code = code, jp_join_token = token,
         jp_member_token = (if truthy (bg_member_token b) then bg_member_token b else None),
         jp_display_name = bg_display_name b, jp_protocol_version = Some (of_nat protocol_version) \<rparr>)
       (b\<lparr> bg_pending_join_request_sent := True \<rparr>)"

definition sync_profile_after_room_established :: "background_env \<Rightarrow> background \<Rightarrow> background" where
  "sync_profile_after_room_established E b =
     (if \<not> bg_connected b \<or> \<not> truthy (bg_member_token b) \<or> \<not> truthy (bg_display_name b) then b
      else send_to_server E (Profile_Update (the (bg_member_token b)) (the (bg_display_name b))) b)"

definition should_flush_pending_share :: "background \<Rightarrow> bool" where
  "should_flush_pending_share b =
     (bg_pending_shared_video b \<noteq> None \<and> bg_connected b \<and> is_socket_writable b \<and> truthy (bg_room_code b)
      \<and> truthy (bg_member_token b))"

definition flush_pending_share :: "background_env \<Rightarrow> background \<Rightarrow> background" where
  "flush_pending_share E b =
     (if \<not> should_flush_pending_share b then b
      else
        let b1 = (send_to_server E (Video_Share (the (bg_member_token b)) (the (bg_pending_shared_video b))
                    (bg_pending_shared_playback b)) b)
                 \<lparr> bg_pending_shared_video := None, bg_pending_shared_playback := None \<rparr>
        in if bg_pending_local_share_url b1 \<noteq> None
           then b1\<lparr> bg_pending_local_share_generation := Some (bg_socket_generation b1) \<rparr> else b1)"

definition forget_room :: "background \<Rightarrow> background" where
  "forget_room b = b\<lparr> bg_room_code := None, bg_join_token := None, bg_member_token := None, bg_member_id := None,
     bg_room_state := None \<rparr>"

definition clear_current_room_context :: "shown_error option \<Rightarrow> background \<Rightarrow> background" where
  "clear_current_room_context reason b =
     (let b1 = forget_room (stop_waiting_for_bootstrap_room_state (clear_pending_member_deltas b));
          b2 = b1\<lparr> bg_pending_create_room := False, bg_pending_join_room_code := None, bg_pending_join_token := None,
                   bg_pending_join_request_sent := False, bg_last_opened_shared_url := None, bg_last_error := reason \<rparr>
      in later Notify_Task (reset_room_lifecycle_transient_state (reset_reconnect_state b2)))"

definition request_create_room :: "background \<Rightarrow> background" where
  "request_create_room b =
     (let b1 = forget_room (stop_waiting_for_bootstrap_room_state (clear_pending_member_deltas (reset_reconnect_state b)));
          b2 = reset_room_lifecycle_transient_state
                 (b1\<lparr> bg_pending_join_room_code := None, bg_pending_join_token := None \<rparr>)
      in later Create_Task (b2\<lparr> bg_last_opened_shared_url := None \<rparr>))"

definition create_connected :: "background_env \<Rightarrow> background \<Rightarrow> background" where
  "create_connected E b =
     (if bg_connected b then send_create_request E (b\<lparr> bg_pending_create_room := False \<rparr>)
      else b\<lparr> bg_pending_create_room := True \<rparr>)"

definition request_join_room :: "string \<Rightarrow> string \<Rightarrow> background \<Rightarrow> background" where
  "request_join_room code token b =
     (let b1 = (stop_waiting_for_bootstrap_room_state (clear_pending_member_deltas (reset_reconnect_state b)))
                 \<lparr> bg_pending_create_room := False, bg_pending_join_room_code := Some (map to_upper (js_trim code)),
                   bg_pending_join_token := Some (js_trim token), bg_pending_join_request_sent := False \<rparr>;
          b2 = reset_room_lifecycle_transient_state (forget_room b1)
      in later Join_Task (b2\<lparr> bg_last_opened_shared_url := None, bg_last_error := None \<rparr>))"

definition join_connected :: "background_env \<Rightarrow> background \<Rightarrow> background" where
  "join_connected E b =
     (if bg_connected b \<and> truthy (bg_pending_join_room_code b) \<and> truthy (bg_pending_join_token b)
         \<and> \<not> bg_pending_join_request_sent b
      then send_join_request E (the (bg_pending_join_room_code b)) (the (bg_pending_join_token b)) b
      else b)"

definition request_leave_room :: "background_env \<Rightarrow> background \<Rightarrow> background" where
  "request_leave_room E b =
     (let b1 = stop_waiting_for_bootstrap_room_state (clear_pending_member_deltas b);
          b2 = (if bg_connected b1
                then send_to_server E (Room_Leave (if truthy (bg_member_token b1) then bg_member_token b1 else None)) b1
                else b1);
          b3 = (forget_room b2)\<lparr> bg_pending_join_room_code := None, bg_pending_join_token := None,
                 bg_pending_join_request_sent := False \<rparr>;
          b4 = (reset_room_lifecycle_transient_state b3)\<lparr> bg_last_opened_shared_url := None, bg_pending_create_room := False \<rparr>
      in later Notify_Task (disconnect_socket b4))"

subsection \<open>Messages of the server\<close>

definition apply_room_member_state :: "room_state \<Rightarrow> background \<Rightarrow> background" where
  "apply_room_member_state next_state b =
     (let (i, b1) = store_room_state next_state b in later (Member_Task i next_state) b1)"

definition member_state_persisted :: "background_env \<Rightarrow> rat \<Rightarrow> nat \<Rightarrow> room_state \<Rightarrow> background \<Rightarrow> background" where
  "member_state_persisted E now i next_state b =
     (if \<not> is_current_room_state i b then b else push_room_state E now i next_state None None b)"

definition handle_room_member_delta :: "member_delta \<Rightarrow> background \<Rightarrow> background" where
  "handle_room_member_delta delta b =
     (if is_awaiting_room_bootstrap_for (delta_room delta) b
      then b\<lparr> bg_pending_member_deltas := bg_pending_member_deltas b @ [delta] \<rparr>
      else case known_room_state b of
             None \<Rightarrow> b
           | Some current \<Rightarrow>
               if rs_room_code current \<noteq> delta_room delta then b
               else apply_room_member_state (apply_member_delta delta current) b)"

definition norm_of :: "background_env \<Rightarrow> string option \<Rightarrow> string option" where
  "norm_of E url = Option.bind url (be_norm_url E)"

definition shared_video_switched :: "background_env \<Rightarrow> rat \<Rightarrow> bool \<Rightarrow> room_state \<Rightarrow> background \<Rightarrow> background" where
  "shared_video_switched E now confirmed state b =
     b\<lparr> bg_last_opened_shared_url := (if confirmed then bg_last_opened_shared_url b else None),
        bg_pending_share_toast := create_pending_share_toast (be_norm_url E) now state \<rparr>"

definition handle_room_state_message :: "background_env \<Rightarrow> rat \<Rightarrow> room_state \<Rightarrow> rat \<Rightarrow> background \<Rightarrow> background" where
  "handle_room_state_message E now next_state anchor_at b =
     (let b1 = expire_pending_local_share_if_needed now b
      in case decide_incoming_room_state (known_room_state b1) (norm_of E (get_active_pending_local_share_url now b1))
                (norm_of E (map_option sv_url (rs_shared_video next_state))) of
           Ignore_Stale \<Rightarrow> b1
         | Apply_State previous_url confirmed \<Rightarrow>
             let b2 = (if is_shared_video_change previous_url next_state
                       then shared_video_switched E now confirmed next_state b1 else b1);
                 (resolved, b3) = consume_pending_member_deltas next_state b2;
                 b4 = stop_waiting_for_bootstrap_room_state b3;
                 b5 = b4\<lparr> bg_anchor := mark_playback_arrival (be_number_string E) (rs_playback resolved) anchor_at (bg_anchor b4) \<rparr>;
                 (i, b6) = store_room_state resolved b5;
                 b7 = (if confirmed then clear_pending_local_share b6 else b6)
             in later (State_Task i resolved anchor_at next_state) b7)"

text \<open>The state is stored and the tab is open: is it still the room's?\<close>

definition deliver_room_state ::
    "background_env \<Rightarrow> rat \<Rightarrow> nat \<Rightarrow> room_state \<Rightarrow> rat \<Rightarrow> room_state \<Rightarrow> background \<Rightarrow> background" where
  "deliver_room_state E now i resolved anchor_at next_state b =
     (if \<not> is_current_room_state i b then b
      else
        let (pending, toast) = get_pending_share_toast_for (be_norm_url E) now next_state (bg_pending_share_toast b)
        in push_room_state E now i resolved (Some anchor_at) toast (b\<lparr> bg_pending_share_toast := pending \<rparr>))"

subsection \<open>The tab of the shared video\<close>

datatype tab_answer =
    Tab_Shows "string option" | Tab_Done | Tabs_Found "(nat option \<times> string option) list" | Tab_Opened "nat option" | Tab_Failed

definition stop_opening :: "string \<Rightarrow> background \<Rightarrow> background" where
  "stop_opening target b = (if bg_opening_shared_url b = Some target then b\<lparr> bg_opening_shared_url := None \<rparr> else b)"

definition ensure_shared_video_open ::
    "background_env \<Rightarrow> rat \<Rightarrow> nat \<Rightarrow> room_state \<Rightarrow> rat \<Rightarrow> room_state \<Rightarrow> background \<Rightarrow> background" where
  "ensure_shared_video_open E now i resolved anchor_at next_state b =
     (let target = (case shared_video_of b of None \<Rightarrow> [] | Some video \<Rightarrow> sv_url video)
      in if target = [] \<or> bg_last_opened_shared_url b = Some target \<or> bg_opening_shared_url b = Some target
         then deliver_room_state E now i resolved anchor_at next_state b
         else later (Tab_Task (if bg_shared_tab_id b = None then Querying_Tabs else Getting_Tab) target i resolved anchor_at next_state)
                (b\<lparr> bg_opening_shared_url := Some target \<rparr>))"

text \<open>With what the browser answered; an answer the stage does not wait for is a failure of the call.\<close>

definition tab_is_open ::
    "background_env \<Rightarrow> rat \<Rightarrow> string \<Rightarrow> nat \<Rightarrow> room_state \<Rightarrow> rat \<Rightarrow> room_state \<Rightarrow> background \<Rightarrow> background" where
  "tab_is_open E now target i resolved anchor_at next_state b =
     deliver_room_state E now i resolved anchor_at next_state
       (stop_opening target (b\<lparr> bg_last_opened_shared_url := Some target \<rparr>))"

fun tab_answered ::
    "background_env \<Rightarrow> tab_stage \<Rightarrow> tab_answer \<Rightarrow> rat \<Rightarrow> string \<Rightarrow> nat \<Rightarrow> room_state \<Rightarrow> rat \<Rightarrow> room_state \<Rightarrow> background \<Rightarrow> background" where
  "tab_answered E Getting_Tab (Tab_Shows url) now target i resolved anchor_at next_state b =
     (if norm_of E url = be_norm_url E target then tab_is_open E now target i resolved anchor_at next_state b
      else later (Tab_Task Updating_Tab target i resolved anchor_at next_state) b)"
| "tab_answered E Updating_Tab Tab_Done now target i resolved anchor_at next_state b =
     tab_is_open E now target i resolved anchor_at next_state b"
| "tab_answered E Querying_Tabs (Tabs_Found tabs) now target i resolved anchor_at next_state b =
     (case find (\<lambda>(tab, url). norm_of E url = be_norm_url E target) tabs of
        Some (Some tab, url) \<Rightarrow>
          later (Tab_Task Activating_Tab target i resolved anchor_at next_state) (b\<lparr> bg_shared_tab_id := Some tab \<rparr>)
      | _ \<Rightarrow> later (Tab_Task Creating_Tab target i resolved anchor_at next_state) b)"
| "tab_answered E Activating_Tab Tab_Done now target i resolved anchor_at next_state b =
     tab_is_open E now target i resolved anchor_at next_state b"
| "tab_answered E Creating_Tab (Tab_Opened tab) now target i resolved anchor_at next_state b =
     tab_is_open E now target i resolved anchor_at next_state (b\<lparr> bg_shared_tab_id := tab \<rparr>)"
| "tab_answered E Getting_Tab _ now target i resolved anchor_at next_state b =
     later (Tab_Task Querying_Tabs target i resolved anchor_at next_state) (b\<lparr> bg_shared_tab_id := None \<rparr>)"
| "tab_answered E Updating_Tab _ now target i resolved anchor_at next_state b =
     later (Tab_Task Querying_Tabs target i resolved anchor_at next_state) (b\<lparr> bg_shared_tab_id := None \<rparr>)"
| "tab_answered E _ _ now target i resolved anchor_at next_state b = stop_opening target b"

subsection \<open>Errors and the dispatch\<close>

definition room_is_refused :: "string \<Rightarrow> bool" where
  "room_is_refused code =
     (code = ''room_not_found'' \<or> code = ''join_token_invalid'' \<or> code = ''unsupported_protocol_version'')"

definition finish_error :: "string \<Rightarrow> string \<Rightarrow> background \<Rightarrow> background" where
  "finish_error code message b =
     (if truthy (bg_room_code b) \<and> \<not> truthy (bg_pending_join_room_code b) \<and> room_is_refused code
      then clear_current_room_context (bg_last_error b) b
      else if code = ''member_token_invalid'' then later Notify_Task (b\<lparr> bg_member_token := None \<rparr>)
      else notify_all b)"

definition handle_error :: "string \<Rightarrow> string \<Rightarrow> background \<Rightarrow> background" where
  "handle_error code message b =
     (let b1 = b\<lparr> bg_last_error := Some (Reported_Error code message) \<rparr>
      in if truthy (bg_pending_join_room_code b1) \<and> (room_is_refused code \<or> code = ''invalid_message'')
         then later (Error_Task code message)
                (forget_room ((stop_waiting_for_bootstrap_room_state b1)\<lparr> bg_pending_join_request_sent := False,
                   bg_pending_join_room_code := None, bg_pending_join_token := None \<rparr>))
         else finish_error code message b1)"

definition room_created :: "background_env \<Rightarrow> rat \<Rightarrow> created_payload \<Rightarrow> background \<Rightarrow> background" where
  "room_created E now p b =
     (let b1 = start_waiting_for_bootstrap_room_state now (clear_pending_member_deltas b);
          b2 = b1\<lparr> bg_pending_join_room_code := None, bg_pending_join_token := None, bg_room_code := Some (cp_room_code p),
                   bg_join_token := Some (cp_join_token p), bg_member_token := Some (cp_member_token p),
                   bg_member_id := Some (cp_member_id p), bg_last_error := None \<rparr>
      in later Established_Task (sync_profile_after_room_established E b2))"

definition room_joined :: "background_env \<Rightarrow> rat \<Rightarrow> joined_payload \<Rightarrow> background \<Rightarrow> background" where
  "room_joined E now p b =
     (let here = (\<lambda>d. delta_room d = jd_room_code p);
          b1 = start_waiting_for_bootstrap_room_state now
                 (b\<lparr> bg_pending_member_deltas := filter here (bg_pending_member_deltas b) \<rparr>);
          b2 = b1\<lparr> bg_room_code := Some (jd_room_code p),
                   bg_join_token := (case bg_pending_join_token b1 of None \<Rightarrow> bg_join_token b1 | Some t \<Rightarrow> Some t),
                   bg_member_token := Some (jd_member_token p), bg_member_id := Some (jd_member_id p),
                   bg_pending_join_request_sent := False, bg_pending_join_room_code := None, bg_pending_join_token := None,
                   bg_last_error := None \<rparr>
      in later Established_Task (sync_profile_after_room_established E b2))"

definition room_established :: "background_env \<Rightarrow> background \<Rightarrow> background" where
  "room_established E b = notify_all (flush_pending_share E b)"

text \<open>\<open>server-message-controller.ts\<close>; announcements are kept elsewhere and left out.\<close>

fun handle_server_message :: "background_env \<Rightarrow> server_message \<Rightarrow> rat \<Rightarrow> rat \<Rightarrow> background \<Rightarrow> background" where
  "handle_server_message E (Srv_Room_Created p) now wall b = room_created E now p b"
| "handle_server_message E (Srv_Room_Joined p) now wall b = room_joined E now p b"
| "handle_server_message E (Srv_Room_State state age) now wall b =
     handle_room_state_message E now state (resolve_playback_anchor_at_ms now (map_option Finite age)) b"
| "handle_server_message E (Srv_Member_Joined code m) now wall b = handle_room_member_delta (Joined_Delta code m) b"
| "handle_server_message E (Srv_Member_Left code m) now wall b = handle_room_member_delta (Left_Delta code m) b"
| "handle_server_message E (Srv_Error code message) now wall b = handle_error code message b"
| "handle_server_message E (Srv_Sync_Pong sent arrived answered) now wall b =
     notify_all (b\<lparr> bg_clock := update_clock_offset
       \<lparr> pt_client_send = sent, pt_server_receive = arrived, pt_server_send = answered, pt_now = wall \<rparr> (bg_clock b) \<rparr>)"
| "handle_server_message E (Srv_Announcement a) now wall b = b"

end
