(* ===== verification/Background_Worker.thy ===== *)
theory Background_Worker
  imports Background_Room
begin

text \<open>
  Everything that wakes the background worker: the events of its sockets (\<open>socket-controller.ts\<close>),
  shares (\<open>share-controller.ts\<close>), the requests of popup and pages (\<open>message-controller.ts\<close>,
  \<open>server-url-controller.ts\<close>), the watchdog (\<open>reconnect-watchdog.ts\<close>) and closed tabs. A notification that
  follows a share is a task of its own; in the source it also waits for the connection, so here it may come earlier.
\<close>

subsection \<open>Sockets\<close>

text \<open>The browser moves \<open>readyState\<close> forward; \<open>error\<close> and \<open>close\<close> are dispatched on a closed socket.\<close>

definition set_socket :: "nat \<Rightarrow> socket_info \<Rightarrow> background \<Rightarrow> background" where
  "set_socket g info b = b\<lparr> bg_sockets := (bg_sockets b)(g := Some info) \<rparr>"

definition sync_clock :: "background_env \<Rightarrow> rat \<Rightarrow> background \<Rightarrow> background" where
  "sync_clock E wall b = (if bg_connected b then send_to_server E (Sync_Ping wall) b else b)"

definition rejoin_after_open :: "background_env \<Rightarrow> background \<Rightarrow> background" where
  "rejoin_after_open E b =
     (if bg_pending_create_room b
      then send_create_request E (b\<lparr> bg_awaiting_fresh_room_state := True, bg_pending_create_room := False \<rparr>)
      else if truthy (bg_pending_join_room_code b) \<and> truthy (bg_pending_join_token b) \<and> \<not> bg_pending_join_request_sent b
      then send_join_request E (the (bg_pending_join_room_code b)) (the (bg_pending_join_token b))
             (b\<lparr> bg_awaiting_fresh_room_state := True \<rparr>)
      else if truthy (bg_room_code b) \<and> truthy (bg_join_token b)
      then send_join_request E (the (bg_room_code b)) (the (bg_join_token b)) (b\<lparr> bg_awaiting_fresh_room_state := True \<rparr>)
      else b)"

definition socket_opens :: "background_env \<Rightarrow> nat \<Rightarrow> rat \<Rightarrow> background \<Rightarrow> background" where
  "socket_opens E g wall b =
     (case bg_sockets b g of
        None \<Rightarrow> b
      | Some info \<Rightarrow>
          if sk_ready info \<noteq> Socket_Connecting then b
          else
            let b1 = set_socket g (info\<lparr> sk_ready := Socket_Open, sk_saw_open := True \<rparr>) b
            in if bg_socket b1 \<noteq> Some g then b1
               else
                 let b2 = b1\<lparr> bg_connected := True, bg_last_error := None, bg_server_restarting := False,
                              bg_reconnect_attempt := 0, bg_reconnect_deadline := None \<rparr>
                 in notify_all (sync_clock E wall (rejoin_after_open E b2)))"

definition socket_message ::
    "background_env \<Rightarrow> nat \<Rightarrow> js_value option \<Rightarrow> rat \<Rightarrow> rat \<Rightarrow> background \<Rightarrow> background" where
  "socket_message E g parsed now wall b =
     (if socket_ready g b \<noteq> Some Socket_Open \<or> bg_socket b \<noteq> Some g then b
      else case parsed of
             None \<Rightarrow> b
           | Some v \<Rightarrow>
               if \<not> is_server_message (be_parse_url E) v then b
               else (case read_server_message v of None \<Rightarrow> b | Some m \<Rightarrow> handle_server_message E m now wall b))"

definition close_code_going_away :: nat where "close_code_going_away = 1001"

definition server_shutdown_close_reason :: string where
  "server_shutdown_close_reason = ''server_shutting_down''"

definition admin_session_reset_reasons :: "string list" where
  "admin_session_reset_reasons = [''Admin kicked member'', ''Admin disconnected session'', ''Admin closed room'']"

definition admin_session_reset :: "nat \<Rightarrow> string \<Rightarrow> background \<Rightarrow> background" where
  "admin_session_reset g reason b =
     (let live = bg_socket b;
          b1 = b\<lparr> bg_socket := None, bg_connected := False, bg_connect_epoch := bg_connect_epoch b + 1,
                  bg_connect_probe := None \<rparr>;
          b2 = (case live of None \<Rightarrow> b1 | Some s \<Rightarrow> if s \<noteq> g then close_socket s b1 else b1)
      in clear_current_room_context (Some (Removed_By_Admin reason)) b2)"

definition live_socket_closed :: "nat \<Rightarrow> socket_info \<Rightarrow> nat \<Rightarrow> string \<Rightarrow> rat \<Rightarrow> background \<Rightarrow> background" where
  "live_socket_closed g info code reason now b =
     (let b1 = b\<lparr> bg_connected := False \<rparr>;
          b2 = (if code = close_code_going_away \<and> reason = server_shutdown_close_reason
                then b1\<lparr> bg_server_restarting := True,
                         bg_last_error := Some (get_socket_error_message (sk_saw_open info) (sk_reachable info) True) \<rparr>
                else b1);
          b3 = (if bg_pending_shared_video b2 = None then clear_pending_local_share b2 else b2)
      in notify_all (schedule_reconnect now b3))"

definition socket_closes :: "nat \<Rightarrow> nat \<Rightarrow> string \<Rightarrow> rat \<Rightarrow> background \<Rightarrow> background" where
  "socket_closes g code reason now b =
     (case bg_sockets b g of
        None \<Rightarrow> b
      | Some info \<Rightarrow>
          if sk_closed info then b
          else
            let b1 = set_socket g (info\<lparr> sk_ready := Socket_Closed, sk_closed := True \<rparr>) b
            in if reason \<in> set admin_session_reset_reasons then admin_session_reset g reason b1
               else if bg_socket b1 \<noteq> Some g
               then (if bg_pending_shared_video b1 = None \<and> bg_pending_local_share_generation b1 = Some g
                     then clear_pending_local_share b1 else b1)
               else live_socket_closed g info code reason now b1)"

definition socket_errors :: "nat \<Rightarrow> background \<Rightarrow> background" where
  "socket_errors g b =
     (case bg_sockets b g of
        None \<Rightarrow> b
      | Some info \<Rightarrow>
          if sk_closed info then b
          else
            let b1 = set_socket g (info\<lparr> sk_ready := Socket_Closed \<rparr>) b
            in if bg_socket b1 \<noteq> Some g then b1
               else
                 let b2 = b1\<lparr> bg_last_error := Some (get_socket_error_message (sk_saw_open info) (sk_reachable info)
                                  (bg_server_restarting b1)),
                              bg_connected := False \<rparr>
                 in notify_all (if bg_pending_shared_video b2 = None then clear_pending_local_share b2 else b2))"

text \<open>The browser notices that a connection ends, before it says so.\<close>

definition socket_goes_down :: "nat \<Rightarrow> bool \<Rightarrow> background \<Rightarrow> background" where
  "socket_goes_down g all_the_way b =
     (case bg_sockets b g of
        None \<Rightarrow> b
      | Some info \<Rightarrow>
          if sk_ready info = Socket_Closed then b
          else set_socket g (info\<lparr> sk_ready := (if all_the_way then Socket_Closed else Socket_Closing) \<rparr>) b)"

subsection \<open>Shares\<close>

definition stamped :: "background \<Rightarrow> playback_state \<Rightarrow> playback_state" where
  "stamped b p = p\<lparr> pb_server_time := 0,
     pb_actor_id := (case bg_member_id b of None \<Rightarrow> pb_actor_id p | Some i \<Rightarrow> i) \<rparr>"

definition queue_share :: "shared_video \<Rightarrow> playback_state option \<Rightarrow> background \<Rightarrow> background" where
  "queue_share video playback b =
     b\<lparr> bg_pending_shared_video := Some video, bg_pending_shared_playback := map_option (stamped b) playback \<rparr>"

text \<open>With whether the share was refused.\<close>

definition queue_or_send_shared_video ::
    "background_env \<Rightarrow> rat \<Rightarrow> shared_video \<Rightarrow> playback_state option \<Rightarrow> nat option \<Rightarrow> bool \<Rightarrow> background
      \<Rightarrow> bool \<times> background" where
  "queue_or_send_shared_video E now video playback tab is_auto_share b0 =
     (let b = remember_shared_source tab (sv_url video) b0
      in if bg_connected b \<and> is_socket_writable b \<and> truthy (bg_room_code b)
         then
           (if \<not> truthy (bg_member_token b) then (True, b\<lparr> bg_last_error := Some Member_Token_Missing \<rparr>)
            else
              let b1 = send_to_server E (Video_Share (the (bg_member_token b)) video (map_option (stamped b) playback))
                         (set_pending_local_share now (sv_url video) is_auto_share b)
              in (False, if bg_pending_shared_video b1 \<noteq> None then queue_share video playback b1 else b1))
         else
           let b1 = queue_share video playback (set_pending_local_share now (sv_url video) is_auto_share b)
           in if bg_socket b1 \<noteq> None \<and> truthy (bg_room_code b1) \<and> truthy (bg_member_token b1)
              then (False, fst (connect_to_server E b1))
              else if truthy (bg_room_code b1) then (False, fst (connect_to_server E (b1\<lparr> bg_member_token := None \<rparr>)))
              else (False, later Share_Create_Task ((forget_room b1)\<lparr> bg_pending_share_toast := None \<rparr>)))"

definition share_current_video ::
    "background_env \<Rightarrow> rat \<Rightarrow> (shared_video \<times> playback_state option) option \<Rightarrow> nat option \<Rightarrow> background \<Rightarrow> background" where
  "share_current_video E now payload tab b =
     (case payload of
        None \<Rightarrow> notify_all (b\<lparr> bg_last_error := Some Cannot_Read_Video \<rparr>)
      | Some (video, playback) \<Rightarrow>
          let (refused, b1) = queue_or_send_shared_video E now video playback tab False (b\<lparr> bg_last_error := None \<rparr>)
          in if refused then notify_all b1 else later Notify_Task b1)"

text \<open>The next video of a list, shared without being asked.\<close>

datatype auto_share_reply = Auto_Share_Done | Auto_Share_Deferred | Auto_Share_Not_Ready

datatype room_schedule = On_Scheduled | Share_In_Flight | Moved_On

definition urls_equal :: "background_env \<Rightarrow> string \<Rightarrow> string \<Rightarrow> bool" where
  "urls_equal E left right = (be_norm_url E left \<noteq> None \<and> be_norm_url E left = be_norm_url E right)"

definition can_auto_share_next_video_from_sender :: "background \<Rightarrow> bool" where
  "can_auto_share_next_video_from_sender b =
     (bg_room_code b \<noteq> None \<and> bg_member_token b \<noteq> None \<and> bg_member_id b \<noteq> None
      \<and> Option.bind (shared_video_of b) sv_shared_by_member_id = bg_member_id b)"

definition classify_room_schedule :: "background_env \<Rightarrow> rat \<Rightarrow> string \<Rightarrow> background \<Rightarrow> room_schedule" where
  "classify_room_schedule E now previous_url b =
     (if (case shared_video_of b of
            None \<Rightarrow> False
          | Some video \<Rightarrow> urls_equal E (sv_url video) previous_url \<and> bg_member_id b \<noteq> None
              \<and> sv_shared_by_member_id video = bg_member_id b)
      then On_Scheduled
      else case get_active_pending_local_share_url now b of
             None \<Rightarrow> Moved_On
           | Some own \<Rightarrow> if urls_equal E own previous_url then Share_In_Flight else Moved_On)"

definition must_defer_auto_share :: "background \<Rightarrow> bool" where
  "must_defer_auto_share b = (\<not> bg_connected b \<or> \<not> is_socket_writable b \<or> bg_awaiting_fresh_room_state b)"

definition auto_share_requested ::
    "background_env \<Rightarrow> rat \<Rightarrow> string \<Rightarrow> string \<Rightarrow> nat option \<Rightarrow> background \<Rightarrow> auto_share_reply option \<times> background" where
  "auto_share_requested E now previous_url target_url tab b =
     (if \<not> can_auto_share_next_video_from_sender b then (Some Auto_Share_Done, b)
      else if must_defer_auto_share b then (Some Auto_Share_Deferred, b)
      else case classify_room_schedule E now previous_url b of
             Share_In_Flight \<Rightarrow> (Some Auto_Share_Deferred, b)
           | Moved_On \<Rightarrow> (Some Auto_Share_Done, b)
           | On_Scheduled \<Rightarrow>
               let remembered = is_remembered_shared_source_tab tab b
               in if \<not> remembered \<and> \<not> can_reclaim_shared_source_tab tab b then (Some Auto_Share_Done, b)
                  else (None, later (Auto_Share_Task previous_url target_url tab remembered) b))"

definition auto_share_read ::
    "background_env \<Rightarrow> rat \<Rightarrow> string \<Rightarrow> string \<Rightarrow> nat option \<Rightarrow> bool \<Rightarrow> (shared_video \<times> playback_state option) option
      \<Rightarrow> background \<Rightarrow> auto_share_reply \<times> background" where
  "auto_share_read E now previous_url target_url tab remembered payload b =
     (case payload of
        None \<Rightarrow> (Auto_Share_Not_Ready, b)
      | Some (video, playback) \<Rightarrow>
          if \<not> urls_equal E (sv_url video) target_url \<or> playback = None then (Auto_Share_Not_Ready, b)
          else if classify_room_schedule E now previous_url b \<noteq> On_Scheduled then (Auto_Share_Done, b)
          else
            let (claimed, b1) = (if remembered then (True, b) else reclaim_shared_source_tab_if_unclaimed tab b)
            in if \<not> claimed then (Auto_Share_Done, b1)
               else if must_defer_auto_share b1 then (Auto_Share_Deferred, b1)
               else if has_active_pending_manual_share now b1 then (Auto_Share_Done, b1)
               else
                 let (refused, b2) = queue_or_send_shared_video E now video playback tab True b1
                 in if refused then (Auto_Share_Not_Ready, b2) else (Auto_Share_Done, later Notify_Task b2))"

subsection \<open>Requests of popup and pages\<close>

definition playback_reported :: "background_env \<Rightarrow> playback_state \<Rightarrow> nat option \<Rightarrow> background \<Rightarrow> background" where
  "playback_reported E playback tab b =
     (if \<not> bg_connected b \<or> \<not> truthy (bg_member_token b) then b
      else
        let (active, b1) = is_active_shared_tab E tab (pb_url playback) b
        in if active then send_to_server E (Playback_Update (the (bg_member_token b1)) (stamped b1 playback)) b1 else b1)"

definition reconnect_if_offline :: "background_env \<Rightarrow> background \<Rightarrow> background" where
  "reconnect_if_offline E b =
     (if truthy (bg_room_code b) \<and> \<not> bg_connected b then fst (connect_to_server E b) else b)"

definition room_state_wanted :: "background_env \<Rightarrow> rat \<Rightarrow> background \<Rightarrow> room_state option \<times> background" where
  "room_state_wanted E now b =
     (let b1 = reconnect_if_offline E b;
          b2 = (if bg_connected b1 \<and> truthy (bg_room_code b1) \<and> truthy (bg_member_token b1)
                then send_to_server E (Sync_Request (the (bg_member_token b1))) b1 else b1)
      in case known_room_state b2 of
           None \<Rightarrow> (None, b2)
         | Some state \<Rightarrow> let (state', b3) = compensated E now state None b2 in (Some state', b3))"

definition user_reported :: "string \<Rightarrow> background \<Rightarrow> background" where
  "user_reported name b =
     (if bg_display_name b = Some name then b else later Profile_Task (b\<lparr> bg_display_name := Some name \<rparr>))"

definition profile_persisted :: "background_env \<Rightarrow> background \<Rightarrow> background" where
  "profile_persisted E b =
     (if bg_connected b \<and> truthy (bg_room_code b) \<and> truthy (bg_member_token b)
      then send_to_server E (Profile_Update (the (bg_member_token b)) (case bg_display_name b of None \<Rightarrow> [] | Some n \<Rightarrow> n)) b
      else b)"

definition update_server_url :: "background_env \<Rightarrow> string \<Rightarrow> background \<Rightarrow> background" where
  "update_server_url E url b =
     (case validate_server_url E url of
        None \<Rightarrow> notify_all (b\<lparr> bg_last_error := Some Invalid_Server_Url \<rparr>)
      | Some normalized \<Rightarrow>
          if normalized = bg_server_url b then b
          else
            let b1 = (if should_clear_pending_local_share_on_server_url_change normalized b
                      then clear_pending_local_share b else b)
            in later Server_Url_Task (b1\<lparr> bg_server_url := normalized, bg_last_error := None \<rparr>))"

definition server_url_persisted :: "background_env \<Rightarrow> background \<Rightarrow> background" where
  "server_url_persisted E b =
     (let b1 = (case bg_socket b of
                  None \<Rightarrow> b
                | Some g \<Rightarrow> close_socket g ((reset_reconnect_state b)\<lparr> bg_socket := None, bg_connected := False \<rparr>))
      in if truthy (bg_room_code b1) \<or> bg_pending_create_room b1
         then let (b2, probe) = connect_to_server E b1 in later (Server_Url_Connected_Task probe) b2
         else notify_all b1)"

definition watchdog_alarm :: "background_env \<Rightarrow> background \<Rightarrow> background" where
  "watchdog_alarm E b =
     (if bg_room_code b \<noteq> None \<and> \<not> bg_connected b then fst (connect_to_server E b) else b)"

definition tab_removed :: "nat \<Rightarrow> background \<Rightarrow> background" where
  "tab_removed tab b = (if bg_shared_tab_id b = Some tab then b\<lparr> bg_shared_tab_id := None \<rparr> else b)"

end
