(* ===== verification/Background_Events.thy ===== *)
theory Background_Events
  imports Background_Worker
begin

text \<open>
  The background worker as a machine: every event that wakes it, in any order, and its own tasks,
  which run when the storage, the browser or the network has answered.
\<close>

datatype task_input =
    Goes_On
  | Tab_Says tab_answer
  | Probe_Says probe_answer
  | Page_Says "(shared_video \<times> playback_state option) option"

datatype background_event =
    Message_Arrives nat "js_value option"
  | Socket_Opens nat
  | Socket_Goes_Down nat bool
  | Socket_Errors nat
  | Socket_Closes nat nat string
  | Reconnect_Timer
  | Share_Timer
  | Bootstrap_Timer
  | Clock_Timer
  | Watchdog_Alarm
  | Task_Proceeds nat task_input
  | Popup_Creates_Room
  | Popup_Joins_Room string string
  | Popup_Leaves_Room
  | Popup_Looks
  | Server_Url_Chosen string
  | Share_Wanted "(shared_video \<times> playback_state option) option" "nat option"
  | Auto_Share_Wanted string string "nat option"
  | Playback_Reported playback_state "nat option"
  | Room_State_Wanted
  | User_Reported string
  | Tab_Removed nat

text \<open>A task that waits for a connection attempt waits until its probe is settled.\<close>

definition probe_under_way :: "nat \<Rightarrow> background \<Rightarrow> bool" where
  "probe_under_way probe b = (\<exists>task \<in> set (bg_tasks b).
     case task of Probe_Task p epoch url stage reachable \<Rightarrow> p = probe | _ \<Rightarrow> False)"

definition waits_for_probe :: "nat option \<Rightarrow> background \<Rightarrow> bool" where
  "waits_for_probe probe b = (case probe of None \<Rightarrow> False | Some p \<Rightarrow> probe_under_way p b)"

fun background_task_ready :: "background_task \<Rightarrow> task_input \<Rightarrow> background \<Rightarrow> bool" where
  "background_task_ready (Create_Connected_Task probe) x b = (\<not> waits_for_probe probe b)"
| "background_task_ready (Join_Connected_Task probe) x b = (\<not> waits_for_probe probe b)"
| "background_task_ready (Share_Create_Connected_Task probe) x b = (\<not> waits_for_probe probe b)"
| "background_task_ready (Server_Url_Connected_Task probe) x b = (\<not> waits_for_probe probe b)"
| "background_task_ready (Tab_Task stage target i s t n) x b = (case x of Tab_Says answer \<Rightarrow> True | _ \<Rightarrow> False)"
| "background_task_ready (Probe_Task p epoch url stage reachable) x b =
     (case x of Probe_Says answer \<Rightarrow> answers_stage answer stage | _ \<Rightarrow> False)"
| "background_task_ready (Auto_Share_Task p u t r) x b = (case x of Page_Says payload \<Rightarrow> True | _ \<Rightarrow> False)"
| "background_task_ready _ x b = True"

definition connect_and_then :: "background_env \<Rightarrow> (nat option \<Rightarrow> background_task) \<Rightarrow> background \<Rightarrow> background" where
  "connect_and_then E task b = (let (b1, probe) = connect_to_server E b in later (task probe) b1)"

fun run_background_task :: "background_env \<Rightarrow> background_task \<Rightarrow> task_input \<Rightarrow> rat \<Rightarrow> background \<Rightarrow> background" where
  "run_background_task E Established_Task x now b = room_established E b"
| "run_background_task E (State_Task i resolved anchor_at next_state) x now b =
     ensure_shared_video_open E now i resolved anchor_at next_state b"
| "run_background_task E (Tab_Task stage target i resolved anchor_at next_state) x now b =
     (case x of Tab_Says answer \<Rightarrow> tab_answered E stage answer now target i resolved anchor_at next_state b | _ \<Rightarrow> b)"
| "run_background_task E (Member_Task i next_state) x now b = member_state_persisted E now i next_state b"
| "run_background_task E (Delta_Task generation i state) x now b = deltas_persisted E now generation i state b"
| "run_background_task E (Error_Task code message) x now b = finish_error code message b"
| "run_background_task E Notify_Task x now b = notify_all b"
| "run_background_task E Create_Task x now b = connect_and_then E Create_Connected_Task b"
| "run_background_task E (Create_Connected_Task probe) x now b = create_connected E b"
| "run_background_task E Join_Task x now b = connect_and_then E Join_Connected_Task b"
| "run_background_task E (Join_Connected_Task probe) x now b = join_connected E b"
| "run_background_task E Share_Create_Task x now b = connect_and_then E Share_Create_Connected_Task b"
| "run_background_task E (Share_Create_Connected_Task probe) x now b = create_connected E b"
| "run_background_task E (Auto_Share_Task previous_url target_url tab remembered) x now b =
     (case x of Page_Says payload \<Rightarrow> snd (auto_share_read E now previous_url target_url tab remembered payload b) | _ \<Rightarrow> b)"
| "run_background_task E Profile_Task x now b = profile_persisted E b"
| "run_background_task E Server_Url_Task x now b = server_url_persisted E b"
| "run_background_task E (Server_Url_Connected_Task probe) x now b = notify_all b"
| "run_background_task E (Probe_Task probe epoch url stage reachable) x now b =
     (case x of Probe_Says answer \<Rightarrow> probe_answered E answer probe epoch url reachable now b | _ \<Rightarrow> b)"

definition background_task_proceeds :: "background_env \<Rightarrow> nat \<Rightarrow> task_input \<Rightarrow> rat \<Rightarrow> background \<Rightarrow> background" where
  "background_task_proceeds E i x now b =
     (if i < length (bg_tasks b) \<and> background_task_ready (bg_tasks b ! i) x b
      then run_background_task E (bg_tasks b ! i) x now
             (b\<lparr> bg_tasks := take i (bg_tasks b) @ drop (i + 1) (bg_tasks b) \<rparr>)
      else b)"

fun background_step :: "background_env \<Rightarrow> background_event \<Rightarrow> rat \<Rightarrow> rat \<Rightarrow> background \<Rightarrow> background" where
  "background_step E (Message_Arrives g parsed) now wall b = socket_message E g parsed now wall b"
| "background_step E (Socket_Opens g) now wall b = socket_opens E g wall b"
| "background_step E (Socket_Goes_Down g all_the_way) now wall b = socket_goes_down g all_the_way b"
| "background_step E (Socket_Errors g) now wall b = socket_errors g b"
| "background_step E (Socket_Closes g code reason) now wall b = socket_closes g code reason now b"
| "background_step E Reconnect_Timer now wall b = reconnect_timer_fires E now b"
| "background_step E Share_Timer now wall b = pending_local_share_timer_fires now b"
| "background_step E Bootstrap_Timer now wall b = bootstrap_timer_fires now b"
| "background_step E Clock_Timer now wall b = sync_clock E wall b"
| "background_step E Watchdog_Alarm now wall b = watchdog_alarm E b"
| "background_step E (Task_Proceeds i x) now wall b = background_task_proceeds E i x now b"
| "background_step E Popup_Creates_Room now wall b = request_create_room b"
| "background_step E (Popup_Joins_Room code token) now wall b = request_join_room code token b"
| "background_step E Popup_Leaves_Room now wall b = request_leave_room E b"
| "background_step E Popup_Looks now wall b = reconnect_if_offline E b"
| "background_step E (Server_Url_Chosen url) now wall b = update_server_url E url b"
| "background_step E (Share_Wanted payload tab) now wall b = share_current_video E now payload tab b"
| "background_step E (Auto_Share_Wanted previous_url target_url tab) now wall b =
     snd (auto_share_requested E now previous_url target_url tab b)"
| "background_step E (Playback_Reported playback tab) now wall b = playback_reported E playback tab b"
| "background_step E Room_State_Wanted now wall b = snd (room_state_wanted E now b)"
| "background_step E (User_Reported name) now wall b = user_reported name b"
| "background_step E (Tab_Removed tab) now wall b = tab_removed tab b"

definition background_run :: "background_env \<Rightarrow> (background_event \<times> rat \<times> rat) list \<Rightarrow> background \<Rightarrow> background" where
  "background_run E es b = fold (\<lambda>(e, now, wall). background_step E e now wall) es b"

lemma background_run_simps [simp]:
  "background_run E [] b = b"
  "background_run E ((e, now, wall) # es) b = background_run E es (background_step E e now wall b)"
  by (simp_all add: background_run_def)

lemma background_run_append: "background_run E (es @ es') b = background_run E es' (background_run E es b)"
  by (simp add: background_run_def)

text \<open>The start of the worker, from what the storage kept (\<open>bootstrap.ts\<close>).\<close>

record persisted_session =
  ps_room_code :: "string option"
  ps_join_token :: "string option"
  ps_member_token :: "string option"
  ps_member_id :: "string option"
  ps_display_name :: "string option"
  ps_room_state :: "room_state option"
  ps_server_url :: "string option"

text \<open>The address, what to show, whether to connect.\<close>

definition resolve_persisted_server_url :: "background_env \<Rightarrow> string option \<Rightarrow> string \<times> shown_error option \<times> bool" where
  "resolve_persisted_server_url E input =
     (let trimmed = (case input of None \<Rightarrow> [] | Some url \<Rightarrow> js_trim url)
      in if trimmed = [] then (be_default_server_url E, None, True)
         else case validate_server_url E trimmed of
                Some url \<Rightarrow> (url, None, True)
              | None \<Rightarrow> (trimmed, Some Invalid_Server_Url, False))"

definition bootstrap_background :: "background_env \<Rightarrow> persisted_session \<Rightarrow> background" where
  "bootstrap_background E p =
     (let (url, shown, auto_connect) = resolve_persisted_server_url E (ps_server_url p);
          b = (create_background_runtime_state (be_default_server_url E))
                \<lparr> bg_room_code := ps_room_code p, bg_join_token := ps_join_token p, bg_member_token := ps_member_token p,
                  bg_member_id := ps_member_id p, bg_display_name := ps_display_name p,
                  bg_room_state := map_option (Pair 0) (ps_room_state p), bg_next := 1,
                  bg_server_url := url, bg_last_error := shown \<rparr>
      in if truthy (ps_room_code p) \<and> auto_connect then fst (connect_to_server E b) else b)"

text \<open>A worker to run: a server without a health address, and a stored session of a room.\<close>

definition sample_background_env :: background_env where
  "sample_background_env =
     \<lparr> be_parse_url = (\<lambda>_. None), be_protocol = (\<lambda>_. Some ''wss:''), be_has_check = (\<lambda>_. False), be_has_health = (\<lambda>_. False),
       be_number_string = (\<lambda>_. ''0''), be_extension_origin = None, be_default_server_url = ''wss://host'' \<rparr>"

definition sample_session :: persisted_session where
  "sample_session =
     \<lparr> ps_room_code = Some ''ABC123'', ps_join_token = Some ''token'', ps_member_token = Some ''member'', ps_member_id = Some ''m1'',
       ps_display_name = None, ps_room_state = None, ps_server_url = None \<rparr>"

end
