(* ===== verification/Background_Reconnect.thy ===== *)
theory Background_Reconnect
  imports Background_Events
begin

text \<open>
  A worker that is in a room is always on its way to the server: its socket has not been closed, a
  connection attempt is under way, or a retry is due within thirty seconds. The invariant is proved
  operation by operation; most operations do not touch the connection, which \<open>link_kept\<close> says.
\<close>

subsection \<open>The invariant\<close>

definition probing :: "background \<Rightarrow> bool" where
  "probing b = (\<exists>p url stage reachable. Probe_Task p (bg_connect_epoch b) url stage reachable \<in> set (bg_tasks b))"

definition has_live_socket :: "background \<Rightarrow> bool" where
  "has_live_socket b = (\<exists>g info. bg_socket b = Some g \<and> bg_sockets b g = Some info \<and> \<not> sk_closed info)"

definition on_its_way :: "background \<Rightarrow> bool" where
  "on_its_way b = (bg_reconnect_timer b \<noteq> None \<or> probing b \<or> has_live_socket b)"

definition usable_url :: "background_env \<Rightarrow> string \<Rightarrow> bool" where
  "usable_url E url = (validate_server_url E url = Some url)"

definition probe_kept :: "background \<Rightarrow> bool" where
  "probe_kept b = (\<forall>p. bg_connect_probe b = Some p \<longrightarrow>
     (\<exists>url stage reachable. Probe_Task p (bg_connect_epoch b) url stage reachable \<in> set (bg_tasks b)))"

definition sockets_ok :: "background \<Rightarrow> bool" where
  "sockets_ok b = ((\<forall>g info. bg_sockets b g = Some info \<longrightarrow> sk_ready info = Socket_Open \<or> sk_ready info = Socket_Connecting
     \<longrightarrow> \<not> sk_closed info) \<and> (\<forall>g. bg_socket b = Some g \<longrightarrow> bg_sockets b g \<noteq> None))"

definition retry_due_by :: "rat \<Rightarrow> background \<Rightarrow> bool" where
  "retry_due_by T b = (\<forall>due. bg_reconnect_timer b = Some due \<longrightarrow> due \<le> T + 30000)"

definition linked :: "background_env \<Rightarrow> rat \<Rightarrow> background \<Rightarrow> bool" where
  "linked E T b =
     (usable_url E (bg_server_url b) \<and> probe_kept b \<and> sockets_ok b \<and> retry_due_by T b
      \<and> (truthy (bg_room_code b) \<longrightarrow> on_its_way b))"

text \<open>Nothing of the connection changes, and no room is entered without a connection.\<close>

definition is_probe :: "background_task \<Rightarrow> bool" where
  "is_probe task = (\<exists>p epoch url stage reachable. task = Probe_Task p epoch url stage reachable)"

definition link_kept :: "background \<Rightarrow> background \<Rightarrow> bool" where
  "link_kept b b' =
     (bg_socket b' = bg_socket b \<and> bg_sockets b' = bg_sockets b \<and> bg_server_url b' = bg_server_url b
      \<and> bg_connect_probe b' = bg_connect_probe b \<and> bg_connect_epoch b' = bg_connect_epoch b
      \<and> bg_reconnect_timer b' = bg_reconnect_timer b \<and> filter is_probe (bg_tasks b') = filter is_probe (bg_tasks b)
      \<and> (truthy (bg_room_code b') \<longrightarrow> truthy (bg_room_code b) \<or> has_live_socket b))"

lemma is_probe_simps [simp]:
  "is_probe (Probe_Task p epoch url stage reachable)" "\<not> is_probe Established_Task" "\<not> is_probe (State_Task i r t n)"
  "\<not> is_probe (Tab_Task stage' target i r t n)" "\<not> is_probe (Member_Task i r)" "\<not> is_probe (Delta_Task g i r)"
  "\<not> is_probe (Error_Task c m)" "\<not> is_probe Notify_Task" "\<not> is_probe Create_Task" "\<not> is_probe (Create_Connected_Task w)"
  "\<not> is_probe Join_Task" "\<not> is_probe (Join_Connected_Task w)" "\<not> is_probe Share_Create_Task"
  "\<not> is_probe (Share_Create_Connected_Task w)" "\<not> is_probe (Auto_Share_Task a c d e)" "\<not> is_probe Profile_Task"
  "\<not> is_probe Server_Url_Task" "\<not> is_probe (Server_Url_Connected_Task w)"
  by (simp_all add: is_probe_def)

lemma probe_tasks_filter: "Probe_Task p e url st r \<in> set ts \<longleftrightarrow> Probe_Task p e url st r \<in> set (filter is_probe ts)"
  by simp

lemma link_kept_refl [simp]: "link_kept b b"
  by (simp add: link_kept_def)

lemma link_kept_live: "link_kept b b' \<Longrightarrow> has_live_socket b' = has_live_socket b"
  by (simp add: link_kept_def has_live_socket_def)

lemma link_kept_trans: "link_kept b b' \<Longrightarrow> link_kept b' b'' \<Longrightarrow> link_kept b b''"
  using link_kept_live [of b b'] unfolding link_kept_def by metis

lemma linked_kept:
  assumes "linked E T b" and "link_kept b b'"
  shows "linked E T b'"
proof -
  have same: "Probe_Task p e url st r \<in> set (bg_tasks b') \<longleftrightarrow> Probe_Task p e url st r \<in> set (bg_tasks b)" for p e url st r
    using assms(2) probe_tasks_filter [of p e url st r "bg_tasks b"] probe_tasks_filter [of p e url st r "bg_tasks b'"]
    by (simp add: link_kept_def)
  have "on_its_way b' \<longleftrightarrow> on_its_way b"
    using assms(2) link_kept_live [OF assms(2)] by (simp add: on_its_way_def probing_def same link_kept_def)
  moreover have "probe_kept b' \<longleftrightarrow> probe_kept b" using assms(2) by (simp add: probe_kept_def same link_kept_def)
  moreover have "has_live_socket b \<Longrightarrow> on_its_way b" by (simp add: on_its_way_def)
  ultimately show ?thesis
    using assms unfolding linked_def link_kept_def sockets_ok_def retry_due_by_def by auto
qed

subsection \<open>Operations that leave the connection alone\<close>

named_theorems kept_intros

lemma kept_basic [kept_intros]:
  "link_kept b (notify_all b)" "link_kept b (notify_content_scripts m b)"
  "link_kept b (clear_pending_local_share b)" "link_kept b (expire_pending_local_share_if_needed now b)"
  "link_kept b (set_pending_local_share now url auto b)" "link_kept b (clear_pending_member_deltas b)"
  "link_kept b (stop_waiting_for_bootstrap_room_state b)" "link_kept b (start_waiting_for_bootstrap_room_state now b)"
  "link_kept b (reset_room_lifecycle_transient_state b)" "link_kept b (forget_room b)"
  "link_kept b (stop_opening target b)" "link_kept b (remember_shared_source tab url b)"
  "link_kept b (queue_share video playback b)" "link_kept b (tab_removed i b)"
  by (simp_all add: link_kept_def notify_all_def notify_content_scripts_def clear_pending_local_share_def Let_def
      expire_pending_local_share_if_needed_def set_pending_local_share_def clear_pending_member_deltas_def
      stop_waiting_for_bootstrap_room_state_def start_waiting_for_bootstrap_room_state_def
      reset_room_lifecycle_transient_state_def forget_room_def stop_opening_def remember_shared_source_def queue_share_def
      tab_removed_def)

lemma kept_later [kept_intros]: "\<not> is_probe task \<Longrightarrow> link_kept b (later task b)"
  by (simp add: link_kept_def later_def)

lemma kept_timer [kept_intros]: "link_kept b (pending_local_share_timer_fires now b)"
  by (auto simp: pending_local_share_timer_fires_def split: option.split intro: link_kept_trans kept_intros)

lemma kept_push [kept_intros]: "link_kept b (push_room_state E now i s anchor toast b)"
  by (simp add: push_room_state_def compensated_def link_kept_def later_def notify_content_scripts_def split: prod.split)

lemma kept_deliver [kept_intros]: "link_kept b (deliver_room_state E now i s anchor n b)"
proof -
  have "link_kept b (push_room_state E now i s (Some anchor) toast (b\<lparr> bg_pending_share_toast := pending \<rparr>))" for toast pending
    by (rule link_kept_trans [OF _ kept_push]) (simp add: link_kept_def)
  then show ?thesis by (simp add: deliver_room_state_def split: prod.split)
qed

lemma kept_states [kept_intros]:
  "link_kept b (member_state_persisted E now i s b)" "link_kept b (deltas_persisted E now g i s b)"
  by (simp_all add: member_state_persisted_def deltas_persisted_def kept_push)

lemma kept_ensure [kept_intros]: "link_kept b (ensure_shared_video_open E now i s anchor n b)"
  using kept_deliver by (auto simp: ensure_shared_video_open_def Let_def link_kept_def later_def)

lemma kept_tab_open: "link_kept b (tab_is_open E now target i s anchor n b)"
proof -
  have "link_kept b (stop_opening target (b\<lparr> bg_last_opened_shared_url := Some target \<rparr>))"
    by (simp add: link_kept_def stop_opening_def)
  then show ?thesis unfolding tab_is_open_def using kept_deliver link_kept_trans by blast
qed

lemma kept_tab_claimed: "link_kept b (tab_is_open E now target i s anchor n (b\<lparr> bg_shared_tab_id := tab \<rparr>))"
  by (rule link_kept_trans [OF _ kept_tab_open]) (simp add: link_kept_def)

lemma kept_later_tab: "link_kept b (later (Tab_Task stage target i s anchor n) (b\<lparr> bg_shared_tab_id := tab \<rparr>))"
  by (simp add: link_kept_def later_def)

lemma kept_tab [kept_intros]: "link_kept b (tab_answered E stage answer now target i s anchor n b)"
  by (cases "(E, stage, answer, now, target, i, s, anchor, n, b)" rule: tab_answered.cases)
     (auto simp: kept_tab_open kept_tab_claimed kept_later_tab kept_later kept_basic split: option.split)

lemma kept_consume:
  assumes "consume_pending_member_deltas state b = (state', b')"
  shows "link_kept b b'" and "rs_room_code state' = rs_room_code state"
proof -
  have "rs_room_code (apply_member_delta d s) = rs_room_code s" for d s
    by (cases d) (simp_all split: option.split)
  then have "rs_room_code (fold apply_member_delta ds s) = rs_room_code s" for ds s
    by (induction ds arbitrary: s) simp_all
  then show "rs_room_code state' = rs_room_code state" using assms by (auto simp: consume_pending_member_deltas_def Let_def)
  show "link_kept b b'" using assms by (auto simp: consume_pending_member_deltas_def Let_def link_kept_def)
qed

text \<open>A state is only stored for the room one is in, or with a live socket.\<close>

lemma kept_store:
  assumes "store_room_state state b = (i, b')" and "truthy (bg_room_code b) \<or> has_live_socket b"
  shows "link_kept b b'"
  using assms by (auto simp: store_room_state_def link_kept_def)

lemma kept_expire [kept_intros]: "link_kept b (expire_bootstrap_room_state_wait g b)"
proof -
  let ?b1 = "b\<lparr> bg_waiting_for_bootstrap := False, bg_bootstrap_timer := None \<rparr>"
  have b1: "link_kept b ?b1" by (simp add: link_kept_def)
  have "link_kept ?b1 (let (resolved, b2) = consume_pending_member_deltas current ?b1; (i, b3) = store_room_state resolved b2
          in later (Delta_Task g i resolved) b3)" if "truthy (bg_room_code ?b1)" for current
  proof -
    obtain resolved b2 where c: "consume_pending_member_deltas current ?b1 = (resolved, b2)" by fastforce
    obtain i b3 where st: "store_room_state resolved b2 = (i, b3)" by fastforce
    have "truthy (bg_room_code b2)" using c that by (auto simp: consume_pending_member_deltas_def Let_def)
    then have "link_kept ?b1 b3" using kept_consume(1) [OF c] kept_store [OF st] link_kept_trans by blast
    then show ?thesis using c st link_kept_trans [OF _ kept_later] by simp
  qed
  then have "link_kept ?b1 (expire_bootstrap_room_state_wait g b) \<or> expire_bootstrap_room_state_wait g b = b"
    unfolding expire_bootstrap_room_state_wait_def Let_def
    by (auto simp: link_kept_def clear_pending_member_deltas_def split: option.split)
  then show ?thesis using b1 link_kept_trans by auto
qed

lemma kept_bootstrap_timer [kept_intros]: "link_kept b (bootstrap_timer_fires now b)"
  by (auto simp: bootstrap_timer_fires_def kept_expire split: option.split)

lemma kept_shared_switch: "link_kept b (shared_video_switched E now confirmed state b)"
  by (simp add: shared_video_switched_def link_kept_def)

text \<open>What an applied room state does up to its task.\<close>

lemma kept_apply_state:
  assumes "has_live_socket b1"
  shows "link_kept b1 (let b2 = (if switched then shared_video_switched E now confirmed state b1 else b1);
                 (resolved, b3) = consume_pending_member_deltas state b2;
                 b4 = stop_waiting_for_bootstrap_room_state b3;
                 b5 = b4\<lparr> bg_anchor := mark_playback_arrival (be_number_string E) (rs_playback resolved) anchor (bg_anchor b4) \<rparr>;
                 (i, b6) = store_room_state resolved b5;
                 b7 = (if confirmed then clear_pending_local_share b6 else b6)
             in later (State_Task i resolved anchor state) b7)"
proof -
  obtain b2 where b2: "(if switched then shared_video_switched E now confirmed state b1 else b1) = b2" by blast
  obtain resolved b3 where c: "consume_pending_member_deltas state b2 = (resolved, b3)" by fastforce
  obtain b5 where b5: "(stop_waiting_for_bootstrap_room_state b3)\<lparr> bg_anchor := mark_playback_arrival (be_number_string E)
      (rs_playback resolved) anchor (bg_anchor (stop_waiting_for_bootstrap_room_state b3)) \<rparr> = b5" by blast
  obtain i b6 where st: "store_room_state resolved b5 = (i, b6)" by fastforce
  have k12: "link_kept b1 b2" using kept_shared_switch by (simp add: b2 [symmetric])
  have k35: "link_kept b3 b5" by (simp add: b5 [symmetric] link_kept_def stop_waiting_for_bootstrap_room_state_def)
  have k15: "link_kept b1 b5"
    by (rule link_kept_trans [OF link_kept_trans [OF k12 kept_consume(1) [OF c]] k35])
  have live: "has_live_socket b5" using assms link_kept_live [OF k15] by simp
  have k16: "link_kept b1 b6" using link_kept_trans [OF k15 kept_store [OF st]] live by simp
  have k67: "link_kept b6 (if confirmed then clear_pending_local_share b6 else b6)" by (simp add: kept_basic)
  have "link_kept b1 (later (State_Task i resolved anchor state) (if confirmed then clear_pending_local_share b6 else b6))"
    by (rule link_kept_trans [OF link_kept_trans [OF k16 k67] kept_later]) simp
  then show ?thesis unfolding Let_def b2 c prod.case b5 st .
qed

lemma kept_room_state:
  assumes "has_live_socket b"
  shows "link_kept b (handle_room_state_message E now state anchor b)"
proof -
  define b1 where "b1 = expire_pending_local_share_if_needed now b"
  have b1: "link_kept b b1" by (simp add: b1_def kept_basic)
  then have live: "has_live_socket b1" using assms link_kept_live by blast
  have tail: "link_kept b X" if "link_kept b1 X" for X using link_kept_trans [OF b1 that] .
  show ?thesis
    unfolding handle_room_state_message_def b1_def [symmetric] Let_def [of b1]
    by (split incoming_decision.split) (intro conjI impI allI tail kept_apply_state live b1 link_kept_refl)
qed

lemma kept_member_delta:
  assumes "has_live_socket b"
  shows "link_kept b (handle_room_member_delta d b)"
proof -
  have "link_kept b (apply_room_member_state s b)" for s
    using assms link_kept_trans [OF kept_store kept_later]
    by (auto simp: apply_room_member_state_def split: prod.split)
  moreover have "link_kept b (b\<lparr> bg_pending_member_deltas := ds \<rparr>)" for ds by (simp add: link_kept_def)
  ultimately show ?thesis by (simp add: handle_room_member_delta_def split: option.split)
qed

subsection \<open>Addresses\<close>

lemma js_trim_idem: "js_trim (js_trim s) = js_trim s"
proof -
  define t where "t = dropWhile js_space s"
  define u where "u = rev (dropWhile js_space (rev t))"
  have "u \<noteq> [] \<Longrightarrow> \<not> js_space (hd u)"
  proof -
    assume "u \<noteq> []"
    obtain w where "t = u @ w"
      by (metis rev_append rev_rev_ident takeWhile_dropWhile_id u_def)
    then have "hd u = hd t" "t \<noteq> []" using \<open>u \<noteq> []\<close> by auto
    then show ?thesis using hd_dropWhile [of js_space s] by (simp add: t_def)
  qed
  then have "dropWhile js_space u = u" by (cases u) auto
  moreover have "dropWhile js_space (rev u) = rev u" using hd_dropWhile [of js_space "rev t"] by (auto simp: u_def dropWhile_eq_self_iff)
  ultimately show ?thesis by (simp add: js_trim_def t_def [symmetric] u_def [symmetric])
qed

lemma validated_is_usable:
  assumes "validate_server_url E url = Some normalized" and "usable_url E (be_default_server_url E)"
  shows "usable_url E normalized"
proof (cases "js_trim url = []")
  case True then show ?thesis using assms by (auto simp: validate_server_url_def usable_url_def Let_def split: if_splits)
next
  case False then show ?thesis using assms by (auto simp: validate_server_url_def usable_url_def Let_def js_trim_idem split: if_splits)
qed

subsection \<open>Operations on the connection\<close>

text \<open>What holds whatever becomes of the room.\<close>

definition link_base :: "background_env \<Rightarrow> rat \<Rightarrow> background \<Rightarrow> bool" where
  "link_base E T b = (usable_url E (bg_server_url b) \<and> sockets_ok b \<and> retry_due_by T b)"

lemma linked_parts:
  "linked E T b = (link_base E T b \<and> probe_kept b \<and> (truthy (bg_room_code b) \<longrightarrow> on_its_way b))"
  by (auto simp: linked_def link_base_def)

lemma open_socket_links:
  assumes "link_base E T b" and "probe_kept b"
  shows "linked E T (open_socket url r b)"
  using assms by (auto simp: linked_def link_base_def open_socket_def Let_def probe_kept_def sockets_ok_def retry_due_by_def
      on_its_way_def has_live_socket_def)

lemma base_of_cleared [simp]: "link_base E T b \<Longrightarrow> link_base E T (clear_reconnect_timer b)"
  by (auto simp: link_base_def clear_reconnect_timer_def sockets_ok_def retry_due_by_def)

lemma probe_kept_cleared [simp]: "probe_kept (clear_reconnect_timer b) = probe_kept b"
  by (simp add: probe_kept_def clear_reconnect_timer_def)

lemma linked_base: "linked E T b \<Longrightarrow> link_base E T b \<and> probe_kept b"
  by (simp add: linked_parts)

lemma connect_links:
  assumes base: "link_base E T b" and probe: "probe_kept b"
  shows "linked E T (fst (connect_to_server E b))"
proof -
  let ?b1 = "clear_reconnect_timer b"
  have opened: "linked E T (open_socket url r ?b1)" for url r
    using base probe by (simp add: open_socket_links)
  have url: "validate_server_url E (bg_server_url b) = Some (bg_server_url b)"
    using base by (simp add: link_base_def usable_url_def)
  have begun: "linked E T (later (Probe_Task (bg_next ?b1) (bg_connect_epoch ?b1) u st False)
                 (?b1\<lparr> bg_next := bg_next ?b1 + 1, bg_connect_probe := Some (bg_next ?b1) \<rparr>))" for u st
    using base by (auto simp: linked_def link_base_def later_def probe_kept_def sockets_ok_def retry_due_by_def on_its_way_def
        probing_def clear_reconnect_timer_def)
  have asking: "linked E T (fst (open_socket_with_probe E (bg_server_url b) ?b1))"
    using opened begun url by (simp add: open_socket_with_probe_def Let_def)
  show ?thesis
  proof (cases "bg_socket b \<noteq> None \<and> (socket_ready (the (bg_socket b)) b = Some Socket_Open
                 \<or> socket_ready (the (bg_socket b)) b = Some Socket_Connecting)")
    case True
    then obtain g info where "bg_socket b = Some g" "bg_sockets b g = Some info"
        "sk_ready info = Socket_Open \<or> sk_ready info = Socket_Connecting"
      by (auto simp: socket_ready_def)
    then have "has_live_socket b" using base by (auto simp: has_live_socket_def link_base_def sockets_ok_def)
    then have "linked E T b" using base probe by (simp add: linked_parts on_its_way_def)
    then show ?thesis using True by (auto simp: connect_to_server_def)
  next
    case False
    then have closed: "\<not> (case bg_socket b of None \<Rightarrow> False
          | Some g \<Rightarrow> socket_ready g b = Some Socket_Open \<or> socket_ready g b = Some Socket_Connecting)"
      by (auto split: option.split)
    show ?thesis
    proof (cases "bg_connect_probe b")
      case None then show ?thesis using closed asking url by (simp add: connect_to_server_def)
    next
      case (Some p)
      then have "probing b" using probe by (auto simp: probing_def probe_kept_def)
      then have "linked E T b" using base probe by (simp add: linked_parts on_its_way_def)
      then show ?thesis using closed Some by (simp add: connect_to_server_def)
    qed
  qed
qed

lemma send_links:
  assumes "linked E T b"
  shows "linked E T (send_to_server E m b)"
proof -
  have "linked E T (b\<lparr> bg_sent := x \<rparr>)" for x by (rule linked_kept [OF assms]) (simp add: link_kept_def)
  then show ?thesis using connect_links linked_base [OF assms] by (auto simp: send_to_server_def split: option.split)
qed

lemma reconnect_links:
  assumes "linked E T b"
  shows "linked E T (reconnect_timer_fires E now b)"
  using assms connect_links [of E T "clear_reconnect_timer b"] linked_base [OF assms]
  by (auto simp: reconnect_timer_fires_def split: option.split)

text \<open>A retry is scheduled for a room without a connection.\<close>

lemma schedule_links:
  assumes "link_base E T b" and "probe_kept b" and "now \<le> T" and "\<not> bg_connected b"
  shows "linked E T (schedule_reconnect now b)"
proof -
  have "now + get_reconnect_delay_ms n \<le> T + 30000" for n using reconnect_delay_bounds [of n] assms(3) by linarith
  then show ?thesis
    using assms by (auto simp: linked_def link_base_def schedule_reconnect_def should_reconnect_def Let_def retry_due_by_def
        probe_kept_def sockets_ok_def on_its_way_def)
qed

lemma probing_later:
  "probing b \<Longrightarrow> probing (later task b)"
  "probe_kept b \<Longrightarrow> probe_kept (later task b)"
  by (fastforce simp: probing_def probe_kept_def later_def)+

text \<open>While the task of a probe runs, only that probe may be the one without a task.\<close>

definition probe_pending :: "nat \<Rightarrow> background \<Rightarrow> bool" where
  "probe_pending p b = (\<forall>q. bg_connect_probe b = Some q \<longrightarrow> q \<noteq> p \<longrightarrow>
     (\<exists>url stage reachable. Probe_Task q (bg_connect_epoch b) url stage reachable \<in> set (bg_tasks b)))"

lemma settle_links:
  assumes "link_base E T b" and "probe_pending p b" and "truthy (bg_room_code b) \<longrightarrow> on_its_way b"
  shows "linked E T (settle_probe p b)"
  using assms by (auto simp: linked_def link_base_def settle_probe_def probe_pending_def probe_kept_def sockets_ok_def
      retry_due_by_def on_its_way_def probing_def has_live_socket_def)

lemma probe_fails_links:
  assumes base: "link_base E T b" and probe: "probe_pending p b" and now: "now \<le> T"
  shows "linked E T (probe_fails p reason now b)"
proof -
  let ?b1 = "b\<lparr> bg_last_error := Some reason, bg_connected := False \<rparr>"
  have due: "now + get_reconnect_delay_ms n \<le> T + 30000" for n using reconnect_delay_bounds [of n] now by linarith
  have "link_base E T (notify_all (schedule_reconnect now ?b1))"
    using base due by (auto simp: link_base_def schedule_reconnect_def Let_def retry_due_by_def sockets_ok_def
        notify_all_def notify_content_scripts_def)
  moreover have "probe_pending p (notify_all (schedule_reconnect now ?b1))"
    using probe by (simp add: probe_pending_def schedule_reconnect_def Let_def notify_all_def notify_content_scripts_def)
  moreover have "truthy (bg_room_code b) \<longrightarrow> on_its_way (notify_all (schedule_reconnect now ?b1))"
    by (auto simp: on_its_way_def schedule_reconnect_def should_reconnect_def Let_def notify_all_def notify_content_scripts_def)
  moreover have "bg_room_code (notify_all (schedule_reconnect now ?b1)) = bg_room_code b"
    by (simp add: schedule_reconnect_def Let_def notify_all_def notify_content_scripts_def)
  ultimately show ?thesis unfolding probe_fails_def using settle_links by metis
qed

lemma probe_opens_links:
  assumes base: "link_base E T b" and probe: "probe_pending p b"
    and stale: "bg_connect_epoch b \<noteq> epoch \<Longrightarrow> truthy (bg_room_code b) \<longrightarrow> on_its_way b"
  shows "linked E T (probe_opens p epoch url r b)"
proof (cases "bg_connect_epoch b = epoch")
  case True
  have "linked E T (settle_probe p (open_socket url r b))"
    using base probe by (intro settle_links) (auto simp: link_base_def open_socket_def Let_def sockets_ok_def retry_due_by_def
        probe_pending_def on_its_way_def has_live_socket_def)
  then show ?thesis using True by (simp add: probe_opens_def)
next
  case False then show ?thesis using settle_links [OF base probe] stale by (simp add: probe_opens_def)
qed

lemma probe_goes_on_links:
  assumes base: "link_base E T b" and probe: "probe_pending p b"
    and stale: "bg_connect_epoch b \<noteq> epoch \<Longrightarrow> probe_kept b \<and> (truthy (bg_room_code b) \<longrightarrow> on_its_way b)"
  shows "linked E T (probe_goes_on E p epoch url r b)"
proof (cases "be_has_health E url")
  case False then show ?thesis using probe_opens_links [OF base probe] stale by (simp add: probe_goes_on_def)
next
  case True
  let ?b1 = "later (Probe_Task p epoch url Checking_Health r) b"
  have "link_base E T ?b1" using base by (simp add: link_base_def later_def sockets_ok_def retry_due_by_def)
  moreover have "probe_kept ?b1 \<and> (truthy (bg_room_code b) \<longrightarrow> on_its_way ?b1)"
  proof (cases "bg_connect_epoch b = epoch")
    case True
    have mine: "Probe_Task p (bg_connect_epoch ?b1) url Checking_Health r \<in> set (bg_tasks ?b1)" by (simp add: later_def True)
    then have "probing ?b1" unfolding probing_def by blast
    moreover have "probe_kept ?b1"
      unfolding probe_kept_def
    proof (intro allI impI)
      fix q
      assume q: "bg_connect_probe ?b1 = Some q"
      show "\<exists>u st r'. Probe_Task q (bg_connect_epoch ?b1) u st r' \<in> set (bg_tasks ?b1)"
      proof (cases "q = p")
        case True then show ?thesis using mine by blast
      next
        case False
        then obtain u st r' where "Probe_Task q (bg_connect_epoch b) u st r' \<in> set (bg_tasks b)"
          using probe q by (auto simp: probe_pending_def later_def)
        then have "Probe_Task q (bg_connect_epoch ?b1) u st r' \<in> set (bg_tasks ?b1)" by (simp add: later_def)
        then show ?thesis by blast
      qed
    qed
    ultimately show ?thesis by (simp add: on_its_way_def)
  next
    case False
    then have "probe_kept b" "truthy (bg_room_code b) \<longrightarrow> on_its_way b" using stale by auto
    moreover have "bg_reconnect_timer ?b1 = bg_reconnect_timer b" "has_live_socket ?b1 = has_live_socket b"
      by (simp_all add: later_def has_live_socket_def)
    ultimately show ?thesis using probing_later by (auto simp: on_its_way_def)
  qed
  ultimately show ?thesis using True by (simp add: linked_parts probe_goes_on_def) (simp add: later_def)
qed

lemma probe_answered_links:
  assumes base: "link_base E T b" and probe: "probe_pending p b" and now: "now \<le> T"
    and stale: "bg_connect_epoch b \<noteq> epoch \<Longrightarrow> probe_kept b \<and> (truthy (bg_room_code b) \<longrightarrow> on_its_way b)"
  shows "linked E T (probe_answered E answer p epoch url r now b)"
proof -
  have goes_on: "linked E T (probe_goes_on E p epoch url r' b)" for r' by (rule probe_goes_on_links [OF base probe stale])
  have opens: "linked E T (probe_opens p epoch url r' b)" for r' using stale by (intro probe_opens_links [OF base probe]) blast
  have fails: "linked E T (probe_fails p reason now b)" for reason by (rule probe_fails_links [OF base probe now])
  have settled: "bg_connect_epoch b \<noteq> epoch \<Longrightarrow> linked E T (settle_probe p b)"
    using stale by (intro settle_links [OF base probe]) blast
  show ?thesis by (cases answer) (simp_all add: goes_on opens fails settled)
qed

text \<open>What happens to the sockets.\<close>

lemma set_socket_links:
  assumes "linked E T b" and "bg_sockets b g = Some old" and "sk_closed info \<longrightarrow> bg_socket b \<noteq> Some g"
    and "sk_ready info = Socket_Open \<or> sk_ready info = Socket_Connecting \<Longrightarrow> \<not> sk_closed info"
  shows "linked E T (set_socket g info b)"
  using assms by (auto simp: linked_def set_socket_def probe_kept_def sockets_ok_def retry_due_by_def on_its_way_def probing_def
      has_live_socket_def)

lemma close_socket_links:
  assumes "linked E T b"
  shows "linked E T (close_socket g b)"
  using assms by (auto simp: linked_def close_socket_def probe_kept_def sockets_ok_def retry_due_by_def on_its_way_def probing_def
      has_live_socket_def split: option.split)

text \<open>A room that is left takes its retry with it.\<close>

definition link_left :: "background \<Rightarrow> background \<Rightarrow> bool" where
  "link_left b b' =
     (bg_socket b' = bg_socket b \<and> bg_sockets b' = bg_sockets b \<and> bg_server_url b' = bg_server_url b
      \<and> bg_connect_probe b' = bg_connect_probe b \<and> bg_connect_epoch b' = bg_connect_epoch b
      \<and> bg_reconnect_timer b' \<in> {None, bg_reconnect_timer b} \<and> filter is_probe (bg_tasks b') = filter is_probe (bg_tasks b)
      \<and> \<not> truthy (bg_room_code b'))"

lemma left_base:
  assumes "link_base E T b" and "probe_kept b" and "link_left b b'"
  shows "linked E T b'"
proof -
  have same: "Probe_Task p e url st r \<in> set (bg_tasks b') \<longleftrightarrow> Probe_Task p e url st r \<in> set (bg_tasks b)" for p e url st r
    using assms(3) probe_tasks_filter [of p e url st r "bg_tasks b"] probe_tasks_filter [of p e url st r "bg_tasks b'"]
    by (simp add: link_left_def)
  have "probe_kept b' \<longleftrightarrow> probe_kept b" using assms(3) by (simp add: probe_kept_def same link_left_def)
  then show ?thesis
    using assms unfolding linked_def link_base_def link_left_def sockets_ok_def retry_due_by_def by auto
qed

lemma linked_left: "linked E T b \<Longrightarrow> link_left b b' \<Longrightarrow> linked E T b'"
  using linked_base left_base by blast

lemmas room_ops = clear_current_room_context_def request_create_room_def request_join_room_def forget_room_def
  stop_waiting_for_bootstrap_room_state_def clear_pending_member_deltas_def reset_room_lifecycle_transient_state_def
  reset_reconnect_state_def clear_reconnect_timer_def had_pending_local_share_def later_def

lemma left_rooms:
  "link_left b (clear_current_room_context reason b)"
  "link_left b (request_create_room b)"
  "link_left b (request_join_room code token b)"
  by (simp_all add: link_left_def room_ops Let_def)

subsection \<open>The room session\<close>

lemma kept_error:
  "linked E T b \<Longrightarrow> linked E T (finish_error code message b)"
  "linked E T b \<Longrightarrow> linked E T (handle_error code message b)"
proof -
  have finish: "linked E T (finish_error code message b)" if "linked E T b" for b
  proof -
    have "link_kept b (later Notify_Task (b\<lparr> bg_member_token := None \<rparr>))" by (simp add: link_kept_def later_def)
    then show ?thesis using linked_left [OF that left_rooms(1)] linked_kept [OF that] kept_basic(1)
      by (simp add: finish_error_def)
  qed
  then show "linked E T b \<Longrightarrow> linked E T (finish_error code message b)" .
  assume b: "linked E T b"
  let ?b1 = "b\<lparr> bg_last_error := Some (Reported_Error code message) \<rparr>"
  have "linked E T ?b1" by (rule linked_kept [OF b]) (simp add: link_kept_def)
  moreover have "link_left ?b1 (later (Error_Task code message)
                (forget_room ((stop_waiting_for_bootstrap_room_state ?b1)\<lparr> bg_pending_join_request_sent := False,
                   bg_pending_join_room_code := None, bg_pending_join_token := None \<rparr>)))"
    by (simp add: link_left_def room_ops)
  ultimately show "linked E T (handle_error code message b)"
    using finish linked_left unfolding handle_error_def Let_def by simp
qed

lemma profile_links: "linked E T b \<Longrightarrow> linked E T (sync_profile_after_room_established E b)"
  by (simp add: sync_profile_after_room_established_def send_links)

lemma established_links:
  assumes "linked E T b"
  shows "linked E T (room_established E b)"
proof -
  have sent: "linked E T (send_to_server E m b)" for m using assms by (rule send_links)
  have "linked E T ((send_to_server E m b)\<lparr> bg_pending_shared_video := None, bg_pending_shared_playback := None \<rparr>)"
    "linked E T ((send_to_server E m b)\<lparr> bg_pending_shared_video := None, bg_pending_shared_playback := None,
       bg_pending_local_share_generation := g \<rparr>)" for m g
    by (rule linked_kept [OF sent [of m]], simp add: link_kept_def)+
  then have "linked E T (flush_pending_share E b)" using assms by (simp add: flush_pending_share_def Let_def)
  then show ?thesis unfolding room_established_def using linked_kept kept_basic(1) by blast
qed

lemma entered_links:
  assumes "linked E T b" and "has_live_socket b"
  shows "linked E T (room_created E now p b)" and "linked E T (room_joined E now q b)"
proof -
  have after: "linked E T (later Established_Task (sync_profile_after_room_established E b'))" if "link_kept b b'" for b'
    by (rule linked_kept [OF profile_links [OF linked_kept [OF assms(1) that]] kept_later]) simp
  have entered: "link_kept b b'" if "bg_socket b' = bg_socket b" "bg_sockets b' = bg_sockets b" "bg_server_url b' = bg_server_url b"
      "bg_connect_probe b' = bg_connect_probe b" "bg_connect_epoch b' = bg_connect_epoch b"
      "bg_reconnect_timer b' = bg_reconnect_timer b" "bg_tasks b' = bg_tasks b" for b'
    using that assms(2) by (simp add: link_kept_def)
  show "linked E T (room_created E now p b)" "linked E T (room_joined E now q b)"
    unfolding room_created_def room_joined_def Let_def
    by (intro after entered; simp add: start_waiting_for_bootstrap_room_state_def stop_waiting_for_bootstrap_room_state_def
        clear_pending_member_deltas_def Let_def)+
qed

lemma message_links:
  assumes "linked E T b" and "has_live_socket b"
  shows "linked E T (handle_server_message E m now wall b)"
proof (cases m)
  case (Srv_Sync_Pong sent arrived answered)
  have "link_kept b (notify_all (b\<lparr> bg_clock := c \<rparr>))" for c
    by (rule link_kept_trans [OF _ kept_basic(1)]) (simp add: link_kept_def)
  then show ?thesis using Srv_Sync_Pong linked_kept [OF assms(1)] by simp
qed (use assms entered_links kept_error kept_room_state kept_member_delta linked_kept in auto)

lemma requests_link:
  assumes "linked E T b"
  shows "linked E T (send_create_request E b)" and "linked E T (send_join_request E code token b)"
    and "linked E T (create_connected E b)" and "linked E T (join_connected E b)"
proof -
  have create: "linked E T (send_create_request E b)" if "linked E T b" for b by (simp add: send_create_request_def send_links that)
  have join: "linked E T (send_join_request E code token b)" for code token
    unfolding send_join_request_def by (rule send_links, rule linked_kept [OF assms]) (simp add: link_kept_def)
  have "linked E T (b\<lparr> bg_pending_create_room := x \<rparr>)" for x by (rule linked_kept [OF assms]) (simp add: link_kept_def)
  then show "linked E T (send_create_request E b)" "linked E T (send_join_request E code token b)"
    "linked E T (create_connected E b)" "linked E T (join_connected E b)"
    using assms create join by (simp_all add: create_connected_def join_connected_def)
qed

lemma disconnect_links:
  assumes "linked E T b" and "\<not> truthy (bg_room_code b)"
  shows "linked E T (disconnect_socket b)"
proof -
  define b2 where "b2 = (let b1 = (clear_pending_local_share (reset_reconnect_state b))\<lparr> bg_member_token := None \<rparr>
       in b1\<lparr> bg_connect_epoch := bg_connect_epoch b1 + 1, bg_connect_probe := None \<rparr>)"
  have down: "linked E T (b2\<lparr> bg_connected := c \<rparr>)" "linked E T (b2\<lparr> bg_socket := None, bg_connected := c \<rparr>)" for c
    using assms by (simp_all add: b2_def linked_def room_ops clear_pending_local_share_def Let_def probe_kept_def sockets_ok_def
        retry_due_by_def)
  show ?thesis
    using down close_socket_links by (simp add: disconnect_socket_def b2_def Let_def split: option.split)
qed

lemma leave_links:
  assumes b: "linked E T b"
  shows "linked E T (request_leave_room E b)"
proof -
  define b1 where "b1 = stop_waiting_for_bootstrap_room_state (clear_pending_member_deltas b)"
  define b2 where "b2 = (if bg_connected b1
     then send_to_server E (Room_Leave (if truthy (bg_member_token b1) then bg_member_token b1 else None)) b1 else b1)"
  define b3 where "b3 = (forget_room b2)\<lparr> bg_pending_join_room_code := None, bg_pending_join_token := None,
                 bg_pending_join_request_sent := False \<rparr>"
  define b4 where "b4 = (reset_room_lifecycle_transient_state b3)\<lparr> bg_last_opened_shared_url := None, bg_pending_create_room := False \<rparr>"
  have "linked E T b1" by (rule linked_kept [OF b]) (simp add: b1_def link_kept_def room_ops)
  then have "linked E T b2" using send_links by (simp add: b2_def)
  moreover have "link_left b2 b4" by (simp add: b4_def b3_def link_left_def room_ops Let_def)
  ultimately have "linked E T b4" and "\<not> truthy (bg_room_code b4)" using linked_left by (blast, simp add: link_left_def)
  then have "linked E T (later Notify_Task (disconnect_socket b4))"
    using linked_kept [OF disconnect_links kept_later] by simp
  then show ?thesis unfolding request_leave_room_def Let_def b1_def b2_def b3_def b4_def .
qed

subsection \<open>Events of the sockets\<close>

lemma opened_links:
  assumes b: "linked E T b"
  shows "linked E T (socket_opens E g wall b)"
proof (cases "bg_sockets b g")
  case None then show ?thesis using b by (simp add: socket_opens_def)
next
  case (Some info)
  define b1 where "b1 = set_socket g (info\<lparr> sk_ready := Socket_Open, sk_saw_open := True \<rparr>) b"
  define b2 where "b2 = b1\<lparr> bg_connected := True, bg_last_error := None, bg_server_restarting := False,
                              bg_reconnect_attempt := 0, bg_reconnect_deadline := None \<rparr>"
  have opened: "linked E T b1 \<and> linked E T (notify_all (sync_clock E wall (rejoin_after_open E b2)))"
    if connecting: "sk_ready info = Socket_Connecting"
  proof -
    have "\<not> sk_closed info" using linked_base [OF b] Some connecting by (auto simp: link_base_def sockets_ok_def)
    then have one: "linked E T b1" unfolding b1_def using b Some by (intro set_socket_links) auto
    then have two: "linked E T b2" by (rule linked_kept) (simp add: b2_def link_kept_def)
    have flag: "linked E T (b2\<lparr> bg_awaiting_fresh_room_state := True, bg_pending_create_room := c \<rparr>)"
        "linked E T (b2\<lparr> bg_awaiting_fresh_room_state := True \<rparr>)" for c
      by (rule linked_kept [OF two], simp add: link_kept_def)+
    have "linked E T (rejoin_after_open E b2)"
      using two flag requests_link by (simp add: rejoin_after_open_def)
    then have "linked E T (sync_clock E wall (rejoin_after_open E b2))" using send_links by (simp add: sync_clock_def)
    then show ?thesis using one linked_kept kept_basic(1) by blast
  qed
  show ?thesis
    using b opened Some unfolding socket_opens_def Let_def b1_def b2_def by simp
qed

lemma arrived_links:
  assumes "linked E T b"
  shows "linked E T (socket_message E g parsed now wall b)"
proof (cases "socket_ready g b = Some Socket_Open \<and> bg_socket b = Some g")
  case False then show ?thesis using assms by (auto simp: socket_message_def)
next
  case True
  then have "has_live_socket b"
    using linked_base [OF assms] by (auto simp: has_live_socket_def link_base_def sockets_ok_def socket_ready_def)
  then show ?thesis using assms message_links by (auto simp: socket_message_def split: option.split)
qed

lemma close_base:
  "link_base E T b \<Longrightarrow> link_base E T (close_socket g b)" "probe_kept b \<Longrightarrow> probe_kept (close_socket g b)"
  by (auto simp: link_base_def close_socket_def probe_kept_def sockets_ok_def retry_due_by_def split: option.split)

lemma reset_links:
  assumes "link_base E T b" and "probe_kept b"
  shows "linked E T (admin_session_reset g reason b)"
proof -
  define b1 where "b1 = b\<lparr> bg_socket := None, bg_connected := False, bg_connect_epoch := bg_connect_epoch b + 1,
                  bg_connect_probe := None \<rparr>"
  have "link_base E T b1" "probe_kept b1"
    using assms by (simp_all add: b1_def link_base_def sockets_ok_def retry_due_by_def probe_kept_def)
  then show ?thesis
    using left_base [OF _ _ left_rooms(1)] close_base unfolding admin_session_reset_def Let_def b1_def [symmetric]
    by (simp split: option.split)
qed

text \<open>A socket that closes: its retry is scheduled in the same step.\<close>

lemma live_closed_links:
  assumes base: "link_base E T b" and probe: "probe_kept b" and now: "now \<le> T"
  shows "linked E T (live_socket_closed g info code reason now b)"
proof -
  have tail: "linked E T (notify_all (schedule_reconnect now b'))"
    if "bg_socket b' = bg_socket b" "bg_sockets b' = bg_sockets b" "bg_server_url b' = bg_server_url b"
      "bg_connect_probe b' = bg_connect_probe b" "bg_connect_epoch b' = bg_connect_epoch b" "\<not> bg_connected b'"
      "bg_reconnect_timer b' = bg_reconnect_timer b" "bg_tasks b' = bg_tasks b" for b'
  proof -
    have "linked E T (schedule_reconnect now b')"
      using that base probe now
      by (intro schedule_links) (simp_all add: link_base_def sockets_ok_def retry_due_by_def probe_kept_def)
    then show ?thesis using linked_kept kept_basic(1) by blast
  qed
  show ?thesis unfolding live_socket_closed_def Let_def by (intro tail) (simp_all add: clear_pending_local_share_def Let_def)
qed

lemma closed_links:
  assumes b: "linked E T b" and now: "now \<le> T"
  shows "linked E T (socket_closes g code reason now b)"
proof (cases "bg_sockets b g")
  case None then show ?thesis using b by (simp add: socket_closes_def)
next
  case (Some info)
  define b1 where "b1 = set_socket g (info\<lparr> sk_ready := Socket_Closed, sk_closed := True \<rparr>) b"
  have base: "link_base E T b1 \<and> probe_kept b1"
    using linked_base [OF b] by (auto simp: b1_def link_base_def set_socket_def sockets_ok_def retry_due_by_def probe_kept_def)
  have super: "linked E T b1 \<and> linked E T (clear_pending_local_share b1)" if "bg_socket b1 \<noteq> Some g"
  proof -
    have "linked E T b1"
      unfolding b1_def using b Some that by (intro set_socket_links) (auto simp: b1_def set_socket_def)
    then show ?thesis using linked_kept kept_basic(3) by blast
  qed
  have reset: "linked E T (admin_session_reset g reason b1)" using base reset_links by blast
  have live: "linked E T (live_socket_closed g info code reason now b1)" using base now live_closed_links by blast
  show ?thesis
    using b super reset live Some unfolding socket_closes_def Let_def by (simp add: b1_def [symmetric])
qed

lemma errored_links:
  assumes b: "linked E T b"
  shows "linked E T (socket_errors g b)"
proof (cases "bg_sockets b g")
  case None then show ?thesis using b by (simp add: socket_errors_def)
next
  case (Some info)
  define b1 where "b1 = set_socket g (info\<lparr> sk_ready := Socket_Closed \<rparr>) b"
  have "linked E T b1 \<and> (\<forall>x. linked E T (notify_all (b1\<lparr> bg_last_error := x, bg_connected := False \<rparr>))
      \<and> linked E T (notify_all (clear_pending_local_share (b1\<lparr> bg_last_error := x, bg_connected := False \<rparr>))))"
    if "\<not> sk_closed info"
  proof -
    have one: "linked E T b1" unfolding b1_def using b Some that by (intro set_socket_links) auto
    have down: "link_kept b1 (b1\<lparr> bg_last_error := x, bg_connected := False \<rparr>)" for x by (simp add: link_kept_def)
    show ?thesis
      by (intro conjI allI one linked_kept [OF one link_kept_trans [OF down kept_basic(1)]]
          linked_kept [OF one link_kept_trans [OF link_kept_trans [OF down kept_basic(3)] kept_basic(1)]])
  qed
  then show ?thesis using b Some unfolding socket_errors_def Let_def by (simp add: b1_def [symmetric])
qed

lemma down_links:
  assumes "linked E T b"
  shows "linked E T (socket_goes_down g all_the_way b)"
proof (cases "bg_sockets b g")
  case (Some info)
  have "linked E T (set_socket g (info\<lparr> sk_ready := st \<rparr>) b)" if "st = Socket_Closed \<or> st = Socket_Closing" for st
  proof (cases "sk_closed info \<and> bg_socket b = Some g")
    case False then show ?thesis using assms Some that by (intro set_socket_links) auto
  next
    case True
    then show ?thesis using assms Some that
      by (auto simp: linked_def set_socket_def probe_kept_def sockets_ok_def retry_due_by_def on_its_way_def probing_def
          has_live_socket_def)
  qed
  then show ?thesis using assms Some by (simp add: socket_goes_down_def)
qed (simp add: socket_goes_down_def assms)

lemma roomless_links:
  "link_base E T b \<Longrightarrow> probe_kept b \<Longrightarrow> \<not> truthy (bg_room_code b) \<Longrightarrow> linked E T b"
  by (simp add: linked_parts)

subsection \<open>Shares and requests\<close>

lemma share_links:
  assumes b0: "linked E T b0"
  shows "linked E T (snd (queue_or_send_shared_video E now video playback tab auto b0))"
proof -
  define b where "b = remember_shared_source tab (sv_url video) b0"
  have b: "linked E T b" unfolding b_def by (rule linked_kept [OF b0 kept_basic(12)])
  define b1 where "b1 = queue_share video playback (set_pending_local_share now (sv_url video) auto b)"
  have marked: "linked E T (set_pending_local_share now (sv_url video) auto b)" using b linked_kept kept_basic(5) by blast
  then have sent: "linked E T (send_to_server E m (set_pending_local_share now (sv_url video) auto b))" for m by (rule send_links)
  have one: "linked E T b1" unfolding b1_def using marked linked_kept kept_basic(13) by blast
  have "linked E T (b1\<lparr> bg_member_token := None \<rparr>)" by (rule linked_kept [OF one]) (simp add: link_kept_def)
  then have conn: "linked E T (fst (connect_to_server E b1))" "linked E T (fst (connect_to_server E (b1\<lparr> bg_member_token := None \<rparr>)))"
    using one linked_base connect_links by blast+
  have created: "linked E T (later Share_Create_Task ((forget_room b1)\<lparr> bg_pending_share_toast := None \<rparr>))"
    by (rule linked_kept [OF one]) (simp add: link_kept_def forget_room_def later_def)
  have "linked E T (b\<lparr> bg_last_error := x \<rparr>)" for x by (rule linked_kept [OF b]) (simp add: link_kept_def)
  moreover have "linked E T (queue_share v p (send_to_server E m (set_pending_local_share now (sv_url video) auto b)))" for v p m
    using sent linked_kept kept_basic(13) by blast
  ultimately show ?thesis
    using sent conn created unfolding queue_or_send_shared_video_def Let_def b_def [symmetric] b1_def [symmetric] by simp
qed

lemma shared_links:
  assumes b: "linked E T b"
  shows "linked E T (share_current_video E now payload tab b)"
    and "linked E T (snd (auto_share_requested E now previous target tab b))"
    and "linked E T (snd (auto_share_read E now previous target tab remembered payload b))"
proof -
  have err: "linked E T (b\<lparr> bg_last_error := x \<rparr>)" for x by (rule linked_kept [OF b]) (simp add: link_kept_def)
  have note_all: "linked E T (notify_all b')" if "linked E T b'" for b' using that linked_kept kept_basic(1) by blast
  have task: "linked E T (later task b')" if "linked E T b'" "\<not> is_probe task" for b' task
    using that linked_kept kept_later by blast
  have shared: "linked E T b2" if "queue_or_send_shared_video E now video playback tab auto b' = (r, b2)" "linked E T b'"
    for video playback auto b' r b2 using share_links [OF that(2), of now video playback tab auto] that(1) by simp
  show "linked E T (share_current_video E now payload tab b)"
    using err note_all task shared [OF _ err] by (auto simp: share_current_video_def split: option.split prod.split)
  show "linked E T (snd (auto_share_requested E now previous target tab b))"
    using b task by (auto simp: auto_share_requested_def Let_def split: room_schedule.split)
  have claim: "linked E T b1" if "(if remembered then (True, b) else reclaim_shared_source_tab_if_unclaimed tab b) = (c, b1)" for c b1
    using that b linked_kept [OF b, of "b\<lparr> bg_shared_tab_id := tab \<rparr>"]
    by (auto simp: reclaim_shared_source_tab_if_unclaimed_def link_kept_def split: if_splits)
  show "linked E T (snd (auto_share_read E now previous target tab remembered payload b))"
    using b claim shared task by (auto simp: auto_share_read_def split: option.split prod.split)
qed

lemma asked_links:
  assumes b: "linked E T b"
  shows "linked E T (playback_reported E playback tab b)" and "linked E T (reconnect_if_offline E b)"
    and "linked E T (snd (room_state_wanted E now b))" and "linked E T (user_reported name b)"
    and "linked E T (profile_persisted E b)" and "linked E T (watchdog_alarm E b)"
proof -
  have conn: "linked E T (fst (connect_to_server E b))" using b linked_base connect_links by blast
  have "linked E T (b\<lparr> bg_shared_tab_id := x \<rparr>)" for x by (rule linked_kept [OF b]) (simp add: link_kept_def)
  then have "linked E T (snd (is_active_shared_tab E tab url b))" for url by (simp add: is_active_shared_tab_def split: prod.split)
  then have active: "linked E T b1" if "is_active_shared_tab E tab url b = (a, b1)" for url a b1 using that by (metis snd_conv)
  show "linked E T (playback_reported E playback tab b)"
    using b active send_links by (auto simp: playback_reported_def split: prod.split)
  show offline: "linked E T (reconnect_if_offline E b)" using b conn by (simp add: reconnect_if_offline_def)
  have comp: "linked E T b'" if "compensated E now s a b0 = (s', b')" "linked E T b0" for s s' a b' b0
  proof -
    have "link_kept b0 b'" using that(1) by (auto simp: compensated_def link_kept_def split: prod.splits)
    then show ?thesis using linked_kept that(2) by blast
  qed
  show "linked E T (snd (room_state_wanted E now b))"
    using offline send_links [OF offline] comp by (auto simp: room_state_wanted_def Let_def split: option.split prod.split)
  have "link_kept b (later Profile_Task (b\<lparr> bg_display_name := x \<rparr>))" for x by (simp add: link_kept_def later_def)
  then show "linked E T (user_reported name b)" using b linked_kept by (simp add: user_reported_def)
  show "linked E T (profile_persisted E b)" using b send_links by (simp add: profile_persisted_def)
  show "linked E T (watchdog_alarm E b)" using b conn by (simp add: watchdog_alarm_def)
qed

lemma server_url_links:
  assumes b: "linked E T b" and default_url: "usable_url E (be_default_server_url E)"
  shows "linked E T (update_server_url E url b)"
proof -
  have note_all: "linked E T (notify_all (b\<lparr> bg_last_error := x \<rparr>))" for x
    by (rule linked_kept [OF b link_kept_trans [OF _ kept_basic(1)]]) (simp add: link_kept_def)
  have "linked E T (later Server_Url_Task (b'\<lparr> bg_server_url := u, bg_last_error := None \<rparr>))"
    if u: "usable_url E u" and b': "linked E T b'" for b' u
  proof -
    have "linked E T (b'\<lparr> bg_server_url := u, bg_last_error := None \<rparr>)"
      using b' u by (simp add: linked_def probe_kept_def sockets_ok_def retry_due_by_def on_its_way_def probing_def has_live_socket_def)
    then show ?thesis using linked_kept kept_later is_probe_simps by blast
  qed
  moreover have "linked E T (clear_pending_local_share b)" using b linked_kept kept_basic(3) by blast
  ultimately show ?thesis
    using b note_all validated_is_usable [OF _ default_url] by (auto simp: update_server_url_def Let_def split: option.split)
qed

lemma url_persisted_links:
  assumes b: "linked E T b"
  shows "linked E T (server_url_persisted E b)"
proof -
  define b1 where "b1 = (case bg_socket b of None \<Rightarrow> b
      | Some g \<Rightarrow> close_socket g ((reset_reconnect_state b)\<lparr> bg_socket := None, bg_connected := False \<rparr>))"
  have "link_base E T ((reset_reconnect_state b)\<lparr> bg_socket := None, bg_connected := False \<rparr>)"
    "probe_kept ((reset_reconnect_state b)\<lparr> bg_socket := None, bg_connected := False \<rparr>)"
    using linked_base [OF b] by (auto simp: link_base_def sockets_ok_def retry_due_by_def probe_kept_def reset_reconnect_state_def
        clear_reconnect_timer_def)
  then have one: "link_base E T b1 \<and> probe_kept b1"
    using linked_base [OF b] close_base by (auto simp: b1_def split: option.split)
  then have conn: "linked E T (fst (connect_to_server E b1))" using connect_links by blast
  have "linked E T (later (Server_Url_Connected_Task p) b2)" if "connect_to_server E b1 = (b2, p)" for b2 p
    by (rule linked_kept [OF _ kept_later]) (use conn that in simp_all)
  moreover have "linked E T (notify_all b1)" if "\<not> truthy (bg_room_code b1)"
    using one that roomless_links linked_kept kept_basic(1) by blast
  ultimately show ?thesis
    unfolding server_url_persisted_def Let_def b1_def [symmetric] by (simp split: prod.split)
qed

subsection \<open>Every step\<close>

lemma connect_then_links:
  assumes b: "linked E T b" and task: "\<And>p. \<not> is_probe (task p)"
  shows "linked E T (connect_and_then E task b)"
proof -
  have "linked E T (fst (connect_to_server E b))" using linked_base [OF b] connect_links by blast
  then show ?thesis using linked_kept [OF _ kept_later] task by (simp add: connect_and_then_def split_beta)
qed

text \<open>A task that is taken out to run.\<close>

definition taken :: "nat \<Rightarrow> background \<Rightarrow> background" where
  "taken i b = b\<lparr> bg_tasks := take i (bg_tasks b) @ drop (i + 1) (bg_tasks b) \<rparr>"

lemma tasks_around:
  "i < length ts \<Longrightarrow> set ts = insert (ts ! i) (set (take i ts @ drop (i + 1) ts))"
  by (metis Suc_eq_plus1 id_take_nth_drop list.simps(15) set_append Un_insert_right)

lemma taken_kept:
  assumes "i < length (bg_tasks b)" and "\<not> is_probe (bg_tasks b ! i)"
  shows "link_kept b (taken i b)"
proof -
  have "filter is_probe (bg_tasks b) = filter is_probe (take i (bg_tasks b) @ drop (i + 1) (bg_tasks b))"
    by (subst id_take_nth_drop [OF assms(1)]) (simp add: assms(2))
  then show ?thesis by (simp add: link_kept_def taken_def)
qed

lemma taken_probe:
  assumes b: "linked E T b" and i: "i < length (bg_tasks b)" and task: "bg_tasks b ! i = Probe_Task p epoch url st r"
  shows "link_base E T (taken i b)" and "probe_pending p (taken i b)"
    and "bg_connect_epoch (taken i b) \<noteq> epoch \<Longrightarrow>
      probe_kept (taken i b) \<and> (truthy (bg_room_code (taken i b)) \<longrightarrow> on_its_way (taken i b))"
proof -
  have tasks: "set (bg_tasks b) = insert (Probe_Task p epoch url st r) (set (bg_tasks (taken i b)))"
    using tasks_around [OF i] task by (simp add: taken_def)
  have same: "bg_connect_probe (taken i b) = bg_connect_probe b" "bg_connect_epoch (taken i b) = bg_connect_epoch b"
    "bg_room_code (taken i b) = bg_room_code b" "bg_reconnect_timer (taken i b) = bg_reconnect_timer b"
    "has_live_socket (taken i b) = has_live_socket b"
    by (simp_all add: taken_def has_live_socket_def)
  show "link_base E T (taken i b)"
    using linked_base [OF b] by (simp add: link_base_def taken_def sockets_ok_def retry_due_by_def)
  show "probe_pending p (taken i b)"
    using linked_base [OF b] tasks by (auto simp: probe_pending_def probe_kept_def same)
  show "probe_kept (taken i b) \<and> (truthy (bg_room_code (taken i b)) \<longrightarrow> on_its_way (taken i b))"
    if "bg_connect_epoch (taken i b) \<noteq> epoch"
    using b tasks that by (auto simp: linked_def probe_kept_def on_its_way_def probing_def same)
qed

lemma task_links:
  assumes b: "linked E T b" and "\<not> is_probe task"
  shows "linked E T (run_background_task E task x now b)"
  by (cases task) (use assms established_links kept_error requests_link connect_then_links shared_links asked_links url_persisted_links
       linked_kept [OF b kept_ensure] linked_kept [OF b kept_tab] linked_kept [OF b kept_states(1)]
       linked_kept [OF b kept_states(2)] linked_kept [OF b kept_basic(1)] in \<open>simp_all split: task_input.split\<close>)

lemma proceeds_links:
  assumes b: "linked E T b" and now: "now \<le> T"
  shows "linked E T (background_task_proceeds E i x now b)"
proof (cases "i < length (bg_tasks b) \<and> background_task_ready (bg_tasks b ! i) x b")
  case False then show ?thesis using b by (auto simp: background_task_proceeds_def)
next
  case True
  have "linked E T (run_background_task E (bg_tasks b ! i) x now (taken i b))"
  proof (cases "is_probe (bg_tasks b ! i)")
    case False then show ?thesis using task_links [OF linked_kept [OF b taken_kept]] True by blast
  next
    case probe: True
    then obtain p epoch url st r where task: "bg_tasks b ! i = Probe_Task p epoch url st r" by (auto simp: is_probe_def)
    then obtain answer where "x = Probe_Says answer" using True by (auto split: task_input.splits)
    then show ?thesis
      using probe_answered_links [OF taken_probe(1) [OF b _ task] taken_probe(2) [OF b _ task] now taken_probe(3) [OF b _ task]]
        True task by simp
  qed
  then show ?thesis using True by (simp add: background_task_proceeds_def taken_def)
qed

lemma step_links:
  assumes b: "linked E T b" and now: "now \<le> T" and default_url: "usable_url E (be_default_server_url E)"
  shows "linked E T (background_step E e now wall b)"
proof (cases e)
  case (Clock_Timer) then show ?thesis using b send_links by (simp add: sync_clock_def)
qed (use b now arrived_links opened_links down_links errored_links closed_links reconnect_links proceeds_links leave_links
       asked_links shared_links server_url_links [OF b default_url] linked_left [OF b left_rooms(2)]
       linked_left [OF b left_rooms(3)] linked_kept [OF b kept_timer] linked_kept [OF b kept_bootstrap_timer]
       linked_kept [OF b kept_basic(14)] in simp_all)

lemma run_links:
  assumes "linked E T b" and "usable_url E (be_default_server_url E)" and "\<forall>(e, now, wall) \<in> set es. now \<le> T"
  shows "linked E T (background_run E es b)"
  using assms by (induction es arbitrary: b) (auto simp: step_links)

lemma start_links:
  assumes default_url: "usable_url E (be_default_server_url E)"
    and auto_connect: "snd (snd (resolve_persisted_server_url E (ps_server_url p)))"
  shows "linked E T (bootstrap_background E p)"
proof -
  obtain u shown where r: "resolve_persisted_server_url E (ps_server_url p) = (u, shown, True)"
    using auto_connect by (metis prod.collapse)
  then have "usable_url E u"
    using default_url validated_is_usable [OF _ default_url]
    by (auto simp: resolve_persisted_server_url_def Let_def split: if_splits option.splits)
  define b where "b = (create_background_runtime_state (be_default_server_url E))
                \<lparr> bg_room_code := ps_room_code p, bg_join_token := ps_join_token p, bg_member_token := ps_member_token p,
                  bg_member_id := ps_member_id p, bg_display_name := ps_display_name p,
                  bg_room_state := map_option (Pair 0) (ps_room_state p), bg_next := 1,
                  bg_server_url := u, bg_last_error := shown \<rparr>"
  have base: "link_base E T b" "probe_kept b"
    using \<open>usable_url E u\<close> by (simp_all add: b_def create_background_runtime_state_def link_base_def sockets_ok_def
        retry_due_by_def probe_kept_def)
  have room: "bg_room_code b = ps_room_code p" by (simp add: b_def)
  have "bootstrap_background E p = (if truthy (ps_room_code p) then fst (connect_to_server E b) else b)"
    unfolding bootstrap_background_def r Let_def prod.case b_def [symmetric] by simp
  then show ?thesis using connect_links [OF base] roomless_links [OF base] room by simp
qed

lemma connect_timer: "bg_reconnect_timer (fst (connect_to_server E b)) \<in> {None, bg_reconnect_timer b}"
  by (auto simp: connect_to_server_def open_socket_with_probe_def refuse_server_url_def notify_all_def notify_content_scripts_def
      later_def open_socket_def clear_reconnect_timer_def Let_def split: option.split)

lemma connect_room: "bg_room_code (fst (connect_to_server E b)) = bg_room_code b"
  by (auto simp: connect_to_server_def open_socket_with_probe_def refuse_server_url_def notify_all_def notify_content_scripts_def
      later_def open_socket_def clear_reconnect_timer_def Let_def split: option.split)

lemma retry_starts:
  assumes b: "linked E T b" and "truthy (bg_room_code b)" and "bg_reconnect_timer b = Some due" and "due \<le> now"
  shows "probing (reconnect_timer_fires E now b) \<or> has_live_socket (reconnect_timer_fires E now b)"
proof -
  let ?b1 = "clear_reconnect_timer b"
  have fires: "reconnect_timer_fires E now b = fst (connect_to_server E ?b1)"
    using assms by (simp add: reconnect_timer_fires_def)
  have "linked E T (fst (connect_to_server E ?b1))" using linked_base [OF b] connect_links by simp
  moreover have "truthy (bg_room_code (fst (connect_to_server E ?b1)))"
    using assms(2) connect_room [of E ?b1] by (simp add: clear_reconnect_timer_def)
  moreover have "bg_reconnect_timer (fst (connect_to_server E ?b1)) = None"
    using connect_timer [of E ?b1] by (simp add: clear_reconnect_timer_def)
  ultimately show ?thesis using fires by (simp add: linked_def on_its_way_def)
qed

subsection \<open>A member is never stranded\<close>

text \<open>
  C15. The background worker, started from any stored session whose server address it accepts, never leaves a member of a
  room without a way back: after every sequence of events (messages, sockets that open, fail and close, timers, requests,
  tasks in any order) with times up to \<open>T\<close>, a room code means that the socket has not been closed, a connection attempt of the
  current epoch is under way, or a retry is due by \<open>T\<close> and thirty seconds; and when a retry is due, firing it starts an
  attempt or leaves a socket that has not been closed.
\<close>

theorem never_stranded:
  assumes "validate_server_url E (be_default_server_url E) = Some (be_default_server_url E)"
    and "snd (snd (resolve_persisted_server_url E (ps_server_url p)))"
    and "\<forall>(e, now, wall) \<in> set es. now \<le> T"
    and "b = background_run E es (bootstrap_background E p)" and "truthy (bg_room_code b)"
  shows "((\<exists>due. bg_reconnect_timer b = Some due \<and> due \<le> T + 30000) \<or> probing b \<or> has_live_socket b)
    \<and> (\<forall>due now wall. bg_reconnect_timer b = Some due \<and> due \<le> now \<longrightarrow>
         probing (background_step E Reconnect_Timer now wall b) \<or> has_live_socket (background_step E Reconnect_Timer now wall b))"
proof -
  have default_url: "usable_url E (be_default_server_url E)" using assms(1) by (simp add: usable_url_def)
  have b: "linked E T b" using run_links [OF start_links [OF default_url assms(2)] default_url assms(3)] assms(4) by simp
  then have "(\<exists>due. bg_reconnect_timer b = Some due \<and> due \<le> T + 30000) \<or> probing b \<or> has_live_socket b"
    using assms(5) by (auto simp: linked_def on_its_way_def retry_due_by_def)
  then show ?thesis using retry_starts [OF b assms(5)] by simp
qed

text \<open>The socket opens and is lost: a retry is due a second later.\<close>

theorem never_stranded_witness:
  "\<exists>b. b = background_run sample_background_env [(Socket_Opens 1, 10, 10), (Socket_Closes 1 1006 [], 500, 500)]
           (bootstrap_background sample_background_env sample_session)
     \<and> truthy (bg_room_code b)
     \<and> ((\<exists>due. bg_reconnect_timer b = Some due \<and> due \<le> 500 + 30000) \<or> probing b \<or> has_live_socket b)"
proof -
  let ?es = "[(Socket_Opens 1, 10, 10), (Socket_Closes 1 1006 [], 500, 500)] :: (background_event \<times> rat \<times> rat) list"
  let ?b = "background_run sample_background_env ?es (bootstrap_background sample_background_env sample_session)"
  have default_url: "validate_server_url sample_background_env (be_default_server_url sample_background_env)
      = Some (be_default_server_url sample_background_env)" by code_simp
  have start: "snd (snd (resolve_persisted_server_url sample_background_env (ps_server_url sample_session)))" by code_simp
  have times: "\<forall>(e, now, wall) \<in> set ?es. now \<le> 500" by simp
  have room: "truthy (bg_room_code ?b)" by code_simp
  from never_stranded [OF default_url start times refl room] room show ?thesis by blast
qed

end
