(* ===== verification/Background_Order.thy ===== *)
theory Background_Order
  imports Background_Events
begin

text \<open>
  What the pages are told, in which order, and how long a share may hold it up. Stored room states carry
  growing numbers; a page never hears of an older one after a newer one, whatever the storage and the
  browser take to answer. The marker of an own share that waits for its confirmation hides other states
  for at most ten seconds.
\<close>

subsection \<open>The invariant\<close>

fun pushed_state :: "page_message \<Rightarrow> nat list" where
  "pushed_state (Apply_Room_State i state toast) = [i]"
| "pushed_state _ = []"

definition pushed_states :: "background \<Rightarrow> nat list" where
  "pushed_states b = concat (map pushed_state (bg_pushed b))"

definition in_order :: "background \<Rightarrow> bool" where
  "in_order b =
     (sorted (pushed_states b) \<and> (\<forall>i \<in> set (pushed_states b). i < bg_next b)
      \<and> (\<forall>i s. bg_room_state b = Some (i, s) \<longrightarrow> i < bg_next b \<and> (\<forall>j \<in> set (pushed_states b). j \<le> i)))"

definition marker_by :: "rat \<Rightarrow> background \<Rightarrow> bool" where
  "marker_by T b = (\<forall>due. bg_pending_local_share_expires_at b = Some due \<longrightarrow> due \<le> T + pending_local_share_timeout_ms)"

definition tidy :: "rat \<Rightarrow> background \<Rightarrow> bool" where
  "tidy T b = (in_order b \<and> marker_by T b)"

text \<open>Nothing is pushed or stored, and no marker is set.\<close>

definition calm :: "background \<Rightarrow> background \<Rightarrow> bool" where
  "calm b b' =
     (pushed_states b' = pushed_states b \<and> bg_next b \<le> bg_next b'
      \<and> bg_room_state b' \<in> {None, bg_room_state b}
      \<and> bg_pending_local_share_expires_at b' \<in> {None, bg_pending_local_share_expires_at b})"

lemma calm_refl [simp]: "calm b b"
  by (simp add: calm_def)

lemma calm_trans: "calm b b' \<Longrightarrow> calm b' b'' \<Longrightarrow> calm b b''"
  by (auto simp: calm_def)

lemma tidy_calm:
  assumes "tidy T b" and "calm b b'"
  shows "tidy T b'"
proof -
  have pushed: "pushed_states b' = pushed_states b" and next_id: "bg_next b \<le> bg_next b'" using assms(2) by (simp_all add: calm_def)
  have "\<forall>j \<in> set (pushed_states b). j < bg_next b'" using assms(1) next_id by (auto simp: tidy_def in_order_def)
  moreover have "i < bg_next b' \<and> (\<forall>j \<in> set (pushed_states b). j \<le> i)" if "bg_room_state b' = Some (i, s)" for i s
  proof -
    have "bg_room_state b = Some (i, s)" using assms(2) that by (auto simp: calm_def)
    then show ?thesis using assms(1) next_id by (auto simp: tidy_def in_order_def)
  qed
  moreover have "marker_by T b'" using assms by (auto simp: calm_def tidy_def marker_by_def)
  moreover have "sorted (pushed_states b)" using assms(1) by (simp add: tidy_def in_order_def)
  ultimately show ?thesis unfolding tidy_def in_order_def pushed by blast
qed

subsection \<open>Calm operations\<close>

lemma pushed_none [simp]: "pushed_states (b\<lparr> bg_pushed := bg_pushed b @ [Sync_Status code up member rtt] \<rparr>) = pushed_states b"
  by (simp add: pushed_states_def)

lemma pushed_same: "bg_pushed b' = bg_pushed b \<Longrightarrow> pushed_states b' = pushed_states b"
  by (simp add: pushed_states_def)

lemma calm_same:
  "bg_pushed b' = bg_pushed b \<Longrightarrow> bg_next b \<le> bg_next b' \<Longrightarrow> bg_room_state b' \<in> {None, bg_room_state b} \<Longrightarrow>
   bg_pending_local_share_expires_at b' \<in> {None, bg_pending_local_share_expires_at b} \<Longrightarrow> calm b b'"
  unfolding calm_def pushed_states_def by simp

lemma calm_notify: "calm b (notify_all b)"
  by (simp add: calm_def notify_all_def notify_content_scripts_def)

lemma calm_clear: "calm b (clear_pending_local_share b)"
  by (rule calm_same) (simp_all add: clear_pending_local_share_def had_pending_local_share_def Let_def)

lemma calm_expire: "calm b (expire_pending_local_share_if_needed now b)"
  using calm_clear by (simp add: expire_pending_local_share_if_needed_def)

lemma calm_later: "calm b (later task b)"
  by (rule calm_same) (simp_all add: later_def)

lemma calm_connect: "calm b (fst (connect_to_server E b))"
  by (auto simp: calm_def connect_to_server_def open_socket_with_probe_def refuse_server_url_def notify_all_def
      notify_content_scripts_def pushed_states_def later_def open_socket_def clear_reconnect_timer_def Let_def split: option.split)

lemma calm_send: "calm b (send_to_server E m b)"
  using calm_connect by (auto simp: send_to_server_def split: option.split intro: calm_same)

lemma calm_schedule: "calm b (schedule_reconnect now b)"
  by (rule calm_same) (simp_all add: schedule_reconnect_def Let_def)

lemma calm_close: "calm b (close_socket g b)"
  by (rule calm_same) (auto simp: close_socket_def split: option.split)

lemmas calm_defs = clear_current_room_context_def request_create_room_def request_join_room_def forget_room_def
  stop_waiting_for_bootstrap_room_state_def clear_pending_member_deltas_def reset_room_lifecycle_transient_state_def
  reset_reconnect_state_def clear_reconnect_timer_def had_pending_local_share_def later_def start_waiting_for_bootstrap_room_state_def
  set_socket_def stop_opening_def queue_share_def remember_shared_source_def tab_removed_def shared_video_switched_def

lemma calm_resets:
  "calm b (clear_current_room_context reason b)" "calm b (request_create_room b)" "calm b (request_join_room code token b)"
  "calm b (forget_room b)" "calm b (stop_opening target b)" "calm b (queue_share video playback b)"
  "calm b (remember_shared_source tab url b)" "calm b (tab_removed i b)" "calm b (set_socket g info b)"
  "calm b (reset_room_lifecycle_transient_state b)" "calm b (stop_waiting_for_bootstrap_room_state b)"
  "calm b (shared_video_switched E now confirmed state b)"
  by (auto intro!: calm_same simp: calm_defs Let_def)

lemma calm_disconnect: "calm b (disconnect_socket b)"
proof -
  define b2 where "b2 = (let b1 = (clear_pending_local_share (reset_reconnect_state b))\<lparr> bg_member_token := None \<rparr>
       in b1\<lparr> bg_connect_epoch := bg_connect_epoch b1 + 1, bg_connect_probe := None \<rparr>)"
  have b2: "calm b b2"
    unfolding b2_def by (rule calm_same) (simp_all add: calm_defs clear_pending_local_share_def Let_def)
  have "calm b2 (b2\<lparr> bg_connected := False \<rparr>)" "calm b2 (b2\<lparr> bg_socket := None, bg_connected := False \<rparr>)"
    by (auto intro: calm_same)
  then have "calm b (b2\<lparr> bg_connected := False \<rparr>)" "calm b (close_socket g (b2\<lparr> bg_socket := None, bg_connected := False \<rparr>))" for g
    using calm_trans [OF b2] calm_trans [OF calm_trans [OF b2] calm_close] by auto
  then show ?thesis unfolding disconnect_socket_def b2_def [symmetric] by (simp add: b2_def Let_def split: option.split)
qed

subsection \<open>Operations keep the invariant\<close>

text \<open>A changed record is compared with the one it comes from.\<close>

lemma tidy_same:
  assumes "tidy T b" and "bg_pushed b' = bg_pushed b" and "bg_next b \<le> bg_next b'" and "bg_room_state b' \<in> {None, bg_room_state b}"
    and "bg_pending_local_share_expires_at b' \<in> {None, bg_pending_local_share_expires_at b}"
  shows "tidy T b'"
  using tidy_calm [OF assms(1) calm_same] assms(2-5) by blast

lemmas calm_ops = calm_notify calm_clear calm_expire calm_later calm_connect calm_send calm_schedule calm_close calm_resets
  calm_disconnect

lemmas tidy_ops = calm_ops [THEN tidy_calm [rotated]]

lemma tidy_store:
  assumes "tidy T b" and "store_room_state state b = (i, b')"
  shows "tidy T b'" and "is_current_room_state i b'"
proof -
  have "\<forall>j \<in> set (pushed_states b). j < bg_next b" using assms(1) by (simp add: tidy_def in_order_def)
  then show "tidy T b'"
    using assms by (auto simp: store_room_state_def tidy_def in_order_def marker_by_def pushed_states_def less_Suc_eq
        less_imp_le)
  show "is_current_room_state i b'" using assms(2) by (auto simp: store_room_state_def is_current_room_state_def)
qed

lemma tidy_push:
  assumes "tidy T b" and "is_current_room_state i b"
  shows "tidy T (push_room_state E now i state anchor toast b)"
proof -
  obtain s where s: "bg_room_state b = Some (i, s)" using assms(2) by (auto simp: is_current_room_state_def)
  obtain state' b1 where c: "compensated E now state anchor b = (state', b1)" by fastforce
  have b1: "bg_pushed b1 = bg_pushed b" "bg_next b1 = bg_next b" "bg_room_state b1 = bg_room_state b"
    "bg_pending_local_share_expires_at b1 = bg_pending_local_share_expires_at b"
    using c by (auto simp: compensated_def split: prod.splits)
  define b2 where "b2 = notify_content_scripts (Apply_Room_State i state' toast) b1"
  have ids: "pushed_states b2 = pushed_states b @ [i]" by (simp add: b2_def notify_content_scripts_def pushed_states_def b1)
  have same: "bg_next b2 = bg_next b" "bg_room_state b2 = Some (i, s)"
    "bg_pending_local_share_expires_at b2 = bg_pending_local_share_expires_at b"
    by (simp_all add: b2_def notify_content_scripts_def b1 s)
  have "tidy T b2"
    using assms(1) s unfolding tidy_def in_order_def marker_by_def ids same by (auto simp: sorted_append)
  then show ?thesis unfolding push_room_state_def Let_def c prod.case b2_def by (rule tidy_ops(4))
qed

lemma tidy_deliver:
  assumes "tidy T b"
  shows "tidy T (deliver_room_state E now i resolved anchor n b)"
    and "tidy T (member_state_persisted E now i n b)" and "tidy T (deltas_persisted E now g i n b)"
proof -
  have "tidy T (push_room_state E now i resolved a toast (b\<lparr> bg_pending_share_toast := p \<rparr>))"
    if "is_current_room_state i b" for a toast p
  proof (rule tidy_push)
    show "tidy T (b\<lparr> bg_pending_share_toast := p \<rparr>)" by (rule tidy_same [OF assms]) simp_all
    show "is_current_room_state i (b\<lparr> bg_pending_share_toast := p \<rparr>)" using that by (simp add: is_current_room_state_def)
  qed
  then show "tidy T (deliver_room_state E now i resolved anchor n b)"
    using assms by (simp add: deliver_room_state_def split: prod.split)
  show "tidy T (member_state_persisted E now i n b)" "tidy T (deltas_persisted E now g i n b)"
    using assms tidy_push by (simp_all add: member_state_persisted_def deltas_persisted_def)
qed

lemma tidy_tab_open:
  assumes "tidy T b"
  shows "tidy T (tab_is_open E now target i resolved anchor n b)"
    and "tidy T (tab_is_open E now target i resolved anchor n (b\<lparr> bg_shared_tab_id := tab \<rparr>))"
proof -
  have opened: "tidy T (tab_is_open E now target i resolved anchor n b')" if "tidy T b'" for b'
  proof -
    have "tidy T (b'\<lparr> bg_last_opened_shared_url := Some target \<rparr>)" by (rule tidy_same [OF that]) simp_all
    then show ?thesis unfolding tab_is_open_def by (intro tidy_deliver(1) tidy_calm [OF _ calm_resets(5)])
  qed
  show "tidy T (tab_is_open E now target i resolved anchor n b)" using opened assms .
  show "tidy T (tab_is_open E now target i resolved anchor n (b\<lparr> bg_shared_tab_id := tab \<rparr>))"
    by (rule opened, rule tidy_same [OF assms]) simp_all
qed

lemma tidy_tab_task:
  "tidy T b \<Longrightarrow> tidy T (later task (b\<lparr> bg_shared_tab_id := tab \<rparr>))"
  "tidy T b \<Longrightarrow> tidy T (later task (b\<lparr> bg_opening_shared_url := url \<rparr>))"
  by (erule tidy_same, simp_all add: later_def)+

lemma tidy_tab:
  assumes "tidy T b"
  shows "tidy T (ensure_shared_video_open E now i resolved anchor n b)"
    and "tidy T (tab_answered E stage answer now target i resolved anchor n b)"
proof -
  show "tidy T (ensure_shared_video_open E now i resolved anchor n b)"
    using assms tidy_deliver(1) tidy_tab_task(2) by (simp add: ensure_shared_video_open_def Let_def)
  show "tidy T (tab_answered E stage answer now target i resolved anchor n b)"
    by (cases "(E, stage, answer, now, target, i, resolved, anchor, n, b)" rule: tab_answered.cases)
       (use assms tidy_tab_open [OF assms] tidy_tab_task(1) [OF assms] tidy_ops in \<open>auto split: option.split\<close>)
qed

lemma tidy_consume:
  assumes "tidy T b" and "consume_pending_member_deltas state b = (state', b')"
  shows "tidy T b'"
  by (rule tidy_same [OF assms(1)]) (use assms(2) in \<open>auto simp: consume_pending_member_deltas_def Let_def\<close>)

lemma tidy_bootstrap:
  assumes "tidy T b"
  shows "tidy T (expire_bootstrap_room_state_wait g b)" and "tidy T (bootstrap_timer_fires now b)"
proof -
  have wait: "tidy T (expire_bootstrap_room_state_wait g b)" for g
  proof -
    define b1 where "b1 = b\<lparr> bg_waiting_for_bootstrap := False, bg_bootstrap_timer := None \<rparr>"
    have b1: "tidy T b1" unfolding b1_def by (rule tidy_same [OF assms]) simp_all
    have "tidy T (b1\<lparr> bg_pending_member_deltas := ds \<rparr>)" for ds by (rule tidy_same [OF b1]) simp_all
    moreover have "tidy T (clear_pending_member_deltas b1)" by (rule tidy_same [OF b1]) (simp_all add: clear_pending_member_deltas_def)
    moreover have "tidy T (case consume_pending_member_deltas current b1 of (resolved, b2) \<Rightarrow>
        case store_room_state resolved b2 of (i, b3) \<Rightarrow> later (Delta_Task g' i resolved) b3)" for current g'
      by (auto split: prod.split dest: tidy_consume [OF b1] intro: tidy_ops(4) tidy_store(1))
    ultimately show ?thesis
      using assms b1 unfolding expire_bootstrap_room_state_wait_def Let_def b1_def [symmetric] by (simp split: option.split)
  qed
  then show "tidy T (expire_bootstrap_room_state_wait g b)" .
  show "tidy T (bootstrap_timer_fires now b)" using assms wait by (auto simp: bootstrap_timer_fires_def split: option.split)
qed

lemma tidy_room_state:
  assumes "tidy T b"
  shows "tidy T (handle_room_state_message E now state anchor b)"
proof -
  define b1 where "b1 = expire_pending_local_share_if_needed now b"
  have b1: "tidy T b1" unfolding b1_def by (rule tidy_calm [OF assms calm_expire])
  have "tidy T (let b2 = (if switched then shared_video_switched E now confirmed state b1 else b1);
                 (resolved, b3) = consume_pending_member_deltas state b2;
                 b4 = stop_waiting_for_bootstrap_room_state b3;
                 b5 = b4\<lparr> bg_anchor := mark_playback_arrival (be_number_string E) (rs_playback resolved) anchor (bg_anchor b4) \<rparr>;
                 (i, b6) = store_room_state resolved b5;
                 b7 = (if confirmed then clear_pending_local_share b6 else b6)
             in later (State_Task i resolved anchor state) b7)" for switched confirmed
  proof -
    obtain b2 where b2: "(if switched then shared_video_switched E now confirmed state b1 else b1) = b2" by blast
    obtain resolved b3 where c: "consume_pending_member_deltas state b2 = (resolved, b3)" by fastforce
    obtain b5 where b5: "(stop_waiting_for_bootstrap_room_state b3)\<lparr> bg_anchor := mark_playback_arrival (be_number_string E)
        (rs_playback resolved) anchor (bg_anchor (stop_waiting_for_bootstrap_room_state b3)) \<rparr> = b5" by blast
    obtain i b6 where st: "store_room_state resolved b5 = (i, b6)" by fastforce
    have "tidy T b2" unfolding b2 [symmetric] using b1 tidy_calm [OF b1 calm_resets(12)] by simp
    then have "tidy T b3" using tidy_consume [OF _ c] by blast
    then have "tidy T b5" unfolding b5 [symmetric] by (rule tidy_same) (simp_all add: stop_waiting_for_bootstrap_room_state_def)
    then have "tidy T b6" using tidy_store(1) [OF _ st] by blast
    then have "tidy T (if confirmed then clear_pending_local_share b6 else b6)" using tidy_calm [OF _ calm_clear] by simp
    then have "tidy T (later (State_Task i resolved anchor state) (if confirmed then clear_pending_local_share b6 else b6))"
      by (rule tidy_calm [OF _ calm_later])
    then show ?thesis unfolding Let_def b2 c prod.case b5 st .
  qed
  then show ?thesis
    unfolding handle_room_state_message_def b1_def [symmetric] Let_def [of b1]
    by (split incoming_decision.split) (intro conjI impI allI b1)
qed

lemma tidy_member_delta:
  assumes "tidy T b"
  shows "tidy T (handle_room_member_delta d b)"
proof -
  have "tidy T (apply_room_member_state s b)" for s
    using tidy_store(1) [OF assms] tidy_calm [OF _ calm_later] by (auto simp: apply_room_member_state_def split: prod.split)
  moreover have "tidy T (b\<lparr> bg_pending_member_deltas := ds \<rparr>)" for ds by (rule tidy_same [OF assms]) simp_all
  ultimately show ?thesis using assms by (simp add: handle_room_member_delta_def split: option.split)
qed

lemma tidy_error:
  assumes "tidy T b"
  shows "tidy T (finish_error code message b)" and "tidy T (handle_error code message b)"
proof -
  have finish: "tidy T (finish_error code message b)" if "tidy T b" for b
  proof -
    have "tidy T (later Notify_Task (b\<lparr> bg_member_token := None \<rparr>))" by (rule tidy_same [OF that]) (simp_all add: later_def)
    then show ?thesis using tidy_calm [OF that calm_resets(1)] tidy_calm [OF that calm_notify] by (simp add: finish_error_def)
  qed
  then show "tidy T (finish_error code message b)" using assms .
  let ?b1 = "b\<lparr> bg_last_error := Some (Reported_Error code message) \<rparr>"
  have "tidy T ?b1" by (rule tidy_same [OF assms]) simp_all
  moreover have "tidy T (later (Error_Task code message)
                (forget_room ((stop_waiting_for_bootstrap_room_state ?b1)\<lparr> bg_pending_join_request_sent := False,
                   bg_pending_join_room_code := None, bg_pending_join_token := None \<rparr>)))"
    by (rule tidy_same [OF assms]) (simp_all add: calm_defs)
  ultimately show "tidy T (handle_error code message b)" using finish unfolding handle_error_def Let_def by simp
qed

lemma tidy_profile: "tidy T b \<Longrightarrow> tidy T (sync_profile_after_room_established E b)"
  using tidy_calm [OF _ calm_send] by (simp add: sync_profile_after_room_established_def)

lemma tidy_established:
  assumes "tidy T b"
  shows "tidy T (room_established E b)"
proof -
  have sent: "tidy T (send_to_server E m b)" for m by (rule tidy_calm [OF assms calm_send])
  have "tidy T ((send_to_server E m b)\<lparr> bg_pending_shared_video := None, bg_pending_shared_playback := None \<rparr>)"
    "tidy T ((send_to_server E m b)\<lparr> bg_pending_shared_video := None, bg_pending_shared_playback := None,
       bg_pending_local_share_generation := g \<rparr>)" for m g
    by (rule tidy_same [OF sent [of m]], simp_all)+
  then have "tidy T (flush_pending_share E b)" using assms by (simp add: flush_pending_share_def Let_def)
  then show ?thesis unfolding room_established_def using tidy_calm [OF _ calm_notify] by blast
qed

lemma tidy_entered:
  assumes "tidy T b"
  shows "tidy T (room_created E now p b)" and "tidy T (room_joined E now q b)"
  unfolding room_created_def room_joined_def Let_def
  by (intro tidy_calm [OF _ calm_later] tidy_profile, rule tidy_same [OF assms]; simp add: calm_defs Let_def)+

lemma tidy_message:
  assumes "tidy T b"
  shows "tidy T (handle_server_message E m now wall b)"
proof (cases m)
  case (Srv_Sync_Pong sent arrived answered)
  have "tidy T (notify_all (b\<lparr> bg_clock := c \<rparr>))" for c
    by (rule tidy_calm [OF tidy_same [OF assms] calm_notify]) simp_all
  then show ?thesis using Srv_Sync_Pong by simp
qed (use assms tidy_entered tidy_error tidy_room_state tidy_member_delta in auto)

lemma tidy_requests:
  assumes "tidy T b"
  shows "tidy T (send_create_request E b)" and "tidy T (send_join_request E code token b)"
    and "tidy T (create_connected E b)" and "tidy T (join_connected E b)"
proof -
  have create: "tidy T (send_create_request E b)" if "tidy T b" for b
    using tidy_calm [OF that calm_send] by (simp add: send_create_request_def)
  have join: "tidy T (send_join_request E code token b)" for code token
    unfolding send_join_request_def by (rule tidy_calm [OF tidy_same [OF assms] calm_send]) simp_all
  have "tidy T (b\<lparr> bg_pending_create_room := x \<rparr>)" for x by (rule tidy_same [OF assms]) simp_all
  then show "tidy T (send_create_request E b)" "tidy T (send_join_request E code token b)"
    "tidy T (create_connected E b)" "tidy T (join_connected E b)"
    using assms create join by (simp_all add: create_connected_def join_connected_def)
qed

lemma tidy_leave:
  assumes "tidy T b"
  shows "tidy T (request_leave_room E b)"
proof -
  define b1 where "b1 = stop_waiting_for_bootstrap_room_state (clear_pending_member_deltas b)"
  define b2 where "b2 = (if bg_connected b1
     then send_to_server E (Room_Leave (if truthy (bg_member_token b1) then bg_member_token b1 else None)) b1 else b1)"
  define b4 where "b4 = (reset_room_lifecycle_transient_state ((forget_room b2)\<lparr> bg_pending_join_room_code := None,
      bg_pending_join_token := None, bg_pending_join_request_sent := False \<rparr>))
     \<lparr> bg_last_opened_shared_url := None, bg_pending_create_room := False \<rparr>"
  have "tidy T b1" by (rule tidy_same [OF assms]) (simp_all add: b1_def calm_defs)
  then have "tidy T b2" using tidy_calm [OF _ calm_send] by (simp add: b2_def)
  then have "tidy T b4" unfolding b4_def by (rule tidy_same) (simp_all add: calm_defs Let_def)
  then have "tidy T (later Notify_Task (disconnect_socket b4))" by (rule tidy_calm [OF tidy_calm [OF _ calm_disconnect] calm_later])
  then show ?thesis unfolding request_leave_room_def Let_def b1_def b2_def b4_def .
qed

lemma tidy_sockets:
  assumes "tidy T b"
  shows "tidy T (socket_opens E g wall b)" and "tidy T (socket_message E g parsed now wall b)"
    and "tidy T (socket_goes_down g all_the_way b)" and "tidy T (socket_errors g b)" and "tidy T (socket_closes g code reason now b)"
proof -
  have set_info: "tidy T (set_socket g info b)" for info by (rule tidy_calm [OF assms calm_resets(9)])
  have rejoin: "tidy T (rejoin_after_open E b')" if "tidy T b'" for b'
  proof -
    have "tidy T (b'\<lparr> bg_awaiting_fresh_room_state := True, bg_pending_create_room := c \<rparr>)"
        "tidy T (b'\<lparr> bg_awaiting_fresh_room_state := True \<rparr>)" for c
      by (rule tidy_same [OF that], simp_all)+
    then show ?thesis using that tidy_requests by (simp add: rejoin_after_open_def)
  qed
  have opened: "tidy T (notify_all (sync_clock E wall (rejoin_after_open E ((set_socket g info b)\<lparr> bg_connected := True,
      bg_last_error := None, bg_server_restarting := False, bg_reconnect_attempt := 0, bg_reconnect_deadline := None \<rparr>))))" for info
  proof -
    have "tidy T ((set_socket g info b)\<lparr> bg_connected := True, bg_last_error := None, bg_server_restarting := False,
        bg_reconnect_attempt := 0, bg_reconnect_deadline := None \<rparr>)"
      by (rule tidy_same [OF set_info [of info]]) simp_all
    from rejoin [OF this] show ?thesis using tidy_calm calm_notify calm_send by (simp add: sync_clock_def) blast
  qed
  show "tidy T (socket_opens E g wall b)"
    using assms set_info opened by (simp add: socket_opens_def Let_def split: option.split)
  show "tidy T (socket_message E g parsed now wall b)"
    using assms tidy_message by (simp add: socket_message_def split: option.split)
  show "tidy T (socket_goes_down g all_the_way b)" using assms set_info by (simp add: socket_goes_down_def split: option.split)
  have lost: "tidy T ((set_socket g info b)\<lparr> bg_last_error := x, bg_connected := False \<rparr>)" for info x
    by (rule tidy_same [OF set_info [of info]]) simp_all
  show "tidy T (socket_errors g b)"
    using assms set_info lost tidy_calm [OF lost calm_notify] tidy_calm [OF tidy_calm [OF lost calm_clear] calm_notify]
    by (simp add: socket_errors_def Let_def split: option.split)
  have reset: "tidy T (admin_session_reset g reason b')" if "tidy T b'" for b'
  proof -
    have "tidy T (b'\<lparr> bg_socket := None, bg_connected := False, bg_connect_epoch := bg_connect_epoch b' + 1,
        bg_connect_probe := None \<rparr>)" (is "tidy T ?b1") by (rule tidy_same [OF that]) simp_all
    then have "tidy T (clear_current_room_context r ?b1)" "tidy T (clear_current_room_context r (close_socket s ?b1))" for r s
      using tidy_calm calm_resets(1) calm_close by blast+
    then show ?thesis by (simp add: admin_session_reset_def Let_def split: option.split)
  qed
  have live: "tidy T (live_socket_closed g info code reason now b')" if "tidy T b'" for b' info
  proof -
    have tail: "tidy T (notify_all (schedule_reconnect now (clear_pending_local_share b'')))
        \<and> tidy T (notify_all (schedule_reconnect now b''))" if "tidy T b''" for b''
      using that tidy_calm calm_notify calm_schedule calm_clear by blast
    have "tidy T (b'\<lparr> bg_connected := False \<rparr>)"
      "tidy T (b'\<lparr> bg_connected := False, bg_server_restarting := True, bg_last_error := x \<rparr>)" for x
      by (rule tidy_same [OF that], simp_all)+
    then show ?thesis using tail by (simp add: live_socket_closed_def Let_def)
  qed
  show "tidy T (socket_closes g code reason now b)"
    using assms set_info reset [OF set_info] live [OF set_info] tidy_calm [OF set_info calm_clear]
    by (simp add: socket_closes_def Let_def split: option.split)
qed

lemma tidy_marker: "tidy T b \<Longrightarrow> now \<le> T \<Longrightarrow> tidy T (set_pending_local_share now url auto b)"
  by (simp add: tidy_def in_order_def marker_by_def set_pending_local_share_def pushed_states_def)

lemma tidy_share:
  assumes b0: "tidy T b0" and now: "now \<le> T"
  shows "tidy T (snd (queue_or_send_shared_video E now video playback tab auto b0))"
proof -
  define b where "b = remember_shared_source tab (sv_url video) b0"
  have b: "tidy T b" unfolding b_def by (rule tidy_calm [OF b0 calm_resets(7)])
  have marked: "tidy T (set_pending_local_share now (sv_url video) auto b)" using b now by (rule tidy_marker)
  define b1 where "b1 = queue_share video playback (set_pending_local_share now (sv_url video) auto b)"
  have sent: "tidy T (send_to_server E m (set_pending_local_share now (sv_url video) auto b))" for m
    by (rule tidy_calm [OF marked calm_send])
  have queued: "tidy T (queue_share v p (send_to_server E m (set_pending_local_share now (sv_url video) auto b)))" for v p m
    by (rule tidy_calm [OF sent calm_resets(6)])
  have one: "tidy T b1" unfolding b1_def by (rule tidy_calm [OF marked calm_resets(6)])
  have conn: "tidy T (fst (connect_to_server E b1))" "tidy T (fst (connect_to_server E (b1\<lparr> bg_member_token := None \<rparr>)))"
    by (rule tidy_calm [OF one calm_connect], rule tidy_calm [OF tidy_same [OF one] calm_connect]) simp_all
  have created: "tidy T (later Share_Create_Task ((forget_room b1)\<lparr> bg_pending_share_toast := None \<rparr>))"
    by (rule tidy_same [OF one]) (simp_all add: forget_room_def later_def)
  have "tidy T (b\<lparr> bg_last_error := x \<rparr>)" for x by (rule tidy_same [OF b]) simp_all
  then show ?thesis
    using sent queued conn created unfolding queue_or_send_shared_video_def Let_def b_def [symmetric] b1_def [symmetric] by simp
qed

lemma tidy_shares:
  assumes b: "tidy T b" and now: "now \<le> T"
  shows "tidy T (share_current_video E now payload tab b)"
    and "tidy T (snd (auto_share_requested E now previous target tab b))"
    and "tidy T (snd (auto_share_read E now previous target tab remembered payload b))"
proof -
  have err: "tidy T (b\<lparr> bg_last_error := x \<rparr>)" for x by (rule tidy_same [OF b]) simp_all
  have task: "tidy T (later task b')" "tidy T (notify_all b')" if "tidy T b'" for b' task
    using that tidy_calm calm_later calm_notify by blast+
  have shared: "tidy T b2" if "queue_or_send_shared_video E now video playback tab auto b' = (r, b2)" "tidy T b'"
    for video playback auto b' r b2 using tidy_share [OF that(2) now, of E video playback tab auto] that(1) by simp
  show "tidy T (share_current_video E now payload tab b)"
    using err task shared [OF _ err] by (auto simp: share_current_video_def split: option.split prod.split)
  show "tidy T (snd (auto_share_requested E now previous target tab b))"
    using b task by (auto simp: auto_share_requested_def Let_def split: room_schedule.split)
  have claim: "tidy T b1" if "(if remembered then (True, b) else reclaim_shared_source_tab_if_unclaimed tab b) = (c, b1)" for c b1
    by (rule tidy_same [OF b]) (use that in \<open>auto simp: reclaim_shared_source_tab_if_unclaimed_def split: if_splits\<close>)
  show "tidy T (snd (auto_share_read E now previous target tab remembered payload b))"
    using b claim shared task by (auto simp: auto_share_read_def split: option.split prod.split)
qed

lemma tidy_compensated: "tidy T b \<Longrightarrow> compensated E now s a b = (s', b') \<Longrightarrow> tidy T b'"
  by (erule tidy_same) (auto simp: compensated_def split: prod.splits)

lemma tidy_asked:
  assumes b: "tidy T b"
  shows "tidy T (playback_reported E playback tab b)" and "tidy T (reconnect_if_offline E b)"
    and "tidy T (snd (room_state_wanted E now b))" and "tidy T (user_reported name b)"
    and "tidy T (profile_persisted E b)" and "tidy T (watchdog_alarm E b)" and "tidy T (update_server_url E url b)"
    and "tidy T (server_url_persisted E b)"
proof -
  have conn: "tidy T (fst (connect_to_server E b'))" "tidy T (send_to_server E m b')" "tidy T (notify_all b')" if "tidy T b'" for b' m
    using that tidy_calm calm_connect calm_send calm_notify by blast+
  have active: "tidy T b1" if "is_active_shared_tab E tab url b = (a, b1)" for url a b1
    by (rule tidy_same [OF b]) (use that in \<open>auto simp: is_active_shared_tab_def split: prod.splits\<close>)
  show "tidy T (playback_reported E playback tab b)"
    using b active conn by (auto simp: playback_reported_def split: prod.split)
  show offline: "tidy T (reconnect_if_offline E b)" using b conn by (simp add: reconnect_if_offline_def)
  show "tidy T (snd (room_state_wanted E now b))"
    using offline conn(2) [OF offline] tidy_compensated [OF offline] tidy_compensated [OF conn(2) [OF offline]]
    by (auto simp: room_state_wanted_def Let_def split: option.split prod.split)
  show "tidy T (user_reported name b)"
    using b tidy_same [OF b, of "later Profile_Task (b\<lparr> bg_display_name := Some name \<rparr>)"] by (simp add: user_reported_def later_def)
  show "tidy T (profile_persisted E b)" using b conn by (simp add: profile_persisted_def)
  show "tidy T (watchdog_alarm E b)" using b conn by (simp add: watchdog_alarm_def)
  have chosen: "tidy T (later Server_Url_Task (b'\<lparr> bg_server_url := u, bg_last_error := None \<rparr>))" if "tidy T b'" for b' u
    by (rule tidy_same [OF that]) (simp_all add: later_def)
  have "tidy T (notify_all (b\<lparr> bg_last_error := x \<rparr>))" for x
    by (rule tidy_calm [OF tidy_same [OF b] calm_notify]) simp_all
  then show "tidy T (update_server_url E url b)"
    using b chosen [OF b] chosen [OF tidy_calm [OF b calm_clear]] by (auto simp: update_server_url_def Let_def split: option.split)
  define b1 where "b1 = (case bg_socket b of None \<Rightarrow> b
      | Some g \<Rightarrow> close_socket g ((reset_reconnect_state b)\<lparr> bg_socket := None, bg_connected := False \<rparr>))"
  have "tidy T ((reset_reconnect_state b)\<lparr> bg_socket := None, bg_connected := False \<rparr>)"
    by (rule tidy_same [OF b]) (simp_all add: calm_defs)
  then have one: "tidy T b1" using b tidy_calm [OF _ calm_close] by (simp add: b1_def split: option.split)
  have "tidy T (later task b2)" if "connect_to_server E b1 = (b2, p)" for b2 p task
    by (rule tidy_calm [OF _ calm_later]) (use conn(1) [OF one] that in simp)
  then show "tidy T (server_url_persisted E b)"
    using conn(3) [OF one] unfolding server_url_persisted_def Let_def b1_def [symmetric] by (simp split: prod.split)
qed

subsection \<open>Every step\<close>

lemma tidy_connect_then: "tidy T b \<Longrightarrow> tidy T (connect_and_then E task b)"
  using tidy_calm [OF tidy_calm [OF _ calm_connect] calm_later] by (simp add: connect_and_then_def split_beta)

lemma tidy_probe:
  assumes "tidy T b"
  shows "tidy T (probe_answered E answer p epoch url r now b)"
proof -
  have settled: "tidy T (settle_probe p b')" if "tidy T b'" for b' by (rule tidy_same [OF that]) (simp_all add: settle_probe_def)
  have "tidy T (open_socket u r' b)" for u r' by (rule tidy_same [OF assms]) (simp_all add: open_socket_def Let_def)
  then have opens: "tidy T (probe_opens p epoch url r' b)" for r' using assms settled by (simp add: probe_opens_def)
  have goes_on: "tidy T (probe_goes_on E p epoch url r' b)" for r'
    using opens tidy_calm [OF assms calm_later] by (simp add: probe_goes_on_def)
  have "tidy T (b\<lparr> bg_last_error := x, bg_connected := False \<rparr>)" for x by (rule tidy_same [OF assms]) simp_all
  then have fails: "tidy T (probe_fails p reason now b)" for reason
    using settled tidy_calm [OF tidy_calm [OF _ calm_schedule] calm_notify] by (simp add: probe_fails_def)
  show ?thesis using settled [OF assms] opens goes_on fails by (cases answer) simp_all
qed

lemma tidy_task:
  assumes b: "tidy T b" and now: "now \<le> T"
  shows "tidy T (run_background_task E task x now b)"
  by (cases task) (use b now tidy_established tidy_error tidy_requests tidy_connect_then tidy_shares tidy_asked tidy_deliver tidy_tab tidy_probe
       tidy_calm [OF b calm_notify] in \<open>simp_all split: task_input.split\<close>)

lemma tidy_step:
  assumes b: "tidy T b" and now: "now \<le> T"
  shows "tidy T (background_step E e now wall b)"
proof (cases e)
  case Clock_Timer then show ?thesis using b tidy_calm [OF b calm_send] by (simp add: sync_clock_def)
next
  case Reconnect_Timer
  have "tidy T (clear_reconnect_timer b)" by (rule tidy_same [OF b]) (simp_all add: clear_reconnect_timer_def)
  then show ?thesis using b tidy_calm [OF _ calm_connect] Reconnect_Timer by (auto simp: reconnect_timer_fires_def split: option.split)
next
  case Share_Timer
  then show ?thesis using b tidy_calm [OF tidy_calm [OF b calm_expire] calm_notify]
    by (auto simp: pending_local_share_timer_fires_def split: option.split)
next
  case (Task_Proceeds i x)
  have "tidy T (b\<lparr> bg_tasks := take i (bg_tasks b) @ drop (i + 1) (bg_tasks b) \<rparr>)" by (rule tidy_same [OF b]) simp_all
  from tidy_task [OF this now] show ?thesis using b Task_Proceeds by (simp add: background_task_proceeds_def)
qed (use b now tidy_sockets tidy_bootstrap tidy_leave tidy_shares tidy_asked tidy_calm [OF b calm_resets(2)]
       tidy_calm [OF b calm_resets(3)] tidy_calm [OF b calm_resets(8)] in simp_all)

lemma tidy_run:
  assumes "tidy T b" and "\<forall>(e, now, wall) \<in> set es. now \<le> T"
  shows "tidy T (background_run E es b)"
  using assms by (induction es arbitrary: b) (auto simp: tidy_step)

lemma tidy_start: "tidy T (bootstrap_background E p)"
proof -
  have "tidy T b" if "bg_pushed b = []" "bg_next b = 1" "bg_room_state b = map_option (Pair 0) x"
      "bg_pending_local_share_expires_at b = None" for b x
    using that by (auto simp: tidy_def in_order_def marker_by_def pushed_states_def)
  then have "tidy T ((create_background_runtime_state (be_default_server_url E))
                \<lparr> bg_room_code := ps_room_code p, bg_join_token := ps_join_token p, bg_member_token := ps_member_token p,
                  bg_member_id := ps_member_id p, bg_display_name := ps_display_name p,
                  bg_room_state := map_option (Pair 0) (ps_room_state p), bg_next := 1,
                  bg_server_url := u, bg_last_error := shown \<rparr>)" (is "tidy T (?b u shown)") for u shown
    by (simp add: create_background_runtime_state_def)
  then have "tidy T (?b u shown)" "tidy T (fst (connect_to_server E (?b u shown)))" for u shown
    using tidy_calm [OF _ calm_connect] by blast+
  then show ?thesis unfolding bootstrap_background_def Let_def by (simp split: prod.split)
qed

subsection \<open>No older state after a newer one\<close>


subsection \<open>A share holds up the room for ten seconds at most\<close>

lemma consumed_state:
  assumes "consume_pending_member_deltas state b = (state', b')"
  shows "rs_room_code state' = rs_room_code state" and "rs_shared_video state' = rs_shared_video state"
    and "rs_playback state' = rs_playback state"
proof -
  have one: "rs_room_code (apply_member_delta d s) = rs_room_code s \<and> rs_shared_video (apply_member_delta d s) = rs_shared_video s
      \<and> rs_playback (apply_member_delta d s) = rs_playback s" for d s
    by (cases d) (simp_all split: option.split)
  have "rs_room_code (fold apply_member_delta ds s) = rs_room_code s
      \<and> rs_shared_video (fold apply_member_delta ds s) = rs_shared_video s
      \<and> rs_playback (fold apply_member_delta ds s) = rs_playback s" for ds s
    by (induction ds arbitrary: s) (simp_all add: one)
  then show "rs_room_code state' = rs_room_code state" "rs_shared_video state' = rs_shared_video state"
    "rs_playback state' = rs_playback state"
    using assms by (auto simp: consume_pending_member_deltas_def Let_def)
qed

lemma applied_when_free:
  assumes "get_active_pending_local_share_url now b = None"
  shows "\<exists>s. known_room_state (handle_room_state_message E now state anchor b) = Some s \<and> rs_room_code s = rs_room_code state
    \<and> rs_shared_video s = rs_shared_video state \<and> rs_playback s = rs_playback state
    \<and> bg_room_code (handle_room_state_message E now state anchor b) = Some (rs_room_code state)"
proof -
  define b1 where "b1 = expire_pending_local_share_if_needed now b"
  have free: "get_active_pending_local_share_url now b1 = None"
    using assms by (simp add: b1_def expire_pending_local_share_if_needed_def clear_pending_local_share_def had_pending_local_share_def
        get_active_pending_local_share_url_def Let_def split: option.splits)
  then have decided: "decide_incoming_room_state (known_room_state b1) (norm_of E (get_active_pending_local_share_url now b1)) x
      = Apply_State (map_option sv_url (Option.bind (known_room_state b1) rs_shared_video)) False" for x
    by (simp add: decide_incoming_room_state_def norm_of_def)
  obtain b2 where b2: "(if is_shared_video_change (map_option sv_url (Option.bind (known_room_state b1) rs_shared_video)) state
      then shared_video_switched E now False state b1 else b1) = b2" by blast
  obtain resolved b3 where c: "consume_pending_member_deltas state b2 = (resolved, b3)" by fastforce
  show ?thesis
    unfolding handle_room_state_message_def b1_def [symmetric] Let_def decided incoming_decision.case b2 c prod.case
    using consumed_state [OF c] by (simp add: store_room_state_def later_def known_room_state_def)
qed

text \<open>
  C21. An own share that waits for its confirmation cannot shut out the room: once ten seconds have passed since the last
  event, whatever the events were (shares by hand and automatic ones, sent or queued, reconnections), no marker is
  active, and a room state that arrives is adopted: its room, its shared video and its playback are what the worker
  holds, whatever video was shared before.
\<close>

theorem no_share_holds_up_the_room:
  assumes "\<forall>(e, at_ms, wall) \<in> set es. at_ms \<le> T" and "T + pending_local_share_timeout_ms \<le> now"
    and "b = background_run E es (bootstrap_background E p)"
  shows "get_active_pending_local_share_url now b = None
    \<and> (\<exists>s. known_room_state (handle_room_state_message E now state anchor b) = Some s \<and> rs_room_code s = rs_room_code state
         \<and> rs_shared_video s = rs_shared_video state \<and> rs_playback s = rs_playback state
         \<and> bg_room_code (handle_room_state_message E now state anchor b) = Some (rs_room_code state))"
proof -
  have "tidy T b" using tidy_run [OF tidy_start assms(1)] assms(3) by simp
  then have "get_active_pending_local_share_url now b = None"
    using assms(2) by (auto simp: tidy_def marker_by_def get_active_pending_local_share_url_def split: option.split)
  then show ?thesis using applied_when_free by blast
qed

definition sample_shared_video :: shared_video where
  "sample_shared_video =
     \<lparr> sv_video_id = ''BV1'', sv_url = ''https://www.bilibili.com/video/BV1'', sv_title = ''t'', sv_shared_by_member_id = None,
       sv_shared_by_display_name = None \<rparr>"

definition sample_empty_room :: room_state where
  "sample_empty_room = \<lparr> rs_room_code = ''ABC123'', rs_shared_video = None, rs_playback = None, rs_members = [] \<rparr>"

text \<open>A share at 100 ms sets the marker; at 10100 ms an empty room is believed.\<close>

theorem no_share_holds_up_the_room_witness:
  "\<exists>b. b = background_run sample_background_env [(Socket_Opens 1, 10, 10), (Share_Wanted (Some (sample_shared_video, None)) None, 100, 100)]
           (bootstrap_background sample_background_env sample_session)
     \<and> bg_pending_local_share_url b = Some (sv_url sample_shared_video)
     \<and> get_active_pending_local_share_url 10100 b = None
     \<and> (\<exists>s. known_room_state (handle_room_state_message sample_background_env 10100 sample_empty_room 10100 b) = Some s
          \<and> rs_shared_video s = None)"
proof -
  let ?es = "[(Socket_Opens 1, 10, 10), (Share_Wanted (Some (sample_shared_video, None)) None, 100, 100)]
    :: (background_event \<times> rat \<times> rat) list"
  let ?b = "background_run sample_background_env ?es (bootstrap_background sample_background_env sample_session)"
  have times: "\<forall>(e, at_ms, wall) \<in> set ?es. at_ms \<le> 100" by simp
  have late: "100 + pending_local_share_timeout_ms \<le> (10100 :: rat)" by (simp add: pending_local_share_timeout_ms_def)
  have marker: "bg_pending_local_share_url ?b = Some (sv_url sample_shared_video)" by code_simp
  from no_share_holds_up_the_room [OF times late refl, of sample_background_env sample_session sample_empty_room 10100] marker
  show ?thesis by (auto simp: sample_empty_room_def)
qed

end
