(* ===== verification/Background_Shares.thy ===== *)
theory Background_Shares
  imports Background_Events
begin

text \<open>
  What the worker sends to the server about shares: an automatic share goes out only while its reason still
  holds, a share made without a connection reaches the room that is created for it, and a change of the
  server address while a connection attempt is under way is overlooked by that attempt.
\<close>

subsection \<open>What is sent\<close>

lemma connect_sends_nothing [simp]: "bg_sent (fst (connect_to_server E b)) = bg_sent b"
  by (auto simp: connect_to_server_def open_socket_with_probe_def refuse_server_url_def notify_all_def notify_content_scripts_def
      later_def open_socket_def clear_reconnect_timer_def Let_def split: option.split)

lemma sent_by_writable:
  assumes "is_socket_writable b" and "bg_socket b = Some g"
  shows "send_to_server E m b = b\<lparr> bg_sent := bg_sent b @ [(g, m)] \<rparr>"
  using assms by (simp add: send_to_server_def is_socket_writable_def)

lemma writable_iff: "is_socket_writable b = (\<exists>g. bg_socket b = Some g \<and> socket_ready g b = Some Socket_Open)"
  by (auto simp: is_socket_writable_def split: option.split)

text \<open>
  C18. An automatic share is sent only if its reason still holds when the page has been read: the one message that may go
  out is a share of the video the page shows, which is the one the tab moved to; the worker is connected, its socket is
  open, and no fresh room state is awaited; the room still plays the previous video, shared by this member; no share by
  hand is waiting; and the tab is the shared one or takes a place that no tab has.
\<close>

theorem auto_share_is_justified:
  "bg_sent (snd (auto_share_read E now previous_url target_url tab remembered payload b)) = bg_sent b
   \<or> (\<exists>g video playback token. payload = Some (video, Some playback)
        \<and> bg_sent (snd (auto_share_read E now previous_url target_url tab remembered payload b))
          = bg_sent b @ [(g, Video_Share token video (Some (stamped b playback)))]
        \<and> bg_member_token b = Some token \<and> token \<noteq> [] \<and> truthy (bg_room_code b)
        \<and> urls_equal E (sv_url video) target_url \<and> bg_connected b \<and> bg_socket b = Some g \<and> socket_ready g b = Some Socket_Open
        \<and> bg_awaiting_fresh_room_state b = False \<and> classify_room_schedule E now previous_url b = On_Scheduled
        \<and> has_active_pending_manual_share now b = False
        \<and> (remembered \<or> tab \<noteq> None \<and> bg_shared_tab_id b = None))"
proof (cases payload)
  case None then show ?thesis by (simp add: auto_share_read_def)
next
  case (Some vp)
  obtain video pb where vp: "vp = (video, pb)" by fastforce
  obtain claimed b1 where claim: "(if remembered then (True, b) else reclaim_shared_source_tab_if_unclaimed tab b) = (claimed, b1)"
    by fastforce
  have b1: "b1 = b \<or> b1 = b\<lparr> bg_shared_tab_id := tab \<rparr>"
    using claim by (auto simp: reclaim_shared_source_tab_if_unclaimed_def split: if_splits)
  have reason: "claimed \<Longrightarrow> remembered \<or> tab \<noteq> None \<and> bg_shared_tab_id b = None"
    using claim by (auto simp: reclaim_shared_source_tab_if_unclaimed_def split: if_splits)
  obtain refused b2 where q: "queue_or_send_shared_video E now video pb tab True b1 = (refused, b2)" by fastforce
  have unfolded: "snd (auto_share_read E now previous_url target_url tab remembered payload b) =
      (if \<not> urls_equal E (sv_url video) target_url \<or> pb = None \<or> classify_room_schedule E now previous_url b \<noteq> On_Scheduled then b
       else if \<not> claimed \<or> must_defer_auto_share b1 \<or> has_active_pending_manual_share now b1 then b1
       else if refused then b2 else later Notify_Task b2)"
    using claim q by (cases pb) (simp_all add: auto_share_read_def Some vp)
  have same: "bg_sent b1 = bg_sent b" "must_defer_auto_share b1 = must_defer_auto_share b"
    "has_active_pending_manual_share now b1 = has_active_pending_manual_share now b" "is_socket_writable b1 = is_socket_writable b"
    "bg_connected b1 = bg_connected b" "bg_socket b1 = bg_socket b" "bg_room_code b1 = bg_room_code b"
    "bg_member_token b1 = bg_member_token b" "stamped b1 = stamped b" "socket_ready g b1 = socket_ready g b" for g
    using b1 by (auto simp: must_defer_auto_share_def is_socket_writable_def socket_ready_def has_active_pending_manual_share_def
        get_active_pending_local_share_url_def stamped_def fun_eq_iff cong: option.case_cong)
  show ?thesis
  proof (cases "urls_equal E (sv_url video) target_url \<and> pb \<noteq> None \<and> classify_room_schedule E now previous_url b = On_Scheduled
      \<and> claimed \<and> \<not> must_defer_auto_share b \<and> \<not> has_active_pending_manual_share now b")
    case False then show ?thesis unfolding unfolded using same by auto
  next
    case True
    then obtain playback where pb: "pb = Some playback" by blast
    obtain g where g: "bg_socket b = Some g" "socket_ready g b = Some Socket_Open"
      using True by (auto simp: must_defer_auto_share_def is_socket_writable_def split: option.splits)
    define b3 where "b3 = remember_shared_source tab (sv_url video) b1"
    define b4 where "b4 = set_pending_local_share now (sv_url video) True b3"
    have fields: "bg_sent b4 = bg_sent b1" "bg_socket b4 = bg_socket b1" "bg_sockets b4 = bg_sockets b1"
      "bg_socket b3 = bg_socket b1" "bg_sockets b3 = bg_sockets b1" "bg_connected b3 = bg_connected b1"
      "bg_room_code b3 = bg_room_code b1" "bg_member_token b3 = bg_member_token b1" "bg_member_id b3 = bg_member_id b1"
      by (simp_all add: b4_def b3_def set_pending_local_share_def remember_shared_source_def)
    have member: "bg_member_id b1 = bg_member_id b" using b1 by auto
    have open1: "socket_ready g b1 = Some Socket_Open" "bg_socket b1 = Some g" using same g by simp_all
    have b3: "bg_sent b3 = bg_sent b" by (simp add: b3_def remember_shared_source_def same)
    have b4: "bg_sent b4 = bg_sent b" "bg_socket b4 = Some g" "bg_connected b3"
      "bg_room_code b3 = bg_room_code b" "bg_member_token b3 = bg_member_token b" "stamped b3 = stamped b"
      using True same(1,5,7,8) open1 member by (simp_all add: fields stamped_def fun_eq_iff must_defer_auto_share_def)
    have writable: "is_socket_writable b4" "is_socket_writable b3"
      using open1 by (auto simp: writable_iff socket_ready_def fields)
    have final: "bg_sent (snd (auto_share_read E now previous_url target_url tab remembered payload b)) = bg_sent b2"
      unfolding unfolded using True same pb by (simp add: later_def)
    show ?thesis
    proof (cases "truthy (bg_room_code b) \<and> truthy (bg_member_token b)")
      case sending: True
      then obtain token where token: "bg_member_token b = Some token" "token \<noteq> []" by (cases "bg_member_token b") auto
      have "bg_sent b2 = bg_sent b @ [(g, Video_Share token video (Some (stamped b playback)))]"
        using q sending b4 token writable sent_by_writable [OF writable(1) b4(2)] unfolding queue_or_send_shared_video_def Let_def b3_def [symmetric]
          b4_def [symmetric] by (auto simp: pb queue_share_def split: if_splits)
      then show ?thesis
        unfolding final using True Some vp pb token g sending reason by (auto simp: must_defer_auto_share_def)
    next
      case False
      have "bg_sent b2 = bg_sent b"
        using q False b3 b4 writable unfolding queue_or_send_shared_video_def Let_def b3_def [symmetric] b4_def [symmetric]
        by (auto simp: queue_share_def later_def forget_room_def split: if_splits)
      then show ?thesis unfolding final by simp
    qed
  qed
qed

subsection \<open>A change of the server address that is overlooked\<close>

text \<open>
  The address changes while the health address of the old server is asked: the attempt goes on, and the socket it opens
  leads to the old server, for a room the worker still means to be in.
\<close>

definition slow_background_env :: background_env where
  "slow_background_env = sample_background_env\<lparr> be_has_health := (\<lambda>_. True) \<rparr>"

lemma changed_address_is_overlooked:
  "\<exists>b info. b = background_run slow_background_env
       [(Server_Url_Chosen ''wss://new'', 10, 10), (Task_Proceeds 1 Goes_On, 20, 20), (Task_Proceeds 0 (Probe_Says Health_Reached), 30, 30)]
       (bootstrap_background slow_background_env sample_session)
     \<and> bg_server_url b = ''wss://new'' \<and> bg_socket b = Some 1 \<and> bg_sockets b 1 = Some info \<and> sk_url info = ''wss://host''
     \<and> bg_room_code b = Some ''ABC123''"
proof -
  let ?b = "background_run slow_background_env
       [(Server_Url_Chosen ''wss://new'', 10, 10), (Task_Proceeds 1 Goes_On, 20, 20), (Task_Proceeds 0 (Probe_Says Health_Reached), 30, 30)]
       (bootstrap_background slow_background_env sample_session)"
  have "bg_server_url ?b = ''wss://new''" "bg_socket ?b = Some 1" "map_option sk_url (bg_sockets ?b 1) = Some ''wss://host''"
    "bg_room_code ?b = Some ''ABC123''" by code_simp+
  then show ?thesis by auto
qed

subsection \<open>A share without a room\<close>

text \<open>The share waits, with nothing else going on.\<close>

definition share_waits :: "shared_video \<Rightarrow> playback_state option \<Rightarrow> background \<Rightarrow> bool" where
  "share_waits video playback b =
     (bg_pending_shared_video b = Some video \<and> bg_pending_shared_playback b = playback \<and> \<not> truthy (bg_room_code b)
      \<and> \<not> bg_connected b)"

definition starts_afresh :: "background \<Rightarrow> bool" where
  "starts_afresh b =
     (bg_socket b = None \<and> bg_connect_probe b = None \<and> bg_tasks b = [] \<and> \<not> truthy (bg_room_code b) \<and> \<not> bg_connected b)"

lemma share_is_queued:
  assumes "starts_afresh b" and "b' = share_current_video E now (Some (video, playback)) tab b"
  shows "share_waits video (map_option (stamped b) playback) b' \<and> bg_tasks b' = [Share_Create_Task, Notify_Task]
    \<and> bg_socket b' = None \<and> bg_connect_probe b' = None \<and> bg_sent b' = bg_sent b \<and> bg_server_url b' = bg_server_url b
    \<and> bg_socket_generation b' = bg_socket_generation b \<and> bg_display_name b' = bg_display_name b"
  using assms(1) unfolding assms(2)
  by (cases playback) (simp_all add: starts_afresh_def share_current_video_def queue_or_send_shared_video_def Let_def queue_share_def
      set_pending_local_share_def remember_shared_source_def forget_room_def later_def share_waits_def stamped_def)

lemma share_asks_for_connection:
  assumes "share_waits video playback b" and "bg_tasks b = [Share_Create_Task, Notify_Task]" and "bg_socket b = None"
    and "bg_connect_probe b = None" and "validate_server_url E (bg_server_url b) = Some url" and "validate_server_url E url = Some url"
    and "\<not> be_has_check E url" and "be_has_health E url" and "b' = background_task_proceeds E 0 Goes_On now b"
  shows "share_waits video playback b' \<and> bg_socket b' = None \<and> bg_connect_probe b' = Some (bg_next b)
    \<and> bg_tasks b' = [Notify_Task, Probe_Task (bg_next b) (bg_connect_epoch b) url Checking_Health False,
                      Share_Create_Connected_Task (Some (bg_next b))]
    \<and> bg_connect_epoch b' = bg_connect_epoch b \<and> bg_sent b' = bg_sent b
    \<and> bg_socket_generation b' = bg_socket_generation b \<and> bg_display_name b' = bg_display_name b"
  using assms(1-8) unfolding assms(9)
  by (simp add: background_task_proceeds_def connect_and_then_def connect_to_server_def open_socket_with_probe_def
      clear_reconnect_timer_def Let_def later_def share_waits_def)

lemma server_is_reached:
  assumes "share_waits video playback b" and "bg_socket b = None" and "bg_connect_probe b = Some p"
    and "bg_tasks b = [Notify_Task, Probe_Task p (bg_connect_epoch b) url Checking_Health False, Share_Create_Connected_Task (Some p)]"
    and "b1 = background_task_proceeds E 1 (Probe_Says Health_Reached) now b" and "b2 = background_task_proceeds E 1 Goes_On now2 b1"
    and "g = bg_socket_generation b + 1"
  shows "share_waits video playback b2 \<and> bg_socket b2 = Some g \<and> bg_pending_create_room b2
    \<and> bg_sockets b2 g = Some \<lparr> sk_url = url, sk_ready = Socket_Connecting, sk_saw_open = False, sk_reachable = True, sk_closed = False \<rparr>
    \<and> bg_tasks b2 = [Notify_Task] \<and> bg_sent b2 = bg_sent b \<and> bg_display_name b2 = bg_display_name b"
proof -
  have b1: "share_waits video playback b1" "bg_socket b1 = Some g" "bg_sent b1 = bg_sent b" "bg_display_name b1 = bg_display_name b"
    "bg_sockets b1 g = Some \<lparr> sk_url = url, sk_ready = Socket_Connecting, sk_saw_open = False, sk_reachable = True, sk_closed = False \<rparr>"
    "bg_tasks b1 = [Notify_Task, Share_Create_Connected_Task (Some p)]"
    using assms(1-4) unfolding assms(5,7)
    by (simp_all add: background_task_proceeds_def answers_stage_def probe_opens_def settle_probe_def open_socket_def Let_def
        share_waits_def)
  show ?thesis
    using b1 unfolding assms(6)
    by (simp add: background_task_proceeds_def waits_for_probe_def probe_under_way_def create_connected_def later_def share_waits_def)
qed

lemma room_is_created:
  assumes "share_waits video playback b" and "bg_socket b = Some g" and "bg_pending_create_room b"
    and "bg_sockets b g = Some \<lparr> sk_url = url, sk_ready = Socket_Connecting, sk_saw_open = False, sk_reachable = True, sk_closed = False \<rparr>"
    and "is_server_message (be_parse_url E) v" and "read_server_message v = Some (Srv_Room_Created p)"
    and "cp_member_token p \<noteq> []" and "bg_display_name b = None" and "cp_room_code p \<noteq> []"
    and "b1 = socket_opens E g wall b" and "b2 = socket_message E g (Some v) now wall2 b1"
  shows "bg_sent b2 = bg_sent b @ [(g, Room_Create (Some (hello_of b))), (g, Sync_Ping wall)]
    \<and> bg_tasks b2 = bg_tasks b @ [Established_Task] \<and> should_flush_pending_share b2 \<and> bg_socket b2 = Some g
    \<and> bg_member_token b2 = Some (cp_member_token p) \<and> bg_room_code b2 = Some (cp_room_code p)
    \<and> bg_pending_shared_video b2 = Some video \<and> bg_pending_shared_playback b2 = playback"
proof -
  have b1: "bg_sent b1 = bg_sent b @ [(g, Room_Create (Some (hello_of b))), (g, Sync_Ping wall)]" "bg_tasks b1 = bg_tasks b"
    "bg_socket b1 = Some g" "bg_pending_shared_video b1 = Some video" "bg_pending_shared_playback b1 = playback"
    "bg_connected b1" "socket_ready g b1 = Some Socket_Open" "bg_display_name b1 = None"
    using assms(1-4,8) unfolding assms(10)
    by (simp_all add: socket_opens_def set_socket_def rejoin_after_open_def send_create_request_def send_to_server_def
        socket_ready_def hello_of_def sync_clock_def notify_all_def notify_content_scripts_def share_waits_def)
  show ?thesis
    using b1 assms(5-7,9) unfolding assms(11)
    by (simp add: socket_message_def room_created_def Let_def sync_profile_after_room_established_def later_def
        start_waiting_for_bootstrap_room_state_def stop_waiting_for_bootstrap_room_state_def clear_pending_member_deltas_def
        should_flush_pending_share_def is_socket_writable_def socket_ready_def)
qed

lemma waiting_share_is_flushed:
  assumes "should_flush_pending_share b" and "bg_socket b = Some g" and "bg_pending_shared_video b = Some video"
    and "bg_pending_shared_playback b = playback" and "bg_member_token b = Some token" and "bg_tasks b = ts @ [Established_Task]"
    and "b' = background_task_proceeds E (length ts) Goes_On now b"
  shows "bg_sent b' = bg_sent b @ [(g, Video_Share token video playback)] \<and> bg_pending_shared_video b' = None
    \<and> bg_room_code b' = bg_room_code b"
  using assms(1-6) unfolding assms(7)
  by (auto simp: background_task_proceeds_def room_established_def flush_pending_share_def should_flush_pending_share_def
      send_to_server_def is_socket_writable_def socket_ready_def Let_def notify_all_def notify_content_scripts_def)


text \<open>The message that a server sends when it has created a room.\<close>

definition sample_created_message :: js_value where
  "sample_created_message =
     Obj [(''type'', Str ''room:created''),
          (''payload'', Obj [(''roomCode'', Str ''ABC123''), (''memberId'', Str ''m1''), (''joinToken'', Str ''jjjjjjjjjjjjjjjj''),
             (''memberToken'', Str ''mmmmmmmmmmmmmmmm''), (''serverProtocolVersion'', Num (Finite 5))])]"

definition sample_created_payload :: created_payload where
  "sample_created_payload =
     \<lparr> cp_room_code = ''ABC123'', cp_member_id = ''m1'', cp_join_token = ''jjjjjjjjjjjjjjjj'', cp_member_token = ''mmmmmmmmmmmmmmmm'',
       cp_server_protocol_version = Some 5 \<rparr>"

definition sample_offline_video :: shared_video where
  "sample_offline_video =
     \<lparr> sv_video_id = ''BV1'', sv_url = ''https://www.bilibili.com/video/BV1'', sv_title = ''t'', sv_shared_by_member_id = None,
       sv_shared_by_display_name = None \<rparr>"


end
