(* ===== verification/Spec2Isabelle.thy ===== *)
theory Spec2Isabelle
  imports Protocol Rate_Limit Playback_Authority Shared_Owner Room_Store Runtime_Store Room_Sharing
    Room_Admission Room_Outcomes Handler_Outcomes Room_Events Resync_Delivery Admin_Login Upgrade_Limits Socket_Sessions Clock_Sync
    Corrections Apply_Order Page_Silence Page_Actions Auto_Share_Next Server_Messages Durable_Writes
    Background_Reconnect Background_Order Background_Shares
begin

text \<open>
  Bili-SyncPlay lets people watch Bilibili videos together. A browser extension shares the video of one member and keeps
  the players of the others on it; a WebSocket server holds the rooms. This library models the code that carries that
  logic, in the source's order and with its names, and proves what makes it correct. All paths below are under
  \<open>src/\<close>; \<open>server/\<close> stands for \<open>server/src/\<close>, \<open>content/\<close> and \<open>background/\<close> for those directories of
  \<open>extension/src/\<close>.

  THE PROGRAM AND ITS PARTS. A page of the extension (content script) watches the media element and reports what the user
  does to the background worker, which owns the one WebSocket to the server. The server admits the socket
  (\<open>server/security.ts\<close>), gives it a session (\<open>server/ws-session-handler.ts\<close>), guards, meters and dispatches its
  messages (\<open>server/message-handler.ts\<close>), and executes them on rooms and members (\<open>server/room-service.ts\<close>) that
  live in two stores (\<open>server/room-store.ts\<close>, \<open>server/runtime-store.ts\<close>) shared with other nodes. What a room
  owes to its members is published through a queue that retries (\<open>server/pending-resync-queue.ts\<close>). A room state that
  arrives at the worker is stored, anchored on the local clock (\<open>background/clock-sync.ts\<close>) and handed to the pages,
  where it is applied to the element, if nothing newer came (\<open>content/room-state-apply-controller.ts\<close>).

  HOW THE MODEL IS MADE. Records of the source are records, unions are datatypes, errors are values, JavaScript numbers are
  rationals where they are finite (\<open>js_number\<close> has the other ones, for the guards), texts are lists of characters,
  \<open>Map\<close>s whose order matters are association lists (\<open>Prelude\<close>). Time is an argument. Code that awaits is cut at its
  awaits: what follows one is a task, a phase or a suspension point, so that every order in which storage, network, timers
  and other requests can answer is a run of the model, and every theorem about runs or worlds covers all of them. Logs,
  metrics and the wording of messages are left out throughout. What the code only calls is a parameter: the URL parser of
  the platform, \<open>JSON.parse\<close>, address syntax, how a number prints, the browser's answers, what other requests do.

  THE THEORIES, by part.

  Shared. \<open>Prelude\<close>: JavaScript values, ordered maps, prefixes and digits, and the locale \<open>metered\<close> of counters.
  \<open>Video_Ref\<close>: \<open>packages/protocol/src/video-ref.ts\<close>, recognising and normalising video addresses.
  \<open>Protocol\<close>: the wire types and the guards of client messages (\<open>guards/primitives.ts\<close>, \<open>guards/client-message.ts\<close>),
  with a reader and a writer. \<open>Server_Messages\<close>: the same for what the server sends (\<open>guards/server-message.ts\<close>).

  Server, admission. \<open>Rate_Limit\<close>: fixed window and token bucket (\<open>rate-limit.ts\<close>), both instances of
  \<open>metered\<close>. \<open>Connection_Security\<close>, \<open>Upgrade_Limits\<close>: \<open>security.ts\<close>, \<open>origin.ts\<close>; the upgrade policy is a third
  instance. \<open>Socket_Sessions\<close>: \<open>ws-session-handler.ts\<close> as a transition system of sockets and sessions.

  Server, stores. \<open>Server_Types\<close>: \<open>types.ts\<close>. \<open>Room_Store\<close>: \<open>room-store.ts\<close>, its compare-and-set interface the locale
  \<open>cas_store\<close>. \<open>Lease_Table\<close>, \<open>Runtime_Store\<close>: \<open>runtime-store.ts\<close>, \<open>runtime-store-state.ts\<close>; message slots and room
  locks are two instances of the locale \<open>lease_table\<close>.

  Server, requests. \<open>Request_Effects\<close>: what a request runs in, its world of schedules and faults.
  \<open>Playback_Authority\<close>, \<open>Shared_Owner\<close>: \<open>playback-authority.ts\<close>, \<open>shared-video-owner.ts\<close>. \<open>Room_Service\<close>:
  \<open>room-service.ts\<close>, function by function. \<open>Service_Rules\<close>: the proof rules for it, locales \<open>stable\<close> and
  \<open>collector\<close> (what every operation may add to the trace), interpreted once per question in \<open>Room_Safety\<close>,
  \<open>Room_Sharing\<close>, \<open>Room_Admission\<close>. \<open>Room_Outcomes\<close>: the results of undisturbed requests.
  \<open>Message_Handler\<close>: \<open>message-handler.ts\<close> with its events (\<open>room-event-bus.ts\<close>); \<open>Handler_Replies\<close>,
  \<open>Handler_Switching\<close> (locale \<open>handler_relation\<close>) and \<open>Handler_Outcomes\<close> are about it. \<open>Resync_Queue\<close>,
  \<open>Resync_Delivery\<close>: \<open>pending-resync-queue.ts\<close>, \<open>retry-pacer.ts\<close> as an inductive step relation.
  \<open>Room_Events\<close>: \<open>room-event-consumer.ts\<close>, what a node tells its members when an event of a room arrives.
  \<open>Durable_Writes\<close>: \<open>durable-write-queue.ts\<close>, the retried writes behind the stores, per key in order.

  Server, operators. \<open>Admin_Login\<close>: \<open>admin/login-rate-limit.ts\<close> (one more instance of \<open>metered\<close>),
  \<open>admin/auth-service.ts\<close>, \<open>admin/csrf.ts\<close> and the login and logout of \<open>admin/routes/auth-routes.ts\<close>.

  Extension, background worker. \<open>Clock_Sync\<close>: \<open>clock-sync.ts\<close>, \<open>clock-controller.ts\<close>. \<open>Background_State\<close>: the
  state (\<open>runtime-state.ts\<close>) and the decisions that only compute. \<open>Background_Link\<close>: \<open>socket-controller.ts\<close> up to its
  timers, \<open>socket-lifecycle.ts\<close>, sending and the marker of a share. \<open>Background_Room\<close>: \<open>room-session-controller.ts\<close>
  and the tab of the shared video. \<open>Background_Worker\<close>: socket events, shares, requests of popup and pages.
  \<open>Background_Events\<close>: the worker as a machine, \<open>background_step\<close> over \<open>background_event\<close>, and its start.
  \<open>Background_Reconnect\<close>, \<open>Background_Order\<close>, \<open>Background_Shares\<close>: what holds of all its runs.

  Extension, pages. \<open>Content_State\<close>: \<open>content/runtime-state.ts\<close>. \<open>Playback_Rules\<close>, \<open>Sync_Guards\<close>: the decisions of
  \<open>playback-reconcile.ts\<close>, \<open>playback-apply.ts\<close>, \<open>playback-broadcast.ts\<close>, \<open>sync-guards.ts\<close>. \<open>Player_Binding\<close>,
  \<open>Soft_Apply\<close>: writes to the element and correction sessions. \<open>Sync_Apply\<close>, \<open>Room_State_Apply\<close>: room to player.
  \<open>Sync_Broadcast\<close>: player to room. \<open>Page_Identity\<close>: \<open>video-identity.ts\<close>, \<open>shared/url.ts\<close>, \<open>gesture-tracker.ts\<close>.
  \<open>Playback_Binding\<close>, \<open>Page_Events\<close>: \<open>playback-binding-controller.ts\<close> and the page as a machine.
  \<open>Auto_Share_Next\<close>: \<open>auto-share-next-controller.ts\<close>, how the page of the sharer asks for the next video.
  \<open>Corrections\<close>, \<open>Apply_Order\<close>, \<open>Broadcast_Safety\<close>, \<open>Page_Silence\<close>, \<open>Page_Actions\<close> are about these.

  WHAT THE THEOREMS SHOW. Authority: a request writes to a room only as the authenticated member it comes from, seats nobody
  above the limit, attributes shares and stamps playback itself, under every interleaving and failure of its calls.
  Mutual exclusion: one writer per version, one holder per lease. Accounting: connections are counted exactly, attempts are
  bounded, publishes stay paced. Delivery: every text is answered or ends its socket, every owed resync is published by a bus
  that accepts, in a bounded number of steps, and no resync brings back a member who left. Durable writes of a key start in order with one
  command out at a time, and their confirmation is honest. Events of a room reach the members who are in it when
  they are sent, and all of them. Operators have logged in, guessing passwords is slow, and the sweep of the login
  limiter cannot be seen. Membership: joins and leaves do
  what they say, identities survive a disconnect for their retention and a teardown removes one generation. The wire: guards
  accept exactly what reads as well formed, what is written reads back, and what a server takes from one member the
  extensions of the others accept. Time: the published clock offset is close to the true one, and positions do not depend on
  it. The player: snapshots of a member apply in order, corrections neither overshoot nor fail to close the drift, the page
  is silent while it follows and loud when the user acts; it asks to share a next video for the current navigation only. The worker: a member of a room always has a way back to the
  server, room states reach the pages in order, no share shuts out the room for more than ten seconds, automatic shares go
  out only while justified, and a share made offline reaches the room that is created for it.

  BOUNDS AND FUEL. The retry of a room lock has fuel of 201 turns, more than the attempts its deadline allows
  (\<open>lock_fuel_suffices\<close>). A share retries at most three times, as in the source. The queue of resyncs needs at
  most eight steps per outstanding room (\<open>backlog_drains_in_bounded_steps\<close>). Windows, thresholds and limits are the
  constants of the source. Nothing else is bounded: runs, rooms, members, schedules and queues are arbitrary.

  NOT MODELLED. The Redis stores and buses: their behaviour is that of Lua scripts run by an external service; the in-memory
  stores implement the same interfaces. The admin API beyond login and sessions, its pages and the admin front end; configuration, logging, metrics and
  process wiring; the heartbeat of sockets, the reaper and the maintenance pass; benchmarks and scripts. In the
  extension: the popup, the share button and toasts, navigation, announcements,
  storage, the diagnostics. These touch the DOM, browser APIs or operators, and decide little of what the members see of each
  other. What a modelled part leaves out is said at the head of its theory.
\<close>

end
